(* ===== verification/Prelude.thy ===== *)
theory Prelude
  imports Main "HOL-Library.Word" "HOL-Library.Monad_Syntax"
begin

text \<open>
  What the components share: the machine-integer types, the little-endian byte assembly the C++
  writes as a shift-and-or loop, the narrowing casts to 32 bits, one combinator for loops whose
  body may leave by \<open>return false\<close>, by \<open>break\<close> or by falling through to the next iteration, and
  list lemmas.
\<close>

unbundle bit_operations_syntax

type_synonym u8 = "8 word"
type_synonym u32 = "32 word"
type_synonym u64 = "64 word"
type_synonym bytes = "u8 list"

named_theorems advances_intros "a reader only moves its cursor forward, inside the buffer"
named_theorems rest_simps "what a reader does, in terms of the unread bytes"

section \<open>Narrowing casts\<close>

text \<open>
  \<open>static_cast<std::int32_t>(v)\<close> of a 64-bit value keeps the low 32 bits, read as two's complement.
\<close>

definition to_i32 :: "int \<Rightarrow> int" where
  "to_i32 v = signed_take_bit 31 v"

lemma to_i32_id: "- (2 ^ 31) \<le> v \<Longrightarrow> v < 2 ^ 31 \<Longrightarrow> to_i32 v = v"
  by (simp add: to_i32_def signed_take_bit_int_eq_self)

lemma to_i32_bounds: "- (2 ^ 31) \<le> to_i32 v" "to_i32 v < 2 ^ 31"
  using signed_take_bit_int_greater_eq_minus_exp [of 31 v] signed_take_bit_int_less_exp [of 31 v]
  by (simp_all add: to_i32_def)

lemma unat_of_nat_less: "n < 2 ^ LENGTH('a) \<Longrightarrow> unat (of_nat n :: 'a::len word) = n"
  by (simp add: unat_of_nat)

section \<open>Little-endian assembly\<close>

text \<open>
  The loop \<open>for (b = 0; b < n; ++b) bits |= static_cast<uintN_t>(p[b]) << (8 * b);\<close>: the bytes still
  to come, the index of the first of them, and the accumulator.
\<close>

primrec le_acc :: "nat \<Rightarrow> bytes \<Rightarrow> 'a::len word \<Rightarrow> 'a word" where
  "le_acc i [] acc = acc"
| "le_acc i (b # bs) acc = le_acc (Suc i) bs (acc OR push_bit (8 * i) (ucast b))"

definition le_word :: "bytes \<Rightarrow> 'a::len word" where
  "le_word bs = le_acc 0 bs 0"

text \<open>The reference encoder: the \<open>n\<close> low bytes of a word, least significant first.\<close>

definition le_bytes :: "nat \<Rightarrow> 'a::len word \<Rightarrow> bytes" where
  "le_bytes n w = map (\<lambda>i. ucast (drop_bit (8 * i) w)) [0..<n]"

lemma length_le_bytes [simp]: "length (le_bytes n w) = n"
  by (simp add: le_bytes_def)

lemma le_bytes_Nil [simp]: "le_bytes n w = [] \<longleftrightarrow> n = 0" "[] = le_bytes n w \<longleftrightarrow> n = 0"
  by (auto simp: le_bytes_def)

lemma bit_le_acc:
  "bit (le_acc i bs acc :: 'a::len word) k \<longleftrightarrow>
     bit acc k \<or> (k < LENGTH('a) \<and> 8 * i \<le> k \<and> (k - 8 * i) div 8 < length bs
                   \<and> bit (bs ! ((k - 8 * i) div 8)) ((k - 8 * i) mod 8))"
proof (induction bs arbitrary: i acc k)
  case Nil
  then show ?case by simp
next
  case (Cons b bs)
  have first: "bit (push_bit (8 * i) (ucast b :: 'a word)) k \<longleftrightarrow>
      k < LENGTH('a) \<and> 8 * i \<le> k \<and> k - 8 * i < 8 \<and> bit b (k - 8 * i)"
    by (auto simp: bit_push_bit_iff bit_ucast_iff dest: bit_imp_le_length)
  show ?case
  proof (cases "8 * i \<le> k")
    case False
    then show ?thesis by (simp add: Cons.IH bit_or_iff bit_push_bit_iff)
  next
    case True
    then obtain j where k: "k = 8 * i + j" by (auto simp: le_iff_add)
    show ?thesis
    proof (cases "j < 8")
      case True
      then show ?thesis by (auto simp: Cons.IH bit_or_iff bit_push_bit_iff bit_ucast_iff k)
    next
      case False
      then obtain j' where j: "j = 8 + j'" using le_Suc_ex not_less by blast
      have "\<not> bit (push_bit (8 * i) (ucast b :: 'a word)) k" using first j k by simp
      moreover have "(8 + j') div 8 = Suc (j' div 8)" by simp
      ultimately show ?thesis by (simp add: Cons.IH bit_or_iff j k)
    qed
  qed
qed

lemma bit_le_word:
  "bit (le_word bs :: 'a::len word) k \<longleftrightarrow>
     k < LENGTH('a) \<and> k div 8 < length bs \<and> bit (bs ! (k div 8)) (k mod 8)"
  by (simp add: le_word_def bit_le_acc)

text \<open>Assembling what the encoder wrote gives back the bits it wrote.\<close>

lemma le_word_le_bytes_take_bit: "le_word (le_bytes n w) = take_bit (8 * n) (w :: 'a::len word)"
proof (rule bit_eqI)
  fix k
  have "k div 8 < n \<longleftrightarrow> k < 8 * n" by (simp add: less_mult_imp_div_less div_less_iff_less_mult mult.commute)
  moreover have "8 * (k div 8) + k mod 8 = k" by simp
  ultimately show "bit (le_word (le_bytes n w) :: 'a word) k \<longleftrightarrow> bit (take_bit (8 * n) w) k"
    using bit_imp_le_length [of w k]
    by (cases "k < LENGTH('a)")
      (auto simp: bit_le_word le_bytes_def bit_ucast_iff bit_drop_bit_eq bit_take_bit_iff)
qed

lemma le_word_le_bytes:
  fixes w :: "'a::len word"
  shows "LENGTH('a) \<le> 8 * n \<Longrightarrow> le_word (le_bytes n w) = w"
  by (simp add: le_word_le_bytes_take_bit take_bit_word_eq_self)

lemma le_word_le_bytes_of_nat:
  assumes "m < 2 ^ (8 * n)" and "8 * n \<le> LENGTH('a::len)"
  shows "le_word (le_bytes n (of_nat m :: 'a word)) = (of_nat m :: 'a word)"
  using assms by (simp add: le_word_le_bytes_take_bit take_bit_of_nat take_bit_nat_eq_self)

text \<open>Reading a bit field of a byte, \<open>(tag >> k) & mask\<close>.\<close>

lemma unat_field:
  assumes "m < 256"
  shows "unat (drop_bit k (of_nat m :: u8)) = m div 2 ^ k"
    and "unat (take_bit j (drop_bit k (of_nat m :: u8))) = m div 2 ^ k mod 2 ^ j"
    and "unat (take_bit j (of_nat m :: u8)) = m mod 2 ^ j"
proof -
  have m: "unat (of_nat m :: u8) = m" using assms by (intro unat_of_nat_less) simp
  show "unat (drop_bit k (of_nat m :: u8)) = m div 2 ^ k"
    unfolding unat_drop_bit_eq m by (rule drop_bit_eq_div)
  show "unat (take_bit j (drop_bit k (of_nat m :: u8))) = m div 2 ^ k mod 2 ^ j"
    unfolding unsigned_take_bit_eq unat_drop_bit_eq m by (simp add: drop_bit_eq_div take_bit_eq_mod)
  show "unat (take_bit j (of_nat m :: u8)) = m mod 2 ^ j"
    unfolding unsigned_take_bit_eq m by (rule take_bit_eq_mod)
qed

lemma and_mask_take_bit:
  "(w :: u8) AND 0x03 = take_bit 2 w" "w AND 0x07 = take_bit 3 w" "w AND 0x0F = take_bit 4 w"
  "w AND 1 = take_bit 1 w"
  by (simp_all add: take_bit_eq_mask mask_eq_exp_minus_1)

lemma bit7_of_nat: "bit (of_nat m :: u8) 7 \<longleftrightarrow> odd (m div 128)"
  using bit_iff_odd [of m 7] by (simp add: bit_of_nat_iff del: bit_iff_odd)

lemma and_0x80: "(w :: u8) AND 0x80 = 0 \<longleftrightarrow> \<not> bit w 7"
  using bit_iff_and_push_bit_not_eq_0 [of w 7] by simp

section \<open>Loops that may fail\<close>

text \<open>
  A C++ loop inside a function that reports failure by \<open>return false\<close>. The body maps the loop state
  to \<open>None\<close> (it executed \<open>return false\<close>), \<open>Some (Inr r)\<close> (it left the loop with the result \<open>r\<close>) or
  \<open>Some (Inl s')\<close> (next iteration). The measure \<open>m\<close> makes the recursion well-founded; the branch
  that stops because the measure did not decrease is not in the source, and the locale
  \<open>measured_loop\<close> below shows that it is never taken when every iteration makes progress, which each
  loop of the model proves by interpreting it.
\<close>

function loop :: "('s \<Rightarrow> nat) \<Rightarrow> ('s \<Rightarrow> ('s + 'r) option) \<Rightarrow> 's \<Rightarrow> 'r option" where
  "loop m body s =
     (case body s of
        None \<Rightarrow> None
      | Some (Inr r) \<Rightarrow> Some r
      | Some (Inl s') \<Rightarrow> if m s' < m s then loop m body s' else None)"
  by pat_completeness auto
termination
  by (relation "measure (\<lambda>(m, body, s). m s)") auto

declare loop.simps [simp del]

locale measured_loop =
  fixes m :: "'s \<Rightarrow> nat" and body :: "'s \<Rightarrow> ('s + 'r) option" and ok :: "'s \<Rightarrow> bool"
  assumes step_ok: "ok s \<Longrightarrow> body s = Some (Inl s') \<Longrightarrow> ok s'"
    and step_less: "ok s \<Longrightarrow> body s = Some (Inl s') \<Longrightarrow> m s' < m s"
begin

lemma unfold:
  "ok s \<Longrightarrow> loop m body s =
     (case body s of None \<Rightarrow> None | Some (Inr r) \<Rightarrow> Some r | Some (Inl s') \<Rightarrow> loop m body s')"
  by (auto simp: loop.simps [of m body s] step_less split: option.splits sum.splits)

lemma result_rule:
  assumes "loop m body s = Some r" and "ok s" and "P s"
    and step: "\<And>s s'. ok s \<Longrightarrow> P s \<Longrightarrow> body s = Some (Inl s') \<Longrightarrow> P s'"
    and exit: "\<And>s r. ok s \<Longrightarrow> P s \<Longrightarrow> body s = Some (Inr r) \<Longrightarrow> Q r"
  shows "Q r"
  using assms(1-3)
proof (induction "m s" arbitrary: s rule: less_induct)
  case less
  show ?case
  proof (cases "body s")
    case None
    with less.prems show ?thesis by (simp add: unfold)
  next
    case (Some d)
    show ?thesis
    proof (cases d)
      case (Inl s')
      with Some have b: "body s = Some (Inl s')" by simp
      moreover from b less.prems(1,2) have "loop m body s' = Some r" by (simp add: unfold)
      ultimately show ?thesis
        using less.hyps [of s'] less.prems(2,3) step_less step_ok step by blast
    next
      case (Inr r')
      with Some less.prems show ?thesis by (auto simp: unfold intro: exit)
    qed
  qed
qed

end

text \<open>
  The same for loops with a counter, \<open>for (i = 0; i < n; ++i) body\<close>: the body cannot see the index.
\<close>

primrec repeat_read :: "nat \<Rightarrow> ('s \<Rightarrow> 's option) \<Rightarrow> 's \<Rightarrow> 's option" where
  "repeat_read 0 f s = Some s"
| "repeat_read (Suc n) f s = (case f s of None \<Rightarrow> None | Some s' \<Rightarrow> repeat_read n f s')"

lemma repeat_read_rule:
  assumes "repeat_read n f s = Some s'" and "P s"
    and "\<And>s s'. P s \<Longrightarrow> f s = Some s' \<Longrightarrow> P s'"
  shows "P s'"
  using assms(1,2) by (induction n arbitrary: s) (auto split: option.splits intro: assms(3))

end
