(* ===== verification/Parquet_Thrift.thy ===== *)
theory Parquet_Thrift
  imports Prelude
begin

text \<open>
  The Thrift compact-protocol primitives of \<open>src/src/ParquetReader.cpp\<close> (\<open>Cursor\<close>, \<open>read_byte\<close> to
  \<open>next_field\<close>): a read position in a byte buffer and readers that return \<open>None\<close> where the C++
  returns \<open>false\<close>. On \<open>false\<close> every caller in the file gives up, so the cursor left behind is not
  part of the model. \<open>std::size_t\<close> positions are \<open>nat\<close>: the only sums formed are a position plus a
  length of at most \<open>2 ^ 32\<close>, far from \<open>2 ^ 64\<close> for a buffer that exists in memory; values read
  from the file keep their width (\<open>u64\<close> for varints).

  The shared contract of all readers is the locale \<open>byte_reader\<close>: a reader that succeeds leaves the
  buffer alone and moves the position forward inside it, which is the comment at \<open>read_binary\<close>
  ("c.pos <= c.size always holds, so this can't underflow").
\<close>

section \<open>Cursor\<close>

record cursor =
  c_data :: bytes
  c_pos :: nat

definition c_size :: "cursor \<Rightarrow> nat" where
  "c_size c = length (c_data c)"

text \<open>\<open>Cursor c{data, size, 0}\<close>.\<close>

definition cursor_at_start :: "bytes \<Rightarrow> cursor" where
  "cursor_at_start bs = \<lparr>c_data = bs, c_pos = 0\<rparr>"

definition cursor_ok :: "cursor \<Rightarrow> bool" where
  "cursor_ok c \<longleftrightarrow> c_pos c \<le> c_size c"

definition remaining :: "cursor \<Rightarrow> nat" where
  "remaining c = c_size c - c_pos c"

definition rest :: "cursor \<Rightarrow> bytes" where
  "rest c = drop (c_pos c) (c_data c)"

definition skip_bytes :: "nat \<Rightarrow> cursor \<Rightarrow> cursor" where
  "skip_bytes n c = c\<lparr>c_pos := c_pos c + n\<rparr>"

lemma cursor_at_start_simps [simp]:
  "cursor_ok (cursor_at_start bs)" "rest (cursor_at_start bs) = bs"
  "c_pos (cursor_at_start bs) = 0" "c_data (cursor_at_start bs) = bs"
  "c_size (cursor_at_start bs) = length bs"
  by (simp_all add: cursor_at_start_def cursor_ok_def rest_def c_size_def)

lemma rest_skip_bytes [simp]: "rest (skip_bytes n c) = drop n (rest c)"
  by (simp add: rest_def skip_bytes_def add.commute)

lemma skip_bytes_simps [simp]:
  "c_data (skip_bytes n c) = c_data c" "c_pos (skip_bytes n c) = c_pos c + n"
  "c_size (skip_bytes n c) = c_size c" "skip_bytes 0 c = c"
  "skip_bytes n (skip_bytes k c) = skip_bytes (k + n) c"
  by (simp_all add: skip_bytes_def c_size_def)

lemma length_rest [simp]: "length (rest c) = remaining c"
  by (simp add: rest_def remaining_def c_size_def)

lemma nth_rest: "i < remaining c \<Longrightarrow> c_data c ! (c_pos c + i) = rest c ! i"
  by (simp add: rest_def remaining_def c_size_def)

text \<open>\<open>advances c c'\<close>: \<open>c'\<close> is \<open>c\<close> moved forward inside the same buffer.\<close>

definition advances :: "cursor \<Rightarrow> cursor \<Rightarrow> bool" where
  "advances c c' \<longleftrightarrow> c_data c' = c_data c \<and> c_pos c \<le> c_pos c' \<and> c_pos c' \<le> c_size c"

lemma advances_ok: "advances c c' \<Longrightarrow> cursor_ok c'"
  by (simp add: advances_def cursor_ok_def c_size_def)

lemma advances_refl [intro]: "cursor_ok c \<Longrightarrow> advances c c"
  by (simp add: advances_def cursor_ok_def)

lemma advances_trans [trans]: "advances a b \<Longrightarrow> advances b c \<Longrightarrow> advances a c"
  by (auto simp: advances_def c_size_def)

lemma advances_remaining: "advances c c' \<Longrightarrow> remaining c' \<le> remaining c"
  by (auto simp: advances_def remaining_def c_size_def)

lemma advances_skip_bytes [intro]: "n \<le> remaining c \<Longrightarrow> cursor_ok c \<Longrightarrow> advances c (skip_bytes n c)"
  by (auto simp: advances_def remaining_def cursor_ok_def c_size_def)

lemma advances_strict: "advances c c' \<Longrightarrow> c_pos c < c_pos c' \<Longrightarrow> remaining c' < remaining c"
  by (auto simp: advances_def remaining_def c_size_def)

text \<open>\<open>advances1 c c'\<close>: at least one byte was consumed.\<close>

definition advances1 :: "cursor \<Rightarrow> cursor \<Rightarrow> bool" where
  "advances1 c c' \<longleftrightarrow> advances c c' \<and> c_pos c < c_pos c'"

lemma advances1D: "advances1 c c' \<Longrightarrow> advances c c'"
  by (simp add: advances1_def)

lemma advances1_remaining: "advances1 c c' \<Longrightarrow> remaining c' < remaining c"
  by (auto simp: advances1_def intro: advances_strict)

lemma advances1_trans1: "advances1 a b \<Longrightarrow> advances b c \<Longrightarrow> advances1 a c"
  by (auto simp: advances1_def advances_def c_size_def)

lemma advances1_trans2: "advances a b \<Longrightarrow> advances1 b c \<Longrightarrow> advances1 a c"
  by (auto simp: advances1_def advances_def c_size_def)

section \<open>The contract of a reader\<close>

locale byte_reader =
  fixes rd :: "cursor \<Rightarrow> ('a \<times> cursor) option"
  assumes rd_advances: "cursor_ok c \<Longrightarrow> rd c = Some (x, c') \<Longrightarrow> advances c c'"
begin

lemma rd_ok: "cursor_ok c \<Longrightarrow> rd c = Some (x, c') \<Longrightarrow> cursor_ok c'"
  by (blast intro: advances_ok rd_advances)

lemma rd_remaining: "cursor_ok c \<Longrightarrow> rd c = Some (x, c') \<Longrightarrow> remaining c' \<le> remaining c"
  by (blast intro: advances_remaining rd_advances)

text \<open>A reader run after another still obeys the contract.\<close>

lemma rd_after: "advances c c1 \<Longrightarrow> rd c1 = Some (x, c') \<Longrightarrow> advances c c'"
  by (blast intro: advances_trans advances_ok rd_advances)

end

text \<open>A reader that always consumes at least one byte.\<close>

locale strict_reader = byte_reader +
  assumes rd_strict: "cursor_ok c \<Longrightarrow> rd c = Some (x, c') \<Longrightarrow> c_pos c < c_pos c'"
begin

lemma rd_advances1: "cursor_ok c \<Longrightarrow> rd c = Some (x, c') \<Longrightarrow> advances1 c c'"
  by (simp add: advances1_def rd_advances rd_strict)

lemma rd_less: "cursor_ok c \<Longrightarrow> rd c = Some (x, c') \<Longrightarrow> remaining c' < remaining c"
  by (blast intro: advances_strict rd_advances rd_strict)

end

section \<open>Primitive readers\<close>

definition read_byte :: "cursor \<Rightarrow> (u8 \<times> cursor) option" where
  "read_byte c =
     (if c_pos c \<ge> c_size c then None
      else Some (c_data c ! c_pos c, c\<lparr>c_pos := c_pos c + 1\<rparr>))"

lemma read_byte_rest [rest_simps]:
  "read_byte c = (case rest c of [] \<Rightarrow> None | b # _ \<Rightarrow> Some (b, skip_bytes 1 c))"
proof (cases "c_pos c < c_size c")
  case True
  then have "rest c = c_data c ! c_pos c # drop (c_pos c + 1) (c_data c)"
    by (simp add: rest_def c_size_def Cons_nth_drop_Suc)
  with True show ?thesis by (simp add: read_byte_def skip_bytes_def)
next
  case False
  then show ?thesis by (simp add: read_byte_def rest_def c_size_def)
qed

lemma read_byte_Some:
  "read_byte c = Some (b, c') \<Longrightarrow> c' = skip_bytes 1 c \<and> c_pos c < c_size c"
  by (auto simp: read_byte_def skip_bytes_def split: if_splits)

interpretation read_byte: strict_reader read_byte
  by unfold_locales
    (auto dest!: read_byte_Some simp: advances_def cursor_ok_def)

text \<open>
  \<open>read_varint\<close>: at most ten 7-bit groups, least significant first; the eleventh iteration is the
  \<open>return false\<close> after the loop. The shift of the tenth group is by 63, so all but its lowest bit
  fall off the \<open>u64\<close>, as in the C++.
\<close>

function varint_loop :: "nat \<Rightarrow> u64 \<Rightarrow> cursor \<Rightarrow> (u64 \<times> cursor) option" where
  "varint_loop i out c =
     (if i < 10 then
        do {
          (b, c) \<leftarrow> read_byte c;
          let out = out OR push_bit (7 * i) (ucast (b AND 0x7F));
          if b AND 0x80 = 0 then Some (out, c) else varint_loop (Suc i) out c
        }
      else None)"
  by pat_completeness auto
termination
  by (relation "measure (\<lambda>(i, out, c). 10 - i)") auto

declare varint_loop.simps [simp del]

definition read_varint :: "cursor \<Rightarrow> (u64 \<times> cursor) option" where
  "read_varint c = varint_loop 0 0 c"

lemma varint_loop_advances:
  "cursor_ok c \<Longrightarrow> varint_loop i out c = Some (v, c') \<Longrightarrow>
     advances c c' \<and> c_pos c < c_pos c' \<and> c_pos c' + i \<le> c_pos c + 10"
proof (induction i out c rule: varint_loop.induct)
  case (1 i out c)
  from "1.prems"(2) obtain b c1 where i: "i < 10" and b: "read_byte c = Some (b, c1)"
    by (auto simp: varint_loop.simps [of i out c] split: if_splits bind_splits)
  from b "1.prems"(1) have adv: "advances c c1" "c_pos c1 = c_pos c + 1" "cursor_ok c1"
    by (auto dest: read_byte.rd_advances read_byte_Some read_byte.rd_ok)
  show ?case
  proof (cases "b AND 0x80 = 0")
    case True
    with "1.prems"(2) i b adv show ?thesis
      by (auto simp: varint_loop.simps [of i out c])
  next
    case False
    with "1.prems"(2) i b
    have "varint_loop (Suc i) (out OR push_bit (7 * i) (ucast (b AND 0x7F))) c1 = Some (v, c')"
      by (simp add: varint_loop.simps [of i out c])
    with "1.IH" [OF i] b adv False i
    have "advances c1 c' \<and> c_pos c1 < c_pos c' \<and> c_pos c' + Suc i \<le> c_pos c1 + 10" by auto
    with adv show ?thesis by (auto intro: advances_trans)
  qed
qed

interpretation read_varint: strict_reader read_varint
  by unfold_locales (auto simp: read_varint_def dest: varint_loop_advances)

text \<open>
  \<open>read_zigzag_varint\<close>: \<open>static_cast<std::int64_t>(v >> 1) ^ -static_cast<std::int64_t>(v & 1)\<close>,
  computed on 64 bits and read as a signed value.
\<close>

definition zigzag_decode :: "u64 \<Rightarrow> int" where
  "zigzag_decode v = sint (drop_bit 1 v XOR - (v AND 1))"

definition read_zigzag_varint :: "cursor \<Rightarrow> (int \<times> cursor) option" where
  "read_zigzag_varint c = do { (v, c) \<leftarrow> read_varint c; Some (zigzag_decode v, c) }"

interpretation read_zigzag: strict_reader read_zigzag_varint
  by unfold_locales
    (auto simp: read_zigzag_varint_def split: bind_splits
      dest: read_varint.rd_advances read_varint.rd_strict)

text \<open>\<open>read_binary\<close>: a length, then that many bytes.\<close>

definition read_binary :: "cursor \<Rightarrow> (bytes \<times> cursor) option" where
  "read_binary c =
     do {
       (len, c) \<leftarrow> read_varint c;
       if unat len > c_size c - c_pos c then None
       else Some (take (unat len) (drop (c_pos c) (c_data c)), c\<lparr>c_pos := c_pos c + unat len\<rparr>)
     }"

lemma read_binary_Some:
  "cursor_ok c \<Longrightarrow> read_binary c = Some (s, c') \<Longrightarrow>
     \<exists>len c1. read_varint c = Some (len, c1) \<and> unat len \<le> remaining c1 \<and> cursor_ok c1
       \<and> c' = skip_bytes (unat len) c1 \<and> s = take (unat len) (rest c1)"
  by (auto simp: read_binary_def skip_bytes_def remaining_def rest_def
      split: bind_splits if_splits dest: read_varint.rd_ok)

interpretation read_binary: strict_reader read_binary
proof unfold_locales
  fix c s c'
  assume ok: "cursor_ok c" and rd: "read_binary c = Some (s, c')"
  then obtain len c1 where v: "read_varint c = Some (len, c1)" "unat len \<le> remaining c1"
      "cursor_ok c1" and c': "c' = skip_bytes (unat len) c1"
    by (blast dest: read_binary_Some)
  from ok v(1) have "advances c c1" by (rule read_varint.rd_advances)
  moreover from v have "advances c1 c'" unfolding c' by blast
  ultimately show "advances c c'" by (rule advances_trans)
  from ok v(1) have "c_pos c < c_pos c1" by (rule read_varint.rd_strict)
  then show "c_pos c < c_pos c'" by (simp add: c')
qed

text \<open>\<open>read_double\<close>: the eight bytes of an IEEE double, kept as its bit pattern.\<close>

definition read_double :: "cursor \<Rightarrow> (u64 \<times> cursor) option" where
  "read_double c =
     (if c_pos c + 8 > c_size c then None
      else Some (le_word (take 8 (drop (c_pos c) (c_data c))), c\<lparr>c_pos := c_pos c + 8\<rparr>))"

interpretation read_double: strict_reader read_double
  by unfold_locales
    (auto simp: read_double_def advances_def cursor_ok_def c_size_def split: if_splits)

text \<open>\<open>read_list_header\<close>: the element type and the element count of a list or set.\<close>

definition read_list_header :: "cursor \<Rightarrow> ((int \<times> u64) \<times> cursor) option" where
  "read_list_header c =
     do {
       (h, c) \<leftarrow> read_byte c;
       let elem_type = uint (h AND 0x0F);
       let sz = (ucast (drop_bit 4 h AND 0x0F) :: u64);
       (sz, c) \<leftarrow> (if sz = 15 then read_varint c else Some (sz, c));
       if unat sz > c_size c - c_pos c then None else Some ((elem_type, sz), c)
     }"

lemma read_list_header_size:
  "read_list_header c = Some ((et, sz), c') \<Longrightarrow> unat sz \<le> remaining c'"
  by (auto simp: read_list_header_def remaining_def Let_def split: bind_splits if_splits)

interpretation read_list_header: strict_reader read_list_header
proof unfold_locales
  fix c x c'
  assume ok: "cursor_ok c" and rd: "read_list_header c = Some (x, c')"
  then obtain h c1 where h: "read_byte c = Some (h, c1)"
    by (auto simp: read_list_header_def split: bind_splits)
  have c1: "advances c c1" "c_pos c < c_pos c1" "cursor_ok c1"
    using ok h by (auto dest: read_byte.rd_advances read_byte.rd_strict read_byte.rd_ok)
  have "advances c1 c'"
    using rd h c1(3)
    by (auto simp: read_list_header_def Let_def split: bind_splits if_splits
        dest: read_varint.rd_advances)
  with c1 show "advances c c'" "c_pos c < c_pos c'"
    by (blast intro: advances_trans, auto simp: advances_def)
qed

section \<open>Skipping values\<close>

definition kMaxSkipDepth :: nat where
  "kMaxSkipDepth = 64"

text \<open>
  The loop of the STRUCT case of \<open>skip_value\<close>: field headers up to the STOP byte, each followed by a
  value that \<open>sk\<close> skips. (The C++ also accumulates \<open>last_field_id\<close> there, which nothing reads.)
\<close>

definition skip_fields_body ::
  "(cursor \<Rightarrow> int \<Rightarrow> cursor option) \<Rightarrow> cursor \<Rightarrow> (cursor + cursor) option" where
  "skip_fields_body sk c =
     do {
       (b, c) \<leftarrow> read_byte c;
       if b = 0x00 then Some (Inr c)
       else do {
         let type = uint (b AND 0x0F);
         let delta = drop_bit 4 b AND 0x0F;
         c \<leftarrow> (if delta \<noteq> 0 then Some c else map_option snd (read_zigzag_varint c));
         c \<leftarrow> sk c type;
         Some (Inl c)
       }
     }"

definition skip_fields :: "(cursor \<Rightarrow> int \<Rightarrow> cursor option) \<Rightarrow> cursor \<Rightarrow> cursor option" where
  "skip_fields sk c = loop remaining (skip_fields_body sk) c"

text \<open>
  \<open>skip_value\<close> and \<open>skip_list_element\<close> call each other; the depth bound (TD-470) is what makes the
  recursion stop. A list of \<open>size\<close> elements is skipped by \<open>size\<close> runs of the loop body.
\<close>

function skip_value :: "cursor \<Rightarrow> int \<Rightarrow> nat \<Rightarrow> cursor option"
  and skip_list_element :: "cursor \<Rightarrow> int \<Rightarrow> nat \<Rightarrow> cursor option" where
  "skip_value c compact_type depth =
     (if depth > kMaxSkipDepth then None
      else if compact_type = 1 \<or> compact_type = 2 then Some c
      else if compact_type = 3 then map_option snd (read_byte c)
      else if compact_type = 4 \<or> compact_type = 5 \<or> compact_type = 6 then
        map_option snd (read_zigzag_varint c)
      else if compact_type = 7 then map_option snd (read_double c)
      else if compact_type = 8 then map_option snd (read_binary c)
      else if compact_type = 9 \<or> compact_type = 10 then
        do {
          ((elem_type, sz), c) \<leftarrow> read_list_header c;
          repeat_read (unat sz) (\<lambda>c. skip_list_element c elem_type (depth + 1)) c
        }
      else if compact_type = 12 then
        skip_fields (\<lambda>c type. skip_value c type (depth + 1)) c
      else None)"
| "skip_list_element c elem_type depth =
     (if elem_type = 1 \<or> elem_type = 2 then map_option snd (read_byte c)
      else skip_value c elem_type depth)"
  by pat_completeness auto
termination
  by (relation "measure (\<lambda>x. case x of
        Inl (c, t, d) \<Rightarrow> 2 * (kMaxSkipDepth + 1 - d)
      | Inr (c, t, d) \<Rightarrow> 2 * (kMaxSkipDepth + 1 - d) + 1)") auto

declare skip_value.simps [simp del] skip_list_element.simps [simp del]

text \<open>The contract of the function that skips one value, and what the loop makes of it.\<close>

locale value_skipper =
  fixes sk :: "cursor \<Rightarrow> int \<Rightarrow> cursor option"
  assumes sk_advances: "cursor_ok c \<Longrightarrow> sk c t = Some c' \<Longrightarrow> advances c c'"
begin

lemma body_next:
  assumes "cursor_ok c" and "skip_fields_body sk c = Some (Inl c')"
  shows "advances1 c c'"
proof -
  from assms(2) obtain b c1 c2 t where b: "read_byte c = Some (b, c1)"
      and c2: "c2 = c1 \<or> (\<exists>z. read_zigzag_varint c1 = Some (z, c2))" and s: "sk c2 t = Some c'"
    by (fastforce simp: skip_fields_body_def Let_def split: bind_splits if_splits)
  have a1: "advances1 c c1" using assms(1) b by (rule read_byte.rd_advances1)
  then have ok1: "cursor_ok c1" by (blast intro: advances_ok advances1D)
  with c2 have a2: "advances c1 c2" by (auto dest: read_zigzag.rd_advances)
  with s have "advances c2 c'" by (blast intro: sk_advances advances_ok)
  with a1 a2 show ?thesis by (blast intro: advances1_trans1)
qed

lemma body_stop: "cursor_ok c \<Longrightarrow> skip_fields_body sk c = Some (Inr c') \<Longrightarrow> advances1 c c'"
  by (auto simp: skip_fields_body_def Let_def split: bind_splits if_splits
      dest: read_byte.rd_advances1)

sublocale fields: measured_loop remaining "skip_fields_body sk" cursor_ok
  by unfold_locales (auto dest!: body_next intro: advances_ok advances1D advances1_remaining)

lemma skip_fields_advances:
  assumes "cursor_ok c" and "skip_fields sk c = Some c'"
  shows "advances1 c c'"
proof (rule fields.result_rule [where P = "advances c" and Q = "advances1 c",
      OF assms(2) [unfolded skip_fields_def] assms(1)])
  show "advances c c" using assms(1) by blast
qed (blast dest: body_next body_stop intro: advances_trans advances1_trans2 advances1D)+

end

lemma skip_advances:
  "cursor_ok c \<Longrightarrow> skip_value c t d = Some c' \<Longrightarrow> advances c c'"
  "cursor_ok c \<Longrightarrow> skip_list_element c t d = Some c' \<Longrightarrow> advances c c'"
proof (induction c t d and c t d arbitrary: c' and c'
    rule: skip_value_skip_list_element.induct)
  case (1 c t d)
  consider "d > kMaxSkipDepth \<or> t \<in> {1, 2, 3, 4, 5, 6, 7, 8} \<or> t \<notin> {9, 10, 12}"
    | "\<not> d > kMaxSkipDepth" "t = 9 \<or> t = 10" | "\<not> d > kMaxSkipDepth" "t = 12"
    by auto
  then show ?case
  proof cases
    case 1
    with "1.prems" show ?thesis
      by (auto simp: skip_value.simps [of c t d] split: if_splits
          dest: read_byte.rd_advances read_zigzag.rd_advances read_double.rd_advances
            read_binary.rd_advances)
  next
    case 2
    with "1.prems"(2) obtain et sz c1 where h: "read_list_header c = Some ((et, sz), c1)"
        and r: "repeat_read (unat sz) (\<lambda>c. skip_list_element c et (d + 1)) c1 = Some c'"
      by (auto simp: skip_value.simps [of c t d] split: bind_splits)
    have a1: "advances c c1" using "1.prems"(1) h by (rule read_list_header.rd_advances)
    have el: "cursor_ok x \<Longrightarrow> skip_list_element x et (d + 1) = Some y \<Longrightarrow> advances x y" for x y
      using 2 by (intro "1.IH"(1)) (auto simp: h)
    from r a1 show ?thesis
      by (rule repeat_read_rule) (blast intro: el advances_trans advances_ok)
  next
    case 3
    have "value_skipper (\<lambda>c t. skip_value c t (d + 1))"
      using 3 by unfold_locales (rule "1.IH"(2), auto)
    moreover from 3 "1.prems"(2) have "skip_fields (\<lambda>c t. skip_value c t (d + 1)) c = Some c'"
      unfolding skip_value.simps [of c t d] by simp
    ultimately show ?thesis
      using "1.prems"(1) by (blast intro: advances1D value_skipper.skip_fields_advances)
  qed
next
  case (2 c t d)
  then show ?case
    by (auto simp: skip_list_element.simps [of c t d] split: if_splits dest: read_byte.rd_advances)
qed

lemma skip_after: "advances c c1 \<Longrightarrow> skip_list_element c1 t d = Some c' \<Longrightarrow> advances c c'"
  by (blast intro: advances_trans advances_ok skip_advances(2))

interpretation skip: value_skipper "\<lambda>c t. skip_value c t d" for d
  by unfold_locales (rule skip_advances)

section \<open>Field headers and the field loop\<close>

record field_header =
  fh_id :: int
  fh_type :: int
  fh_is_stop :: bool

text \<open>
  \<open>next_field\<close>: a short header carries the distance to the previous field id in its high nibble, a
  long one (nibble 0) the id itself as a zigzag varint narrowed to \<open>int\<close>. The addition
  \<open>last_field_id + delta\<close> is on \<open>int\<close>; where it overflows the C++ has undefined behaviour, and the
  model takes the two's complement result compilers produce. The C++ keeps \<open>last_field_id\<close> in the
  caller; here it is the \<open>fh_id\<close> of the last header returned.
\<close>

definition next_field :: "cursor \<Rightarrow> int \<Rightarrow> (field_header \<times> cursor) option" where
  "next_field c last_field_id =
     do {
       (b, c) \<leftarrow> read_byte c;
       if b = 0x00 then Some (\<lparr>fh_id = 0, fh_type = 0, fh_is_stop = True\<rparr>, c)
       else do {
         let type = uint (b AND 0x0F);
         let delta = uint (drop_bit 4 b AND 0x0F);
         if delta \<noteq> 0 then
           Some (\<lparr>fh_id = to_i32 (last_field_id + delta), fh_type = type, fh_is_stop = False\<rparr>, c)
         else do {
           (zz, c) \<leftarrow> read_zigzag_varint c;
           Some (\<lparr>fh_id = to_i32 zz, fh_type = type, fh_is_stop = False\<rparr>, c)
         }
       }
     }"

interpretation next_field: strict_reader "\<lambda>c. next_field c prev" for prev
proof unfold_locales
  fix c fh c'
  assume ok: "cursor_ok c" and nf: "next_field c prev = Some (fh, c')"
  then obtain b c1 where b: "read_byte c = Some (b, c1)"
    by (auto simp: next_field_def split: bind_splits)
  have a1: "advances1 c c1" using ok b by (rule read_byte.rd_advances1)
  then have "cursor_ok c1" by (blast intro: advances_ok advances1D)
  then have "advances c1 c'"
    using nf b by (auto simp: next_field_def Let_def split: bind_splits if_splits
        dest: read_zigzag.rd_advances)
  with a1 have "advances1 c c'" by (rule advances1_trans1)
  then show "advances c c'" "c_pos c < c_pos c'" by (simp_all add: advances1_def)
qed

text \<open>
  Every \<open>parse_*\<close> function of the file is the same loop, \<open>while (true) { next_field; if stop break;
  switch (fh.id) ... }\<close>; they differ in the \<open>switch\<close>, which is the handler \<open>h\<close> here: it gets the
  field's id and type, the struct parsed so far and the cursor.
\<close>

type_synonym 'a handler = "int \<Rightarrow> int \<Rightarrow> 'a \<Rightarrow> cursor \<Rightarrow> ('a \<times> cursor) option"

definition struct_body ::
  "'a handler \<Rightarrow> cursor \<times> int \<times> 'a \<Rightarrow> ((cursor \<times> int \<times> 'a) + ('a \<times> cursor)) option" where
  "struct_body h s =
     (case s of (c, prev, out) \<Rightarrow>
        do {
          (fh, c) \<leftarrow> next_field c prev;
          if fh_is_stop fh then Some (Inr (out, c))
          else do {
            (out, c) \<leftarrow> h (fh_id fh) (fh_type fh) out c;
            Some (Inl (c, fh_id fh, out))
          }
        })"

definition parse_fields :: "'a handler \<Rightarrow> cursor \<times> int \<times> 'a \<Rightarrow> ('a \<times> cursor) option" where
  "parse_fields h = loop (\<lambda>(c, prev, out). remaining c) (struct_body h)"

definition parse_struct :: "'a handler \<Rightarrow> 'a \<Rightarrow> cursor \<Rightarrow> ('a \<times> cursor) option" where
  "parse_struct h out c = parse_fields h (c, 0, out)"

locale field_handler =
  fixes h :: "'a handler"
  assumes h_advances: "cursor_ok c \<Longrightarrow> h i t out c = Some (out', c') \<Longrightarrow> advances c c'"
begin

lemma body_next:
  assumes "cursor_ok c" and "struct_body h (c, prev, out) = Some (Inl (c', prev', out'))"
  shows "advances1 c c'"
proof -
  from assms(2) obtain fh c1 where nf: "next_field c prev = Some (fh, c1)"
      and h: "h (fh_id fh) (fh_type fh) out c1 = Some (out', c')"
    by (auto simp: struct_body_def split: bind_splits if_splits)
  from assms(1) nf have "advances1 c c1" by (rule next_field.rd_advances1)
  moreover from this h have "advances c1 c'" by (blast intro: h_advances advances_ok advances1D)
  ultimately show ?thesis by (rule advances1_trans1)
qed

lemma body_stop:
  "cursor_ok c \<Longrightarrow> struct_body h (c, prev, out) = Some (Inr (out', c')) \<Longrightarrow> advances1 c c'"
  by (auto simp: struct_body_def split: bind_splits if_splits dest: next_field.rd_advances1)

sublocale fields: measured_loop "\<lambda>(c, prev, out). remaining c" "struct_body h"
    "\<lambda>(c, prev, out). cursor_ok c"
  by unfold_locales
    (auto dest!: body_next intro: advances_ok advances1D advances1_remaining)

lemma parse_fields_step:
  "cursor_ok c \<Longrightarrow> parse_fields h (c, prev, out) =
     do {
       (fh, c) \<leftarrow> next_field c prev;
       if fh_is_stop fh then Some (out, c)
       else do { (out, c) \<leftarrow> h (fh_id fh) (fh_type fh) out c; parse_fields h (c, fh_id fh, out) }
     }"
  unfolding parse_fields_def
  by (subst fields.unfold) (auto simp: struct_body_def split: bind_splits option.splits)

lemma parse_fields_advances:
  assumes "cursor_ok c" and "parse_fields h (c, prev, out) = Some (out', c')"
  shows "advances1 c c'"
proof -
  have "case (out', c') of (out', c') \<Rightarrow> advances1 c c'"
  proof (rule fields.result_rule [where P = "\<lambda>(x, prev, out). advances c x",
        OF assms(2) [unfolded parse_fields_def]])
    show "case (c, prev, out) of (c, prev, out) \<Rightarrow> cursor_ok c"
      and "case (c, prev, out) of (x, prev, out) \<Rightarrow> advances c x"
      using assms(1) by auto
  next
    fix s s' assume "case s of (c, prev, out) \<Rightarrow> cursor_ok c"
      and "case s of (x, prev, out) \<Rightarrow> advances c x" and "struct_body h s = Some (Inl s')"
    then show "case s' of (x, prev, out) \<Rightarrow> advances c x"
      by (cases s, cases s') (blast dest: body_next intro: advances_trans advances1D)
  next
    fix s r assume "case s of (c, prev, out) \<Rightarrow> cursor_ok c"
      and "case s of (x, prev, out) \<Rightarrow> advances c x" and "struct_body h s = Some (Inr r)"
    then show "case r of (out', c') \<Rightarrow> advances1 c c'"
      by (cases s, cases r) (blast dest: body_stop intro: advances1_trans2)
  qed
  then show ?thesis by simp
qed

sublocale parse: strict_reader "parse_struct h out" for out
  by unfold_locales
    (auto simp: parse_struct_def advances1_def dest!: parse_fields_advances)

end

text \<open>
  Lists inside a struct: \<open>size\<close> elements, read by \<open>rd\<close> when the element type is the expected one and
  skipped otherwise (what the \<open>for\<close> loops of \<open>parse_column_metadata\<close>, \<open>parse_row_group\<close> and
  \<open>parse_file_metadata\<close> have in common).
\<close>

definition list_body ::
  "int \<Rightarrow> (cursor \<Rightarrow> ('a \<times> cursor) option) \<Rightarrow> int \<Rightarrow> 'a list \<times> cursor \<Rightarrow> ('a list \<times> cursor) option" where
  "list_body want rd elem_type s =
     (case s of (out, c) \<Rightarrow>
        if elem_type = want then do { (x, c) \<leftarrow> rd c; Some (out @ [x], c) }
        else do { c \<leftarrow> skip_list_element c elem_type 0; Some (out, c) })"

definition parse_list ::
  "int \<Rightarrow> (cursor \<Rightarrow> ('a \<times> cursor) option) \<Rightarrow> cursor \<Rightarrow> ('a list \<times> cursor) option" where
  "parse_list want rd c =
     do {
       ((elem_type, sz), c) \<leftarrow> read_list_header c;
       repeat_read (unat sz) (list_body want rd elem_type) ([], c)
     }"

context byte_reader
begin

lemma parse_list_advances:
  assumes ok: "cursor_ok c" and run: "parse_list want rd c = Some (out, c')"
  shows "advances c c'"
proof -
  from run obtain et sz c1 where h: "read_list_header c = Some ((et, sz), c1)"
      and r: "repeat_read (unat sz) (list_body want rd et) ([], c1) = Some (out, c')"
    by (auto simp: parse_list_def split: bind_splits)
  have "advances c c1" using ok h by (rule read_list_header.rd_advances)
  with r have "case (out, c') of (out, c') \<Rightarrow> advances c c'"
    by (elim repeat_read_rule [where P = "\<lambda>(out, x). advances c x"])
      (auto simp: list_body_def split: if_splits bind_splits
        elim: rd_after skip_after)
  then show ?thesis by simp
qed

end

end
