(* ===== verification/Parquet_Meta.thy ===== *)
theory Parquet_Meta
  imports Parquet_Thrift
begin

text \<open>
  The Parquet enums and metadata structs of \<open>src/src/ParquetReader.cpp\<close> and the parsers that fill
  them (\<open>parse_schema_element\<close> to \<open>parse_page_header\<close>). Each parser is \<open>parse_struct\<close> with the
  parser's \<open>switch\<close> as handler. A \<open>static_cast\<close> from a 64-bit value to an enum with an \<open>int32_t\<close>
  base narrows first and accepts values no enumerator names; those are the \<open>*_other\<close> constructors.
\<close>

section \<open>Enums\<close>

datatype PhysicalType = BOOLEAN | INT32 | INT64 | INT96 | FLOAT | DOUBLE | BYTE_ARRAY
  | FIXED_LEN_BYTE_ARRAY | PhysicalType_other int

datatype FieldRepetitionType = REQUIRED | OPTIONAL | REPEATED | Repetition_other int

datatype CompressionCodec = UNCOMPRESSED | SNAPPY | GZIP | LZO | BROTLI | LZ4 | ZSTD | LZ4_RAW
  | Codec_other int

datatype PageType = DATA_PAGE | INDEX_PAGE | DICTIONARY_PAGE | DATA_PAGE_V2 | PageType_other int

definition to_PhysicalType :: "int \<Rightarrow> PhysicalType" where
  "to_PhysicalType v =
     (let i = to_i32 v in
      if i = 0 then BOOLEAN else if i = 1 then INT32 else if i = 2 then INT64
      else if i = 3 then INT96 else if i = 4 then FLOAT else if i = 5 then DOUBLE
      else if i = 6 then BYTE_ARRAY else if i = 7 then FIXED_LEN_BYTE_ARRAY
      else PhysicalType_other i)"

definition to_FieldRepetitionType :: "int \<Rightarrow> FieldRepetitionType" where
  "to_FieldRepetitionType v =
     (let i = to_i32 v in
      if i = 0 then REQUIRED else if i = 1 then OPTIONAL else if i = 2 then REPEATED
      else Repetition_other i)"

definition to_CompressionCodec :: "int \<Rightarrow> CompressionCodec" where
  "to_CompressionCodec v =
     (let i = to_i32 v in
      if i = 0 then UNCOMPRESSED else if i = 1 then SNAPPY else if i = 2 then GZIP
      else if i = 3 then LZO else if i = 4 then BROTLI else if i = 5 then LZ4
      else if i = 6 then ZSTD else if i = 7 then LZ4_RAW else Codec_other i)"

definition to_PageType :: "int \<Rightarrow> PageType" where
  "to_PageType v =
     (let i = to_i32 v in
      if i = 0 then DATA_PAGE else if i = 1 then INDEX_PAGE else if i = 2 then DICTIONARY_PAGE
      else if i = 3 then DATA_PAGE_V2 else PageType_other i)"

text \<open>\<open>Encoding\<close> values are only ever compared as \<open>int32_t\<close>, so they stay integers.\<close>

definition ENC_PLAIN :: int where "ENC_PLAIN = 0"
definition ENC_PLAIN_DICTIONARY :: int where "ENC_PLAIN_DICTIONARY = 2"
definition ENC_RLE :: int where "ENC_RLE = 3"
definition ENC_RLE_DICTIONARY :: int where "ENC_RLE_DICTIONARY = 8"

lemmas encoding_defs = ENC_PLAIN_def ENC_PLAIN_DICTIONARY_def ENC_RLE_def ENC_RLE_DICTIONARY_def

section \<open>Structs\<close>

record SchemaElement =
  se_has_type :: bool
  se_type :: PhysicalType
  se_has_repetition :: bool
  se_repetition :: FieldRepetitionType
  se_name :: bytes

record ColumnMetaData =
  md_type :: PhysicalType
  md_encodings :: "int list"
  md_path_in_schema :: "bytes list"
  md_codec :: CompressionCodec
  md_num_values :: int
  md_data_page_offset :: int
  md_has_dictionary_page_offset :: bool
  md_dictionary_page_offset :: int

record ColumnChunk =
  cc_has_file_path :: bool
  cc_has_crypto_metadata :: bool
  cc_has_meta_data :: bool
  cc_meta_data :: ColumnMetaData

record RowGroup =
  rg_columns :: "ColumnChunk list"
  rg_num_rows :: int

record FileMetaData =
  fm_schema :: "SchemaElement list"
  fm_row_groups :: "RowGroup list"

record PageHeader =
  ph_type :: PageType
  ph_uncompressed_page_size :: int
  ph_compressed_page_size :: int
  ph_has_data_page_header :: bool
  ph_dp_num_values :: int
  ph_dp_encoding :: int
  ph_has_dictionary_page_header :: bool
  ph_dict_num_values :: int
  ph_has_data_page_header_v2 :: bool

text \<open>The default member initialisers.\<close>

definition SchemaElement0 :: SchemaElement where
  "SchemaElement0 = \<lparr>se_has_type = False, se_type = BYTE_ARRAY, se_has_repetition = False,
     se_repetition = REQUIRED, se_name = []\<rparr>"

definition ColumnMetaData0 :: ColumnMetaData where
  "ColumnMetaData0 = \<lparr>md_type = BYTE_ARRAY, md_encodings = [], md_path_in_schema = [],
     md_codec = UNCOMPRESSED, md_num_values = 0, md_data_page_offset = -1,
     md_has_dictionary_page_offset = False, md_dictionary_page_offset = -1\<rparr>"

definition ColumnChunk0 :: ColumnChunk where
  "ColumnChunk0 = \<lparr>cc_has_file_path = False, cc_has_crypto_metadata = False,
     cc_has_meta_data = False, cc_meta_data = ColumnMetaData0\<rparr>"

definition RowGroup0 :: RowGroup where
  "RowGroup0 = \<lparr>rg_columns = [], rg_num_rows = 0\<rparr>"

definition FileMetaData0 :: FileMetaData where
  "FileMetaData0 = \<lparr>fm_schema = [], fm_row_groups = []\<rparr>"

definition PageHeader0 :: PageHeader where
  "PageHeader0 = \<lparr>ph_type = DATA_PAGE, ph_uncompressed_page_size = 0, ph_compressed_page_size = 0,
     ph_has_data_page_header = False, ph_dp_num_values = 0, ph_dp_encoding = 0,
     ph_has_dictionary_page_header = False, ph_dict_num_values = 0,
     ph_has_data_page_header_v2 = False\<rparr>"

lemmas struct_defaults =
  SchemaElement0_def ColumnMetaData0_def ColumnChunk0_def RowGroup0_def FileMetaData0_def
  PageHeader0_def

section \<open>Parsers\<close>

definition schema_element_field :: "SchemaElement handler" where
  "schema_element_field fid type out c =
     (if fid = 1 then do {
        (v, c) \<leftarrow> read_zigzag_varint c;
        Some (out\<lparr>se_type := to_PhysicalType v, se_has_type := True\<rparr>, c) }
      else if fid = 3 then do {
        (v, c) \<leftarrow> read_zigzag_varint c;
        Some (out\<lparr>se_repetition := to_FieldRepetitionType v, se_has_repetition := True\<rparr>, c) }
      else if fid = 4 then do {
        (s, c) \<leftarrow> read_binary c;
        Some (out\<lparr>se_name := s\<rparr>, c) }
      else do { c \<leftarrow> skip_value c type 0; Some (out, c) })"

definition parse_schema_element :: "cursor \<Rightarrow> (SchemaElement \<times> cursor) option" where
  "parse_schema_element = parse_struct schema_element_field SchemaElement0"

definition read_i32 :: "cursor \<Rightarrow> (int \<times> cursor) option" where
  "read_i32 c = do { (v, c) \<leftarrow> read_zigzag_varint c; Some (to_i32 v, c) }"

definition column_metadata_field :: "ColumnMetaData handler" where
  "column_metadata_field fid type out c =
     (if fid = 1 then do {
        (v, c) \<leftarrow> read_zigzag_varint c;
        Some (out\<lparr>md_type := to_PhysicalType v\<rparr>, c) }
      else if fid = 2 then do {
        (es, c) \<leftarrow> parse_list 5 read_i32 c;
        Some (out\<lparr>md_encodings := es\<rparr>, c) }
      else if fid = 3 then do {
        (ps, c) \<leftarrow> parse_list 8 read_binary c;
        Some (out\<lparr>md_path_in_schema := ps\<rparr>, c) }
      else if fid = 4 then do {
        (v, c) \<leftarrow> read_zigzag_varint c;
        Some (out\<lparr>md_codec := to_CompressionCodec v\<rparr>, c) }
      else if fid = 5 then do {
        (v, c) \<leftarrow> read_zigzag_varint c;
        Some (out\<lparr>md_num_values := v\<rparr>, c) }
      else if fid = 9 then do {
        (v, c) \<leftarrow> read_zigzag_varint c;
        Some (out\<lparr>md_data_page_offset := v\<rparr>, c) }
      else if fid = 11 then do {
        (v, c) \<leftarrow> read_zigzag_varint c;
        Some (out\<lparr>md_dictionary_page_offset := v, md_has_dictionary_page_offset := True\<rparr>, c) }
      else do { c \<leftarrow> skip_value c type 0; Some (out, c) })"

text \<open>\<open>parse_column_metadata(c, out)\<close> continues from the struct it is given.\<close>

definition parse_column_metadata :: "ColumnMetaData \<Rightarrow> cursor \<Rightarrow> (ColumnMetaData \<times> cursor) option" where
  "parse_column_metadata out = parse_struct column_metadata_field out"

definition column_chunk_field :: "ColumnChunk handler" where
  "column_chunk_field fid type out c =
     (if fid = 1 then do {
        (s, c) \<leftarrow> read_binary c;
        Some (out\<lparr>cc_has_file_path := True\<rparr>, c) }
      else if fid = 3 then do {
        (md, c) \<leftarrow> parse_column_metadata (cc_meta_data out) c;
        Some (out\<lparr>cc_meta_data := md, cc_has_meta_data := True\<rparr>, c) }
      else if fid = 8 then do {
        c \<leftarrow> skip_value c type 0;
        Some (out\<lparr>cc_has_crypto_metadata := True\<rparr>, c) }
      else if fid = 9 then do {
        (s, c) \<leftarrow> read_binary c;
        Some (out\<lparr>cc_has_crypto_metadata := True\<rparr>, c) }
      else do { c \<leftarrow> skip_value c type 0; Some (out, c) })"

definition parse_column_chunk :: "cursor \<Rightarrow> (ColumnChunk \<times> cursor) option" where
  "parse_column_chunk = parse_struct column_chunk_field ColumnChunk0"

definition row_group_field :: "RowGroup handler" where
  "row_group_field fid type out c =
     (if fid = 1 then do {
        (cs, c) \<leftarrow> parse_list 12 parse_column_chunk c;
        Some (out\<lparr>rg_columns := cs\<rparr>, c) }
      else if fid = 3 then do {
        (v, c) \<leftarrow> read_zigzag_varint c;
        Some (out\<lparr>rg_num_rows := v\<rparr>, c) }
      else do { c \<leftarrow> skip_value c type 0; Some (out, c) })"

definition parse_row_group :: "cursor \<Rightarrow> (RowGroup \<times> cursor) option" where
  "parse_row_group = parse_struct row_group_field RowGroup0"

definition file_metadata_field :: "FileMetaData handler" where
  "file_metadata_field fid type out c =
     (if fid = 2 then do {
        (ss, c) \<leftarrow> parse_list 12 parse_schema_element c;
        Some (out\<lparr>fm_schema := ss\<rparr>, c) }
      else if fid = 4 then do {
        (gs, c) \<leftarrow> parse_list 12 parse_row_group c;
        Some (out\<lparr>fm_row_groups := gs\<rparr>, c) }
      else if fid = 8 then None
      else do { c \<leftarrow> skip_value c type 0; Some (out, c) })"

definition parse_file_metadata :: "cursor \<Rightarrow> (FileMetaData \<times> cursor) option" where
  "parse_file_metadata = parse_struct file_metadata_field FileMetaData0"

text \<open>The two inner \<open>while\<close> loops of \<open>parse_page_header\<close> write into the same \<open>PageHeader\<close>.\<close>

definition data_page_header_field :: "PageHeader handler" where
  "data_page_header_field fid type out c =
     (if fid = 1 then do {
        (v, c) \<leftarrow> read_zigzag_varint c;
        Some (out\<lparr>ph_dp_num_values := to_i32 v\<rparr>, c) }
      else if fid = 2 then do {
        (v, c) \<leftarrow> read_zigzag_varint c;
        Some (out\<lparr>ph_dp_encoding := to_i32 v\<rparr>, c) }
      else do { c \<leftarrow> skip_value c type 0; Some (out, c) })"

definition dictionary_page_header_field :: "PageHeader handler" where
  "dictionary_page_header_field fid type out c =
     (if fid = 1 then do {
        (v, c) \<leftarrow> read_zigzag_varint c;
        Some (out\<lparr>ph_dict_num_values := to_i32 v\<rparr>, c) }
      else do { c \<leftarrow> skip_value c type 0; Some (out, c) })"

definition page_header_field :: "PageHeader handler" where
  "page_header_field fid type out c =
     (if fid = 1 then do {
        (v, c) \<leftarrow> read_zigzag_varint c;
        Some (out\<lparr>ph_type := to_PageType v\<rparr>, c) }
      else if fid = 2 then do {
        (v, c) \<leftarrow> read_zigzag_varint c;
        Some (out\<lparr>ph_uncompressed_page_size := to_i32 v\<rparr>, c) }
      else if fid = 3 then do {
        (v, c) \<leftarrow> read_zigzag_varint c;
        Some (out\<lparr>ph_compressed_page_size := to_i32 v\<rparr>, c) }
      else if fid = 5 then do {
        (out, c) \<leftarrow> parse_struct data_page_header_field out c;
        Some (out\<lparr>ph_has_data_page_header := True\<rparr>, c) }
      else if fid = 7 then do {
        (out, c) \<leftarrow> parse_struct dictionary_page_header_field out c;
        Some (out\<lparr>ph_has_dictionary_page_header := True\<rparr>, c) }
      else if fid = 8 then do {
        c \<leftarrow> skip_value c type 0;
        Some (out\<lparr>ph_has_data_page_header_v2 := True\<rparr>, c) }
      else do { c \<leftarrow> skip_value c type 0; Some (out, c) })"

definition parse_page_header :: "cursor \<Rightarrow> (PageHeader \<times> cursor) option" where
  "parse_page_header = parse_struct page_header_field PageHeader0"

section \<open>The parsers obey the reader contract\<close>

interpretation read_i32: strict_reader read_i32
  by unfold_locales
    (auto simp: read_i32_def split: bind_splits dest: read_zigzag.rd_advances read_zigzag.rd_strict)

lemmas reader_advances =
  read_zigzag.rd_advances read_binary.rd_advances skip.sk_advances read_i32.rd_advances

interpretation schema_element: field_handler schema_element_field
  by unfold_locales
    (auto simp: schema_element_field_def split: if_splits bind_splits dest: reader_advances)

interpretation column_metadata: field_handler column_metadata_field
  by unfold_locales
    (auto simp: column_metadata_field_def split: if_splits bind_splits
      dest: reader_advances read_i32.parse_list_advances read_binary.parse_list_advances)

interpretation column_chunk: field_handler column_chunk_field
  by unfold_locales
    (auto simp: column_chunk_field_def parse_column_metadata_def split: if_splits bind_splits
      dest: reader_advances column_metadata.parse.rd_advances)

interpretation row_group: field_handler row_group_field
  by unfold_locales
    (auto simp: row_group_field_def parse_column_chunk_def split: if_splits bind_splits
      dest: reader_advances column_chunk.parse.parse_list_advances)

interpretation file_metadata: field_handler file_metadata_field
  by unfold_locales
    (auto simp: file_metadata_field_def parse_schema_element_def parse_row_group_def
      split: if_splits bind_splits
      dest: reader_advances schema_element.parse.parse_list_advances
        row_group.parse.parse_list_advances)

interpretation data_page_header: field_handler data_page_header_field
  by unfold_locales
    (auto simp: data_page_header_field_def split: if_splits bind_splits dest: reader_advances)

interpretation dictionary_page_header: field_handler dictionary_page_header_field
  by unfold_locales
    (auto simp: dictionary_page_header_field_def split: if_splits bind_splits dest: reader_advances)

interpretation page_header: field_handler page_header_field
  by unfold_locales
    (auto simp: page_header_field_def split: if_splits bind_splits
      dest: reader_advances data_page_header.parse.rd_advances
        dictionary_page_header.parse.rd_advances)

lemma parse_page_header_advances1:
  "cursor_ok c \<Longrightarrow> parse_page_header c = Some (ph, c') \<Longrightarrow> advances1 c c'"
  by (auto simp: parse_page_header_def intro: page_header.parse.rd_advances1)

end
