(* ===== verification/Parquet_Wire.thy ===== *)
theory Parquet_Wire
  imports Parquet_Meta
begin

text \<open>
  The abstract side of the Thrift readers: the wire format as a datatype of values with an encoder,
  written from the compact-protocol rules the comments of \<open>ParquetReader.cpp\<close> state. The lemmas say
  that each reader, run where an encoded value stands, returns that value and stops right after it;
  \<open>skip_value\<close> steps over exactly one value.
\<close>

section \<open>Varints\<close>

fun venc :: "nat \<Rightarrow> bytes" where
  "venc n = (if n < 128 then [of_nat n] else of_nat (n mod 128 + 128) # venc (n div 128))"

declare venc.simps [simp del]

lemma venc_small: "n < 128 \<Longrightarrow> venc n = [of_nat n]"
  by (simp add: venc.simps [of n])

lemma venc_big: "\<not> n < 128 \<Longrightarrow> venc n = of_nat (n mod 128 + 128) # venc (n div 128)"
  by (simp add: venc.simps [of n])

lemma venc_nonempty [simp]: "venc n \<noteq> []" "0 < length (venc n)"
  by (simp_all add: venc.simps [of n])

lemma and_0x7F: "(of_nat m :: u8) AND 0x7F = of_nat (m mod 128)"
proof -
  have "(of_nat m :: u8) AND 0x7F = take_bit 7 (of_nat m)"
    by (simp add: take_bit_eq_mask mask_eq_exp_minus_1)
  also have "\<dots> = of_nat (take_bit 7 m)" by (simp add: of_nat_take_bit)
  finally show ?thesis by (simp add: take_bit_eq_mod)
qed

lemma ucast_of_nat_small: "m < 256 \<Longrightarrow> (ucast (of_nat m :: u8) :: u64) = of_nat m"
  by (simp add: unsigned_of_nat take_bit_nat_eq_self)

lemma split_7_bits:
  "of_nat (n mod 128) OR push_bit 7 (of_nat (n div 128)) = (of_nat n :: u64)"
proof -
  have "take_bit 7 n OR push_bit 7 (drop_bit 7 n) = n"
  proof (rule bit_eqI)
    fix k show "bit (take_bit 7 n OR push_bit 7 (drop_bit 7 n)) k \<longleftrightarrow> bit n k"
      by (cases "k < 7")
        (auto simp: bit_or_iff bit_take_bit_iff bit_push_bit_iff bit_drop_bit_eq)
  qed
  then have "(of_nat (take_bit 7 n OR push_bit 7 (drop_bit 7 n)) :: u64) = of_nat n" by simp
  then show ?thesis
    by (simp add: of_nat_or_eq of_nat_push_bit take_bit_eq_mod drop_bit_eq_div)
qed

lemma varint_loop_venc:
  "rest c = venc n @ r \<Longrightarrow> i < 10 \<Longrightarrow> n < 2 ^ (64 - 7 * i) \<Longrightarrow>
     varint_loop i out c =
       Some (out OR push_bit (7 * i) (of_nat n), skip_bytes (length (venc n)) c)"
proof (induction n arbitrary: c i out rule: venc.induct)
  case (1 n)
  show ?case
  proof (cases "n < 128")
    case True
    with "1.prems" show ?thesis
      by (simp add: varint_loop.simps [of i out c] venc_small rest_simps and_0x80 bit7_of_nat
          and_0x7F ucast_of_nat_small)
  next
    case False
    have i9: "i \<noteq> 9" using "1.prems"(3) False by auto
    with "1.prems"(2) have i: "Suc i < 10" by simp
    have "n < 2 ^ (7 + (64 - 7 * Suc i))" using "1.prems"(3) i by (simp add: Suc_diff_le)
    then have less: "n div 128 < 2 ^ (64 - 7 * Suc i)"
      by (simp add: power_add less_mult_imp_div_less mult.commute)
    have rest1: "rest (skip_bytes 1 c) = venc (n div 128) @ r"
      using "1.prems"(1) by (simp add: venc_big [OF False])
    have out: "(out OR push_bit (7 * i) (of_nat (n mod 128))) OR
        push_bit (7 * Suc i) (of_nat (n div 128)) = out OR push_bit (7 * i) (of_nat n)"
      unfolding split_7_bits [of n, symmetric] push_bit_or
      by (simp add: ac_simps push_bit_push_bit)
    define b :: u8 where "b = of_nat (n mod 128 + 128)"
    have q: "(n mod 128 + 128) div 128 = 1"
      using div_add_self2 [of 128 "n mod 128"] by simp
    have b: "b AND 0x80 \<noteq> 0" "b AND 0x7F = of_nat (n mod 128)"
      unfolding b_def and_0x80 bit7_of_nat and_0x7F q by simp_all
    have "rest c = b # venc (n div 128) @ r"
      using "1.prems"(1) by (simp add: venc_big [OF False] b_def del: of_nat_add)
    then have "varint_loop i out c = varint_loop (Suc i)
        (out OR push_bit (7 * i) (of_nat (n mod 128))) (skip_bytes 1 c)"
      using "1.prems"(2) b
      by (simp add: varint_loop.simps [of i out c] rest_simps ucast_of_nat_small Let_def)
    then show ?thesis
      using "1.IH" [OF False rest1 i less] by (simp add: venc_big [OF False] out del: mult_Suc_right)
  qed
qed

lemma read_varint_venc [rest_simps]:
  assumes "rest c = venc n @ r" and "n < 2 ^ 64"
  shows "read_varint c = Some (of_nat n, skip_bytes (length (venc n)) c)"
  using varint_loop_venc [of c n r 0 0] assms by (simp add: read_varint_def)

text \<open>Ten bytes are enough for any 64-bit value, so the loop bound of \<open>read_varint\<close> loses nothing.\<close>

lemma length_venc: "n < 2 ^ (7 * k) \<Longrightarrow> 0 < k \<Longrightarrow> length (venc n) \<le> k"
proof (induction n arbitrary: k rule: venc.induct)
  case (1 n)
  show ?case
  proof (cases "n < 128")
    case True
    with "1.prems" show ?thesis by (simp add: venc_small)
  next
    case False
    with "1.prems" obtain k' where k: "k = Suc k'" "0 < k'"
      by (cases k; cases "k - 1") auto
    then have "n div 128 < 2 ^ (7 * k')"
      using "1.prems"(1) by (simp add: power_add less_mult_imp_div_less mult.commute)
    with "1.IH" [OF False] k show ?thesis by (simp add: venc_big [OF False])
  qed
qed

section \<open>Zigzag integers\<close>

definition zenc_nat :: "int \<Rightarrow> nat" where
  "zenc_nat i = (if 0 \<le> i then nat (2 * i) else nat (- 2 * i - 1))"

definition zenc :: "int \<Rightarrow> bytes" where
  "zenc i = venc (zenc_nat i)"

definition int64 :: "int \<Rightarrow> bool" where
  "int64 i \<longleftrightarrow> - (2 ^ 63) \<le> i \<and> i < 2 ^ 63"

lemma zenc_nat_less: "int64 i \<Longrightarrow> zenc_nat i < 2 ^ 64"
  by (auto simp: int64_def zenc_nat_def)

lemma sint_of_int64: "int64 i \<Longrightarrow> sint (word_of_int i :: u64) = i"
  by (simp add: int64_def signed_of_int signed_take_bit_int_eq_self)

lemma drop_bit_1_of_nat: "n < 2 ^ 64 \<Longrightarrow> drop_bit 1 (of_nat n :: u64) = of_nat (n div 2)"
  unfolding word_unat_eq_iff unat_drop_bit_eq
  by (simp add: unsigned_of_nat take_bit_nat_eq_self drop_bit_eq_div)

lemma and_1_of_nat: "(of_nat n :: u64) AND 1 = of_nat (n mod 2)"
  using of_nat_take_bit [of 1 n, where 'a = "64 word"]
  by (simp add: take_bit_eq_mask mask_eq_exp_minus_1 take_bit_eq_mod)

lemma zigzag_decode_zenc: "int64 i \<Longrightarrow> zigzag_decode (of_nat (zenc_nat i)) = i"
proof -
  assume i: "int64 i"
  note less = zenc_nat_less [OF i]
  have "drop_bit 1 (of_nat (zenc_nat i)) XOR - ((of_nat (zenc_nat i)) AND 1) = (word_of_int i :: u64)"
  proof (cases "0 \<le> i")
    case True
    then have n: "zenc_nat i = 2 * nat i" by (simp add: zenc_nat_def)
    show ?thesis
      using True unfolding drop_bit_1_of_nat [OF less] and_1_of_nat unfolding n
      by simp
  next
    case False
    then have n: "zenc_nat i = 2 * nat (- i - 1) + 1" by (simp add: zenc_nat_def)
    have "NOT (of_nat (nat (- i - 1)) :: u64) = word_of_int i"
      using False by (simp add: not_eq_complement)
    then show ?thesis
      unfolding drop_bit_1_of_nat [OF less] and_1_of_nat unfolding n by simp
  qed
  then show ?thesis by (simp add: zigzag_decode_def sint_of_int64 [OF i])
qed

lemma read_zigzag_zenc [rest_simps]:
  assumes "rest c = zenc i @ r" and "int64 i"
  shows "read_zigzag_varint c = Some (i, skip_bytes (length (zenc i)) c)"
  using assms zenc_nat_less [OF assms(2)]
  by (simp add: read_zigzag_varint_def zenc_def read_varint_venc zigzag_decode_zenc)

section \<open>Values and their encoding\<close>

text \<open>
  A value of the compact protocol. \<open>T_INT\<close> carries its type code (4, 5 or 6 for I16, I32, I64),
  \<open>T_LIST\<close> its own code (9 or 10) and the code of its elements, \<open>T_STRUCT\<close> its fields by id.
\<close>

datatype tval = T_BOOL bool | T_BYTE u8 | T_INT nat int | T_DOUBLE u64 | T_BIN bytes
  | T_LIST nat nat "tval list" | T_STRUCT "(int \<times> tval) list"

fun tcode :: "tval \<Rightarrow> nat" where
  "tcode (T_BOOL b) = (if b then 1 else 2)"
| "tcode (T_BYTE b) = 3"
| "tcode (T_INT k i) = k"
| "tcode (T_DOUBLE d) = 7"
| "tcode (T_BIN s) = 8"
| "tcode (T_LIST k et vs) = k"
| "tcode (T_STRUCT fs) = 12"

definition field_header_bytes :: "int \<Rightarrow> int \<Rightarrow> nat \<Rightarrow> bytes" where
  "field_header_bytes prev i code =
     (if 1 \<le> i - prev \<and> i - prev \<le> 15 then [of_nat (16 * nat (i - prev) + code)]
      else of_nat code # zenc i)"

fun emit_fields :: "int \<Rightarrow> (int \<times> nat \<times> bytes) list \<Rightarrow> bytes" where
  "emit_fields prev [] = [0]"
| "emit_fields prev ((i, code, body) # fs) =
     field_header_bytes prev i code @ body @ emit_fields i fs"

definition list_header_bytes :: "nat \<Rightarrow> nat \<Rightarrow> bytes" where
  "list_header_bytes et n =
     (if n < 15 then [of_nat (16 * n + et)] else of_nat (240 + et) # venc n)"

text \<open>A boolean is no bytes as a struct field (its value is in the type code) and one in a list.\<close>

definition elem_bytes :: "tval \<Rightarrow> bytes \<Rightarrow> bytes" where
  "elem_bytes v body = (case v of T_BOOL b \<Rightarrow> [if b then 1 else 2] | _ \<Rightarrow> body)"

fun enc :: "tval \<Rightarrow> bytes" where
  "enc (T_BOOL b) = []"
| "enc (T_BYTE b) = [b]"
| "enc (T_INT k i) = zenc i"
| "enc (T_DOUBLE d) = le_bytes 8 d"
| "enc (T_BIN s) = venc (length s) @ s"
| "enc (T_LIST k et vs) =
     list_header_bytes et (length vs) @ concat (map (\<lambda>v. elem_bytes v (enc v)) vs)"
| "enc (T_STRUCT fs) = emit_fields 0 (map (\<lambda>(i, v). (i, tcode v, enc v)) fs)"

definition int32 :: "int \<Rightarrow> bool" where
  "int32 i \<longleftrightarrow> - (2 ^ 31) \<le> i \<and> i < 2 ^ 31"

text \<open>Well-formed values, and values whose nesting fits below \<open>kMaxSkipDepth\<close> when met at depth \<open>d\<close>.\<close>

fun wf_tval :: "tval \<Rightarrow> bool" where
  "wf_tval (T_INT k i) = (k \<in> {4, 5, 6} \<and> int64 i)"
| "wf_tval (T_BIN s) = (length s < 2 ^ 64)"
| "wf_tval (T_LIST k et vs) =
     (k \<in> {9, 10} \<and> length vs < 2 ^ 64 \<and> et < 16 \<and>
      (\<forall>v \<in> set vs. wf_tval v \<and> (if et = 1 \<or> et = 2 then tcode v = 1 \<or> tcode v = 2 else tcode v = et)))"
| "wf_tval (T_STRUCT fs) = (\<forall>(i, v) \<in> set fs. int32 i \<and> wf_tval v)"
| "wf_tval _ = True"

fun fits :: "nat \<Rightarrow> tval \<Rightarrow> bool" where
  "fits d (T_LIST k et vs) = (d \<le> kMaxSkipDepth \<and> (\<forall>v \<in> set vs. fits (Suc d) v))"
| "fits d (T_STRUCT fs) = (d \<le> kMaxSkipDepth \<and> (\<forall>(i, v) \<in> set fs. fits (Suc d) v))"
| "fits d _ = (d \<le> kMaxSkipDepth)"

lemma fits_depth: "fits d v \<Longrightarrow> d \<le> kMaxSkipDepth"
  by (cases v) auto

lemma wf_tcode: "wf_tval v \<Longrightarrow> tcode v \<in> {1..12} - {11}"
  by (cases v) auto

lemma bool_tcode: "wf_tval v \<Longrightarrow> tcode v = 1 \<or> tcode v = 2 \<longleftrightarrow> (\<exists>b. v = T_BOOL b)"
  by (cases v) auto

lemma length_emit_fields: "0 < length (emit_fields prev fs)"
  by (induction prev fs rule: emit_fields.induct) auto

lemma length_elem_bytes: "wf_tval v \<Longrightarrow> 0 < length (elem_bytes v (enc v))"
  using length_emit_fields by (cases v) (auto simp: elem_bytes_def zenc_def list_header_bytes_def)

section \<open>Readers on encoded values\<close>

lemma nibbles:
  assumes "a < 16" and "b < 16"
  shows "uint ((of_nat (16 * a + b) :: u8) AND 0x0F) = int b"
    and "uint (drop_bit 4 (of_nat (16 * a + b) :: u8) AND 0x0F) = int a"
    and "(ucast (drop_bit 4 (of_nat (16 * a + b) :: u8) AND 0x0F) :: u64) = of_nat a"
    and "(of_nat (16 * a + b) :: u8) = 0 \<longleftrightarrow> a = 0 \<and> b = 0"
    and "drop_bit 4 (of_nat (16 * a + b) :: u8) AND 0x0F = 0 \<longleftrightarrow> a = 0"
proof -
  let ?w = "of_nat (16 * a + b) :: u8"
  have w: "unat ?w = 16 * a + b"
    using assms by (intro unat_of_nat_less) simp
  have mask: "x AND 0x0F = take_bit 4 x" for x :: u8
    by (simp add: take_bit_eq_mask mask_eq_exp_minus_1)
  have lo: "unat (?w AND 0x0F) = b"
    using assms unfolding mask unsigned_take_bit_eq w by (simp add: take_bit_eq_mod)
  have hi: "unat (drop_bit 4 ?w AND 0x0F) = a"
    using assms unfolding mask unsigned_take_bit_eq unat_drop_bit_eq w
    by (simp add: take_bit_eq_mod drop_bit_eq_div)
  show "uint (?w AND 0x0F) = int b" using arg_cong [OF lo, of int] by simp
  show "uint (drop_bit 4 ?w AND 0x0F) = int a" using arg_cong [OF hi, of int] by simp
  show "(ucast (drop_bit 4 ?w AND 0x0F) :: u64) = of_nat a"
    using assms(1) hi by (simp add: word_unat_eq_iff unsigned_ucast_eq unsigned_of_nat take_bit_nat_eq_self)
  have "drop_bit 4 ?w AND 0x0F = 0 \<longleftrightarrow> unat (drop_bit 4 ?w AND 0x0F) = 0"
    by (rule unat_eq_0 [symmetric])
  then show "drop_bit 4 ?w AND 0x0F = 0 \<longleftrightarrow> a = 0" unfolding hi .
  have "?w = 0 \<longleftrightarrow> unat ?w = 0" by (rule unat_eq_0 [symmetric])
  then show "?w = 0 \<longleftrightarrow> a = 0 \<and> b = 0" unfolding w by simp
qed

lemma read_binary_enc:
  assumes "rest c = (venc (length s) @ s) @ r" and "length s < 2 ^ 64" and "cursor_ok c"
  shows "read_binary c = Some (s, skip_bytes (length (venc (length s) @ s)) c)"
proof -
  have rv: "read_varint c = Some (of_nat (length s), skip_bytes (length (venc (length s))) c)"
    using assms(1,2) by (simp add: read_varint_venc)
  let ?c = "skip_bytes (length (venc (length s))) c"
  have r1: "rest ?c = s @ r" using assms(1) by simp
  then have "length s \<le> remaining ?c" using length_rest [of ?c] by simp
  then have "length s \<le> c_size ?c - c_pos ?c" by (simp add: remaining_def)
  with rv r1 assms(2) show ?thesis
    by (simp add: read_binary_def rest_def unsigned_of_nat take_bit_nat_eq_self skip_bytes_def
        add.assoc)
qed

lemma read_double_enc:
  assumes "rest c = le_bytes 8 d @ r"
  shows "read_double c = Some (d, skip_bytes 8 c)"
proof -
  have "8 \<le> remaining c" using assms length_rest [of c] by simp
  then have "\<not> c_pos c + 8 > c_size c" by (simp add: remaining_def)
  with assms show ?thesis
    by (simp add: read_double_def rest_def skip_bytes_def le_word_le_bytes)
qed

lemma read_list_header_enc:
  assumes "rest c = list_header_bytes et n @ r" and "n < 2 ^ 64" and "et < 16" and "n \<le> length r"
  shows "read_list_header c =
    Some ((int et, of_nat n), skip_bytes (length (list_header_bytes et n)) c)"
proof -
  let ?n = "length (list_header_bytes et n)"
  let ?c = "skip_bytes ?n c"
  have "rest ?c = r" using assms(1) by simp
  then have fit: "n \<le> c_size ?c - c_pos ?c"
    using assms(4) length_rest [of ?c] by (simp add: remaining_def)
  have un: "unat (of_nat n :: u64) = n"
    using assms(2) by (simp add: unsigned_of_nat take_bit_nat_eq_self)
  show ?thesis
  proof (cases "n < 15")
    case True
    then have b: "read_byte c = Some (of_nat (16 * n + et), skip_bytes 1 c)"
      using assms(1) by (simp add: list_header_bytes_def rest_simps del: of_nat_add of_nat_mult)
    have "(of_nat n :: u64) \<noteq> 15" using True un by (simp add: word_unat_eq_iff)
    then show ?thesis
      using b True fit un assms(3) nibbles [of n et]
      by (simp add: read_list_header_def Let_def list_header_bytes_def del: of_nat_add of_nat_mult)
  next
    case False
    then have b: "read_byte c = Some (of_nat (16 * 15 + et), skip_bytes 1 c)"
      using assms(1) by (simp add: list_header_bytes_def rest_simps del: of_nat_add of_nat_mult)
    have "rest (skip_bytes 1 c) = venc n @ r"
      using assms(1) False by (simp add: list_header_bytes_def)
    then have "read_varint (skip_bytes 1 c) = Some (of_nat n, skip_bytes (length (venc n)) (skip_bytes 1 c))"
      using assms(2) by (rule read_varint_venc)
    then show ?thesis
      using b False fit un assms(3) nibbles [of 15 et]
      by (simp add: read_list_header_def Let_def list_header_bytes_def del: of_nat_add of_nat_mult)
  qed
qed

lemma next_field_stop: "rest c = 0 # r \<Longrightarrow>
    next_field c prev = Some (\<lparr>fh_id = 0, fh_type = 0, fh_is_stop = True\<rparr>, skip_bytes 1 c)"
  by (simp add: next_field_def rest_simps)

text \<open>What the two header forms of \<open>next_field\<close> share with the STRUCT case of \<open>skip_value\<close>.\<close>

lemma field_header_cases:
  assumes "rest c = field_header_bytes prev i code @ r" and "int32 i" and "0 < code" and "code < 16"
  obtains (short) "1 \<le> i - prev" "i - prev \<le> 15"
      "read_byte c = Some (of_nat (16 * nat (i - prev) + code), skip_bytes 1 c)"
      "length (field_header_bytes prev i code) = 1"
    | (long) "read_byte c = Some (of_nat (16 * 0 + code), skip_bytes 1 c)"
      "read_zigzag_varint (skip_bytes 1 c) =
         Some (i, skip_bytes (length (field_header_bytes prev i code)) c)"
proof (cases "1 \<le> i - prev \<and> i - prev \<le> 15")
  case True
  with assms(1) show thesis
    by (intro short) (simp_all add: field_header_bytes_def rest_simps del: of_nat_add of_nat_mult)
next
  case False
  have "int64 i" using assms(2) by (auto simp: int32_def int64_def)
  moreover have "rest (skip_bytes 1 c) = zenc i @ r"
    using assms(1) False by (auto simp: field_header_bytes_def)
  ultimately have "read_zigzag_varint (skip_bytes 1 c) =
      Some (i, skip_bytes (length (zenc i)) (skip_bytes 1 c))"
    by (intro read_zigzag_zenc)
  with assms(1) False show thesis
    by (intro long) (auto simp: field_header_bytes_def rest_simps)
qed

lemma next_field_enc:
  assumes "rest c = field_header_bytes prev i code @ r" and "int32 i" and "0 < code" and "code < 16"
  shows "next_field c prev = Some (\<lparr>fh_id = i, fh_type = int code, fh_is_stop = False\<rparr>,
           skip_bytes (length (field_header_bytes prev i code)) c)"
  using assms
proof (cases rule: field_header_cases)
  case short
  moreover from this(1,2) have "nat (i - prev) < 16" by simp
  ultimately show ?thesis
    using assms(2,3,4) nibbles [of "nat (i - prev)" code]
    by (simp add: next_field_def Let_def to_i32_id int32_def del: of_nat_add of_nat_mult)
next
  case long
  then show ?thesis
    using assms(2,3,4) nibbles [of 0 code]
    by (simp add: next_field_def Let_def to_i32_id int32_def)
qed

section \<open>\<open>skip_value\<close> skips exactly one value\<close>

text \<open>\<open>steps_over rd bs\<close>: wherever \<open>bs\<close> stands, \<open>rd\<close> moves right behind it.\<close>

definition steps_over :: "(cursor \<Rightarrow> cursor option) \<Rightarrow> bytes \<Rightarrow> bool" where
  "steps_over f bs \<longleftrightarrow>
     (\<forall>c r. cursor_ok c \<longrightarrow> rest c = bs @ r \<longrightarrow> f c = Some (skip_bytes (length bs) c))"

lemma steps_overI [intro?]:
  "(\<And>c r. cursor_ok c \<Longrightarrow> rest c = bs @ r \<Longrightarrow> f c = Some (skip_bytes (length bs) c)) \<Longrightarrow> steps_over f bs"
  by (auto simp: steps_over_def)

lemma steps_overD:
  "steps_over f bs \<Longrightarrow> cursor_ok c \<Longrightarrow> rest c = bs @ r \<Longrightarrow> f c = Some (skip_bytes (length bs) c)"
  by (auto simp: steps_over_def)

lemma cursor_ok_skip: "cursor_ok c \<Longrightarrow> rest c = bs @ r \<Longrightarrow> cursor_ok (skip_bytes (length bs) c)"
  using length_rest [of c] by (auto simp: cursor_ok_def remaining_def)

lemma cursor_ok_skip1: "cursor_ok c \<Longrightarrow> rest c = b # r \<Longrightarrow> cursor_ok (skip_bytes 1 c)"
  using cursor_ok_skip [of c "[b]" r] by simp

context value_skipper
begin

lemma skip_fields_step:
  "cursor_ok c \<Longrightarrow> skip_fields sk c =
     do {
       (b, c) \<leftarrow> read_byte c;
       if b = 0x00 then Some c
       else do {
         let type = uint (b AND 0x0F);
         let delta = drop_bit 4 b AND 0x0F;
         c \<leftarrow> (if delta \<noteq> 0 then Some c else map_option snd (read_zigzag_varint c));
         c \<leftarrow> sk c type;
         skip_fields sk c
       }
     }"
  unfolding skip_fields_def
  by (subst fields.unfold) (auto simp: skip_fields_body_def Let_def split: bind_splits option.splits)

lemma skip_fields_emit:
  assumes "\<And>i code body. (i, code, body) \<in> set fs \<Longrightarrow>
      int32 i \<and> 0 < code \<and> code < 16 \<and> steps_over (\<lambda>c. sk c (int code)) body"
    and "cursor_ok c" and "rest c = emit_fields prev fs @ r"
  shows "skip_fields sk c = Some (skip_bytes (length (emit_fields prev fs)) c)"
  using assms
proof (induction prev fs arbitrary: c rule: emit_fields.induct)
  case (1 prev)
  then show ?case by (simp add: skip_fields_step rest_simps)
next
  case (2 prev i code body fs)
  have f: "int32 i" "0 < code" "code < 16" "steps_over (\<lambda>c. sk c (int code)) body"
    using "2.prems"(1) by auto
  let ?h = "field_header_bytes prev i code"
  let ?c1 = "skip_bytes (length ?h) c"
  let ?c2 = "skip_bytes (length body) ?c1"
  have r: "rest c = ?h @ body @ emit_fields i fs @ r" using "2.prems"(3) by simp
  then have ok1: "cursor_ok ?c1" by (rule cursor_ok_skip [OF "2.prems"(2)])
  have r1: "rest ?c1 = body @ emit_fields i fs @ r" using r by simp
  from f(4) ok1 r1 have sk: "sk ?c1 (int code) = Some ?c2" by (rule steps_overD)
  have "cursor_ok ?c2" using ok1 r1 by (rule cursor_ok_skip)
  moreover have "rest ?c2 = emit_fields i fs @ r" using r by simp
  ultimately have IH: "skip_fields sk ?c2 = Some (skip_bytes (length (emit_fields i fs)) ?c2)"
    using "2.prems"(1) by (intro "2.IH") auto
  from r f(1-3) have "skip_fields sk c = skip_fields sk ?c2"
  proof (cases rule: field_header_cases)
    case short
    have n: "nat (i - prev) < 16" "0 < nat (i - prev)" using short(1,2) by auto
    show ?thesis
      unfolding skip_fields_step [OF "2.prems"(2)]
      using short(3,4) n nibbles(1,4,5) [OF n(1) f(3)] f(2) sk
      by (simp add: Let_def del: of_nat_add of_nat_mult)
  next
    case long
    show ?thesis
      unfolding skip_fields_step [OF "2.prems"(2)]
      using long nibbles(1,4,5) [of 0 code] f(2,3) sk
      by (simp add: Let_def del: mult_0)
  qed
  with IH show ?case by (simp add: add.assoc)
qed

end

lemma repeat_read_concat:
  assumes "\<And>x. x \<in> set xs \<Longrightarrow> steps_over f x" and "cursor_ok c" and "rest c = concat xs @ r"
  shows "repeat_read (length xs) f c = Some (skip_bytes (length (concat xs)) c)"
  using assms
proof (induction xs arbitrary: c)
  case Nil
  then show ?case by simp
next
  case (Cons x xs)
  have "f c = Some (skip_bytes (length x) c)"
    using Cons.prems by (intro steps_overD [where r = "concat xs @ r"]) auto
  moreover have "cursor_ok (skip_bytes (length x) c)"
    using Cons.prems(2,3) by (intro cursor_ok_skip [where r = "concat xs @ r"]) auto
  moreover have "rest (skip_bytes (length x) c) = concat xs @ r" using Cons.prems(3) by simp
  ultimately show ?case using Cons.IH [of "skip_bytes (length x) c"] Cons.prems(1) by simp
qed

lemma skip_list_element_enc:
  assumes "wf_tval v" and "fits d v"
    and et: "if et = 1 \<or> et = 2 then tcode v = 1 \<or> tcode v = 2 else tcode v = et"
    and IH: "steps_over (\<lambda>c. skip_value c (int (tcode v)) d) (enc v)"
  shows "steps_over (\<lambda>c. skip_list_element c (int et) d) (elem_bytes v (enc v))"
proof (cases "et = 1 \<or> et = 2")
  case True
  with et obtain b where v: "v = T_BOOL b" using bool_tcode [OF assms(1)] by auto
  from True have "skip_list_element c (int et) d = map_option snd (read_byte c)" for c
    by (auto simp: skip_list_element.simps [of c])
  then show ?thesis by (auto simp: v elem_bytes_def rest_simps intro!: steps_overI)
next
  case False
  with et have c: "tcode v = et" by simp
  with False have "elem_bytes v (enc v) = enc v" by (cases v) (auto simp: elem_bytes_def split: if_splits)
  moreover from False have "skip_list_element c (int et) d = skip_value c (int et) d" for c
    by (auto simp: skip_list_element.simps [of c])
  ultimately show ?thesis using IH c by simp
qed

lemma list_elems_length:
  "\<forall>v \<in> set vs. wf_tval v \<Longrightarrow> length vs \<le> length (concat (map (\<lambda>v. elem_bytes v (enc v)) vs))"
proof (induction vs)
  case (Cons v vs)
  then have "0 < length (elem_bytes v (enc v))" by (intro length_elem_bytes) simp
  with Cons show ?case by (simp del: length_greater_0_conv)
qed simp

lemma skip_value_enc:
  "wf_tval v \<Longrightarrow> fits d v \<Longrightarrow> steps_over (\<lambda>c. skip_value c (int (tcode v)) d) (enc v)"
proof (induction v arbitrary: d)
  case (T_INT k i)
  then show ?case
    by (auto simp: skip_value.simps [of _ _ d] read_zigzag_zenc intro!: steps_overI)
next
  case (T_DOUBLE x)
  then show ?case
    by (auto simp: skip_value.simps [of _ _ d] read_double_enc intro!: steps_overI)
next
  case (T_BIN s)
  then show ?case
    by (auto simp: skip_value.simps [of _ _ d] read_binary_enc intro!: steps_overI)
next
  case (T_LIST k et vs)
  let ?els = "map (\<lambda>v. elem_bytes v (enc v)) vs"
  have d: "d \<le> kMaxSkipDepth" and k: "k = 9 \<or> k = 10" and n: "length vs < 2 ^ 64" "et < 16"
    using T_LIST.prems by auto
  have el: "steps_over (\<lambda>c. skip_list_element c (int et) (d + 1)) x" if "x \<in> set ?els" for x
  proof -
    from that obtain v where v: "v \<in> set vs" "x = elem_bytes v (enc v)" by auto
    with T_LIST.prems have "wf_tval v" "fits (d + 1) v"
        "if et = 1 \<or> et = 2 then tcode v = 1 \<or> tcode v = 2 else tcode v = et" by auto
    then show ?thesis unfolding v(2) using T_LIST.IH [OF v(1)] by (intro skip_list_element_enc) auto
  qed
  have wf: "\<forall>v \<in> set vs. wf_tval v" using T_LIST.prems(1) by auto
  show ?case
  proof
    fix c r assume ok: "cursor_ok c" and r: "rest c = enc (T_LIST k et vs) @ r"
    let ?h = "list_header_bytes et (length vs)"
    have h: "read_list_header c = Some ((int et, of_nat (length vs)), skip_bytes (length ?h) c)"
      using r n list_elems_length [OF wf]
      by (intro read_list_header_enc [where r = "concat ?els @ r"]) auto
    have ok1: "cursor_ok (skip_bytes (length ?h) c)"
      using ok r by (intro cursor_ok_skip [where r = "concat ?els @ r"]) auto
    have "repeat_read (length ?els) (\<lambda>c. skip_list_element c (int et) (d + 1))
        (skip_bytes (length ?h) c) = Some (skip_bytes (length (concat ?els)) (skip_bytes (length ?h) c))"
      using el ok1 r by (intro repeat_read_concat [where r = r]) auto
    then show "skip_value c (int (tcode (T_LIST k et vs))) d =
        Some (skip_bytes (length (enc (T_LIST k et vs))) c)"
      using d k h n(1) by (auto simp: skip_value.simps [of _ _ d] unat_of_nat_less)
  qed
next
  case (T_STRUCT fs)
  have d: "d \<le> kMaxSkipDepth" using T_STRUCT.prems by auto
  have f: "int32 i \<and> 0 < code \<and> code < 16 \<and>
      steps_over (\<lambda>c. skip_value c (int code) (d + 1)) body"
    if m: "(i, code, body) \<in> set (map (\<lambda>(i, v). (i, tcode v, enc v)) fs)" for i code body
  proof -
    from m obtain v where v: "(i, v) \<in> set fs" "code = tcode v" "body = enc v" by auto
    with T_STRUCT.prems have wf: "wf_tval v" "fits (d + 1) v" "int32 i" by auto
    then have "steps_over (\<lambda>c. skip_value c (int (tcode v)) (d + 1)) (enc v)"
      using v(1) by (intro T_STRUCT.IH) auto
    with wf v wf_tcode [OF wf(1)] show ?thesis by auto
  qed
  show ?case
  proof
    fix c r assume ok: "cursor_ok c" and r: "rest c = enc (T_STRUCT fs) @ r"
    have "skip_fields (\<lambda>c t. skip_value c t (d + 1)) c =
        Some (skip_bytes (length (emit_fields 0 (map (\<lambda>(i, v). (i, tcode v, enc v)) fs))) c)"
      using f ok r by (intro skip.skip_fields_emit [where r = r]) auto
    then show "skip_value c (int (tcode (T_STRUCT fs))) d =
        Some (skip_bytes (length (enc (T_STRUCT fs))) c)"
      using d by (simp add: skip_value.simps [of _ _ d])
  qed
next
  case (T_BOOL b)
  then show ?case by (auto simp: skip_value.simps [of _ _ d] intro!: steps_overI)
next
  case (T_BYTE b)
  then show ?case by (auto simp: skip_value.simps [of _ _ d] rest_simps intro!: steps_overI)
qed

end
