(* ===== verification/Parquet_Meta_Sem.thy ===== *)
theory Parquet_Meta_Sem
  imports Parquet_Wire
begin

text \<open>
  What the metadata parsers compute, on the abstract side: a parser run on the encoding of a Thrift
  struct folds one update per field over its start value (\<open>field_semantics\<close>), unknown fields of any
  type included. From that, a writer for each metadata struct and the round trip through the footer.
\<close>

section \<open>A parser is a fold over the fields\<close>

definition ok_fields :: "(int \<Rightarrow> tval \<Rightarrow> bool) \<Rightarrow> (int \<times> tval) list \<Rightarrow> bool" where
  "ok_fields expects fs \<longleftrightarrow> (\<forall>(i, v) \<in> set fs. int32 i \<and> wf_tval v \<and> expects i v)"

definition meaning :: "(int \<Rightarrow> tval \<Rightarrow> 'a \<Rightarrow> 'a) \<Rightarrow> (int \<times> tval) list \<Rightarrow> 'a \<Rightarrow> 'a" where
  "meaning upd fs out = fold (\<lambda>(i, v). upd i v) fs out"

lemma ok_fields_simps [simp]:
  "ok_fields ex []"
  "ok_fields ex ((i, v) # fs) \<longleftrightarrow> int32 i \<and> wf_tval v \<and> ex i v \<and> ok_fields ex fs"
  "ok_fields ex (fs @ gs) \<longleftrightarrow> ok_fields ex fs \<and> ok_fields ex gs"
  by (auto simp: ok_fields_def)

lemma meaning_simps [simp]:
  "meaning upd [] out = out" "meaning upd ((i, v) # fs) out = meaning upd fs (upd i v out)"
  "meaning upd (fs @ gs) out = meaning upd gs (meaning upd fs out)"
  by (simp_all add: meaning_def)

definition reads_as :: "(cursor \<Rightarrow> ('b \<times> cursor) option) \<Rightarrow> bytes \<Rightarrow> 'b \<Rightarrow> bool" where
  "reads_as rd bs x \<longleftrightarrow>
     (\<forall>c r. cursor_ok c \<longrightarrow> rest c = bs @ r \<longrightarrow> rd c = Some (x, skip_bytes (length bs) c))"

lemma reads_asI [intro?]:
  "(\<And>c r. cursor_ok c \<Longrightarrow> rest c = bs @ r \<Longrightarrow> rd c = Some (x, skip_bytes (length bs) c)) \<Longrightarrow>
   reads_as rd bs x"
  by (auto simp: reads_as_def)

lemma reads_asD:
  "reads_as rd bs x \<Longrightarrow> cursor_ok c \<Longrightarrow> rest c = bs @ r \<Longrightarrow> rd c = Some (x, skip_bytes (length bs) c)"
  by (auto simp: reads_as_def)

locale field_semantics = field_handler h for h :: "'a handler" +
  fixes expects :: "int \<Rightarrow> tval \<Rightarrow> bool" and upd :: "int \<Rightarrow> tval \<Rightarrow> 'a \<Rightarrow> 'a"
  assumes h_sem: "wf_tval v \<Longrightarrow> expects i v \<Longrightarrow> cursor_ok c \<Longrightarrow> rest c = enc v @ r \<Longrightarrow>
      h i (int (tcode v)) out c = Some (upd i v out, skip_bytes (length (enc v)) c)"
begin

lemma parse_fields_sem:
  "ok_fields expects fs \<Longrightarrow> cursor_ok c \<Longrightarrow>
   rest c = emit_fields prev (map (\<lambda>(i, v). (i, tcode v, enc v)) fs) @ r \<Longrightarrow>
   parse_fields h (c, prev, out) =
     Some (meaning upd fs out,
       skip_bytes (length (emit_fields prev (map (\<lambda>(i, v). (i, tcode v, enc v)) fs))) c)"
proof (induction fs arbitrary: c prev out)
  case Nil
  then show ?case by (simp add: parse_fields_step [OF Nil.prems(2)] next_field_stop)
next
  case (Cons f fs)
  obtain i v where f: "f = (i, v)" by (cases f)
  have v: "int32 i" "wf_tval v" "expects i v" and fs: "ok_fields expects fs"
    using Cons.prems(1) by (auto simp: f)
  let ?rest = "emit_fields i (map (\<lambda>(i, v). (i, tcode v, enc v)) fs)"
  let ?h = "field_header_bytes prev i (tcode v)"
  let ?c1 = "skip_bytes (length ?h) c"
  let ?c2 = "skip_bytes (length (enc v)) ?c1"
  have r: "rest c = ?h @ enc v @ ?rest @ r" using Cons.prems(3) by (simp add: f)
  have ok1: "cursor_ok ?c1" by (rule cursor_ok_skip [OF Cons.prems(2) r])
  have r1: "rest ?c1 = enc v @ ?rest @ r" using r by simp
  have nf: "next_field c prev = Some (\<lparr>fh_id = i, fh_type = int (tcode v), fh_is_stop = False\<rparr>, ?c1)"
    using r v(1) wf_tcode [OF v(2)] by (intro next_field_enc) auto
  have hv: "h i (int (tcode v)) out ?c1 = Some (upd i v out, ?c2)"
    using v(2,3) ok1 r1 by (rule h_sem)
  have "cursor_ok ?c2" using ok1 r1 by (rule cursor_ok_skip)
  moreover have "rest ?c2 = ?rest @ r" using r by simp
  ultimately have "parse_fields h (?c2, i, upd i v out) =
      Some (meaning upd fs (upd i v out), skip_bytes (length ?rest) ?c2)"
    by (rule Cons.IH [OF fs])
  then show ?case
    unfolding parse_fields_step [OF Cons.prems(2)] using nf hv by (simp add: f add.assoc)
qed

lemma parse_struct_sem:
  assumes "ok_fields expects fs" and "cursor_ok c" and "rest c = enc (T_STRUCT fs) @ r"
  shows "parse_struct h out c = Some (meaning upd fs out, skip_bytes (length (enc (T_STRUCT fs))) c)"
  using parse_fields_sem [of fs c 0 r out] assms by (simp add: parse_struct_def)

lemma parse_struct_reads:
  "ok_fields expects fs \<Longrightarrow> reads_as (parse_struct h out) (enc (T_STRUCT fs)) (meaning upd fs out)"
  by (rule reads_asI) (rule parse_struct_sem)

end

section \<open>Lists\<close>

lemma list_body_reads:
  assumes "\<And>v. v \<in> set vs \<Longrightarrow> reads_as rd (elem_bytes v (enc v)) (val v)"
    and "cursor_ok c" and "rest c = concat (map (\<lambda>v. elem_bytes v (enc v)) vs) @ r"
  shows "repeat_read (length vs) (list_body want rd want) (out, c) =
     Some (out @ map val vs, skip_bytes (length (concat (map (\<lambda>v. elem_bytes v (enc v)) vs))) c)"
  using assms
proof (induction vs arbitrary: out c)
  case Nil
  then show ?case by simp
next
  case (Cons v vs)
  let ?e = "elem_bytes v (enc v)"
  let ?es = "concat (map (\<lambda>v. elem_bytes v (enc v)) vs)"
  have r: "rest c = ?e @ ?es @ r" using Cons.prems(3) by simp
  have "rd c = Some (val v, skip_bytes (length ?e) c)"
    using Cons.prems(1) [of v] Cons.prems(2) r by (auto dest: reads_asD)
  moreover have "cursor_ok (skip_bytes (length ?e) c)" by (rule cursor_ok_skip [OF Cons.prems(2) r])
  moreover have "rest (skip_bytes (length ?e) c) = ?es @ r" using r by simp
  ultimately show ?case
    using Cons.IH [of "skip_bytes (length ?e) c" "out @ [val v]"] Cons.prems(1)
    by (simp add: list_body_def)
qed

lemma parse_list_sem:
  assumes "wf_tval (T_LIST k want vs)"
    and "\<And>v. v \<in> set vs \<Longrightarrow> reads_as rd (elem_bytes v (enc v)) (val v)"
  shows "reads_as (parse_list (int want) rd) (enc (T_LIST k want vs)) (map val vs)"
proof
  fix c r assume ok: "cursor_ok c" and r: "rest c = enc (T_LIST k want vs) @ r"
  let ?es = "concat (map (\<lambda>v. elem_bytes v (enc v)) vs)"
  let ?h = "list_header_bytes want (length vs)"
  have n: "length vs < 2 ^ 64" "want < 16" and wf: "\<forall>v \<in> set vs. wf_tval v" using assms(1) by auto
  have h: "read_list_header c = Some ((int want, of_nat (length vs)), skip_bytes (length ?h) c)"
    using r n list_elems_length [OF wf] by (intro read_list_header_enc [where r = "?es @ r"]) auto
  have "cursor_ok (skip_bytes (length ?h) c)"
    using ok r by (intro cursor_ok_skip [where r = "?es @ r"]) auto
  moreover have "rest (skip_bytes (length ?h) c) = ?es @ r" using r by simp
  ultimately have "repeat_read (length vs) (list_body (int want) rd (int want))
      ([], skip_bytes (length ?h) c) = Some ([] @ map val vs, skip_bytes (length ?es) (skip_bytes (length ?h) c))"
    using assms(2) by (intro list_body_reads) auto
  then show "parse_list (int want) rd c = Some (map val vs, skip_bytes (length (enc (T_LIST k want vs))) c)"
    using h n(1) by (simp add: parse_list_def unat_of_nat_less)
qed

section \<open>What each field means\<close>

fun tint :: "tval \<Rightarrow> int" where "tint (T_INT k i) = i" | "tint _ = 0"
fun tbin :: "tval \<Rightarrow> bytes" where "tbin (T_BIN s) = s" | "tbin _ = []"
fun telems :: "tval \<Rightarrow> tval list" where "telems (T_LIST k et vs) = vs" | "telems _ = []"
fun tfields :: "tval \<Rightarrow> (int \<times> tval) list" where "tfields (T_STRUCT fs) = fs" | "tfields _ = []"

fun is_tint :: "tval \<Rightarrow> bool" where "is_tint (T_INT k i) = True" | "is_tint _ = False"
fun is_tbin :: "tval \<Rightarrow> bool" where "is_tbin (T_BIN s) = True" | "is_tbin _ = False"

definition sem_schema_element :: "int \<Rightarrow> tval \<Rightarrow> SchemaElement \<Rightarrow> SchemaElement" where
  "sem_schema_element i v out =
     (if i = 1 then out\<lparr>se_type := to_PhysicalType (tint v), se_has_type := True\<rparr>
      else if i = 3 then
        out\<lparr>se_repetition := to_FieldRepetitionType (tint v), se_has_repetition := True\<rparr>
      else if i = 4 then out\<lparr>se_name := tbin v\<rparr>
      else out)"

definition expects_schema_element :: "int \<Rightarrow> tval \<Rightarrow> bool" where
  "expects_schema_element i v =
     (if i = 1 \<or> i = 3 then is_tint v else if i = 4 then is_tbin v else fits 0 v)"

lemma is_tint_enc:
  assumes "is_tint v" and "wf_tval v"
  shows "reads_as read_zigzag_varint (enc v) (tint v)"
proof -
  from assms obtain k i where "v = T_INT k i" "int64 i" by (cases v) auto
  then show ?thesis by (auto simp: read_zigzag_zenc intro!: reads_asI)
qed

lemma is_tbin_enc:
  assumes "is_tbin v" and "wf_tval v"
  shows "reads_as read_binary (enc v) (tbin v)"
proof -
  from assms obtain s where "v = T_BIN s" "length s < 2 ^ 64" by (cases v) auto
  then show ?thesis by (auto simp: read_binary_enc intro!: reads_asI)
qed

lemmas field_reads = reads_asD [OF is_tint_enc] reads_asD [OF is_tbin_enc]
  steps_overD [OF skip_value_enc]

interpretation schema_element: field_semantics schema_element_field
    expects_schema_element sem_schema_element
  by unfold_locales
    (auto simp: schema_element_field_def expects_schema_element_def sem_schema_element_def
      field_reads split: if_splits)

fun is_tlist_of :: "nat \<Rightarrow> (tval \<Rightarrow> bool) \<Rightarrow> tval \<Rightarrow> bool" where
  "is_tlist_of want P (T_LIST k et vs) = (et = want \<and> (\<forall>v \<in> set vs. P v))"
| "is_tlist_of want P _ = False"

fun is_tstruct_of :: "(int \<Rightarrow> tval \<Rightarrow> bool) \<Rightarrow> tval \<Rightarrow> bool" where
  "is_tstruct_of ex (T_STRUCT fs) = ok_fields ex fs"
| "is_tstruct_of ex _ = False"

lemma elem_bytes_enc: "tcode x \<noteq> 1 \<Longrightarrow> tcode x \<noteq> 2 \<Longrightarrow> elem_bytes x (enc x) = enc x"
  by (cases x) (auto simp: elem_bytes_def split: if_splits)

lemma is_tlist_enc:
  assumes "is_tlist_of want P v" and "wf_tval v" and "want \<noteq> 1" and "want \<noteq> 2"
    and "\<And>x. wf_tval x \<Longrightarrow> P x \<Longrightarrow> tcode x = want \<Longrightarrow> reads_as rd (enc x) (val x)"
  shows "reads_as (parse_list (int want) rd) (enc v) (map val (telems v))"
proof -
  from assms(1,2) obtain k vs where v: "v = T_LIST k want vs" "\<forall>x \<in> set vs. P x" by (cases v) auto
  have "reads_as rd (elem_bytes x (enc x)) (val x)" if "x \<in> set vs" for x
  proof -
    from that assms(2-4) v have x: "wf_tval x" "P x" "tcode x = want" by auto
    with assms(3,4) have "elem_bytes x (enc x) = enc x" by (intro elem_bytes_enc) auto
    with assms(5) x show ?thesis by simp
  qed
  then show ?thesis
    using assms(2) unfolding v(1) telems.simps by (rule parse_list_sem [rotated])
qed

lemma is_tstruct_enc:
  assumes "field_semantics h ex upd" and "is_tstruct_of ex v"
  shows "reads_as (parse_struct h out) (enc v) (meaning upd (tfields v) out)"
  using assms field_semantics.parse_struct_reads [OF assms(1)] by (cases v) auto

definition sem_column_metadata :: "int \<Rightarrow> tval \<Rightarrow> ColumnMetaData \<Rightarrow> ColumnMetaData" where
  "sem_column_metadata i v out =
     (if i = 1 then out\<lparr>md_type := to_PhysicalType (tint v)\<rparr>
      else if i = 2 then out\<lparr>md_encodings := map (\<lambda>x. to_i32 (tint x)) (telems v)\<rparr>
      else if i = 3 then out\<lparr>md_path_in_schema := map tbin (telems v)\<rparr>
      else if i = 4 then out\<lparr>md_codec := to_CompressionCodec (tint v)\<rparr>
      else if i = 5 then out\<lparr>md_num_values := tint v\<rparr>
      else if i = 9 then out\<lparr>md_data_page_offset := tint v\<rparr>
      else if i = 11 then
        out\<lparr>md_dictionary_page_offset := tint v, md_has_dictionary_page_offset := True\<rparr>
      else out)"

definition expects_column_metadata :: "int \<Rightarrow> tval \<Rightarrow> bool" where
  "expects_column_metadata i v =
     (if i = 1 \<or> i = 4 \<or> i = 5 \<or> i = 9 \<or> i = 11 then is_tint v
      else if i = 2 then is_tlist_of 5 is_tint v
      else if i = 3 then is_tlist_of 8 is_tbin v else fits 0 v)"

lemma is_tint_enc_i32:
  "is_tint v \<Longrightarrow> wf_tval v \<Longrightarrow> reads_as read_i32 (enc v) (to_i32 (tint v))"
  by (auto simp: read_i32_def reads_asD [OF is_tint_enc] intro!: reads_asI)

lemmas list_reads =
  reads_asD [OF is_tlist_enc [where want = 5 and P = is_tint and rd = read_i32
      and val = "\<lambda>x. to_i32 (tint x)", OF _ _ _ _ is_tint_enc_i32], simplified]
  reads_asD [OF is_tlist_enc [where want = 8 and P = is_tbin and rd = read_binary
      and val = tbin, OF _ _ _ _ is_tbin_enc], simplified]

interpretation column_metadata: field_semantics column_metadata_field
    expects_column_metadata sem_column_metadata
  by unfold_locales
    (auto simp: column_metadata_field_def expects_column_metadata_def sem_column_metadata_def
      field_reads list_reads split: if_splits)

definition sem_column_chunk :: "int \<Rightarrow> tval \<Rightarrow> ColumnChunk \<Rightarrow> ColumnChunk" where
  "sem_column_chunk i v out =
     (if i = 1 then out\<lparr>cc_has_file_path := True\<rparr>
      else if i = 3 then
        out\<lparr>cc_meta_data := meaning sem_column_metadata (tfields v) (cc_meta_data out),
            cc_has_meta_data := True\<rparr>
      else if i = 8 \<or> i = 9 then out\<lparr>cc_has_crypto_metadata := True\<rparr>
      else out)"

definition expects_column_chunk :: "int \<Rightarrow> tval \<Rightarrow> bool" where
  "expects_column_chunk i v =
     (if i = 1 \<or> i = 9 then is_tbin v
      else if i = 3 then is_tstruct_of expects_column_metadata v else fits 0 v)"

interpretation column_chunk: field_semantics column_chunk_field
    expects_column_chunk sem_column_chunk
  by unfold_locales
    (auto simp: column_chunk_field_def parse_column_metadata_def expects_column_chunk_def
      sem_column_chunk_def field_reads reads_asD [OF is_tstruct_enc [OF column_metadata.field_semantics_axioms]]
      split: if_splits)

definition sem_row_group :: "int \<Rightarrow> tval \<Rightarrow> RowGroup \<Rightarrow> RowGroup" where
  "sem_row_group i v out =
     (if i = 1 then
        out\<lparr>rg_columns := map (\<lambda>x. meaning sem_column_chunk (tfields x) ColumnChunk0) (telems v)\<rparr>
      else if i = 3 then out\<lparr>rg_num_rows := tint v\<rparr>
      else out)"

definition expects_row_group :: "int \<Rightarrow> tval \<Rightarrow> bool" where
  "expects_row_group i v =
     (if i = 1 then is_tlist_of 12 (is_tstruct_of expects_column_chunk) v
      else if i = 3 then is_tint v else fits 0 v)"

lemma struct_list_enc:
  assumes "field_semantics h ex upd" and "is_tlist_of 12 (is_tstruct_of ex) v" and "wf_tval v"
  shows "reads_as (parse_list 12 (parse_struct h out)) (enc v)
    (map (\<lambda>x. meaning upd (tfields x) out) (telems v))"
  using is_tlist_enc [OF assms(2,3), of "parse_struct h out"] is_tstruct_enc [OF assms(1)] by simp

interpretation row_group: field_semantics row_group_field expects_row_group sem_row_group
  by unfold_locales
    (auto simp: row_group_field_def parse_column_chunk_def expects_row_group_def sem_row_group_def
      field_reads reads_asD [OF struct_list_enc [OF column_chunk.field_semantics_axioms]]
      split: if_splits)

definition sem_file_metadata :: "int \<Rightarrow> tval \<Rightarrow> FileMetaData \<Rightarrow> FileMetaData" where
  "sem_file_metadata i v out =
     (if i = 2 then
        out\<lparr>fm_schema :=
          map (\<lambda>x. meaning sem_schema_element (tfields x) SchemaElement0) (telems v)\<rparr>
      else if i = 4 then
        out\<lparr>fm_row_groups := map (\<lambda>x. meaning sem_row_group (tfields x) RowGroup0) (telems v)\<rparr>
      else out)"

definition expects_file_metadata :: "int \<Rightarrow> tval \<Rightarrow> bool" where
  "expects_file_metadata i v =
     (if i = 2 then is_tlist_of 12 (is_tstruct_of expects_schema_element) v
      else if i = 4 then is_tlist_of 12 (is_tstruct_of expects_row_group) v
      else i \<noteq> 8 \<and> fits 0 v)"

interpretation file_metadata: field_semantics file_metadata_field
    expects_file_metadata sem_file_metadata
  by unfold_locales
    (auto simp: file_metadata_field_def parse_schema_element_def parse_row_group_def
      expects_file_metadata_def sem_file_metadata_def field_reads reads_asD [OF struct_list_enc [OF schema_element.field_semantics_axioms]]
        reads_asD [OF struct_list_enc [OF row_group.field_semantics_axioms]]
      split: if_splits)

definition sem_data_page_header :: "int \<Rightarrow> tval \<Rightarrow> PageHeader \<Rightarrow> PageHeader" where
  "sem_data_page_header i v out =
     (if i = 1 then out\<lparr>ph_dp_num_values := to_i32 (tint v)\<rparr>
      else if i = 2 then out\<lparr>ph_dp_encoding := to_i32 (tint v)\<rparr> else out)"

definition sem_dictionary_page_header :: "int \<Rightarrow> tval \<Rightarrow> PageHeader \<Rightarrow> PageHeader" where
  "sem_dictionary_page_header i v out =
     (if i = 1 then out\<lparr>ph_dict_num_values := to_i32 (tint v)\<rparr> else out)"

definition expects_data_page_header :: "int \<Rightarrow> tval \<Rightarrow> bool" where
  "expects_data_page_header i v = (if i = 1 \<or> i = 2 then is_tint v else fits 0 v)"

definition expects_dictionary_page_header :: "int \<Rightarrow> tval \<Rightarrow> bool" where
  "expects_dictionary_page_header i v = (if i = 1 then is_tint v else fits 0 v)"

interpretation data_page_header: field_semantics data_page_header_field
    expects_data_page_header sem_data_page_header
  by unfold_locales
    (auto simp: data_page_header_field_def expects_data_page_header_def sem_data_page_header_def
      field_reads split: if_splits)

interpretation dictionary_page_header: field_semantics dictionary_page_header_field
    expects_dictionary_page_header sem_dictionary_page_header
  by unfold_locales
    (auto simp: dictionary_page_header_field_def expects_dictionary_page_header_def
      sem_dictionary_page_header_def field_reads split: if_splits)

definition sem_page_header :: "int \<Rightarrow> tval \<Rightarrow> PageHeader \<Rightarrow> PageHeader" where
  "sem_page_header i v out =
     (if i = 1 then out\<lparr>ph_type := to_PageType (tint v)\<rparr>
      else if i = 2 then out\<lparr>ph_uncompressed_page_size := to_i32 (tint v)\<rparr>
      else if i = 3 then out\<lparr>ph_compressed_page_size := to_i32 (tint v)\<rparr>
      else if i = 5 then
        (meaning sem_data_page_header (tfields v) out)\<lparr>ph_has_data_page_header := True\<rparr>
      else if i = 7 then
        (meaning sem_dictionary_page_header (tfields v) out)\<lparr>ph_has_dictionary_page_header := True\<rparr>
      else if i = 8 then out\<lparr>ph_has_data_page_header_v2 := True\<rparr>
      else out)"

definition expects_page_header :: "int \<Rightarrow> tval \<Rightarrow> bool" where
  "expects_page_header i v =
     (if i = 1 \<or> i = 2 \<or> i = 3 then is_tint v
      else if i = 5 then is_tstruct_of expects_data_page_header v
      else if i = 7 then is_tstruct_of expects_dictionary_page_header v
      else fits 0 v)"

interpretation page_header: field_semantics page_header_field expects_page_header sem_page_header
  by unfold_locales
    (auto simp: page_header_field_def expects_page_header_def sem_page_header_def
      field_reads reads_asD [OF is_tstruct_enc [OF data_page_header.field_semantics_axioms]]
        reads_asD [OF is_tstruct_enc [OF dictionary_page_header.field_semantics_axioms]]
      split: if_splits)

end
