(* ===== verification/Parquet_Footer.thy ===== *)
theory Parquet_Footer
  imports Parquet_Meta_Sem
begin

text \<open>
  A writer for the footer metadata (the inverse of the parsers, in the field order Parquet writers
  use) and the round trip: parsing a written footer gives the metadata back. The writer is a
  specification; the program only reads Parquet.
\<close>

section \<open>Enum codes\<close>

fun physical_code :: "PhysicalType \<Rightarrow> int" where
  "physical_code BOOLEAN = 0" | "physical_code INT32 = 1" | "physical_code INT64 = 2"
| "physical_code INT96 = 3" | "physical_code FLOAT = 4" | "physical_code DOUBLE = 5"
| "physical_code BYTE_ARRAY = 6" | "physical_code FIXED_LEN_BYTE_ARRAY = 7"
| "physical_code (PhysicalType_other i) = i"

fun repetition_code :: "FieldRepetitionType \<Rightarrow> int" where
  "repetition_code REQUIRED = 0" | "repetition_code OPTIONAL = 1" | "repetition_code REPEATED = 2"
| "repetition_code (Repetition_other i) = i"

fun codec_code :: "CompressionCodec \<Rightarrow> int" where
  "codec_code UNCOMPRESSED = 0" | "codec_code SNAPPY = 1" | "codec_code GZIP = 2"
| "codec_code LZO = 3" | "codec_code BROTLI = 4" | "codec_code LZ4 = 5" | "codec_code ZSTD = 6"
| "codec_code LZ4_RAW = 7" | "codec_code (Codec_other i) = i"

text \<open>Enum values a cast can produce: an \<open>*_other\<close> holds an \<open>int32_t\<close> no enumerator names.\<close>

definition wf_physical :: "PhysicalType \<Rightarrow> bool" where
  "wf_physical t \<longleftrightarrow> (case t of PhysicalType_other i \<Rightarrow> int32 i \<and> (i < 0 \<or> 7 < i) | _ \<Rightarrow> True)"

definition wf_repetition :: "FieldRepetitionType \<Rightarrow> bool" where
  "wf_repetition t \<longleftrightarrow> (case t of Repetition_other i \<Rightarrow> int32 i \<and> (i < 0 \<or> 2 < i) | _ \<Rightarrow> True)"

definition wf_codec :: "CompressionCodec \<Rightarrow> bool" where
  "wf_codec t \<longleftrightarrow> (case t of Codec_other i \<Rightarrow> int32 i \<and> (i < 0 \<or> 7 < i) | _ \<Rightarrow> True)"

lemma int32_int64: "int32 i \<Longrightarrow> int64 i"
  by (auto simp: int32_def int64_def)

lemma to_i32_int32 [simp]: "int32 i \<Longrightarrow> to_i32 i = i"
  by (simp add: int32_def to_i32_id)

lemma int32_numeral [simp]: "int32 0" "int32 1" "int32 2" "int32 3" "int32 4" "int32 5" "int32 6"
    "int32 7" "int32 8" "int32 9" "int32 11"
  by (simp_all add: int32_def)

lemma physical_code: "wf_physical t \<Longrightarrow> to_PhysicalType (physical_code t) = t"
    "wf_physical t \<Longrightarrow> int32 (physical_code t)"
  by (cases t; auto simp: wf_physical_def to_PhysicalType_def)+

lemma repetition_code: "wf_repetition t \<Longrightarrow> to_FieldRepetitionType (repetition_code t) = t"
    "wf_repetition t \<Longrightarrow> int32 (repetition_code t)"
  by (cases t; auto simp: wf_repetition_def to_FieldRepetitionType_def)+

lemma codec_code: "wf_codec t \<Longrightarrow> to_CompressionCodec (codec_code t) = t"
    "wf_codec t \<Longrightarrow> int32 (codec_code t)"
  by (cases t; auto simp: wf_codec_def to_CompressionCodec_def)+

lemmas enum_codes = physical_code repetition_code codec_code

section \<open>The writer\<close>

definition opt_field :: "bool \<Rightarrow> int \<Rightarrow> tval \<Rightarrow> (int \<times> tval) list" where
  "opt_field b i v = (if b then [(i, v)] else [])"

definition schema_element_fields :: "SchemaElement \<Rightarrow> (int \<times> tval) list" where
  "schema_element_fields se =
     opt_field (se_has_type se) 1 (T_INT 5 (physical_code (se_type se))) @
     opt_field (se_has_repetition se) 3 (T_INT 5 (repetition_code (se_repetition se))) @
     [(4, T_BIN (se_name se))]"

definition column_metadata_fields :: "ColumnMetaData \<Rightarrow> (int \<times> tval) list" where
  "column_metadata_fields md =
     [(1, T_INT 5 (physical_code (md_type md))),
      (2, T_LIST 9 5 (map (T_INT 5) (md_encodings md))),
      (3, T_LIST 9 8 (map T_BIN (md_path_in_schema md))),
      (4, T_INT 5 (codec_code (md_codec md))),
      (5, T_INT 6 (md_num_values md)),
      (9, T_INT 6 (md_data_page_offset md))] @
     opt_field (md_has_dictionary_page_offset md) 11 (T_INT 6 (md_dictionary_page_offset md))"

definition column_chunk_fields :: "ColumnChunk \<Rightarrow> (int \<times> tval) list" where
  "column_chunk_fields cc =
     opt_field (cc_has_file_path cc) 1 (T_BIN []) @
     opt_field (cc_has_meta_data cc) 3 (T_STRUCT (column_metadata_fields (cc_meta_data cc))) @
     opt_field (cc_has_crypto_metadata cc) 8 (T_STRUCT [])"

definition row_group_fields :: "RowGroup \<Rightarrow> (int \<times> tval) list" where
  "row_group_fields rg =
     [(1, T_LIST 9 12 (map (\<lambda>cc. T_STRUCT (column_chunk_fields cc)) (rg_columns rg))),
      (3, T_INT 6 (rg_num_rows rg))]"

definition file_metadata_fields :: "FileMetaData \<Rightarrow> (int \<times> tval) list" where
  "file_metadata_fields fm =
     [(2, T_LIST 9 12 (map (\<lambda>se. T_STRUCT (schema_element_fields se)) (fm_schema fm))),
      (4, T_LIST 9 12 (map (\<lambda>rg. T_STRUCT (row_group_fields rg)) (fm_row_groups fm)))]"

definition write_footer :: "FileMetaData \<Rightarrow> bytes" where
  "write_footer fm = enc (T_STRUCT (file_metadata_fields fm))"

section \<open>Metadata a parser can produce\<close>

definition wf_schema_element :: "SchemaElement \<Rightarrow> bool" where
  "wf_schema_element se \<longleftrightarrow> wf_physical (se_type se) \<and> wf_repetition (se_repetition se) \<and>
     (se_has_type se \<or> se_type se = BYTE_ARRAY) \<and>
     (se_has_repetition se \<or> se_repetition se = REQUIRED) \<and> length (se_name se) < 2 ^ 64"

definition wf_column_metadata :: "ColumnMetaData \<Rightarrow> bool" where
  "wf_column_metadata md \<longleftrightarrow> wf_physical (md_type md) \<and> wf_codec (md_codec md) \<and>
     list_all int32 (md_encodings md) \<and> length (md_encodings md) < 2 ^ 64 \<and>
     list_all (\<lambda>p. length p < 2 ^ 64) (md_path_in_schema md) \<and>
     length (md_path_in_schema md) < 2 ^ 64 \<and> int64 (md_num_values md) \<and>
     int64 (md_data_page_offset md) \<and> int64 (md_dictionary_page_offset md) \<and>
     (md_has_dictionary_page_offset md \<or> md_dictionary_page_offset md = -1)"

definition wf_column_chunk :: "ColumnChunk \<Rightarrow> bool" where
  "wf_column_chunk cc \<longleftrightarrow>
     (if cc_has_meta_data cc then wf_column_metadata (cc_meta_data cc)
      else cc_meta_data cc = ColumnMetaData0)"

definition wf_row_group :: "RowGroup \<Rightarrow> bool" where
  "wf_row_group rg \<longleftrightarrow> list_all wf_column_chunk (rg_columns rg) \<and> length (rg_columns rg) < 2 ^ 64 \<and>
     int64 (rg_num_rows rg)"

definition wf_file_metadata :: "FileMetaData \<Rightarrow> bool" where
  "wf_file_metadata fm \<longleftrightarrow> list_all wf_schema_element (fm_schema fm) \<and> length (fm_schema fm) < 2 ^ 64 \<and>
     list_all wf_row_group (fm_row_groups fm) \<and> length (fm_row_groups fm) < 2 ^ 64"

section \<open>Written structs parse back\<close>

lemma schema_element_fields_sem:
  assumes "wf_schema_element se"
  shows "ok_fields expects_schema_element (schema_element_fields se)"
    and "meaning sem_schema_element (schema_element_fields se) SchemaElement0 = se"
  using assms
  by (auto simp: schema_element_fields_def opt_field_def wf_schema_element_def
      expects_schema_element_def sem_schema_element_def SchemaElement0_def enum_codes int32_int64)

lemma map_to_i32: "list_all int32 xs \<Longrightarrow> map to_i32 xs = xs"
  by (induction xs) auto

lemma column_metadata_fields_sem:
  assumes "wf_column_metadata md"
  shows "ok_fields expects_column_metadata (column_metadata_fields md)"
    and "meaning sem_column_metadata (column_metadata_fields md) ColumnMetaData0 = md"
  using assms
  by (auto simp: column_metadata_fields_def opt_field_def wf_column_metadata_def
      expects_column_metadata_def sem_column_metadata_def ColumnMetaData0_def enum_codes int32_int64
      list_all_iff o_def map_to_i32 intro: map_idI)

lemma column_chunk_fields_sem:
  assumes "wf_column_chunk cc"
  shows "ok_fields expects_column_chunk (column_chunk_fields cc)"
    and "meaning sem_column_chunk (column_chunk_fields cc) ColumnChunk0 = cc"
  using assms column_metadata_fields_sem [of "cc_meta_data cc"]
  by (auto simp: column_chunk_fields_def opt_field_def wf_column_chunk_def ok_fields_def
      expects_column_chunk_def sem_column_chunk_def ColumnChunk0_def split: if_splits)

lemma ok_fields_wf: "ok_fields ex fs \<Longrightarrow> (i, v) \<in> set fs \<Longrightarrow> int32 i \<and> wf_tval v"
  by (auto simp: ok_fields_def)

lemma row_group_fields_sem:
  assumes "wf_row_group rg"
  shows "ok_fields expects_row_group (row_group_fields rg)"
    and "meaning sem_row_group (row_group_fields rg) RowGroup0 = rg"
proof -
  show "ok_fields expects_row_group (row_group_fields rg)"
    using assms
    by (auto simp: row_group_fields_def wf_row_group_def expects_row_group_def list_all_iff
        dest: column_chunk_fields_sem(1) ok_fields_wf [OF column_chunk_fields_sem(1)])
  have "map (\<lambda>x. meaning sem_column_chunk (column_chunk_fields x) ColumnChunk0) (rg_columns rg) =
      rg_columns rg"
    using assms by (intro map_idI) (simp add: wf_row_group_def list_all_iff column_chunk_fields_sem)
  then show "meaning sem_row_group (row_group_fields rg) RowGroup0 = rg"
    by (simp add: row_group_fields_def sem_row_group_def RowGroup0_def o_def)
qed

lemma file_metadata_fields_sem:
  assumes "wf_file_metadata fm"
  shows "ok_fields expects_file_metadata (file_metadata_fields fm)"
    and "meaning sem_file_metadata (file_metadata_fields fm) FileMetaData0 = fm"
proof -
  show "ok_fields expects_file_metadata (file_metadata_fields fm)"
    using assms
    by (auto simp: file_metadata_fields_def wf_file_metadata_def expects_file_metadata_def list_all_iff
        dest: schema_element_fields_sem(1) row_group_fields_sem(1)
          ok_fields_wf [OF schema_element_fields_sem(1)] ok_fields_wf [OF row_group_fields_sem(1)])
  have "map (\<lambda>x. meaning sem_schema_element (schema_element_fields x) SchemaElement0) (fm_schema fm) =
      fm_schema fm"
    "map (\<lambda>x. meaning sem_row_group (row_group_fields x) RowGroup0) (fm_row_groups fm) =
      fm_row_groups fm"
    using assms by (intro map_idI; simp add: wf_file_metadata_def list_all_iff
        schema_element_fields_sem row_group_fields_sem)+
  then show "meaning sem_file_metadata (file_metadata_fields fm) FileMetaData0 = fm"
    by (simp add: file_metadata_fields_def sem_file_metadata_def FileMetaData0_def o_def)
qed

lemma parse_write_footer:
  assumes "wf_file_metadata fm"
  shows "parse_file_metadata (cursor_at_start (write_footer fm)) =
    Some (fm, skip_bytes (length (write_footer fm)) (cursor_at_start (write_footer fm)))"
  using file_metadata.parse_struct_sem [OF file_metadata_fields_sem(1) [OF assms],
      of "cursor_at_start (write_footer fm)" "[]" FileMetaData0] file_metadata_fields_sem(2) [OF assms]
  by (simp add: parse_file_metadata_def write_footer_def)

end
