(* ===== verification/Text_Lib.thy ===== *)
theory Text_Lib
  imports Prelude "HOL-Library.Char_ord"
begin

text \<open>
  Text as the components print it: decimal numbers (\<open>std::to_string\<close>, \<open>operator<<\<close> on integers and
  on \<open>double\<close> with the default stream format, which is \<open>printf\<close>'s \<open>%g\<close> with six digits), and ASCII
  text as bytes. A \<open>std::string\<close> is an Isabelle \<open>string\<close> (its characters are eight bits wide) where
  the component handles text, and \<open>bytes\<close> where it handles a binary file.
\<close>

section \<open>ASCII text as bytes\<close>

definition ascii :: "string \<Rightarrow> bytes" where
  "ascii s = map of_char s"

lemma ascii_simps [simp]: "ascii [] = []" "ascii (c # s) = of_char c # ascii s"
    "ascii (s @ t) = ascii s @ ascii t"
  by (simp_all add: ascii_def)

lemma set_ascii [simp]: "set (ascii s) = of_char ` set s"
  by (simp add: ascii_def)

section \<open>Decimal numbers\<close>

definition digit_char :: "nat \<Rightarrow> char" where
  "digit_char d = char_of (48 + d)"

fun nat_to_string :: "nat \<Rightarrow> string" where
  "nat_to_string n =
     (if n < 10 then [digit_char n] else nat_to_string (n div 10) @ [digit_char (n mod 10)])"

declare nat_to_string.simps [simp del]

definition int_to_string :: "int \<Rightarrow> string" where
  "int_to_string i = (if i < 0 then ''-'' @ nat_to_string (nat (- i)) else nat_to_string (nat i))"

definition is_digit :: "char \<Rightarrow> bool" where
  "is_digit c \<longleftrightarrow> CHR ''0'' \<le> c \<and> c \<le> CHR ''9''"

definition digit_value :: "char \<Rightarrow> nat" where
  "digit_value c = of_char c - 48"

text \<open>The value of a run of digits, \<open>v = v * 10 + (c - '0')\<close>.\<close>

definition digits_value :: "string \<Rightarrow> nat" where
  "digits_value s = foldl (\<lambda>v c. v * 10 + digit_value c) 0 s"

lemma digit_char: "d < 10 \<Longrightarrow> is_digit (digit_char d)" "d < 10 \<Longrightarrow> digit_value (digit_char d) = d"
    "d < 10 \<Longrightarrow> of_char (digit_char d) = (48 + d :: nat)"
proof -
  assume d: "d < 10"
  show *: "of_char (digit_char d) = (48 + d :: nat)"
    using d by (simp add: digit_char_def of_char_of)
  show "is_digit (digit_char d)"
    using * d by (simp add: is_digit_def less_eq_char_def)
  show "digit_value (digit_char d) = d" using * by (simp add: digit_value_def)
qed

lemma digits_value_snoc: "digits_value (s @ [c]) = digits_value s * 10 + digit_value c"
  by (simp add: digits_value_def)

lemma digits_value_nat_to_string [simp]: "digits_value (nat_to_string n) = n"
proof (induction n rule: nat_to_string.induct)
  case (1 n)
  then show ?case
    by (cases "n < 10")
      (simp_all add: nat_to_string.simps [of n] digits_value_snoc digit_char, simp add: digits_value_def digit_char)
qed

lemma nat_to_string_digits: "list_all is_digit (nat_to_string n)"
proof (induction n rule: nat_to_string.induct)
  case (1 n)
  then show ?case by (simp add: nat_to_string.simps [of n] digit_char)
qed

lemma nat_to_string_nonempty [simp]: "nat_to_string n \<noteq> []"
  by (subst nat_to_string.simps) simp

lemma nat_to_string_inject [simp]: "nat_to_string m = nat_to_string n \<longleftrightarrow> m = n"
  by (metis digits_value_nat_to_string)

section \<open>Printing a \<open>double\<close>\<close>

text \<open>The sign, exponent and mantissa fields of an IEEE 754 binary64 bit pattern.\<close>

definition dbl_negative :: "u64 \<Rightarrow> bool" where
  "dbl_negative b = bit b 63"

definition dbl_exponent :: "u64 \<Rightarrow> nat" where
  "dbl_exponent b = unat (take_bit 11 (drop_bit 52 b))"

definition dbl_mantissa :: "u64 \<Rightarrow> nat" where
  "dbl_mantissa b = unat (take_bit 52 b)"

text \<open>The magnitude of a finite pattern as an exact fraction.\<close>

definition dbl_fraction :: "u64 \<Rightarrow> nat \<times> nat" where
  "dbl_fraction b =
     (let e = dbl_exponent b; m = dbl_mantissa b in
      if e = 0 then (m, 2 ^ 1074)
      else if e \<ge> 1075 then ((2 ^ 52 + m) * 2 ^ (e - 1075), 1)
      else (2 ^ 52 + m, 2 ^ (1075 - e)))"

text \<open>\<open>\<lfloor>log10 (n / d)\<rfloor>\<close> for \<open>d \<le> n\<close>, and minus it, rounded up, for \<open>0 < n < d\<close>.\<close>

function log10_up :: "nat \<Rightarrow> nat \<Rightarrow> nat" where
  "log10_up n d = (if d = 0 \<or> n < 10 * d then 0 else Suc (log10_up n (10 * d)))"
  by pat_completeness auto
termination by (relation "measure (\<lambda>(n, d). n - d)") auto

function log10_down :: "nat \<Rightarrow> nat \<Rightarrow> nat" where
  "log10_down n d = (if n = 0 \<or> d \<le> n then 0 else Suc (log10_down (10 * n) d))"
  by pat_completeness auto
termination by (relation "measure (\<lambda>(n, d). d - n)") auto

declare log10_up.simps [simp del] log10_down.simps [simp del]

definition div_half_even :: "nat \<Rightarrow> nat \<Rightarrow> nat" where
  "div_half_even n d =
     (let q = n div d; r = n mod d in
      if 2 * r > d \<or> 2 * r = d \<and> odd q then q + 1 else q)"

text \<open>Six significant digits and the decimal exponent, after rounding.\<close>

definition six_digits :: "nat \<Rightarrow> nat \<Rightarrow> nat \<times> int" where
  "six_digits n d =
     (let x = (if d \<le> n then int (log10_up n d) else - int (log10_down n d));
          q = (if 5 \<le> x then div_half_even n (d * 10 ^ nat (x - 5))
               else div_half_even (n * 10 ^ nat (5 - x)) d)
      in if q = 1000000 then (100000, x + 1) else (q, x))"

definition strip_zeros :: "string \<Rightarrow> string" where
  "strip_zeros s = rev (dropWhile (\<lambda>c. c = CHR ''0'') (rev s))"

definition with_point :: "string \<Rightarrow> string \<Rightarrow> string" where
  "with_point whole frac = (if frac = [] then whole else whole @ ''.'' @ frac)"

definition format_exponent :: "int \<Rightarrow> string" where
  "format_exponent x =
     ''e'' @ (if x < 0 then ''-'' else ''+'') @ (if \<bar>x\<bar> < 10 then ''0'' else '''')
       @ nat_to_string (nat \<bar>x\<bar>)"

definition format_g6 :: "nat \<Rightarrow> nat \<Rightarrow> string" where
  "format_g6 n d =
     (if n = 0 then ''0''
      else case six_digits n d of (q, x) \<Rightarrow>
        let ds = nat_to_string q in
        if x < -4 \<or> 6 \<le> x then
          with_point (take 1 ds) (strip_zeros (drop 1 ds)) @ format_exponent x
        else if 0 \<le> x then
          with_point (take (nat x + 1) ds) (strip_zeros (drop (nat x + 1) ds))
        else with_point ''0'' (replicate (nat (- x) - 1) CHR ''0'' @ strip_zeros ds))"

definition double_to_string :: "u64 \<Rightarrow> string" where
  "double_to_string b =
     (let sign = (if dbl_negative b then ''-'' else '''') in
      if dbl_exponent b = 2047 then sign @ (if dbl_mantissa b = 0 then ''inf'' else ''nan'')
      else sign @ (case dbl_fraction b of (n, d) \<Rightarrow> format_g6 n d))"

text \<open>\<open>static_cast<double>(f)\<close> on the bit pattern of a \<open>float\<close>: every \<open>float\<close> is a \<open>double\<close>; a NaN
  keeps its payload and becomes quiet.\<close>

fun floor_log2 :: "nat \<Rightarrow> nat" where
  "floor_log2 n = (if n < 2 then 0 else Suc (floor_log2 (n div 2)))"

declare floor_log2.simps [simp del]

definition float_to_double :: "u32 \<Rightarrow> u64" where
  "float_to_double b =
     (let s = (if bit b 31 then push_bit 63 1 else 0);
          e = unat (take_bit 8 (drop_bit 23 b));
          m = unat (take_bit 23 b)
      in
      if e = 255 then
        s OR push_bit 52 2047 OR of_nat (m * 2 ^ 29) OR (if m = 0 then 0 else push_bit 51 1)
      else if e = 0 then
        if m = 0 then s
        else let h = floor_log2 m in s OR push_bit 52 (of_nat (h + 874)) OR of_nat ((m - 2 ^ h) * 2 ^ (52 - h))
      else s OR push_bit 52 (of_nat (e + 896)) OR of_nat (m * 2 ^ 29))"

text \<open>No printed number contains a control character, a quote or a backslash.\<close>

definition number_char :: "char \<Rightarrow> bool" where
  "number_char c \<longleftrightarrow> is_digit c \<or> c \<in> set ''+-.aefin''"

lemma is_digit_number_char: "list_all is_digit s \<Longrightarrow> list_all number_char s"
  by (auto simp: list_all_iff number_char_def)

lemma nat_to_string_chars: "list_all number_char (nat_to_string n)"
  by (intro is_digit_number_char nat_to_string_digits)

lemma list_all_take: "list_all P xs \<Longrightarrow> list_all P (take n xs)"
  and list_all_drop: "list_all P xs \<Longrightarrow> list_all P (drop n xs)"
  by (auto simp: list_all_iff dest: in_set_takeD in_set_dropD)

lemma list_all_strip_zeros: "list_all P s \<Longrightarrow> list_all P (strip_zeros s)"
  by (auto simp: list_all_iff strip_zeros_def dest: set_dropWhileD)

lemma with_point_chars:
  "list_all number_char s \<Longrightarrow> list_all number_char t \<Longrightarrow> list_all number_char (with_point s t)"
  by (simp add: with_point_def number_char_def)

lemma int_to_string_chars: "list_all number_char (int_to_string i)"
  by (simp add: int_to_string_def nat_to_string_chars) (simp add: number_char_def)

lemma format_exponent_chars: "list_all number_char (format_exponent x)"
  by (simp add: format_exponent_def nat_to_string_chars) (simp add: number_char_def is_digit_def)

lemma format_g6_chars: "list_all number_char (format_g6 n d)"
proof -
  have z: "number_char CHR ''0''" by (simp add: number_char_def is_digit_def)
  then have "list_all number_char (replicate k CHR ''0'')" for k by (induction k) simp_all
  with z show ?thesis
    by (auto simp: format_g6_def Let_def split: prod.split
        intro!: with_point_chars list_all_take list_all_drop list_all_strip_zeros
          nat_to_string_chars format_exponent_chars)
qed

lemma double_to_string_chars: "list_all number_char (double_to_string b)"
  by (auto simp: double_to_string_def Let_def format_g6_chars split: prod.split)
    (simp_all add: number_char_def)

lemma number_char_code: "number_char c \<Longrightarrow> 32 \<le> (of_char c :: nat) \<and> of_char c < (128 :: nat)"
  by (auto simp: number_char_def is_digit_def less_eq_char_def)

section \<open>Lines and separators\<close>

definition NL :: char where "NL = CHR 0x0A"
definition CR :: char where "CR = CHR 0x0D"
definition BSLASH :: char where "BSLASH = CHR 0x5C"

lemmas special_chars = NL_def CR_def BSLASH_def

lemma special_distinct [simp]: "NL \<noteq> CR" "CR \<noteq> NL" "NL \<noteq> BSLASH" "BSLASH \<noteq> NL" "CR \<noteq> BSLASH" "BSLASH \<noteq> CR"
  by (simp_all add: special_chars)

text \<open>\<open>s.find(c)\<close> as the text before and after the first \<open>c\<close>; \<open>None\<close> for \<open>npos\<close>.\<close>

primrec split_first :: "char \<Rightarrow> string \<Rightarrow> (string \<times> string) option" where
  "split_first c [] = None"
| "split_first c (d # s) = (if d = c then Some ([], s) else map_option (apfst ((#) d)) (split_first c s))"

lemma split_first_app [simp]: "c \<notin> set s \<Longrightarrow> split_first c (s @ c # t) = Some (s, t)"
  by (induction s) auto

lemma split_first_None [simp]: "split_first c s = None \<longleftrightarrow> c \<notin> set s"
  by (induction s) auto

lemma split_first_SomeD: "split_first c s = Some (a, b) \<Longrightarrow> s = a @ c # b \<and> c \<notin> set a"
  by (induction s arbitrary: a b) (auto split: if_splits)

lemma split_first_length: "split_first c s = Some (a, b) \<Longrightarrow> length b < length s"
  by (auto dest!: split_first_SomeD)

text \<open>The lines \<open>std::getline\<close> delivers: an unterminated last line counts only if it is not empty.\<close>

function getlines :: "string \<Rightarrow> string list" where
  "getlines s =
     (if s = [] then []
      else case split_first NL s of None \<Rightarrow> [s] | Some (line, rest) \<Rightarrow> line # getlines rest)"
  by pat_completeness auto
termination by (relation "measure length") (auto dest: split_first_length)

declare getlines.simps [simp del]

lemma getlines_Nil [simp]: "getlines [] = []"
  by (simp add: getlines.simps)

lemma getlines_line [simp]: "NL \<notin> set line \<Longrightarrow> getlines (line @ NL # s) = line # getlines s"
  by (subst getlines.simps) simp

definition unlines :: "string list \<Rightarrow> string" where
  "unlines ls = concat (map (\<lambda>l. l @ [NL]) ls)"

lemma unlines_simps [simp]: "unlines [] = []" "unlines (l # ls) = l @ NL # unlines ls"
    "unlines (ls @ ls') = unlines ls @ unlines ls'"
  by (simp_all add: unlines_def)

lemma getlines_unlines: "list_all (\<lambda>l. NL \<notin> set l) ls \<Longrightarrow> getlines (unlines ls @ s) = ls @ getlines s"
  by (induction ls) simp_all

lemma number_char_plain: "list_all number_char s \<Longrightarrow> NL \<notin> set s"
    "list_all number_char s \<Longrightarrow> CHR ''|'' \<notin> set s" "list_all number_char s \<Longrightarrow> CHR '' '' \<notin> set s"
  by (auto simp: list_all_iff number_char_def is_digit_def special_chars less_eq_char_def)

text \<open>\<open>std::isspace\<close>, \<open>std::tolower\<close> and \<open>std::toupper\<close> in the C locale.\<close>

definition is_space :: "char \<Rightarrow> bool" where
  "is_space c \<longleftrightarrow> c \<in> {CHR '' '', CHR 0x09, CHR 0x0A, CHR 0x0B, CHR 0x0C, CHR 0x0D}"

definition to_lower :: "char \<Rightarrow> char" where
  "to_lower c = (if CHR ''A'' \<le> c \<and> c \<le> CHR ''Z'' then char_of (of_char c + 32 :: nat) else c)"


definition to_upper :: "char \<Rightarrow> char" where
  "to_upper c = (if CHR ''a'' \<le> c \<and> c \<le> CHR ''z'' then char_of (of_char c - 32 :: nat) else c)"

text \<open>A UTF-8 continuation byte, \<open>(c & 0xC0) == 0x80\<close>.\<close>

definition is_continuation :: "char \<Rightarrow> bool" where
  "is_continuation c \<longleftrightarrow> (of_char c :: u8) AND 0xC0 = 0x80"


text \<open>\<open>s.rfind(p, 0) == 0\<close>, also written \<open>s.find(p) == 0\<close>\<close>

definition starts_with :: "string \<Rightarrow> string \<Rightarrow> bool" where
  "starts_with p s \<longleftrightarrow> take (length p) s = p"

lemma starts_with_simps [simp]:
  "starts_with [] s" "starts_with (p # ps) [] \<longleftrightarrow> False"
  "starts_with (p # ps) (c # cs) \<longleftrightarrow> c = p \<and> starts_with ps cs"
  by (auto simp: starts_with_def)

end
