(* ===== verification/Parquet_Values.thy ===== *)
theory Parquet_Values
  imports Parquet_Meta Parquet_Wire Text_Lib
begin

text \<open>
  Value decoding and JSON emission of \<open>src/src/ParquetReader.cpp\<close>: \<open>ColumnValue\<close>, \<open>Cell\<close>,
  \<open>decode_plain_values\<close>, \<open>json_escape_append\<close> and \<open>append_cell_json\<close>. A \<open>double\<close> is its bit pattern.
\<close>

section \<open>Column values\<close>

datatype value_kind = K_STRING | K_INT64 | K_DOUBLE | K_BOOLEAN

record ColumnValue =
  cv_kind :: value_kind
  str_val :: bytes
  int_val :: int
  dbl_val :: u64
  bool_val :: bool

definition ColumnValue0 :: ColumnValue where
  "ColumnValue0 = \<lparr>cv_kind = K_STRING, str_val = [], int_val = 0, dbl_val = 0, bool_val = False\<rparr>"

type_synonym cell = "ColumnValue option"

definition v_bool :: "bool \<Rightarrow> ColumnValue" where
  "v_bool b = ColumnValue0\<lparr>cv_kind := K_BOOLEAN, bool_val := b\<rparr>"

definition v_int :: "int \<Rightarrow> ColumnValue" where
  "v_int i = ColumnValue0\<lparr>cv_kind := K_INT64, int_val := i\<rparr>"

definition v_dbl :: "u64 \<Rightarrow> ColumnValue" where
  "v_dbl d = ColumnValue0\<lparr>cv_kind := K_DOUBLE, dbl_val := d\<rparr>"

definition v_str :: "bytes \<Rightarrow> ColumnValue" where
  "v_str s = ColumnValue0\<lparr>cv_kind := K_STRING, str_val := s\<rparr>"

section \<open>PLAIN decoding\<close>

text \<open>\<open>if (c.pos + n > c.size) return false;\<close>, the little-endian loop and \<open>c.pos += n\<close>.\<close>

definition read_le_word :: "nat \<Rightarrow> cursor \<Rightarrow> ('a::len word \<times> cursor) option" where
  "read_le_word n c =
     (if c_pos c + n > c_size c then None
      else Some (le_word (take n (drop (c_pos c) (c_data c))), c\<lparr>c_pos := c_pos c + n\<rparr>))"

definition plain_value :: "PhysicalType \<Rightarrow> cursor \<Rightarrow> (ColumnValue \<times> cursor) option" where
  "plain_value type c =
     (case type of
        INT32 \<Rightarrow> do { (bits, c) \<leftarrow> read_le_word 4 c; Some (v_int (sint (bits :: u32)), c) }
      | INT64 \<Rightarrow> do { (bits, c) \<leftarrow> read_le_word 8 c; Some (v_int (sint (bits :: u64)), c) }
      | FLOAT \<Rightarrow> do { (bits, c) \<leftarrow> read_le_word 4 c; Some (v_dbl (float_to_double bits), c) }
      | DOUBLE \<Rightarrow> do { (bits, c) \<leftarrow> read_le_word 8 c; Some (v_dbl bits, c) }
      | BYTE_ARRAY \<Rightarrow> do {
          (slen, c) \<leftarrow> read_le_word 4 c;
          let n = unat (slen :: u32);
          if c_pos c + n > c_size c then None
          else Some (v_str (take n (drop (c_pos c) (c_data c))), c\<lparr>c_pos := c_pos c + n\<rparr>) }
      | _ \<Rightarrow> None)"

primrec plain_values :: "nat \<Rightarrow> PhysicalType \<Rightarrow> cursor \<Rightarrow> (ColumnValue list \<times> cursor) option" where
  "plain_values 0 type c = Some ([], c)"
| "plain_values (Suc n) type c =
     do { (v, c) \<leftarrow> plain_value type c; (vs, c) \<leftarrow> plain_values n type c; Some (v # vs, c) }"

definition plain_bit :: "bytes \<Rightarrow> nat \<Rightarrow> ColumnValue" where
  "plain_bit data i = v_bool (drop_bit (i mod 8) (data ! (i div 8)) AND 1 \<noteq> 0)"

definition decode_plain_values :: "bytes \<Rightarrow> PhysicalType \<Rightarrow> nat \<Rightarrow> ColumnValue list option" where
  "decode_plain_values data type count =
     (if count div 8 > length data then None
      else case type of
        BOOLEAN \<Rightarrow>
          if (count + 7) div 8 > length data then None
          else Some (map (plain_bit data) [0..<count])
      | INT96 \<Rightarrow> None
      | FIXED_LEN_BYTE_ARRAY \<Rightarrow> None
      | PhysicalType_other i \<Rightarrow> None
      | _ \<Rightarrow> map_option fst (plain_values count type (cursor_at_start data)))"

text \<open>Which physical types the reader decodes.\<close>

definition decodable :: "PhysicalType \<Rightarrow> bool" where
  "decodable t \<longleftrightarrow> t \<in> {BOOLEAN, INT32, INT64, FLOAT, DOUBLE, BYTE_ARRAY}"

lemma length_plain_values: "plain_values n t c = Some (vs, c') \<Longrightarrow> length vs = n"
  by (induction n arbitrary: c vs) (auto split: bind_splits)

lemma decode_plain_length: "decode_plain_values data t n = Some vs \<Longrightarrow> length vs = n"
  by (auto simp: decode_plain_values_def length_plain_values
      split: PhysicalType.splits if_splits)

lemma decode_plain_decodable: "decode_plain_values data t n = Some vs \<Longrightarrow> decodable t"
  by (auto simp: decode_plain_values_def decodable_def split: PhysicalType.splits if_splits)

section \<open>The PLAIN encoding\<close>

inductive plain_code :: "PhysicalType \<Rightarrow> ColumnValue \<Rightarrow> bytes \<Rightarrow> bool" where
  "int32 i \<Longrightarrow> plain_code INT32 (v_int i) (le_bytes 4 (word_of_int i :: u32))"
| "int64 i \<Longrightarrow> plain_code INT64 (v_int i) (le_bytes 8 (word_of_int i :: u64))"
| "plain_code FLOAT (v_dbl (float_to_double f)) (le_bytes 4 f)"
| "plain_code DOUBLE (v_dbl d) (le_bytes 8 d)"
| "length s < 2 ^ 32 \<Longrightarrow> plain_code BYTE_ARRAY (v_str s) (le_bytes 4 (of_nat (length s) :: u32) @ s)"

inductive_cases plain_codeE: "plain_code t v bs"

lemma sint_of_int32: "int32 i \<Longrightarrow> sint (word_of_int i :: u32) = i"
  by (simp add: int32_def sint_sbintrunc' signed_take_bit_int_eq_self)

lemma read_le_word_enc [rest_simps]:
  fixes w :: "'a::len word"
  assumes "rest c = le_bytes n w @ r" and "cursor_ok c" and "LENGTH('a) \<le> 8 * n"
  shows "read_le_word n c = Some (w, skip_bytes n c)"
proof -
  have "n \<le> remaining c" using arg_cong [OF assms(1), of length] by simp
  moreover have "take n (drop (c_pos c) (c_data c)) = le_bytes n w"
    using assms(1) unfolding rest_def by simp
  ultimately show ?thesis
    using assms(2,3) by (simp add: read_le_word_def remaining_def cursor_ok_def skip_bytes_def le_word_le_bytes)
qed

lemma plain_value_code:
  assumes code: "plain_code t v bs" and r: "rest c = bs @ r" and ok: "cursor_ok c"
  shows "plain_value t c = Some (v, skip_bytes (length bs) c)"
  using code
proof cases
  case (5 s)
  let ?w = "of_nat (length s) :: u32"
  have n: "unat ?w = length s" using 5 by (simp add: unat_of_nat_less)
  have r': "rest c = le_bytes 4 ?w @ s @ r" using r 5 by simp
  have l: "read_le_word 4 c = Some (?w, skip_bytes 4 c)"
    using read_le_word_enc [OF r' ok] by simp
  have s: "drop (c_pos c + 4) (c_data c) = s @ r"
    using arg_cong [OF r', of "drop 4"] by (simp add: rest_def add.commute)
  have "length s + 4 \<le> remaining c" using arg_cong [OF r', of length] by simp
  then have "c_pos c + 4 + length s \<le> c_size c" using ok by (simp add: cursor_ok_def remaining_def)
  then show ?thesis using 5 l n s by (simp add: plain_value_def Let_def skip_bytes_def c_size_def)
qed (use r ok in \<open>auto simp: plain_value_def rest_simps sint_of_int32 sint_of_int64\<close>)

lemma plain_values_code:
  assumes "list_all2 (plain_code t) vs bss" and "rest c = concat bss @ r" and "cursor_ok c"
  shows "plain_values (length vs) t c = Some (vs, skip_bytes (length (concat bss)) c)"
  using assms
proof (induction vs bss arbitrary: c rule: list_all2_induct)
  case Nil
  then show ?case by simp
next
  case (Cons v vs bs bss)
  have r: "rest c = bs @ concat bss @ r" using Cons.prems(1) by simp
  have "plain_value t c = Some (v, skip_bytes (length bs) c)"
    using Cons.hyps(1) r Cons.prems(2) by (rule plain_value_code)
  moreover have "plain_values (length vs) t (skip_bytes (length bs) c) =
      Some (vs, skip_bytes (length (concat bss)) (skip_bytes (length bs) c))"
    using r Cons.prems(2) by (intro Cons.IH cursor_ok_skip) auto
  ultimately show ?case by simp
qed

lemma plain_code_decodable: "plain_code t v bs \<Longrightarrow> decodable t \<and> t \<noteq> BOOLEAN \<and> 0 < length bs"
  by (auto elim!: plain_codeE simp: decodable_def)

lemma plain_code_length: "list_all2 (plain_code t) vs bss \<Longrightarrow> length vs \<le> length (concat bss)"
proof (induction vs bss rule: list_all2_induct)
  case (Cons v vs bs bss)
  from Cons(1) have "0 < length bs" by (blast dest: plain_code_decodable)
  with Cons(3) show ?case unfolding concat.simps length_append list.size by linarith
qed simp

lemma decode_plain_code:
  assumes "list_all2 (plain_code t) vs bss" and "decodable t" and "t \<noteq> BOOLEAN"
  shows "decode_plain_values (concat bss @ r) t (length vs) = Some vs"
proof -
  have "\<not> length vs div 8 > length (concat bss @ r)" using plain_code_length [OF assms(1)] by simp
  moreover have "plain_values (length vs) t (cursor_at_start (concat bss @ r)) =
      Some (vs, skip_bytes (length (concat bss)) (cursor_at_start (concat bss @ r)))"
    using assms(1) by (rule plain_values_code) simp_all
  ultimately show ?thesis
    using assms(2,3) unfolding decode_plain_values_def decodable_def
    by (auto split: PhysicalType.split)
qed

definition bit_code :: "bool list \<Rightarrow> bytes" where
  "bit_code bs = map (\<lambda>k. horner_sum of_bool 2 (map (\<lambda>j. 8 * k + j < length bs \<and> bs ! (8 * k + j)) [0..<8]))
     [0..<(length bs + 7) div 8]"

lemma decode_plain_bits:
  "decode_plain_values (bit_code bs @ r) BOOLEAN (length bs) = Some (map v_bool bs)"
proof -
  have "plain_bit (bit_code bs @ r) i = v_bool (bs ! i)" if "i < length bs" for i
  proof -
    have i: "i div 8 < (length bs + 7) div 8" using that by linarith
    have "(bit_code bs @ r) ! (i div 8) =
        horner_sum of_bool 2 (map (\<lambda>j. 8 * (i div 8) + j < length bs \<and> bs ! (8 * (i div 8) + j)) [0..<8])"
      using i by (simp add: nth_append bit_code_def)
    then show ?thesis
      using that unfolding plain_bit_def
      by (simp add: and_one_eq odd_iff_mod_2_eq_one [symmetric] bit_iff_odd_drop_bit [symmetric]
          bit_horner_sum_bit_word_iff)
  qed
  then have "map (plain_bit (bit_code bs @ r)) [0..<length bs] = map v_bool bs"
    by (intro nth_equalityI) simp_all
  then show ?thesis by (simp add: decode_plain_values_def bit_code_def)
qed

section \<open>JSON emission\<close>

definition hex_digit :: "nat \<Rightarrow> u8" where
  "hex_digit n = of_nat (if n < 10 then 48 + n else 87 + n)"

text \<open>\<open>std::snprintf(buf, sizeof(buf), "\\u%04x", ch)\<close> for a control character.\<close>

definition u_escape :: "u8 \<Rightarrow> bytes" where
  "u_escape ch = ascii [CHR 0x5C, CHR ''u'', CHR ''0'', CHR ''0''] @
     [hex_digit (unat ch div 16), hex_digit (unat ch mod 16)]"

definition json_escape_byte :: "u8 \<Rightarrow> bytes" where
  "json_escape_byte ch =
     (if ch = 0x22 then ascii [CHR 0x5C, CHR 0x22]
      else if ch = 0x5C then ascii [CHR 0x5C, CHR 0x5C]
      else if ch = 0x0A then ascii [CHR 0x5C, CHR ''n'']
      else if ch = 0x0D then ascii [CHR 0x5C, CHR ''r'']
      else if ch = 0x09 then ascii [CHR 0x5C, CHR ''t'']
      else if ch < 0x20 then u_escape ch
      else [ch])"

definition json_escape_append :: "bytes \<Rightarrow> bytes \<Rightarrow> bytes" where
  "json_escape_append s out = foldl (\<lambda>out ch. out @ json_escape_byte ch) out s"

definition append_cell_json :: "cell \<Rightarrow> bytes \<Rightarrow> bytes" where
  "append_cell_json cell out =
     (case cell of
        None \<Rightarrow> out @ ascii ''null''
      | Some v \<Rightarrow>
          (case cv_kind v of
             K_STRING \<Rightarrow> json_escape_append (str_val v) (out @ [0x22]) @ [0x22]
           | K_INT64 \<Rightarrow> out @ ascii (int_to_string (int_val v))
           | K_DOUBLE \<Rightarrow> out @ ascii (double_to_string (dbl_val v))
           | K_BOOLEAN \<Rightarrow> out @ ascii (if bool_val v then ''true'' else ''false'')))"

definition json_escape :: "bytes \<Rightarrow> bytes" where
  "json_escape s = concat (map json_escape_byte s)"

definition cell_json :: "cell \<Rightarrow> bytes" where
  "cell_json cell = append_cell_json cell []"

lemma json_escape_append_eq: "json_escape_append s out = out @ json_escape s"
  by (induction s arbitrary: out) (simp_all add: json_escape_append_def json_escape_def)

lemma append_cell_json_eq: "append_cell_json cell out = out @ cell_json cell"
  by (simp add: cell_json_def append_cell_json_def json_escape_append_eq
      split: option.split value_kind.split)

text \<open>No byte below 0x20 is ever emitted, so a value cannot break its line.\<close>

lemma byte_less: "unat (ch :: u8) < 256"
  using unsigned_less [of ch] by simp

lemma hex_digit_printable: "n < 16 \<Longrightarrow> 0x20 \<le> hex_digit n"
  by (simp add: hex_digit_def word_le_nat_alt unat_of_nat_less)

lemma json_escape_byte_printable: "list_all (\<lambda>b. 0x20 \<le> b) (json_escape_byte ch)"
proof -
  have n: "unat ch div 16 < 16" "unat ch mod 16 < 16"
    using byte_less [of ch] by (simp_all add: less_mult_imp_div_less)
  have "list_all (\<lambda>b. 0x20 \<le> b) (u_escape ch)"
    using n by (simp add: u_escape_def hex_digit_printable del: unat_mod_distrib)
  then show ?thesis by (simp add: json_escape_byte_def not_less [symmetric])
qed

lemma json_escape_printable: "list_all (\<lambda>b. 0x20 \<le> b) (json_escape s)"
  using json_escape_byte_printable by (induction s) (simp_all add: json_escape_def)

lemma ascii_printable: "list_all number_char s \<Longrightarrow> list_all (\<lambda>b. 0x20 \<le> b) (ascii s)"
proof -
  have "(0x20 :: u8) \<le> of_char c" if "number_char c" for c
  proof -
    have "unat (of_nat (of_char c) :: u8) = of_char c"
      using number_char_code [OF that] by (intro unat_of_nat_less) simp
    then have "unat (of_char c :: u8) = of_char c" by (simp only: of_nat_of_char)
    then show ?thesis using number_char_code [OF that] by (simp add: word_le_nat_alt)
  qed
  then show "list_all number_char s \<Longrightarrow> list_all (\<lambda>b. 0x20 \<le> b) (ascii s)"
    by (induction s) auto
qed

lemma cell_json_printable: "list_all (\<lambda>b. 0x20 \<le> b) (cell_json cell)"
  using json_escape_printable int_to_string_chars double_to_string_chars
  by (auto simp: cell_json_def append_cell_json_def json_escape_append_eq
      intro!: ascii_printable [of "int_to_string _"] ascii_printable [of "double_to_string _"]
      split: option.split value_kind.split)

text \<open>A JSON reader for the body of a string literal, up to the closing quote.\<close>

definition hex_value :: "u8 \<Rightarrow> nat" where
  "hex_value b = (if unat b < 58 then unat b - 48 else unat b - 87)"

fun json_read_string :: "bytes \<Rightarrow> (bytes \<times> bytes) option" where
  "json_read_string [] = None"
| "json_read_string (b # bs) =
     (if b = 0x22 then Some ([], bs)
      else if b = 0x5C then
        (case bs of
           [] \<Rightarrow> None
         | e # bs1 \<Rightarrow>
             if e = of_char CHR ''n'' then map_option (apfst ((#) 0x0A)) (json_read_string bs1)
             else if e = of_char CHR ''r'' then map_option (apfst ((#) 0x0D)) (json_read_string bs1)
             else if e = of_char CHR ''t'' then map_option (apfst ((#) 0x09)) (json_read_string bs1)
             else if e = of_char CHR ''u'' then
               (case bs1 of
                  a # b' # x # y # bs2 \<Rightarrow>
                    map_option (apfst ((#) (of_nat (16 * hex_value x + hex_value y)))) (json_read_string bs2)
                | _ \<Rightarrow> None)
             else map_option (apfst ((#) e)) (json_read_string bs1))
      else map_option (apfst ((#) b)) (json_read_string bs))"

declare json_read_string.simps [simp del]

lemma hex_value_digit: "n < 16 \<Longrightarrow> hex_value (hex_digit n) = n"
  by (simp add: hex_value_def hex_digit_def unat_of_nat_less)

lemma json_read_escape_byte:
  "json_read_string (json_escape_byte ch @ r) = map_option (apfst ((#) ch)) (json_read_string r)"
proof -
  have n: "unat ch div 16 < 16" "unat ch mod 16 < 16"
    using byte_less [of ch] by (simp_all add: less_mult_imp_div_less)
  have "(of_nat (16 * (unat ch div 16) + unat ch mod 16) :: u8) = ch" by simp
  with n have u: "json_read_string (u_escape ch @ r) = map_option (apfst ((#) ch)) (json_read_string r)"
    by (simp add: u_escape_def json_read_string.simps(2) [of "0x5C"] hex_value_digit del: of_nat_add of_nat_mult)
  show ?thesis
    by (simp add: json_escape_byte_def u json_read_string.simps(2) [of "0x5C"] json_read_string.simps(2) [of ch])
qed

lemma json_read_escape: "json_read_string (json_escape s @ 0x22 # r) = Some (s, r)"
  by (induction s)
    (simp_all add: json_escape_def json_read_escape_byte json_read_string.simps(2) [of "0x22"])

end
