(* ===== verification/Parquet_Rle.thy ===== *)
theory Parquet_Rle
  imports Parquet_Wire
begin

text \<open>
  The RLE / bit-packed hybrid decoder of \<open>src/src/ParquetReader.cpp\<close>, used for definition levels and
  dictionary indices: \<open>bit_width_for_max_level\<close> and \<open>decode_rle_bitpacked_hybrid\<close>. The abstract side
  is a list of runs with their values and their byte encoding.

  The bit-packed inner loop reads \<open>c.data[c.pos]\<close> without a bounds check of its own: the model has an
  explicit \<open>None\<close> there, and \<open>unpack_in_bounds\<close> shows that the guard before the loop excludes it.
\<close>

section \<open>The decoder\<close>

function bit_width_loop :: "int \<Rightarrow> nat \<Rightarrow> nat" where
  "bit_width_loop max_level width =
     (if 2 ^ width \<le> max_level then bit_width_loop max_level (width + 1) else width)"
  by pat_completeness auto
termination
proof (relation "measure (\<lambda>(m, w). nat m - w)")
  fix m :: int and w :: nat assume "2 ^ w \<le> m"
  moreover have "int w < 2 ^ w" by (metis less_exp of_nat_less_iff of_nat_numeral of_nat_power)
  ultimately have "w < nat m" by linarith
  then show "((m, w + 1), m, w) \<in> measure (\<lambda>(m, w). nat m - w)" by simp
qed simp

declare bit_width_loop.simps [simp del]

definition bit_width_for_max_level :: "int \<Rightarrow> int" where
  "bit_width_for_max_level max_level =
     (if max_level \<le> 0 then 0 else int (bit_width_loop max_level 0))"

text \<open>\<open>while (bits_in_buffer < bit_width)\<close>: take whole bytes into the bit buffer.\<close>

function refill :: "nat \<Rightarrow> u64 \<Rightarrow> nat \<Rightarrow> cursor \<Rightarrow> (u64 \<times> nat \<times> cursor) option" where
  "refill bit_width bit_buffer bits_in_buffer c =
     (if bits_in_buffer < bit_width then
        if c_pos c < c_size c then
          refill bit_width (bit_buffer OR push_bit bits_in_buffer (ucast (c_data c ! c_pos c)))
            (bits_in_buffer + 8) (c\<lparr>c_pos := c_pos c + 1\<rparr>)
        else None
      else Some (bit_buffer, bits_in_buffer, c))"
  by pat_completeness auto
termination
  by (relation "measure (\<lambda>(w, buf, bits, c). w - bits)") auto

declare refill.simps [simp del]

definition value_mask :: "nat \<Rightarrow> u32" where
  "value_mask bit_width = (if bit_width = 32 then 0xFFFFFFFF else push_bit bit_width 1 - 1)"

text \<open>The loop over \<open>values_in_run\<close>; values beyond \<open>num_values\<close> are padding and are dropped.\<close>

primrec unpack ::
  "nat \<Rightarrow> nat \<Rightarrow> nat \<Rightarrow> u64 \<Rightarrow> nat \<Rightarrow> cursor \<Rightarrow> u32 list \<Rightarrow> (u32 list \<times> cursor) option" where
  "unpack 0 bit_width num_values bit_buffer bits_in_buffer c out = Some (out, c)"
| "unpack (Suc n) bit_width num_values bit_buffer bits_in_buffer c out =
     do {
       (bit_buffer, bits_in_buffer, c) \<leftarrow> refill bit_width bit_buffer bits_in_buffer c;
       let val = ucast (bit_buffer AND ucast (value_mask bit_width));
       unpack n bit_width num_values (drop_bit bit_width bit_buffer) (bits_in_buffer - bit_width) c
         (if length out < num_values then out @ [val] else out)
     }"

definition rle_run ::
  "nat \<Rightarrow> nat \<Rightarrow> u64 \<Rightarrow> cursor \<Rightarrow> u32 list \<Rightarrow> (cursor \<times> u32 list) option" where
  "rle_run byte_width num_values run_header c out =
     (let run_length = unat (drop_bit 1 run_header) in
      if c_pos c + byte_width > c_size c then None
      else
        let val = le_word (take byte_width (drop (c_pos c) (c_data c)));
            to_emit = min run_length (num_values - length out)
        in Some (c\<lparr>c_pos := c_pos c + byte_width\<rparr>, out @ replicate to_emit val))"

definition bitpacked_run ::
  "nat \<Rightarrow> nat \<Rightarrow> u64 \<Rightarrow> cursor \<Rightarrow> u32 list \<Rightarrow> (cursor \<times> u32 list) option" where
  "bitpacked_run bit_width num_values run_header c out =
     (let num_groups = unat (drop_bit 1 run_header) in
      if num_groups > (c_size c - c_pos c) div bit_width then None
      else
        let total_bytes = num_groups * bit_width in
        if c_pos c + total_bytes > c_size c then None
        else do {
          (out, _) \<leftarrow> unpack (num_groups * 8) bit_width num_values 0 0 c out;
          Some (c\<lparr>c_pos := c_pos c + total_bytes\<rparr>, out)
        })"

definition hybrid_body ::
  "nat \<Rightarrow> nat \<Rightarrow> cursor \<times> u32 list \<Rightarrow> ((cursor \<times> u32 list) + u32 list) option" where
  "hybrid_body bit_width num_values s =
     (case s of (c, out) \<Rightarrow>
        if \<not> length out < num_values then Some (Inr out)
        else do {
          (run_header, c) \<leftarrow> read_varint c;
          s \<leftarrow> (if run_header AND 1 = 0 then rle_run ((bit_width + 7) div 8) num_values run_header c out
               else bitpacked_run bit_width num_values run_header c out);
          Some (Inl s)
        })"

definition hybrid_loop :: "nat \<Rightarrow> nat \<Rightarrow> cursor \<times> u32 list \<Rightarrow> u32 list option" where
  "hybrid_loop bit_width num_values =
     loop (\<lambda>(c, out). remaining c) (hybrid_body bit_width num_values)"

definition decode_rle_bitpacked_hybrid :: "bytes \<Rightarrow> int \<Rightarrow> nat \<Rightarrow> u32 list option" where
  "decode_rle_bitpacked_hybrid data bit_width num_values =
     (if bit_width = 0 then Some (replicate num_values 0)
      else if bit_width < 0 \<or> bit_width > 32 then None
      else do {
        out \<leftarrow> hybrid_loop (nat bit_width) num_values (cursor_at_start data, []);
        if length out = num_values then Some out else None
      })"

section \<open>The width of a level\<close>

lemma bit_width_loop_spec:
  "w = 0 \<or> 2 ^ (w - 1) \<le> m \<Longrightarrow> 0 < m \<Longrightarrow>
     m < 2 ^ bit_width_loop m w \<and> (bit_width_loop m w = 0 \<or> 2 ^ (bit_width_loop m w - 1) \<le> m)"
proof (induction m w rule: bit_width_loop.induct)
  case (1 m w)
  show ?case
  proof (cases "2 ^ w \<le> m")
    case True
    with 1 show ?thesis by (simp add: bit_width_loop.simps [of m w])
  next
    case False
    with 1(2) show ?thesis by (simp add: bit_width_loop.simps [of m w])
  qed
qed

section \<open>Bit streams\<close>

text \<open>Bit \<open>k\<close> of a byte sequence, least significant bit of the first byte first.\<close>

definition stream_bit :: "bytes \<Rightarrow> nat \<Rightarrow> bool" where
  "stream_bit bs k = bit (bs ! (k div 8)) (k mod 8)"

text \<open>The \<open>i\<close>-th \<open>w\<close>-bit value of the stream.\<close>

definition packed_value :: "nat \<Rightarrow> bytes \<Rightarrow> nat \<Rightarrow> u32" where
  "packed_value w bs i = horner_sum of_bool 2 (map (\<lambda>j. stream_bit bs (i * w + j)) [0..<w])"

lemma bit_packed_value:
  "w \<le> 32 \<Longrightarrow> bit (packed_value w bs i) j \<longleftrightarrow> j < w \<and> stream_bit bs (i * w + j)"
  by (auto simp: packed_value_def bit_horner_sum_bit_word_iff)

lemma value_mask_eq: "w \<le> 32 \<Longrightarrow> value_mask w = mask w"
  by (cases "w = 32") (simp_all add: value_mask_def mask_eq_exp_minus_1 push_bit_eq_mult)

text \<open>
  The state of the bit buffer: the first \<open>p\<close> bytes were taken, the first \<open>k\<close> bits were used, and
  the buffer holds the bits in between.
\<close>

definition buffered :: "bytes \<Rightarrow> nat \<Rightarrow> nat \<Rightarrow> u64 \<Rightarrow> nat \<Rightarrow> bool" where
  "buffered bs p k buf bits \<longleftrightarrow> k + bits = 8 * p \<and> p \<le> length bs \<and>
     (\<forall>j. bit buf j \<longleftrightarrow> j < bits \<and> stream_bit bs (k + j))"

lemma buffered_byte:
  assumes "buffered bs p k buf bits" and "p < length bs" and "bits \<le> 56"
  shows "buffered bs (Suc p) k (buf OR push_bit bits (ucast (bs ! p))) (bits + 8)"
proof -
  have kb: "k + bits = 8 * p" and buf: "\<And>j. bit buf j \<longleftrightarrow> j < bits \<and> stream_bit bs (k + j)"
    using assms(1) by (auto simp: buffered_def)
  have "bit (buf OR push_bit bits (ucast (bs ! p))) j \<longleftrightarrow> j < bits + 8 \<and> stream_bit bs (k + j)" for j
  proof (cases "j < bits")
    case True
    then show ?thesis by (simp add: bit_or_iff bit_push_bit_iff buf)
  next
    case False
    then obtain i where j: "j = bits + i" by (metis le_iff_add not_less)
    have kj: "k + j = i + 8 * p" using kb j by simp
    have "bit (buf OR push_bit bits (ucast (bs ! p))) j \<longleftrightarrow> i < 8 \<and> bit (bs ! p) i"
      using assms(3) by (auto simp: bit_or_iff bit_push_bit_iff buf j bit_ucast_iff dest: bit_imp_le_length)
    moreover have "i < 8 \<Longrightarrow> stream_bit bs (i + 8 * p) = bit (bs ! p) i"
      by (simp add: stream_bit_def)
    ultimately show ?thesis unfolding kj using j by auto
  qed
  then show ?thesis using assms kb by (auto simp: buffered_def)
qed

lemma refill_spec:
  assumes "buffered bs p k buf bits" and "rest c = drop p (bs @ r)" and "cursor_ok c"
    and "k + w \<le> 8 * length bs" and "w \<le> 32" and "bits < w + 8"
  shows "\<exists>p' buf' bits'. refill w buf bits c = Some (buf', bits', skip_bytes (p' - p) c) \<and>
      buffered bs p' k buf' bits' \<and> p \<le> p' \<and> w \<le> bits' \<and> bits' < w + 8"
  using assms
proof (induction "w - bits" arbitrary: p buf bits c rule: less_induct)
  case less
  show ?case
  proof (cases "bits < w")
    case False
    then show ?thesis
      using less.prems by (intro exI [of _ p] exI [of _ buf] exI [of _ bits])
        (simp add: refill.simps [of w])
  next
    case True
    have kb: "k + bits = 8 * p" using less.prems(1) by (simp add: buffered_def)
    have p: "p < length bs" using kb True less.prems(4) by linarith
    then have rest: "rest c = bs ! p # drop (Suc p) (bs @ r)"
      unfolding less.prems(2) by (subst Cons_nth_drop_Suc [symmetric]) (simp_all add: nth_append)
    then have pos: "c_pos c < c_size c" "c_data c ! c_pos c = bs ! p"
      using nth_rest [of 0 c] length_rest [of c] by (auto simp: remaining_def)
    have step: "refill w buf bits c =
        refill w (buf OR push_bit bits (ucast (bs ! p))) (bits + 8) (skip_bytes 1 c)"
      using True pos by (simp add: refill.simps [of w buf bits] skip_bytes_def)
    have b: "buffered bs (Suc p) k (buf OR push_bit bits (ucast (bs ! p))) (bits + 8)"
      using less.prems(1,5) p True by (intro buffered_byte) auto
    have rest1: "rest (skip_bytes 1 c) = drop (Suc p) (bs @ r)" unfolding rest_skip_bytes rest by simp
    have "w - (bits + 8) < w - bits" "bits + 8 < w + 8" using True by simp_all
    from less.hyps [OF this(1) b rest1 cursor_ok_skip1 [OF less.prems(3) rest] less.prems(4,5) this(2)]
    obtain p' buf' bits' where *: "refill w (buf OR push_bit bits (ucast (bs ! p))) (bits + 8) (skip_bytes 1 c)
          = Some (buf', bits', skip_bytes (p' - Suc p) (skip_bytes 1 c))"
        "buffered bs p' k buf' bits'" "Suc p \<le> p'" "w \<le> bits'" "bits' < w + 8"
      by blast
    show ?thesis
      using * by (intro exI [of _ p'] exI [of _ buf'] exI [of _ bits']) (simp add: step)
  qed
qed

lemma buffered_use:
  assumes "buffered bs p (i * w) buf bits" and "w \<le> bits" and "w \<le> 32"
  shows "buffered bs p (Suc i * w) (drop_bit w buf) (bits - w)"
    and "ucast (buf AND ucast (value_mask w)) = packed_value w bs i"
proof -
  have kb: "i * w + bits = 8 * p" "p \<le> length bs"
    and buf: "\<And>j. bit buf j \<longleftrightarrow> j < bits \<and> stream_bit bs (i * w + j)"
    using assms(1) by (simp_all add: buffered_def)
  have "bit (drop_bit w buf) j \<longleftrightarrow> j < bits - w \<and> stream_bit bs (Suc i * w + j)" for j
    using buf [of "w + j"] assms(2) by (auto simp: bit_drop_bit_eq add.assoc add.left_commute)
  then show "buffered bs p (Suc i * w) (drop_bit w buf) (bits - w)"
    using kb assms(2) by (simp add: buffered_def)
  have "bit (ucast (buf AND ucast (value_mask w)) :: u32) j \<longleftrightarrow> bit (packed_value w bs i) j"
    if "j < 32" for j
    using that assms(2,3) by (auto simp: bit_packed_value value_mask_eq bit_ucast_iff bit_and_iff bit_mask_iff buf)
  then show "ucast (buf AND ucast (value_mask w)) = packed_value w bs i"
    by (intro bit_word_eqI) simp
qed

text \<open>The bit-packed loop never reads past the run, and yields the packed values in order.\<close>

lemma unpack_spec:
  assumes "buffered bs p (i * w) buf bits" and "rest c = drop p (bs @ r)" and "cursor_ok c"
    and "(i + n) * w \<le> 8 * length bs" and "w \<le> 32" and "bits < w + 8"
  shows "\<exists>c'. unpack n w num buf bits c out =
      Some (out @ take (num - length out) (map (packed_value w bs) [i..<i + n]), c')"
  using assms
proof (induction n arbitrary: i p buf bits c out)
  case 0
  then show ?case by simp
next
  case (Suc n)
  have "i * w + w \<le> 8 * length bs" using Suc.prems(4) by (simp add: algebra_simps)
  from refill_spec [OF Suc.prems(1-3) this Suc.prems(5,6)] obtain p' buf' bits' where
    *: "refill w buf bits c = Some (buf', bits', skip_bytes (p' - p) c)"
      "buffered bs p' (i * w) buf' bits'" "p \<le> p'" "w \<le> bits'" "bits' < w + 8" by blast
  note use = buffered_use [OF *(2,4) Suc.prems(5)]
  have "p' \<le> length bs" using *(2) by (simp add: buffered_def)
  then have ok: "cursor_ok (skip_bytes (p' - p) c)"
    using Suc.prems(2,3) *(3) length_rest [of c] by (simp add: cursor_ok_def remaining_def)
  have r: "rest (skip_bytes (p' - p) c) = drop p' (bs @ r)"
    using Suc.prems(2) *(3) by (simp del: drop_append)
  let ?out = "if length out < num then out @ [packed_value w bs i] else out"
  obtain c' where c': "unpack n w num (drop_bit w buf') (bits' - w) (skip_bytes (p' - p) c) ?out =
      Some (?out @ take (num - length ?out) (map (packed_value w bs) [Suc i..<Suc i + n]), c')"
    using Suc.IH [OF use(1) r ok _ Suc.prems(5), of ?out] Suc.prems(4) *(4,5) by force
  have "[i..<i + Suc n] = i # [Suc i..<Suc i + n]" by (simp add: upt_conv_Cons del: upt_Suc)
  then have "?out @ take (num - length ?out) (map (packed_value w bs) [Suc i..<Suc i + n]) =
      out @ take (num - length out) (map (packed_value w bs) [i..<i + Suc n])"
    by (auto simp: take_Cons' simp del: upt_Suc)
  then show ?case
    using *(1) c' use(2) by (cases "length out < num") (auto simp: Let_def simp del: upt_Suc)
qed

lemma buffered_0: "buffered bs 0 0 0 0"
  by (simp add: buffered_def)

lemma unpack_run:
  assumes "rest c = bs @ r" and "cursor_ok c" and "length bs = g * w" and "w \<le> 32"
  obtains c' where "unpack (g * 8) w num 0 0 c out =
      Some (out @ take (num - length out) (map (packed_value w bs) [0..<g * 8]), c')"
  using unpack_spec [of bs 0 0 w 0 0 c r "g * 8" num out] assms buffered_0 [of bs]
  by (auto simp: algebra_simps)

lemma unpack_in_bounds:
  assumes "cursor_ok c" and "g * w \<le> remaining c" and "w \<le> 32"
  obtains c' where "unpack (g * 8) w num 0 0 c out =
      Some (out @ take (num - length out) (map (packed_value w (take (g * w) (rest c))) [0..<g * 8]), c')"
  using unpack_run [of c "take (g * w) (rest c)" "drop (g * w) (rest c)" g w num out] assms by auto

section \<open>Progress\<close>

lemma rle_run_step:
  "cursor_ok c \<Longrightarrow> rle_run bw num h c out = Some (c', out') \<Longrightarrow> length out < num \<Longrightarrow>
     advances c c' \<and> length out' \<le> num"
  by (auto simp: rle_run_def Let_def advances_def cursor_ok_def c_size_def split: if_splits)

lemma bitpacked_run_step:
  assumes "cursor_ok c" and "bitpacked_run w num h c out = Some (c', out')" and "length out < num"
    and "w \<le> 32"
  shows "advances c c' \<and> length out' \<le> num"
proof -
  define g where "g = unat (drop_bit 1 h)"
  have fit: "g * w \<le> remaining c" and c': "c' = skip_bytes (g * w) c"
    and u: "\<exists>c2. unpack (g * 8) w num 0 0 c out = Some (out', c2)"
    using assms(1,2) unfolding bitpacked_run_def Let_def g_def [symmetric]
    by (auto simp: skip_bytes_def remaining_def cursor_ok_def split: if_split_asm Option.bind_split_asm)
  from unpack_in_bounds [OF assms(1) fit assms(4), of num out] u
  obtain vs where "out' = out @ take (num - length out) vs" by (metis Pair_inject option.inject)
  then have "length out' \<le> num" using assms(3) by simp
  with fit c' assms(1) show ?thesis by auto
qed

definition hybrid_ok :: "nat \<Rightarrow> cursor \<times> u32 list \<Rightarrow> bool" where
  "hybrid_ok num s \<longleftrightarrow> cursor_ok (fst s) \<and> length (snd s) \<le> num"

text \<open>Every run consumes its header, so the loop ends even when runs are empty.\<close>

lemma hybrid_step:
  assumes ok: "hybrid_ok num s" and step: "hybrid_body w num s = Some (Inl s')" and w: "w \<le> 32"
  shows "hybrid_ok num s'" and "remaining (fst s') < remaining (fst s)"
proof -
  obtain c out c' out' where s: "s = (c, out)" "s' = (c', out')" by (cases s, cases s')
  from step obtain h c1 where h: "read_varint c = Some (h, c1)" and less: "length out < num"
      and e: "rle_run ((w + 7) div 8) num h c1 out = Some (c', out') \<or> bitpacked_run w num h c1 out = Some (c', out')"
    by (auto simp: hybrid_body_def s split: bind_splits if_splits)
  from ok h have a: "advances1 c c1" by (auto simp: hybrid_ok_def s intro: read_varint.rd_advances1)
  then have ok1: "cursor_ok c1" by (blast intro: advances_ok advances1D)
  from e have e': "advances c1 c'" "length out' \<le> num"
    using rle_run_step [OF ok1 _ less] bitpacked_run_step [OF ok1 _ less w] by auto
  then show "hybrid_ok num s'" by (auto simp: hybrid_ok_def s intro: advances_ok)
  from a e'(1) show "remaining (fst s') < remaining (fst s)"
    by (simp add: s advances1_remaining [OF advances1_trans1])
qed

interpretation hybrid: measured_loop "\<lambda>(c, out). remaining c" "hybrid_body (min 32 w) num" "hybrid_ok num"
  for w num
  by unfold_locales (use hybrid_step in \<open>auto simp: case_prod_beta\<close>)

lemma hybrid_loop_unfold:
  assumes "w \<le> 32" and "hybrid_ok num s"
  shows "hybrid_loop w num s = (case hybrid_body w num s of
     None \<Rightarrow> None | Some (Inr r) \<Rightarrow> Some r | Some (Inl s') \<Rightarrow> hybrid_loop w num s')"
proof -
  have "min 32 w = w" using assms(1) by simp
  from hybrid.unfold [of num s w, unfolded this, OF assms(2)] show ?thesis
    by (simp only: hybrid_loop_def)
qed

lemma decode_length:
  "decode_rle_bitpacked_hybrid data w num = Some out \<Longrightarrow> length out = num"
  by (auto simp: decode_rle_bitpacked_hybrid_def split: if_splits bind_splits)

section \<open>The encodings of a list of runs\<close>

datatype run = Repeated nat u32 | Packed "u32 list"

fun run_values :: "run \<Rightarrow> u32 list" where
  "run_values (Repeated n v) = replicate n v"
| "run_values (Packed vs) = vs"

definition pack_byte :: "nat \<Rightarrow> u32 list \<Rightarrow> nat \<Rightarrow> u8" where
  "pack_byte w vs k =
     horner_sum of_bool 2 (map (\<lambda>j. bit (vs ! ((8 * k + j) div w)) ((8 * k + j) mod w)) [0..<8])"

definition pack :: "nat \<Rightarrow> u32 list \<Rightarrow> bytes" where
  "pack w vs = map (pack_byte w vs) [0..<length vs div 8 * w]"

fun run_code :: "nat \<Rightarrow> run \<Rightarrow> bytes" where
  "run_code w (Repeated n v) = venc (2 * n) @ le_bytes ((w + 7) div 8) v"
| "run_code w (Packed vs) = venc (2 * (length vs div 8) + 1) @ pack w vs"

text \<open>A run the format can express: values of at most \<open>w\<close> bits, packed ones in groups of eight.\<close>

fun run_ok :: "nat \<Rightarrow> run \<Rightarrow> bool" where
  "run_ok w (Repeated n v) \<longleftrightarrow> n < 2 ^ 63 \<and> v = take_bit w v"
| "run_ok w (Packed vs) \<longleftrightarrow>
     length vs mod 8 = 0 \<and> length vs < 2 ^ 63 \<and> (\<forall>v \<in> set vs. v = take_bit w v)"

lemma length_pack [simp]: "length (pack w vs) = length vs div 8 * w"
  by (simp add: pack_def)

lemma stream_bit_pack:
  assumes "k < length vs div 8 * w * 8"
  shows "stream_bit (pack w vs) k = bit (vs ! (k div w)) (k mod w)"
proof -
  have "k div 8 < length vs div 8 * w" using assms by (simp add: less_mult_imp_div_less)
  then show ?thesis
    by (simp add: stream_bit_def pack_def pack_byte_def bit_horner_sum_bit_word_iff)
qed

lemma packed_value_pack:
  assumes "i < length vs" "length vs mod 8 = 0" "w \<le> 32" "vs ! i = take_bit w (vs ! i)"
  shows "packed_value w (pack w vs) i = vs ! i"
proof (rule bit_word_eqI)
  fix j assume "j < LENGTH(32)"
  have "i * w + j < length vs div 8 * w * 8" if "j < w"
  proof -
    have "i * w + j < (i + 1) * w" using that by simp
    also have "\<dots> \<le> length vs * w" using assms(1) by (intro mult_right_mono) auto
    also have "\<dots> = length vs div 8 * w * 8" using assms(2)
      by (metis mult.assoc mult.commute dvd_div_mult_self mod_0_imp_dvd)
    finally show ?thesis .
  qed
  then have "bit (packed_value w (pack w vs) i) j \<longleftrightarrow> j < w \<and> bit (vs ! i) j"
    using assms(3) by (auto simp: bit_packed_value stream_bit_pack)
  also have "\<dots> \<longleftrightarrow> bit (take_bit w (vs ! i)) j" by (simp add: bit_take_bit_iff)
  finally show "bit (packed_value w (pack w vs) i) j = bit (vs ! i) j" using assms(4) by simp
qed

lemma run_header_bits:
  assumes "n < 2 ^ 63"
  shows "unat (drop_bit 1 (of_nat (2 * n) :: u64)) = n" "(of_nat (2 * n) :: u64) AND 1 = 0"
    and "unat (drop_bit 1 (of_nat (2 * n + 1) :: u64)) = n" "(of_nat (2 * n + 1) :: u64) AND 1 = 1"
proof -
  have le: "2 * n < 2 ^ 64" "2 * n + 1 < 2 ^ 64" "n < 2 ^ 64" using assms by simp_all
  have n: "unat (of_nat n :: u64) = n" using le(3) by (simp add: unat_of_nat_less)
  show "unat (drop_bit 1 (of_nat (2 * n) :: u64)) = n"
    unfolding drop_bit_1_of_nat [OF le(1)] by (simp add: n)
  show "unat (drop_bit 1 (of_nat (2 * n + 1) :: u64)) = n"
    unfolding drop_bit_1_of_nat [OF le(2)] by (simp add: n)
  show "(of_nat (2 * n) :: u64) AND 1 = 0" unfolding and_1_of_nat by simp
  show "(of_nat (2 * n + 1) :: u64) AND 1 = 1" unfolding and_1_of_nat by simp
qed

lemma hybrid_body_code:
  assumes run: "run_ok w run" and w: "0 < w" "w \<le> 32" and ok: "cursor_ok c"
    and r: "rest c = run_code w run @ r" and less: "length out < num"
  shows "hybrid_body w num (c, out) = Some (Inl (skip_bytes (length (run_code w run)) c,
           out @ take (num - length out) (run_values run)))"
proof (cases run)
  case (Repeated n v)
  let ?h = "of_nat (2 * n) :: u64"
  have n: "n < 2 ^ 63" and v: "v = take_bit w v" using run Repeated by simp_all
  have h: "read_varint c = Some (?h, skip_bytes (length (venc (2 * n))) c)"
    using r Repeated n by (intro read_varint_venc) auto
  let ?c = "skip_bytes (length (venc (2 * n))) c"
  have r1: "rest ?c = le_bytes ((w + 7) div 8) v @ r" using r Repeated by simp
  have ok1: "cursor_ok ?c" using ok r Repeated by (intro cursor_ok_skip) auto
  have "w \<le> 8 * ((w + 7) div 8)" by presburger
  then have "le_word (le_bytes ((w + 7) div 8) v) = v"
    by (subst le_word_le_bytes_take_bit) (metis v take_bit_take_bit min_absorb2)
  moreover have "(w + 7) div 8 \<le> remaining ?c"
    using arg_cong [OF r1, of length] by (simp del: rest_skip_bytes)
  moreover have "take ((w + 7) div 8) (drop (c_pos ?c) (c_data ?c)) = le_bytes ((w + 7) div 8) v"
    using r1 unfolding rest_def by simp
  ultimately have "rle_run ((w + 7) div 8) num ?h ?c out =
      Some (skip_bytes ((w + 7) div 8) ?c, out @ replicate (min n (num - length out)) v)"
    using ok1 unfolding rle_run_def Let_def run_header_bits(1) [OF n]
    by (simp add: cursor_ok_def remaining_def del: skip_bytes_simps) (simp add: skip_bytes_def)
  with h less show ?thesis
    by (simp add: hybrid_body_def Repeated run_header_bits(2) [OF n, simplified] min.commute)
next
  case (Packed vs)
  define g where "g = length vs div 8"
  let ?h = "of_nat (2 * g + 1) :: u64"
  have vs: "length vs = g * 8" "length vs mod 8 = 0" "\<And>i. i < length vs \<Longrightarrow> vs ! i = take_bit w (vs ! i)"
    and g: "g < 2 ^ 63"
    using run Packed nth_mem [of _ vs] by (auto simp: g_def)
  have h: "read_varint c = Some (?h, skip_bytes (length (venc (2 * g + 1))) c)"
    using r Packed g by (intro read_varint_venc) (auto simp: g_def)
  let ?c = "skip_bytes (length (venc (2 * g + 1))) c"
  have r1: "rest ?c = pack w vs @ r" using r Packed by (simp add: g_def)
  have ok1: "cursor_ok ?c" using ok r Packed by (intro cursor_ok_skip) (auto simp: g_def)
  have fit: "g * w \<le> c_size ?c - c_pos ?c"
    using arg_cong [OF r1, of length]
    by (simp add: g_def remaining_def del: rest_skip_bytes skip_bytes_simps)
  then have fit': "\<not> g > (c_size ?c - c_pos ?c) div w" "\<not> c_pos ?c + g * w > c_size ?c"
    using w(1) ok1 by (simp_all add: less_eq_div_iff_mult_less_eq not_less cursor_ok_def del: skip_bytes_simps)
  from unpack_run [OF r1 ok1 _ w(2), of g num out] obtain c2 where
    "unpack (g * 8) w num 0 0 ?c out =
       Some (out @ take (num - length out) (map (packed_value w (pack w vs)) [0..<g * 8]), c2)"
    by (auto simp: g_def)
  moreover have "map (packed_value w (pack w vs)) [0..<g * 8] = vs"
    using vs w(2) by (intro nth_equalityI) (auto intro: packed_value_pack)
  ultimately have "bitpacked_run w num ?h ?c out =
      Some (skip_bytes (g * w) ?c, out @ take (num - length out) vs)"
    using fit' unfolding bitpacked_run_def Let_def run_header_bits(3) [OF g] by (simp add: skip_bytes_def)
  with h less run_header_bits(4) [OF g] show ?thesis
    by (simp add: hybrid_body_def Packed g_def [symmetric] del: of_nat_add of_nat_mult)
qed

lemma hybrid_loop_code:
  assumes "list_all (run_ok w) runs" and "0 < w" "w \<le> 32" and "cursor_ok c"
    and "rest c = concat (map (run_code w) runs) @ r" and "length out \<le> num"
    and "num \<le> length out + length (concat (map run_values runs))"
  shows "hybrid_loop w num (c, out) =
           Some (out @ take (num - length out) (concat (map run_values runs)))"
  using assms
proof (induction runs arbitrary: c out)
  case Nil
  then show ?case by (subst hybrid_loop_unfold) (auto simp: hybrid_ok_def hybrid_body_def)
next
  case (Cons run runs)
  have ok: "hybrid_ok num (c, out)" using Cons.prems by (simp add: hybrid_ok_def)
  show ?case
  proof (cases "length out < num")
    case False
    with Cons.prems ok show ?thesis by (subst hybrid_loop_unfold) (auto simp: hybrid_body_def)
  next
    case True
    let ?out = "out @ take (num - length out) (run_values run)"
    have r: "rest c = run_code w run @ concat (map (run_code w) runs) @ r" using Cons.prems(5) by simp
    have "hybrid_loop w num (c, out) = hybrid_loop w num (skip_bytes (length (run_code w run)) c, ?out)"
      using hybrid_body_code [OF _ Cons.prems(2-4) r True] Cons.prems(1,3) ok
      by (subst hybrid_loop_unfold) auto
    also have "\<dots> = Some (?out @ take (num - length ?out) (concat (map run_values runs)))"
      using Cons.prems r by (intro Cons.IH cursor_ok_skip [OF _ r]) auto
    finally show ?thesis by (auto simp: min_def)
  qed
qed

lemma decode_runs:
  assumes "list_all (run_ok w) runs" and "0 < w" "w \<le> 32"
    and "num \<le> length (concat (map run_values runs))"
  shows "decode_rle_bitpacked_hybrid (concat (map (run_code w) runs) @ r) (int w) num =
           Some (take num (concat (map run_values runs)))"
  using assms hybrid_loop_code [OF assms(1-3), of "cursor_at_start (concat (map (run_code w) runs) @ r)" r "[]" num]
  by (simp add: decode_rle_bitpacked_hybrid_def)

end
