(* ===== verification/Snappy.thy ===== *)
theory Snappy
  imports Parquet_Wire
begin

text \<open>
  \<open>snappy_raw_uncompress\<close> of \<open>src/src/ParquetReader.cpp\<close>: raw-block Snappy decompression. The
  buffer sizes are \<open>nat\<close>; every sum formed stays below \<open>2 ^ 33\<close> plus a buffer size. The abstract
  side is a list of elements (literal bytes, or a copy of earlier output) with its expansion, and
  the byte encodings of each element.
\<close>

section \<open>The decompressor\<close>

text \<open>\<open>for (i = 0; i < length; ++i) out.push_back(out[start + i]);\<close>\<close>

primrec copy_loop :: "nat \<Rightarrow> nat \<Rightarrow> bytes \<Rightarrow> bytes" where
  "copy_loop 0 start out = out"
| "copy_loop (Suc n) start out = copy_loop n (Suc start) (out @ [out ! start])"

text \<open>The extra length bytes of a long literal, read one by one into a \<open>std::uint32_t\<close>.\<close>

primrec read_le :: "nat \<Rightarrow> nat \<Rightarrow> u32 \<Rightarrow> cursor \<Rightarrow> (u32 \<times> cursor) option" where
  "read_le 0 i v c = Some (v, c)"
| "read_le (Suc n) i v c =
     do { (b, c) \<leftarrow> read_byte c; read_le n (Suc i) (v OR push_bit (8 * i) (ucast b)) c }"

definition snappy_literal_length :: "u8 \<Rightarrow> cursor \<Rightarrow> (nat \<times> cursor) option" where
  "snappy_literal_length tag c =
     (let len_field = unat (drop_bit 2 tag) in
      if len_field < 60 then Some (len_field + 1, c)
      else do { (v, c) \<leftarrow> read_le (len_field - 59) 0 0 c; Some (unat v + 1, c) })"

definition snappy_literal ::
  "nat \<Rightarrow> u8 \<Rightarrow> cursor \<Rightarrow> bytes \<Rightarrow> (cursor \<times> bytes) option" where
  "snappy_literal uncompressed_len tag c out =
     do {
       (lit_len, c) \<leftarrow> snappy_literal_length tag c;
       if c_pos c + lit_len > c_size c then None
       else if length out + lit_len > uncompressed_len then None
       else Some (c\<lparr>c_pos := c_pos c + lit_len\<rparr>, out @ take lit_len (drop (c_pos c) (c_data c)))
     }"

definition snappy_copy_header :: "u8 \<Rightarrow> cursor \<Rightarrow> ((nat \<times> nat) \<times> cursor) option" where
  "snappy_copy_header tag c =
     (if tag AND 0x03 = 1 then
        do {
          (b0, c) \<leftarrow> read_byte c;
          Some ((unat (drop_bit 2 tag AND 0x07) + 4,
            unat (push_bit 8 (ucast (drop_bit 5 tag AND 0x07)) OR ucast b0 :: u64)), c)
        }
      else if tag AND 0x03 = 2 then
        if c_pos c + 2 > c_size c then None
        else Some ((unat (drop_bit 2 tag) + 1,
            unat (le_word (take 2 (drop (c_pos c) (c_data c))) :: u64)), c\<lparr>c_pos := c_pos c + 2\<rparr>)
      else
        if c_pos c + 4 > c_size c then None
        else Some ((unat (drop_bit 2 tag) + 1,
            unat (le_word (take 4 (drop (c_pos c) (c_data c))) :: u64)), c\<lparr>c_pos := c_pos c + 4\<rparr>))"

definition snappy_copy ::
  "nat \<Rightarrow> u8 \<Rightarrow> cursor \<Rightarrow> bytes \<Rightarrow> (cursor \<times> bytes) option" where
  "snappy_copy uncompressed_len tag c out =
     do {
       ((len, offset), c) \<leftarrow> snappy_copy_header tag c;
       if offset = 0 \<or> offset > length out then None
       else if length out + len > uncompressed_len then None
       else Some (c, copy_loop len (length out - offset) out)
     }"

definition snappy_body ::
  "nat \<Rightarrow> cursor \<times> bytes \<Rightarrow> ((cursor \<times> bytes) + bytes) option" where
  "snappy_body uncompressed_len s =
     (case s of (c, out) \<Rightarrow>
        if \<not> length out < uncompressed_len then Some (Inr out)
        else do {
          (tag, c) \<leftarrow> read_byte c;
          s \<leftarrow> (if tag AND 0x03 = 0 then snappy_literal uncompressed_len tag c out
               else snappy_copy uncompressed_len tag c out);
          Some (Inl s)
        })"

definition snappy_loop :: "nat \<Rightarrow> cursor \<times> bytes \<Rightarrow> bytes option" where
  "snappy_loop uncompressed_len = loop (\<lambda>(c, out). remaining c) (snappy_body uncompressed_len)"

definition snappy_raw_uncompress :: "bytes \<Rightarrow> u64 \<Rightarrow> bytes option" where
  "snappy_raw_uncompress src max_uncompressed =
     do {
       (uncompressed_len, c) \<leftarrow> read_varint (cursor_at_start src);
       if uncompressed_len > max_uncompressed \<or> unat uncompressed_len div 32 > length src then None
       else do {
         out \<leftarrow> snappy_loop (unat uncompressed_len) (c, []);
         if length out = unat uncompressed_len then Some out else None
       }
     }"

section \<open>Progress and bounds\<close>

lemma read_le_advances: "cursor_ok c \<Longrightarrow> read_le n i v c = Some (w, c') \<Longrightarrow> advances c c'"
proof (induction n arbitrary: i v c)
  case (Suc n)
  then obtain b c1 v' where b: "read_byte c = Some (b, c1)" and r: "read_le n (Suc i) v' c1 = Some (w, c')"
    by (auto split: bind_splits)
  with Suc.prems(1) have "advances c c1" "cursor_ok c1"
    by (auto dest: read_byte.rd_advances read_byte.rd_ok)
  with Suc.IH r show ?case by (blast intro: advances_trans)
qed auto

lemma length_copy_loop [simp]: "length (copy_loop n start out) = length out + n"
  by (induction n arbitrary: start out) simp_all

lemma snappy_literal_length_step:
  "cursor_ok c \<Longrightarrow> snappy_literal_length tag c = Some (n, c') \<Longrightarrow> advances c c' \<and> 0 < n"
  by (auto simp: snappy_literal_length_def Let_def split: bind_splits if_splits
      dest: read_le_advances)

lemma snappy_literal_step:
  assumes "cursor_ok c" and "snappy_literal ulen tag c out = Some (c', out')"
  shows "advances c c'" and "length out' \<le> ulen" and "length out < length out'"
proof -
  from assms(2) obtain n c1 where n: "snappy_literal_length tag c = Some (n, c1)"
      and fit: "c_pos c1 + n \<le> c_size c1" "length out + n \<le> ulen" and c': "c' = skip_bytes n c1"
      and out': "out' = out @ take n (drop (c_pos c1) (c_data c1))"
    by (auto simp: snappy_literal_def skip_bytes_def split: bind_splits if_splits)
  from n assms(1) have c1: "advances c c1" "0 < n" by (auto dest: snappy_literal_length_step)
  have "advances c1 c'"
    using fit advances_ok [OF c1(1)] by (auto simp: c' remaining_def)
  with c1(1) show "advances c c'" by (rule advances_trans)
  have "length (take n (drop (c_pos c1) (c_data c1))) = n" using fit by (simp add: c_size_def)
  then show "length out' \<le> ulen" and "length out < length out'"
    using fit c1(2) by (simp_all add: out' del: length_take)
qed

lemma snappy_copy_header_step:
  assumes "cursor_ok c" and "snappy_copy_header tag c = Some ((len, off), c')"
  shows "advances c c'" and "0 < len"
proof -
  show "advances c c'"
    using assms
    by (auto simp: snappy_copy_header_def advances_def cursor_ok_def c_size_def
        split: bind_splits if_splits dest!: read_byte_Some)
  show "0 < len"
    using assms(2) by (auto simp: snappy_copy_header_def split: bind_splits if_splits)
qed

lemma snappy_copy_step:
  assumes "cursor_ok c" and "snappy_copy ulen tag c out = Some (c', out')"
  shows "advances c c'" and "length out' \<le> ulen" and "length out < length out'"
proof -
  from assms(2) obtain n off where h: "snappy_copy_header tag c = Some ((n, off), c')"
      and "length out + n \<le> ulen" and "out' = copy_loop n (length out - off) out"
    by (auto simp: snappy_copy_def split: bind_splits if_splits)
  with snappy_copy_header_step [OF assms(1) h]
  show "advances c c'" and "length out' \<le> ulen" and "length out < length out'" by simp_all
qed

text \<open>The invariant of the loop: the cursor stays in the buffer, the output below the declared length.\<close>

definition snappy_ok :: "nat \<Rightarrow> cursor \<times> bytes \<Rightarrow> bool" where
  "snappy_ok ulen s \<longleftrightarrow> cursor_ok (fst s) \<and> length (snd s) \<le> ulen"

interpretation snappy: measured_loop "\<lambda>(c, out). remaining c" "snappy_body ulen" "snappy_ok ulen" for ulen
proof unfold_locales
  fix s s' assume ok: "snappy_ok ulen s" and step: "snappy_body ulen s = Some (Inl s')"
  obtain c out c' out' where s: "s = (c, out)" "s' = (c', out')" by (cases s, cases s')
  from step obtain tag c1 where tag: "read_byte c = Some (tag, c1)"
      and e: "snappy_literal ulen tag c1 out = Some (c', out') \<or> snappy_copy ulen tag c1 out = Some (c', out')"
    by (auto simp: snappy_body_def s split: bind_splits if_splits)
  from ok tag have a: "advances1 c c1" by (auto simp: snappy_ok_def s intro: read_byte.rd_advances1)
  then have ok1: "cursor_ok c1" by (blast intro: advances_ok advances1D)
  from e have e': "advances c1 c'" "length out' \<le> ulen"
    by (auto dest: snappy_literal_step [OF ok1] snappy_copy_step [OF ok1])
  then show "snappy_ok ulen s'" by (auto simp: snappy_ok_def s intro: advances_ok)
  from a e'(1) show "(case s' of (c, out) \<Rightarrow> remaining c) < (case s of (c, out) \<Rightarrow> remaining c)"
    by (simp add: s advances1_remaining [OF advances1_trans1])
qed

section \<open>The abstract decompression\<close>

datatype snappy_elem = Literal bytes | Copy nat nat

text \<open>A copy of \<open>n\<close> bytes from \<open>off\<close> bytes back repeats the last \<open>off\<close> bytes when \<open>off < n\<close>.\<close>

definition copy_spec :: "nat \<Rightarrow> nat \<Rightarrow> bytes \<Rightarrow> bytes" where
  "copy_spec off n out = out @ map (\<lambda>i. out ! (length out - off + i mod off)) [0..<n]"

fun expand_elem :: "bytes \<Rightarrow> snappy_elem \<Rightarrow> bytes" where
  "expand_elem out (Literal bs) = out @ bs"
| "expand_elem out (Copy off n) = copy_spec off n out"

definition expand :: "snappy_elem list \<Rightarrow> bytes" where
  "expand es = foldl expand_elem [] es"

fun elem_size :: "snappy_elem \<Rightarrow> nat" where
  "elem_size (Literal bs) = length bs"
| "elem_size (Copy off n) = n"

text \<open>An offset must point into the output written so far.\<close>

fun offsets_ok :: "nat \<Rightarrow> snappy_elem list \<Rightarrow> bool" where
  "offsets_ok k [] = True"
| "offsets_ok k (Literal bs # es) = offsets_ok (k + length bs) es"
| "offsets_ok k (Copy off n # es) = (0 < off \<and> off \<le> k \<and> offsets_ok (k + n) es)"

text \<open>The encodings of an element that the format allows.\<close>

inductive elem_code :: "snappy_elem \<Rightarrow> bytes \<Rightarrow> bool" where
  lit_short: "0 < length bs \<Longrightarrow> length bs \<le> 60 \<Longrightarrow>
    elem_code (Literal bs) (of_nat (4 * (length bs - 1)) # bs)"
| lit_long: "k \<in> {1..4} \<Longrightarrow> 0 < length bs \<Longrightarrow> length bs \<le> 2 ^ (8 * k) \<Longrightarrow>
    elem_code (Literal bs)
      (of_nat (4 * (59 + k)) # le_bytes k (of_nat (length bs - 1) :: u32) @ bs)"
| copy_1: "n \<in> {4..11} \<Longrightarrow> off < 2048 \<Longrightarrow>
    elem_code (Copy off n)
      [of_nat (1 + 4 * (n - 4) + 32 * (off div 256)), of_nat (off mod 256)]"
| copy_2: "n \<in> {1..64} \<Longrightarrow> off < 2 ^ 16 \<Longrightarrow>
    elem_code (Copy off n) (of_nat (2 + 4 * (n - 1)) # le_bytes 2 (of_nat off :: u64))"
| copy_4: "n \<in> {1..64} \<Longrightarrow> off < 2 ^ 32 \<Longrightarrow>
    elem_code (Copy off n) (of_nat (3 + 4 * (n - 1)) # le_bytes 4 (of_nat off :: u64))"

lemma elem_size_pos: "elem_code e bs \<Longrightarrow> 0 < elem_size e"
  by (induction rule: elem_code.induct) auto

text \<open>At most 32 bytes of output per byte of input (the bound of the TD-471 check).\<close>

lemma elem_size_bound: "elem_code e bs \<Longrightarrow> elem_size e \<le> 32 * length bs"
  by (induction rule: elem_code.induct) auto

lemma copy_loop_spec:
  assumes "0 < off" and "off \<le> length out"
  shows "copy_loop n (length out - off) out = copy_spec off n out"
proof -
  let ?f = "\<lambda>i. out ! (length out - off + i mod off)"
  have next_byte: "(out @ map ?f [0..<k]) ! (length out - off + k) = ?f k" for k
  proof (cases "k < off")
    case True
    moreover from this assms have "length out - off + k < length out" by simp
    ultimately show ?thesis by (simp add: nth_append)
  next
    case False
    then have "length out - off + k = length out + (k - off)" using assms by simp
    with False assms show ?thesis by (simp add: nth_append le_mod_geq)
  qed
  have "copy_loop n (length out - off + k) (out @ map ?f [0..<k]) = out @ map ?f [0..<k + n]" for k
  proof (induction n arbitrary: k)
    case (Suc n)
    show ?case using Suc.IH [of "Suc k"] by (simp add: next_byte)
  qed simp
  from this [of 0] show ?thesis by (simp add: copy_spec_def)
qed

lemma length_expand_elem [simp]: "length (expand_elem out e) = length out + elem_size e"
  by (cases e) (simp_all add: copy_spec_def)

lemma length_foldl_expand: "length (foldl expand_elem out es) = length out + sum_list (map elem_size es)"
  by (induction es arbitrary: out) simp_all

section \<open>One element\<close>

lemma read_le_rest:
  "n \<le> remaining c \<Longrightarrow> read_le n i v c = Some (le_acc i (take n (rest c)) v, skip_bytes n c)"
proof (induction n arbitrary: i v c)
  case (Suc n)
  from Suc.prems obtain b bs where r: "rest c = b # bs"
    using length_rest [of c] by (cases "rest c") auto
  then have "n \<le> remaining (skip_bytes 1 c)"
    using Suc.prems length_rest [of c] length_rest [of "skip_bytes 1 c"] by simp
  from Suc.IH [OF this] show ?case by (simp add: rest_simps r)
qed simp

lemma rest_take: "rest c = xs @ r \<Longrightarrow> length xs = n \<Longrightarrow>
    take n (drop (c_pos c) (c_data c)) = xs \<and> (cursor_ok c \<longrightarrow> c_pos c + n \<le> c_size c)"
  using length_rest [of c] by (auto simp: rest_def remaining_def cursor_ok_def)

lemma snappy_literal_code:
  assumes tag: "unat (drop_bit 2 tag) < 60 \<and> pre = [] \<and> length bs = unat (drop_bit 2 tag) + 1
      \<or> (\<exists>k \<in> {1..4}. unat (drop_bit 2 tag) = 59 + k \<and> length bs \<le> 2 ^ (8 * k) \<and> 0 < length bs
          \<and> pre = le_bytes k (of_nat (length bs - 1) :: u32))"
    and ok: "cursor_ok c" and r: "rest c = pre @ bs @ r" and fit: "length out + length bs \<le> ulen"
  shows "snappy_literal ulen tag c out = Some (skip_bytes (length pre + length bs) c, out @ bs)"
proof -
  have len: "snappy_literal_length tag c = Some (length bs, skip_bytes (length pre) c)"
    using tag
  proof (elim disjE bexE conjE)
    fix k assume k: "k \<in> {1..4}" "unat (drop_bit 2 tag) = 59 + k" "length bs \<le> 2 ^ (8 * k)"
      "0 < length bs" "pre = le_bytes k (of_nat (length bs - 1) :: u32)"
    define m where "m = length bs - 1"
    have m: "m < 2 ^ (8 * k)" "length bs = m + 1" using k(3,4) unfolding m_def by linarith+
    have pre: "pre = le_bytes k (of_nat m :: u32)" using k(5) by (simp only: m_def)
    have "k \<le> remaining c" using r pre length_rest [of c] by simp
    then have "read_le k 0 0 c = Some (le_word pre, skip_bytes k c)"
      using r pre by (simp add: read_le_rest le_word_def)
    moreover have "le_word pre = (of_nat m :: u32)"
      unfolding pre using m(1) k(1) by (intro le_word_le_bytes_of_nat) auto
    moreover have "m < 2 ^ 32"
    proof -
      have "(2::nat) ^ (8 * k) \<le> 2 ^ 32" using k(1) by (intro power_increasing) auto
      with m(1) show ?thesis by linarith
    qed
    ultimately show ?thesis
      using k(1,2) m(2) pre by (simp add: snappy_literal_length_def Let_def unat_of_nat_less)
  qed (simp add: snappy_literal_length_def)
  let ?c = "skip_bytes (length pre) c"
  have ok1: "cursor_ok ?c" using ok r by (rule cursor_ok_skip)
  have "rest ?c = bs @ r" using r by simp
  from rest_take [OF this refl] ok1
  have "take (length bs) (drop (c_pos ?c) (c_data ?c)) = bs" "c_pos ?c + length bs \<le> c_size ?c" by auto
  with len fit show ?thesis by (simp add: snappy_literal_def skip_bytes_def add.assoc)
qed

lemma copy_1_fields:
  assumes "j < 8" and "a < 8"
  shows "1 + 4 * j + 32 * a < (256::nat)" and "(1 + 4 * j + 32 * a) mod 2 ^ 2 = (1::nat)"
    and "(1 + 4 * j + 32 * a) div 2 ^ 2 mod 2 ^ 3 = (j::nat)"
    and "(1 + 4 * j + 32 * a) div 2 ^ 5 mod 2 ^ 3 = (a::nat)"
proof -
  have "(1 + 4 * j + 32 * a) div 4 = j + 8 * a" "(1 + 4 * j + 32 * a) div 32 = a"
    using assms by simp_all
  then show "(1 + 4 * j + 32 * a) div 2 ^ 2 mod 2 ^ 3 = j" "(1 + 4 * j + 32 * a) div 2 ^ 5 mod 2 ^ 3 = a"
    using assms by simp_all
  show "1 + 4 * j + 32 * a < (256::nat)" using assms by simp
  have "(1 + 4 * (j + 8 * a)) mod 4 = (1::nat)" by (subst mod_mult_self2) simp
  then show "(1 + 4 * j + 32 * a) mod 2 ^ 2 = (1::nat)" by (simp add: algebra_simps)
qed

lemma join_bytes:
  assumes "off < 2 ^ 64"
  shows "push_bit 8 (of_nat (off div 256)) OR of_nat (off mod 256) = (of_nat off :: u64)"
proof -
  have "push_bit 8 (drop_bit 8 off) OR take_bit 8 off = off"
  proof (rule bit_eqI)
    fix k show "bit (push_bit 8 (drop_bit 8 off) OR take_bit 8 off) k \<longleftrightarrow> bit off k"
      by (cases "k < 8") (auto simp: bit_or_iff bit_take_bit_iff bit_push_bit_iff bit_drop_bit_eq)
  qed
  then have "(of_nat (push_bit 8 (drop_bit 8 off) OR take_bit 8 off) :: u64) = of_nat off" by simp
  then show ?thesis by (simp add: of_nat_or_eq of_nat_push_bit take_bit_eq_mod drop_bit_eq_div)
qed

lemma ucast_of_unat: "unat (w :: u8) = n \<Longrightarrow> (ucast w :: u64) = of_nat n"
  using of_nat_unat [of w, where 'a = "64 word"] by simp

text \<open>The tag of a 2- or 4-byte copy.\<close>

lemma copy_tag_fields:
  assumes "n \<in> {1..64}" and "t \<in> {2, 3}" and tag: "tag = (of_nat (t + 4 * (n - 1)) :: u8)"
  shows "tag AND 0x03 = of_nat t"
    and "unat (drop_bit 2 tag) + 1 = n"
proof -
  obtain j where j: "n = j + 1" "j < 64" using assms(1) by (intro that [of "n - 1"]) auto
  have m: "t + 4 * j < 256" using assms(2) j by auto
  have q: "(t + 4 * j) mod 4 = t" "(t + 4 * j) div 4 = j" using assms(2) by auto
  show "unat (drop_bit 2 tag) + 1 = n"
    unfolding tag using unat_field(1) [OF m, of 2] q j by simp
  have "unat (take_bit 2 (of_nat (t + 4 * j) :: u8)) = t" using unat_field(3) [OF m, of 2] q by simp
  then show "tag AND 0x03 = of_nat t"
    unfolding tag using assms(2) j by (auto simp: and_mask_take_bit word_unat_eq_iff)
qed

lemma snappy_copy_header_code:
  assumes code: "elem_code (Copy off n) bs" and ok: "cursor_ok c" and r: "rest c = bs @ r"
  shows "\<exists>tag. read_byte c = Some (tag, skip_bytes 1 c) \<and> tag AND 0x03 \<noteq> 0 \<and>
    snappy_copy_header tag (skip_bytes 1 c) = Some ((n, off), skip_bytes (length bs) c)"
  using code
proof cases
  case copy_1
  obtain j where j: "n = 4 + j" "j < 8" using copy_1(2) by (intro that [of "n - 4"]) auto
  define tag :: u8 where "tag = of_nat (1 + 4 * j + 32 * (off div 256))"
  have a: "off div 256 < 8" using copy_1(3) by auto
  note f = copy_1_fields [OF j(2) a]
  have "unat (take_bit 2 tag) = 1"
    unfolding tag_def using unat_field(3) [OF f(1), of 2] f(2) by simp
  then have t: "tag AND 0x03 = 1" by (simp add: and_mask_take_bit word_unat_eq_iff)
  have len: "unat (drop_bit 2 tag AND 0x07) = j"
    unfolding tag_def and_mask_take_bit using unat_field(2) [OF f(1), of 3 2] f(3) by simp
  have hi: "(ucast (drop_bit 5 tag AND 0x07) :: u64) = of_nat (off div 256)"
    unfolding tag_def and_mask_take_bit using unat_field(2) [OF f(1), of 3 5] f(4)
    by (intro ucast_of_unat) simp
  have lo: "(ucast (of_nat (off mod 256) :: u8) :: u64) = of_nat (off mod 256)"
    by (intro ucast_of_nat_small) simp
  have bs: "bs = [tag, of_nat (off mod 256)]" using copy_1(1) j by (simp add: tag_def)
  have off: "off < 2 ^ 64" using copy_1(3) by simp
  have "read_byte c = Some (tag, skip_bytes 1 c)"
    "read_byte (skip_bytes 1 c) = Some (of_nat (off mod 256), skip_bytes 2 c)"
    using r bs by (simp_all add: rest_simps numeral_2_eq_2)
  moreover have "snappy_copy_header tag (skip_bytes 1 c) = Some ((n, off), skip_bytes 2 c)"
    unfolding snappy_copy_header_def
    using calculation(2) t len hi lo join_bytes [OF off] off j(1)
    by (simp add: unat_of_nat_less)
  ultimately show ?thesis using t bs by auto
next
  case copy_2
  define tag :: u8 where "tag = of_nat (2 + 4 * (n - 1))"
  have bs: "bs = tag # le_bytes 2 (of_nat off :: u64)" using copy_2(1) by (simp only: tag_def)
  have t: "tag AND 0x03 = 2" "unat (drop_bit 2 tag) + 1 = n"
    using copy_tag_fields [OF copy_2(2) _ tag_def] by simp_all
  have "rest (skip_bytes 1 c) = le_bytes 2 (of_nat off :: u64) @ r" using r bs by simp
  note tk = rest_take [OF this length_le_bytes]
  have "cursor_ok (skip_bytes 1 c)" using ok r unfolding bs append_Cons by (rule cursor_ok_skip1)
  moreover have "unat (le_word (le_bytes 2 (of_nat off :: u64)) :: u64) = off"
    using copy_2(3) by (subst le_word_le_bytes_of_nat) (auto intro!: unat_of_nat_less)
  ultimately have "snappy_copy_header tag (skip_bytes 1 c) = Some ((n, off), skip_bytes (length bs) c)"
    using t tk bs by (simp add: snappy_copy_header_def skip_bytes_def)
  moreover have "read_byte c = Some (tag, skip_bytes 1 c)" using r bs by (simp add: rest_simps)
  ultimately show ?thesis using t by auto
next
  case copy_4
  define tag :: u8 where "tag = of_nat (3 + 4 * (n - 1))"
  have bs: "bs = tag # le_bytes 4 (of_nat off :: u64)" using copy_4(1) by (simp only: tag_def)
  have t: "tag AND 0x03 = 3" "unat (drop_bit 2 tag) + 1 = n"
    using copy_tag_fields [OF copy_4(2) _ tag_def] by simp_all
  have "rest (skip_bytes 1 c) = le_bytes 4 (of_nat off :: u64) @ r" using r bs by simp
  note tk = rest_take [OF this length_le_bytes]
  have "cursor_ok (skip_bytes 1 c)" using ok r unfolding bs append_Cons by (rule cursor_ok_skip1)
  moreover have "unat (le_word (le_bytes 4 (of_nat off :: u64)) :: u64) = off"
    using copy_4(3) by (subst le_word_le_bytes_of_nat) (auto intro!: unat_of_nat_less)
  ultimately have "snappy_copy_header tag (skip_bytes 1 c) = Some ((n, off), skip_bytes (length bs) c)"
    using t tk bs by (simp add: snappy_copy_header_def skip_bytes_def)
  moreover have "read_byte c = Some (tag, skip_bytes 1 c)" using r bs by (simp add: rest_simps)
  ultimately show ?thesis using t by auto
qed

section \<open>Whole streams\<close>

lemma snappy_body_code:
  assumes code: "elem_code e bs" and ok: "cursor_ok c" and r: "rest c = bs @ r"
    and off: "offsets_ok (length out) [e]" and fit: "length out + elem_size e \<le> ulen"
  shows "snappy_body ulen (c, out) = Some (Inl (skip_bytes (length bs) c, expand_elem out e))"
proof -
  have less: "length out < ulen" using fit elem_size_pos [OF code] by simp
  show ?thesis
  proof (cases e)
    case (Copy o' n)
    from snappy_copy_header_code [OF code [unfolded Copy] ok r] obtain tag where
      tag: "read_byte c = Some (tag, skip_bytes 1 c)" "tag AND 0x03 \<noteq> 0"
        "snappy_copy_header tag (skip_bytes 1 c) = Some ((n, o'), skip_bytes (length bs) c)" by blast
    with less off fit Copy show ?thesis
      by (simp add: snappy_body_def snappy_copy_def copy_loop_spec)
  next
    case (Literal xs)
    from code [unfolded Literal] show ?thesis
    proof cases
      case lit_short
      define tag :: u8 where "tag = of_nat (4 * (length xs - 1))"
      obtain m where m: "length xs = m + 1" "m < 60" using lit_short(2,3) by (intro that [of "length xs - 1"]) auto
      have m4: "4 * m < 256" using m by simp
      have f: "unat (drop_bit 2 tag) = m" "unat (take_bit 2 tag) = 0"
        unfolding tag_def m using unat_field(1,3) [OF m4, of 2] by simp_all
      then have t: "tag AND 0x03 = 0" by (simp add: and_mask_take_bit word_unat_eq_iff)
      have bs: "bs = tag # xs" using lit_short(1) by (simp only: tag_def)
      have b: "read_byte c = Some (tag, skip_bytes 1 c)" using r bs by (simp add: rest_simps)
      have "snappy_literal ulen tag (skip_bytes 1 c) out =
          Some (skip_bytes (length ([] :: u8 list) + length xs) (skip_bytes 1 c), out @ xs)"
      proof (rule snappy_literal_code)
        show "cursor_ok (skip_bytes 1 c)" using ok r unfolding bs append_Cons by (rule cursor_ok_skip1)
        show "rest (skip_bytes 1 c) = [] @ xs @ r" using r bs by simp
        show "unat (drop_bit 2 tag) < 60 \<and> ([] :: u8 list) = [] \<and> length xs = unat (drop_bit 2 tag) + 1 \<or>
            (\<exists>k\<in>{1..4}. unat (drop_bit 2 tag) = 59 + k \<and> length xs \<le> 2 ^ (8 * k) \<and> 0 < length xs
              \<and> ([] :: u8 list) = le_bytes k (of_nat (length xs - 1) :: u32))"
          using f m by simp
        show "length out + length xs \<le> ulen" using fit Literal by simp
      qed
      with b t less bs Literal show ?thesis by (simp add: snappy_body_def)
    next
      case (lit_long k)
      define tag :: u8 where "tag = of_nat (4 * (59 + k))"
      have k4: "4 * (59 + k) < 256" using lit_long(2) by simp
      have f: "unat (drop_bit 2 tag) = 59 + k" "unat (take_bit 2 tag) = 0"
        unfolding tag_def using unat_field(1,3) [OF k4, of 2] by simp_all
      then have t: "tag AND 0x03 = 0" by (simp add: and_mask_take_bit word_unat_eq_iff)
      let ?pre = "le_bytes k (of_nat (length xs - 1) :: u32)"
      have bs: "bs = tag # ?pre @ xs" using lit_long(1) by (simp only: tag_def)
      have b: "read_byte c = Some (tag, skip_bytes 1 c)" using r bs by (simp add: rest_simps)
      have "snappy_literal ulen tag (skip_bytes 1 c) out =
          Some (skip_bytes (length ?pre + length xs) (skip_bytes 1 c), out @ xs)"
      proof (rule snappy_literal_code)
        show "cursor_ok (skip_bytes 1 c)"
          using ok r unfolding bs append_Cons by (rule cursor_ok_skip1)
        show "rest (skip_bytes 1 c) = ?pre @ xs @ r" using r bs by simp
        show "unat (drop_bit 2 tag) < 60 \<and> ?pre = [] \<and> length xs = unat (drop_bit 2 tag) + 1 \<or>
            (\<exists>k\<in>{1..4}. unat (drop_bit 2 tag) = 59 + k \<and> length xs \<le> 2 ^ (8 * k) \<and> 0 < length xs
              \<and> ?pre = le_bytes k (of_nat (length xs - 1) :: u32))"
          using f lit_long(2-4) by blast
        show "length out + length xs \<le> ulen" using fit Literal by simp
      qed
      with b t less bs Literal show ?thesis by (simp add: snappy_body_def)
    qed
  qed
qed

lemma snappy_loop_code:
  assumes "list_all2 elem_code es bss" and "cursor_ok c" and "rest c = concat bss @ r"
    and "offsets_ok (length out) es" and "length out + sum_list (map elem_size es) = ulen"
  shows "snappy_loop ulen (c, out) = Some (foldl expand_elem out es)"
  using assms
proof (induction es bss arbitrary: c out rule: list_all2_induct)
  case Nil
  then show ?case
    unfolding snappy_loop_def by (subst snappy.unfold) (simp_all add: snappy_ok_def snappy_body_def)
next
  case (Cons e es bs bss)
  have r: "rest c = bs @ concat bss @ r" using Cons.prems(2) by simp
  have off: "offsets_ok (length out) [e]" "offsets_ok (length out + elem_size e) es"
    using Cons.prems(3) by (cases e; simp)+
  have "snappy_body ulen (c, out) = Some (Inl (skip_bytes (length bs) c, expand_elem out e))"
    using Cons.hyps(1) Cons.prems(1) r off(1) Cons.prems(4) by (intro snappy_body_code) auto
  moreover have "snappy_ok ulen (c, out)" using Cons.prems(1,4) by (simp add: snappy_ok_def)
  ultimately have "snappy_loop ulen (c, out) = snappy_loop ulen (skip_bytes (length bs) c, expand_elem out e)"
    unfolding snappy_loop_def by (subst snappy.unfold) simp_all
  also have "\<dots> = Some (foldl expand_elem (expand_elem out e) es)"
    using r Cons.prems(1,4) off(2)
    by (intro Cons.IH) (auto intro: cursor_ok_skip [where r = "concat bss @ r"] simp: add.assoc)
  finally show ?case by simp
qed

lemma stream_bound: "list_all2 elem_code es bss \<Longrightarrow>
    sum_list (map elem_size es) \<le> 32 * length (concat bss)"
  by (induction es bss rule: list_all2_induct) (auto dest!: elem_size_bound)

lemma snappy_loop_length:
  assumes "cursor_ok c" and "snappy_loop ulen (c, []) = Some out"
  shows "length out = ulen"
proof (rule snappy.result_rule [where P = "\<lambda>s. True" and Q = "\<lambda>out. length out = ulen",
      OF assms(2) [unfolded snappy_loop_def]])
  show "snappy_ok ulen (c, [])" using assms(1) by (simp add: snappy_ok_def)
  fix s out assume "snappy_ok ulen s" and "snappy_body ulen s = Some (Inr out)"
  then show "length out = ulen"
    by (cases s) (auto simp: snappy_ok_def snappy_body_def split: if_splits bind_splits)
qed simp_all

end
