(* ===== verification/Parquet_Reader.thy ===== *)
theory Parquet_Reader
  imports Parquet_Values Parquet_Rle Snappy
begin

text \<open>
  Page reading, column-chunk decoding and the conversion to JSONL of \<open>src/src/ParquetReader.cpp\<close>
  (\<open>read_page_header_at\<close> to \<open>convert_to_jsonl_impl\<close>). An open input file is its bytes; a \<open>seekg\<close> to a
  negative offset fails, one past the end makes the next read return nothing. The log messages are
  left out. Reads from a vector that the C++ does not check (\<open>values[value_idx++]\<close>,
  \<open>columns[ci][row]\<close>) are \<open>None\<close> out of range, and the lemmas show that this never happens.
\<close>

section \<open>Pages\<close>

definition kProbeSize :: nat where
  "kProbeSize = 8192"

definition read_page_header_at :: "bytes \<Rightarrow> int \<Rightarrow> (PageHeader \<times> int) option" where
  "read_page_header_at file offset =
     (if offset < 0 then None
      else
        let probe = take kProbeSize (drop (nat offset) file) in
        if probe = [] then None
        else do {
          (header, c) \<leftarrow> parse_page_header (cursor_at_start probe);
          Some (header, offset + int (c_pos c))
        })"

definition read_page_body ::
  "bytes \<Rightarrow> int \<Rightarrow> int \<Rightarrow> PageHeader \<Rightarrow> CompressionCodec \<Rightarrow> bytes option" where
  "read_page_body file file_size body_offset header codec =
     (let compressed_size = ph_compressed_page_size header in
      if compressed_size < 0 \<or> ph_uncompressed_page_size header < 0 \<or> body_offset < 0
          \<or> body_offset > file_size \<or> compressed_size > file_size - body_offset then None
      else
        let compressed = take (nat compressed_size) (drop (nat body_offset) file) in
        if int (length compressed) \<noteq> compressed_size then None
        else if codec = UNCOMPRESSED then Some compressed
        else if codec = SNAPPY then
          snappy_raw_uncompress compressed (word_of_int (ph_uncompressed_page_size header))
        else None)"

definition dictionary_page ::
  "bytes \<Rightarrow> int \<Rightarrow> ColumnMetaData \<Rightarrow> int \<Rightarrow> (ColumnValue list \<times> int) option" where
  "dictionary_page file file_size md cursor_offset =
     do {
       (dph, body_offset) \<leftarrow> read_page_header_at file cursor_offset;
       if ph_type dph \<noteq> DICTIONARY_PAGE \<or> \<not> ph_has_dictionary_page_header dph then None
       else if ph_dict_num_values dph < 0 then None
       else do {
         uncompressed \<leftarrow> read_page_body file file_size body_offset dph (md_codec md);
         dictionary \<leftarrow> decode_plain_values uncompressed (md_type md) (nat (ph_dict_num_values dph));
         Some (dictionary, body_offset + ph_compressed_page_size dph)
       }
     }"

text \<open>Definition levels: a 4-byte length and an RLE / bit-packed section, or all zero.\<close>

definition definition_levels :: "bytes \<Rightarrow> int \<Rightarrow> nat \<Rightarrow> (u32 list \<times> nat) option" where
  "definition_levels page max_def_level page_num_values =
     (if max_def_level > 0 then
        if 4 > length page then None
        else
          let level_bytes = unat (le_word (take 4 page) :: u32) in
          if 4 + level_bytes > length page then None
          else do {
            def_levels \<leftarrow> decode_rle_bitpacked_hybrid (take level_bytes (drop 4 page))
              (bit_width_for_max_level max_def_level) page_num_values;
            Some (def_levels, 4 + level_bytes)
          }
      else Some (replicate page_num_values 0, 0))"

text \<open>\<open>values.push_back(dictionary[idx])\<close> for every index, each checked first.\<close>

primrec look_up :: "ColumnValue list \<Rightarrow> u32 list \<Rightarrow> ColumnValue list option" where
  "look_up dictionary [] = Some []"
| "look_up dictionary (i # is) =
     (if unat i \<ge> length dictionary then None
      else do { vs \<leftarrow> look_up dictionary is; Some (dictionary ! unat i # vs) })"

definition page_values ::
  "bytes \<Rightarrow> PhysicalType \<Rightarrow> int \<Rightarrow> bool \<Rightarrow> ColumnValue list \<Rightarrow> nat \<Rightarrow> ColumnValue list option" where
  "page_values value_data type encoding have_dictionary dictionary non_null_count =
     (if encoding = ENC_PLAIN then decode_plain_values value_data type non_null_count
      else if encoding = ENC_RLE_DICTIONARY \<or> encoding = ENC_PLAIN_DICTIONARY then
        if \<not> have_dictionary then None
        else (case value_data of
            [] \<Rightarrow> None
          | idx_bit_width # index_data \<Rightarrow> do {
              indices \<leftarrow> decode_rle_bitpacked_hybrid index_data (int (unat idx_bit_width)) non_null_count;
              look_up dictionary indices
            })
      else None)"

text \<open>One cell per definition level: \<open>values[value_idx++]\<close> at the maximum level, else a null.\<close>

primrec place_cells ::
  "int \<Rightarrow> ColumnValue list \<Rightarrow> nat \<Rightarrow> u32 list \<Rightarrow> cell list option" where
  "place_cells max_def_level values value_idx [] = Some []"
| "place_cells max_def_level values value_idx (lvl # lvls) =
     (if sint lvl = max_def_level then
        if value_idx < length values then
          map_option ((#) (Some (values ! value_idx)))
            (place_cells max_def_level values (value_idx + 1) lvls)
        else None
      else map_option ((#) None) (place_cells max_def_level values value_idx lvls))"

definition decode_page ::
  "bytes \<Rightarrow> PhysicalType \<Rightarrow> int \<Rightarrow> int \<Rightarrow> bool \<Rightarrow> ColumnValue list \<Rightarrow> nat \<Rightarrow> cell list option" where
  "decode_page page type encoding max_def_level have_dictionary dictionary page_num_values =
     do {
       (def_levels, page_pos) \<leftarrow> definition_levels page max_def_level page_num_values;
       let non_null_count = length (filter (\<lambda>lvl. sint lvl = max_def_level) def_levels);
       values \<leftarrow> page_values (drop page_pos page) type encoding have_dictionary dictionary non_null_count;
       if length values \<noteq> non_null_count then None
       else place_cells max_def_level values 0 def_levels
     }"

section \<open>Column chunks\<close>

text \<open>One round of \<open>while (values_read < md.num_values)\<close>: values read, page offset, cells.\<close>

definition chunk_body ::
  "bytes \<Rightarrow> int \<Rightarrow> ColumnMetaData \<Rightarrow> int \<Rightarrow> bool \<Rightarrow> ColumnValue list \<Rightarrow>
     int \<times> int \<times> cell list \<Rightarrow> ((int \<times> int \<times> cell list) + (int \<times> cell list)) option" where
  "chunk_body file file_size md max_def_level have_dictionary dictionary s =
     (case s of (values_read, cursor_offset, out) \<Rightarrow>
        if \<not> values_read < md_num_values md then Some (Inr (values_read, out))
        else do {
          (ph, body_offset) \<leftarrow> read_page_header_at file cursor_offset;
          if ph_has_data_page_header_v2 ph then None
          else if ph_type ph \<noteq> DATA_PAGE \<or> \<not> ph_has_data_page_header ph then None
          else if ph_dp_num_values ph < 0 \<or> ph_dp_num_values ph > md_num_values md - values_read then None
          else do {
            page \<leftarrow> read_page_body file file_size body_offset ph (md_codec md);
            cells \<leftarrow> decode_page page (md_type md) (ph_dp_encoding ph) max_def_level have_dictionary
              dictionary (nat (ph_dp_num_values ph));
            Some (Inl (values_read + ph_dp_num_values ph, body_offset + ph_compressed_page_size ph,
              out @ cells))
          }
        })"

definition chunk_loop ::
  "bytes \<Rightarrow> int \<Rightarrow> ColumnMetaData \<Rightarrow> int \<Rightarrow> bool \<Rightarrow> ColumnValue list \<Rightarrow>
     int \<times> int \<times> cell list \<Rightarrow> (int \<times> cell list) option" where
  "chunk_loop file file_size md max_def_level have_dictionary dictionary =
     loop (\<lambda>(values_read, cursor_offset, out). nat (file_size - cursor_offset))
       (chunk_body file file_size md max_def_level have_dictionary dictionary)"

definition decode_column_chunk ::
  "bytes \<Rightarrow> int \<Rightarrow> ColumnChunk \<Rightarrow> bool \<Rightarrow> int \<Rightarrow> cell list option" where
  "decode_column_chunk file file_size chunk is_optional expected_num_rows =
     (let md = cc_meta_data chunk; max_def_level = (if is_optional then 1 else 0) in
      do {
        (have_dictionary, dictionary, cursor_offset) \<leftarrow>
          (if md_has_dictionary_page_offset md then do {
             (dictionary, cursor_offset) \<leftarrow>
               dictionary_page file file_size md (md_dictionary_page_offset md);
             Some (True, dictionary, cursor_offset) }
           else Some (False, [], md_data_page_offset md));
        (values_read, out) \<leftarrow>
          chunk_loop file file_size md max_def_level have_dictionary dictionary (0, cursor_offset, []);
        if values_read \<noteq> md_num_values md then None
        else if int (length out) \<noteq> expected_num_rows then None
        else Some out
      })"

section \<open>The conversion\<close>

definition kMaxRowsPerRowGroup :: int where
  "kMaxRowsPerRowGroup = 2 ^ 24"

definition PAR1 :: bytes where
  "PAR1 = ascii ''PAR1''"

text \<open>The magic at both ends and the footer between its length and its start.\<close>

definition read_footer :: "bytes \<Rightarrow> FileMetaData option" where
  "read_footer file =
     (let file_size = length file in
      if file_size < 12 then None
      else if take 4 file \<noteq> PAR1 then None
      else
        let tail = drop (file_size - 8) file in
        if drop 4 tail \<noteq> PAR1 then None
        else
          let footer_len = unat (le_word (take 4 tail) :: u32) in
          if footer_len + 8 > file_size then None
          else
            let footer = take footer_len (drop (file_size - 8 - footer_len) file) in
            map_option fst (parse_file_metadata (cursor_at_start footer)))"

definition leaf_ok :: "SchemaElement \<Rightarrow> bool" where
  "leaf_ok se \<longleftrightarrow> se_has_type se \<and> \<not> (se_has_repetition se \<and> se_repetition se = REPEATED)"

definition preflight_chunk :: "RowGroup \<Rightarrow> ColumnChunk \<Rightarrow> bool" where
  "preflight_chunk rg cc =
     (let md = cc_meta_data cc in
      \<not> cc_has_file_path cc \<and> \<not> cc_has_crypto_metadata cc \<and> cc_has_meta_data cc \<and>
      \<not> (rg_num_rows rg < 0 \<or> rg_num_rows rg > kMaxRowsPerRowGroup \<or> md_num_values md \<noteq> rg_num_rows rg) \<and>
      \<not> (md_codec md \<noteq> UNCOMPRESSED \<and> md_codec md \<noteq> SNAPPY) \<and>
      \<not> (md_type md = INT96 \<or> md_type md = FIXED_LEN_BYTE_ARRAY) \<and>
      (\<forall>enc \<in> set (md_encodings md).
         enc \<in> {ENC_PLAIN, ENC_RLE, ENC_RLE_DICTIONARY, ENC_PLAIN_DICTIONARY}))"

definition preflight :: "FileMetaData \<Rightarrow> bool" where
  "preflight meta \<longleftrightarrow> list_all (\<lambda>rg. list_all (preflight_chunk rg) (rg_columns rg)) (fm_row_groups meta)"

definition decode_column ::
  "bytes \<Rightarrow> RowGroup \<Rightarrow> SchemaElement \<times> ColumnChunk \<Rightarrow> cell list option" where
  "decode_column file rg x =
     (case x of (se, cc) \<Rightarrow>
        let path = md_path_in_schema (cc_meta_data cc) in
        if path = [] \<or> List.last path \<noteq> se_name se then None
        else decode_column_chunk file (int (length file)) cc
               (se_has_repetition se \<and> se_repetition se = OPTIONAL) (rg_num_rows rg))"

primrec decode_columns ::
  "bytes \<Rightarrow> RowGroup \<Rightarrow> (SchemaElement \<times> ColumnChunk) list \<Rightarrow> cell list list option" where
  "decode_columns file rg [] = Some []"
| "decode_columns file rg (x # xs) =
     do { col \<leftarrow> decode_column file rg x; cols \<leftarrow> decode_columns file rg xs; Some (col # cols) }"

text \<open>The row object: \<open>,\<close> between members, the key verbatim from the schema.\<close>

primrec row_members :: "bool \<Rightarrow> nat \<Rightarrow> (SchemaElement \<times> cell list) list \<Rightarrow> bytes \<Rightarrow> bytes option" where
  "row_members first row [] line = Some line"
| "row_members first row (x # xs) line =
     (case x of (se, col) \<Rightarrow>
        if row < length col then
          row_members False row xs
            (append_cell_json (col ! row)
              (json_escape_append (se_name se) (line @ (if first then [] else ascii '','') @ [0x22])
                @ 0x22 # ascii '':''))
        else None)"

definition row_line :: "nat \<Rightarrow> (SchemaElement \<times> cell list) list \<Rightarrow> bytes option" where
  "row_line row cols =
     do { line \<leftarrow> row_members True row cols (ascii ''{''); Some (line @ ascii ''}'' @ [0x0A]) }"

primrec rows_text :: "(SchemaElement \<times> cell list) list \<Rightarrow> nat list \<Rightarrow> bytes option" where
  "rows_text cols [] = Some []"
| "rows_text cols (row # rows) =
     do { line \<leftarrow> row_line row cols; text \<leftarrow> rows_text cols rows; Some (line @ text) }"

definition row_group_text :: "bytes \<Rightarrow> SchemaElement list \<Rightarrow> RowGroup \<Rightarrow> bytes option" where
  "row_group_text file leaf_columns rg =
     (if length (rg_columns rg) \<noteq> length leaf_columns then None
      else do {
        columns \<leftarrow> decode_columns file rg (zip leaf_columns (rg_columns rg));
        rows_text (zip leaf_columns columns) [0..<nat (rg_num_rows rg)]
      })"

text \<open>Rows counted and text written; a failing row group ends with -1 and what was written so far.\<close>

primrec row_groups_text ::
  "bytes \<Rightarrow> SchemaElement list \<Rightarrow> RowGroup list \<Rightarrow> int \<Rightarrow> bytes \<Rightarrow> int \<times> bytes" where
  "row_groups_text file leaf_columns [] total_rows out = (total_rows, out)"
| "row_groups_text file leaf_columns (rg # rgs) total_rows out =
     (case row_group_text file leaf_columns rg of
        None \<Rightarrow> (-1, out)
      | Some text \<Rightarrow>
          row_groups_text file leaf_columns rgs (total_rows + rg_num_rows rg) (out @ text))"

definition convert_to_jsonl_impl :: "bytes option \<Rightarrow> int \<times> bytes" where
  "convert_to_jsonl_impl input =
     (case input of
        None \<Rightarrow> (-1, [])
      | Some file \<Rightarrow>
          (case read_footer file of
             None \<Rightarrow> (-1, [])
           | Some meta \<Rightarrow>
               if length (fm_schema meta) < 2 then (-1, [])
               else if \<not> list_all leaf_ok (tl (fm_schema meta)) then (-1, [])
               else if \<not> preflight meta then (-1, [])
               else row_groups_text file (tl (fm_schema meta)) (fm_row_groups meta) 0 []))"

section \<open>Pages decode to one cell per value\<close>

lemma definition_levels_length:
  "definition_levels page d n = Some (ls, pos) \<Longrightarrow> length ls = n \<and> pos \<le> length page"
  by (auto simp: definition_levels_def Let_def split: if_splits bind_splits dest: decode_length)

lemma look_up_length: "look_up dict is = Some vs \<Longrightarrow> length vs = length is"
  by (induction "is" arbitrary: vs) (auto split: if_splits bind_splits)

text \<open>The count check after decoding the values can never fire.\<close>

lemma page_values_length: "page_values d t e h dict n = Some vs \<Longrightarrow> length vs = n"
  by (auto simp: page_values_def decode_plain_length split: if_splits bind_splits list.splits
      dest!: look_up_length decode_length)

lemma place_cells_total:
  "i + length (filter (\<lambda>l. sint l = d) ls) = length vs \<Longrightarrow>
     \<exists>cells. place_cells d vs i ls = Some cells \<and> length cells = length ls"
proof (induction ls arbitrary: i)
  case (Cons l ls)
  show ?case
  proof (cases "sint l = d")
    case True
    with Cons.prems Cons.IH [of "i + 1"] show ?thesis by auto
  next
    case False
    with Cons.prems Cons.IH [of i] show ?thesis by auto
  qed
qed simp

lemma decode_page_length: "decode_page p t e d h dict n = Some cells \<Longrightarrow> length cells = n"
proof -
  assume "decode_page p t e d h dict n = Some cells"
  then obtain ls pos vs where l: "definition_levels p d n = Some (ls, pos)"
    and v: "length vs = length (filter (\<lambda>l. sint l = d) ls)" and c: "place_cells d vs 0 ls = Some cells"
    by (auto simp: decode_page_def Let_def split: bind_splits if_splits)
  from place_cells_total [of 0 d ls vs] v c have "length cells = length ls" by auto
  with definition_levels_length [OF l] show ?thesis by simp
qed

text \<open>Once the values of a page are decoded, the cells are always placed.\<close>

lemma decode_page_total:
  assumes "definition_levels p d n = Some (ls, pos)"
    and "page_values (drop pos p) t e h dict (length (filter (\<lambda>l. sint l = d) ls)) = Some vs"
  shows "\<exists>cells. decode_page p t e d h dict n = Some cells \<and> place_cells d vs 0 ls = Some cells"
  using place_cells_total [of 0 d ls vs] page_values_length [OF assms(2)] assms
  by (auto simp: decode_page_def Let_def)

section \<open>A column chunk is read in finitely many steps\<close>

lemma read_page_header_at_forward:
  "read_page_header_at file off = Some (ph, body) \<Longrightarrow> 0 \<le> off \<and> off < body"
  by (auto simp: read_page_header_at_def Let_def advances1_def advances_def split: if_splits bind_splits
      dest: parse_page_header_advances1 [OF cursor_at_start_simps(1)])

lemma read_page_body_bounds:
  "read_page_body file fsize body ph codec = Some page \<Longrightarrow>
     0 \<le> ph_compressed_page_size ph \<and> 0 \<le> body \<and> body + ph_compressed_page_size ph \<le> fsize"
  by (auto simp: read_page_body_def Let_def split: if_splits)

definition chunk_ok :: "int \<Rightarrow> int \<times> int \<times> cell list \<Rightarrow> bool" where
  "chunk_ok num_values s \<longleftrightarrow>
     (case s of (values_read, cursor_offset, out) \<Rightarrow>
        0 \<le> values_read \<and> values_read \<le> max 0 num_values \<and> int (length out) = values_read)"

text \<open>
  Even a page that declares no values moves the offset forward inside the file, so the loop ends
  on every file.
\<close>

interpretation chunk: measured_loop "\<lambda>(values_read, cursor_offset, out). nat (fsize - cursor_offset)"
    "chunk_body src fsize md d h dict" "chunk_ok (md_num_values md)"
  for src fsize md d h dict
proof unfold_locales
  fix s s' assume ok: "chunk_ok (md_num_values md) s"
    and step: "chunk_body src fsize md d h dict s = Some (Inl s')"
  obtain n off out n' off' out' where s: "s = (n, off, out)" "s' = (n', off', out')"
    by (cases s, cases s') auto
  from step obtain ph body page cells where
      h: "read_page_header_at src off = Some (ph, body)"
      and n: "n < md_num_values md" "0 \<le> ph_dp_num_values ph" "ph_dp_num_values ph \<le> md_num_values md - n"
      and b: "read_page_body src fsize body ph (md_codec md) = Some page"
      and c: "decode_page page (md_type md) (ph_dp_encoding ph) d h dict (nat (ph_dp_num_values ph)) = Some cells"
      and s': "n' = n + ph_dp_num_values ph" "off' = body + ph_compressed_page_size ph" "out' = out @ cells"
    by (auto simp: chunk_body_def s not_less split: bind_splits if_splits)
  show "chunk_ok (md_num_values md) s'"
    using ok n decode_page_length [OF c] by (auto simp: chunk_ok_def s s')
  show "(case s' of (n, off, out) \<Rightarrow> nat (fsize - off)) < (case s of (n, off, out) \<Rightarrow> nat (fsize - off))"
    using read_page_header_at_forward [OF h] read_page_body_bounds [OF b] by (simp add: s s')
qed

lemma chunk_loop_length:
  assumes "chunk_loop file fsize md d h dict (0, off, []) = Some (n, out)"
  shows "int (length out) = n \<and> n = max 0 (md_num_values md)"
proof -
  have "case (n, out) of (n, out) \<Rightarrow> int (length out) = n \<and> n = max 0 (md_num_values md)"
  proof (rule chunk.result_rule [where P = "\<lambda>s. True", OF assms [unfolded chunk_loop_def]])
    show "chunk_ok (md_num_values md) (0, off, [])" by (simp add: chunk_ok_def)
    fix s r assume "chunk_ok (md_num_values md) s" "chunk_body file fsize md d h dict s = Some (Inr r)"
    then show "case r of (n, out) \<Rightarrow> int (length out) = n \<and> n = max 0 (md_num_values md)"
      by (cases s) (auto simp: chunk_ok_def chunk_body_def split: if_splits bind_splits)
  qed simp_all
  then show ?thesis by simp
qed

lemma decode_column_chunk_length:
  "decode_column_chunk file fsize cc opt rows = Some col \<Longrightarrow> int (length col) = rows"
  by (auto simp: decode_column_chunk_def Let_def split: bind_splits if_splits)

section \<open>Rows\<close>

lemma decode_columns_lengths:
  "decode_columns file rg xs = Some cols \<Longrightarrow>
     length cols = length xs \<and> list_all (\<lambda>col. int (length col) = rg_num_rows rg) cols"
  by (induction xs arbitrary: cols)
    (auto simp: decode_column_def Let_def split: bind_splits prod.splits if_splits dest: decode_column_chunk_length)

text \<open>The members of a row as a function of its cells.\<close>

definition member_json :: "SchemaElement \<times> cell \<Rightarrow> bytes" where
  "member_json x = [0x22] @ json_escape (se_name (fst x)) @ [0x22] @ ascii '':'' @ cell_json (snd x)"

primrec join_members :: "bool \<Rightarrow> (SchemaElement \<times> cell) list \<Rightarrow> bytes" where
  "join_members first [] = []"
| "join_members first (x # xs) =
     (if first then [] else ascii '','') @ member_json x @ join_members False xs"

definition row_json :: "(SchemaElement \<times> cell) list \<Rightarrow> bytes" where
  "row_json xs = ascii ''{'' @ join_members True xs @ ascii ''}'' @ [0x0A]"

lemma row_members_eq:
  "list_all (\<lambda>(se, col). row < length col) xs \<Longrightarrow>
     row_members first row xs line =
       Some (line @ join_members first (map (\<lambda>(se, col). (se, col ! row)) xs))"
  by (induction xs arbitrary: first line)
    (auto simp: append_cell_json_eq json_escape_append_eq member_json_def)

lemma row_line_eq:
  "list_all (\<lambda>(se, col). row < length col) xs \<Longrightarrow>
     row_line row xs = Some (row_json (map (\<lambda>(se, col). (se, col ! row)) xs))"
  by (simp add: row_line_def row_members_eq row_json_def)

lemma rows_text_eq:
  assumes "list_all (\<lambda>(se, col). length col = n) xs" and "list_all (\<lambda>row. row < n) rows"
  shows "rows_text xs rows =
           Some (concat (map (\<lambda>row. row_json (map (\<lambda>(se, col). (se, col ! row)) xs)) rows))"
  using assms(2)
proof (induction rows)
  case (Cons row rows)
  have "list_all (\<lambda>(se, col). row < length col) xs"
    using assms(1) Cons.prems by (auto simp: list_all_iff)
  then show ?case using Cons by (simp add: row_line_eq)
qed simp

text \<open>Whatever the names and values are, a row is one line: its only line feed is its last byte.\<close>

lemma join_members_printable: "list_all (\<lambda>b. 0x20 \<le> b) (join_members first xs)"
  using json_escape_printable cell_json_printable
  by (induction xs arbitrary: first) (auto simp: member_json_def)

lemma row_json_line:
  "\<exists>line. row_json xs = line @ [0x0A] \<and> list_all (\<lambda>b. 0x20 \<le> b) line"
  using join_members_printable by (auto simp: row_json_def)

lemma count_row_json: "count_list (row_json xs) 0x0A = 1"
proof -
  obtain line where l: "row_json xs = line @ [0x0A]" "list_all (\<lambda>b. 0x20 \<le> b) line"
    using row_json_line by blast
  then have "(0x0A :: u8) \<notin> set line" by (auto simp: list_all_iff)
  then show ?thesis by (simp add: l(1) count_list_0_iff)
qed

definition row_group_ok :: "RowGroup \<Rightarrow> cell list list \<Rightarrow> SchemaElement list \<Rightarrow> bool" where
  "row_group_ok rg columns leaves \<longleftrightarrow>
     length columns = length leaves \<and> list_all (\<lambda>col. int (length col) = rg_num_rows rg) columns"

text \<open>Once the columns of a row group are decoded, its rows are written without leaving a column.\<close>

lemma row_group_text_eq:
  assumes "length (rg_columns rg) = length leaves"
    and cols: "decode_columns file rg (zip leaves (rg_columns rg)) = Some cols"
  shows "row_group_text file leaves rg =
           Some (concat (map (\<lambda>row. row_json (zip leaves (map (\<lambda>col. col ! row) cols)))
             [0..<nat (rg_num_rows rg)]))"
proof -
  have "list_all (\<lambda>(se, col). length col = nat (rg_num_rows rg)) (zip leaves cols)"
    using decode_columns_lengths [OF cols] by (auto simp: list_all_iff dest!: set_zip_rightD)
  then have "rows_text (zip leaves cols) [0..<nat (rg_num_rows rg)] =
      Some (concat (map (\<lambda>row. row_json (map (\<lambda>(se, col). (se, col ! row)) (zip leaves cols)))
        [0..<nat (rg_num_rows rg)]))"
    by (rule rows_text_eq) (simp add: list_all_iff)
  moreover have "map (\<lambda>(se, col). (se, col ! row)) (zip leaves cols) =
      zip leaves (map (\<lambda>col. col ! row) cols)" for row
    by (simp add: zip_map2 case_prod_beta)
  ultimately show ?thesis using assms by (simp add: row_group_text_def)
qed

lemma count_concat: "count_list (concat xss) y = sum_list (map (\<lambda>xs. count_list xs y) xss)"
  by (induction xss) simp_all

lemma row_group_text_count:
  assumes "row_group_text file leaves rg = Some text"
  shows "count_list text 0x0A = nat (rg_num_rows rg)"
proof -
  from assms obtain cols where c: "length (rg_columns rg) = length leaves"
      "decode_columns file rg (zip leaves (rg_columns rg)) = Some cols"
    by (auto simp: row_group_text_def split: if_splits bind_splits)
  from assms row_group_text_eq [OF c] show ?thesis
    by (auto simp: count_concat o_def count_row_json sum_list_triv)
qed

lemma row_groups_text_count:
  assumes "row_groups_text file leaves rgs tot out = (n, text)" and "0 \<le> n"
    and "list_all (\<lambda>rg. 0 \<le> rg_num_rows rg) rgs" and "0 \<le> tot" and "int (count_list out 0x0A) = tot"
  shows "n = int (count_list text 0x0A) \<and> n = tot + sum_list (map rg_num_rows rgs)"
  using assms
proof (induction rgs arbitrary: tot out)
  case (Cons rg rgs)
  then obtain t where t: "row_group_text file leaves rg = Some t" by (auto split: option.splits)
  with Cons.prems Cons.IH [of "tot + rg_num_rows rg" "out @ t"] row_group_text_count [OF t]
  show ?case by simp
qed simp

text \<open>A row group with at least one column has passed the row-count check of the preflight.\<close>

lemma row_groups_text_rows:
  assumes "row_groups_text file leaves rgs tot out = (n, text)" and "0 \<le> n" and "leaves \<noteq> []"
    and "list_all (\<lambda>rg. list_all (preflight_chunk rg) (rg_columns rg)) rgs"
  shows "list_all (\<lambda>rg. 0 \<le> rg_num_rows rg \<and> rg_num_rows rg \<le> kMaxRowsPerRowGroup) rgs"
  using assms
proof (induction rgs arbitrary: tot out)
  case (Cons rg rgs)
  then obtain t where "row_group_text file leaves rg = Some t" by (auto split: option.splits)
  then have "rg_columns rg \<noteq> []" using Cons.prems(3) by (auto simp: row_group_text_def split: if_splits)
  then have "0 \<le> rg_num_rows rg \<and> rg_num_rows rg \<le> kMaxRowsPerRowGroup"
    using Cons.prems(4) by (cases "rg_columns rg") (auto simp: preflight_chunk_def Let_def)
  with Cons show ?case by (auto split: option.splits)
qed simp

lemma convert_impl_rows:
  assumes "convert_to_jsonl_impl (Some file) = (n, text)" and "0 \<le> n"
  obtains meta where "read_footer file = Some meta" and "preflight meta"
    and "n = sum_list (map rg_num_rows (fm_row_groups meta))" and "n = int (count_list text 0x0A)"
proof -
  from assms obtain meta where m: "read_footer file = Some meta" "preflight meta"
      and s: "\<not> length (fm_schema meta) < 2"
      and r: "row_groups_text file (tl (fm_schema meta)) (fm_row_groups meta) 0 [] = (n, text)"
    by (auto simp: convert_to_jsonl_impl_def split: option.splits if_splits)
  have "tl (fm_schema meta) \<noteq> []" using s by (cases "fm_schema meta") auto
  with row_groups_text_rows [OF r assms(2)] m(2)
  have "list_all (\<lambda>rg. 0 \<le> rg_num_rows rg) (fm_row_groups meta)"
    by (auto simp: preflight_def list_all_iff)
  from row_groups_text_count [OF r assms(2) this] m show ?thesis by (intro that) auto
qed

end
