(* ===== verification/Parquet_Convert.thy ===== *)
theory Parquet_Convert
  imports Parquet_Reader
begin

text \<open>
  \<open>ParquetReader::convert_to_jsonl\<close> of \<open>src/src/ParquetReader.cpp\<close>: the output file is written whole
  or left as it was. The file system is a map from paths to contents. What the operating system may
  do is the argument \<open>env\<close>: each call of \<open>std::filesystem\<close> or a stream may fail, an exception may
  end the decoding after any number of output bytes, and a full disk may keep any prefix of them.
\<close>

type_synonym file_system = "string \<rightharpoonup> bytes"

record convert_env =
  e_stat_ok :: bool            \<comment> \<open>\<open>fs::exists\<close> and \<open>fs::file_size\<close> report no error\<close>
  e_open_ok :: bool            \<comment> \<open>the output stream opens\<close>
  e_throw :: "nat option"      \<comment> \<open>an exception is thrown after this many bytes of output\<close>
  e_disk_full :: "nat option"  \<comment> \<open>the stream fails and only this many bytes reach the file\<close>
  e_rename_ok :: bool
  e_restore_ok :: bool         \<comment> \<open>\<open>fs::remove\<close> and \<open>fs::resize_file\<close> of the clean-up succeed\<close>

definition open_out :: "bool \<Rightarrow> string \<Rightarrow> file_system \<Rightarrow> file_system" where
  "open_out app path fs =
     fs(path \<mapsto> (if app then (case fs path of None \<Rightarrow> [] | Some old \<Rightarrow> old) else []))"

definition append_to :: "string \<Rightarrow> bytes \<Rightarrow> file_system \<Rightarrow> file_system" where
  "append_to path text fs = fs(path \<mapsto> (case fs path of None \<Rightarrow> [] | Some old \<Rightarrow> old) @ text)"

text \<open>The \<open>try\<close> block and the flush: rows reported and bytes that reach the file.\<close>

definition run_conversion :: "convert_env \<Rightarrow> bytes option \<Rightarrow> int \<times> bytes" where
  "run_conversion env input =
     (case convert_to_jsonl_impl input of (rows, text) \<Rightarrow>
        let (rows, text) = (case e_throw env of None \<Rightarrow> (rows, text)
                              | Some k \<Rightarrow> (- 1, take k text))
        in case e_disk_full env of
             None \<Rightarrow> (rows, text)
           | Some k \<Rightarrow> (if rows \<ge> 0 then - 1 else rows, take k text))"

definition remove_file :: "bool \<Rightarrow> string \<Rightarrow> file_system \<Rightarrow> file_system" where
  "remove_file ok path fs = (if ok then fs(path := None) else fs)"

definition resize_file :: "bool \<Rightarrow> string \<Rightarrow> nat \<Rightarrow> file_system \<Rightarrow> file_system" where
  "resize_file ok path n fs =
     (if ok then fs(path := map_option (\<lambda>bs. take n bs @ replicate (n - length bs) 0) (fs path)) else fs)"

definition convert_to_jsonl ::
  "convert_env \<Rightarrow> string \<Rightarrow> string \<Rightarrow> bool \<Rightarrow> file_system \<Rightarrow> int \<times> file_system" where
  "convert_to_jsonl env parquet_path out_jsonl_path app fs =
     (if \<not> e_stat_ok env then (- 1, fs)
      else
        let existed = fs out_jsonl_path \<noteq> None;
            original_size = (case fs out_jsonl_path of None \<Rightarrow> 0 | Some old \<Rightarrow> length old);
            write_path = (if app then out_jsonl_path else out_jsonl_path @ ''.tmp'')
        in
        if \<not> e_open_ok env then (- 1, fs)
        else
          let fs = open_out app write_path fs;
              (rows, text) = run_conversion env (fs parquet_path);
              fs = append_to write_path text fs
          in
          if rows \<ge> 0 then
            if \<not> app then
              if e_rename_ok env then (rows, fs(out_jsonl_path := fs write_path, write_path := None))
              else (- 1, remove_file (e_restore_ok env) write_path fs)
            else (rows, fs)
          else if \<not> app then (- 1, remove_file (e_restore_ok env) write_path fs)
          else if existed then (- 1, resize_file (e_restore_ok env) out_jsonl_path original_size fs)
          else (- 1, remove_file (e_restore_ok env) out_jsonl_path fs))"

lemma tmp_neq [simp]: "p @ ''.tmp'' \<noteq> p" "p \<noteq> p @ ''.tmp''"
  by simp_all

lemma run_conversion_ok:
  "run_conversion env input = (rows, text) \<Longrightarrow> 0 \<le> rows \<Longrightarrow> convert_to_jsonl_impl input = (rows, text)"
  by (auto simp: run_conversion_def Let_def split: prod.splits option.splits if_splits)

definition contents :: "file_system \<Rightarrow> string \<Rightarrow> bytes" where
  "contents fs path = (case fs path of None \<Rightarrow> [] | Some old \<Rightarrow> old)"

lemma convert_failure_others:
  assumes "convert_to_jsonl env src dst app fs = (rows, fs')" and "rows < 0"
    and "path \<noteq> dst" and "path \<noteq> dst @ ''.tmp''"
  shows "fs' path = fs path"
  using assms
  by (auto simp: convert_to_jsonl_def Let_def open_out_def append_to_def remove_file_def resize_file_def
      split: if_splits option.splits prod.splits)

lemma convert_failure_target:
  assumes "convert_to_jsonl env src dst app fs = (rows, fs')" and "rows < 0" and "\<not> app \<or> e_restore_ok env"
  shows "fs' dst = fs dst"
  using assms
  by (auto simp: convert_to_jsonl_def Let_def open_out_def append_to_def remove_file_def resize_file_def
      split: if_splits option.splits prod.splits)

lemma convert_failure_prefix:
  assumes "convert_to_jsonl env src dst app fs = (rows, fs')" and "rows < 0"
  shows "\<exists>rest. contents fs' dst = contents fs dst @ rest"
  using assms
  by (auto simp: convert_to_jsonl_def Let_def open_out_def append_to_def remove_file_def resize_file_def contents_def
      split: if_splits option.splits prod.splits)

lemma convert_failure_temporary:
  assumes "convert_to_jsonl env src dst app fs = (rows, fs')" and "rows < 0" and "app \<or> e_restore_ok env"
  shows "fs' (dst @ ''.tmp'') \<in> {None, fs (dst @ ''.tmp'')}"
  using assms
  by (auto simp: convert_to_jsonl_def Let_def open_out_def append_to_def remove_file_def resize_file_def
      split: if_splits option.splits prod.splits)

lemma convert_success:
  assumes "convert_to_jsonl env src dst app fs = (rows, fs')" and "0 \<le> rows"
    and "src \<noteq> dst" and "src \<noteq> dst @ ''.tmp''"
  shows "\<exists>text. convert_to_jsonl_impl (fs src) = (rows, text) \<and>
      fs' dst = Some ((if app then case fs dst of None \<Rightarrow> [] | Some old \<Rightarrow> old else []) @ text) \<and>
      (\<forall>path. path \<noteq> dst \<longrightarrow> path \<noteq> dst @ ''.tmp'' \<longrightarrow> fs' path = fs path)"
  using assms
  by (auto simp: convert_to_jsonl_def Let_def open_out_def append_to_def remove_file_def resize_file_def
      split: if_splits prod.splits dest!: run_conversion_ok)

end
