(* ===== verification/Parquet_Properties.thy ===== *)
theory Parquet_Properties
  imports Parquet_Footer Parquet_Convert
begin

text \<open>
  What the Parquet reader promises, from the byte cursor up to the conversion of a file. The proofs
  are in the theories of the components; a property here states the result over the functions of
  \<open>src/src/ParquetReader.cpp\<close> and is followed by an instance of it.
\<close>

section \<open>Thrift\<close>

text \<open>C1: a footer written field by field in the compact protocol is read back exactly, the cursor
  left at its end.\<close>

theorem footer_round_trip:
  assumes "wf_file_metadata fm"
  shows "parse_file_metadata (cursor_at_start (write_footer fm)) =
    Some (fm, skip_bytes (length (write_footer fm)) (cursor_at_start (write_footer fm)))"
  by (rule parse_write_footer [OF assms])

definition sample_metadata :: FileMetaData where
  "sample_metadata = \<lparr>fm_schema = [SchemaElement0, SchemaElement0\<lparr>se_has_type := True, se_type := INT64, se_name := [0x61]\<rparr>],
     fm_row_groups = [\<lparr>rg_columns = [ColumnChunk0\<lparr>cc_has_meta_data := True,
        cc_meta_data := ColumnMetaData0\<lparr>md_type := INT64, md_path_in_schema := [[0x61]], md_num_values := 3\<rparr>\<rparr>],
        rg_num_rows = 3\<rparr>]\<rparr>"

lemma sample_metadata_wf: "wf_file_metadata sample_metadata"
  by (simp add: sample_metadata_def wf_file_metadata_def wf_schema_element_def wf_row_group_def
      wf_column_chunk_def wf_column_metadata_def SchemaElement0_def ColumnChunk0_def ColumnMetaData0_def
      wf_physical_def wf_repetition_def wf_codec_def int64_def)

theorem footer_round_trip_witness:
  "map_option fst (parse_file_metadata (cursor_at_start (write_footer sample_metadata))) = Some sample_metadata"
  using footer_round_trip [OF sample_metadata_wf] by simp

text \<open>C30: \<open>skip_value\<close> on the encoding of any value nested no deeper than the limit consumes exactly
  that encoding, so an unknown field never shifts the fields after it.\<close>

theorem skip_exactly_one_value:
  assumes "wf_tval v" and "fits 0 v"
  shows "skip_value (cursor_at_start (enc v @ r)) (int (tcode v)) 0 =
    Some (skip_bytes (length (enc v)) (cursor_at_start (enc v @ r)))"
  using skip_value_enc [OF assms]
  by (simp add: steps_over_def cursor_ok_def cursor_at_start_def rest_def)

theorem skip_exactly_one_value_witness:
  "map_option c_pos (skip_value (cursor_at_start (enc (T_STRUCT [(1, T_LIST 9 1 [T_BOOL True]), (7, T_INT 5 (-3))]) @ [0xFF])) 12 0)
     = Some (length (enc (T_STRUCT [(1, T_LIST 9 1 [T_BOOL True]), (7, T_INT 5 (-3))])))"
  using skip_exactly_one_value [of "T_STRUCT [(1, T_LIST 9 1 [T_BOOL True]), (7, T_INT 5 (-3))]" "[0xFF]"]
  by (simp add: int32_def int64_def kMaxSkipDepth_def skip_bytes_def cursor_at_start_def)

text \<open>Every 64-bit value survives the zigzag varint encoding, in at most ten bytes.\<close>

theorem zigzag_round_trip:
  assumes "int64 i"
  shows "read_zigzag_varint (cursor_at_start (zenc i @ r)) =
      Some (i, skip_bytes (length (zenc i)) (cursor_at_start (zenc i @ r))) \<and> length (zenc i) \<le> 10"
proof
  show "read_zigzag_varint (cursor_at_start (zenc i @ r)) =
      Some (i, skip_bytes (length (zenc i)) (cursor_at_start (zenc i @ r)))"
    using assms by (intro read_zigzag_zenc [where r = r]) (simp_all add: rest_def cursor_at_start_def)
  show "length (zenc i) \<le> 10"
    unfolding zenc_def using zenc_nat_less [OF assms] by (intro length_venc) simp_all
qed

theorem zigzag_round_trip_witness:
  "map_option fst (read_zigzag_varint (cursor_at_start (zenc (- (2 ^ 63)) @ [0x01]))) = Some (- (2 ^ 63))"
  using zigzag_round_trip [of "- (2 ^ 63)" "[0x01]"] by (simp add: int64_def)

section \<open>Decoders\<close>

text \<open>C31: a valid Snappy block, its length varint followed by any legal encoding of literals and copies
  whose offsets point into the output, decompresses to the bytes those elements stand for.\<close>

theorem snappy_accepts:
  assumes "list_all2 elem_code es bss" and "offsets_ok 0 es"
    and "sum_list (map elem_size es) \<le> unat max_uncompressed"
  shows "snappy_raw_uncompress (venc (sum_list (map elem_size es)) @ concat bss) max_uncompressed =
    Some (expand es)"
proof -
  let ?n = "sum_list (map elem_size es)"
  let ?c = "cursor_at_start (venc ?n @ concat bss)"
  have "unat max_uncompressed < 2 ^ LENGTH(64)" by (rule unsigned_less)
  with assms(3) have n: "?n < 2 ^ 64" by simp
  have ok: "cursor_ok ?c" by (simp add: cursor_ok_def cursor_at_start_def)
  have rest: "rest ?c = venc ?n @ concat bss" by (simp add: rest_def cursor_at_start_def)
  let ?d = "skip_bytes (length (venc ?n)) ?c"
  have "snappy_loop ?n (?d, []) = Some (expand es)"
    unfolding expand_def using assms ok rest
    by (intro snappy_loop_code [where r = "[]"])
      (auto simp: rest_def cursor_at_start_def skip_bytes_def cursor_ok_def c_size_def)
  moreover have "length (expand es) = ?n" by (simp add: expand_def length_foldl_expand)
  moreover have "(of_nat ?n :: u64) \<le> max_uncompressed"
    using assms(3) n by (simp add: word_le_nat_alt unat_of_nat)
  moreover have "?n div 32 \<le> length (venc ?n @ concat bss)" using stream_bound [OF assms(1)] by simp
  ultimately show ?thesis
    using n by (simp add: snappy_raw_uncompress_def read_varint_venc [OF rest n] unat_of_nat not_less)
qed

theorem snappy_accepts_witness:
  "snappy_raw_uncompress (venc 6 @ [4, 1, 2, 1, 2]) 100 = Some (expand [Literal [1, 2], Copy 2 4])"
proof -
  have "elem_code (Literal [1, 2]) [4, 1, 2]" using lit_short [of "[1, 2]"] by simp
  moreover have "elem_code (Copy 2 4) [1, 2]" using copy_1 [of 4 2] by simp
  ultimately show ?thesis
    using snappy_accepts [of "[Literal [1, 2], Copy 2 4]" "[[4, 1, 2], [1, 2]]" 100] by simp
qed

text \<open>Decompression never produces more than the declared page size, nor 32 bytes or more for each
  byte of input above the first 32, however hostile the block.\<close>

theorem snappy_output_bounded:
  assumes "snappy_raw_uncompress src max_uncompressed = Some out"
  shows "length out \<le> unat max_uncompressed \<and> length out < 32 * (length src + 1)"
  using assms
  by (auto simp: snappy_raw_uncompress_def word_le_nat_alt not_less split: bind_splits if_splits)

lemma sample_block: "snappy_raw_uncompress [3, 8, 9, 7, 6] 100 = Some [9, 7, 6]"
  by code_simp

theorem snappy_output_bounded_witness: "length [9, 7, 6 :: u8] \<le> 100"
  using snappy_output_bounded [OF sample_block] by simp

text \<open>C32: the RLE / bit-packed hybrid decoder returns exactly the values of any sequence of runs that
  covers the requested count, whatever follows the runs.\<close>

theorem hybrid_decodes_runs:
  assumes "list_all (run_ok w) runs" and "0 < w" and "w \<le> 32"
    and "num \<le> length (concat (map run_values runs))"
  shows "decode_rle_bitpacked_hybrid (concat (map (run_code w) runs) @ r) (int w) num =
    Some (take num (concat (map run_values runs)))"
  using assms by (rule decode_runs)

theorem hybrid_decodes_runs_witness:
  "decode_rle_bitpacked_hybrid
     (concat (map (run_code 3) [Repeated 4 5, Packed [0, 1, 2, 3, 4, 5, 6, 7]]) @ [0xEE]) 3 6 = Some (replicate 4 5 @ [0, 1])"
  using hybrid_decodes_runs [of 3 "[Repeated 4 5, Packed [0, 1, 2, 3, 4, 5, 6, 7]]" 6 "[0xEE]"] by simp

text \<open>C33: the bit-unpacking loop reads \<open>data[pos]\<close> without a check of its own; after the group-count
  check it never leaves the buffer, and it emits the values of the bit stream.\<close>

theorem bitpacked_reads_in_bounds:
  assumes "cursor_ok c" and "g * w \<le> remaining c" and "w \<le> 32"
  shows "\<exists>c'. unpack (g * 8) w num 0 0 c out =
    Some (out @ take (num - length out) (map (packed_value w (take (g * w) (rest c))) [0..<g * 8]), c')"
  using unpack_in_bounds [OF assms] by metis

theorem bitpacked_reads_in_bounds_witness:
  "\<exists>c'. unpack 8 3 8 0 0 (cursor_at_start [0x88, 0xC6, 0xFA]) [] = Some ([0, 1, 2, 3, 4, 5, 6, 7], c')"
proof -
  have "map (packed_value 3 [0x88, 0xC6, 0xFA]) [0..<8] = [0, 1, 2, 3, 4, 5, 6, 7]" by code_simp
  then show ?thesis
    using bitpacked_reads_in_bounds [of "cursor_at_start [0x88, 0xC6, 0xFA]" 1 3 8 "[]"]
    by (simp add: cursor_ok_def cursor_at_start_def remaining_def c_size_def rest_def)
qed

text \<open>PLAIN pages of every supported type but BOOLEAN decode to the values they encode.\<close>

theorem plain_round_trip:
  assumes "list_all2 (plain_code t) vs bss" and "decodable t" and "t \<noteq> BOOLEAN"
  shows "decode_plain_values (concat bss @ r) t (length vs) = Some vs"
  using assms by (rule decode_plain_code)

theorem plain_round_trip_witness:
  "decode_plain_values [2, 0, 0, 0, 0x68, 0x69, 0, 0, 0, 0] BYTE_ARRAY 2 = Some [v_str [0x68, 0x69], v_str []]"
proof -
  have four_bytes: "le_bytes 4 (2 :: u32) = [2, 0, 0, 0]" "le_bytes 4 (0 :: u32) = [0, 0, 0, 0]" by code_simp+
  have "plain_code BYTE_ARRAY (v_str [0x68, 0x69]) [2, 0, 0, 0, 0x68, 0x69]"
    "plain_code BYTE_ARRAY (v_str []) [0, 0, 0, 0]"
    using plain_code.intros(5) [of "[0x68, 0x69]"] plain_code.intros(5) [of "[]"] four_bytes by simp_all
  then show ?thesis
    using plain_round_trip [of BYTE_ARRAY "[v_str [0x68, 0x69], v_str []]" "[[2, 0, 0, 0, 0x68, 0x69], [0, 0, 0, 0]]" "[]"]
    by (simp add: decodable_def numeral_2_eq_2)
qed

section \<open>Pages and column chunks\<close>

text \<open>Once the levels and values of a data page decode, the page yields exactly one cell for each
  declared value: the run over \<open>values[value_idx++]\<close> never leaves \<open>values\<close>.\<close>

theorem page_always_filled:
  assumes "definition_levels page max_def n = Some (levels, pos)"
    and "page_values (drop pos page) type encoding have_dict dict
           (length (filter (\<lambda>lvl. sint lvl = max_def) levels)) = Some values"
  shows "\<exists>cells. decode_page page type encoding max_def have_dict dict n = Some cells \<and> length cells = n"
  using decode_page_total [OF assms] decode_page_length by blast

theorem page_always_filled_witness:
  "\<exists>cells. decode_page [2, 0, 0, 0, 6, 1, 1, 0, 1] BOOLEAN ENC_PLAIN 1 False [] 3 = Some cells \<and> length cells = 3"
proof -
  have "definition_levels [2, 0, 0, 0, 6, 1, 1, 0, 1] 1 3 = Some ([1, 1, 1], 6)" by code_simp
  moreover have "page_values (drop 6 [2, 0, 0, 0, 6, 1, 1, 0, 1]) BOOLEAN ENC_PLAIN False []
      (length (filter (\<lambda>lvl. sint lvl = 1) [1, 1, 1 :: u32])) = Some [v_bool True, v_bool False, v_bool False]"
    by code_simp
  ultimately show ?thesis by (rule page_always_filled)
qed

text \<open>The page loop of a column chunk ends, and when it ends normally it has read exactly the
  declared number of values into as many cells.\<close>

theorem column_chunk_complete:
  assumes "decode_column_chunk file (int (length file)) chunk is_optional rows = Some col"
  shows "int (length col) = rows \<and> rows = max 0 (md_num_values (cc_meta_data chunk))"
proof -
  from assms obtain dict have_dict off n where
    l: "chunk_loop file (int (length file)) (cc_meta_data chunk) (if is_optional then 1 else 0)
          have_dict dict (0, off, []) = Some (n, col)"
    and n: "int (length col) = rows"
    by (auto simp: decode_column_chunk_def Let_def split: bind_splits if_splits)
  from chunk_loop_length [OF l] n show ?thesis by simp
qed

definition sample_page :: bytes where
  "sample_page = [0x15, 0, 0x15, 8, 0x15, 8, 0x2C, 0x15, 2, 0x15, 0, 0, 0, 7, 0, 0, 0]"

definition sample_chunk :: ColumnChunk where
  "sample_chunk = ColumnChunk0\<lparr>cc_has_meta_data := True,
     cc_meta_data := ColumnMetaData0\<lparr>md_type := INT32, md_num_values := 1, md_data_page_offset := 0\<rparr>\<rparr>"

lemma sample_chunk_decodes:
  "decode_column_chunk sample_page (int (length sample_page)) sample_chunk False 1 = Some [Some (v_int 7)]"
  by code_simp

theorem column_chunk_complete_witness: "1 = max 0 (md_num_values (cc_meta_data sample_chunk))"
  using column_chunk_complete [OF sample_chunk_decodes] by simp

section \<open>Rows and files\<close>

text \<open>A JSON reader gets back, byte for byte, any string the writer escaped, and stops at its
  closing quote.\<close>

theorem json_string_round_trip:
  "json_read_string (json_escape_append s [] @ 0x22 # r) = Some (s, r)"
  using json_read_escape [of s r] by (simp add: json_escape_append_eq)

text \<open>A complete file: one row group, one INT32 column of one row, one page.\<close>

definition sample_row_group :: RowGroup where
  "sample_row_group = \<lparr>rg_columns = [ColumnChunk0\<lparr>cc_has_meta_data := True,
     cc_meta_data := ColumnMetaData0\<lparr>md_type := INT32, md_path_in_schema := [[0x61]],
       md_num_values := 1, md_data_page_offset := 4\<rparr>\<rparr>], rg_num_rows = 1\<rparr>"

definition sample_leaf :: SchemaElement where
  "sample_leaf = SchemaElement0\<lparr>se_has_type := True, se_type := INT32, se_name := [0x61]\<rparr>"

definition sample_file :: bytes where
  "sample_file =
     (let footer = write_footer \<lparr>fm_schema = [SchemaElement0, sample_leaf], fm_row_groups = [sample_row_group]\<rparr> in
      PAR1 @ sample_page @ footer @ le_bytes 4 (of_nat (length footer) :: u32) @ PAR1)"

definition sample_line :: bytes where
  "sample_line = [0x7B, 0x22, 0x61, 0x22, 0x3A, 0x37, 0x7D, 0x0A]"

lemma sample_file_converts: "convert_to_jsonl_impl (Some sample_file) = (1, sample_line)"
  by code_simp

lemma sample_columns: "decode_columns sample_file sample_row_group (zip [sample_leaf] (rg_columns sample_row_group))
    = Some [[Some (v_int 7)]]"
  by code_simp

text \<open>Once its columns decode, a row group is written as one line per row, in order, each the
  JSON object of that row's cells, and no cell is read outside its column.\<close>

theorem row_group_lines:
  assumes "length (rg_columns rg) = length leaves"
    and "decode_columns file rg (zip leaves (rg_columns rg)) = Some cols"
  shows "row_group_text file leaves rg =
      Some (concat (map (\<lambda>row. row_json (zip leaves (map (\<lambda>col. col ! row) cols))) [0..<nat (rg_num_rows rg)])) \<and>
    list_all (\<lambda>col. nat (rg_num_rows rg) = length col) cols"
proof
  show "list_all (\<lambda>col. nat (rg_num_rows rg) = length col) cols"
    using decode_columns_lengths [OF assms(2)] by (simp add: list_all_iff) force
qed (rule row_group_text_eq [OF assms])

theorem row_group_lines_witness:
  "row_group_text sample_file [sample_leaf] sample_row_group = Some (row_json [(sample_leaf, Some (v_int 7))])"
  using row_group_lines [OF _ sample_columns] by (simp add: sample_row_group_def)

text \<open>A conversion that reports \<open>n\<close> rows has accepted the footer and every column chunk of it, and
  has written exactly \<open>n\<close> lines, the sum of the row counts the footer declares.\<close>

theorem conversion_counts_rows:
  assumes "convert_to_jsonl_impl (Some file) = (n, text)" and "0 \<le> n"
  shows "\<exists>meta. read_footer file = Some meta \<and> preflight meta \<and>
    n = sum_list (map rg_num_rows (fm_row_groups meta)) \<and> n = int (count_list text 0x0A)"
  using convert_impl_rows [OF assms] by metis

theorem conversion_counts_rows_witness:
  "\<exists>meta. read_footer sample_file = Some meta \<and> preflight meta \<and>
    1 = sum_list (map rg_num_rows (fm_row_groups meta)) \<and> 1 = int (count_list sample_line 0x0A)"
  by (rule conversion_counts_rows [OF sample_file_converts]) simp

text \<open>C2: a conversion that fails, at any point and for any reason, changes no file but its target and
  the target's \<open>.tmp\<close> file. Written afresh, the target stays as it was, whatever else fails; when
  appending, nothing of the old content is lost, and the target is as it was unless the clean-up
  itself (\<open>fs::remove\<close> or \<open>fs::resize_file\<close>) fails as well. A \<open>.tmp\<close> file is left only where removing
  it failed.\<close>

theorem conversion_failure_restores:
  assumes "convert_to_jsonl env src dst app fs = (rows, fs')" and "rows < 0"
  shows "(path \<noteq> dst \<and> path \<noteq> dst @ ''.tmp'' \<longrightarrow> fs' path = fs path) \<and>
    (\<not> app \<or> e_restore_ok env \<longrightarrow> fs' dst = fs dst) \<and>
    (\<exists>rest. contents fs' dst = contents fs dst @ rest) \<and>
    (app \<or> e_restore_ok env \<longrightarrow> fs' (dst @ ''.tmp'') \<in> {None, fs (dst @ ''.tmp'')})"
  using convert_failure_others [OF assms] convert_failure_target [OF assms] convert_failure_prefix [OF assms]
    convert_failure_temporary [OF assms] by blast

definition sample_fs :: file_system where
  "sample_fs = Map.empty(''in'' \<mapsto> sample_file, ''out'' \<mapsto> [0x41, 0x0A])"

definition good_env :: convert_env where
  "good_env = \<lparr>e_stat_ok = True, e_open_ok = True, e_throw = None, e_disk_full = None, e_rename_ok = True,
     e_restore_ok = True\<rparr>"

theorem conversion_failure_restores_witness:
  "snd (convert_to_jsonl (good_env\<lparr>e_disk_full := Some 3\<rparr>) ''in'' ''out'' True sample_fs) ''out'' = Some [0x41, 0x0A]"
proof -
  let ?r = "convert_to_jsonl (good_env\<lparr>e_disk_full := Some 3\<rparr>) ''in'' ''out'' True sample_fs"
  have "run_conversion (good_env\<lparr>e_disk_full := Some 3\<rparr>) (Some sample_file) = (- 1, take 3 sample_line)"
    by (simp add: run_conversion_def sample_file_converts good_env_def)
  then have "?r = (- 1, snd ?r)" by (simp add: convert_to_jsonl_def good_env_def Let_def sample_fs_def open_out_def)
  from conversion_failure_restores [OF this, of "''out''"] show ?thesis by (simp add: good_env_def sample_fs_def)
qed

text \<open>C34: a conversion that reports success has written exactly the converted rows, after the old
  content when appending and instead of it otherwise, and has changed no other file.\<close>

theorem conversion_success:
  assumes "convert_to_jsonl env src dst app fs = (rows, fs')" and "0 \<le> rows"
    and "src \<noteq> dst" and "src \<noteq> dst @ ''.tmp''"
  shows "\<exists>text. convert_to_jsonl_impl (fs src) = (rows, text) \<and>
      fs' dst = Some ((if app then case fs dst of None \<Rightarrow> [] | Some old \<Rightarrow> old else []) @ text) \<and>
      (\<forall>path. path \<noteq> dst \<longrightarrow> path \<noteq> dst @ ''.tmp'' \<longrightarrow> fs' path = fs path)"
  using assms by (rule convert_success)

theorem conversion_success_witness:
  "snd (convert_to_jsonl good_env ''in'' ''out'' True sample_fs) ''out'' = Some ([0x41, 0x0A] @ sample_line)"
proof -
  let ?r = "convert_to_jsonl good_env ''in'' ''out'' True sample_fs"
  have "run_conversion good_env (Some sample_file) = (1, sample_line)"
    by (simp add: run_conversion_def sample_file_converts good_env_def)
  then have "?r = (1, snd ?r)" by (simp add: convert_to_jsonl_def good_env_def Let_def sample_fs_def open_out_def)
  from conversion_success [OF this] show ?thesis by (simp add: sample_fs_def sample_file_converts)
qed

end
