(* ===== verification/Conversation_Format.thy ===== *)
theory Conversation_Format
  imports Text_Lib
begin

text \<open>
  \<open>src/src/ConversationFormat.cpp\<close>: the line format of a saved conversation. \<open>escape_line\<close> and
  \<open>unescape_line\<close> are mutually inverse on what \<open>escape_line\<close> produces, and \<open>parse\<close> reads back the
  system message and the (role, content) pairs of any text whose message lines have the written
  form.
\<close>

primrec escape_line :: "string \<Rightarrow> string" where
  "escape_line [] = []"
| "escape_line (c # content) =
     (if c = BSLASH then [BSLASH, BSLASH]
      else if c = NL then [BSLASH, CHR ''n'']
      else if c = CR then [BSLASH, CHR ''r'']
      else [c]) @ escape_line content"

fun unescape_line :: "string \<Rightarrow> string" where
  "unescape_line [] = []"
| "unescape_line [c] = [c]"
| "unescape_line (c # next # line) =
     (if c = BSLASH \<and> next = BSLASH then BSLASH # unescape_line line
      else if c = BSLASH \<and> next = CHR ''n'' then NL # unescape_line line
      else if c = BSLASH \<and> next = CHR ''r'' then CR # unescape_line line
      else c # unescape_line (next # line))"

record Parsed =
  has_separator :: bool
  parsed_system :: "string option"
  parsed_messages :: "(string \<times> string) list"

definition Parsed0 :: Parsed where
  "Parsed0 = \<lparr>has_separator = False, parsed_system = None, parsed_messages = []\<rparr>"

definition parse_line :: "Parsed \<Rightarrow> string \<Rightarrow> Parsed" where
  "parse_line parsed line =
     (if line = ''---'' then parsed\<lparr>has_separator := True\<rparr>
      else if \<not> has_separator parsed then parsed
      else case split_first CHR ''|'' line of
        None \<Rightarrow> parsed
      | Some (role, after) \<Rightarrow>
          (case split_first CHR ''|'' after of
             None \<Rightarrow> parsed
           | Some (count, escaped) \<Rightarrow>
               let content = unescape_line escaped in
               if role = ''SYSTEM'' then parsed\<lparr>parsed_system := Some content\<rparr>
               else parsed\<lparr>parsed_messages := parsed_messages parsed @ [(role, content)]\<rparr>))"

definition parse_conversation :: "string \<Rightarrow> Parsed" where
  "parse_conversation data = foldl parse_line Parsed0 (getlines data)"

section \<open>Escaping\<close>

lemma escape_line_one_line: "NL \<notin> set (escape_line s)" "CR \<notin> set (escape_line s)"
  by (induction s) (auto simp: special_chars)

lemma unescape_plain: "c \<noteq> BSLASH \<Longrightarrow> unescape_line (c # s) = c # unescape_line s"
  by (cases s) simp_all

lemma unescape_escape: "unescape_line (escape_line s) = s"
  by (induction s) (auto simp: unescape_plain, simp_all add: special_chars)

lemma escape_line_inject: "escape_line s = escape_line t \<Longrightarrow> s = t"
  by (metis unescape_escape)

section \<open>Parsing written lines\<close>

text \<open>A role that survives: it is written unescaped.\<close>

definition plain_role :: "string \<Rightarrow> bool" where
  "plain_role role \<longleftrightarrow> NL \<notin> set role \<and> CHR ''|'' \<notin> set role"

definition message_line :: "string \<Rightarrow> int \<Rightarrow> string \<Rightarrow> string" where
  "message_line role n content =
     role @ ''|'' @ int_to_string n @ ''|'' @ escape_line content"

lemma int_to_string_no_pipe [simp]: "CHR ''|'' \<notin> set (int_to_string n)" "NL \<notin> set (int_to_string n)"
  using number_char_plain [OF int_to_string_chars] by blast+

lemma message_line_no_NL: "plain_role role \<Longrightarrow> NL \<notin> set (message_line role n content)"
  using escape_line_one_line [of content] int_to_string_no_pipe(2) [of n]
  by (auto simp: message_line_def plain_role_def) (simp_all add: special_chars)

lemma parse_message_line:
  assumes "plain_role role" and "has_separator p"
  shows "parse_line p (message_line role n content) =
     (if role = ''SYSTEM'' then p\<lparr>parsed_system := Some content\<rparr>
      else p\<lparr>parsed_messages := parsed_messages p @ [(role, content)]\<rparr>)"
proof -
  have "CHR ''|'' \<in> set (message_line role n content)" by (simp add: message_line_def)
  then have "message_line role n content \<noteq> ''---''" by auto
  then show ?thesis
    using assms by (simp add: parse_line_def message_line_def plain_role_def Let_def unescape_escape)
qed

lemma parse_message_lines:
  assumes "list_all (\<lambda>(role, n, content). plain_role role \<and> role \<noteq> ''SYSTEM'') ms" and "has_separator p"
  shows "foldl parse_line p (map (\<lambda>(role, n, content). message_line role n content) ms) =
     p\<lparr>parsed_messages := parsed_messages p @ map (\<lambda>(role, n, content). (role, content)) ms\<rparr>"
  using assms by (induction ms arbitrary: p) (auto simp: parse_message_line)

text \<open>Before the separator every line is ignored; after it the flag stays set.\<close>

lemma parse_metadata: "\<not> has_separator p \<Longrightarrow> ''---'' \<notin> set ls \<Longrightarrow> foldl parse_line p ls = p"
  by (induction ls) (auto simp: parse_line_def)

lemma parse_line_separator: "has_separator p \<Longrightarrow> has_separator (parse_line p l)"
  by (auto simp: parse_line_def Let_def split: option.split)

lemma has_separator_iff: "has_separator (foldl parse_line p ls) \<longleftrightarrow> has_separator p \<or> ''---'' \<in> set ls"
proof (induction ls arbitrary: p)
  case (Cons l ls)
  have "has_separator (parse_line p l) \<longleftrightarrow> has_separator p \<or> l = ''---''"
    by (cases "has_separator p") (simp add: parse_line_separator, simp add: parse_line_def)
  with Cons show ?case by auto
qed simp

end
