(* ===== verification/Conversation_Context.thy ===== *)
theory Conversation_Context
  imports Conversation_Format
begin

text \<open>
  \<open>src/src/ConversationContext.cpp\<close>: the message history of a chat session, its token total and its
  limits. Token counts are C++ \<open>int\<close>s far from their bounds, so they are \<open>int\<close> here; the byte length
  of a message is cast to \<open>int\<close> in the code and stays below \<open>2 ^ 31\<close>. The token counter, a
  \<open>std::function\<close> the caller supplies (normally the model's tokenizer), is a field of the state.

  The floating-point test \<open>total_tokens > max_tokens * 1.2\<close> is written \<open>5 * total > 6 * max\<close>: for an
  \<open>int\<close> limit the product with the \<open>double\<close> nearest to 1.2 rounds to an exact multiple where
  \<open>6 * max\<close> is divisible by five, and otherwise differs from it by less than a fifth, the distance to
  the nearest integer.
\<close>

section \<open>State\<close>

record Message =
  msg_role :: string
  msg_content :: string
  msg_tokens :: int

record Context =
  messages :: "Message list"
  system_message :: "Message option"
  max_messages :: int
  max_tokens :: int
  keep_system_message :: bool
  total_tokens :: int
  token_counter :: "(string \<Rightarrow> int) option"

definition new_context :: "int \<Rightarrow> int \<Rightarrow> bool \<Rightarrow> Context" where
  "new_context max_msgs max_toks keep =
     \<lparr>messages = [], system_message = None, max_messages = max_msgs, max_tokens = max_toks,
      keep_system_message = keep, total_tokens = 0, token_counter = None\<rparr>"

definition system_tokens :: "Context \<Rightarrow> int" where
  "system_tokens c = (case system_message c of None \<Rightarrow> 0 | Some m \<Rightarrow> msg_tokens m)"

section \<open>Counting tokens\<close>

text \<open>\<open>std::ceil(n / 4.0)\<close>, at least one, plus one for every two spaces.\<close>

definition estimate_tokens :: "string \<Rightarrow> int" where
  "estimate_tokens content =
     (let char_count = int (length content);
          estimated = max 1 ((char_count + 3) div 4);
          space_count = int (length (filter (\<lambda>c. c = CHR '' '') content))
      in estimated + space_count div 2)"

definition capitalize :: "string \<Rightarrow> string" where
  "capitalize role = (case role of [] \<Rightarrow> [] | c # cs \<Rightarrow> to_upper c # cs)"

definition count_with :: "(string \<Rightarrow> int) option \<Rightarrow> string \<Rightarrow> string \<Rightarrow> int" where
  "count_with counter role content =
     (case counter of
        None \<Rightarrow> estimate_tokens content
      | Some f \<Rightarrow> max 1 (f (capitalize role @ '': '' @ content @ [NL])))"

lemma count_with_None [simp]: "count_with None role = estimate_tokens"
  by (rule ext) (simp add: count_with_def)

definition count_message_tokens :: "Context \<Rightarrow> string \<Rightarrow> string \<Rightarrow> int" where
  "count_message_tokens c = count_with (token_counter c)"

section \<open>Truncation\<close>

definition remove_oldest_message :: "Context \<Rightarrow> Context" where
  "remove_oldest_message c =
     (case messages c of
        [] \<Rightarrow> c
      | m # ms \<Rightarrow> c\<lparr>messages := ms, total_tokens := total_tokens c - msg_tokens m\<rparr>)"

text \<open>\<open>while (cond(messages.size(), total_tokens)) remove_oldest_message();\<close> for conditions that are
  false on an empty history.\<close>

function drop_while_over :: "(nat \<Rightarrow> int \<Rightarrow> bool) \<Rightarrow> Context \<Rightarrow> Context" where
  "drop_while_over cond c =
     (if messages c \<noteq> [] \<and> cond (length (messages c)) (total_tokens c)
      then drop_while_over cond (remove_oldest_message c) else c)"
  by pat_completeness auto
termination
  by (relation "measure (\<lambda>(cond, c). length (messages c))")
    (auto simp: remove_oldest_message_def split: list.split)

declare drop_while_over.simps [simp del]

text \<open>The binary search of \<open>tail_within_tokens\<close>.\<close>

function tail_search :: "string \<Rightarrow> int \<Rightarrow> (string \<Rightarrow> int) \<Rightarrow> nat \<Rightarrow> nat \<Rightarrow> nat" where
  "tail_search content limit count lo hi =
     (if lo < hi then
        let mid = lo + (hi - lo) div 2 in
        if count (drop mid content) \<le> limit then tail_search content limit count lo mid
        else tail_search content limit count (mid + 1) hi
      else lo)"
  by pat_completeness auto
termination
  by (relation "measure (\<lambda>(content, limit, count, lo, hi). hi - lo)") (auto simp: Let_def)

declare tail_search.simps [simp del]

definition tail_within_tokens :: "string \<Rightarrow> int \<Rightarrow> (string \<Rightarrow> int) \<Rightarrow> string" where
  "tail_within_tokens content limit count =
     dropWhile is_continuation (drop (tail_search content limit count 0 (length content)) content)"

definition truncate_messages :: "Context \<Rightarrow> Context" where
  "truncate_messages c =
     (if max_messages c > 0 then drop_while_over (\<lambda>n total. int n > max_messages c) c else c)"

definition over_slack :: "int \<Rightarrow> int \<Rightarrow> bool" where
  "over_slack total_toks max_toks \<longleftrightarrow> 5 * total_toks > 6 * max_toks"

definition shorten_last :: "Context \<Rightarrow> Context" where
  "shorten_last c =
     (case messages c of
        [m] \<Rightarrow>
          if over_slack (total_tokens c) (max_tokens c) then
            let available = max_tokens c - system_tokens c in
            if available > 0 then
              let count = count_message_tokens c (msg_role m);
                  content = tail_within_tokens (msg_content m) available count
              in c\<lparr>messages := [m\<lparr>msg_content := content, msg_tokens := count content\<rparr>],
                   total_tokens := total_tokens c - msg_tokens m + count content\<rparr>
            else remove_oldest_message c
          else c
      | _ \<Rightarrow> c)"

definition evict_system :: "Context \<Rightarrow> Context" where
  "evict_system c =
     (case system_message c of
        Some m \<Rightarrow>
          if \<not> keep_system_message c \<and> total_tokens c > max_tokens c
          then c\<lparr>total_tokens := total_tokens c - msg_tokens m, system_message := None\<rparr> else c
      | None \<Rightarrow> c)"

definition truncate_to_limits :: "Context \<Rightarrow> Context" where
  "truncate_to_limits c =
     (let c = truncate_messages c in
      if max_tokens c > 0 then
        evict_system (shorten_last (drop_while_over (\<lambda>n total. total > max_tokens c \<and> n > 1) c))
      else c)"

section \<open>Operations\<close>

definition add_message :: "string \<Rightarrow> string \<Rightarrow> int \<Rightarrow> Context \<Rightarrow> Context" where
  "add_message role content token_count c =
     (let n = (if token_count = 0 then count_message_tokens c role content else token_count) in
      truncate_to_limits
        (c\<lparr>messages := messages c @ [\<lparr>msg_role = role, msg_content = content, msg_tokens = n\<rparr>],
           total_tokens := total_tokens c + n\<rparr>))"

definition add_user_message :: "string \<Rightarrow> int \<Rightarrow> Context \<Rightarrow> Context" where
  "add_user_message = add_message ''user''"

definition add_assistant_message :: "string \<Rightarrow> int \<Rightarrow> Context \<Rightarrow> Context" where
  "add_assistant_message = add_message ''assistant''"

definition set_system_message :: "string \<Rightarrow> int \<Rightarrow> Context \<Rightarrow> Context" where
  "set_system_message content token_count c =
     (let total = total_tokens c - system_tokens c;
          n = (if token_count = 0 then count_message_tokens c ''system'' content else token_count)
      in c\<lparr>system_message := Some \<lparr>msg_role = ''system'', msg_content = content, msg_tokens = n\<rparr>,
           total_tokens := total + n\<rparr>)"

definition clear :: "Context \<Rightarrow> Context" where
  "clear c =
     (if keep_system_message c then c\<lparr>messages := [], total_tokens := system_tokens c\<rparr>
      else c\<lparr>messages := [], system_message := None, total_tokens := 0\<rparr>)"

definition clear_all :: "Context \<Rightarrow> Context" where
  "clear_all c = c\<lparr>messages := [], system_message := None, total_tokens := 0\<rparr>"

definition set_max_messages :: "int \<Rightarrow> Context \<Rightarrow> Context" where
  "set_max_messages n c = truncate_to_limits (c\<lparr>max_messages := n\<rparr>)"

definition set_max_tokens :: "int \<Rightarrow> Context \<Rightarrow> Context" where
  "set_max_tokens n c = truncate_to_limits (c\<lparr>max_tokens := n\<rparr>)"

definition update_token_count :: "Context \<Rightarrow> Context" where
  "update_token_count c =
     c\<lparr>total_tokens := foldl (\<lambda>n m. n + msg_tokens m) (0 + system_tokens c) (messages c)\<rparr>"

definition recount :: "Context \<Rightarrow> Message \<Rightarrow> Message" where
  "recount c m = m\<lparr>msg_tokens := count_message_tokens c (msg_role m) (msg_content m)\<rparr>"

definition set_token_counter :: "(string \<Rightarrow> int) option \<Rightarrow> Context \<Rightarrow> Context" where
  "set_token_counter counter c =
     (let c = c\<lparr>token_counter := counter\<rparr>;
          c = c\<lparr>system_message := map_option
                 (\<lambda>m. m\<lparr>msg_tokens := count_message_tokens c ''system'' (msg_content m)\<rparr>) (system_message c),
               messages := map (recount c) (messages c)\<rparr>
      in truncate_to_limits (update_token_count c))"

section \<open>Queries and formats\<close>

definition get_last_message :: "string \<Rightarrow> Context \<Rightarrow> string option" where
  "get_last_message role c =
     map_option msg_content (find (\<lambda>m. msg_role m = role) (rev (messages c)))"

definition get_last_user_message :: "Context \<Rightarrow> string option" where
  "get_last_user_message = get_last_message ''user''"

definition get_last_assistant_message :: "Context \<Rightarrow> string option" where
  "get_last_assistant_message = get_last_message ''assistant''"

definition get_system_message :: "Context \<Rightarrow> string" where
  "get_system_message c = (case system_message c of None \<Rightarrow> [] | Some m \<Rightarrow> msg_content m)"

definition get_message_count :: "Context \<Rightarrow> int" where
  "get_message_count c = int (length (messages c))"

definition is_empty :: "Context \<Rightarrow> bool" where
  "is_empty c \<longleftrightarrow> messages c = []"

definition format_for_model :: "bool \<Rightarrow> string \<Rightarrow> Context \<Rightarrow> string" where
  "format_for_model include_system separator c =
     (case system_message c of
        Some m \<Rightarrow> if include_system then ''System: '' @ msg_content m @ separator else []
      | None \<Rightarrow> []) @
     concat (map (\<lambda>m. capitalize (msg_role m) @ '': '' @ msg_content m @ separator) (messages c))"

definition format_with_special_tokens :: "string \<Rightarrow> string \<Rightarrow> string \<Rightarrow> Context \<Rightarrow> string" where
  "format_with_special_tokens bos_token eos_token sep_token c =
     bos_token @
     (case system_message c of
        Some m \<Rightarrow> '' [SYSTEM] '' @ msg_content m @ sep_token | None \<Rightarrow> []) @
     concat (map (\<lambda>m. '' ['' @ map to_upper (msg_role m) @ ''] '' @ msg_content m @ sep_token) (messages c)) @
     '' '' @ eos_token"

definition metadata_lines :: "Context \<Rightarrow> string list" where
  "metadata_lines c =
     [''MAX_MESSAGES:'' @ int_to_string (max_messages c),
      ''MAX_TOKENS:'' @ int_to_string (max_tokens c),
      ''KEEP_SYSTEM:'' @ (if keep_system_message c then ''1'' else ''0'')]"

definition serialize :: "Context \<Rightarrow> string" where
  "serialize c =
     unlines (metadata_lines c @ [''---''] @
       (case system_message c of
          Some m \<Rightarrow> [message_line ''SYSTEM'' (msg_tokens m) (msg_content m)] | None \<Rightarrow> []) @
       map (\<lambda>m. message_line (msg_role m) (msg_tokens m) (msg_content m)) (messages c))"

definition deserialize :: "string \<Rightarrow> Context \<Rightarrow> Context option" where
  "deserialize data c =
     (let parsed = (new_context (max_messages c) (max_tokens c) (keep_system_message c))
            \<lparr>token_counter := token_counter c\<rparr>;
          lines = parse_conversation data
      in if \<not> has_separator lines then None
         else
           let parsed = (case parsed_system lines of Some s \<Rightarrow> set_system_message s 0 parsed | None \<Rightarrow> parsed);
               parsed = foldl (\<lambda>p (role, content). add_message role content 0 p) parsed (parsed_messages lines)
           in Some (c\<lparr>messages := messages parsed, system_message := system_message parsed,
                      total_tokens := total_tokens parsed\<rparr>))"

definition create_summarized :: "int \<Rightarrow> string \<Rightarrow> Context \<Rightarrow> Context" where
  "create_summarized keep_recent summary_text c =
     (let s = (new_context (max_messages c) (max_tokens c) (keep_system_message c))
            \<lparr>token_counter := token_counter c\<rparr>;
          s = (case system_message c of
                 Some m \<Rightarrow> set_system_message (msg_content m) (msg_tokens m) s | None \<Rightarrow> s);
          s = (if summary_text \<noteq> [] \<and> int (length (messages c)) > keep_recent
               then add_message ''system'' (''[Summary of earlier conversation: '' @ summary_text @ '']'')
                      (if token_counter c \<noteq> None then 0 else estimate_tokens summary_text + 10) s
               else s);
          start_idx = nat (max 0 (int (length (messages c)) - keep_recent))
      in foldl (\<lambda>s m. add_message (msg_role m) (msg_content m) (msg_tokens m) s) s
           (drop start_idx (messages c)))"

definition get_statistics :: "Context \<Rightarrow> string" where
  "get_statistics c =
     (let user_count = length (filter (\<lambda>m. msg_role m = ''user'') (messages c));
          assistant_count = length (filter (\<lambda>m. msg_role m = ''assistant'') (messages c));
          other_count = length (filter (\<lambda>m. msg_role m \<noteq> ''user'' \<and> msg_role m \<noteq> ''assistant'') (messages c))
      in unlines (
        [''Conversation Statistics:'',
         ''  Messages: '' @ nat_to_string (length (messages c)),
         ''  Total Tokens: '' @ int_to_string (total_tokens c),
         ''  System Message: '' @ (if system_message c \<noteq> None then ''Yes'' else ''No'')] @
        (if max_messages c > 0 then [''  Max Messages: '' @ int_to_string (max_messages c)] else []) @
        (if max_tokens c > 0 then [''  Max Tokens: '' @ int_to_string (max_tokens c)] else []) @
        [''  User Messages: '' @ nat_to_string user_count,
         ''  Assistant Messages: '' @ nat_to_string assistant_count] @
        (if other_count > 0 then [''  Other Messages: '' @ nat_to_string other_count] else [])))"

section \<open>The cached total\<close>

definition tokens_of :: "Message list \<Rightarrow> int" where
  "tokens_of ms = sum_list (map msg_tokens ms)"

lemma tokens_of_simps [simp]: "tokens_of [] = 0" "tokens_of (m # ms) = msg_tokens m + tokens_of ms"
    "tokens_of (ms @ ms') = tokens_of ms + tokens_of ms'"
  by (simp_all add: tokens_of_def)

lemma tokens_of_split: "tokens_of (drop k ms) = tokens_of ms - tokens_of (take k ms)"
  by (metis add_diff_cancel_left' append_take_drop_id tokens_of_simps(3))

text \<open>\<open>total_tokens\<close> is the sum of the token counts of the messages and the system message.\<close>

definition ctx_ok :: "Context \<Rightarrow> bool" where
  "ctx_ok c \<longleftrightarrow> total_tokens c = system_tokens c + tokens_of (messages c)"

lemma system_tokens_simps [simp]:
  "system_tokens (c\<lparr>messages := ms\<rparr>) = system_tokens c"
  "system_tokens (c\<lparr>total_tokens := n\<rparr>) = system_tokens c"
  "system_tokens (c\<lparr>max_messages := i\<rparr>) = system_tokens c"
  "system_tokens (c\<lparr>max_tokens := i\<rparr>) = system_tokens c"
  "system_tokens (c\<lparr>token_counter := f\<rparr>) = system_tokens c"
  "system_tokens (c\<lparr>system_message := None\<rparr>) = 0"
  "system_tokens (c\<lparr>system_message := Some m\<rparr>) = msg_tokens m"
  by (simp_all add: system_tokens_def)

lemma new_context_ok: "ctx_ok (new_context a b k)" "ctx_ok ((new_context a b k)\<lparr>token_counter := f\<rparr>)"
  by (simp_all add: ctx_ok_def new_context_def system_tokens_def)

text \<open>Every removal loop drops a prefix of the history and keeps everything else.\<close>

lemma drop_while_over_drops:
  "\<exists>k \<le> length (messages c). drop_while_over cond c =
     c\<lparr>messages := drop k (messages c), total_tokens := total_tokens c - tokens_of (take k (messages c))\<rparr>"
proof (induction cond c rule: drop_while_over.induct)
  case (1 cond c)
  show ?case
  proof (cases "messages c \<noteq> [] \<and> cond (length (messages c)) (total_tokens c)")
    case False
    then have "drop_while_over cond c = c" by (subst drop_while_over.simps) auto
    then show ?thesis by (intro exI [of _ 0]) simp
  next
    case True
    then obtain m ms where m: "messages c = m # ms" by (cases "messages c") auto
    from 1 [OF True] obtain k where "k \<le> length ms" "drop_while_over cond (remove_oldest_message c) =
        c\<lparr>messages := drop k ms, total_tokens := total_tokens c - msg_tokens m - tokens_of (take k ms)\<rparr>"
      by (auto simp: remove_oldest_message_def m)
    with True m show ?thesis
      by (intro exI [of _ "Suc k"]) (simp add: drop_while_over.simps [of cond c])
  qed
qed

lemma drop_while_over_stops:
  "messages (drop_while_over cond c) = [] \<or>
     \<not> cond (length (messages (drop_while_over cond c))) (total_tokens (drop_while_over cond c))"
proof (induction cond c rule: drop_while_over.induct)
  case (1 cond c)
  show ?case
  proof (cases "messages c \<noteq> [] \<and> cond (length (messages c)) (total_tokens c)")
    case True
    with 1 show ?thesis by (simp add: drop_while_over.simps [of cond c])
  next
    case False
    then have "drop_while_over cond c = c" by (subst drop_while_over.simps) auto
    with False show ?thesis by auto
  qed
qed

lemma drop_while_over_ok: "ctx_ok c \<Longrightarrow> ctx_ok (drop_while_over cond c)"
  using drop_while_over_drops [of c cond] by (auto simp: ctx_ok_def tokens_of_split)

lemma drop_while_over_same [simp]:
  "system_message (drop_while_over cond c) = system_message c"
  "max_messages (drop_while_over cond c) = max_messages c"
  "max_tokens (drop_while_over cond c) = max_tokens c"
  "keep_system_message (drop_while_over cond c) = keep_system_message c"
  "token_counter (drop_while_over cond c) = token_counter c"
  "system_tokens (drop_while_over cond c) = system_tokens c"
  using drop_while_over_drops [of c cond] by (auto simp: system_tokens_def)

text \<open>A loop whose condition is false for a single message never removes the newest one.\<close>

lemma drop_while_over_nonempty:
  assumes "messages c \<noteq> []" and "\<And>total. \<not> cond 1 total"
  shows "messages (drop_while_over cond c) \<noteq> []"
  using assms
proof (induction cond c rule: drop_while_over.induct)
  case (1 cond c)
  show ?case
  proof (cases "cond (length (messages c)) (total_tokens c)")
    case True
    then obtain m m' ms where "messages c = m # m' # ms"
      using 1(2,3) by (cases "messages c"; cases "List.tl (messages c)") auto
    then have "messages (remove_oldest_message c) \<noteq> []" by (simp add: remove_oldest_message_def)
    with 1 True show ?thesis by (subst drop_while_over.simps) auto
  next
    case False
    with 1(2) show ?thesis by (subst drop_while_over.simps) auto
  qed
qed

lemma drop_while_over_newest:
  assumes "messages c = ms @ [m]" and "\<And>total. \<not> cond 1 total"
  obtains ms' where "messages (drop_while_over cond c) = ms' @ [m]"
proof -
  obtain k where k: "messages (drop_while_over cond c) = drop k (ms @ [m])"
    using drop_while_over_drops [of c cond] assms(1) by auto
  moreover have "messages (drop_while_over cond c) \<noteq> []"
    using assms by (intro drop_while_over_nonempty) auto
  ultimately show thesis by (intro that [of "drop k ms"]) (cases "k \<le> length ms"; simp)
qed

lemma truncate_messages_same [simp]:
  "system_message (truncate_messages c) = system_message c"
  "max_messages (truncate_messages c) = max_messages c"
  "max_tokens (truncate_messages c) = max_tokens c"
  "keep_system_message (truncate_messages c) = keep_system_message c"
  "token_counter (truncate_messages c) = token_counter c"
  "system_tokens (truncate_messages c) = system_tokens c"
  by (simp_all add: truncate_messages_def)

lemma shorten_last_same [simp]:
  "system_message (shorten_last c) = system_message c"
  "max_messages (shorten_last c) = max_messages c"
  "max_tokens (shorten_last c) = max_tokens c"
  "keep_system_message (shorten_last c) = keep_system_message c"
  "token_counter (shorten_last c) = token_counter c"
  "length (messages (shorten_last c)) \<le> length (messages c)"
  by (auto simp: shorten_last_def Let_def remove_oldest_message_def split: list.split)

lemma shorten_last_ok: "ctx_ok c \<Longrightarrow> ctx_ok (shorten_last c)"
  by (auto simp: shorten_last_def Let_def remove_oldest_message_def ctx_ok_def split: list.split)

lemma evict_system_same [simp]:
  "messages (evict_system c) = messages c"
  "max_messages (evict_system c) = max_messages c"
  "max_tokens (evict_system c) = max_tokens c"
  "keep_system_message (evict_system c) = keep_system_message c"
  "token_counter (evict_system c) = token_counter c"
  by (auto simp: evict_system_def split: option.split)

lemma evict_system_ok: "ctx_ok c \<Longrightarrow> ctx_ok (evict_system c)"
  by (auto simp: evict_system_def ctx_ok_def system_tokens_def split: option.split)

lemma truncate_messages_ok: "ctx_ok c \<Longrightarrow> ctx_ok (truncate_messages c)"
  by (simp add: truncate_messages_def drop_while_over_ok)

lemma truncate_ok: "ctx_ok c \<Longrightarrow> ctx_ok (truncate_to_limits c)"
  by (simp add: truncate_to_limits_def Let_def truncate_messages_ok drop_while_over_ok shorten_last_ok
      evict_system_ok)

lemma truncate_same [simp]:
  "max_messages (truncate_to_limits c) = max_messages c"
  "max_tokens (truncate_to_limits c) = max_tokens c"
  "keep_system_message (truncate_to_limits c) = keep_system_message c"
  "token_counter (truncate_to_limits c) = token_counter c"
  by (simp_all add: truncate_to_limits_def Let_def)

lemma add_message_ok: "ctx_ok c \<Longrightarrow> ctx_ok (add_message role content n c)"
  unfolding add_message_def Let_def by (intro truncate_ok) (simp add: ctx_ok_def)

lemma set_system_message_ok: "ctx_ok c \<Longrightarrow> ctx_ok (set_system_message content n c)"
  by (simp add: set_system_message_def Let_def ctx_ok_def)

lemma clear_ok: "ctx_ok (clear c)" "ctx_ok (clear_all c)"
  by (simp_all add: clear_def clear_all_def ctx_ok_def)

lemma update_token_count_ok: "ctx_ok (update_token_count c)"
proof -
  have "foldl (\<lambda>n m. n + msg_tokens m) k ms = k + tokens_of ms" for k ms
    by (induction ms arbitrary: k) simp_all
  then show ?thesis by (simp add: update_token_count_def ctx_ok_def)
qed

lemma set_token_counter_ok: "ctx_ok (set_token_counter f c)"
  unfolding set_token_counter_def Let_def by (intro truncate_ok update_token_count_ok)

lemma set_max_messages_ok: "ctx_ok c \<Longrightarrow> ctx_ok (set_max_messages n c)"
  unfolding set_max_messages_def by (intro truncate_ok) (simp add: ctx_ok_def)

lemma set_max_tokens_ok: "ctx_ok c \<Longrightarrow> ctx_ok (set_max_tokens n c)"
  unfolding set_max_tokens_def by (intro truncate_ok) (simp add: ctx_ok_def)

lemma foldl_ok: "ctx_ok c \<Longrightarrow> (\<And>c x. ctx_ok c \<Longrightarrow> ctx_ok (f c x)) \<Longrightarrow> ctx_ok (foldl f c xs)"
  by (induction xs arbitrary: c) simp_all

lemma deserialize_ok: "deserialize data c = Some c' \<Longrightarrow> ctx_ok c'"
proof -
  assume d: "deserialize data c = Some c'"
  let ?l = "parse_conversation data"
  let ?p = "(new_context (max_messages c) (max_tokens c) (keep_system_message c))\<lparr>token_counter := token_counter c\<rparr>"
  let ?q = "case parsed_system ?l of Some s \<Rightarrow> set_system_message s 0 ?p | None \<Rightarrow> ?p"
  let ?r = "foldl (\<lambda>p (role, content). add_message role content 0 p) ?q (parsed_messages ?l)"
  have "ctx_ok ?q" by (auto split: option.split intro: set_system_message_ok new_context_ok)
  then have r: "ctx_ok ?r" by (rule foldl_ok) (auto intro: add_message_ok)
  have "c' = c\<lparr>messages := messages ?r, system_message := system_message ?r, total_tokens := total_tokens ?r\<rparr>"
    using d by (simp add: deserialize_def Let_def split: if_splits)
  with r show ?thesis by (simp add: ctx_ok_def system_tokens_def)
qed

lemma create_summarized_ok: "ctx_ok (create_summarized k s c)"
  unfolding create_summarized_def Let_def
  by (intro foldl_ok) (auto intro: add_message_ok set_system_message_ok new_context_ok split: option.split)

section \<open>The tail that fits\<close>

text \<open>What \<open>tail_within_tokens\<close> needs from a counter: a suffix never counts more than the whole.\<close>

locale suffix_counter =
  fixes count :: "string \<Rightarrow> int"
  assumes suffix_le: "count (drop i s) \<le> count s"
begin

lemma drop_mono: "i \<le> j \<Longrightarrow> count (drop j s) \<le> count (drop i s)"
  using suffix_le [of "j - i" "drop i s"] by simp

lemma tail_search_spec:
  assumes "lo \<le> hi" and "\<forall>i < lo. limit < count (drop i s)" and "hi = length s \<or> count (drop hi s) \<le> limit"
    and "hi \<le> length s"
  shows "tail_search s limit count lo hi \<le> length s \<and>
     (\<forall>i < tail_search s limit count lo hi. limit < count (drop i s)) \<and>
     (tail_search s limit count lo hi = length s \<or> count (drop (tail_search s limit count lo hi) s) \<le> limit)"
  using assms
proof (induction "hi - lo" arbitrary: lo hi rule: less_induct)
  case less
  show ?case
  proof (cases "lo < hi")
    case False
    then have "tail_search s limit count lo hi = lo" by (subst tail_search.simps) simp
    with False less.prems show ?thesis by auto
  next
    case True
    define mid where "mid = lo + (hi - lo) div 2"
    have mid: "lo \<le> mid" "mid < hi" using True by (auto simp: mid_def)
    show ?thesis
    proof (cases "count (drop mid s) \<le> limit")
      case fits: True
      have "tail_search s limit count lo hi = tail_search s limit count lo mid"
        using True fits by (simp add: tail_search.simps [of s limit count lo hi] mid_def Let_def)
      moreover have "mid - lo < hi - lo" using mid True by linarith
      ultimately show ?thesis using less.hyps [of mid lo] less.prems mid fits by auto
    next
      case over: False
      have "tail_search s limit count lo hi = tail_search s limit count (mid + 1) hi"
        using True over by (simp add: tail_search.simps [of s limit count lo hi] mid_def Let_def)
      moreover have "hi - (mid + 1) < hi - lo" using mid True by linarith
      moreover have "limit < count (drop i s)" if "i < mid + 1" for i
        using drop_mono [of i mid s] over that by simp
      ultimately show ?thesis using less.hyps [of hi "mid + 1"] less.prems mid by auto
    qed
  qed
qed

lemmas tail_search_range = tail_search_spec [of 0 "length s" limit s for s limit, simplified]

lemma tail_fits:
  assumes "count [] \<le> limit"
  shows "count (tail_within_tokens s limit count) \<le> limit"
proof -
  let ?t = "drop (tail_search s limit count 0 (length s)) s"
  have "count ?t \<le> limit" using tail_search_range [of s limit] assms by auto
  moreover have "dropWhile is_continuation ?t = drop (length (takeWhile is_continuation ?t)) ?t"
    by (rule dropWhile_eq_drop)
  ultimately show ?thesis unfolding tail_within_tokens_def using suffix_le [of _ ?t] by (metis order_trans)
qed

text \<open>No longer suffix that fits starts on a character boundary.\<close>

lemma tail_longest:
  assumes "count (drop i s) \<le> limit" and "i \<ge> length s \<or> \<not> is_continuation (s ! i)"
  shows "length (drop i s) \<le> length (tail_within_tokens s limit count)"
proof -
  let ?k = "tail_search s limit count 0 (length s)"
  have "?k \<le> i" using tail_search_range [of s limit] assms(1) by (meson not_le not_less)
  show ?thesis
  proof (cases "i < length s")
    case False
    then show ?thesis by simp
  next
    case True
    have "drop i s = drop (i - ?k) (drop ?k s)" using \<open>?k \<le> i\<close> by simp
    moreover have "\<not> is_continuation (drop ?k s ! (i - ?k))" and "i - ?k < length (drop ?k s)"
      using assms(2) True \<open>?k \<le> i\<close> by auto
    moreover have "length (takeWhile P xs) \<le> j" if "j < length xs" "\<not> P (xs ! j)" for P j and xs :: string
      using that by (metis nth_mem set_takeWhileD takeWhile_nth not_le)
    ultimately have "length (takeWhile is_continuation (drop ?k s)) \<le> i - ?k" by blast
    then show ?thesis
      using \<open>?k \<le> i\<close> True by (simp add: tail_within_tokens_def dropWhile_eq_drop)
  qed
qed

end

lemma estimate_tokens_suffix: "estimate_tokens (drop i s) \<le> estimate_tokens s"
proof -
  have "length (filter P (drop i s)) \<le> length (filter P s)" for P
    by (metis append_take_drop_id filter_append length_append le_add2)
  then have "int (length (filter (\<lambda>c. c = CHR '' '') (drop i s))) div 2
      \<le> int (length (filter (\<lambda>c. c = CHR '' '') s)) div 2"
    by (intro zdiv_mono1) simp_all
  moreover have "(int (length (drop i s)) + 3) div 4 \<le> (int (length s) + 3) div 4"
    by (intro zdiv_mono1) simp_all
  ultimately show ?thesis unfolding estimate_tokens_def Let_def by linarith
qed

interpretation estimate: suffix_counter estimate_tokens
  by unfold_locales (rule estimate_tokens_suffix)

lemma tail_is_suffix: "\<exists>k. tail_within_tokens s limit count = drop k s"
  by (metis tail_within_tokens_def dropWhile_eq_drop drop_drop)

section \<open>Limits\<close>

lemma truncate_messages_bound:
  "0 < max_messages c \<Longrightarrow> int (length (messages (truncate_messages c))) \<le> max_messages c"
  using drop_while_over_stops [of "\<lambda>n total. int n > max_messages c" c]
  by (auto simp: truncate_messages_def)

lemma drop_while_over_length: "length (messages (drop_while_over cond c)) \<le> length (messages c)"
  using drop_while_over_drops [of c cond] by auto

lemma truncate_message_bound:
  assumes "0 < max_messages c"
  shows "int (length (messages (truncate_to_limits c))) \<le> max_messages c"
proof -
  let ?c = "truncate_messages c"
  have b: "int (length (messages ?c)) \<le> max_messages c" using assms by (rule truncate_messages_bound)
  have "length (messages (truncate_to_limits c)) \<le> length (messages ?c)"
    by (auto simp: truncate_to_limits_def Let_def
        intro: order_trans [OF shorten_last_same(6) drop_while_over_length])
  with b show ?thesis by linarith
qed

text \<open>What the token loop leaves: a history within the budget, or at most one message.\<close>

lemma token_loop:
  assumes "d = drop_while_over (\<lambda>n total. total > limit \<and> n > 1) c"
  shows "total_tokens d \<le> limit \<or> length (messages d) \<le> 1"
  using drop_while_over_stops [of "\<lambda>n total. total > limit \<and> n > 1" c] assms by auto

lemma estimate_empty [simp]: "estimate_tokens [] = 1"
  by (simp add: estimate_tokens_def)

text \<open>With any counter the search ends at a suffix that fits, or at the empty one; skipping to a
  character boundary may cost more than it saves, when the counter is not monotone.\<close>

lemma tail_search_end:
  assumes "lo \<le> hi" and "hi = length s \<or> count (drop hi s) \<le> limit"
  shows "tail_search s limit count lo hi = length s \<or> count (drop (tail_search s limit count lo hi) s) \<le> limit"
  using assms
proof (induction "hi - lo" arbitrary: lo hi rule: less_induct)
  case less
  show ?case
  proof (cases "lo < hi")
    case False
    then have "tail_search s limit count lo hi = lo" by (subst tail_search.simps) simp
    with False less.prems show ?thesis by auto
  next
    case True
    define mid where "mid = lo + (hi - lo) div 2"
    have mid: "lo \<le> mid" "mid < hi" "mid - lo < hi - lo" "hi - (mid + 1) < hi - lo"
      using True by (auto simp: mid_def)
    then show ?thesis
      using less.hyps [of mid lo] less.hyps [of hi "mid + 1"] less.prems True
      by (simp add: tail_search.simps [of s limit count lo hi] mid_def [symmetric] Let_def)
  qed
qed

text \<open>What is left when even the lone newest message does not fit: the tail from the first character
  boundary of a suffix that does fit, or nothing, and that tail costs more than the space.\<close>

definition tail_over :: "(string \<Rightarrow> int) \<Rightarrow> int \<Rightarrow> string \<Rightarrow> string \<Rightarrow> bool" where
  "tail_over count space s t \<longleftrightarrow>
     space < count t \<and>
     (t = [] \<or> (\<exists>k. count (drop k s) \<le> space \<and> is_continuation (hd (drop k s)) \<and>
        t = dropWhile is_continuation (drop k s)))"

lemma tail_fits_or_over:
  fixes s :: string and count :: "string \<Rightarrow> int" and space :: int
  defines "t \<equiv> tail_within_tokens s space count"
  shows "count t \<le> space \<or> tail_over count space s t"
proof -
  define k where "k = tail_search s space count 0 (length s)"
  have t: "t = dropWhile is_continuation (drop k s)" by (simp add: t_def tail_within_tokens_def k_def)
  from tail_search_end [of 0 "length s" s count space]
  have k: "k = length s \<or> count (drop k s) \<le> space" by (simp add: k_def)
  show ?thesis
  proof (cases "k = length s")
    case True
    then show ?thesis by (auto simp: t tail_over_def)
  next
    case False
    with k have fits: "count (drop k s) \<le> space" by simp
    show ?thesis
    proof (cases "drop k s = [] \<or> \<not> is_continuation (hd (drop k s))")
      case True
      then have "t = drop k s" unfolding t by (cases "drop k s") auto
      with fits show ?thesis by simp
    next
      case False
      then show ?thesis using fits t by (auto simp: tail_over_def)
    qed
  qed
qed

lemma tail_over_monotone:
  assumes "suffix_counter count" and "count [] \<le> space"
  shows "\<not> tail_over count space s t"
proof -
  have "count (dropWhile is_continuation u) \<le> count u" for u
    using suffix_counter.suffix_le [OF assms(1)] by (simp add: dropWhile_eq_drop)
  from this [of "drop k s" for k] show ?thesis using assms(2)
    by (auto simp: tail_over_def not_less intro: order_trans)
qed

lemma shorten_last_bound:
  assumes "ctx_ok c" and "0 < max_tokens c"
    and "total_tokens c \<le> max_tokens c \<or> length (messages c) \<le> 1"
  shows "5 * total_tokens (shorten_last c) \<le> 6 * max_tokens c \<or>
     messages (shorten_last c) = [] \<and> total_tokens (shorten_last c) = system_tokens c \<or>
     (\<exists>m t. messages c = [m] \<and> 0 < max_tokens c - system_tokens c \<and>
        messages (shorten_last c) =
          [m\<lparr>msg_content := t, msg_tokens := count_message_tokens c (msg_role m) t\<rparr>] \<and>
        tail_over (count_message_tokens c (msg_role m)) (max_tokens c - system_tokens c) (msg_content m) t)"
    (is "?fits \<or> ?alone \<or> ?over")
proof (cases "messages c")
  case Nil
  then show ?thesis using assms(1) by (simp add: shorten_last_def ctx_ok_def)
next
  case (Cons m ms)
  show ?thesis
  proof (cases ms)
    case Nil
    let ?a = "max_tokens c - system_tokens c"
    let ?count = "count_message_tokens c (msg_role m)"
    let ?t = "tail_within_tokens (msg_content m) ?a ?count"
    show ?thesis
    proof (cases "over_slack (total_tokens c) (max_tokens c) \<and> ?a > 0")
      case True
      then have short: "total_tokens (shorten_last c) = system_tokens c + ?count ?t"
          "messages (shorten_last c) = [m\<lparr>msg_content := ?t, msg_tokens := ?count ?t\<rparr>]"
        using assms(1) Cons Nil by (simp_all add: shorten_last_def Let_def ctx_ok_def)
      from tail_fits_or_over [of ?count "msg_content m" ?a] show ?thesis
      proof
        assume "?count ?t \<le> ?a"
        then show ?thesis using short(1) assms(2) by simp
      next
        assume "tail_over ?count ?a (msg_content m) ?t"
        with short(2) Cons Nil True have ?over by blast
        then show ?thesis by blast
      qed
    next
      case False
      then show ?thesis using assms(1) Cons Nil
        by (auto simp: shorten_last_def over_slack_def remove_oldest_message_def ctx_ok_def)
    qed
  next
    case (Cons m' ms')
    then show ?thesis using assms(2,3) \<open>messages c = m # ms\<close> by (simp add: shorten_last_def)
  qed
qed

text \<open>
  The budget with any counter: at most 1.2 times \<open>max_tokens\<close>, or a system message kept by
  \<open>keep_system_message\<close> alone, or the newest message alone, cut to a tail that still does not fit.
\<close>

definition within_slack :: "Context \<Rightarrow> bool" where
  "within_slack c \<longleftrightarrow> 5 * total_tokens c \<le> 6 * max_tokens c"

definition system_alone :: "Context \<Rightarrow> bool" where
  "system_alone c \<longleftrightarrow> keep_system_message c \<and> messages c = [] \<and> total_tokens c = system_tokens c"

lemma truncate_token_bound:
  assumes "ctx_ok c" and "0 < max_tokens c" and "0 \<le> system_tokens c"
  defines "c' \<equiv> truncate_to_limits c" and "space \<equiv> max_tokens c - system_tokens c"
  shows "within_slack c' \<or> system_alone c' \<or>
     (\<exists>ms m t. messages c = ms @ [m] \<and> 0 < space \<and>
        messages c' = [m\<lparr>msg_content := t, msg_tokens := count_message_tokens c (msg_role m) t\<rparr>] \<and>
        tail_over (count_message_tokens c (msg_role m)) space (msg_content m) t)"
proof -
  let ?c = "truncate_messages c"
  define d where "d = drop_while_over (\<lambda>n total. total > max_tokens ?c \<and> n > 1) ?c"
  have c': "c' = evict_system (shorten_last d)"
    using assms(2) by (simp add: c'_def truncate_to_limits_def Let_def d_def)
  have d: "ctx_ok d" "token_counter d = token_counter c" "max_tokens d = max_tokens c"
    "system_tokens d = system_tokens c" "keep_system_message d = keep_system_message c"
    "system_message d = system_message c"
    using assms(1) by (auto simp: d_def intro: drop_while_over_ok truncate_messages_ok)
  have newest: "\<exists>ms. messages c = ms @ [m]" if "messages d = [m]" for m
  proof -
    have drops: "\<exists>j. messages (drop_while_over cond b) = drop j (messages b)" for cond b
      using drop_while_over_drops [of b cond] by auto
    have "\<exists>j. messages ?c = drop j (messages c)"
      using drops [of _ c] by (metis drop_0 truncate_messages_def)
    then obtain j where "messages ?c = drop j (messages c)" by blast
    moreover obtain k where "messages d = drop k (messages ?c)" using drops [of _ ?c] unfolding d_def by blast
    ultimately have "[m] = drop (k + j) (messages c)" using that by simp
    then show ?thesis by (metis append_take_drop_id)
  qed
  have count: "count_message_tokens d = count_message_tokens c" using d(2) by (simp add: count_message_tokens_def)
  from shorten_last_bound [OF d(1), folded d(3)]
  have "5 * total_tokens (shorten_last d) \<le> 6 * max_tokens c \<or>
      messages (shorten_last d) = [] \<and> total_tokens (shorten_last d) = system_tokens c \<or>
     (\<exists>m t. messages d = [m] \<and> 0 < space \<and>
        messages (shorten_last d) = [m\<lparr>msg_content := t, msg_tokens := count_message_tokens c (msg_role m) t\<rparr>] \<and>
        tail_over (count_message_tokens c (msg_role m)) space (msg_content m) t)"
    using assms(2) token_loop [OF d_def] d(3,4) by (simp add: space_def count)
  then show ?thesis
  proof (elim disjE)
    assume "\<exists>m t. messages d = [m] \<and> 0 < space \<and>
        messages (shorten_last d) = [m\<lparr>msg_content := t, msg_tokens := count_message_tokens c (msg_role m) t\<rparr>] \<and>
        tail_over (count_message_tokens c (msg_role m)) space (msg_content m) t"
    with newest show ?thesis by (auto simp: c')
  qed (use d assms(2,3) in \<open>auto simp: c' evict_system_def system_tokens_def within_slack_def system_alone_def
        split: option.splits\<close>)
qed

text \<open>With the built-in estimate the last case cannot happen.\<close>

lemma truncate_estimate_bound:
  assumes "ctx_ok c" and "token_counter c = None" and "0 < max_tokens c" and "0 \<le> system_tokens c"
  shows "within_slack (truncate_to_limits c) \<or> system_alone (truncate_to_limits c)"
proof -
  have "count_message_tokens c role = estimate_tokens" for role
    using assms(2) by (simp add: count_message_tokens_def)
  with truncate_token_bound [OF assms(1,3,4)] tail_over_monotone [OF estimate.suffix_counter_axioms]
  show ?thesis by fastforce
qed

text \<open>The newest message survives, whole or as a suffix, when the system message leaves it any space.\<close>

lemma truncate_keeps_newest:
  assumes "messages c = ms @ [m]" and "0 < max_tokens c \<longrightarrow> system_tokens c < max_tokens c"
  obtains ms' k n where "messages (truncate_to_limits c) =
     ms' @ [m\<lparr>msg_content := drop k (msg_content m), msg_tokens := n\<rparr>]"
proof -
  let ?c = "truncate_messages c"
  obtain ms1 where c1: "messages ?c = ms1 @ [m]"
  proof (cases "0 < max_messages c")
    case True
    then have "\<not> int 1 > max_messages c" by simp
    then show thesis
      using drop_while_over_newest [OF assms(1), of "\<lambda>n total. int n > max_messages c"] True that
      by (auto simp: truncate_messages_def)
  qed (use assms(1) that in \<open>simp add: truncate_messages_def\<close>)
  define d where "d = drop_while_over (\<lambda>n total. total > max_tokens ?c \<and> n > 1) ?c"
  obtain ms2 where d: "messages d = ms2 @ [m]"
    using drop_while_over_newest [OF c1, of "\<lambda>n total. total > max_tokens ?c \<and> n > 1"]
    unfolding d_def by auto
  have same: "m = m\<lparr>msg_content := drop 0 (msg_content m), msg_tokens := msg_tokens m\<rparr>" by simp
  show thesis
  proof (cases "0 < max_tokens c")
    case False
    then have "truncate_to_limits c = ?c" by (simp add: truncate_to_limits_def Let_def)
    with c1 same show thesis by (metis that)
  next
    case True
    then have res: "messages (truncate_to_limits c) = messages (shorten_last d)"
      by (simp add: truncate_to_limits_def Let_def d_def)
    have avail: "system_tokens d < max_tokens d" using assms(2) True by (simp add: d_def)
    show thesis
    proof (cases "ms2 = [] \<and> over_slack (total_tokens d) (max_tokens d)")
      case True
      let ?count = "count_message_tokens d (msg_role m)"
      obtain k where "tail_within_tokens (msg_content m) (max_tokens d - system_tokens d) ?count = drop k (msg_content m)"
        using tail_is_suffix by blast
      with True avail d res that [of "[]"] show thesis by (auto simp: shorten_last_def Let_def)
    next
      case False
      then have "messages (shorten_last d) = ms2 @ [m]"
        using d by (auto simp: shorten_last_def split: list.split)
      with res same show thesis by (metis that)
    qed
  qed
qed

section \<open>Saving and restoring\<close>

definition roles_ok :: "Context \<Rightarrow> bool" where
  "roles_ok c \<longleftrightarrow> list_all (\<lambda>m. plain_role (msg_role m) \<and> msg_role m \<noteq> ''SYSTEM'') (messages c)"

lemma metadata_lines_plain: "list_all (\<lambda>l. NL \<notin> set l) (metadata_lines c)" "''---'' \<notin> set (metadata_lines c)"
  using int_to_string_no_pipe(2) by (auto simp: metadata_lines_def NL_def)

lemma parse_serialize:
  assumes "roles_ok c"
  shows "parse_conversation (serialize c) =
     \<lparr>has_separator = True, parsed_system = map_option msg_content (system_message c),
      parsed_messages = map (\<lambda>m. (msg_role m, msg_content m)) (messages c)\<rparr>"
proof -
  let ?sys = "case system_message c of
      Some m \<Rightarrow> [message_line ''SYSTEM'' (msg_tokens m) (msg_content m)] | None \<Rightarrow> []"
  let ?ms = "map (\<lambda>m. message_line (msg_role m) (msg_tokens m) (msg_content m)) (messages c)"
  have sys_role: "plain_role ''SYSTEM''" by (simp add: plain_role_def NL_def)
  have "list_all (\<lambda>l. NL \<notin> set l) (metadata_lines c @ [''---''] @ ?sys @ ?ms)"
    using assms metadata_lines_plain(1) [of c] message_line_no_NL sys_role
    by (auto simp: roles_ok_def list_all_iff split: option.split) (simp add: NL_def)
  from getlines_unlines [OF this, of "[]"]
  have lines: "getlines (serialize c) = metadata_lines c @ [''---''] @ ?sys @ ?ms"
    by (simp add: serialize_def)
  let ?p = "Parsed0\<lparr>has_separator := True\<rparr>"
  have "foldl parse_line Parsed0 (metadata_lines c) = Parsed0"
    using metadata_lines_plain(2) by (intro parse_metadata) (simp_all add: Parsed0_def)
  moreover have "foldl parse_line ?p ?sys = ?p\<lparr>parsed_system := map_option msg_content (system_message c)\<rparr>"
    using sys_role by (auto simp: parse_message_line Parsed0_def split: option.split)
  moreover have "foldl parse_line q ?ms =
      q\<lparr>parsed_messages := parsed_messages q @ map (\<lambda>m. (msg_role m, msg_content m)) (messages c)\<rparr>"
    if "has_separator q" for q
    using parse_message_lines [of "map (\<lambda>m. (msg_role m, msg_tokens m, msg_content m)) (messages c)" q]
      assms that by (simp add: roles_ok_def list_all_iff comp_def)
  ultimately show ?thesis
    by (simp add: parse_conversation_def lines parse_line_def Parsed0_def)
qed

text \<open>Within the limits nothing is truncated.\<close>

lemma drop_while_over_id:
  "\<not> cond (length (messages c)) (total_tokens c) \<Longrightarrow> drop_while_over cond c = c"
  by (subst drop_while_over.simps) auto

lemma truncate_id:
  assumes "max_messages c \<le> 0 \<or> int (length (messages c)) \<le> max_messages c"
    and "max_tokens c \<le> 0 \<or> total_tokens c \<le> max_tokens c"
  shows "truncate_to_limits c = c"
proof -
  have t: "truncate_messages c = c" using assms(1) by (auto simp: truncate_messages_def intro: drop_while_over_id)
  show ?thesis
  proof (cases "0 < max_tokens c")
    case True
    then have le: "total_tokens c \<le> max_tokens c" using assms(2) by simp
    then have "drop_while_over (\<lambda>n total. total > max_tokens c \<and> n > 1) c = c"
      by (intro drop_while_over_id) simp
    moreover have "\<not> over_slack (total_tokens c) (max_tokens c)" using le True by (simp add: over_slack_def)
    then have "shorten_last c = c" by (auto simp: shorten_last_def split: list.split)
    moreover have "evict_system c = c" using le by (auto simp: evict_system_def split: option.split)
    ultimately show ?thesis by (simp add: truncate_to_limits_def t)
  qed (simp add: truncate_to_limits_def t)
qed

definition message_of :: "Context \<Rightarrow> string \<times> string \<Rightarrow> Message" where
  "message_of c x = (case x of (role, content) \<Rightarrow>
     \<lparr>msg_role = role, msg_content = content, msg_tokens = count_message_tokens c role content\<rparr>)"

lemma count_positive: "1 \<le> count_message_tokens c role content"
proof -
  have "0 \<le> int k div 2" for k by simp
  then show ?thesis
    by (auto simp: count_message_tokens_def count_with_def estimate_tokens_def Let_def
        intro: add_increasing2 split: option.split)
qed

lemma add_messages_within:
  assumes "max_messages c \<le> 0 \<or> int (length (messages c) + length xs) \<le> max_messages c"
    and "max_tokens c \<le> 0 \<or> total_tokens c + tokens_of (map (message_of c) xs) \<le> max_tokens c"
  shows "foldl (\<lambda>p (role, content). add_message role content 0 p) c xs =
     c\<lparr>messages := messages c @ map (message_of c) xs,
       total_tokens := total_tokens c + tokens_of (map (message_of c) xs)\<rparr>"
  using assms
proof (induction xs arbitrary: c)
  case (Cons x xs)
  obtain role content where x: "x = (role, content)" by (cases x)
  let ?m = "message_of c x"
  let ?c = "c\<lparr>messages := messages c @ [?m], total_tokens := total_tokens c + msg_tokens ?m\<rparr>"
  have m: "message_of ?c = message_of c" by (simp add: message_of_def count_message_tokens_def fun_eq_iff)
  have "0 \<le> msg_tokens (message_of c y)" for y
    using count_positive [of c "fst y" "snd y"] by (simp add: message_of_def case_prod_beta)
  then have nonneg: "0 \<le> tokens_of (map (message_of c) ys)" for ys
    by (induction ys) (simp_all add: add_nonneg_nonneg)
  have "add_message role content 0 c = truncate_to_limits ?c"
    by (simp add: add_message_def x message_of_def Let_def)
  also have "\<dots> = ?c" using Cons.prems nonneg [of xs] by (intro truncate_id) auto
  finally have "add_message role content 0 c = ?c" .
  then show ?case using Cons.IH [of ?c] Cons.prems m by (simp add: x add.assoc)
qed (simp add: tokens_of_def)

lemma restore_serialized:
  assumes roles: "roles_ok c"
    and fit: "max_messages d \<le> 0 \<or> int (length (messages c)) \<le> max_messages d"
    and sys: "s = map_option (\<lambda>m. \<lparr>msg_role = ''system'', msg_content = msg_content m,
        msg_tokens = count_message_tokens d ''system'' (msg_content m)\<rparr>) (system_message c)"
    and ms: "ms = map (\<lambda>m. message_of d (msg_role m, msg_content m)) (messages c)"
    and total: "n = (case s of None \<Rightarrow> 0 | Some m \<Rightarrow> msg_tokens m) + tokens_of ms"
    and budget: "max_tokens d \<le> 0 \<or> n \<le> max_tokens d"
  shows "deserialize (serialize c) d = Some (d\<lparr>messages := ms, system_message := s, total_tokens := n\<rparr>)"
proof -
  let ?p = "(new_context (max_messages d) (max_tokens d) (keep_system_message d))\<lparr>token_counter := token_counter d\<rparr>"
  define q where "q = (case map_option msg_content (system_message c) of
      Some s \<Rightarrow> set_system_message s 0 ?p | None \<Rightarrow> ?p)"
  have q: "messages q = []" "system_message q = s" "total_tokens q = system_tokens q"
    "max_messages q = max_messages d" "max_tokens q = max_tokens d" "token_counter q = token_counter d"
    by (auto simp: q_def sys set_system_message_def Let_def new_context_def system_tokens_def
        count_message_tokens_def split: option.split)
  have m: "message_of q = message_of d" by (simp add: message_of_def count_message_tokens_def q fun_eq_iff)
  let ?xs = "map (\<lambda>m. (msg_role m, msg_content m)) (messages c)"
  have ms': "map (message_of q) ?xs = ms" by (simp add: m ms)
  have n: "total_tokens q + tokens_of ms = n" by (simp add: q total system_tokens_def)
  have "foldl (\<lambda>p (role, content). add_message role content 0 p) q ?xs = q\<lparr>messages := ms, total_tokens := n\<rparr>"
    using add_messages_within [of q ?xs, unfolded ms' n] fit budget by (simp add: q(1,4,5))
  moreover have "deserialize (serialize c) d =
      (let r = foldl (\<lambda>p (role, content). add_message role content 0 p) q ?xs in
       Some (d\<lparr>messages := messages r, system_message := system_message r, total_tokens := total_tokens r\<rparr>))"
    unfolding q_def by (simp add: deserialize_def Let_def parse_serialize [OF roles])
  ultimately show ?thesis by (simp add: Let_def q(2))
qed

end
