(* ===== verification/Conversation_Properties.thy ===== *)
theory Conversation_Properties
  imports Conversation_Context
begin

text \<open>
  What a conversation context promises across its operations (\<open>src/src/ConversationContext.cpp\<close> and
  \<open>src/src/ConversationFormat.cpp\<close>): the cached total, the limits, and saving and restoring.
\<close>

section \<open>The line format\<close>

text \<open>C35: any content, line breaks and backslashes included, survives being written as one line and
  read back, and the written line holds no line break.\<close>

theorem escaped_line_round_trip:
  "unescape_line (escape_line content) = content \<and> NL \<notin> set (escape_line content) \<and> CR \<notin> set (escape_line content)"
proof -
  have "NL \<notin> set (escape_line content) \<and> CR \<notin> set (escape_line content)"
    by (induction content) (auto simp: NL_def CR_def BSLASH_def)
  then show ?thesis by (simp add: unescape_escape)
qed

section \<open>The cached total\<close>

datatype context_op =
    AddMessage string string int | SetSystem string int | Clear | ClearAll | SetMaxMessages int | SetMaxTokens int
  | SetCounter "(string \<Rightarrow> int) option" | Deserialize string | Summarize int string

fun apply_op :: "context_op \<Rightarrow> Context \<Rightarrow> Context" where
  "apply_op (AddMessage role content n) c = add_message role content n c"
| "apply_op (SetSystem content n) c = set_system_message content n c"
| "apply_op Clear c = clear c"
| "apply_op ClearAll c = clear_all c"
| "apply_op (SetMaxMessages n) c = set_max_messages n c"
| "apply_op (SetMaxTokens n) c = set_max_tokens n c"
| "apply_op (SetCounter f) c = set_token_counter f c"
| "apply_op (Deserialize data) c = (case deserialize data c of None \<Rightarrow> c | Some c' \<Rightarrow> c')"
| "apply_op (Summarize n summary) c = create_summarized n summary c"

text \<open>C36: after any sequence of operations on a new context, failed imports included, \<open>total_tokens\<close>
  is the sum of the token counts of the system message and of all messages.\<close>

theorem total_tokens_exact:
  "ctx_ok (fold apply_op ops (new_context message_limit token_limit keep))"
proof -
  have step: "ctx_ok c \<Longrightarrow> ctx_ok (apply_op x c)" for c x
    by (cases x)
      (auto intro: add_message_ok set_system_message_ok clear_ok set_max_messages_ok set_max_tokens_ok
        set_token_counter_ok deserialize_ok create_summarized_ok split: option.split)
  have "ctx_ok c \<Longrightarrow> ctx_ok (fold apply_op ops c)" for c
    by (induction ops arbitrary: c) (simp_all add: step)
  then show ?thesis by (simp add: new_context_ok)
qed

section \<open>The limits\<close>

text \<open>With a message limit, truncation leaves at most that many messages.\<close>

theorem message_limit_kept:
  assumes "0 < max_messages c"
  shows "int (length (messages (add_message role content n c))) \<le> max_messages c"
proof -
  let ?d = "c\<lparr>messages := messages c @ [\<lparr>msg_role = role, msg_content = content, msg_tokens =
      (if n = 0 then count_message_tokens c role content else n)\<rparr>],
    total_tokens := total_tokens c + (if n = 0 then count_message_tokens c role content else n)\<rparr>"
  have "add_message role content n c = truncate_to_limits ?d" by (simp add: add_message_def Let_def)
  with truncate_message_bound [of ?d] assms show ?thesis by simp
qed

definition small_context :: Context where
  "small_context = add_message ''user'' ''hello'' 0 (new_context 1 4 True)"

theorem message_limit_kept_witness:
  "length (messages (add_message ''assistant'' ''hi'' 0 small_context)) \<le> 1"
proof -
  have "max_messages small_context = 1" by (simp add: small_context_def add_message_def new_context_def Let_def)
  then show ?thesis using message_limit_kept [of small_context] by simp
qed

text \<open>C3: with a positive token limit and a system message counted at no less than zero, truncation
  brings an exact total to at most 1.2 times the limit, with two exceptions: a system message that must
  be kept stands alone above it; or the caller's token counter charges even the tail of the newest
  message that the code keeps, or the empty one, more than the space the system message leaves, and
  that tail is the only message left. With the built-in estimate the second never happens.\<close>

theorem token_limit_kept:
  assumes "ctx_ok c" and "0 < max_tokens c" and "0 \<le> system_tokens c"
  shows "(within_slack (truncate_to_limits c) \<or> system_alone (truncate_to_limits c) \<or>
      (\<exists>ms m t. messages c = ms @ [m] \<and> 0 < max_tokens c - system_tokens c \<and>
         messages (truncate_to_limits c) =
           [m\<lparr>msg_content := t, msg_tokens := count_message_tokens c (msg_role m) t\<rparr>] \<and>
         tail_over (count_message_tokens c (msg_role m)) (max_tokens c - system_tokens c) (msg_content m) t)) \<and>
    (token_counter c = None \<longrightarrow> within_slack (truncate_to_limits c) \<or> system_alone (truncate_to_limits c))"
  using truncate_token_bound [OF assms] truncate_estimate_bound [OF assms(1) _ assms(2,3)] by blast

theorem token_limit_kept_witness:
  "within_slack (truncate_to_limits ((new_context 0 2 False)\<lparr>messages :=
     [\<lparr>msg_role = ''user'', msg_content = ''a long first message'', msg_tokens = 9\<rparr>], total_tokens := 9\<rparr>))"
  using token_limit_kept [of "(new_context 0 2 False)\<lparr>messages :=
     [\<lparr>msg_role = ''user'', msg_content = ''a long first message'', msg_tokens = 9\<rparr>], total_tokens := 9\<rparr>"]
  by (simp add: new_context_def ctx_ok_def system_tokens_def system_alone_def)

text \<open>The second exception happens: a counter that charges five tokens for any message leaves the empty
  message of a budget of two.\<close>

lemma fixed_cost_over_budget:
  defines "c \<equiv> (new_context 0 2 False)\<lparr>token_counter := Some (\<lambda>s. 5), messages :=
     [\<lparr>msg_role = ''user'', msg_content = ''hi'', msg_tokens = 5\<rparr>], total_tokens := 5\<rparr>"
  shows "messages (truncate_to_limits c) = [\<lparr>msg_role = ''user'', msg_content = [], msg_tokens = 5\<rparr>]
    \<and> \<not> within_slack (truncate_to_limits c)"
  by (simp add: c_def new_context_def truncate_to_limits_def truncate_messages_def drop_while_over.simps
      shorten_last_def evict_system_def over_slack_def system_tokens_def count_message_tokens_def count_with_def
      tail_within_tokens_def tail_search.simps within_slack_def Let_def)

text \<open>Truncation never evicts the newest message while the system message leaves it any space: it
  stays last, whole or cut to a suffix of its content.\<close>

theorem newest_message_kept:
  assumes "messages c = ms @ [m]" and "0 < max_tokens c \<longrightarrow> system_tokens c < max_tokens c"
  shows "\<exists>ms' k n. messages (truncate_to_limits c) =
     ms' @ [m\<lparr>msg_content := drop k (msg_content m), msg_tokens := n\<rparr>]"
  using truncate_keeps_newest [OF assms] by metis

theorem newest_message_kept_witness:
  "messages (truncate_to_limits ((new_context 1 2 True)\<lparr>messages :=
     [\<lparr>msg_role = ''user'', msg_content = ''a'', msg_tokens = 1\<rparr>,
      \<lparr>msg_role = ''user'', msg_content = ''bcd'', msg_tokens = 9\<rparr>], total_tokens := 10\<rparr>)) \<noteq> []"
  using newest_message_kept [of "(new_context 1 2 True)\<lparr>messages :=
     [\<lparr>msg_role = ''user'', msg_content = ''a'', msg_tokens = 1\<rparr>,
      \<lparr>msg_role = ''user'', msg_content = ''bcd'', msg_tokens = 9\<rparr>], total_tokens := 10\<rparr>"
      "[\<lparr>msg_role = ''user'', msg_content = ''a'', msg_tokens = 1\<rparr>]"]
  by (auto simp: new_context_def system_tokens_def)

text \<open>The kept tail is a suffix that fits the estimate, starts on a character boundary, and no
  longer suffix starting on a boundary fits.\<close>

theorem tail_is_longest_fit:
  assumes "1 \<le> limit"
  shows "estimate_tokens (tail_within_tokens s limit estimate_tokens) \<le> limit \<and>
    (\<exists>k. tail_within_tokens s limit estimate_tokens = drop k s) \<and>
    (\<forall>i. estimate_tokens (drop i s) \<le> limit \<and> (i \<ge> length s \<or> \<not> is_continuation (s ! i)) \<longrightarrow>
       length (drop i s) \<le> length (tail_within_tokens s limit estimate_tokens))"
  using assms tail_is_suffix estimate.tail_fits estimate.tail_longest by simp

theorem tail_is_longest_fit_witness:
  "length (drop 4 ''abcdefgh'') \<le> length (tail_within_tokens ''abcdefgh'' 1 estimate_tokens)"
proof -
  have "estimate_tokens (drop 4 ''abcdefgh'') \<le> 1" "\<not> is_continuation (''abcdefgh'' ! 4)" by code_simp+
  with tail_is_longest_fit [of 1 "''abcdefgh''"] show ?thesis by blast
qed

section \<open>Saving and restoring\<close>

text \<open>C37: what a context writes, another context within whose limits it fits reads back: the same
  system message and the same messages in order, with token counts recomputed by its own counter. The
  contents may be any text; the roles, which are written unescaped (TD-295), must hold no \<open>|\<close> and no
  line break, and no message may have the role \<open>SYSTEM\<close>.\<close>

theorem serialize_round_trip:
  assumes "roles_ok c"
    and "max_messages d \<le> 0 \<or> int (length (messages c)) \<le> max_messages d"
    and "s = map_option (\<lambda>m. \<lparr>msg_role = ''system'', msg_content = msg_content m,
        msg_tokens = count_message_tokens d ''system'' (msg_content m)\<rparr>) (system_message c)"
    and "ms = map (\<lambda>m. message_of d (msg_role m, msg_content m)) (messages c)"
    and "n = (case s of None \<Rightarrow> 0 | Some m \<Rightarrow> msg_tokens m) + tokens_of ms"
    and "max_tokens d \<le> 0 \<or> n \<le> max_tokens d"
  shows "deserialize (serialize c) d = Some (d\<lparr>messages := ms, system_message := s, total_tokens := n\<rparr>)"
  using assms by (rule restore_serialized)

theorem serialize_round_trip_witness:
  "deserialize (serialize ((new_context 0 0 True)\<lparr>messages :=
      [\<lparr>msg_role = ''user'', msg_content = [CHR ''a'', NL, CHR ''b''], msg_tokens = 1\<rparr>]\<rparr>)) (new_context 5 0 True) =
    Some ((new_context 5 0 True)\<lparr>messages :=
      [\<lparr>msg_role = ''user'', msg_content = [CHR ''a'', NL, CHR ''b''], msg_tokens = 1\<rparr>], total_tokens := 1\<rparr>)"
proof -
  have e: "estimate_tokens [CHR ''a'', CHR 0x0A, CHR ''b''] = 1" by code_simp
  show ?thesis
    using serialize_round_trip [of "(new_context 0 0 True)\<lparr>messages :=
      [\<lparr>msg_role = ''user'', msg_content = [CHR ''a'', NL, CHR ''b''], msg_tokens = 1\<rparr>]\<rparr>"
      "new_context 5 0 True", OF _ _ refl refl refl]
    by (simp add: new_context_def roles_ok_def plain_role_def message_of_def count_message_tokens_def
        count_with_def e NL_def)
qed

text \<open>Importing text that has no \<open>---\<close> line is refused, and nothing else is.\<close>

theorem import_refused_iff:
  "deserialize data c = None \<longleftrightarrow> ''---'' \<notin> set (getlines data)"
  using has_separator_iff [of Parsed0 "getlines data"]
  by (auto simp: deserialize_def parse_conversation_def Parsed0_def Let_def split: option.split)

end
