(* ===== verification/Trainer_Control.thy ===== *)
theory Trainer_Control
  imports Text_Lib
begin

text \<open>
  \<open>src/src/TrainerControlState.hpp\<close>: the state a training pass shares with its admin HTTP threads.

  Three parts. The phase machine: \<open>set_phase\<close>, \<open>request_pause\<close> and \<open>clear_pause\<close> run under
  \<open>phase_mutex_\<close>, so each is one step; the signal handler's plain store to \<open>paused\<close> may land inside
  one of them, which leaves the same state as landing before or after it. The checkpoint tickets:
  every atomic operation is a step of its own, so the admin threads and the pass interleave freely.
  The log ring: the whole body runs under \<open>log_mutex_\<close>.
\<close>

section \<open>Phases\<close>

datatype TrainerPhase = Idle | LoadingData | Tokenizing | Training | Checkpointing | Pausing

fun phase_to_string :: "TrainerPhase \<Rightarrow> string" where
  "phase_to_string Idle = ''idle''"
| "phase_to_string LoadingData = ''loading_data''"
| "phase_to_string Tokenizing = ''tokenizing''"
| "phase_to_string Training = ''training''"
| "phase_to_string Checkpointing = ''checkpointing''"
| "phase_to_string Pausing = ''pausing''"

definition is_working :: "TrainerPhase \<Rightarrow> bool" where
  "is_working p \<longleftrightarrow> p = LoadingData \<or> p = Tokenizing \<or> p = Training"

record phase_state =
  phase :: TrainerPhase
  paused :: bool
  phase_before_pause :: TrainerPhase

definition phase_state0 :: phase_state where
  "phase_state0 = \<lparr>phase = Idle, paused = False, phase_before_pause = Idle\<rparr>"

definition set_phase :: "TrainerPhase \<Rightarrow> phase_state \<Rightarrow> phase_state" where
  "set_phase p s =
     (if paused s \<and> is_working p then s\<lparr>phase_before_pause := p, phase := Pausing\<rparr>
      else s\<lparr>phase := p\<rparr>)"

definition request_pause :: "phase_state \<Rightarrow> phase_state" where
  "request_pause s =
     (let s = s\<lparr>paused := True\<rparr>; current = phase s in
      if is_working current then s\<lparr>phase_before_pause := current, phase := Pausing\<rparr> else s)"

definition clear_pause :: "phase_state \<Rightarrow> phase_state" where
  "clear_pause s =
     (let s = s\<lparr>paused := False\<rparr> in
      if phase s = Pausing then s\<lparr>phase := phase_before_pause s\<rparr> else s)"

text \<open>incremental_trainer's signal handler: \<open>paused.store(true)\<close> and nothing else.\<close>

definition signal_stop :: "phase_state \<Rightarrow> phase_state" where
  "signal_stop s = s\<lparr>paused := True\<rparr>"

text \<open>
  \<open>TrainerPhaseResetOnThrow\<close>: leaving the scope, with or without an exception in flight.
\<close>

definition phase_reset_on_throw :: "bool \<Rightarrow> phase_state \<Rightarrow> phase_state" where
  "phase_reset_on_throw by_exception s = (if by_exception then set_phase Idle s else s)"

datatype phase_event = SetPhase TrainerPhase | RequestPause | ClearPause | Signal

fun phase_step :: "phase_event \<Rightarrow> phase_state \<Rightarrow> phase_state" where
  "phase_step (SetPhase p) s = set_phase p s"
| "phase_step RequestPause s = request_pause s"
| "phase_step ClearPause s = clear_pause s"
| "phase_step Signal s = signal_stop s"

definition phase_run :: "phase_event list \<Rightarrow> phase_state" where
  "phase_run es = foldl (\<lambda>s e. phase_step e s) phase_state0 es"

text \<open>The phase the pass itself is in: the last one it set. The pass never sets \<open>Pausing\<close>.\<close>

fun pass_phase :: "phase_event \<Rightarrow> TrainerPhase \<Rightarrow> TrainerPhase" where
  "pass_phase (SetPhase p) q = p"
| "pass_phase e q = q"

definition last_set :: "phase_event list \<Rightarrow> TrainerPhase" where
  "last_set es = foldl (\<lambda>q e. pass_phase e q) Idle es"

definition pass_event :: "phase_event \<Rightarrow> bool" where
  "pass_event e \<longleftrightarrow> e \<noteq> SetPhase Pausing"

text \<open>
  The reported phase is the pass's own phase, or \<open>Pausing\<close> while a pause is pending on a working
  pass, and then the phase to go back to is the pass's current one.
\<close>

definition phase_ok :: "TrainerPhase \<Rightarrow> phase_state \<Rightarrow> bool" where
  "phase_ok q s \<longleftrightarrow> q \<noteq> Pausing \<and>
     (phase s = q \<or> phase s = Pausing \<and> paused s \<and> is_working q \<and> phase_before_pause s = q)"

lemma phase_ok_step: "phase_ok q s \<Longrightarrow> pass_event e \<Longrightarrow> phase_ok (pass_phase e q) (phase_step e s)"
  by (cases e)
    (auto simp: phase_ok_def pass_event_def set_phase_def request_pause_def clear_pause_def
      signal_stop_def is_working_def Let_def)

lemma phase_run_snoc: "phase_run (es @ [e]) = phase_step e (phase_run es)"
  and last_set_snoc: "last_set (es @ [e]) = pass_phase e (last_set es)"
  by (simp_all add: phase_run_def last_set_def)

lemma phase_run_ok: "list_all pass_event es \<Longrightarrow> phase_ok (last_set es) (phase_run es)"
proof (induction es rule: rev_induct)
  case Nil
  then show ?case by (simp add: phase_run_def last_set_def phase_state0_def phase_ok_def)
next
  case (snoc e es)
  then show ?case by (simp add: phase_run_snoc last_set_snoc phase_ok_step)
qed

text \<open>A pause requested through the admin API is visible at once on a working pass.\<close>

lemma request_pause_visible:
  "phase_ok q s \<Longrightarrow> is_working q \<Longrightarrow> phase (request_pause s) = Pausing \<and> paused (request_pause s)"
  by (auto simp: phase_ok_def request_pause_def Let_def is_working_def)

lemma set_phase_pending: "paused s \<Longrightarrow> \<not> is_working (phase (set_phase p s))"
  by (simp add: set_phase_def is_working_def)

section \<open>Checkpoint tickets\<close>

text \<open>
  Admin threads: \<open>request_checkpoint\<close> first increments \<open>checkpoint_requests_made\<close> (its result is the
  ticket) and then stores \<open>checkpoint_requested\<close>. The pass: \<open>take_checkpoint_request\<close> exchanges the
  flag, then loads the newest ticket; it writes a checkpoint, which may fail; it then marks the
  ticket served with a compare-and-swap loop (the pass is the only writer, so the loop stores the
  maximum). \<open>history\<close> is not in the program: the requests made and checkpoints begun, newest first.
\<close>

datatype ticket_event = Made nat | Written

datatype pass_pc = Working | Took | Holding nat | Saved nat

record ticket_state =
  requested :: bool
  made :: nat
  served :: nat
  storing :: "nat list"      \<comment> \<open>tickets handed out whose flag store is still to come\<close>
  pass_pc :: pass_pc
  history :: "ticket_event list"

definition ticket_state0 :: ticket_state where
  "ticket_state0 = \<lparr>requested = False, made = 0, served = 0, storing = [], pass_pc = Working, history = []\<rparr>"

text \<open>\<open>request_checkpoint\<close>, its two atomic operations.\<close>

definition request_ticket :: "ticket_state \<Rightarrow> nat \<times> ticket_state" where
  "request_ticket s =
     (let ticket = made s + 1 in
      (ticket, s\<lparr>made := ticket, storing := ticket # storing s, history := Made ticket # history s\<rparr>))"

definition store_request :: "nat \<Rightarrow> ticket_state \<Rightarrow> ticket_state" where
  "store_request ticket s = s\<lparr>requested := True, storing := remove1 ticket (storing s)\<rparr>"

text \<open>\<open>take_checkpoint_request\<close>, its two atomic operations.\<close>

definition exchange_request :: "ticket_state \<Rightarrow> ticket_state" where
  "exchange_request s = s\<lparr>requested := False, pass_pc := (if requested s then Took else Working)\<rparr>"

definition load_made :: "ticket_state \<Rightarrow> ticket_state" where
  "load_made s = s\<lparr>pass_pc := Holding (made s)\<rparr>"

text \<open>\<open>perform_auto_save\<close> for the ticket, and \<open>mark_checkpoint_served\<close> when it succeeded.\<close>

definition write_checkpoint :: "bool \<Rightarrow> nat \<Rightarrow> ticket_state \<Rightarrow> ticket_state" where
  "write_checkpoint ok ticket s =
     s\<lparr>pass_pc := (if ok then Saved ticket else Working),
       history := (if ok then Written # history s else history s)\<rparr>"

definition mark_checkpoint_served :: "nat \<Rightarrow> ticket_state \<Rightarrow> ticket_state" where
  "mark_checkpoint_served ticket s =
     s\<lparr>served := (if served s < ticket then ticket else served s), pass_pc := Working\<rparr>"

inductive ticket_step :: "ticket_state \<Rightarrow> ticket_state \<Rightarrow> bool" where
  ask: "ticket_step s (snd (request_ticket s))"
| store: "t \<in> set (storing s) \<Longrightarrow> ticket_step s (store_request t s)"
| exchange: "pass_pc s = Working \<Longrightarrow> ticket_step s (exchange_request s)"
| load: "pass_pc s = Took \<Longrightarrow> ticket_step s (load_made s)"
| save: "pass_pc s = Holding t \<Longrightarrow> ticket_step s (write_checkpoint ok t s)"
| mark: "pass_pc s = Saved t \<Longrightarrow> ticket_step s (mark_checkpoint_served t s)"
| auto_save: "pass_pc s = Working \<Longrightarrow> ticket_step s (s\<lparr>history := Written # history s\<rparr>)"

text \<open>
  Runs, with the newest ticket that was dropped because writing its checkpoint failed.
\<close>

fun newest_failed :: "nat \<Rightarrow> ticket_state \<Rightarrow> ticket_state \<Rightarrow> nat" where
  "newest_failed f s s' =
     (case (pass_pc s, pass_pc s') of (Holding t, Working) \<Rightarrow> max f t | _ \<Rightarrow> f)"

inductive ticket_run :: "nat \<Rightarrow> ticket_state \<Rightarrow> bool" where
  start: "ticket_run 0 ticket_state0"
| step: "ticket_run f s \<Longrightarrow> ticket_step s s' \<Longrightarrow> ticket_run (newest_failed f s s') s'"

inductive_cases ticket_stepE: "ticket_step s s'"

text \<open>A checkpoint was begun after the request \<open>t\<close> was made.\<close>

definition written_after :: "nat \<Rightarrow> ticket_event list \<Rightarrow> bool" where
  "written_after t h \<longleftrightarrow> Written \<in> set (takeWhile (\<lambda>e. e \<noteq> Made t) h)"

definition asked :: "nat \<Rightarrow> ticket_event list \<Rightarrow> bool" where
  "asked t h \<longleftrightarrow> Made t \<in> set h"

fun held :: "pass_pc \<Rightarrow> nat" where
  "held (Holding t) = t" | "held (Saved t) = t" | "held _ = 0"

text \<open>What holds at every point of every interleaving.\<close>

definition ticket_ok :: "ticket_state \<Rightarrow> bool" where
  "ticket_ok s \<longleftrightarrow>
     (\<forall>t. asked t (history s) \<longleftrightarrow> 1 \<le> t \<and> t \<le> made s) \<and>
     served s \<le> made s \<and> held (pass_pc s) \<le> made s \<and>
     (\<forall>t. 1 \<le> t \<and> t \<le> served s \<longrightarrow> written_after t (history s)) \<and>
     (\<forall>t u. pass_pc s = Saved u \<longrightarrow> 1 \<le> t \<and> t \<le> u \<longrightarrow> written_after t (history s)) \<and>
     set (storing s) \<subseteq> {1..made s} \<and> distinct (storing s)"

lemma written_after_Cons:
  "written_after t (Written # h)"
  "u \<noteq> t \<Longrightarrow> written_after t h \<Longrightarrow> written_after t (Made u # h)"
  "written_after t h \<Longrightarrow> written_after t (Written # h)"
  by (auto simp: written_after_def)

lemma asked_Cons [simp]: "asked t (Made u # h) \<longleftrightarrow> t = u \<or> asked t h" "asked t (Written # h) = asked t h"
  by (auto simp: asked_def)

lemma ticket_ok_step:
  assumes ok: "ticket_ok s" and step: "ticket_step s s'"
  shows "ticket_ok s'"
  using step
proof cases
  case ask
  then show ?thesis using ok
    by (auto simp: ticket_ok_def request_ticket_def Let_def intro!: written_after_Cons(2))
next
  case (store t)
  then show ?thesis using ok
    by (auto simp: ticket_ok_def store_request_def dest: notin_set_remove1 set_remove1_subset [THEN subsetD])
next
  case (save t b)
  then show ?thesis using ok by (auto simp: ticket_ok_def write_checkpoint_def written_after_Cons(1))
next
  case (mark t)
  then show ?thesis using ok by (auto simp: ticket_ok_def mark_checkpoint_served_def)
qed (use ok in \<open>auto simp: ticket_ok_def exchange_request_def load_made_def written_after_Cons(1)\<close>)

lemma ticket_run_ok: "ticket_run f s \<Longrightarrow> ticket_ok s"
proof (induction rule: ticket_run.induct)
  case start
  then show ?case by (simp add: ticket_ok_def ticket_state0_def asked_def)
qed (rule ticket_ok_step)

text \<open>
  No request is lost: a ticket whose flag store is done is served, or the pass holds a ticket at
  least as new, or it is about to load one, or the flag is still up, or a checkpoint write failed
  while the pass held it. The last case is tracked by \<open>failed\<close>.
\<close>

definition pending_ok :: "nat \<Rightarrow> ticket_state \<Rightarrow> bool" where
  "pending_ok failed s \<longleftrightarrow>
     (\<forall>t. 1 \<le> t \<and> t \<le> made s \<and> t \<notin> set (storing s) \<longrightarrow>
        t \<le> served s \<or> requested s \<or> pass_pc s = Took \<or> t \<le> held (pass_pc s) \<or> t \<le> failed)"

lemma pending_ok_step:
  assumes "ticket_step s s'" and "pending_ok f s" and "distinct (storing s)"
  shows "pending_ok (newest_failed f s s') s'"
  using assms(1)
proof cases
  case (store t)
  then show ?thesis
    using assms(2,3) by (auto simp: pending_ok_def store_request_def split: pass_pc.split)
next
  case exchange
  then show ?thesis using assms(2)
    by (force simp: pending_ok_def exchange_request_def split: pass_pc.split)
next
  case (mark t)
  then show ?thesis using assms(2)
    by (auto simp: pending_ok_def mark_checkpoint_served_def)
next
  case (save t b)
  then show ?thesis using assms(2)
    by (auto simp: pending_ok_def write_checkpoint_def)
qed (use assms(2) in \<open>auto simp: pending_ok_def request_ticket_def Let_def load_made_def split: pass_pc.split\<close>)

lemma ticket_run_pending: "ticket_run f s \<Longrightarrow> pending_ok f s"
proof (induction rule: ticket_run.induct)
  case start
  then show ?case by (simp add: pending_ok_def ticket_state0_def)
next
  case (step f s s')
  have "distinct (storing s)" using ticket_run_ok [OF step(1)] by (simp add: ticket_ok_def)
  with step show ?case by (intro pending_ok_step)
qed

section \<open>The log ring\<close>

datatype TrainerLogLevel = Debug | Info | Warn | Error

fun level_to_string :: "TrainerLogLevel \<Rightarrow> string" where
  "level_to_string Debug = ''debug''" | "level_to_string Info = ''info''"
| "level_to_string Warn = ''warn''" | "level_to_string Error = ''error''"

text \<open>\<open>to_spdlog_level\<close>: spdlog's numbering, trace being 0; \<open>should_log\<close> compares with the logger's level.\<close>

fun to_spdlog_level :: "TrainerLogLevel \<Rightarrow> nat" where
  "to_spdlog_level Debug = 1" | "to_spdlog_level Info = 2" | "to_spdlog_level Warn = 3"
| "to_spdlog_level Error = 4"

record TrainerLogEntry =
  log_id :: u64
  timestamp_unix_ms :: int
  log_level :: TrainerLogLevel
  log_message :: string

record log_state =
  log_entries :: "TrainerLogEntry list"
  next_log_id :: u64

definition log_state0 :: log_state where
  "log_state0 = \<lparr>log_entries = [], next_log_id = 1\<rparr>"

definition kMaxLogEntries :: nat where "kMaxLogEntries = 200"
definition kMaxLogMessageBytes :: nat where "kMaxLogMessageBytes = 4096"

fun back_to_boundary :: "string \<Rightarrow> nat \<Rightarrow> nat" where
  "back_to_boundary message 0 = 0"
| "back_to_boundary message (Suc n) =
     (if is_continuation (message ! Suc n) then back_to_boundary message n else Suc n)"

definition capped_log_message :: "string \<Rightarrow> string" where
  "capped_log_message message =
     (if length message \<le> kMaxLogMessageBytes then message
      else take (back_to_boundary message kMaxLogMessageBytes) message @ '' [truncated]'')"

definition log :: "nat \<Rightarrow> int \<Rightarrow> TrainerLogLevel \<Rightarrow> string \<Rightarrow> log_state \<Rightarrow> log_state" where
  "log logger_level now level message s =
     (if \<not> to_spdlog_level level \<ge> logger_level then s
      else
        let entries = log_entries s @
              [\<lparr>log_id = next_log_id s, timestamp_unix_ms = now, log_level = level,
                log_message = capped_log_message message\<rparr>]
        in s\<lparr>next_log_id := next_log_id s + 1,
             log_entries := drop (length entries - kMaxLogEntries) entries\<rparr>)"

definition recent_logs :: "nat \<Rightarrow> log_state \<Rightarrow> TrainerLogEntry list" where
  "recent_logs limit s =
     (let n = min limit (length (log_entries s)) in
      drop (length (log_entries s) - n) (log_entries s))"

text \<open>The ring holds at most 200 entries with consecutive ids ending just below the next one.\<close>

definition log_ok :: "log_state \<Rightarrow> bool" where
  "log_ok s \<longleftrightarrow> length (log_entries s) \<le> kMaxLogEntries \<and>
     map log_id (log_entries s) =
       map (\<lambda>i. next_log_id s - of_nat (length (log_entries s)) + of_nat i) [0..<length (log_entries s)] \<and>
     list_all (\<lambda>e. length (log_message e) \<le> kMaxLogMessageBytes + 12) (log_entries s)"

lemma back_to_boundary_le: "back_to_boundary m n \<le> n"
  by (induction n) auto

lemma back_to_boundary_start:
  "back_to_boundary m n = 0 \<or> \<not> is_continuation (m ! back_to_boundary m n)"
  by (induction n) auto

lemma back_to_boundary_cont: "back_to_boundary m n < j \<Longrightarrow> j \<le> n \<Longrightarrow> is_continuation (m ! j)"
  by (induction n) (auto split: if_splits simp: le_Suc_eq)

lemma capped_log_message_length: "length (capped_log_message m) \<le> kMaxLogMessageBytes + 12"
  using back_to_boundary_le [of m kMaxLogMessageBytes]
  by (auto simp: capped_log_message_def)

lemma log_ok_ids:
  "log_ok s \<Longrightarrow> i < length (log_entries s) \<Longrightarrow>
     log_id (log_entries s ! i) = next_log_id s - of_nat (length (log_entries s)) + of_nat i"
  unfolding log_ok_def by (metis (no_types, lifting) add_0 diff_zero length_map length_upt nth_map nth_upt)

lemma log_ok_step:
  assumes "log_ok s"
  shows "log_ok (log lvl now level message s)"
proof (cases "to_spdlog_level level \<ge> lvl")
  case False
  then show ?thesis using assms by (simp add: log_def)
next
  case True
  let ?n = "length (log_entries s)"
  let ?e = "\<lparr>log_id = next_log_id s, timestamp_unix_ms = now, log_level = level,
                log_message = capped_log_message message\<rparr>"
  let ?es = "log_entries s @ [?e]"
  define k where "k = Suc ?n - kMaxLogEntries"
  have s': "log lvl now level message s = s\<lparr>next_log_id := next_log_id s + 1, log_entries := drop k ?es\<rparr>"
    using True by (simp add: log_def Let_def k_def)
  have k: "k \<le> Suc ?n" "Suc ?n - k \<le> kMaxLogEntries" by (auto simp: k_def)
  have id: "log_id (?es ! i) = next_log_id s - of_nat ?n + of_nat i" if "i < Suc ?n" for i
    using that log_ok_ids [OF assms, of i] by (cases "i = ?n") (auto simp: nth_append)
  have "map log_id (drop k ?es) =
      map (\<lambda>i. next_log_id s + 1 - of_nat (Suc ?n - k) + of_nat i) [0..<Suc ?n - k]"
  proof (rule nth_equalityI)
    fix i assume "i < length (map log_id (drop k ?es))"
    then have i: "k + i < Suc ?n" by (simp add: less_diff_conv)
    then have "map log_id (drop k ?es) ! i = log_id (?es ! (k + i))" by (simp add: nth_append del: drop_append)
    then show "map log_id (drop k ?es) ! i =
        map (\<lambda>i. next_log_id s + 1 - of_nat (Suc ?n - k) + of_nat i) [0..<Suc ?n - k] ! i"
      using id [OF i] i k(1) by (simp add: of_nat_diff del: drop_append)
  qed simp
  moreover have "list_all (\<lambda>e. length (log_message e) \<le> kMaxLogMessageBytes + 12) (drop k ?es)"
    using assms capped_log_message_length by (intro list_all_drop) (simp add: log_ok_def)
  moreover have "length (drop k ?es) = Suc ?n - k" by simp
  ultimately show ?thesis unfolding s' log_ok_def using k(2) by (simp del: drop_append length_drop)
qed

end
