(* ===== verification/Config_Text.thy ===== *)
theory Config_Text
  imports Text_Lib
begin

text \<open>
  The value syntax of configuration files and command lines, from \<open>src/src/Config.cpp\<close>:
  \<open>parse_int\<close>, \<open>parse_size\<close>, \<open>parse_bool\<close>, \<open>trim\<close>, \<open>strip_quotes_and_comment\<close>, \<open>match_choice\<close>, and
  the reading of a file into its key/value pairs. A C++ exception that every caller turns into "no
  value" is \<open>None\<close>. Also the integer form of \<open>std::from_chars\<close>, which the admin API uses.
\<close>

section \<open>Numbers\<close>

text \<open>A whole string of digits as a number.\<close>

definition whole_nat :: "string \<Rightarrow> nat option" where
  "whole_nat s = (if s \<noteq> [] \<and> list_all is_digit s then Some (digits_value s) else None)"

text \<open>
  \<open>std::stoi(value, &used)\<close> with \<open>used == value.size()\<close>: leading white space, an optional sign, then
  only digits, in the range of \<open>int\<close>.
\<close>

definition parse_int :: "string \<Rightarrow> int option" where
  "parse_int value =
     (let s = dropWhile is_space value;
          (neg, ds) = (case s of c # cs \<Rightarrow> if c = CHR ''-'' then (True, cs)
                                    else if c = CHR ''+'' then (False, cs) else (False, s)
                       | [] \<Rightarrow> (False, []))
      in case whole_nat ds of
           None \<Rightarrow> None
         | Some n \<Rightarrow>
             let i = (if neg then - int n else int n) in
             if - (2 ^ 31) \<le> i \<and> i < 2 ^ 31 then Some i else None)"

definition parse_size :: "string \<Rightarrow> nat option" where
  "parse_size value =
     (if CHR ''-'' \<in> set value then None
      else
        let s = dropWhile is_space value;
            ds = (case s of c # cs \<Rightarrow> if c = CHR ''+'' then cs else s | [] \<Rightarrow> [])
        in case whole_nat ds of None \<Rightarrow> None | Some n \<Rightarrow> if n < 2 ^ 64 then Some n else None)"

definition parse_strict_int :: "string \<Rightarrow> int option" where
  "parse_strict_int value = parse_int value"

definition parse_strict_size :: "string \<Rightarrow> nat option" where
  "parse_strict_size value = parse_size value"

text \<open>
  \<open>std::from_chars\<close> into an \<open>int\<close>, all of the text consumed: no white space, no plus sign.
\<close>

definition from_chars_int :: "string \<Rightarrow> int option" where
  "from_chars_int v =
     (let (neg, ds) = (case v of c # cs \<Rightarrow> if c = CHR ''-'' then (True, cs) else (False, v) | [] \<Rightarrow> (False, []))
      in case whole_nat ds of
           None \<Rightarrow> None
         | Some n \<Rightarrow>
             let i = (if neg then - int n else int n) in
             if - (2 ^ 31) \<le> i \<and> i < 2 ^ 31 then Some i else None)"

lemma whole_nat_print [simp]: "whole_nat (nat_to_string n) = Some n"
  by (simp add: whole_nat_def nat_to_string_digits)

lemma nat_to_string_first:
  obtains c cs where "nat_to_string n = c # cs" and "is_digit c"
  using nat_to_string_digits [of n] by (cases "nat_to_string n") auto

lemma digit_not_special: "is_digit c \<Longrightarrow> \<not> is_space c \<and> c \<noteq> CHR ''-'' \<and> c \<noteq> CHR ''+''"
  by (auto simp: is_digit_def is_space_def less_eq_char_def)

lemma parse_int_print:
  assumes "- (2 ^ 31) \<le> i" and "i < 2 ^ 31"
  shows "parse_int (int_to_string i) = Some i"
proof (cases "i < 0")
  case True
  have "\<not> is_space CHR ''-''" by (simp add: is_space_def)
  with True assms show ?thesis by (simp add: parse_int_def int_to_string_def)
next
  case False
  obtain c cs where c: "nat_to_string (nat i) = c # cs" "is_digit c" by (rule nat_to_string_first)
  have "whole_nat (c # cs) = Some (nat i)" by (simp add: c(1) [symmetric])
  with False assms c digit_not_special [OF c(2)] show ?thesis
    by (simp add: parse_int_def int_to_string_def)
qed

lemma from_chars_print:
  assumes "- (2 ^ 31) \<le> i" and "i < 2 ^ 31"
  shows "from_chars_int (int_to_string i) = Some i"
proof (cases "i < 0")
  case True
  with assms show ?thesis by (simp add: from_chars_int_def int_to_string_def)
next
  case False
  obtain c cs where c: "nat_to_string (nat i) = c # cs" "is_digit c" by (rule nat_to_string_first)
  have "whole_nat (c # cs) = Some (nat i)" by (simp add: c(1) [symmetric])
  with False assms c digit_not_special [OF c(2)] show ?thesis
    by (simp add: from_chars_int_def int_to_string_def)
qed

lemma parse_size_print:
  assumes "n < 2 ^ 64"
  shows "parse_size (nat_to_string n) = Some n"
proof -
  obtain c cs where c: "nat_to_string n = c # cs" "is_digit c" by (rule nat_to_string_first)
  have "CHR ''-'' \<notin> set (nat_to_string n)"
    using nat_to_string_digits [of n] digit_not_special by (auto simp: list_all_iff)
  with whole_nat_print [of n] assms digit_not_special [OF c(2)] show ?thesis
    by (simp add: parse_size_def c)
qed

text \<open>A value is accepted as a whole or not at all: nothing may follow the digits.\<close>

lemma whole_nat_trailing: "\<not> is_digit c \<Longrightarrow> whole_nat (s @ c # t) = None"
  by (simp add: whole_nat_def)

lemma parse_int_bounds: "parse_int s = Some i \<Longrightarrow> - (2 ^ 31) \<le> i \<and> i < 2 ^ 31"
  by (auto simp: parse_int_def Let_def split: prod.splits option.splits if_splits)

section \<open>Booleans and choices\<close>

definition parse_bool :: "string \<Rightarrow> bool option" where
  "parse_bool value =
     (let lower = map to_lower value in
      if lower \<in> {''true'', ''1'', ''yes'', ''on'', ''enabled''} then Some True
      else if lower \<in> {''false'', ''0'', ''no'', ''off'', ''disabled''} then Some False
      else None)"

definition match_choice :: "string \<Rightarrow> string list \<Rightarrow> string option" where
  "match_choice value choices = find (\<lambda>c. map to_lower c = map to_lower value) choices"

definition parse_file_choice :: "string \<Rightarrow> string \<Rightarrow> string list \<Rightarrow> string option" where
  "parse_file_choice key value choices =
     (if key = ''LOG_LEVEL'' \<and> match_choice value [''WARNING''] \<noteq> None then Some ''WARN''
      else match_choice value choices)"

lemma match_choice_sound: "match_choice v cs = Some c \<Longrightarrow> c \<in> set cs \<and> map to_lower c = map to_lower v"
  by (auto simp: match_choice_def find_Some_iff)

lemma match_choice_complete: "c \<in> set cs \<Longrightarrow> map to_lower c = map to_lower v \<Longrightarrow> match_choice v cs \<noteq> None"
  by (auto simp: match_choice_def find_None_iff)

section \<open>Lines of a configuration file\<close>

definition blank :: "char \<Rightarrow> bool" where
  "blank c \<longleftrightarrow> c \<in> {CHR '' '', CHR 0x09, CHR 0x0D, CHR 0x0A}"

definition trim :: "string \<Rightarrow> string" where
  "trim str = rev (dropWhile blank (rev (dropWhile blank str)))"

text \<open>The part before the first \<open>#\<close> that follows a space or a tab, if there is one.\<close>

fun comment_free :: "string \<Rightarrow> string option" where
  "comment_free (a # b # s) =
     (if b = CHR ''#'' \<and> (a = CHR '' '' \<or> a = CHR 0x09) then Some [a]
      else map_option ((#) a) (comment_free (b # s)))"
| "comment_free _ = None"

definition strip_quotes_and_comment :: "string \<Rightarrow> string" where
  "strip_quotes_and_comment value =
     (let unquoted = (case comment_free value of Some s \<Rightarrow> trim s | None \<Rightarrow> value) in
      case value of
        q # s \<Rightarrow>
          if length value \<ge> 2 \<and> (q = CHR 0x22 \<or> q = CHR 0x27) then
            (case split_first q s of
               Some (inner, after) \<Rightarrow>
                 let after = trim after in
                 if after = [] \<or> List.hd after = CHR ''#'' then inner else unquoted
             | None \<Rightarrow> unquoted)
          else unquoted
      | [] \<Rightarrow> unquoted)"

text \<open>One line: skipped, invalid, or a key and its value.\<close>

datatype config_line = Skipped | Invalid string | Setting string string

definition config_line :: "string \<Rightarrow> config_line" where
  "config_line raw =
     (let line = trim raw in
      if line = [] \<or> List.hd line = CHR ''#'' then Skipped
      else case split_first CHR ''='' line of
        None \<Rightarrow> Invalid line
      | Some (k, v) \<Rightarrow> Setting (trim k) (strip_quotes_and_comment (trim v)))"

text \<open>\<open>file_values\<close> after the file: the last setting of a key wins.\<close>

fun add_setting :: "(string \<rightharpoonup> string) \<Rightarrow> config_line \<Rightarrow> (string \<rightharpoonup> string)" where
  "add_setting m (Setting k v) = m(k \<mapsto> v)"
| "add_setting m _ = m"

definition file_values :: "string \<Rightarrow> (string \<rightharpoonup> string)" where
  "file_values text = foldl add_setting Map.empty (map config_line (getlines text))"

lemma dropWhile_id: "(xs \<noteq> [] \<Longrightarrow> \<not> P (List.hd xs)) \<Longrightarrow> dropWhile P xs = xs"
  by (cases xs) auto

lemma trim_id: "(s \<noteq> [] \<Longrightarrow> \<not> blank (List.hd s) \<and> \<not> blank (List.last s)) \<Longrightarrow> trim s = s"
  by (cases "s = []") (simp_all add: trim_def dropWhile_id hd_rev)

lemma trim_idem [simp]: "trim (trim s) = trim s"
proof (rule trim_id)
  let ?d = "dropWhile blank s"
  assume "trim s \<noteq> []"
  then have r: "dropWhile blank (rev ?d) \<noteq> []" by (simp add: trim_def)
  have "List.last (trim s) = List.hd (dropWhile blank (rev ?d))" using r by (simp add: trim_def last_rev)
  moreover have "\<not> blank (List.hd (dropWhile blank (rev ?d)))" using r by (rule hd_dropWhile)
  moreover have "List.hd (trim s) = List.hd ?d"
  proof -
    obtain k where "dropWhile blank (rev ?d) = drop k (rev ?d)" by (metis dropWhile_eq_drop)
    then have "trim s = take (length ?d - k) ?d" by (simp add: trim_def rev_drop)
    with \<open>trim s \<noteq> []\<close> show ?thesis by (simp add: hd_take)
  qed
  moreover have "?d \<noteq> []" using r by (metis dropWhile.simps(1) rev.simps(1))
  then have "\<not> blank (List.hd ?d)" by (rule hd_dropWhile)
  ultimately show "\<not> blank (List.hd (trim s)) \<and> \<not> blank (List.last (trim s))" by simp
qed

text \<open>A quoted value is taken as written, whatever it contains.\<close>

lemma strip_quoted:
  "q = CHR 0x22 \<or> q = CHR 0x27 \<Longrightarrow> q \<notin> set v \<Longrightarrow> strip_quotes_and_comment (q # v @ [q]) = v"
  by (auto simp: strip_quotes_and_comment_def Let_def trim_def)

text \<open>An unquoted value without a comment start is taken as written.\<close>

lemma comment_free_None: "CHR ''#'' \<notin> set s \<Longrightarrow> comment_free s = None"
  by (induction s rule: comment_free.induct) auto

lemma strip_plain:
  assumes "CHR ''#'' \<notin> set v" and "v = [] \<or> List.hd v \<notin> {CHR 0x22, CHR 0x27}"
  shows "strip_quotes_and_comment v = v"
  using assms by (cases v) (auto simp: strip_quotes_and_comment_def comment_free_None Let_def)

end
