(* ===== verification/Trainer_Service.thy ===== *)
theory Trainer_Service
  imports Config_Text
begin

text \<open>
  \<open>trainer_service\<close>, the process that launches training passes: the command lines it accepts and
  builds (\<open>src/src/IncrementalTrainerArgs.cpp\<close>), its control state
  (\<open>src/src/TrainerServiceControlState.hpp\<close>), the admin handlers that change it
  (\<open>src/src/TrainerServiceProxy.cpp\<close>) and the supervisory loop of \<open>src/src/TrainerServiceMain.cpp\<close>.

  The loop and the admin thread interleave: a run is a list of labelled steps, each at most one
  atomic access of the loop or of a handler to the shared state. The loop's child process
  (\<open>src/src/ChildProcess.cpp\<close>, the POSIX branch) is its own: what the system says of it comes with
  the step. One second of \<open>interruptible_sleep\<close>, up to its check of the flags under the mutex, is a
  step. Counters are natural numbers.
\<close>

section \<open>Command lines\<close>

record GlobalArgs =
  config_path :: "string option"
  gpu_strategy :: "string option"
  model_name :: "string option"
  foreground :: bool
  admin_port :: "int option"
  objective :: string
  dataset_kind :: "string option"
  log_file :: "string option"
  args :: "string list"
  arg_error :: "string option"

definition GlobalArgs0 :: GlobalArgs where
  "GlobalArgs0 = \<lparr>config_path = None, gpu_strategy = None, model_name = None, foreground = False,
     admin_port = None, objective = ''chatbot'', dataset_kind = None, log_file = None, args = [],
     arg_error = None\<rparr>"

definition is_dataset_kind :: "string \<Rightarrow> bool" where
  "is_dataset_kind kind \<longleftrightarrow> kind \<in> {''encoder'', ''decoder'', ''world_model'', ''chatbot''}"

definition value_flags :: "string set" where
  "value_flags = {''--config'', ''--gpu-strategy'', ''--model'', ''--admin-port'', ''--dataset-kind'', ''--log-file''}"

definition quoted :: "string \<Rightarrow> string" where
  "quoted s = [CHR 0x27] @ s @ [CHR 0x27]"

definition fail_args :: "string \<Rightarrow> GlobalArgs \<Rightarrow> GlobalArgs" where
  "fail_args message r = r\<lparr>arg_error := Some message\<rparr>"

text \<open>A flag with its value.\<close>

definition set_value :: "string \<Rightarrow> string \<Rightarrow> GlobalArgs \<Rightarrow> GlobalArgs" where
  "set_value a v r =
     (if a = ''--config'' then r\<lparr>config_path := Some v\<rparr>
      else if a = ''--gpu-strategy'' then r\<lparr>gpu_strategy := Some v\<rparr>
      else if a = ''--model'' then r\<lparr>model_name := Some v\<rparr>
      else if a = ''--admin-port'' then
        (case parse_strict_int v of
           None \<Rightarrow> fail_args (''Invalid value for --admin-port: '' @ quoted v @ '' (expected a port, 1-65535)'') r
         | Some port \<Rightarrow>
             if port < 1 \<or> port > 65535
             then fail_args (''Invalid value for --admin-port: '' @ quoted v @ '' (expected a port, 1-65535)'') r
             else r\<lparr>admin_port := Some port\<rparr>)
      else if a = ''--log-file'' then r\<lparr>log_file := Some v\<rparr>
      else if is_dataset_kind v then r\<lparr>dataset_kind := Some v\<rparr>
      else fail_args (''Invalid value for --dataset-kind: '' @ quoted v @
             '' (expected encoder, decoder, world_model or chatbot)'') r)"

text \<open>A flag or word without a separate value.\<close>

definition set_word :: "string \<Rightarrow> GlobalArgs \<Rightarrow> GlobalArgs" where
  "set_word a r =
     (if a = ''--foreground'' then r\<lparr>foreground := True\<rparr>
      else if starts_with ''--objective='' a then
        (let v = drop (length ''--objective='') a in
         if v \<noteq> ''chatbot'' \<and> v \<noteq> ''lejepa''
         then fail_args (''Invalid value for --objective: '' @ quoted v @ '' (expected chatbot or lejepa)'') r
         else r\<lparr>objective := v\<rparr>)
      else if a = ''--objective'' then
        fail_args ''--objective takes its value after '=': --objective=chatbot or --objective=lejepa'' r
      else r\<lparr>args := args r @ [a]\<rparr>)"

fun parse_args :: "GlobalArgs \<Rightarrow> string list \<Rightarrow> GlobalArgs" where
  "parse_args r [] = r"
| "parse_args r (a # argv) =
     (if a \<in> value_flags then
        (case argv of
           [] \<Rightarrow> fail_args (''Missing value for '' @ a) r
         | v # argv' \<Rightarrow>
             if starts_with ''--'' v then fail_args (''Missing value for '' @ a) r
             else
               let r = set_value a v r in
               if arg_error r = None then parse_args r argv' else r)
      else
        let r = set_word a r in
        if arg_error r = None then parse_args r argv else r)"

text \<open>\<open>argv\<close> without the program name.\<close>

definition parse_incremental_trainer_global_args :: "string list \<Rightarrow> GlobalArgs" where
  "parse_incremental_trainer_global_args argv = parse_args GlobalArgs0 argv"

record ServiceArgs =
  service_global :: GlobalArgs
  service_help :: bool

definition parse_trainer_service_args :: "string list \<Rightarrow> ServiceArgs" where
  "parse_trainer_service_args argv =
     (if ''--help'' \<in> set argv \<or> ''-h'' \<in> set argv
      then \<lparr>service_global = GlobalArgs0, service_help = True\<rparr>
      else
        let g = parse_incremental_trainer_global_args argv;
            g = (if arg_error g \<noteq> None then g
                 else if log_file g \<noteq> None then
                   fail_args ''--log-file is set by trainer_service on the passes it launches; set LOG_FILE_PATH instead'' g
                 else if foreground g \<or> admin_port g \<noteq> None then
                   fail_args ((if foreground g then ''--foreground'' else ''--admin-port'') @
                     '' is set by trainer_service on the passes it launches, not passed to it (the pass's admin port is TRAINER_CHILD_ADMIN_PORT)'') g
                 else (case args g of
                     [] \<Rightarrow> g
                   | a # _ \<Rightarrow> fail_args (''Unexpected argument '' @ quoted a @ '' (trainer_service takes no command)'') g))
        in \<lparr>service_global = g, service_help = False\<rparr>)"

definition resolve_dataset_kind :: "string \<Rightarrow> string option \<Rightarrow> string" where
  "resolve_dataset_kind obj cli_override =
     (case cli_override of Some k \<Rightarrow> k
      | None \<Rightarrow> if obj = ''lejepa'' then ''world_model'' else ''chatbot'')"

definition opt_flag :: "string \<Rightarrow> string option \<Rightarrow> string list" where
  "opt_flag flag v = (case v of Some x \<Rightarrow> [flag, x] | None \<Rightarrow> [])"

definition trainer_service_child_argv ::
  "string \<Rightarrow> GlobalArgs \<Rightarrow> int option \<Rightarrow> string \<Rightarrow> string list" where
  "trainer_service_child_argv trainer_path cli port pass_log_file =
     [trainer_path] @ opt_flag ''--config'' (config_path cli) @ opt_flag ''--model'' (model_name cli) @
     opt_flag ''--gpu-strategy'' (gpu_strategy cli) @ [''--objective='' @ objective cli] @
     [''--dataset-kind'', resolve_dataset_kind (objective cli) (dataset_kind cli)] @
     (if pass_log_file \<noteq> [] then [''--log-file'', pass_log_file] else []) @ [''--foreground''] @
     opt_flag ''--admin-port'' (map_option int_to_string port) @ [''resume'']"

definition parse_epochs_arg :: "string list \<Rightarrow> int \<Rightarrow> string + int" where
  "parse_epochs_arg as default_epochs =
     (if length as < 2 then Inr default_epochs
      else if length as > 2 then
        Inl (''Unexpected argument '' @ quoted (as ! 2) @ '' ('' @ as ! 0 @ '' takes one epoch count)'')
      else case parse_strict_int (as ! 1) of
        Some n \<Rightarrow> if n < 1 then Inl (''Invalid epoch count '' @ quoted (as ! 1) @ '' (expected a whole number, at least 1)'')
                  else Inr n
      | None \<Rightarrow> Inl (''Invalid epoch count '' @ quoted (as ! 1) @ '' (expected a whole number, at least 1)''))"

record ResetArgs = reset_yes :: bool  keep_data :: bool

definition parse_reset_command_args :: "string list \<Rightarrow> ResetArgs" where
  "parse_reset_command_args as = \<lparr>reset_yes = (''--yes'' \<in> set as), keep_data = (''--keep-data'' \<in> set as)\<rparr>"

definition incremental_trainer_command_defers_gpu_init :: "string \<Rightarrow> bool" where
  "incremental_trainer_command_defers_gpu_init command \<longleftrightarrow> command \<in> {''train'', ''retrain'', ''resume''}"

section \<open>Exit codes and waiting times\<close>

definition kResumeExitTrained :: int where "kResumeExitTrained = 0"
definition kResumeExitFailed :: int where "kResumeExitFailed = 1"
definition kResumeExitNothingPending :: int where "kResumeExitNothingPending = 3"

datatype PassOutcome = DidWork | NothingPending | Failed | Crashed

definition classify_pass_exit :: "int \<Rightarrow> PassOutcome" where
  "classify_pass_exit exit_code =
     (if exit_code = kResumeExitTrained then DidWork
      else if exit_code = kResumeExitNothingPending then NothingPending
      else if exit_code \<ge> 128 then Crashed else Failed)"

function backoff_loop :: "nat \<Rightarrow> int \<Rightarrow> int \<Rightarrow> nat \<Rightarrow> int" where
  "backoff_loop failures max_seconds wait i =
     (if i < failures \<and> wait < max_seconds then backoff_loop failures max_seconds (wait * 2) (i + 1) else wait)"
  by pat_completeness auto
termination by (relation "measure (\<lambda>(failures, max_seconds, wait, i). failures - i)") auto

declare backoff_loop.simps [simp del]

definition failure_backoff_seconds :: "nat \<Rightarrow> int \<Rightarrow> int \<Rightarrow> int" where
  "failure_backoff_seconds consecutive_failures base_seconds max_seconds =
     min (backoff_loop consecutive_failures max_seconds base_seconds 1) max_seconds"

definition kPollIntervalSeconds :: int where "kPollIntervalSeconds = 45"
definition kMaxFailureBackoffSeconds :: int where "kMaxFailureBackoffSeconds = 900"

lemma backoff_loop_eq:
  "0 < wait \<Longrightarrow> min (backoff_loop n m wait i) m = min (wait * 2 ^ (n - i)) m"
proof (induction n m wait i rule: backoff_loop.induct)
  case (1 n m wait i)
  show ?case
  proof (cases "i < n \<and> wait < m")
    case True
    then have "n - i = Suc (n - (i + 1))" by linarith
    with True 1 show ?thesis by (simp add: backoff_loop.simps [of n m wait i] mult.assoc)
  next
    case False
    then have "backoff_loop n m wait i = wait" by (subst backoff_loop.simps) auto
    moreover have "wait * 1 \<le> wait * 2 ^ (n - i)" using 1(2) by (intro mult_left_mono) simp_all
    ultimately show ?thesis using False by (cases "i < n") (auto simp: min_def)
  qed
qed

lemma failure_backoff_eq:
  "0 < base \<Longrightarrow> failure_backoff_seconds n base m = min (base * 2 ^ (n - 1)) m"
  by (simp add: failure_backoff_seconds_def backoff_loop_eq)

section \<open>The service\<close>

record service_state =
  svc_paused :: bool
  stop_requested :: bool
  wake_requested :: bool
  last_launch_unix :: int
  last_exit_unix :: int
  last_exit_code :: int
  child_running :: bool          \<comment> \<open>\<open>current_child_pid\<close> is not 0\<close>
  child_port :: int
  total_passes_launched :: nat
  total_passes_did_work :: nat
  total_passes_crashed :: nat
  total_passes_failed :: nat
  consecutive_failures :: nat
  last_failure_unix :: int
  process_running :: bool        \<comment> \<open>\<open>running_\<close> of the loop's \<open>ChildProcess\<close>\<close>

definition service_state0 :: service_state where
  "service_state0 = \<lparr>svc_paused = False, stop_requested = False, wake_requested = False,
     last_launch_unix = 0, last_exit_unix = 0, last_exit_code = 0, child_running = False,
     child_port = 0, total_passes_launched = 0, total_passes_did_work = 0,
     total_passes_crashed = 0, total_passes_failed = 0, consecutive_failures = 0,
     last_failure_unix = 0, process_running = False\<rparr>"

subsection \<open>The child process\<close>

text \<open>What \<open>waitpid\<close> says of the child.\<close>

datatype child_status = StillRunning | ExitedWith int | Signalled int | Untracked

definition start_child :: "bool \<Rightarrow> service_state \<Rightarrow> bool \<times> service_state" where
  "start_child started s =
     (if process_running s \<or> \<not> started then (False, s) else (True, s\<lparr>process_running := True\<rparr>))"

definition poll_exit :: "child_status \<Rightarrow> service_state \<Rightarrow> int option \<times> service_state" where
  "poll_exit status s =
     (if \<not> process_running s then (None, s)
      else case status of
        StillRunning \<Rightarrow> (None, s)
      | ExitedWith code \<Rightarrow> (Some code, s\<lparr>process_running := False\<rparr>)
      | Signalled sig \<Rightarrow> (Some (128 + sig), s\<lparr>process_running := False\<rparr>)
      | Untracked \<Rightarrow> (Some (-1), s\<lparr>process_running := False\<rparr>))"

text \<open>The status is the one the child has by the end of the grace period; a child still running then is
  killed. The result is the exit code, starting from the caller's.\<close>

definition stop_and_wait :: "child_status \<Rightarrow> int \<Rightarrow> service_state \<Rightarrow> int \<times> service_state" where
  "stop_and_wait status exit_code s =
     (if \<not> process_running s then (exit_code, s)
      else case poll_exit status s of
        (Some code, s') \<Rightarrow> (code, s')
      | (None, s') \<Rightarrow> (-2, s'\<lparr>process_running := False\<rparr>))"

subsection \<open>The loop\<close>

text \<open>The loop's stores to the control state, each atomic. The time is read when the store is made.\<close>

datatype svc_store =
    AddLaunched | SetLastLaunch | SetPid | SetPort int
  | ClearPid | SetLastExit | SetExitCode int | ClearPort
  | AddDidWork | AddFailed | AddCrashed | ResetFailures | SetLastFailure

fun do_store :: "int \<Rightarrow> svc_store \<Rightarrow> service_state \<Rightarrow> service_state" where
  "do_store now AddLaunched s = s\<lparr>total_passes_launched := total_passes_launched s + 1\<rparr>"
| "do_store now SetLastLaunch s = s\<lparr>last_launch_unix := now\<rparr>"
| "do_store now SetPid s = s\<lparr>child_running := True\<rparr>"
| "do_store now (SetPort p) s = s\<lparr>child_port := p\<rparr>"
| "do_store now ClearPid s = s\<lparr>child_running := False\<rparr>"
| "do_store now SetLastExit s = s\<lparr>last_exit_unix := now\<rparr>"
| "do_store now (SetExitCode code) s = s\<lparr>last_exit_code := code\<rparr>"
| "do_store now ClearPort s = s\<lparr>child_port := 0\<rparr>"
| "do_store now AddDidWork s = s\<lparr>total_passes_did_work := total_passes_did_work s + 1\<rparr>"
| "do_store now AddFailed s = s\<lparr>total_passes_failed := total_passes_failed s + 1\<rparr>"
| "do_store now AddCrashed s = s\<lparr>total_passes_crashed := total_passes_crashed s + 1\<rparr>"
| "do_store now ResetFailures s = s\<lparr>consecutive_failures := 0\<rparr>"
| "do_store now SetLastFailure s = s\<lparr>last_failure_unix := now\<rparr>"

text \<open>Where the loop is: at its \<open>while\<close>, at the pause check, at \<open>start\<close>, at the inner loop's stop
  check, in its 200 ms sleep before \<open>poll_exit\<close>, in \<open>stop_and_wait\<close>, at the stop check after an exit, at
  the increment of \<open>consecutive_failures\<close>, in \<open>interruptible_sleep\<close> with seconds to go, past the loop,
  or with stores to make before going on.\<close>

datatype svc_pc = AtTop | PauseCheck | Launching | Polling | PollSleep | Stopping | StopCheck int
  | CountFailure | Sleeping nat | Done | Stores "svc_store list" svc_pc

definition wake :: "service_state \<Rightarrow> service_state" where
  "wake s = s\<lparr>wake_requested := True\<rparr>"

text \<open>One second of \<open>interruptible_sleep\<close>; leaving it consumes the wake flag.\<close>

definition sleep_second :: "nat \<Rightarrow> service_state \<Rightarrow> svc_pc \<times> service_state" where
  "sleep_second n s =
     (if wake_requested s \<or> stop_requested s \<or> n \<le> 1 then (AtTop, s\<lparr>wake_requested := False\<rparr>)
      else (Sleeping (n - 1), s))"

definition launch :: "bool \<Rightarrow> int option \<Rightarrow> service_state \<Rightarrow> svc_pc \<times> service_state" where
  "launch started child_admin_port s =
     (case start_child started s of
        (False, s') \<Rightarrow> (Stores [SetLastFailure] CountFailure, s')
      | (True, s') \<Rightarrow>
          (Stores ([AddLaunched, SetLastLaunch, SetPid] @
             (case child_admin_port of Some p \<Rightarrow> [SetPort p] | None \<Rightarrow> [])) Polling, s'))"

definition child_gone :: "int \<Rightarrow> svc_pc" where
  "child_gone code = Stores [ClearPid, SetLastExit, SetExitCode code, ClearPort] (StopCheck code)"

definition poll_child :: "child_status \<Rightarrow> service_state \<Rightarrow> svc_pc \<times> service_state" where
  "poll_child status s =
     (case poll_exit status s of
        (None, s') \<Rightarrow> (Polling, s')
      | (Some code, s') \<Rightarrow> (child_gone code, s'))"

definition stop_child :: "child_status \<Rightarrow> service_state \<Rightarrow> svc_pc \<times> service_state" where
  "stop_child status s = (case stop_and_wait status 1 s of (code, s') \<Rightarrow> (child_gone code, s'))"

definition after_exit :: "int \<Rightarrow> svc_pc" where
  "after_exit code =
     (case classify_pass_exit code of
        DidWork \<Rightarrow> Stores [AddDidWork, ResetFailures] AtTop
      | NothingPending \<Rightarrow> Stores [ResetFailures] (Sleeping (nat kPollIntervalSeconds))
      | Failed \<Rightarrow> Stores [AddFailed, SetLastFailure] CountFailure
      | Crashed \<Rightarrow> Stores [AddCrashed, SetLastFailure] CountFailure)"

definition count_failure :: "service_state \<Rightarrow> svc_pc \<times> service_state" where
  "count_failure s =
     (let failures = consecutive_failures s + 1 in
      (Sleeping (nat (failure_backoff_seconds failures kPollIntervalSeconds kMaxFailureBackoffSeconds)),
       s\<lparr>consecutive_failures := failures\<rparr>))"

text \<open>
  One step of the loop: at most one access to the control state. The system decides whether a launch
  succeeds and what \<open>waitpid\<close> says.
\<close>

fun loop_step :: "int option \<Rightarrow> bool \<Rightarrow> child_status \<Rightarrow> int \<Rightarrow> svc_pc \<Rightarrow> service_state \<Rightarrow> svc_pc \<times> service_state" where
  "loop_step port started status now AtTop s = (if stop_requested s then Done else PauseCheck, s)"
| "loop_step port started status now PauseCheck s =
     (if svc_paused s then Sleeping (nat kPollIntervalSeconds) else Launching, s)"
| "loop_step port started status now Launching s = launch started port s"
| "loop_step port started status now Polling s = (if stop_requested s then Stopping else PollSleep, s)"
| "loop_step port started status now PollSleep s = poll_child status s"
| "loop_step port started status now Stopping s = stop_child status s"
| "loop_step port started status now (StopCheck code) s = (if stop_requested s then Done else after_exit code, s)"
| "loop_step port started status now CountFailure s = count_failure s"
| "loop_step port started status now (Sleeping n) s = sleep_second n s"
| "loop_step port started status now Done s = (Done, s)"
| "loop_step port started status now (Stores [] k) s = (k, s)"
| "loop_step port started status now (Stores (x # xs) k) s =
     (if xs = [] then k else Stores xs k, do_store now x s)"

text \<open>
  The steps of the service. A handler's two accesses, the store to \<open>paused\<close> and the wake, are steps of
  their own.
\<close>

datatype svc_label =
    Loop bool child_status int        \<comment> \<open>a loop step: launch outcome, the child's status, time\<close>
  | PauseStore | ResumeStore | Wake | StopSignal

fun svc_step :: "int option \<Rightarrow> svc_label \<Rightarrow> svc_pc \<times> service_state \<Rightarrow> svc_pc \<times> service_state" where
  "svc_step port (Loop started status now) (pc, s) = loop_step port started status now pc s"
| "svc_step port PauseStore (pc, s) = (pc, s\<lparr>svc_paused := True\<rparr>)"
| "svc_step port ResumeStore (pc, s) = (pc, s\<lparr>svc_paused := False\<rparr>)"
| "svc_step port Wake (pc, s) = (pc, wake s)"
| "svc_step port StopSignal (pc, s) = (pc, s\<lparr>stop_requested := True\<rparr>)"

definition svc_run :: "int option \<Rightarrow> svc_label list \<Rightarrow> svc_pc \<times> service_state \<Rightarrow> svc_pc \<times> service_state" where
  "svc_run port ls x = foldl (\<lambda>x l. svc_step port l x) x ls"

lemma svc_run_simps [simp]: "svc_run port [] x = x"
    "svc_run port (l # ls) x = svc_run port ls (svc_step port l x)"
  by (simp_all add: svc_run_def)

text \<open>The service, from its start.\<close>

abbreviation svc_from_start :: "int option \<Rightarrow> svc_label list \<Rightarrow> svc_pc \<times> service_state" where
  "svc_from_start port ls \<equiv> svc_run port ls (AtTop, service_state0)"

subsection \<open>The state behind pending stores\<close>

text \<open>The loop's place and the control state once the stores under way are made, the times left out:
  a step that makes one of them leaves it as it is.\<close>

definition timeless :: "service_state \<Rightarrow> service_state" where
  "timeless s = s\<lparr>last_launch_unix := 0, last_exit_unix := 0, last_failure_unix := 0\<rparr>"

fun settle :: "svc_pc \<times> service_state \<Rightarrow> svc_pc \<times> service_state" where
  "settle (Stores xs k, s) = (k, fold (do_store 0) xs (timeless s))"
| "settle (pc, s) = (pc, timeless s)"

lemma timeless_store: "timeless (do_store now x s) = do_store 0 x (timeless s)"
  by (cases x) (simp_all add: timeless_def)

fun is_stores :: "svc_pc \<Rightarrow> bool" where
  "is_stores (Stores xs k) = True" | "is_stores pc = False"

lemma settle_plain: "\<not> is_stores pc \<Longrightarrow> settle (pc, s) = (pc, timeless s)"
  by (cases pc) simp_all

lemma settle_store:
  assumes "\<not> is_stores k"
  shows "settle (loop_step port started status now (Stores xs k) s) = settle (Stores xs k, s)"
  using assms by (cases xs) (auto simp: timeless_store settle_plain)

lemma settle_launch:
  "settle (launch started port s) =
     (if process_running s \<or> \<not> started then (CountFailure, timeless s)
      else (Polling, (timeless s)\<lparr>process_running := True, total_passes_launched := total_passes_launched s + 1,
        child_running := True, child_port := (case port of Some p \<Rightarrow> p | None \<Rightarrow> child_port s)\<rparr>))"
  by (simp add: launch_def start_child_def timeless_def split: option.split)

lemma settle_gone:
  "settle (child_gone code, s) = (StopCheck code, (timeless s)\<lparr>child_running := False,
     last_exit_code := code, child_port := 0\<rparr>)"
  by (simp add: child_gone_def timeless_def)

lemma settle_after:
  "settle (after_exit code, s) =
     (case classify_pass_exit code of
        DidWork \<Rightarrow> (AtTop, (timeless s)\<lparr>total_passes_did_work := total_passes_did_work s + 1, consecutive_failures := 0\<rparr>)
      | NothingPending \<Rightarrow> (Sleeping (nat kPollIntervalSeconds), (timeless s)\<lparr>consecutive_failures := 0\<rparr>)
      | Failed \<Rightarrow> (CountFailure, (timeless s)\<lparr>total_passes_failed := total_passes_failed s + 1\<rparr>)
      | Crashed \<Rightarrow> (CountFailure, (timeless s)\<lparr>total_passes_crashed := total_passes_crashed s + 1\<rparr>))"
  by (simp add: after_exit_def timeless_def split: PassOutcome.split)

lemmas settle_facts = settle_launch settle_gone settle_after

lemma poll_exit_cases:
  "poll_exit status s = (None, s) \<and> (\<not> process_running s \<or> status = StillRunning) \<or>
   (\<exists>code. poll_exit status s = (Some code, s\<lparr>process_running := False\<rparr>))"
  by (cases status) (simp_all add: poll_exit_def)

lemma poll_child_cases:
  "poll_child status s = (Polling, s) \<or> (\<exists>code. poll_child status s = (child_gone code, s\<lparr>process_running := False\<rparr>))"
  using poll_exit_cases [of status s] by (auto simp: poll_child_def)

lemma stop_child_cases:
  "\<exists>code. stop_child status s = (child_gone code, s\<lparr>process_running := False\<rparr>)"
  using poll_exit_cases [of status s] by (cases "process_running s") (auto simp: stop_child_def stop_and_wait_def)

subsection \<open>Invariants\<close>

text \<open>One child at a time, its process and port known exactly while the loop watches it, and every
  finished pass launched before. A stop is at most 13 loop steps away.\<close>

fun watching :: "svc_pc \<Rightarrow> bool" where
  "watching Polling = True" | "watching PollSleep = True" | "watching Stopping = True" | "watching pc = False"

fun exit_seen :: "svc_pc \<Rightarrow> bool" where
  "exit_seen (StopCheck code) = True" | "exit_seen pc = False"

fun steps_to_stop :: "svc_pc \<Rightarrow> nat" where
  "steps_to_stop Done = 0" | "steps_to_stop AtTop = 1" | "steps_to_stop (StopCheck c) = 1"
| "steps_to_stop (Sleeping n) = 2" | "steps_to_stop CountFailure = 3" | "steps_to_stop Stopping = 6"
| "steps_to_stop Polling = 7" | "steps_to_stop PollSleep = 8" | "steps_to_stop Launching = 12"
| "steps_to_stop PauseCheck = 13" | "steps_to_stop (Stores xs k) = max 1 (length xs) + steps_to_stop k"

fun flat_pc :: "svc_pc \<Rightarrow> bool" where
  "flat_pc (Stores xs k) \<longleftrightarrow> \<not> is_stores k"
| "flat_pc pc \<longleftrightarrow> True"

fun settled_ok :: "svc_pc \<times> service_state \<Rightarrow> bool" where
  "settled_ok (pc, s) \<longleftrightarrow>
     (process_running s \<longleftrightarrow> watching pc) \<and> (child_running s \<longleftrightarrow> watching pc) \<and>
     (child_port s \<noteq> 0 \<longrightarrow> watching pc) \<and>
     total_passes_did_work s + total_passes_failed s + total_passes_crashed s
       + (if watching pc \<or> exit_seen pc then 1 else 0) \<le> total_passes_launched s \<and>
     (\<forall>n. pc = Sleeping n \<longrightarrow> 0 < n \<and> int n \<le> kMaxFailureBackoffSeconds)"

definition svc_ok :: "svc_pc \<times> service_state \<Rightarrow> bool" where
  "svc_ok x \<longleftrightarrow> flat_pc (fst x) \<and> steps_to_stop (fst x) \<le> 13 \<and> settled_ok (settle x)"

lemma backoff_range: "0 < failure_backoff_seconds n kPollIntervalSeconds kMaxFailureBackoffSeconds"
    "failure_backoff_seconds n kPollIntervalSeconds kMaxFailureBackoffSeconds \<le> kMaxFailureBackoffSeconds"
  by (simp_all add: failure_backoff_eq kPollIntervalSeconds_def kMaxFailureBackoffSeconds_def)

lemma poll_range: "0 < nat kPollIntervalSeconds" "int (nat kPollIntervalSeconds) \<le> kMaxFailureBackoffSeconds"
  by (simp_all add: kPollIntervalSeconds_def kMaxFailureBackoffSeconds_def)

lemma child_gone_simps [simp]: "flat_pc (child_gone code)" "steps_to_stop (child_gone code) = 5"
    "is_stores (child_gone code)"
  by (simp_all add: child_gone_def)

lemma after_exit_simps [simp]: "flat_pc (after_exit code)" "steps_to_stop (after_exit code) \<le> 5"
  by (simp_all add: after_exit_def split: PassOutcome.split)

lemma launch_simps [simp]: "flat_pc (fst (launch started port s))" "steps_to_stop (fst (launch started port s)) \<le> 11"
  by (simp_all add: launch_def start_child_def split: option.split)

lemma store_step_flat:
  "\<not> is_stores k \<Longrightarrow> flat_pc (fst (loop_step port started status now (Stores xs k) s))"
  by (cases xs; cases k) auto

lemma store_step_bound:
  "steps_to_stop (fst (loop_step port started status now (Stores xs k) s)) \<le> steps_to_stop (Stores xs k) - 1"
  by (cases xs) (auto simp: Suc_le_eq)

lemma timeless_simps [simp]:
  "process_running (timeless s) = process_running s" "child_running (timeless s) = child_running s"
  "child_port (timeless s) = child_port s" "total_passes_launched (timeless s) = total_passes_launched s"
  "total_passes_did_work (timeless s) = total_passes_did_work s"
  "total_passes_failed (timeless s) = total_passes_failed s"
  "total_passes_crashed (timeless s) = total_passes_crashed s"
  "svc_paused (timeless s) = svc_paused s"
  by (simp_all add: timeless_def)

lemma loop_step_ok:
  assumes ok: "svc_ok (pc, s)"
  shows "svc_ok (loop_step port started status now pc s)"
proof (cases pc)
  case Launching
  then show ?thesis using ok le_trans [OF launch_simps(2), of 13]
    by (cases port) (auto simp: svc_ok_def settle_launch)
next
  case PollSleep
  then show ?thesis using ok poll_child_cases [of status s] by (auto simp: svc_ok_def settle_gone)
next
  case Stopping
  then show ?thesis using ok stop_child_cases [of status s] by (auto simp: svc_ok_def settle_gone)
next
  case (StopCheck code)
  then show ?thesis using ok le_trans [OF after_exit_simps(2), of 13] poll_range
    by (auto simp: svc_ok_def settle_after split: PassOutcome.split)
next
  case CountFailure
  have "0 < failure_backoff_seconds (Suc n) kPollIntervalSeconds kMaxFailureBackoffSeconds" for n
    using backoff_range(1) .
  with CountFailure show ?thesis using ok backoff_range(2)
    by (auto simp: svc_ok_def count_failure_def Let_def timeless_def less_imp_le)
next
  case (Sleeping n)
  then show ?thesis using ok by (auto simp: svc_ok_def sleep_second_def timeless_def)
next
  case (Stores xs k)
  then have k: "\<not> is_stores k" using ok by (simp add: svc_ok_def)
  show ?thesis using ok settle_store [OF k] store_step_flat [OF k] store_step_bound [of port started status now xs k s]
    by (auto simp: svc_ok_def Stores)
qed (use ok poll_range in \<open>auto simp: svc_ok_def\<close>)

text \<open>The other threads touch the three flags only.\<close>

lemma fold_stores_flags:
  "fold (do_store 0) xs (s\<lparr>svc_paused := p\<rparr>) = (fold (do_store 0) xs s)\<lparr>svc_paused := p\<rparr>"
  "fold (do_store 0) xs (s\<lparr>stop_requested := p\<rparr>) = (fold (do_store 0) xs s)\<lparr>stop_requested := p\<rparr>"
  "fold (do_store 0) xs (s\<lparr>wake_requested := p\<rparr>) = (fold (do_store 0) xs s)\<lparr>wake_requested := p\<rparr>"
proof -
  have one: "do_store 0 x (s\<lparr>svc_paused := p\<rparr>) = (do_store 0 x s)\<lparr>svc_paused := p\<rparr>"
      "do_store 0 x (s\<lparr>stop_requested := p\<rparr>) = (do_store 0 x s)\<lparr>stop_requested := p\<rparr>"
      "do_store 0 x (s\<lparr>wake_requested := p\<rparr>) = (do_store 0 x s)\<lparr>wake_requested := p\<rparr>" for x s
    by (cases x; simp)+
  show "fold (do_store 0) xs (s\<lparr>svc_paused := p\<rparr>) = (fold (do_store 0) xs s)\<lparr>svc_paused := p\<rparr>"
    by (induction xs arbitrary: s) (simp_all add: one)
  show "fold (do_store 0) xs (s\<lparr>stop_requested := p\<rparr>) = (fold (do_store 0) xs s)\<lparr>stop_requested := p\<rparr>"
    by (induction xs arbitrary: s) (simp_all add: one)
  show "fold (do_store 0) xs (s\<lparr>wake_requested := p\<rparr>) = (fold (do_store 0) xs s)\<lparr>wake_requested := p\<rparr>"
    by (induction xs arbitrary: s) (simp_all add: one)
qed

lemma timeless_flags:
  "timeless (s\<lparr>svc_paused := p\<rparr>) = (timeless s)\<lparr>svc_paused := p\<rparr>"
  "timeless (s\<lparr>stop_requested := p\<rparr>) = (timeless s)\<lparr>stop_requested := p\<rparr>"
  "timeless (s\<lparr>wake_requested := p\<rparr>) = (timeless s)\<lparr>wake_requested := p\<rparr>"
  by (simp_all add: timeless_def)

lemma settle_flags:
  "settle (pc, s\<lparr>svc_paused := p\<rparr>) = apsnd (\<lambda>t. t\<lparr>svc_paused := p\<rparr>) (settle (pc, s))"
  "settle (pc, s\<lparr>stop_requested := p\<rparr>) = apsnd (\<lambda>t. t\<lparr>stop_requested := p\<rparr>) (settle (pc, s))"
  "settle (pc, s\<lparr>wake_requested := p\<rparr>) = apsnd (\<lambda>t. t\<lparr>wake_requested := p\<rparr>) (settle (pc, s))"
  by (cases pc; simp add: timeless_flags fold_stores_flags)+

fun is_loop :: "svc_label \<Rightarrow> bool" where
  "is_loop (Loop a b c) = True" | "is_loop _ = False"

fun flag_effect :: "svc_label \<Rightarrow> service_state \<Rightarrow> service_state" where
  "flag_effect PauseStore s = s\<lparr>svc_paused := True\<rparr>"
| "flag_effect ResumeStore s = s\<lparr>svc_paused := False\<rparr>"
| "flag_effect Wake s = s\<lparr>wake_requested := True\<rparr>"
| "flag_effect StopSignal s = s\<lparr>stop_requested := True\<rparr>"
| "flag_effect (Loop a b c) s = s"

lemma other_step:
  assumes "\<not> is_loop l"
  shows "svc_step port l (pc, s) = (pc, flag_effect l s)"
  using assms by (cases l) (simp_all add: wake_def)

lemma flag_effect_simps [simp]:
  "total_passes_launched (flag_effect l s) = total_passes_launched s"
  "settled_ok (pc, flag_effect l s) = settled_ok (pc, s)"
  "stop_requested s \<Longrightarrow> stop_requested (flag_effect l s)"
  "l \<noteq> ResumeStore \<Longrightarrow> svc_paused s \<Longrightarrow> svc_paused (flag_effect l s)"
  by (cases l; simp)+

lemma settle_effect: "settle (pc, flag_effect l s) = apsnd (flag_effect l) (settle (pc, s))"
  by (cases l) (simp_all add: settle_flags, cases "settle (pc, s)", simp)

lemma svc_step_ok:
  assumes ok: "svc_ok x"
  shows "svc_ok (svc_step port l x)"
proof (cases "is_loop l")
  case True
  with loop_step_ok assms show ?thesis by (cases l; cases x) auto
next
  case False
  obtain pc s where x: "x = (pc, s)" by (cases x)
  obtain k t where t: "settle (pc, s) = (k, t)" by (cases "settle (pc, s)")
  show ?thesis using ok
    by (simp add: x t svc_ok_def other_step [OF False] settle_effect del: settled_ok.simps)
qed

lemma svc_run_ok: "svc_ok x \<Longrightarrow> svc_ok (svc_run port ls x)"
  by (induction ls arbitrary: x) (simp_all add: svc_step_ok)

lemma svc_start_ok: "svc_ok (AtTop, service_state0)"
  by (simp add: svc_ok_def service_state0_def)

subsection \<open>Pausing\<close>

text \<open>
  While no resume arrives, a paused service launches nothing more, except the one pass whose pause
  check came before the pause.
\<close>

definition launches_left :: "svc_pc \<times> service_state \<Rightarrow> nat" where
  "launches_left x = total_passes_launched (snd (settle x)) + (if fst (settle x) = Launching then 1 else 0)"

lemma store_same [simp]: "svc_paused (do_store now x s) = svc_paused s"
    "stop_requested (do_store now x s) = stop_requested s"
  by (cases x; simp)+

lemma loop_step_flags:
  "svc_paused (snd (loop_step port started status now pc s)) = svc_paused s"
  "stop_requested (snd (loop_step port started status now pc s)) = stop_requested s"
  using poll_child_cases [of status s] stop_child_cases [of status s]
  by (cases "(port, started, status, now, pc, s)" rule: loop_step.cases;
      auto simp: launch_def start_child_def count_failure_def sleep_second_def Let_def)+

lemma loop_step_launches:
  assumes paused: "svc_paused s" and flat: "flat_pc pc"
  shows "launches_left (loop_step port started status now pc s) \<le> launches_left (pc, s)"
proof (cases pc)
  case (Stores xs k)
  with flat have "\<not> is_stores k" by simp
  from settle_store [OF this, of port started status now xs s] show ?thesis by (simp add: launches_left_def Stores)
next
  case PollSleep
  then show ?thesis using poll_child_cases [of status s] by (auto simp: launches_left_def settle_gone)
next
  case Stopping
  then show ?thesis using stop_child_cases [of status s] by (auto simp: launches_left_def settle_gone)
qed (use paused in \<open>auto simp: launches_left_def settle_launch settle_after count_failure_def sleep_second_def
      Let_def timeless_def split: PassOutcome.split\<close>)

lemma svc_step_paused:
  assumes paused: "svc_paused (snd x)" and l: "l \<noteq> ResumeStore" and ok: "svc_ok x"
  shows "svc_paused (snd (svc_step port l x)) \<and> launches_left (svc_step port l x) \<le> launches_left x"
proof (cases "is_loop l")
  case True
  with loop_step_launches loop_step_flags assms show ?thesis by (cases l; cases x) (auto simp: svc_ok_def)
next
  case False
  obtain pc s where x: "x = (pc, s)" by (cases x)
  show ?thesis using paused l by (simp add: x launches_left_def other_step [OF False] settle_effect)
qed

lemma svc_run_paused:
  "svc_paused (snd x) \<Longrightarrow> svc_ok x \<Longrightarrow> ResumeStore \<notin> set ls \<Longrightarrow>
    launches_left (svc_run port ls x) \<le> launches_left x"
proof (induction ls arbitrary: x)
  case (Cons l ls)
  then have l: "l \<noteq> ResumeStore" "ResumeStore \<notin> set ls" by auto
  note step = svc_step_paused [OF Cons.prems(1) l(1) Cons.prems(2), of port]
  have "launches_left (svc_run port ls (svc_step port l x)) \<le> launches_left (svc_step port l x)"
    using step svc_step_ok [OF Cons.prems(2)] l(2) by (intro Cons.IH) simp_all
  with step show ?case by simp
qed simp

text \<open>The counter itself lags behind by at most the launch under way.\<close>

lemma launched_le: "total_passes_launched (do_store now x s) \<ge> total_passes_launched s"
  by (cases x) simp_all

lemma launched_le_settled: "total_passes_launched s \<le> launches_left (pc, s)"
proof -
  have "total_passes_launched s \<le> total_passes_launched (fold (do_store 0) xs s)" for xs s
    by (induction xs arbitrary: s) (auto intro: le_trans [OF launched_le])
  from this [of "timeless s"] show ?thesis by (cases pc) (auto simp: launches_left_def intro: le_SucI)
qed

subsection \<open>Stopping\<close>

text \<open>Once a stop is requested, each loop step brings the end closer, whatever else happens.\<close>

lemma loop_step_stops:
  assumes stop: "stop_requested s"
  shows "steps_to_stop (fst (loop_step port started status now pc s)) \<le> steps_to_stop pc - 1"
proof (cases pc)
  case (Stores xs k)
  then show ?thesis using store_step_bound by blast
next
  case PollSleep
  then show ?thesis using poll_child_cases [of status s] by auto
next
  case Stopping
  then show ?thesis using stop_child_cases [of status s] by auto
qed (use stop in \<open>auto simp: count_failure_def sleep_second_def Let_def\<close>)

lemma stop_step:
  assumes "stop_requested (snd x)"
  shows "stop_requested (snd (svc_step port l x)) \<and>
    steps_to_stop (fst (svc_step port l x)) \<le> steps_to_stop (fst x) - (if is_loop l then 1 else 0)"
proof (cases "is_loop l")
  case True
  with loop_step_stops loop_step_flags assms show ?thesis by (cases l; cases x) auto
next
  case False
  with assms show ?thesis by (cases x) (simp add: other_step)
qed

lemma stop_run:
  assumes "stop_requested (snd x)"
  shows "steps_to_stop (fst (svc_run port ls x)) \<le> steps_to_stop (fst x) - length (filter is_loop ls)"
  using assms
proof (induction ls arbitrary: x)
  case (Cons l ls)
  note step = stop_step [OF Cons.prems, of port l]
  from Cons.IH [OF conjunct1 [OF step]] conjunct2 [OF step] show ?case by (cases "is_loop l") simp_all
qed simp

lemma stop_done:
  assumes "stop_requested (snd x)" and "svc_ok x" and "13 \<le> length (filter is_loop ls)"
  shows "fst (svc_run port ls x) = Done"
proof -
  from assms(2) have "steps_to_stop (fst x) \<le> 13" by (simp add: svc_ok_def)
  with stop_run [OF assms(1), of port ls] assms(3) have "steps_to_stop (fst (svc_run port ls x)) = 0" by linarith
  then show ?thesis by (cases "fst (svc_run port ls x)") simp_all
qed

lemma done_clean:
  assumes "svc_ok (Done, s)"
  shows "\<not> process_running s" "\<not> child_running s" "child_port s = 0"
  using assms by (auto simp: svc_ok_def)

subsection \<open>A pass reads its command line as the service meant it\<close>

definition plain_value :: "string option \<Rightarrow> bool" where
  "plain_value v \<longleftrightarrow> (case v of Some x \<Rightarrow> \<not> starts_with ''--'' x | None \<Rightarrow> True)"

lemma parse_opt_flag:
  assumes "flag \<in> value_flags" and "plain_value v" and "v = None \<Longrightarrow> r' = r"
    and "\<And>x. v = Some x \<Longrightarrow> set_value flag x r = r' \<and> arg_error r' = None"
  shows "parse_args r (opt_flag flag v @ rest) = parse_args r' rest"
  using assms by (cases v) (auto simp: opt_flag_def plain_value_def Let_def)

lemma number_not_flag: "1 \<le> i \<Longrightarrow> \<not> starts_with ''--'' (int_to_string i)"
proof -
  assume i: "1 \<le> i"
  obtain c cs where c: "nat_to_string (nat i) = c # cs" "is_digit c" by (rule nat_to_string_first)
  then show ?thesis using i digit_not_special [OF c(2)] by (simp add: int_to_string_def starts_with_def)
qed

lemma child_argv_parse:
  assumes plain: "plain_value (config_path cli)" "plain_value (model_name cli)"
      "plain_value (gpu_strategy cli)" "plain_value (Some log)"
    and obj: "objective cli \<in> {''chatbot'', ''lejepa''}"
    and kind: "is_dataset_kind (resolve_dataset_kind (objective cli) (dataset_kind cli))"
    and port: "\<And>p. port = Some p \<Longrightarrow> 1 \<le> p \<and> p \<le> 65535"
  shows "parse_incremental_trainer_global_args (drop 1 (trainer_service_child_argv path cli port log)) =
     \<lparr>config_path = config_path cli, gpu_strategy = gpu_strategy cli, model_name = model_name cli,
      foreground = True, admin_port = port, objective = objective cli,
      dataset_kind = Some (resolve_dataset_kind (objective cli) (dataset_kind cli)),
      log_file = (if log = [] then None else Some log), args = [''resume''], arg_error = None\<rparr>"
proof -
  let ?kind = "resolve_dataset_kind (objective cli) (dataset_kind cli)"
  define ow where "ow = ''--objective='' @ objective cli"
  define lo where "lo = (if log = [] then None else Some log)"
  have flags: "''--config'' \<in> value_flags" "''--model'' \<in> value_flags" "''--gpu-strategy'' \<in> value_flags"
      "''--dataset-kind'' \<in> value_flags" "''--log-file'' \<in> value_flags" "''--admin-port'' \<in> value_flags"
    by (simp_all add: value_flags_def)
  have kind_plain: "\<not> starts_with ''--'' ?kind" using kind by (auto simp: is_dataset_kind_def starts_with_def)
  have argv: "drop 1 (trainer_service_child_argv path cli port log) =
      opt_flag ''--config'' (config_path cli) @ opt_flag ''--model'' (model_name cli) @
      opt_flag ''--gpu-strategy'' (gpu_strategy cli) @ ow #
      opt_flag ''--dataset-kind'' (Some ?kind) @ opt_flag ''--log-file'' lo @
      ''--foreground'' # opt_flag ''--admin-port'' (map_option int_to_string port) @ [''resume'']"
    by (simp add: trainer_service_child_argv_def opt_flag_def ow_def lo_def)
  have word: "parse_args r (a # rest) = parse_args (set_word a r) rest"
    if "a \<notin> value_flags" "arg_error (set_word a r) = None" for r a rest
    using that by (simp add: Let_def)
  have words: "ow \<notin> value_flags" "''--foreground'' \<notin> value_flags"
      "''resume'' \<notin> value_flags" by (simp_all add: value_flags_def ow_def)
  have set_words: "set_word ow r = r\<lparr>objective := objective cli\<rparr>"
      "set_word ''--foreground'' r = r\<lparr>foreground := True\<rparr>"
      "set_word ''resume'' r = r\<lparr>args := args r @ [''resume'']\<rparr>" for r
    using obj by (auto simp: set_word_def starts_with_def Let_def ow_def)
  have set_values: "set_value ''--config'' v r = r\<lparr>config_path := Some v\<rparr>"
      "set_value ''--model'' v r = r\<lparr>model_name := Some v\<rparr>"
      "set_value ''--gpu-strategy'' v r = r\<lparr>gpu_strategy := Some v\<rparr>"
      "set_value ''--log-file'' v r = r\<lparr>log_file := Some v\<rparr>"
      "set_value ''--dataset-kind'' ?kind r = r\<lparr>dataset_kind := Some ?kind\<rparr>" for v r
    using kind by (simp_all add: set_value_def)
  have set_port: "set_value ''--admin-port'' (int_to_string p) r = r\<lparr>admin_port := Some p\<rparr>"
    if "port = Some p" for p r
    using port [OF that] by (simp add: set_value_def parse_strict_int_def parse_int_print)
  have port_plain: "plain_value (map_option int_to_string port)"
    using port number_not_flag by (cases port) (auto simp: plain_value_def)
  have log_plain: "plain_value lo"
    using plain(4) by (simp add: plain_value_def lo_def)
  have kind_plain': "plain_value (Some ?kind)" using kind_plain by (simp add: plain_value_def)
  have opts: "config_path r = None \<Longrightarrow> parse_args r (opt_flag ''--config'' (config_path cli) @ rest) =
        parse_args (r\<lparr>config_path := config_path cli\<rparr>) rest"
      "model_name r = None \<Longrightarrow> parse_args r (opt_flag ''--model'' (model_name cli) @ rest) =
        parse_args (r\<lparr>model_name := model_name cli\<rparr>) rest"
      "gpu_strategy r = None \<Longrightarrow> parse_args r (opt_flag ''--gpu-strategy'' (gpu_strategy cli) @ rest) =
        parse_args (r\<lparr>gpu_strategy := gpu_strategy cli\<rparr>) rest"
      "parse_args r (opt_flag ''--dataset-kind'' (Some ?kind) @ rest) =
        parse_args (r\<lparr>dataset_kind := Some ?kind\<rparr>) rest"
      "log_file r = None \<Longrightarrow> parse_args r (opt_flag ''--log-file'' lo @ rest) =
        parse_args (r\<lparr>log_file := lo\<rparr>) rest"
      "admin_port r = None \<Longrightarrow> parse_args r (opt_flag ''--admin-port'' (map_option int_to_string port) @ rest) =
        parse_args (r\<lparr>admin_port := port\<rparr>) rest"
    if "arg_error r = None" for r rest
    using that
    by - (rule parse_opt_flag [OF flags(1) plain(1)] parse_opt_flag [OF flags(2) plain(2)]
          parse_opt_flag [OF flags(3) plain(3)] parse_opt_flag [OF flags(4) kind_plain']
          parse_opt_flag [OF flags(5) log_plain] parse_opt_flag [OF flags(6) port_plain];
        cases r; auto simp: set_values set_port)+
  show ?thesis
    unfolding argv parse_incremental_trainer_global_args_def
    by (simp add: opts word words set_words GlobalArgs0_def lo_def [symmetric] del: parse_args.simps(2))
qed

end
