(* ===== verification/Trainer_Properties.thy ===== *)
theory Trainer_Properties
  imports Trainer_Control Trainer_Service
begin

text \<open>
  What the control state of a training pass and the training service promise, over every interleaving
  of their threads (\<open>TrainerControlState.hpp\<close>, \<open>TrainerServiceControlState.hpp\<close>,
  \<open>TrainerServiceMain.cpp\<close>, \<open>IncrementalTrainerArgs.cpp\<close> under \<open>src/src/\<close>).
\<close>

section \<open>Phases\<close>

text \<open>After any interleaving of the pass's \<open>set_phase\<close> calls, admin pauses and resumes, and stop
  signals, the reported phase is the one the pass set last, or \<open>pausing\<close> with a pause pending on a
  working pass; cancelling the pause then brings back exactly the phase the pass is in.\<close>

theorem reported_phase:
  assumes "list_all pass_event es"
  shows "(phase (phase_run es) = last_set es \<or>
      phase (phase_run es) = Pausing \<and> paused (phase_run es) \<and> is_working (last_set es)) \<and>
    phase (clear_pause (phase_run es)) = last_set es"
  using phase_run_ok [OF assms] by (auto simp: phase_ok_def clear_pause_def Let_def)

theorem reported_phase_witness:
  "phase (clear_pause (phase_run [SetPhase LoadingData, Signal, SetPhase Training, RequestPause])) = Training"
  using reported_phase [of "[SetPhase LoadingData, Signal, SetPhase Training, RequestPause]"]
  by (simp add: pass_event_def last_set_def)

text \<open>A pause requested through the admin API is reported at once by a working pass, and while it is
  pending no later phase change of the pass reports a working phase.\<close>

theorem pause_reported:
  assumes "list_all pass_event es" and "is_working (last_set es)"
  shows "phase (request_pause (phase_run es)) = Pausing \<and>
    \<not> is_working (phase (set_phase p (request_pause (phase_run es))))"
  using request_pause_visible [OF phase_run_ok [OF assms(1)] assms(2)] set_phase_pending by simp

theorem pause_reported_witness:
  "phase (request_pause (phase_run [SetPhase Tokenizing])) = Pausing"
  using pause_reported [of "[SetPhase Tokenizing]"] by (simp add: pass_event_def last_set_def is_working_def)

section \<open>Requested checkpoints\<close>

text \<open>C4: in every interleaving of admin threads and the pass, a ticket counted as served was asked for,
  and a checkpoint was begun after it was asked for.\<close>

theorem served_means_written_after:
  assumes "ticket_run failed s" and "1 \<le> t" and "t \<le> served s"
  shows "asked t (history s) \<and> written_after t (history s)"
  using ticket_run_ok [OF assms(1)] assms(2,3) by (auto simp: ticket_ok_def)

definition ticket_sample :: ticket_state where
  "ticket_sample = mark_checkpoint_served 1 (write_checkpoint True 1 (load_made
     (exchange_request (store_request 1 (snd (request_ticket ticket_state0))))))"

lemma ticket_sample_run: "\<exists>f. ticket_run f ticket_sample"
proof -
  let ?a = "snd (request_ticket ticket_state0)"
  let ?b = "store_request 1 ?a" let ?c = "exchange_request ?b" let ?d = "load_made ?c"
  let ?e = "write_checkpoint True 1 ?d"
  note defs = request_ticket_def ticket_state0_def store_request_def exchange_request_def load_made_def
    write_checkpoint_def Let_def
  have "ticket_step ticket_state0 ?a" by (rule ask)
  moreover have "ticket_step ?a ?b" by (rule store) (simp add: defs)
  moreover have "ticket_step ?b ?c" by (rule exchange) (simp add: defs)
  moreover have "ticket_step ?c ?d" by (rule load) (simp add: defs)
  moreover have "ticket_step ?d ?e" by (rule save) (simp add: defs)
  moreover have "ticket_step ?e ticket_sample" unfolding ticket_sample_def by (rule mark) (simp add: defs)
  ultimately show ?thesis by (meson ticket_run.intros)
qed

theorem served_means_written_after_witness: "written_after 1 (history ticket_sample)"
proof -
  obtain f where "ticket_run f ticket_sample" using ticket_sample_run by blast
  from served_means_written_after [OF this, of 1] show ?thesis
    by (simp add: ticket_sample_def mark_checkpoint_served_def write_checkpoint_def load_made_def
        exchange_request_def store_request_def request_ticket_def ticket_state0_def)
qed

text \<open>C38: in every interleaving, once a request's flag store is done, its ticket is served, or the flag
  is still up, or the pass has consumed the flag and is about to serve at least this ticket, unless
  writing a checkpoint that covered the ticket failed.\<close>

theorem no_request_lost:
  assumes "ticket_run failed s" and "1 \<le> t" and "t \<le> made s" and "t \<notin> set (storing s)"
  shows "t \<le> served s \<or> requested s \<or> pass_pc s = Took \<or> t \<le> held (pass_pc s) \<or> t \<le> failed"
  using ticket_run_pending [OF assms(1)] assms(2-4) by (auto simp: pending_ok_def)

theorem no_request_lost_witness: "\<exists>f. ticket_run f ticket_sample \<and> (1 \<le> served ticket_sample \<or> 1 \<le> f)"
proof -
  obtain f where f: "ticket_run f ticket_sample" using ticket_sample_run by blast
  with no_request_lost [OF f, of 1] show ?thesis
    by (auto simp: ticket_sample_def mark_checkpoint_served_def write_checkpoint_def load_made_def
        exchange_request_def store_request_def request_ticket_def ticket_state0_def)
qed

section \<open>The log ring\<close>

text \<open>After any sequence of log calls at any levels, the ring holds at most its maximum of entries,
  with consecutive ids ending just below the next one, and no message longer than the cap and its
  \<open>[truncated]\<close> mark.\<close>

theorem log_ring_invariant:
  "log_ok (fold (\<lambda>(logger_level, now, level, message). log logger_level now level message) calls log_state0)"
proof -
  have "log_ok s \<Longrightarrow> log_ok (fold (\<lambda>(logger_level, now, level, message). log logger_level now level message) calls s)" for s
    by (induction calls arbitrary: s) (auto intro: log_ok_step)
  then show ?thesis by (simp add: log_ok_def log_state0_def)
qed

section \<open>The service loop\<close>

text \<open>The doubling loop computes the closed form, capped at the maximum, for any number of failures.\<close>

theorem backoff_closed_form:
  assumes "0 < base_seconds"
  shows "failure_backoff_seconds n base_seconds max_seconds = min (base_seconds * 2 ^ (n - 1)) max_seconds"
  using assms by (rule failure_backoff_eq)

theorem backoff_closed_form_witness: "failure_backoff_seconds 4 45 900 = 360"
  using backoff_closed_form [of 45 4 900] by simp

text \<open>From the start of the service, in every interleaving of its loop with the admin thread and
  signals, and up to the stores the loop is about to make: a child process, its pid and its port are
  known exactly while the loop watches it, every finished pass was launched, and no sleep is longer
  than the maximum back-off.\<close>

theorem service_invariant:
  "settled_ok (settle (svc_from_start port labels))"
  using svc_run_ok [OF svc_start_ok, of port labels] by (simp add: svc_ok_def)

text \<open>While a pause is in force and no resume arrives, the service launches no further pass, except
  one whose pause check had already been made or whose launch is being recorded.\<close>

theorem paused_service_launches_nothing:
  assumes "svc_paused (snd (svc_from_start port before))" and "ResumeStore \<notin> set after"
  shows "total_passes_launched (snd (svc_run port after (svc_from_start port before)))
    \<le> launches_left (svc_from_start port before)"
proof -
  let ?x = "svc_from_start port before"
  from svc_run_paused [OF assms(1) svc_run_ok [OF svc_start_ok] assms(2)]
  have "launches_left (svc_run port after ?x) \<le> launches_left ?x" .
  moreover have "total_passes_launched (snd (svc_run port after ?x)) \<le> launches_left (svc_run port after ?x)"
    by (cases "svc_run port after ?x") (simp add: launched_le_settled)
  ultimately show ?thesis by linarith
qed

theorem paused_service_launches_nothing_witness:
  "total_passes_launched (snd (svc_run None [Loop True StillRunning 1, Wake, Loop True StillRunning 2]
     (svc_from_start None [PauseStore]))) \<le> 0"
  using paused_service_launches_nothing [of None "[PauseStore]" "[Loop True StillRunning 1, Wake, Loop True StillRunning 2]"]
  by (simp add: service_state0_def launches_left_def timeless_def)

text \<open>C39: once a stop is requested, the loop ends within thirteen of its own steps, wherever it is,
  however long the child goes on running and whatever the admin thread does meanwhile; then no child
  process is left, and the reported pid and the proxy's port are cleared.\<close>

theorem stop_ends_the_service:
  assumes "stop_requested (snd (svc_from_start port before))"
    and "13 \<le> length (filter is_loop after)"
    and "svc_run port after (svc_from_start port before) = (pc, s)"
  shows "pc = Done \<and> \<not> process_running s \<and> \<not> child_running s \<and> child_port s = 0"
proof -
  have ok: "svc_ok (svc_from_start port before)" by (rule svc_run_ok [OF svc_start_ok])
  from stop_done [OF assms(1) ok assms(2)] assms(3) have "pc = Done" by (metis fst_conv)
  with svc_run_ok [OF ok, of port after] assms(3) show ?thesis by (auto dest: done_clean)
qed

theorem stop_ends_the_service_witness:
  "fst (svc_run (Some 8090) (replicate 13 (Loop True StillRunning 9))
     (svc_from_start (Some 8090) (replicate 9 (Loop True StillRunning 1) @ [StopSignal]))) = Done"
proof -
  let ?b = "replicate 9 (Loop True StillRunning 1) @ [StopSignal]"
  let ?a = "replicate 13 (Loop True StillRunning 9)"
  obtain pc s where run: "svc_run (Some 8090) ?a (svc_from_start (Some 8090) ?b) = (pc, s)" by force
  have "stop_requested (snd (svc_from_start (Some 8090) ?b))"
    by (simp add: eval_nat_numeral service_state0_def launch_def start_child_def poll_child_def poll_exit_def)
  moreover have "13 \<le> length (filter is_loop ?a)" by (simp add: filter_replicate)
  ultimately show ?thesis unfolding run using stop_ends_the_service [OF _ _ run] by simp
qed

text \<open>C40: a pass launched by the service parses, from the command line the service builds, exactly the
  settings the service was given, with the dataset pool resolved.\<close>

theorem pass_reads_its_command_line:
  assumes "plain_value (config_path cli)" and "plain_value (model_name cli)"
    and "plain_value (gpu_strategy cli)" and "plain_value (Some pass_log)"
    and "objective cli \<in> {''chatbot'', ''lejepa''}"
    and "is_dataset_kind (resolve_dataset_kind (objective cli) (dataset_kind cli))"
    and "\<And>p. port = Some p \<Longrightarrow> 1 \<le> p \<and> p \<le> 65535"
  shows "parse_incremental_trainer_global_args (drop 1 (trainer_service_child_argv path cli port pass_log)) =
     \<lparr>config_path = config_path cli, gpu_strategy = gpu_strategy cli, model_name = model_name cli,
      foreground = True, admin_port = port, objective = objective cli,
      dataset_kind = Some (resolve_dataset_kind (objective cli) (dataset_kind cli)),
      log_file = (if pass_log = [] then None else Some pass_log), args = [''resume''], arg_error = None\<rparr>"
  using assms by (rule child_argv_parse)

theorem pass_reads_its_command_line_witness:
  "admin_port (parse_incremental_trainer_global_args
     (drop 1 (trainer_service_child_argv ''t'' (GlobalArgs0\<lparr>model_name := Some ''m''\<rparr>) (Some 9090) ''log''))) = Some 9090"
  using pass_reads_its_command_line [of "GlobalArgs0\<lparr>model_name := Some ''m''\<rparr>" "''log''" "Some 9090" "''t''"]
  by (simp add: GlobalArgs0_def plain_value_def starts_with_def resolve_dataset_kind_def is_dataset_kind_def)

end
