(* ===== verification/Utf8.thy ===== *)
theory Utf8
  imports Text_Lib
begin

text \<open>
  The UTF-8 helpers of \<open>src/src/BPETokenizer.cpp\<close>: \<open>utf8_split_codepoints\<close> and \<open>is_valid_utf8\<close>
  (which, as its comment says, accepts overlong forms, surrogates and lead bytes up to 0xF7).
\<close>

definition byte_of :: "char \<Rightarrow> u8" where
  "byte_of c = of_char c"

definition is_ascii :: "char \<Rightarrow> bool" where
  "is_ascii c \<longleftrightarrow> byte_of c AND 0x80 = 0"

lemma is_ascii_iff: "is_ascii c \<longleftrightarrow> of_char c < (128 :: nat)"
proof -
  define n :: nat where "n = of_char c"
  have n: "n < 256" by (simp add: n_def nat_of_char_less_256)
  have "byte_of c = of_nat n" by (simp only: byte_of_def n_def of_nat_of_char)
  then have "is_ascii c \<longleftrightarrow> even (n div 128)" by (simp add: is_ascii_def and_0x80 bit7_of_nat)
  also have "\<dots> \<longleftrightarrow> n < 128"
  proof (cases "n < 128")
    case False
    then have "n div 128 = 1" using n by simp
    with False show ?thesis by simp
  qed simp
  finally show ?thesis by (simp add: n_def)
qed

text \<open>The sequence length a lead byte announces; \<open>None\<close> for a byte that is no lead byte.\<close>

definition lead_length :: "char \<Rightarrow> nat option" where
  "lead_length c =
     (if byte_of c AND 0x80 = 0 then Some 1
      else if byte_of c AND 0xE0 = 0xC0 then Some 2
      else if byte_of c AND 0xF0 = 0xE0 then Some 3
      else if byte_of c AND 0xF8 = 0xF0 then Some 4
      else None)"

lemma lead_length_range: "lead_length c = Some n \<Longrightarrow> 1 \<le> n \<and> n \<le> 4"
  by (auto simp: lead_length_def split: if_splits)

lemma lead_length_ascii: "is_ascii c \<Longrightarrow> lead_length c = Some 1"
  by (simp add: lead_length_def is_ascii_def)

definition split_width :: "string \<Rightarrow> nat" where
  "split_width s =
     (case s of [] \<Rightarrow> 1
      | c # _ \<Rightarrow>
          let bytes = (case lead_length c of Some n \<Rightarrow> n | None \<Rightarrow> 1)
          in if bytes > length s then 1 else bytes)"

lemma split_width_pos: "0 < split_width s"
  by (auto simp: split_width_def Let_def dest: lead_length_range split: list.split option.split)

function utf8_split_codepoints :: "string \<Rightarrow> string list" where
  "utf8_split_codepoints s =
     (if s = [] then []
      else take (split_width s) s # utf8_split_codepoints (drop (split_width s) s))"
  by pat_completeness auto
termination
  by (relation "measure length") (auto simp: split_width_pos)

declare utf8_split_codepoints.simps [simp del]

function is_valid_utf8 :: "string \<Rightarrow> bool" where
  "is_valid_utf8 s =
     (case s of [] \<Rightarrow> True
      | c # _ \<Rightarrow>
          (case lead_length c of
             None \<Rightarrow> False
           | Some bytes \<Rightarrow>
               bytes \<le> length s \<and> list_all is_continuation (take (bytes - 1) (drop 1 s)) \<and>
               is_valid_utf8 (drop bytes s)))"
  by pat_completeness auto
termination
  by (relation "measure length") (auto dest: lead_length_range)

declare is_valid_utf8.simps [simp del]

lemma split_Nil [simp]: "utf8_split_codepoints [] = []"
  by (simp add: utf8_split_codepoints.simps)

lemma valid_Nil [simp]: "is_valid_utf8 []"
  by (simp add: is_valid_utf8.simps)

text \<open>Splitting loses nothing, on any input.\<close>

lemma concat_split [simp]: "concat (utf8_split_codepoints s) = s"
proof (induction s rule: utf8_split_codepoints.induct)
  case (1 s)
  then show ?case by (cases "s = []") (simp_all add: utf8_split_codepoints.simps [of s])
qed

lemma split_nonempty: "p \<in> set (utf8_split_codepoints s) \<Longrightarrow> p \<noteq> [] \<and> length p \<le> 4"
proof (induction s rule: utf8_split_codepoints.induct)
  case (1 s)
  have "split_width s \<le> 4"
    by (auto simp: split_width_def Let_def dest: lead_length_range split: list.split option.split)
  with 1 split_width_pos [of s] show ?case
    by (cases "s = []") (auto simp: utf8_split_codepoints.simps [of s])
qed

text \<open>One code point: a lead byte and as many continuation bytes as it announces.\<close>

definition codepoint :: "string \<Rightarrow> bool" where
  "codepoint p \<longleftrightarrow>
     (case p of [] \<Rightarrow> False
      | c # cs \<Rightarrow> lead_length c = Some (length p) \<and> list_all is_continuation cs)"

lemma valid_first:
  assumes "is_valid_utf8 s" and "s \<noteq> []"
  obtains p r where "s = p @ r" and "codepoint p" and "is_valid_utf8 r" and "split_width s = length p"
proof -
  obtain c cs where s: "s = c # cs" using assms(2) by (cases s) auto
  from assms(1) obtain n where n: "lead_length c = Some n" "n \<le> length s"
      "list_all is_continuation (take (n - 1) cs)" "is_valid_utf8 (drop n s)"
    by (auto simp: is_valid_utf8.simps [of "c # cs"] s split: option.splits)
  from lead_length_range [OF n(1)] obtain m where m: "n = Suc m" by (cases n) auto
  show thesis
  proof (rule that [of "take n s" "drop n s"])
    show "codepoint (take n s)" using n m by (simp add: codepoint_def s)
    show "split_width s = length (take n s)" using n by (simp add: split_width_def s)
  qed (use n in simp_all)
qed

lemma valid_append_codepoint: "codepoint p \<Longrightarrow> is_valid_utf8 r \<Longrightarrow> is_valid_utf8 (p @ r)"
  by (cases p) (auto simp: codepoint_def is_valid_utf8.simps [of "_ # _"])

lemma split_append_codepoint: "codepoint p \<Longrightarrow> utf8_split_codepoints (p @ r) = p # utf8_split_codepoints r"
  by (cases p) (auto simp: codepoint_def utf8_split_codepoints.simps [of "_ # _"] split_width_def)

lemma valid_induct [consumes 1, case_names Nil Codepoint]:
  assumes "is_valid_utf8 s" and "P []"
    and "\<And>p r. codepoint p \<Longrightarrow> is_valid_utf8 r \<Longrightarrow> P r \<Longrightarrow> P (p @ r)"
  shows "P s"
  using assms(1)
proof (induction "length s" arbitrary: s rule: less_induct)
  case less
  show ?case
  proof (cases "s = []")
    case True
    then show ?thesis using assms(2) by simp
  next
    case False
    with less.prems obtain p r where p: "s = p @ r" "codepoint p" "is_valid_utf8 r" by (rule valid_first)
    then have "length r < length s" by (auto simp: codepoint_def split: list.splits)
    with less.hyps p show ?thesis by (auto intro: assms(3))
  qed
qed

text \<open>A valid text is a list of code points, and splitting gives that list.\<close>

lemma valid_split: "is_valid_utf8 s \<Longrightarrow> list_all codepoint (utf8_split_codepoints s)"
  by (induction rule: valid_induct) (simp_all add: split_append_codepoint)

lemma valid_concat: "list_all codepoint ps \<Longrightarrow> is_valid_utf8 (concat ps)"
  by (induction ps) (simp_all add: valid_append_codepoint)

lemma split_concat: "list_all codepoint ps \<Longrightarrow> utf8_split_codepoints (concat ps) = ps"
  by (induction ps) (simp_all add: split_append_codepoint)

lemma split_append: "is_valid_utf8 s \<Longrightarrow> utf8_split_codepoints (s @ t) = utf8_split_codepoints s @ utf8_split_codepoints t"
  by (induction rule: valid_induct) (simp_all add: split_append_codepoint)

lemma valid_append: "is_valid_utf8 s \<Longrightarrow> is_valid_utf8 t \<Longrightarrow> is_valid_utf8 (s @ t)"
  by (induction rule: valid_induct) (simp_all add: valid_append_codepoint)

section \<open>Cutting a valid text\<close>

lemma continuation_not_lead: "is_continuation c \<Longrightarrow> lead_length c = None"
proof -
  assume "is_continuation c"
  then have b: "byte_of c AND 0xC0 = 0x80" by (simp add: is_continuation_def byte_of_def)
  have bit: "bit (byte_of c) 7" "\<not> bit (byte_of c) 6"
  proof -
    have "bit (byte_of c AND 0xC0) 7" "\<not> bit (byte_of c AND 0xC0) 6" unfolding b by simp_all
    then show "bit (byte_of c) 7" "\<not> bit (byte_of c) 6" by (simp_all add: bit_and_iff)
  qed
  have "bit (byte_of c AND 0x80) 7" using bit by (simp add: bit_and_iff)
  moreover have "\<not> bit (byte_of c AND 0xE0) 6" "\<not> bit (byte_of c AND 0xF0) 6" "\<not> bit (byte_of c AND 0xF8) 6"
    using bit by (simp_all add: bit_and_iff)
  moreover have "\<not> bit (0 :: u8) 7" "bit (0xC0 :: u8) 6" "bit (0xE0 :: u8) 6" "bit (0xF0 :: u8) 6" by simp_all
  ultimately have "byte_of c AND 0x80 \<noteq> 0" "byte_of c AND 0xE0 \<noteq> 0xC0"
      "byte_of c AND 0xF0 \<noteq> 0xE0" "byte_of c AND 0xF8 \<noteq> 0xF0" by metis+
  then show "lead_length c = None" by (simp add: lead_length_def)
qed

lemma ascii_not_continuation: "is_ascii c \<Longrightarrow> \<not> is_continuation c"
  using continuation_not_lead lead_length_ascii by fastforce

text \<open>A cut is between code points exactly when the text after it does not start inside one.\<close>

lemma valid_cut:
  assumes "is_valid_utf8 (a @ b)" and "b = [] \<or> \<not> is_continuation (List.hd b)"
  shows "is_valid_utf8 a \<and> is_valid_utf8 b"
  using assms
proof (induction "length a" arbitrary: a rule: less_induct)
  case less
  show ?case
  proof (cases "a = []")
    case True
    with less.prems show ?thesis by simp
  next
    case False
    then have "a @ b \<noteq> []" by simp
    with less.prems(1) obtain p r where p: "a @ b = p @ r" "codepoint p" "is_valid_utf8 r"
      by (rule valid_first)
    have "length p \<le> length a"
    proof (rule ccontr)
      assume long: "\<not> length p \<le> length a"
      then obtain q where q: "p = a @ q" "b = q @ r" "q \<noteq> []"
        using p(1) by (auto simp: append_eq_append_conv2)
      have "List.hd q \<in> set (List.tl p)" using q(1,3) False by (cases a) auto
      moreover have "list_all is_continuation (List.tl p)" using p(2) by (cases p) (auto simp: codepoint_def)
      ultimately have "is_continuation (List.hd b)" using q by (simp add: list_all_iff)
      moreover have "b \<noteq> []" using q by simp
      ultimately show False using less.prems(2) by simp
    qed
    then obtain a' where a': "a = p @ a'" "r = a' @ b"
      using p(1) by (auto simp: append_eq_append_conv2)
    have "p \<noteq> []" using p(2) by (auto simp: codepoint_def)
    then have "length a' < length a" using a' by simp
    with less.hyps a' p less.prems(2) have "is_valid_utf8 a' \<and> is_valid_utf8 b" by blast
    with a' p show ?thesis by (simp add: valid_append_codepoint)
  qed
qed

text \<open>A continuation byte never follows an ASCII byte, and never starts a valid text.\<close>

lemma valid_no_leading_continuation: "is_valid_utf8 s \<Longrightarrow> s \<noteq> [] \<Longrightarrow> \<not> is_continuation (List.hd s)"
  using continuation_not_lead by (cases s) (auto simp: is_valid_utf8.simps [of "_ # _"])

lemma valid_after_ascii:
  assumes "is_valid_utf8 (a @ [c] @ b)" and "is_ascii c"
  shows "is_valid_utf8 (a @ [c]) \<and> is_valid_utf8 b"
proof -
  have "is_valid_utf8 (c # b)"
    using valid_cut [of a "[c] @ b"] assms ascii_not_continuation by simp
  then have b: "is_valid_utf8 b" using assms(2) by (simp add: is_valid_utf8.simps [of "c # b"] lead_length_ascii)
  then have "b = [] \<or> \<not> is_continuation (List.hd b)" using valid_no_leading_continuation by blast
  with valid_cut [of "a @ [c]" b] assms(1) show ?thesis by simp
qed

end
