(* ===== verification/Pre_Tokenizer.thy ===== *)
theory Pre_Tokenizer
  imports Utf8
begin

text \<open>
  \<open>BPETokenizer::pre_tokenize\<close> of \<open>src/src/BPETokenizer.cpp\<close>. The two regular expressions
  \<open>ASCII_PATTERN\<close> and \<open>UNICODE_PATTERN\<close> are written out as the match a backtracking ECMAScript
  matcher finds: the alternatives in order, \<open> ?\<close> and \<open>+\<close> greedy, and \<open>\s+(?!\S)\<close> giving back one
  space when a run of at least two is followed by something else. Their locale is "C".
\<close>

datatype TokenizerMode = ASCII | UNICODE

datatype TextNormalization = LOWERCASE | CASED

section \<open>Character classes\<close>

definition is_letter :: "TokenizerMode \<Rightarrow> char \<Rightarrow> bool" where
  "is_letter mode c \<longleftrightarrow>
     CHR ''A'' \<le> c \<and> c \<le> CHR ''Z'' \<or> CHR ''a'' \<le> c \<and> c \<le> CHR ''z'' \<or>
     mode = UNICODE \<and> \<not> is_ascii c"

definition is_other :: "TokenizerMode \<Rightarrow> char \<Rightarrow> bool" where
  "is_other mode c \<longleftrightarrow>
     c \<notin> {CHR '' '', CHR 0x09, CHR 0x0D, CHR 0x0A} \<and> \<not> is_letter mode c \<and> \<not> is_digit c"

section \<open>Matching\<close>

definition contractions :: "string list" where
  "contractions = map ((#) CHR 0x27) [''s'', ''t'', ''re'', ''ve'', ''m'', ''ll'', ''d'']"

definition match_contraction :: "string \<Rightarrow> nat option" where
  "match_contraction s = map_option length (find (\<lambda>p. take (length p) s = p) contractions)"

text \<open>\<open> ?[class]+\<close>\<close>

definition match_run :: "(char \<Rightarrow> bool) \<Rightarrow> string \<Rightarrow> nat option" where
  "match_run P s =
     (case s of
        [] \<Rightarrow> None
      | c # cs \<Rightarrow>
          if c = CHR '' '' \<and> cs \<noteq> [] \<and> P (List.hd cs) then Some (1 + length (takeWhile P cs))
          else if P c then Some (length (takeWhile P s)) else None)"

text \<open>\<open>\s+(?!\S)|\s+\<close>\<close>

definition match_spaces :: "string \<Rightarrow> nat option" where
  "match_spaces s =
     (let w = length (takeWhile is_space s) in
      if w = 0 then None else if w = length s \<or> w = 1 then Some w else Some (w - 1))"

definition first_match :: "nat option list \<Rightarrow> nat option" where
  "first_match ms = (case dropWhile (\<lambda>m. m = None) ms of [] \<Rightarrow> None | m # _ \<Rightarrow> m)"

definition next_match :: "TokenizerMode \<Rightarrow> string \<Rightarrow> nat option" where
  "next_match mode s =
     first_match [match_contraction s, match_run (is_letter mode) s, match_run is_digit s,
       match_run (is_other mode) s, match_spaces s]"

text \<open>The iterator: match after match; where nothing matches the search moves on one character.\<close>

function regex_tokens :: "TokenizerMode \<Rightarrow> string \<Rightarrow> string list" where
  "regex_tokens mode s =
     (if s = [] then []
      else case next_match mode s of
        None \<Rightarrow> regex_tokens mode (drop 1 s)
      | Some n \<Rightarrow> if 0 < n then take n s # regex_tokens mode (drop n s) else [])"
  by pat_completeness auto
termination
  by (relation "measure (\<lambda>(mode, s). length s)") auto

declare regex_tokens.simps [simp del]

text \<open>\<open>std::regex_replace(token, \s+, " ")\<close>\<close>

fun collapse_spaces :: "string \<Rightarrow> string" where
  "collapse_spaces [] = []"
| "collapse_spaces [c] = [if is_space c then CHR '' '' else c]"
| "collapse_spaces (c # d # s) =
     (if is_space c \<and> is_space d then collapse_spaces (d # s)
      else (if is_space c then CHR '' '' else c) # collapse_spaces (d # s))"

definition normalize_case :: "TokenizerMode \<Rightarrow> TextNormalization \<Rightarrow> string \<Rightarrow> string" where
  "normalize_case mode normalization text =
     (if normalization = CASED then text
      else if mode = UNICODE then map (\<lambda>c. if is_ascii c then to_lower c else c) text
      else map to_lower text)"

definition pre_tokenize :: "TokenizerMode \<Rightarrow> TextNormalization \<Rightarrow> string \<Rightarrow> string list option" where
  "pre_tokenize mode normalization text =
     (if text \<noteq> [] \<and> \<not> is_valid_utf8 text then None
      else Some (filter (\<lambda>t. t \<noteq> [])
        (map collapse_spaces (regex_tokens mode (normalize_case mode normalization text)))))"

section \<open>Every text is covered\<close>

lemma match_run_range: "match_run P s = Some n \<Longrightarrow> 0 < n \<and> n \<le> length s"
  using length_takeWhile_le [of P s] length_takeWhile_le [of P "List.tl s"]
  by (cases s) (auto simp: match_run_def split: if_splits)

lemma match_contraction_range: "match_contraction s = Some n \<Longrightarrow> 0 < n \<and> n \<le> length s"
proof -
  assume "match_contraction s = Some n"
  then obtain p where p: "p \<in> set contractions" "take (length p) s = p" "n = length p"
    by (auto simp: match_contraction_def find_Some_iff) (metis nth_mem)
  then have "length p \<le> length s" by (metis length_take min.cobounded1)
  moreover have "0 < length p" using p(1) by (auto simp: contractions_def)
  ultimately show ?thesis using p(3) by simp
qed

lemma match_spaces_range: "match_spaces s = Some n \<Longrightarrow> 0 < n \<and> n \<le> length s"
  using length_takeWhile_le [of is_space s]
  by (cases "takeWhile is_space s") (auto simp: match_spaces_def Let_def split: if_splits)

lemmas match_ranges = match_run_range match_contraction_range match_spaces_range

lemma next_match_cases:
  assumes "next_match mode s = Some n"
  obtains (contraction) "match_contraction s = Some n"
  | (letters) "match_run (is_letter mode) s = Some n"
  | (digits) "match_run is_digit s = Some n"
  | (others) "match_run (is_other mode) s = Some n"
  | (spaces) "match_spaces s = Some n"
  using assms by (auto simp: next_match_def first_match_def split: if_splits)

lemma next_match_range: "next_match mode s = Some n \<Longrightarrow> 0 < n \<and> n \<le> length s"
  by (erule next_match_cases) (auto dest: match_ranges)

lemma next_match_total: "s \<noteq> [] \<Longrightarrow> next_match mode s \<noteq> None"
proof
  assume s: "s \<noteq> []" and none: "next_match mode s = None"
  obtain c cs where c: "s = c # cs" using s by (cases s) auto
  from none have "match_run (is_letter mode) s = None" "match_run is_digit s = None"
      "match_run (is_other mode) s = None" "match_spaces s = None"
    by (auto simp: next_match_def first_match_def split: if_splits)
  then have "\<not> is_letter mode c" "\<not> is_digit c" "\<not> is_other mode c" "\<not> is_space c"
    by (auto simp: c match_run_def match_spaces_def Let_def split: if_splits)
  then show False by (auto simp: is_other_def is_space_def)
qed

lemma regex_tokens_step:
  assumes "s \<noteq> []"
  obtains n where "next_match mode s = Some n" and "0 < n" and "n \<le> length s"
    and "regex_tokens mode s = take n s # regex_tokens mode (drop n s)"
proof -
  obtain n where n: "next_match mode s = Some n" using next_match_total [OF assms] by blast
  with next_match_range [OF n] assms show thesis by (intro that [of n]) (auto simp: regex_tokens.simps [of mode s])
qed

lemma regex_tokens_Nil [simp]: "regex_tokens mode [] = []"
  by (simp add: regex_tokens.simps)

lemma regex_induct [case_names Nil Token]:
  assumes "P []"
    and "\<And>s n. s \<noteq> [] \<Longrightarrow> next_match mode s = Some n \<Longrightarrow> 0 < n \<Longrightarrow> n \<le> length s \<Longrightarrow>
           regex_tokens mode s = take n s # regex_tokens mode (drop n s) \<Longrightarrow> P (drop n s) \<Longrightarrow> P s"
  shows "P s"
proof (induction "length s" arbitrary: s rule: less_induct)
  case less
  show ?case
  proof (cases "s = []")
    case False
    then obtain n where n: "next_match mode s = Some n" "0 < n" "n \<le> length s"
        "regex_tokens mode s = take n s # regex_tokens mode (drop n s)" by (rule regex_tokens_step)
    with less.hyps [of "drop n s"] False assms(2) show ?thesis by simp
  qed (use assms(1) in simp)
qed

text \<open>The matches tile the text: nothing is skipped and no token is empty.\<close>

lemma concat_regex_tokens: "concat (regex_tokens mode s) = s"
  by (induction s rule: regex_induct [where mode = mode]) simp_all

lemma regex_tokens_nonempty: "t \<in> set (regex_tokens mode s) \<Longrightarrow> t \<noteq> []"
  by (induction s rule: regex_induct [where mode = mode]) auto

section \<open>No code point is split\<close>

lemma is_space_ascii: "is_space c \<Longrightarrow> is_ascii c"
  by (auto simp: is_space_def is_ascii_iff)

lemma digit_ascii: "is_digit c \<Longrightarrow> is_ascii c"
  by (simp add: is_digit_def is_ascii_iff less_eq_char_def)

lemma nonletter_ascii: "\<not> is_letter UNICODE c \<Longrightarrow> is_ascii c"
  by (simp add: is_letter_def)

lemma other_ascii: "is_other UNICODE c \<Longrightarrow> is_ascii c"
  by (simp add: is_other_def nonletter_ascii)

lemma takeWhile_last: "xs \<noteq> [] \<Longrightarrow> P (List.hd xs) \<Longrightarrow> P (xs ! (length (takeWhile P xs) - 1))"
proof (induction xs)
  case (Cons x xs)
  show ?case
  proof (cases "xs \<noteq> [] \<and> P (List.hd xs)")
    case True
    then have "0 < length (takeWhile P xs)" by (cases xs) auto
    with Cons True show ?thesis by (simp add: nth_Cons')
  next
    case False
    then have "takeWhile P xs = []" by (cases xs) auto
    with Cons show ?thesis by simp
  qed
qed simp

lemma match_run_last:
  assumes "match_run P s = Some n"
  shows "P (s ! (n - 1))"
proof -
  obtain c cs where s: "s = c # cs" using assms by (cases s) (auto simp: match_run_def)
  show ?thesis
  proof (cases "c = CHR '' '' \<and> cs \<noteq> [] \<and> P (List.hd cs)")
    case True
    then have n: "n = 1 + length (takeWhile P cs)" using assms by (simp add: s match_run_def)
    have "0 < length (takeWhile P cs)" using True by (cases cs) auto
    with takeWhile_last [of cs P] True show ?thesis by (simp add: s n nth_Cons')
  next
    case False
    then have "P c" "n = length (takeWhile P s)"
      using assms by (auto simp: s match_run_def split: if_splits)
    with takeWhile_last [of s P] show ?thesis by (simp add: s)
  qed
qed

lemma match_run_stops: "match_run P s = Some n \<Longrightarrow> drop n s = [] \<or> \<not> P (List.hd (drop n s))"
proof -
  assume m: "match_run P s = Some n"
  have tw: "drop (length (takeWhile P xs)) xs = [] \<or> \<not> P (List.hd (drop (length (takeWhile P xs)) xs))" for xs
    by (metis dropWhile_eq_drop hd_dropWhile)
  obtain c cs where s: "s = c # cs" using m by (cases s) (auto simp: match_run_def)
  show ?thesis using m tw [of cs] tw [of s]
    by (auto simp: s match_run_def split: if_splits)
qed

lemma match_spaces_last: "match_spaces s = Some n \<Longrightarrow> is_space (s ! (n - 1))"
proof -
  assume m: "match_spaces s = Some n"
  then have "n - 1 < length (takeWhile is_space s)"
    using match_spaces_range [OF m] by (auto simp: match_spaces_def Let_def split: if_splits)
  then show ?thesis by (metis nth_mem set_takeWhileD takeWhile_nth)
qed

lemma match_contraction_last: "match_contraction s = Some n \<Longrightarrow> is_ascii (s ! (n - 1))"
proof -
  assume m: "match_contraction s = Some n"
  then obtain p where p: "p \<in> set contractions" "take (length p) s = p" "n = length p"
    by (auto simp: match_contraction_def find_Some_iff) (metis nth_mem)
  have ascii: "list_all is_ascii p" and "p \<noteq> []"
    using p(1) by (auto simp: contractions_def is_ascii_iff)
  then have "n - 1 < length p" using p(3) by simp
  with p have "s ! (n - 1) = p ! (n - 1)" by (metis nth_take)
  with ascii \<open>n - 1 < length p\<close> show ?thesis by (simp add: list_all_length)
qed

text \<open>In Unicode mode the boundary after a match is a code point boundary.\<close>

lemma next_match_valid:
  assumes valid: "is_valid_utf8 s" and m: "next_match UNICODE s = Some n"
  shows "is_valid_utf8 (take n s) \<and> is_valid_utf8 (drop n s)"
proof -
  have n: "0 < n" "n \<le> length s" using next_match_range [OF m] by auto
  have ascii: ?thesis if "is_ascii (s ! (n - 1))"
  proof -
    have t: "take n s = take (n - 1) s @ [s ! (n - 1)]"
      using n by (metis Suc_diff_1 Suc_le_lessD take_Suc_conv_app_nth Suc_le_eq)
    have "is_valid_utf8 (take (n - 1) s @ [s ! (n - 1)] @ drop n s)"
      using valid append_take_drop_id [of n s] by (simp add: t)
    from valid_after_ascii [OF this that] show ?thesis by (simp add: t)
  qed
  from m show ?thesis
  proof (cases rule: next_match_cases)
    case letters
    from match_run_stops [OF this] have "drop n s = [] \<or> \<not> is_continuation (List.hd (drop n s))"
      using nonletter_ascii ascii_not_continuation by blast
    with valid_cut [of "take n s" "drop n s"] valid show ?thesis by simp
  next
    case contraction
    then show ?thesis by (intro ascii match_contraction_last)
  next
    case digits
    then show ?thesis by (intro ascii digit_ascii match_run_last [where P = is_digit])
  next
    case others
    then show ?thesis by (intro ascii other_ascii match_run_last [where P = "is_other UNICODE"])
  next
    case spaces
    then show ?thesis by (intro ascii is_space_ascii match_spaces_last)
  qed
qed

lemma regex_tokens_valid:
  "is_valid_utf8 s \<Longrightarrow> t \<in> set (regex_tokens UNICODE s) \<Longrightarrow> is_valid_utf8 t"
proof (induction s rule: regex_induct [where mode = UNICODE])
  case Nil
  then show ?case by simp
next
  case (Token s n)
  from next_match_valid [OF Token.prems(1) Token.hyps(2)] Token.prems(2) Token.hyps(5) Token.IH
  show ?case by auto
qed

lemma collapse_nonempty [simp]: "collapse_spaces s = [] \<longleftrightarrow> s = []"
  by (induction s rule: collapse_spaces.induct) auto

text \<open>Case folding and collapsing change no character outside ASCII, so tokens stay valid.\<close>

lemma ascii_space [simp]: "is_ascii CHR '' ''"
  by (simp add: is_ascii_iff)

lemma collapse_valid: "is_valid_utf8 s \<Longrightarrow> is_valid_utf8 (collapse_spaces s)"
proof (induction s rule: valid_induct)
  case Nil
  then show ?case by simp
next
  case (Codepoint p r)
  obtain c cs where p: "p = c # cs" using Codepoint.hyps(1) by (cases p) (auto simp: codepoint_def)
  show ?case
  proof (cases "is_space c")
    case True
    then have "p = [c]" using Codepoint.hyps(1) by (simp add: p codepoint_def lead_length_ascii is_space_ascii)
    moreover have "is_valid_utf8 (CHR '' '' # collapse_spaces r)"
      using valid_append_codepoint [of "[CHR '' '']" "collapse_spaces r"] Codepoint.IH
      by (simp add: codepoint_def lead_length_ascii)
    ultimately show ?thesis using True Codepoint.IH by (cases r) auto
  next
    case False
    have keep: "\<not> is_space d \<Longrightarrow> collapse_spaces (d # s) = d # collapse_spaces s" for d s
      by (cases s) auto
    have "list_all (\<lambda>d. \<not> is_space d) cs"
      using Codepoint.hyps(1) ascii_not_continuation is_space_ascii
      by (auto simp: p codepoint_def list_all_iff)
    then have "collapse_spaces (cs @ r) = cs @ collapse_spaces r" by (induction cs) (simp_all add: keep)
    with False have "collapse_spaces (p @ r) = p @ collapse_spaces r" by (simp add: p keep)
    with Codepoint show ?thesis by (simp add: valid_append_codepoint)
  qed
qed

lemma to_lower_ascii: "is_ascii c \<Longrightarrow> is_ascii (to_lower c)"
  by (auto simp: is_ascii_iff to_lower_def less_eq_char_def of_char_of)

lemma lower_valid: "is_valid_utf8 s \<Longrightarrow> is_valid_utf8 (map (\<lambda>c. if is_ascii c then to_lower c else c) s)"
proof (induction s rule: valid_induct)
  case (Codepoint p r)
  let ?f = "\<lambda>c. if is_ascii c then to_lower c else c"
  have "codepoint (map ?f p)"
  proof (cases p)
    case (Cons c cs)
    have "map ?f cs = cs"
      using Codepoint.hyps(1) ascii_not_continuation by (intro map_idI) (auto simp: Cons codepoint_def list_all_iff)
    moreover have "is_ascii c \<Longrightarrow> lead_length (to_lower c) = lead_length c"
      by (simp add: lead_length_ascii to_lower_ascii)
    ultimately show ?thesis using Codepoint.hyps(1) by (auto simp: Cons codepoint_def)
  qed (use Codepoint.hyps(1) in \<open>simp add: codepoint_def\<close>)
  with Codepoint.IH show ?case by (simp add: valid_append_codepoint)
qed simp

lemma pre_tokenize_valid:
  assumes "pre_tokenize UNICODE normalization text = Some ts"
  shows "list_all (\<lambda>t. t \<noteq> [] \<and> is_valid_utf8 t) ts"
proof -
  have "is_valid_utf8 text" using assms by (auto simp: pre_tokenize_def split: if_splits)
  then have "is_valid_utf8 (normalize_case UNICODE normalization text)"
    by (simp add: normalize_case_def lower_valid)
  then show ?thesis
    using assms regex_tokens_valid collapse_valid
    by (auto simp: pre_tokenize_def list_all_iff split: if_splits)
qed

text \<open>The tokens together are the case-folded text with white-space runs inside tokens collapsed.\<close>

lemma pre_tokenize_tokens:
  "is_valid_utf8 text \<Longrightarrow> pre_tokenize mode n text =
     Some (map collapse_spaces (regex_tokens mode (normalize_case mode n text)))"
  using regex_tokens_nonempty
  by (auto simp: pre_tokenize_def filter_id_conv)

end
