(* ===== verification/Text_Properties.thy ===== *)
theory Text_Properties
  imports Config_Text Pre_Tokenizer
begin

text \<open>
  Values of configuration files (\<open>src/src/Config.cpp\<close>) and the pre-tokenizer
  (\<open>src/src/BPETokenizer.cpp\<close>): what they accept and what they never lose.
\<close>

section \<open>Configuration values\<close>

text \<open>A decimal number is read back exactly by every parser of the program, and anything an
  \<open>int\<close> setting accepts is in the range of a 32-bit \<open>int\<close>.\<close>

theorem numbers_read_back:
  "(- (2 ^ 31) \<le> i \<and> i < 2 ^ 31 \<longrightarrow> parse_int (int_to_string i) = Some i \<and> from_chars_int (int_to_string i) = Some i) \<and>
   (n < 2 ^ 64 \<longrightarrow> parse_size (nat_to_string n) = Some n) \<and>
   (\<forall>s j. parse_int s = Some j \<longrightarrow> - (2 ^ 31) \<le> j \<and> j < 2 ^ 31)"
  using parse_int_print from_chars_print parse_size_print parse_int_bounds by blast

theorem numbers_read_back_witness: "parse_int (int_to_string (- 42)) = Some (- 42)"
  using numbers_read_back [of "- 42" 0] by simp

text \<open>A value in quotes is taken as written, \<open>#\<close> and blanks included, and an unquoted value without
  \<open>#\<close> is unchanged; so a line \<open>KEY="value"\<close> of a configuration file sets exactly that value.\<close>

theorem quoted_setting:
  assumes "key \<noteq> []" and "\<forall>c \<in> set key. \<not> blank c \<and> c \<noteq> CHR ''=''" and "List.hd key \<noteq> CHR ''#''"
    and "q = CHR 0x22 \<or> q = CHR 0x27" and "q \<notin> set v"
  shows "config_line (key @ ''='' @ q # v @ [q]) = Setting key v"
proof -
  have q: "\<not> blank q" using assms(4) by (auto simp: blank_def)
  have "trim (key @ ''='' @ q # v @ [q]) = key @ ''='' @ q # v @ [q]"
    using assms(1,2) q by (intro trim_id) (auto simp: hd_append)
  moreover have "split_first CHR ''='' (key @ CHR ''='' # q # v @ [q]) = Some (key, q # v @ [q])"
    using assms(2) by (intro split_first_app) auto
  moreover have "trim key = key" using assms(1,2) by (intro trim_id) auto
  moreover have "trim (q # v @ [q]) = q # v @ [q]" using q by (intro trim_id) auto
  ultimately show ?thesis using assms(1,3) strip_quoted [OF assms(4,5)]
    by (simp add: config_line_def hd_append)
qed

theorem quoted_setting_witness:
  "config_line (''LOG_FILE_PATH='' @ CHR 0x22 # ''/var/log/a b #1'' @ [CHR 0x22]) = Setting ''LOG_FILE_PATH'' ''/var/log/a b #1''"
  using quoted_setting [of "''LOG_FILE_PATH''" "CHR 0x22" "''/var/log/a b #1''"] by (simp add: blank_def)

section \<open>The pre-tokenizer\<close>

text \<open>Splitting into code points loses no byte of any input, valid or not, and every piece of a
  valid text is one code point.\<close>

theorem codepoints_lossless:
  "concat (utf8_split_codepoints s) = s \<and>
   (is_valid_utf8 s \<longrightarrow> list_all codepoint (utf8_split_codepoints s))"
  using valid_split by simp

theorem codepoints_lossless_witness: "list_all codepoint (utf8_split_codepoints ''abc'')"
proof -
  have "is_valid_utf8 ''abc''" by code_simp
  with codepoints_lossless [of "''abc''"] show ?thesis by blast
qed

text \<open>The regular-expression scan tiles the text: its tokens are not empty and their concatenation
  is the text, so no character is skipped or read twice.\<close>

theorem regex_tokens_tile:
  "concat (regex_tokens mode s) = s \<and> [] \<notin> set (regex_tokens mode s)"
  using concat_regex_tokens regex_tokens_nonempty by blast

text \<open>In UNICODE mode no token boundary falls inside a character: every token of a valid text is
  valid UTF-8 and not empty, and an invalid text is refused.\<close>

theorem pre_tokens_valid:
  assumes "s \<noteq> []"
  shows "case pre_tokenize UNICODE normalization s of
      None \<Rightarrow> \<not> is_valid_utf8 s
    | Some tokens \<Rightarrow> is_valid_utf8 s \<and> list_all (\<lambda>t. t \<noteq> [] \<and> is_valid_utf8 t) tokens"
  using assms pre_tokenize_valid [of normalization s]
  by (auto simp: pre_tokenize_def split: option.split)

theorem pre_tokens_valid_witness:
  "case pre_tokenize UNICODE LOWERCASE ''Hello, world'' of None \<Rightarrow> False | Some ts \<Rightarrow> [] \<notin> set ts"
proof -
  have v: "is_valid_utf8 ''Hello, world''" by code_simp
  then show ?thesis using pre_tokens_valid [of "''Hello, world''" LOWERCASE]
    by (auto simp: list_all_iff split: option.splits)
qed

end
