(* ===== verification/Bpe.thy ===== *)
theory Bpe
  imports Pre_Tokenizer "HOL-Library.AList" "HOL-Library.List_Lexorder" "HOL-Library.Product_Lexorder"
    "HOL-Library.Multiset"
begin

text \<open>
  The byte-pair encoding of \<open>src/src/BPETokenizer.cpp\<close>: learning merges, applying them, encoding and
  decoding, with the special tokens of \<open>src/src/SpecialTokens.hpp\<close>. The per-thread cache of
  \<open>apply_bpe\<close> is in \<open>Bpe_Cache\<close>, the vocabulary file in \<open>Bpe_Vocab\<close>.

  A hash table is an association list with distinct keys. Where the code iterates over one, the
  order is an argument \<open>order\<close>, of which only \<open>permutes order\<close> may be assumed: a standard library
  visits each entry once, in any order. Progress output is left out. \<open>new_cache_key\<close> draws from a
  process-wide counter, which is passed along.
\<close>

section \<open>State\<close>

type_synonym merge = "string \<times> string"

record Tokenizer =
  tk_mode :: TokenizerMode
  tk_normalization :: TextNormalization
  tk_vocab :: "(string \<times> int) list"
  tk_inverse :: "(int \<times> string) list"
  tk_merges :: "merge list"
  tk_special :: "string list"
  tk_pad :: int
  tk_unk :: int
  tk_bos :: int
  tk_eos :: int
  tk_key :: nat

datatype TokenizerError = TokenizerInputError string | TokenizerEncodingError string | TokenIDError int
  | VocabularyFileError string | StdOutOfRange

definition PAD :: string where "PAD = ''<pad>''"
definition UNK :: string where "UNK = ''<unk>''"
definition BOS :: string where "BOS = ''<bos>''"
definition EOS :: string where "EOS = ''<eos>''"

lemmas special_strings = PAD_def UNK_def BOS_def EOS_def

definition new_tokenizer :: "TokenizerMode \<Rightarrow> nat \<Rightarrow> Tokenizer" where
  "new_tokenizer m key = \<lparr>tk_mode = m, tk_normalization = CASED,
     tk_vocab = [(PAD, 0), (UNK, 1), (BOS, 2), (EOS, 3)],
     tk_inverse = [(0, PAD), (1, UNK), (2, BOS), (3, EOS)],
     tk_merges = [], tk_special = [PAD, UNK, BOS, EOS],
     tk_pad = 0, tk_unk = 1, tk_bos = 2, tk_eos = 3, tk_key = key\<rparr>"

definition set_normalization :: "TextNormalization \<Rightarrow> nat \<Rightarrow> Tokenizer \<Rightarrow> Tokenizer" where
  "set_normalization n key t = t\<lparr>tk_normalization := n, tk_key := key\<rparr>"

definition permutes :: "('a list \<Rightarrow> 'a list) \<Rightarrow> bool" where
  "permutes order \<longleftrightarrow> (\<forall>xs. mset (order xs) = mset xs)"

section \<open>Merging\<close>

text \<open>The atomic units of a word: code points in UNICODE mode, bytes in ASCII mode.\<close>

definition units :: "TokenizerMode \<Rightarrow> string \<Rightarrow> string list" where
  "units m s = (if m = UNICODE then utf8_split_codepoints s else map (\<lambda>c. [c]) s)"

fun merge_word :: "string \<Rightarrow> string \<Rightarrow> string list \<Rightarrow> string list" where
  "merge_word first second (a # b # ts) =
     (if a = first \<and> b = second then (first @ second) # merge_word first second ts
      else a # merge_word first second (b # ts))"
| "merge_word first second ts = ts"

definition merge_tokens :: "string list list \<Rightarrow> string \<Rightarrow> string \<Rightarrow> string list list" where
  "merge_tokens word_tokens first second = map (merge_word first second) word_tokens"

definition apply_merges :: "merge list \<Rightarrow> string list \<Rightarrow> string list" where
  "apply_merges merges ts = foldl (\<lambda>ts (first, second). merge_word first second ts) ts merges"

text \<open>\<open>apply_bpe\<close> without its cache.\<close>

definition bpe_word :: "TokenizerMode \<Rightarrow> merge list \<Rightarrow> string \<Rightarrow> string list" where
  "bpe_word m merges word = (if word = [] then [] else apply_merges merges (units m word))"

section \<open>The most frequent pair\<close>

definition count_up :: "('a \<times> nat) list \<Rightarrow> 'a \<Rightarrow> ('a \<times> nat) list" where
  "count_up counts x = AList.update x (case map_of counts x of None \<Rightarrow> 1 | Some n \<Rightarrow> n + 1) counts"

definition adjacent :: "string list \<Rightarrow> merge list" where
  "adjacent tokens = zip tokens (tl tokens)"

definition pair_counts :: "string list list \<Rightarrow> (merge \<times> nat) list" where
  "pair_counts word_tokens = foldl count_up [] (concat (map adjacent word_tokens))"

definition better :: "merge \<times> nat \<Rightarrow> merge \<times> nat \<Rightarrow> bool" where
  "better it best \<longleftrightarrow> snd it > snd best \<or> snd it = snd best \<and> fst it < fst best"

definition get_most_frequent_pair ::
  "((merge \<times> nat) list \<Rightarrow> (merge \<times> nat) list) \<Rightarrow> string list list \<Rightarrow> merge" where
  "get_most_frequent_pair order word_tokens =
     (case order (pair_counts word_tokens) of
        [] \<Rightarrow> ([], [])
      | p # ps \<Rightarrow> fst (foldl (\<lambda>best it. if better it best then it else best) p ps))"

section \<open>Building a vocabulary\<close>

definition add_token :: "string \<Rightarrow> int \<Rightarrow> Tokenizer \<Rightarrow> Tokenizer" where
  "add_token s i t = t\<lparr>tk_vocab := AList.update s i (tk_vocab t), tk_inverse := AList.update i s (tk_inverse t)\<rparr>"

definition learn_merge :: "merge \<Rightarrow> Tokenizer \<times> nat \<Rightarrow> Tokenizer \<times> nat" where
  "learn_merge best x =
     (case x of (t, next_key) \<Rightarrow>
        let merged = fst best @ snd best; new_id = int (length (tk_vocab t)) in
        (add_token merged new_id (t\<lparr>tk_merges := tk_merges t @ [best], tk_key := next_key\<rparr>), next_key + 1))"

primrec learn ::
  "((merge \<times> nat) list \<Rightarrow> (merge \<times> nat) list) \<Rightarrow> nat \<Rightarrow> string list list \<Rightarrow> Tokenizer \<times> nat \<Rightarrow> Tokenizer \<times> nat" where
  "learn order 0 word_tokens x = x"
| "learn order (Suc n) word_tokens x =
     (let best = get_most_frequent_pair order word_tokens in
      if fst best = [] then x
      else learn order n (merge_tokens word_tokens (fst best) (snd best)) (learn_merge best x))"

text \<open>The words of a corpus; \<open>None\<close> when \<open>pre_tokenize\<close> throws on one of its texts.\<close>

primrec corpus_words :: "Tokenizer \<Rightarrow> string list \<Rightarrow> string list list option" where
  "corpus_words t [] = Some []"
| "corpus_words t (txt # texts) =
     do {
       tokens \<leftarrow> pre_tokenize (tk_mode t) (tk_normalization t) txt;
       words \<leftarrow> corpus_words t texts;
       Some (filter (\<lambda>u. u \<noteq> []) (map (units (tk_mode t)) tokens) @ words)
     }"

definition build_bpe_merges ::
  "((merge \<times> nat) list \<Rightarrow> (merge \<times> nat) list) \<Rightarrow> string list \<Rightarrow> int \<Rightarrow> Tokenizer \<times> nat \<Rightarrow>
     TokenizerError option \<times> Tokenizer \<times> nat" where
  "build_bpe_merges order texts num_merges x =
     (case corpus_words (fst x) texts of
        None \<Rightarrow> (Some (TokenizerEncodingError ''pre_tokenize(): Input text contains invalid UTF-8 sequences''), x)
      | Some words \<Rightarrow> (None, learn order (nat num_merges) words x))"

definition as_seen :: "TextNormalization \<Rightarrow> string \<Rightarrow> string" where
  "as_seen n s = (if n = CASED then s else map (\<lambda>c. if is_ascii c then to_lower c else c) s)"

definition char_freq :: "Tokenizer \<Rightarrow> string list \<Rightarrow> (string \<times> nat) list" where
  "char_freq t texts =
     foldl count_up [] (concat (map (\<lambda>txt. units (tk_mode t) (as_seen (tk_normalization t) txt)) texts))"

text \<open>One entry of the base-vocabulary loop; the second component is \<open>current_id\<close>.\<close>

definition add_base :: "int \<Rightarrow> int \<Rightarrow> Tokenizer \<times> int \<Rightarrow> string \<times> nat \<Rightarrow> Tokenizer \<times> int" where
  "add_base vocab_size threshold x p =
     (case x of (t, current_id) \<Rightarrow>
        if int (snd p) \<ge> threshold \<and> current_id < vocab_size
        then (add_token (fst p) current_id t, current_id + 1) else x)"

definition build_vocab ::
  "((string \<times> nat) list \<Rightarrow> (string \<times> nat) list) \<Rightarrow> ((merge \<times> nat) list \<Rightarrow> (merge \<times> nat) list) \<Rightarrow>
     string list \<Rightarrow> int \<Rightarrow> int \<Rightarrow> Tokenizer \<times> nat \<Rightarrow> TokenizerError option \<times> Tokenizer \<times> nat" where
  "build_vocab order_units order_pairs texts vocab_size frequency_threshold x =
     (case x of (t, next_key) \<Rightarrow>
        let (t, current_id) =
              foldl (add_base vocab_size frequency_threshold) (t, 4) (order_units (char_freq t texts));
            num_merges = max 0 (vocab_size - current_id)
        in build_bpe_merges order_pairs texts num_merges (t, next_key))"

section \<open>Encoding and decoding\<close>

definition validate_input :: "string \<Rightarrow> string \<Rightarrow> TokenizerError option" where
  "validate_input txt context =
     (if txt = [] then Some (TokenizerInputError (context @ '': Input text is empty''))
      else if \<not> is_valid_utf8 txt then
        Some (TokenizerEncodingError (context @ '': Input text contains invalid UTF-8 sequences''))
      else None)"

definition token_id :: "Tokenizer \<Rightarrow> string \<Rightarrow> int" where
  "token_id t token = (case map_of (tk_vocab t) token of Some i \<Rightarrow> i | None \<Rightarrow> tk_unk t)"

definition with_special :: "bool \<Rightarrow> Tokenizer \<Rightarrow> int list \<Rightarrow> int list" where
  "with_special add_special_tokens t ids =
     (if add_special_tokens then [tk_bos t] @ ids @ [tk_eos t] else ids)"

fun decode_ids :: "Tokenizer \<Rightarrow> bool \<Rightarrow> int list \<Rightarrow> string \<Rightarrow> TokenizerError + string" where
  "decode_ids t skip [] result = Inr result"
| "decode_ids t skip (i # ids) result =
     (if i < 0 then Inl (TokenIDError i)
      else case map_of (tk_inverse t) i of
        Some token \<Rightarrow>
          if skip \<and> token \<in> set (tk_special t) then decode_ids t skip ids result
          else decode_ids t skip ids (result @ token)
      | None \<Rightarrow> decode_ids t skip ids result)"

definition decode :: "Tokenizer \<Rightarrow> bool \<Rightarrow> int list \<Rightarrow> TokenizerError + string" where
  "decode t skip_special_tokens ids =
     (if ids = [] then Inl (TokenizerInputError ''decode(): Input token ID vector is empty'')
      else decode_ids t skip_special_tokens ids [])"

section \<open>Merging keeps the text\<close>

lemma concat_merge_word [simp]: "concat (merge_word first second ts) = concat ts"
  by (induction first second ts rule: merge_word.induct) auto

lemma concat_apply_merges [simp]: "concat (apply_merges merges ts) = concat ts"
  unfolding apply_merges_def by (induction merges arbitrary: ts) (auto simp: case_prod_beta)

lemma concat_units [simp]: "concat (units m s) = s"
  by (simp add: units_def)

lemma concat_bpe_word: "concat (bpe_word m merges word) = word"
  by (simp add: bpe_word_def)

text \<open>The tokens are units or merged strings.\<close>

lemma merge_word_tokens: "set (merge_word first second ts) \<subseteq> set ts \<union> {first @ second}"
  by (induction first second ts rule: merge_word.induct) auto

lemma apply_merges_tokens: "set (apply_merges merges ts) \<subseteq> set ts \<union> (\<lambda>(a, b). a @ b) ` set merges"
proof (induction merges arbitrary: ts)
  case (Cons m merges)
  obtain a b where m: "m = (a, b)" by (cases m)
  have "set (apply_merges (m # merges) ts) \<subseteq> set (merge_word a b ts) \<union> (\<lambda>(a, b). a @ b) ` set merges"
    using Cons.IH [of "merge_word a b ts"] by (simp add: apply_merges_def m)
  with merge_word_tokens [of a b ts] show ?case by (auto simp: m)
qed (simp add: apply_merges_def)

lemma bpe_word_tokens: "set (bpe_word m merges w) \<subseteq> set (units m w) \<union> (\<lambda>(a, b). a @ b) ` set merges"
  using apply_merges_tokens by (simp add: bpe_word_def)

section \<open>Counting\<close>

lemma count_up_lookup: "map_of (count_up counts x) y =
    (if y = x then Some (case map_of counts x of None \<Rightarrow> 1 | Some n \<Rightarrow> n + 1) else map_of counts y)"
  by (simp add: count_up_def update_conv')

lemma count_up_distinct: "distinct (map fst counts) \<Longrightarrow> distinct (map fst (count_up counts x))"
  by (simp add: count_up_def distinct_update)

lemma counts_distinct: "distinct (map fst acc) \<Longrightarrow> distinct (map fst (foldl count_up acc xs))"
  by (induction xs arbitrary: acc) (simp_all add: count_up_distinct)

lemma counts_lookup: "map_of (foldl count_up acc xs) y =
    (if y \<in> set xs then Some (count_list xs y + (case map_of acc y of None \<Rightarrow> 0 | Some n \<Rightarrow> n)) else map_of acc y)"
  by (induction xs arbitrary: acc) (auto simp: count_up_lookup count_notin split: option.split)

text \<open>A table of counts holds each element seen once, with its number of occurrences.\<close>

lemma counts_table:
  "distinct (map fst (foldl count_up [] xs))" "(y, n) \<in> set (foldl count_up [] xs) \<longleftrightarrow> y \<in> set xs \<and> n = count_list xs y"
proof -
  show d: "distinct (map fst (foldl count_up [] xs))" by (simp add: counts_distinct)
  have "(y, n) \<in> set (foldl count_up [] xs) \<longleftrightarrow> map_of (foldl count_up [] xs) y = Some n"
    using d by (simp add: map_of_eq_Some_iff)
  also have "\<dots> \<longleftrightarrow> y \<in> set xs \<and> n = count_list xs y" by (auto simp: counts_lookup)
  finally show "(y, n) \<in> set (foldl count_up [] xs) \<longleftrightarrow> y \<in> set xs \<and> n = count_list xs y" .
qed

section \<open>The best pair\<close>

lemma permutes_set: "permutes order \<Longrightarrow> set (order xs) = set xs"
  by (metis permutes_def set_mset_mset)

lemma permutes_length: "permutes order \<Longrightarrow> length (order xs) = length xs"
  by (metis permutes_def size_mset)

lemma permutes_distinct: "permutes order \<Longrightarrow> distinct (map fst (order xs)) \<longleftrightarrow> distinct (map fst xs)"
  by (metis permutes_def mset_map mset_eq_imp_distinct_iff)

lemma permutes_id: "permutes (\<lambda>xs. xs)" "permutes rev"
  by (simp_all add: permutes_def)

lemma better_trans: "better a b \<Longrightarrow> \<not> better c b \<Longrightarrow> \<not> better c a"
  by (auto simp: better_def)

lemma fold_best:
  "foldl (\<lambda>best it. if better it best then it else best) p ps \<in> set (p # ps) \<and>
   (\<forall>q \<in> set (p # ps). \<not> better q (foldl (\<lambda>best it. if better it best then it else best) p ps))"
proof (induction ps arbitrary: p)
  case Nil
  then show ?case by (simp add: better_def)
next
  case (Cons x ps)
  let ?p = "if better x p then x else p"
  let ?r = "foldl (\<lambda>best it. if better it best then it else best) ?p ps"
  have r: "?r \<in> set (?p # ps)" "\<forall>q \<in> set (?p # ps). \<not> better q ?r" using Cons [of ?p] by auto
  have "\<not> better p ?r \<and> \<not> better x ?r"
  proof (cases "better x p")
    case True
    then have "\<not> better x ?r" using r(2) by simp
    moreover have "\<not> better p ?r"
      using r(2) True by (auto simp: better_def)
    ultimately show ?thesis by simp
  next
    case False
    then have "\<not> better p ?r" using r(2) by simp
    moreover from this have "\<not> better x ?r" using False by (auto simp: better_def)
    ultimately show ?thesis by simp
  qed
  with r show ?case by (auto split: if_splits)
qed

text \<open>The result is the most frequent adjacent pair and, among equals, the smallest.\<close>

lemma most_frequent_pair:
  fixes word_tokens :: "string list list"
  assumes "permutes order"
  defines "pairs \<equiv> concat (map adjacent word_tokens)"
  defines "best \<equiv> get_most_frequent_pair order word_tokens"
  shows "pairs = [] \<longrightarrow> best = ([], [])"
    and "pairs \<noteq> [] \<longrightarrow> best \<in> set pairs \<and>
      (\<forall>p \<in> set pairs. count_list pairs p < count_list pairs best \<or>
         count_list pairs p = count_list pairs best \<and> best \<le> p)"
proof -
  let ?t = "order (pair_counts word_tokens)"
  have set_t: "(y, n) \<in> set ?t \<longleftrightarrow> y \<in> set pairs \<and> n = count_list pairs y" for y n
    unfolding permutes_set [OF assms(1)] pair_counts_def pairs_def by (rule counts_table(2))
  show "pairs = [] \<longrightarrow> best = ([], [])"
  proof
    assume "pairs = []"
    then have "?t = []" using set_t by (cases ?t) auto
    then show "best = ([], [])" by (simp add: best_def get_most_frequent_pair_def)
  qed
  show "pairs \<noteq> [] \<longrightarrow> best \<in> set pairs \<and>
      (\<forall>p \<in> set pairs. count_list pairs p < count_list pairs best \<or>
         count_list pairs p = count_list pairs best \<and> best \<le> p)"
  proof
    assume "pairs \<noteq> []"
    then obtain y where "(y, count_list pairs y) \<in> set ?t" using set_t by (cases pairs) auto
    then obtain q qs where t: "?t = q # qs" by (cases ?t) auto
    define r where "r = foldl (\<lambda>best it. if better it best then it else best) q qs"
    have r: "r \<in> set ?t" "\<forall>x \<in> set ?t. \<not> better x r" using fold_best [of q qs] by (simp_all add: t r_def)
    have b: "best = fst r" by (simp add: best_def get_most_frequent_pair_def t r_def)
    have n: "best \<in> set pairs" "snd r = count_list pairs best" using r(1) set_t [of "fst r" "snd r"] by (simp_all add: b)
    have "count_list pairs p < count_list pairs best \<or> count_list pairs p = count_list pairs best \<and> best \<le> p"
      if "p \<in> set pairs" for p
    proof -
      have "\<not> better (p, count_list pairs p) r" using r(2) set_t that by blast
      then show ?thesis using n(2) b by (auto simp: better_def not_less)
    qed
    with n(1) show "best \<in> set pairs \<and>
      (\<forall>p \<in> set pairs. count_list pairs p < count_list pairs best \<or>
         count_list pairs p = count_list pairs best \<and> best \<le> p)" by blast
  qed
qed

lemma best_unique:
  "n < m \<or> n = m \<and> x \<le> y \<Longrightarrow> m < n \<or> m = n \<and> y \<le> x \<Longrightarrow> x = y" for n m :: nat and x y :: merge
  by auto

lemma most_frequent_pair_order:
  assumes "permutes order" and "permutes order'"
  shows "get_most_frequent_pair order wt = get_most_frequent_pair order' wt"
proof (cases "concat (map adjacent wt) = []")
  case True
  then show ?thesis using most_frequent_pair(1) assms by metis
next
  case False
  note a = most_frequent_pair(2) [OF assms(1), of wt, THEN mp, OF False, THEN conjunct1]
    most_frequent_pair(2) [OF assms(1), of wt, THEN mp, OF False, THEN conjunct2, rule_format]
  note b = most_frequent_pair(2) [OF assms(2), of wt, THEN mp, OF False, THEN conjunct1]
    most_frequent_pair(2) [OF assms(2), of wt, THEN mp, OF False, THEN conjunct2, rule_format]
  show ?thesis by (rule best_unique [OF a(2) [OF b(1)] b(2) [OF a(1)]])
qed

lemma learn_order:
  "permutes order \<Longrightarrow> permutes order' \<Longrightarrow> learn order n wt x = learn order' n wt x"
  by (induction n arbitrary: wt x) (simp_all add: most_frequent_pair_order [of order order'] Let_def)

section \<open>The built vocabulary\<close>

text \<open>Token ids are the positions in order of insertion, and the two tables are inverse to each other.\<close>

definition dense :: "Tokenizer \<Rightarrow> bool" where
  "dense t \<longleftrightarrow> distinct (map fst (tk_vocab t)) \<and> map snd (tk_vocab t) = map int [0..<length (tk_vocab t)] \<and>
     tk_inverse t = map (\<lambda>(s, i). (i, s)) (tk_vocab t)"

lemma new_tokenizer_dense: "dense (new_tokenizer m key)"
  by (simp add: dense_def new_tokenizer_def special_strings upt_rec)

lemma update_fresh: "k \<notin> fst ` set al \<Longrightarrow> AList.update k v al = al @ [(k, v)]"
  by (induction al) auto

lemma dense_ids: "dense t \<Longrightarrow> (s, i) \<in> set (tk_vocab t) \<Longrightarrow> 0 \<le> i \<and> i < int (length (tk_vocab t))"
proof -
  assume d: "dense t" and "(s, i) \<in> set (tk_vocab t)"
  then have "i \<in> set (map snd (tk_vocab t))" by force
  with d show ?thesis by (auto simp: dense_def simp del: list.set_map)
qed

lemma add_token_dense:
  assumes d: "dense t" and "s \<notin> fst ` set (tk_vocab t)"
  shows "dense (add_token s (int (length (tk_vocab t))) t)"
    and "tk_vocab (add_token s (int (length (tk_vocab t))) t) = tk_vocab t @ [(s, int (length (tk_vocab t)))]"
proof -
  let ?n = "int (length (tk_vocab t))"
  show v: "tk_vocab (add_token s ?n t) = tk_vocab t @ [(s, ?n)]"
    using assms(2) by (simp add: add_token_def update_fresh)
  have "?n \<notin> fst ` set (tk_inverse t)" using d dense_ids [OF d] by (force simp: dense_def)
  then have "tk_inverse (add_token s ?n t) = tk_inverse t @ [(?n, s)]" by (simp add: add_token_def update_fresh)
  with d v assms(2) show "dense (add_token s ?n t)" by (auto simp: dense_def)
qed

lemma dense_inverse:
  assumes "dense t" and "map_of (tk_vocab t) s = Some i"
  shows "0 \<le> i \<and> map_of (tk_inverse t) i = Some s"
proof -
  have "(s, i) \<in> set (tk_vocab t)" using assms(2) by (rule map_of_SomeD)
  moreover have "distinct (map fst (tk_inverse t))"
  proof -
    have "map fst (tk_inverse t) = map snd (tk_vocab t)" using assms(1) by (simp add: dense_def case_prod_beta o_def)
    then show ?thesis using assms(1) by (simp add: dense_def distinct_map)
  qed
  ultimately show ?thesis
    using dense_ids [OF assms(1), of s i] assms(1) by (auto simp: dense_def intro: map_of_is_SomeI)
qed

text \<open>Adding tokens to the vocabulary changes nothing else.\<close>

lemma add_token_same [simp]:
  "tk_mode (add_token s i t) = tk_mode t" "tk_normalization (add_token s i t) = tk_normalization t"
  "tk_merges (add_token s i t) = tk_merges t" "tk_special (add_token s i t) = tk_special t"
  "tk_unk (add_token s i t) = tk_unk t" "tk_bos (add_token s i t) = tk_bos t"
  "tk_eos (add_token s i t) = tk_eos t" "tk_pad (add_token s i t) = tk_pad t" "tk_key (add_token s i t) = tk_key t"
  by (simp_all add: add_token_def)

text \<open>The base vocabulary.\<close>

lemma add_bases_same:
  "tk_mode (fst (foldl (add_base vsize threshold) x ps)) = tk_mode (fst x) \<and>
   tk_normalization (fst (foldl (add_base vsize threshold) x ps)) = tk_normalization (fst x) \<and>
   tk_merges (fst (foldl (add_base vsize threshold) x ps)) = tk_merges (fst x) \<and>
   tk_special (fst (foldl (add_base vsize threshold) x ps)) = tk_special (fst x) \<and>
   tk_unk (fst (foldl (add_base vsize threshold) x ps)) = tk_unk (fst x) \<and>
   tk_bos (fst (foldl (add_base vsize threshold) x ps)) = tk_bos (fst x) \<and>
   tk_eos (fst (foldl (add_base vsize threshold) x ps)) = tk_eos (fst x)"
proof (induction ps arbitrary: x)
  case (Cons p ps)
  have "tk_mode (fst (add_base vsize threshold x p)) = tk_mode (fst x) \<and>
    tk_normalization (fst (add_base vsize threshold x p)) = tk_normalization (fst x) \<and>
    tk_merges (fst (add_base vsize threshold x p)) = tk_merges (fst x) \<and>
    tk_special (fst (add_base vsize threshold x p)) = tk_special (fst x) \<and>
    tk_unk (fst (add_base vsize threshold x p)) = tk_unk (fst x) \<and>
    tk_bos (fst (add_base vsize threshold x p)) = tk_bos (fst x) \<and>
    tk_eos (fst (add_base vsize threshold x p)) = tk_eos (fst x)"
    by (simp add: add_base_def case_prod_beta)
  with Cons [of "add_base vsize threshold x p"] show ?case by (simp only: foldl.simps)
qed simp

definition keys_of :: "Tokenizer \<Rightarrow> string list" where
  "keys_of t = map fst (tk_vocab t)"

definition positions_ok :: "Tokenizer \<times> int \<Rightarrow> bool" where
  "positions_ok x \<longleftrightarrow> dense (fst x) \<and> snd x = int (length (tk_vocab (fst x)))"

lemma add_base_step:
  assumes "positions_ok x" and "fst p \<notin> set (keys_of (fst x))"
  shows "positions_ok (add_base vsize threshold x p)"
    and "\<exists>vs. tk_vocab (fst (add_base vsize threshold x p)) = tk_vocab (fst x) @ vs \<and> map fst vs \<in> {[], [fst p]}"
proof -
  obtain t i where x: "x = (t, i)" by (cases x)
  have fresh: "fst p \<notin> fst ` set (tk_vocab t)" using assms(2) by (simp add: x keys_of_def)
  have d: "dense t" and i: "i = int (length (tk_vocab t))" using assms(1) by (simp_all add: positions_ok_def x)
  show "positions_ok (add_base vsize threshold x p)"
    using add_token_dense [OF d fresh] d i by (simp add: add_base_def x positions_ok_def)
  show "\<exists>vs. tk_vocab (fst (add_base vsize threshold x p)) = tk_vocab (fst x) @ vs \<and> map fst vs \<in> {[], [fst p]}"
    using add_token_dense(2) [OF d fresh] i by (simp add: add_base_def x)
qed

lemma add_bases:
  assumes "positions_ok x" and "distinct (keys_of (fst x) @ map fst ps)"
  shows "positions_ok (foldl (add_base vsize threshold) x ps) \<and>
    (\<exists>vs. tk_vocab (fst (foldl (add_base vsize threshold) x ps)) = tk_vocab (fst x) @ vs \<and>
       set (map fst vs) \<subseteq> set (map fst ps))"
  using assms
proof (induction ps arbitrary: x)
  case Nil
  then show ?case by simp
next
  case (Cons p ps)
  let ?y = "add_base vsize threshold x p"
  have fresh: "fst p \<notin> set (keys_of (fst x))" using Cons.prems(2) by auto
  obtain vs where vs: "tk_vocab (fst ?y) = tk_vocab (fst x) @ vs" "map fst vs \<in> {[], [fst p]}"
    using add_base_step(2) [OF Cons.prems(1) fresh, of vsize threshold] by (elim exE conjE)
  have keys: "keys_of (fst ?y) = keys_of (fst x) \<or> keys_of (fst ?y) = keys_of (fst x) @ [fst p]"
    using vs by (auto simp only: keys_of_def map_append append_Nil2 insert_iff empty_iff)
  then have "distinct (keys_of (fst ?y) @ map fst ps)"
    by (elim disjE) (use Cons.prems(2) in simp_all)
  note IH = Cons.IH [OF add_base_step(1) [OF Cons.prems(1) fresh] this]
  from IH obtain us where us: "tk_vocab (fst (foldl (add_base vsize threshold) ?y ps)) = tk_vocab (fst ?y) @ us"
      "set (map fst us) \<subseteq> set (map fst ps)"
    by (elim conjE exE)
  have "set (map fst vs) \<subseteq> {fst p}" using vs(2) by (elim insertE emptyE) simp_all
  with us(2) have "set (map fst (vs @ us)) \<subseteq> set (map fst (p # ps))"
    unfolding map_append set_append list.map list.set by (meson Un_least insert_mono empty_subsetI subset_insertI2 order_trans)
  moreover have "tk_vocab (fst (foldl (add_base vsize threshold) x (p # ps))) = tk_vocab (fst x) @ (vs @ us)"
    using us(1) vs(1) by simp
  ultimately show ?case using conjunct1 [OF IH] by (intro conjI exI [of _ "vs @ us"]) (simp_all only: foldl.simps)
qed

text \<open>Learning merges. What the merges join must be new strings: the code gives \<open>merged\<close> the next id
  without looking whether it already has one.\<close>

definition joined :: "merge \<Rightarrow> string" where
  "joined m = fst m @ snd m"

lemma learn_merge_same:
  "fst (learn_merge m x) = add_token (joined m) (int (length (tk_vocab (fst x))))
     ((fst x)\<lparr>tk_merges := tk_merges (fst x) @ [m], tk_key := snd x\<rparr>)"
  by (simp add: learn_merge_def joined_def Let_def case_prod_beta)

lemma add_token_update: "tk_vocab (t\<lparr>tk_merges := ms, tk_key := k\<rparr>) = tk_vocab t"
    "dense (t\<lparr>tk_merges := ms, tk_key := k\<rparr>) \<longleftrightarrow> dense t"
  by (simp_all add: dense_def)

lemma learn_prefix:
  "\<exists>new. tk_merges (fst (learn order n wt x)) = tk_merges (fst x) @ new"
proof (induction n arbitrary: wt x)
  case (Suc n)
  let ?best = "get_most_frequent_pair order wt"
  show ?case
  proof (cases "fst ?best = []")
    case False
    from Suc [of "merge_tokens wt (fst ?best) (snd ?best)" "learn_merge ?best x"] False
    show ?thesis by (auto simp: Let_def learn_merge_same)
  qed (simp add: Let_def)
qed simp

lemma learn_dense:
  assumes "dense (fst x)" and "tk_merges (fst (learn order n wt x)) = tk_merges (fst x) @ new"
    and "distinct (map fst (tk_vocab (fst x)) @ map joined new)"
  shows "dense (fst (learn order n wt x)) \<and>
    map fst (tk_vocab (fst (learn order n wt x))) = map fst (tk_vocab (fst x)) @ map joined new \<and>
    (\<exists>vs. tk_vocab (fst (learn order n wt x)) = tk_vocab (fst x) @ vs)"
  using assms
proof (induction n arbitrary: wt x new)
  case (Suc n)
  let ?best = "get_most_frequent_pair order wt"
  show ?case
  proof (cases "fst ?best = []")
    case True
    with Suc.prems show ?thesis by (simp add: Let_def)
  next
    case False
    let ?x = "learn_merge ?best x" and ?wt = "merge_tokens wt (fst ?best) (snd ?best)"
    have step: "learn order (Suc n) wt x = learn order n ?wt ?x" using False by (simp add: Let_def)
    obtain new' where new': "tk_merges (fst (learn order n ?wt ?x)) = tk_merges (fst ?x) @ new'"
      using learn_prefix by blast
    with Suc.prems(2) step have new: "new = ?best # new'" by (simp add: learn_merge_same)
    let ?t = "(fst x)\<lparr>tk_merges := tk_merges (fst x) @ [?best], tk_key := snd x\<rparr>"
    have dt: "dense ?t" using Suc.prems(1) by (simp add: add_token_update)
    have fresh: "joined ?best \<notin> fst ` set (tk_vocab ?t)" using Suc.prems(3) by (force simp: new)
    have d: "dense (fst ?x)"
      and v: "tk_vocab (fst ?x) = tk_vocab (fst x) @ [(joined ?best, int (length (tk_vocab (fst x))))]"
      using add_token_dense [OF dt fresh] by (simp_all add: learn_merge_same)
    have "distinct (map fst (tk_vocab (fst ?x)) @ map joined new')" using Suc.prems(3) by (simp add: v new)
    from Suc.IH [OF d new' this] show ?thesis unfolding step by (auto simp: v new)
  qed
qed simp

lemma learn_same:
  "tk_mode (fst (learn order n wt x)) = tk_mode (fst x) \<and>
   tk_normalization (fst (learn order n wt x)) = tk_normalization (fst x) \<and>
   tk_special (fst (learn order n wt x)) = tk_special (fst x) \<and>
   tk_unk (fst (learn order n wt x)) = tk_unk (fst x) \<and>
   tk_bos (fst (learn order n wt x)) = tk_bos (fst x) \<and> tk_eos (fst (learn order n wt x)) = tk_eos (fst x)"
  by (induction n arbitrary: wt x) (simp_all add: Let_def learn_merge_same)

lemma units_short: "u \<in> set (units m s) \<Longrightarrow> u \<noteq> [] \<and> length u \<le> 4"
  by (auto simp: units_def dest: split_nonempty split: if_splits)

text \<open>A vocabulary built on a new tokenizer: dense ids, tables inverse to each other.\<close>

lemma build_vocab_dense:
  assumes "permutes order_units" and "tk_vocab t = tk_vocab (new_tokenizer m 0)" and "dense t" and "tk_merges t = []"
    and "build_vocab order_units order_pairs texts vsize threshold (t, k) = (None, t', k')"
    and "distinct (map joined (tk_merges t'))"
    and "\<forall>p \<in> set (tk_merges t'). joined p \<notin> {PAD, UNK, BOS, EOS} \<and> joined p \<notin> fst ` set (char_freq t texts)"
  shows "dense t' \<and> tk_mode t' = tk_mode t \<and> tk_normalization t' = tk_normalization t \<and>
    tk_special t' = tk_special t \<and> tk_unk t' = tk_unk t \<and> tk_bos t' = tk_bos t \<and> tk_eos t' = tk_eos t \<and>
    joined ` set (tk_merges t') \<subseteq> fst ` set (tk_vocab t') \<and> take 4 (tk_vocab t') = tk_vocab t"
proof -
  let ?ps = "order_units (char_freq t texts)"
  obtain t1 i1 where b: "foldl (add_base vsize threshold) (t, 4) ?ps = (t1, i1)" by fastforce
  have vt: "tk_vocab t = [(PAD, 0), (UNK, 1), (BOS, 2), (EOS, 3)]" using assms(2) by (simp add: new_tokenizer_def)
  have ps: "fst ` set ?ps = fst ` set (char_freq t texts)" by (simp add: permutes_set [OF assms(1)])
  have short: "length u \<le> 4" if "u \<in> fst ` set ?ps" for u
  proof -
    from that obtain n where "(u, n) \<in> set (char_freq t texts)" unfolding ps by auto
    then have "u \<in> set (concat (map (\<lambda>txt. units (tk_mode t) (as_seen (tk_normalization t) txt)) texts))"
      unfolding char_freq_def counts_table(2) by simp
    then show ?thesis by (auto dest: units_short)
  qed
  have "distinct (map fst ?ps)"
    using permutes_distinct [OF assms(1)] counts_table(1) by (simp add: char_freq_def)
  moreover have "s \<notin> fst ` set ?ps" if "s \<in> {PAD, UNK, BOS, EOS}" for s
  proof
    assume "s \<in> fst ` set ?ps"
    then have "length s \<le> 4" by (rule short)
    with that show False by (auto simp: special_strings)
  qed
  ultimately have "distinct (map fst (tk_vocab t) @ map fst ?ps)"
    by (simp add: vt special_strings)
  then have dist: "distinct (keys_of (fst (t, 4 :: int)) @ map fst ?ps)" by (simp add: keys_of_def)
  have "positions_ok (t, 4)" using assms(3) by (simp add: positions_ok_def vt)
  from add_bases [OF this dist, of vsize threshold] obtain vs where
    vs: "positions_ok (t1, i1)" "tk_vocab t1 = tk_vocab t @ vs" "set (map fst vs) \<subseteq> set (map fst ?ps)"
    by (auto simp only: b fst_conv)
  have keep: "tk_mode t1 = tk_mode t" "tk_normalization t1 = tk_normalization t" "tk_merges t1 = []"
      "tk_special t1 = tk_special t" "tk_unk t1 = tk_unk t" "tk_bos t1 = tk_bos t" "tk_eos t1 = tk_eos t"
    using add_bases_same [of vsize threshold "(t, 4)" ?ps] assms(4) by (simp_all add: b)
  have t1: "dense t1" "tk_merges t1 = []" "tk_vocab t1 = tk_vocab t @ vs" "fst ` set vs \<subseteq> fst ` set ?ps"
    using vs keep(3) by (simp_all add: positions_ok_def)
  obtain words where w: "corpus_words t1 texts = Some words"
    and r: "(t', k') = learn order_pairs (nat (max 0 (vsize - i1))) words (t1, k)"
    using assms(5) b by (auto simp: build_vocab_def build_bpe_merges_def split: option.splits)
  have t': "t' = fst (learn order_pairs (nat (max 0 (vsize - i1))) words (t1, k))" using r by (metis fst_conv)
  obtain new where new: "tk_merges t' = tk_merges (fst (t1, k)) @ new" unfolding t' using learn_prefix by blast
  then have ms: "tk_merges t' = new" using t1(2) by simp
  have "distinct (map fst (tk_vocab (fst (t1, k))) @ map joined new)"
  proof -
    have "distinct (map fst (tk_vocab t1))" using t1(1) by (simp add: dense_def)
    moreover have "joined p \<notin> fst ` set (tk_vocab t1)" if "p \<in> set new" for p
    proof -
      have "fst ` set (tk_vocab t1) = {PAD, UNK, BOS, EOS} \<union> fst ` set vs" by (auto simp: t1(3) vt)
      moreover have "fst ` set vs \<subseteq> fst ` set (char_freq t texts)" using t1(4) by (simp only: ps)
      moreover have "joined p \<notin> {PAD, UNK, BOS, EOS}" "joined p \<notin> fst ` set (char_freq t texts)"
        using assms(7) that by (simp_all add: ms)
      ultimately show ?thesis by (simp only: Un_iff) (rule notI, elim disjE, simp, blast)
    qed
    moreover have "distinct (map joined new)" using assms(6) by (simp only: ms)
    ultimately show ?thesis by (simp add: disjoint_iff) blast
  qed
  from learn_dense [OF _ new [unfolded t'] this] t1(1)
  have d: "dense t'" "map fst (tk_vocab t') = map fst (tk_vocab t1) @ map joined new"
      "\<exists>us. tk_vocab t' = tk_vocab t1 @ us"
    unfolding t' by simp_all
  have "set (map fst (tk_vocab t')) = set (map fst (tk_vocab t1) @ map joined new)" using d(2) by simp
  then have sub: "joined ` set (tk_merges t') \<subseteq> fst ` set (tk_vocab t')" by (auto simp: ms)
  have "take 4 (tk_vocab t') = tk_vocab t" using d(3) t1(3) vt by auto
  moreover have "tk_mode t' = tk_mode t1 \<and> tk_normalization t' = tk_normalization t1 \<and>
      tk_special t' = tk_special t1 \<and> tk_unk t' = tk_unk t1 \<and> tk_bos t' = tk_bos t1 \<and> tk_eos t' = tk_eos t1"
    unfolding t' using learn_same [of order_pairs "nat (max 0 (vsize - i1))" words "(t1, k)"] by simp
  ultimately show ?thesis using d(1) sub keep by simp
qed

end
