(* ===== verification/Bpe_Build.thy ===== *)
theory Bpe_Build
  imports Bpe
begin

text \<open>
  What learning merges guarantees: since every merge is applied to the whole corpus before the next is
  chosen, no string is learned twice, none is a base unit and none is a special token. So the ids
  \<open>build_vocab\<close> gives out (\<open>src/src/BPETokenizer.cpp\<close>) are unique although \<open>build_bpe_merges\<close> never looks.
\<close>

section \<open>Base units\<close>

definition base_unit :: "TokenizerMode \<Rightarrow> string \<Rightarrow> bool" where
  "base_unit m u \<longleftrightarrow> (if m = UNICODE then codepoint u else length u = 1)"

lemma base_unit_nonempty: "base_unit m u \<Longrightarrow> u \<noteq> []"
  by (auto simp: base_unit_def codepoint_def split: if_splits)

lemma units_concat: "list_all (base_unit m) us \<Longrightarrow> units m (concat us) = us"
proof (cases "m = UNICODE")
  case False
  assume "list_all (base_unit m) us"
  then show ?thesis using False
  proof (induction us)
    case (Cons u us)
    then have "length u = 1" by (simp add: base_unit_def)
    then obtain c where "u = [c]" by (auto simp: length_Suc_conv)
    with Cons show ?case by (simp add: units_def)
  qed (simp add: units_def)
qed (auto simp: units_def base_unit_def list_all_iff intro!: split_concat)

lemma base_units_unique:
  "list_all (base_unit m) us \<Longrightarrow> list_all (base_unit m) vs \<Longrightarrow> concat us = concat vs \<Longrightarrow> us = vs"
  using units_concat by metis

lemma units_base: "is_valid_utf8 s \<Longrightarrow> list_all (base_unit m) (units m s)"
  using valid_split by (cases m) (auto simp: units_def base_unit_def list_all_iff)

section \<open>Cutting a tokenized word\<close>

lemma merge_word_short:
  assumes "length v \<le> 1" and "merge_word a b v = ys @ zs"
  shows "\<exists>xs1 xs2. v = xs1 @ xs2 \<and> merge_word a b xs1 = ys \<and> merge_word a b xs2 = zs"
proof -
  have v: "merge_word a b v = v" using assms(1) by (cases v rule: list.exhaust) (auto simp: length_Suc_conv)
  then have "v = ys @ zs" using assms(2) by simp
  moreover have "merge_word a b ys = ys" "merge_word a b zs = zs"
    using assms(1) calculation v by (cases ys; cases zs; simp)+
  ultimately show ?thesis by blast
qed

lemma merge_word_append:
  "merge_word a b xs = ys @ zs \<Longrightarrow> \<exists>xs1 xs2. xs = xs1 @ xs2 \<and> merge_word a b xs1 = ys \<and> merge_word a b xs2 = zs"
proof (induction a b xs arbitrary: ys rule: merge_word.induct)
  case (1 a b x y ts)
  show ?case
  proof (cases ys)
    case Nil
    with 1(3) show ?thesis by (intro exI [of _ "[]"] exI [of _ "x # y # ts"]) simp
  next
    case (Cons y0 ys')
    show ?thesis
    proof (cases "x = a \<and> y = b")
      case True
      with 1(3) Cons have "merge_word a b ts = ys' @ zs" "y0 = a @ b" by simp_all
      with 1(1) True obtain xs1 xs2 where "ts = xs1 @ xs2" "merge_word a b xs1 = ys'" "merge_word a b xs2 = zs" by blast
      with True Cons \<open>y0 = a @ b\<close> show ?thesis by (intro exI [of _ "x # y # xs1"] exI [of _ xs2]) simp
    next
      case False
      with 1(3) Cons have "merge_word a b (y # ts) = ys' @ zs" "y0 = x" by auto
      with 1(2) False obtain xs1 xs2 where
        xs: "y # ts = xs1 @ xs2" "merge_word a b xs1 = ys'" "merge_word a b xs2 = zs" by blast
      have "merge_word a b (x # xs1) = x # ys'"
        using xs(1,2) False by (cases xs1) auto
      with xs Cons \<open>y0 = x\<close> show ?thesis by (intro exI [of _ "x # xs1"] exI [of _ xs2]) simp
    qed
  qed
qed (rule merge_word_short, simp (no_asm), assumption)+

lemma apply_merges_snoc: "apply_merges (ms @ [(a, b)]) xs = merge_word a b (apply_merges ms xs)"
  by (simp add: apply_merges_def)

lemma apply_merges_append:
  "apply_merges ms xs = ys @ zs \<Longrightarrow>
   \<exists>xs1 xs2. xs = xs1 @ xs2 \<and> apply_merges ms xs1 = ys \<and> apply_merges ms xs2 = zs"
proof (induction ms arbitrary: ys zs rule: rev_induct)
  case Nil
  then show ?case by (auto simp: apply_merges_def)
next
  case (snoc m ms)
  obtain a b where m: "m = (a, b)" by (cases m)
  from snoc.prems have "merge_word a b (apply_merges ms xs) = ys @ zs" by (simp add: m apply_merges_snoc)
  then obtain ys' zs' where c: "apply_merges ms xs = ys' @ zs'" "merge_word a b ys' = ys" "merge_word a b zs' = zs"
    using merge_word_append by blast
  from snoc.IH [OF c(1)] obtain xs1 xs2 where "xs = xs1 @ xs2" "apply_merges ms xs1 = ys'" "apply_merges ms xs2 = zs'"
    by blast
  with c show ?case by (intro exI [of _ xs1] exI [of _ xs2]) (simp add: m apply_merges_snoc)
qed

text \<open>Any stretch of tokens is what its own text is tokenized to.\<close>

lemma apply_merges_infix:
  assumes "apply_merges ms us = xs @ ts @ zs"
  obtains u1 u2 u3 where "us = u1 @ u2 @ u3" and "apply_merges ms u2 = ts"
  using apply_merges_append [OF assms] apply_merges_append by metis

lemma apply_merges_single: "apply_merges ms [t] = [t]"
  by (induction ms rule: rev_induct) (auto simp: apply_merges_def)

lemma apply_merges_Nil: "apply_merges ms [] = []"
  by (induction ms rule: rev_induct) (auto simp: apply_merges_def)

lemma apply_merges_compose: "apply_merges (ms @ ns) xs = apply_merges ns (apply_merges ms xs)"
  by (simp add: apply_merges_def)

lemma adjacent_infix: "(a, b) \<in> set (adjacent ts) \<Longrightarrow> \<exists>xs zs. ts = xs @ [a, b] @ zs"
proof (induction ts)
  case (Cons t ts)
  show ?case
  proof (cases ts)
    case Nil
    with Cons.prems show ?thesis by (simp add: adjacent_def)
  next
    case (Cons s ss)
    then have "(a, b) = (t, s) \<or> (a, b) \<in> set (adjacent ts)" using Cons.prems by (auto simp: adjacent_def)
    then show ?thesis
    proof
      assume "(a, b) = (t, s)"
      then show ?thesis using Cons by (intro exI [of _ "[]"] exI [of _ ss]) simp
    next
      assume "(a, b) \<in> set (adjacent ts)"
      with Cons.IH obtain xs zs where "ts = xs @ [a, b] @ zs" by blast
      then show ?thesis by (intro exI [of _ "t # xs"] exI [of _ zs]) simp
    qed
  qed
qed (simp add: adjacent_def)

section \<open>Where merges come from\<close>

text \<open>Each merge joins the two tokens of a stretch of units of some word.\<close>

definition merges_from :: "string list list \<Rightarrow> merge list \<Rightarrow> bool" where
  "merges_from words ms \<longleftrightarrow>
     (\<forall>i < length ms. \<exists>u1 u2 u3. u1 @ u2 @ u3 \<in> set words \<and> apply_merges (take i ms) u2 = [fst (ms ! i), snd (ms ! i)])"

lemma merges_from_snoc:
  assumes "merges_from words ms" and "wt = map (apply_merges ms) words" and "(a, b) \<in> set (concat (map adjacent wt))"
  shows "merges_from words (ms @ [(a, b)])"
proof -
  from assms(2,3) obtain w where w: "w \<in> set words" "(a, b) \<in> set (adjacent (apply_merges ms w))" by auto
  then obtain xs zs where "apply_merges ms w = xs @ [a, b] @ zs" using adjacent_infix by blast
  then obtain u1 u2 u3 where u: "w = u1 @ u2 @ u3" "apply_merges ms u2 = [a, b]" by (rule apply_merges_infix)
  show ?thesis unfolding merges_from_def
  proof (intro allI impI)
    fix i assume "i < length (ms @ [(a, b)])"
    then consider "i < length ms" | "i = length ms" by (auto simp: less_Suc_eq)
    then show "\<exists>u1 u2 u3. u1 @ u2 @ u3 \<in> set words \<and>
        apply_merges (take i (ms @ [(a, b)])) u2 = [fst ((ms @ [(a, b)]) ! i), snd ((ms @ [(a, b)]) ! i)]"
    proof cases
      case 1
      with assms(1) show ?thesis by (simp add: merges_from_def nth_append)
    next
      case 2
      with u w(1) show ?thesis by auto
    qed
  qed
qed

lemma learn_merges_from:
  assumes "permutes order"
  shows "merges_from words ms \<Longrightarrow> wt = map (apply_merges ms) words \<Longrightarrow>
    tk_merges (fst (learn order n wt x)) = tk_merges (fst x) @ new \<Longrightarrow> merges_from words (ms @ new)"
proof (induction n arbitrary: wt x ms new)
  case (Suc n)
  let ?best = "get_most_frequent_pair order wt"
  show ?case
  proof (cases "fst ?best = []")
    case True
    with Suc.prems show ?thesis by (simp add: Let_def)
  next
    case False
    then have ne: "concat (map adjacent wt) \<noteq> []" using most_frequent_pair(1) [OF assms, of wt] by auto
    have best: "(fst ?best, snd ?best) \<in> set (concat (map adjacent wt))"
      using most_frequent_pair(2) [OF assms, of wt] ne by simp
    let ?x = "learn_merge ?best x" and ?wt = "merge_tokens wt (fst ?best) (snd ?best)"
    obtain new' where new': "tk_merges (fst (learn order n ?wt ?x)) = tk_merges (fst ?x) @ new'"
      using learn_prefix by blast
    with Suc.prems(3) False have new: "new = ?best # new'" by (simp add: Let_def learn_merge_same)
    have "?wt = map (apply_merges (ms @ [?best])) words"
      unfolding Suc.prems(2) by (simp add: merge_tokens_def apply_merges_def case_prod_beta)
    from Suc.IH [OF merges_from_snoc [OF Suc.prems(1,2) best, unfolded prod.collapse] this new']
    show ?thesis by (simp add: new)
  qed
qed simp


section \<open>Uniqueness\<close>

lemma merges_from_joined:
  assumes "merges_from words ms" and "i < length ms"
  obtains u w where "apply_merges (take i ms) u = [fst (ms ! i), snd (ms ! i)]" and "concat u = joined (ms ! i)"
    and "w \<in> set words" and "\<exists>u1 u3. w = u1 @ u @ u3"
proof -
  from assms obtain u1 u2 u3 where u: "u1 @ u2 @ u3 \<in> set words"
      "apply_merges (take i ms) u2 = [fst (ms ! i), snd (ms ! i)]"
    unfolding merges_from_def by blast
  from u(2) have "concat u2 = joined (ms ! i)"
    using concat_apply_merges [of "take i ms" u2] by (simp add: joined_def)
  with u that show thesis by blast
qed

lemma joined_single:
  assumes "apply_merges (take i ms) u = [fst (ms ! i), snd (ms ! i)]" and "i < j" and "j \<le> length ms"
  shows "apply_merges (take j ms) u = [joined (ms ! i)]"
proof -
  have "take j ms = (take i ms @ [ms ! i]) @ drop (Suc i) (take j ms)"
    using assms(2,3) by (simp add: take_Suc_conv_app_nth [symmetric]) (metis Suc_leI append_take_drop_id min.absorb1 take_take)
  moreover have "apply_merges (take i ms @ [ms ! i]) u = [joined (ms ! i)]"
    using assms(1) by (cases "ms ! i") (simp add: apply_merges_snoc joined_def)
  ultimately show ?thesis by (metis apply_merges_compose apply_merges_single)
qed

lemma joined_distinct:
  assumes mf: "merges_from words ms" and base: "\<forall>w \<in> set words. list_all (base_unit m) w"
  shows "distinct (map joined ms)"
proof -
  have "joined (ms ! i) \<noteq> joined (ms ! j)" if ij: "i < j" "j < length ms" for i j
  proof
    assume eq: "joined (ms ! i) = joined (ms ! j)"
    obtain u w where u: "apply_merges (take i ms) u = [fst (ms ! i), snd (ms ! i)]" "concat u = joined (ms ! i)"
        "w \<in> set words" "\<exists>u1 u3. w = u1 @ u @ u3"
      using merges_from_joined [OF mf] ij by (metis order.strict_trans)
    obtain v w' where v: "apply_merges (take j ms) v = [fst (ms ! j), snd (ms ! j)]" "concat v = joined (ms ! j)"
        "w' \<in> set words" "\<exists>u1 u3. w' = u1 @ v @ u3"
      using merges_from_joined [OF mf ij(2)] by metis
    have "list_all (base_unit m) u" "list_all (base_unit m) v" using base u(3,4) v(3,4) by fastforce+
    then have "u = v" using u(2) v(2) eq by (intro base_units_unique) simp_all
    with joined_single [OF u(1) ij(1)] ij(2) v(1) show False by simp
  qed
  then show ?thesis by (auto simp: distinct_conv_nth nat_neq_iff) (metis)+
qed

lemma joined_not_base:
  assumes "merges_from words ms" and "\<forall>w \<in> set words. list_all (base_unit m) w" and "p \<in> set ms"
  shows "\<not> base_unit m (joined p)"
proof
  assume b: "base_unit m (joined p)"
  obtain i where i: "i < length ms" "p = ms ! i" using assms(3) by (auto simp: in_set_conv_nth)
  obtain u w where u: "apply_merges (take i ms) u = [fst p, snd p]" "concat u = joined p"
      "w \<in> set words" "\<exists>u1 u3. w = u1 @ u @ u3"
    using merges_from_joined [OF assms(1) i(1)] i(2) by metis
  have "list_all (base_unit m) u" using assms(2) u(3,4) by fastforce
  then have "u = [joined p]" using b u(2) by (intro base_units_unique) simp_all
  with u(1) show False by (simp add: apply_merges_single)
qed

lemma joined_infix:
  assumes "merges_from words ms" and "p \<in> set ms"
  shows "\<exists>w \<in> set words. set (joined p) \<subseteq> set (concat w)"
proof -
  obtain i where i: "i < length ms" "p = ms ! i" using assms(2) by (auto simp: in_set_conv_nth)
  obtain u w where u: "concat u = joined p" "w \<in> set words" "\<exists>u1 u3. w = u1 @ u @ u3"
    using merges_from_joined [OF assms(1) i(1)] i(2) by metis
  then have "set (joined p) \<subseteq> set (concat w)" by (metis Un_upper1 Un_upper2 concat_append order_trans set_append)
  with u(2) show ?thesis by blast
qed


section \<open>No token is a special token\<close>

text \<open>A token with \<open><\<close> has no letter.\<close>

lemma take_takeWhile: "n \<le> length (takeWhile P s) \<Longrightarrow> set (take n s) \<subseteq> {c. P c}"
proof (induction s arbitrary: n)
  case (Cons c s)
  then show ?case by (cases n) (auto split: if_splits)
qed simp

lemma match_run_set: "match_run P s = Some n \<Longrightarrow> set (take n s) \<subseteq> insert CHR '' '' {c. P c}"
proof (cases s)
  case (Cons c cs)
  assume "match_run P s = Some n"
  then consider "c = CHR '' ''" "n = Suc (length (takeWhile P cs))" | "n = length (takeWhile P s)"
    by (auto simp: match_run_def Cons split: if_splits)
  then show ?thesis using take_takeWhile [of "length (takeWhile P cs)" P cs] take_takeWhile [of n P s]
    by cases (auto simp: Cons)
qed (simp add: match_run_def)

lemma match_spaces_set: "match_spaces s = Some n \<Longrightarrow> set (take n s) \<subseteq> {c. is_space c}"
  by (rule take_takeWhile) (auto simp: match_spaces_def Let_def split: if_splits)

lemma match_contraction_in: "match_contraction s = Some n \<Longrightarrow> take n s \<in> set contractions"
  by (auto simp: match_contraction_def find_Some_iff)

lemma less_sign: "\<not> is_letter m CHR ''<''" "\<not> is_digit CHR ''<''" "\<not> is_space CHR ''<''"
  by (simp_all add: is_letter_def is_digit_def is_space_def is_ascii_iff less_eq_char_def)

lemma next_match_class:
  assumes "next_match m s = Some n" and "CHR ''<'' \<in> set (take n s)" and "c \<in> set (take n s)"
  shows "\<not> is_letter m c"
  using assms(1)
proof (cases rule: next_match_cases)
  case contraction
  then have "take n s \<in> set contractions" by (rule match_contraction_in)
  with assms(2) show ?thesis by (auto simp: contractions_def)
next
  case letters
  with assms(2) match_run_set less_sign(1) show ?thesis by fastforce
next
  case digits
  with assms(2) match_run_set less_sign(2) show ?thesis by fastforce
next
  case others
  then have "set (take n s) \<subseteq> insert CHR '' '' {c. is_other m c}" by (rule match_run_set)
  with assms(3) show ?thesis by (auto simp: is_other_def is_letter_def is_ascii_iff less_eq_char_def)
next
  case spaces
  with assms(2) match_spaces_set less_sign(3) show ?thesis by fastforce
qed

lemma regex_token_class:
  "t \<in> set (regex_tokens m s) \<Longrightarrow> CHR ''<'' \<in> set t \<Longrightarrow> c \<in> set t \<Longrightarrow> \<not> is_letter m c"
proof (induction s rule: regex_induct [where mode = m])
  case (Token s n)
  then show ?case using next_match_class by (metis set_ConsD)
qed simp

lemma collapse_set: "set (collapse_spaces s) \<subseteq> insert CHR '' '' (set s)"
  by (induction s rule: collapse_spaces.induct) (auto split: if_splits)

lemma pre_token_class:
  assumes "pre_tokenize m n s = Some ts" and "t \<in> set ts" and "CHR ''<'' \<in> set t"
  shows "c \<in> set t \<Longrightarrow> \<not> is_letter m c"
proof -
  assume c: "c \<in> set t"
  obtain r where r: "r \<in> set (regex_tokens m (normalize_case m n s))" "t = collapse_spaces r"
    using assms(1,2) by (auto simp: pre_tokenize_def split: if_splits)
  have "CHR ''<'' \<in> set r" "c = CHR '' '' \<or> c \<in> set r" using assms(3) c collapse_set [of r] r(2) by auto
  then show ?thesis using regex_token_class [OF r(1)]
    by (auto simp: is_letter_def is_ascii_iff less_eq_char_def)
qed

lemma special_class: "s \<in> {PAD, UNK, BOS, EOS} \<Longrightarrow> CHR ''<'' \<in> set s \<and> (\<exists>c \<in> set s. is_letter m c)"
proof -
  have l: "is_letter m CHR ''p''" "is_letter m CHR ''u''" "is_letter m CHR ''b''" "is_letter m CHR ''e''"
    by (simp_all add: is_letter_def less_eq_char_def)
  assume "s \<in> {PAD, UNK, BOS, EOS}"
  with l show ?thesis by (auto simp: special_strings)
qed

section \<open>Vocabularies built from a corpus\<close>

lemma corpus_words_base:
  "corpus_words t texts = Some words \<Longrightarrow> w \<in> set words \<Longrightarrow>
   list_all (base_unit (tk_mode t)) w \<and> (CHR ''<'' \<in> set (concat w) \<longrightarrow> (\<forall>c \<in> set (concat w). \<not> is_letter (tk_mode t) c))"
proof (induction texts arbitrary: words)
  case (Cons txt' texts)
  from Cons.prems(1) obtain ts ws where ts: "pre_tokenize (tk_mode t) (tk_normalization t) txt' = Some ts"
      "corpus_words t texts = Some ws" "words = filter (\<lambda>u. u \<noteq> []) (map (units (tk_mode t)) ts) @ ws"
    by (auto simp: bind_eq_Some_conv)
  show ?case
  proof (cases "w \<in> set ws")
    case True
    with Cons.IH [OF ts(2)] show ?thesis by simp
  next
    case False
    with ts(3) Cons.prems(2) obtain tok where tok: "tok \<in> set ts" "w = units (tk_mode t) tok" by auto
    have "list_all (base_unit (tk_mode t)) w"
    proof (cases "tk_mode t")
      case ASCII
      then show ?thesis by (simp add: tok(2) units_def base_unit_def list_all_iff)
    next
      case UNICODE
      then have "is_valid_utf8 tok" using pre_tokenize_valid ts(1) tok(1) by (auto simp: list_all_iff)
      then show ?thesis unfolding tok(2) by (rule units_base)
    qed
    moreover have "CHR ''<'' \<in> set tok \<Longrightarrow> c \<in> set tok \<Longrightarrow> \<not> is_letter (tk_mode t) c" for c
      using pre_token_class [OF ts(1) tok(1)] by blast
    ultimately show ?thesis by (simp add: tok(2) del: set_concat)
  qed
qed simp

lemma corpus_words_valid: "corpus_words t texts = Some words \<Longrightarrow> s \<in> set texts \<Longrightarrow> is_valid_utf8 s"
  by (induction texts arbitrary: words) (auto simp: bind_eq_Some_conv pre_tokenize_def split: if_splits)

lemma as_seen_valid: "is_valid_utf8 s \<Longrightarrow> is_valid_utf8 (as_seen n s)"
  by (simp add: as_seen_def lower_valid)

lemma corpus_words_cong:
  "tk_mode t = tk_mode t' \<Longrightarrow> tk_normalization t = tk_normalization t' \<Longrightarrow> corpus_words t texts = corpus_words t' texts"
  by (induction texts) simp_all

text \<open>The merges of a successful \<open>build_vocab\<close> satisfy what \<open>build_vocab_dense\<close> asks for.\<close>

lemma build_vocab_fresh:
  assumes "permutes order_pairs" and "tk_merges t = []"
    and "build_vocab order_units order_pairs texts vsize threshold (t, k) = (None, t', k')"
  shows "distinct (map joined (tk_merges t'))"
    and "\<forall>p \<in> set (tk_merges t'). joined p \<notin> {PAD, UNK, BOS, EOS} \<and> joined p \<notin> fst ` set (char_freq t texts)"
proof -
  obtain t1 i1 where b: "foldl (add_base vsize threshold) (t, 4) (order_units (char_freq t texts)) = (t1, i1)" by fastforce
  have keep: "tk_mode t1 = tk_mode t" "tk_normalization t1 = tk_normalization t" "tk_merges t1 = []"
    using add_bases_same [of vsize threshold "(t, 4)" "order_units (char_freq t texts)"] assms(2) by (simp_all add: b)
  obtain words where w: "corpus_words t1 texts = Some words"
    and r: "(t', k') = learn order_pairs (nat (max 0 (vsize - i1))) words (t1, k)"
    using assms(3) b by (auto simp: build_vocab_def build_bpe_merges_def split: option.splits)
  have t': "t' = fst (learn order_pairs (nat (max 0 (vsize - i1))) words (t1, k))" using r by (metis fst_conv)
  have wt: "corpus_words t texts = Some words" using w corpus_words_cong [of t1 t] keep by simp
  have "words = map (apply_merges []) words" by (simp add: apply_merges_def map_idI)
  moreover have "tk_merges t' = tk_merges (fst (t1, k)) @ tk_merges t'" using keep(3) by simp
  ultimately have mf: "merges_from words (tk_merges t')"
    using learn_merges_from [OF assms(1), of words "[]" words "nat (max 0 (vsize - i1))" "(t1, k)" "tk_merges t'", folded t']
    by (simp only: append_Nil) (simp add: merges_from_def)
  have base: "\<forall>w \<in> set words. list_all (base_unit (tk_mode t)) w" using corpus_words_base [OF wt] by blast
  show "distinct (map joined (tk_merges t'))" by (rule joined_distinct [OF mf base])
  show "\<forall>p \<in> set (tk_merges t'). joined p \<notin> {PAD, UNK, BOS, EOS} \<and> joined p \<notin> fst ` set (char_freq t texts)"
  proof (intro ballI conjI notI)
    fix p assume p: "p \<in> set (tk_merges t')"
    { assume s: "joined p \<in> {PAD, UNK, BOS, EOS}"
      obtain w where w: "w \<in> set words" "set (joined p) \<subseteq> set (concat w)" using joined_infix [OF mf p] by blast
      with special_class [OF s, of "tk_mode t"] corpus_words_base [OF wt w(1)] show False by blast }
    assume "joined p \<in> fst ` set (char_freq t texts)"
    then obtain n where "(joined p, n) \<in> set (char_freq t texts)" by auto
    then obtain s where s: "s \<in> set texts" "joined p \<in> set (units (tk_mode t) (as_seen (tk_normalization t) s))"
      unfolding char_freq_def counts_table(2) by auto
    then have "base_unit (tk_mode t) (joined p)"
      using units_base [OF as_seen_valid [OF corpus_words_valid [OF wt s(1)]]] by (auto simp: list_all_iff)
    with joined_not_base [OF mf base p] show False by simp
  qed
qed

end
