(* ===== verification/Bpe_Vocab.thy ===== *)
theory Bpe_Vocab
  imports Bpe Config_Text
begin

text \<open>
  The vocabulary file of \<open>src/src/BPETokenizer.cpp\<close>: \<open>save_vocab\<close> with its temporary file, \<open>load_vocab\<close>
  line by line. The file system is a map from paths to texts; whether the stream opens, how much
  of the text reaches the file and whether \<open>rename\<close> succeeds are arguments. \<open>load_vocab\<close>
  returns the tokenizer also when it throws: its tables are cleared before the first line is read.
\<close>

section \<open>Escapes\<close>

definition TAB :: char where "TAB = CHR 0x09"

lemma TAB_distinct [simp]: "TAB \<noteq> NL" "NL \<noteq> TAB" "TAB \<noteq> BSLASH" "BSLASH \<noteq> TAB" "TAB \<noteq> CR" "CR \<noteq> TAB"
  by (simp_all add: TAB_def special_chars)

definition escape_char :: "char \<Rightarrow> string" where
  "escape_char c =
     (if c = NL then [BSLASH, CHR ''n''] else if c = TAB then [BSLASH, CHR ''t'']
      else if c = CR then [BSLASH, CHR ''r''] else if c = BSLASH then [BSLASH, BSLASH]
      else if c = CHR '' '' then [BSLASH, CHR ''s''] else [c])"

definition vocab_escape :: "string \<Rightarrow> string" where
  "vocab_escape s = concat (map escape_char s)"

fun vocab_unescape :: "string \<Rightarrow> string" where
  "vocab_unescape [] = []"
| "vocab_unescape [c] = [c]"
| "vocab_unescape (c # d # s) =
     (if c = BSLASH then
        if d = CHR ''n'' then NL # vocab_unescape s
        else if d = CHR ''t'' then TAB # vocab_unescape s
        else if d = CHR ''r'' then CR # vocab_unescape s
        else if d = BSLASH then BSLASH # vocab_unescape s
        else if d = CHR ''s'' then CHR '' '' # vocab_unescape s
        else c # vocab_unescape (d # s)
      else c # vocab_unescape (d # s))"

section \<open>Numbers at the start of a text\<close>

text \<open>What \<open>strtol\<close> reads: white space, a sign, digits, and the rest is ignored.\<close>

definition int_prefix :: "string \<Rightarrow> int option" where
  "int_prefix value =
     (let s = dropWhile is_space value;
          (neg, ds) = (case s of c # cs \<Rightarrow> if c = CHR ''-'' then (True, cs)
                                    else if c = CHR ''+'' then (False, cs) else (False, s)
                       | [] \<Rightarrow> (False, []));
          digits = takeWhile is_digit ds
      in if digits = [] then None
         else Some (if neg then - int (digits_value digits) else int (digits_value digits)))"

datatype stoi_result = Stoi_Invalid_Argument | Stoi_Out_Of_Range | Stoi_Value int

definition stoi :: "string \<Rightarrow> stoi_result" where
  "stoi s =
     (case int_prefix s of
        None \<Rightarrow> Stoi_Invalid_Argument
      | Some i \<Rightarrow> if - (2 ^ 31) \<le> i \<and> i < 2 ^ 31 then Stoi_Value i else Stoi_Out_Of_Range)"

text \<open>\<open>std::atoi\<close> as the C library has it: \<open>strtol\<close>, which saturates, cut to an \<open>int\<close>.\<close>

definition atoi :: "string \<Rightarrow> int" where
  "atoi s =
     (case int_prefix s of None \<Rightarrow> 0 | Some i \<Rightarrow> to_i32 (max (- (2 ^ 63)) (min (2 ^ 63 - 1) i)))"

section \<open>Saving\<close>

definition mode_name :: "TokenizerMode \<Rightarrow> string" where
  "mode_name m = (if m = UNICODE then ''UNICODE'' else ''ASCII'')"

definition norm_name :: "TextNormalization \<Rightarrow> string" where
  "norm_name n = (if n = CASED then ''CASED'' else ''LOWERCASE'')"

definition header_lines :: "Tokenizer \<Rightarrow> string list" where
  "header_lines t =
     [''# BPE Tokenizer Vocabulary v2.0'',
      ''TOKENIZER_MODE '' @ mode_name (tk_mode t),
      ''NORMALIZATION '' @ norm_name (tk_normalization t),
      ''VOCAB_SIZE '' @ nat_to_string (length (tk_vocab t)),
      ''SPECIAL_TOKENS'',
      ''pad_token_id '' @ int_to_string (tk_pad t),
      ''unk_token_id '' @ int_to_string (tk_unk t),
      ''bos_token_id '' @ int_to_string (tk_bos t),
      ''eos_token_id '' @ int_to_string (tk_eos t)]"

definition vocab_line :: "string \<times> int \<Rightarrow> string" where
  "vocab_line p = vocab_escape (fst p) @ TAB # int_to_string (snd p)"

definition merge_line :: "merge \<Rightarrow> string" where
  "merge_line m = vocab_escape (fst m) @ TAB # vocab_escape (snd m)"

definition vocab_lines ::
  "((string \<times> int) list \<Rightarrow> (string \<times> int) list) \<Rightarrow> Tokenizer \<Rightarrow> string list" where
  "vocab_lines order t =
     header_lines t @ [''VOCAB''] @ map vocab_line (order (tk_vocab t)) @
     [''BPE_MERGES '' @ nat_to_string (length (tk_merges t))] @ map merge_line (tk_merges t)"

record save_env =
  v_open_ok :: bool
  v_written :: "nat option"    \<comment> \<open>the stream fails after this many characters\<close>
  v_rename_ok :: bool
  v_remove_ok :: bool

type_synonym text_files = "string \<rightharpoonup> string"

definition save_vocab ::
  "save_env \<Rightarrow> ((string \<times> int) list \<Rightarrow> (string \<times> int) list) \<Rightarrow> string \<Rightarrow> Tokenizer \<Rightarrow> text_files \<Rightarrow>
     TokenizerError option \<times> text_files" where
  "save_vocab env order filename t fs =
     (if filename = [] then (Some (VocabularyFileError ''Vocabulary filename is empty''), fs)
      else
        let tmp_filename = filename @ ''.tmp'';
            content = unlines (vocab_lines order t);
            remove = (\<lambda>fs. if v_remove_ok env then fs(tmp_filename := None) else fs)
        in
        if \<not> v_open_ok env then
          (Some (VocabularyFileError (''Could not open vocabulary file for writing: '' @ tmp_filename)), fs)
        else case v_written env of
          Some n \<Rightarrow>
            (Some (VocabularyFileError (''Failed writing vocabulary file: '' @ tmp_filename)),
             remove (fs(tmp_filename \<mapsto> take n content)))
        | None \<Rightarrow>
            let fs = fs(tmp_filename \<mapsto> content) in
            if v_rename_ok env then (None, fs(filename \<mapsto> content, tmp_filename := None))
            else (Some (VocabularyFileError (''Could not move vocabulary file into place: '' @ filename)), remove fs))"

section \<open>Loading\<close>

datatype vocab_section = No_Section | Special_Section | Vocab_Section | Merges_Section

definition load_special :: "string \<Rightarrow> string \<Rightarrow> Tokenizer \<Rightarrow> TokenizerError + Tokenizer" where
  "load_special filename line t =
     (case split_first CHR '' '' line of
        None \<Rightarrow> Inl (VocabularyFileError (''Malformed SPECIAL_TOKENS line in '' @ filename @ '': '' @ line))
      | Some (key, value_str) \<Rightarrow>
          case stoi value_str of
            Stoi_Invalid_Argument \<Rightarrow>
              Inl (VocabularyFileError (''Invalid integer value for special token in '' @ filename @ '': '' @ value_str))
          | Stoi_Out_Of_Range \<Rightarrow>
              Inl (VocabularyFileError (''Special token ID out of range in '' @ filename @ '': '' @ value_str))
          | Stoi_Value value \<Rightarrow>
              Inr (if key = ''pad_token_id'' then t\<lparr>tk_pad := value\<rparr>
                   else if key = ''unk_token_id'' then t\<lparr>tk_unk := value\<rparr>
                   else if key = ''bos_token_id'' then t\<lparr>tk_bos := value\<rparr>
                   else if key = ''eos_token_id'' then t\<lparr>tk_eos := value\<rparr>
                   else t))"

definition load_token :: "string \<Rightarrow> string \<Rightarrow> Tokenizer \<Rightarrow> TokenizerError + Tokenizer" where
  "load_token filename line t =
     (case split_first TAB line of
        None \<Rightarrow> Inl (VocabularyFileError (''Malformed VOCAB line (missing tab separator) in '' @ filename @ '': '' @ line))
      | Some (token_str, id_str) \<Rightarrow>
          let token = vocab_unescape token_str in
          case stoi id_str of
            Stoi_Invalid_Argument \<Rightarrow> Inl (VocabularyFileError (''Invalid token ID in '' @ filename @ '': '' @ id_str))
          | Stoi_Out_Of_Range \<Rightarrow> Inl (VocabularyFileError (''Token ID out of range in '' @ filename @ '': '' @ id_str))
          | Stoi_Value i \<Rightarrow>
              if i < 0 then Inl (VocabularyFileError (''Negative token ID in '' @ filename @ '': '' @ int_to_string i))
              else
                let t = add_token token i t in
                Inr (if i \<in> {tk_pad t, tk_unk t, tk_bos t, tk_eos t}
                     then t\<lparr>tk_special := List.insert token (tk_special t)\<rparr> else t))"

definition load_merge :: "string \<Rightarrow> string \<Rightarrow> Tokenizer \<Rightarrow> TokenizerError + Tokenizer" where
  "load_merge filename line t =
     (case split_first TAB line of
        None \<Rightarrow> Inl (VocabularyFileError (''Malformed BPE_MERGES line (missing tab separator) in '' @ filename @ '': '' @ line))
      | Some (first_str, second_str) \<Rightarrow>
          let first = vocab_unescape first_str; second = vocab_unescape second_str in
          if first = [] \<or> second = [] then Inl (VocabularyFileError (''Empty merge token in '' @ filename))
          else Inr (t\<lparr>tk_merges := tk_merges t @ [(first, second)]\<rparr>))"

definition format_comment :: string where
  "format_comment = ''# BPE Tokenizer Vocabulary v''"

definition load_line ::
  "string \<Rightarrow> string \<Rightarrow> vocab_section \<times> Tokenizer \<Rightarrow> TokenizerError + vocab_section \<times> Tokenizer" where
  "load_line filename line x =
     (case x of (sec, t) \<Rightarrow>
        if starts_with format_comment line then
          if atoi (drop (length format_comment) line) > 2 then
            Inl (VocabularyFileError (filename @ '' is vocabulary format v'' @ drop (length format_comment) line @
              '', newer than this build reads (v2); update the binary''))
          else Inr x
        else if line = [] \<or> List.hd line = CHR ''#'' then Inr x
        else if starts_with ''NORMALIZATION'' line then
          let value = (if length line > 14 then drop 14 line else []) in
          if value = ''CASED'' then Inr (sec, t\<lparr>tk_normalization := CASED\<rparr>)
          else if value = ''LOWERCASE'' then Inr (sec, t\<lparr>tk_normalization := LOWERCASE\<rparr>)
          else Inl (VocabularyFileError (''Unknown NORMALIZATION '' @ [CHR 0x27] @ value @ [CHR 0x27] @ '' in '' @ filename))
        else if starts_with ''TOKENIZER_MODE'' line then
          if length line < 15 then Inl StdOutOfRange
          else Inr (sec, t\<lparr>tk_mode := (if drop 15 line = ''UNICODE'' then UNICODE else ASCII)\<rparr>)
        else if starts_with ''VOCAB_SIZE'' line then Inr x
        else if line = ''SPECIAL_TOKENS'' then Inr (Special_Section, t)
        else if line = ''VOCAB'' then Inr (Vocab_Section, t)
        else if starts_with ''BPE_MERGES'' line then Inr (Merges_Section, t)
        else case sec of
          No_Section \<Rightarrow> Inl (VocabularyFileError (''Unknown vocabulary header line in '' @ filename @ '': '' @ line))
        | Special_Section \<Rightarrow> map_sum id (Pair sec) (load_special filename line t)
        | Vocab_Section \<Rightarrow> map_sum id (Pair sec) (load_token filename line t)
        | Merges_Section \<Rightarrow> map_sum id (Pair sec) (load_merge filename line t))"

primrec load_lines ::
  "string \<Rightarrow> string list \<Rightarrow> vocab_section \<times> Tokenizer \<Rightarrow> TokenizerError option \<times> vocab_section \<times> Tokenizer" where
  "load_lines filename [] x = (None, x)"
| "load_lines filename (line # ls) x =
     (case load_line filename line x of Inl e \<Rightarrow> (Some e, x) | Inr x \<Rightarrow> load_lines filename ls x)"

definition loaded :: "Tokenizer \<Rightarrow> Tokenizer" where
  "loaded t = t\<lparr>tk_special := List.insert EOS (List.insert BOS (List.insert UNK (List.insert PAD (tk_special t)))),
     tk_inverse := AList.update (tk_eos t) EOS (AList.update (tk_bos t) BOS
       (AList.update (tk_unk t) UNK (AList.update (tk_pad t) PAD (tk_inverse t))))\<rparr>"

definition load_vocab ::
  "string \<Rightarrow> string option \<Rightarrow> Tokenizer \<times> nat \<Rightarrow> TokenizerError option \<times> Tokenizer \<times> nat" where
  "load_vocab filename content x =
     (case x of (t, next_key) \<Rightarrow>
        if filename = [] then (Some (VocabularyFileError ''Vocabulary filename is empty''), x)
        else case content of
          None \<Rightarrow> (Some (VocabularyFileError (''Could not open vocabulary file: '' @ filename)), x)
        | Some s \<Rightarrow>
            let t = t\<lparr>tk_key := next_key, tk_normalization := LOWERCASE, tk_mode := ASCII,
                      tk_vocab := [], tk_inverse := [], tk_merges := [], tk_special := []\<rparr>;
                (err, sec, t) = load_lines filename (getlines s) (No_Section, t);
                keys = map fst (tk_vocab t)
            in case err of
                 Some e \<Rightarrow> (Some e, t, next_key + 1)
               | None \<Rightarrow>
                   if tk_vocab t = [] then
                     (Some (VocabularyFileError (''Loaded vocabulary is empty from file: '' @ filename)), t, next_key + 1)
                   else if PAD \<notin> set keys \<or> UNK \<notin> set keys \<or> BOS \<notin> set keys \<or> EOS \<notin> set keys then
                     (Some (VocabularyFileError (''Missing required special tokens in '' @ filename)), t, next_key + 1)
                   else (None, loaded t, next_key + 1))"


section \<open>Reading back what was written\<close>

lemma escape_simps [simp]: "vocab_escape [] = []" "vocab_escape (c # s) = escape_char c @ vocab_escape s"
  by (simp_all add: vocab_escape_def)

lemma vocab_unescape_plain: "c \<noteq> BSLASH \<Longrightarrow> vocab_unescape (c # s) = c # vocab_unescape s"
  by (cases s) simp_all

lemma vocab_unescape_escape [simp]: "vocab_unescape (vocab_escape s) = s"
  by (induction s) (auto simp: escape_char_def vocab_unescape_plain special_chars TAB_def)

lemma escape_char_set: "d \<in> set (escape_char c) \<Longrightarrow> d \<notin> {NL, TAB, CR, CHR '' ''}"
  by (auto simp: escape_char_def special_chars TAB_def split: if_splits)

lemma escape_set: "d \<in> set (vocab_escape s) \<Longrightarrow> d \<notin> {NL, TAB, CR, CHR '' ''}"
  unfolding vocab_escape_def set_concat set_map by (auto dest: escape_char_set)

lemma escape_clean [simp]: "NL \<notin> set (vocab_escape s)" "TAB \<notin> set (vocab_escape s)"
  using escape_set by blast+

lemma escape_eq_Nil [simp]: "vocab_escape s = [] \<longleftrightarrow> s = []"
  by (cases s) (auto simp: escape_char_def)

lemma takeWhile_all: "list_all P s \<Longrightarrow> takeWhile P s = s"
  by (induction s) auto

lemma int_prefix_print [simp]: "int_prefix (int_to_string i) = Some i"
proof -
  obtain d ds where d: "nat_to_string (nat \<bar>i\<bar>) = d # ds" "is_digit d"
    using nat_to_string_first by blast
  have all: "takeWhile is_digit (d # ds) = d # ds"
    using nat_to_string_digits [of "nat \<bar>i\<bar>"] unfolding d(1) by (rule takeWhile_all)
  have v: "digits_value (d # ds) = nat \<bar>i\<bar>" using digits_value_nat_to_string [of "nat \<bar>i\<bar>"] unfolding d(1) .
  show ?thesis using digit_not_special [OF d(2)] d(1) all v
    by (auto simp: int_prefix_def int_to_string_def is_space_def Let_def)
qed

lemma stoi_print: "- (2 ^ 31) \<le> i \<Longrightarrow> i < 2 ^ 31 \<Longrightarrow> stoi (int_to_string i) = Stoi_Value i"
  by (simp add: stoi_def)


text \<open>Tokens whose line is taken for a comment or a header line.\<close>

definition reserved :: "string \<Rightarrow> bool" where
  "reserved s \<longleftrightarrow> starts_with ''#'' s \<or> starts_with ''NORMALIZATION'' s \<or> starts_with ''TOKENIZER_MODE'' s \<or>
     starts_with ''VOCAB_SIZE'' s \<or> starts_with ''BPE_MERGES'' s"

definition bare :: "char \<Rightarrow> bool" where
  "bare c \<longleftrightarrow> c \<notin> {NL, TAB, CR, BSLASH, CHR '' ''}"

lemma starts_with_escape:
  "list_all bare p \<Longrightarrow> starts_with p (vocab_escape s @ TAB # u) \<longleftrightarrow> starts_with p s"
proof (induction p arbitrary: s)
  case (Cons c p)
  show ?case
  proof (cases s)
    case Nil
    then show ?thesis using Cons.prems by (auto simp: bare_def)
  next
    case (Cons d ds)
    have "starts_with (c # p) (escape_char d @ vocab_escape ds @ TAB # u) \<longleftrightarrow> d = c \<and> starts_with p ds"
      using Cons.prems Cons.IH [of ds] by (auto simp: escape_char_def bare_def)
    then show ?thesis by (simp add: Cons)
  qed
qed simp

lemma reserved_escape: "reserved (vocab_escape s @ TAB # u) \<longleftrightarrow> reserved s"
proof -
  have "list_all bare ''#''" "list_all bare ''NORMALIZATION''" "list_all bare ''TOKENIZER_MODE''"
      "list_all bare ''VOCAB_SIZE''" "list_all bare ''BPE_MERGES''"
    by (simp_all add: bare_def special_chars TAB_def)
  then show ?thesis unfolding reserved_def by (simp only: starts_with_escape)
qed

lemma load_line_section:
  assumes "\<not> reserved line" and "TAB \<in> set line"
  shows "load_line filename line (Vocab_Section, t) = map_sum id (Pair Vocab_Section) (load_token filename line t)"
    and "load_line filename line (Merges_Section, t) = map_sum id (Pair Merges_Section) (load_merge filename line t)"
proof -
  have ne: "line \<noteq> []" "line \<noteq> ''SPECIAL_TOKENS''" "line \<noteq> ''VOCAB''" using assms(2) by (auto simp: TAB_def)
  have h: "List.hd line \<noteq> CHR ''#''" using assms(1) ne(1) by (cases line) (auto simp: reserved_def)
  then have f: "\<not> starts_with format_comment line" using ne(1) by (cases line) (auto simp: format_comment_def)
  from assms(1) have k: "\<not> starts_with ''NORMALIZATION'' line" "\<not> starts_with ''TOKENIZER_MODE'' line"
      "\<not> starts_with ''VOCAB_SIZE'' line" "\<not> starts_with ''BPE_MERGES'' line"
    unfolding reserved_def by simp_all
  show "load_line filename line (Vocab_Section, t) = map_sum id (Pair Vocab_Section) (load_token filename line t)"
    unfolding load_line_def by (simp only: prod.case if_False f ne h k de_Morgan_disj vocab_section.case simp_thms)
  show "load_line filename line (Merges_Section, t) = map_sum id (Pair Merges_Section) (load_merge filename line t)"
    unfolding load_line_def by (simp only: prod.case if_False f ne h k de_Morgan_disj vocab_section.case simp_thms)
qed

definition put_token :: "Tokenizer \<Rightarrow> string \<times> int \<Rightarrow> Tokenizer" where
  "put_token t p =
     (let t = add_token (fst p) (snd p) t in
      if snd p \<in> {tk_pad t, tk_unk t, tk_bos t, tk_eos t}
      then t\<lparr>tk_special := List.insert (fst p) (tk_special t)\<rparr> else t)"

lemma load_vocab_line:
  assumes "\<not> reserved (fst p)" and "0 \<le> snd p" and "snd p < 2 ^ 31"
  shows "load_line filename (vocab_line p) (Vocab_Section, t) = Inr (Vocab_Section, put_token t p)"
proof -
  have "load_line filename (vocab_line p) (Vocab_Section, t) =
      map_sum id (Pair Vocab_Section) (load_token filename (vocab_line p) t)"
    using assms(1) by (intro load_line_section) (simp_all add: vocab_line_def reserved_escape)
  also have "load_token filename (vocab_line p) t = Inr (put_token t p)"
    using assms(2,3) by (simp add: load_token_def vocab_line_def stoi_print put_token_def Let_def)
  finally show ?thesis by simp
qed

lemma load_merge_line:
  assumes "\<not> reserved (fst m)" and "fst m \<noteq> []" and "snd m \<noteq> []"
  shows "load_line filename (merge_line m) (Merges_Section, t) = Inr (Merges_Section, t\<lparr>tk_merges := tk_merges t @ [m]\<rparr>)"
proof -
  have "load_line filename (merge_line m) (Merges_Section, t) =
      map_sum id (Pair Merges_Section) (load_merge filename (merge_line m) t)"
    using assms(1) by (intro load_line_section) (simp_all add: merge_line_def reserved_escape)
  also have "load_merge filename (merge_line m) t = Inr (t\<lparr>tk_merges := tk_merges t @ [m]\<rparr>)"
    using assms(2,3) by (simp add: load_merge_def merge_line_def Let_def)
  finally show ?thesis by simp
qed

lemma load_lines_append:
  "load_lines filename ls x = (None, y) \<Longrightarrow> load_lines filename (ls @ ls') x = load_lines filename ls' y"
  by (induction ls arbitrary: x) (auto split: sum.splits)

lemma load_tokens:
  "\<forall>p \<in> set ps. \<not> reserved (fst p) \<and> 0 \<le> snd p \<and> snd p < 2 ^ 31 \<Longrightarrow>
   load_lines filename (map vocab_line ps) (Vocab_Section, t) = (None, Vocab_Section, foldl put_token t ps)"
  by (induction ps arbitrary: t) (simp_all add: load_vocab_line)

lemma load_merges:
  "\<forall>m \<in> set ms. \<not> reserved (fst m) \<and> fst m \<noteq> [] \<and> snd m \<noteq> [] \<Longrightarrow>
   load_lines filename (map merge_line ms) (Merges_Section, t) = (None, Merges_Section, t\<lparr>tk_merges := tk_merges t @ ms\<rparr>)"
  by (induction ms arbitrary: t) (simp_all add: load_merge_line)


text \<open>The header.\<close>

definition header_read :: "Tokenizer \<Rightarrow> Tokenizer \<Rightarrow> Tokenizer" where
  "header_read t t0 = t0\<lparr>tk_mode := tk_mode t, tk_normalization := tk_normalization t, tk_pad := tk_pad t,
     tk_unk := tk_unk t, tk_bos := tk_bos t, tk_eos := tk_eos t\<rparr>"

definition int_range :: "int \<Rightarrow> bool" where
  "int_range i \<longleftrightarrow> - (2 ^ 31) \<le> i \<and> i < 2 ^ 31"

lemma load_section_marks:
  "load_line f ''VOCAB'' (sec, t) = Inr (Vocab_Section, t)"
  "load_line f (''BPE_MERGES '' @ u) (sec, t) = Inr (Merges_Section, t)"
  "load_line f ''SPECIAL_TOKENS'' (sec, t) = Inr (Special_Section, t)"
  "load_line f (''VOCAB_SIZE '' @ u) (sec, t) = Inr (sec, t)"
  by (simp_all add: load_line_def format_comment_def)

lemma load_marks:
  "load_lines f ([''VOCAB''] @ ls) (sec, t) = load_lines f ls (Vocab_Section, t)"
  "load_lines f ([''BPE_MERGES '' @ u] @ ls) (sec, t) = load_lines f ls (Merges_Section, t)"
  using load_section_marks(1,2) by simp_all

lemma load_mode_lines:
  "load_line f (''TOKENIZER_MODE '' @ mode_name m) (sec, t) = Inr (sec, t\<lparr>tk_mode := m\<rparr>)"
  "load_line f (''NORMALIZATION '' @ norm_name n) (sec, t) = Inr (sec, t\<lparr>tk_normalization := n\<rparr>)"
  by (cases m, simp_all add: load_line_def format_comment_def mode_name_def)
    (cases n, simp_all add: load_line_def format_comment_def norm_name_def)

lemma split_key: "CHR '' '' \<notin> set key \<Longrightarrow> split_first CHR '' '' (key @ CHR '' '' # v) = Some (key, v)"
  by simp

lemma load_special_lines:
  assumes "int_range i"
  shows "load_line f (''pad_token_id '' @ int_to_string i) (Special_Section, t) = Inr (Special_Section, t\<lparr>tk_pad := i\<rparr>)"
    and "load_line f (''unk_token_id '' @ int_to_string i) (Special_Section, t) = Inr (Special_Section, t\<lparr>tk_unk := i\<rparr>)"
    and "load_line f (''bos_token_id '' @ int_to_string i) (Special_Section, t) = Inr (Special_Section, t\<lparr>tk_bos := i\<rparr>)"
    and "load_line f (''eos_token_id '' @ int_to_string i) (Special_Section, t) = Inr (Special_Section, t\<lparr>tk_eos := i\<rparr>)"
  using assms by (simp_all add: load_line_def format_comment_def load_special_def int_range_def stoi_print)

lemma load_version_line:
  "load_line f ''# BPE Tokenizer Vocabulary v2.0'' x = Inr x"
proof -
  have "atoi ''2.0'' = 2" by code_simp
  then show ?thesis by (simp add: load_line_def format_comment_def case_prod_beta)
qed

lemma load_header:
  assumes "int_range (tk_pad t)" "int_range (tk_unk t)" "int_range (tk_bos t)" "int_range (tk_eos t)"
  shows "load_lines f (header_lines t) (No_Section, t0) = (None, Special_Section, header_read t t0)"
  using assms
  by (simp add: header_lines_def load_version_line load_mode_lines load_section_marks load_special_lines
      header_read_def del: append_Cons append_Nil)


text \<open>The tables after reading the token lines.\<close>

lemma put_token_same [simp]:
  "tk_vocab (put_token t p) = AList.update (fst p) (snd p) (tk_vocab t)"
  "tk_inverse (put_token t p) = AList.update (snd p) (fst p) (tk_inverse t)"
  "tk_mode (put_token t p) = tk_mode t" "tk_normalization (put_token t p) = tk_normalization t"
  "tk_merges (put_token t p) = tk_merges t" "tk_key (put_token t p) = tk_key t"
  "tk_pad (put_token t p) = tk_pad t" "tk_unk (put_token t p) = tk_unk t"
  "tk_bos (put_token t p) = tk_bos t" "tk_eos (put_token t p) = tk_eos t"
  "set (tk_special (put_token t p)) = set (tk_special t) \<union>
     (if snd p \<in> {tk_pad t, tk_unk t, tk_bos t, tk_eos t} then {fst p} else {})"
  by (auto simp: put_token_def add_token_def Let_def)

lemma put_tokens_same:
  "tk_mode (foldl put_token t ps) = tk_mode t \<and> tk_normalization (foldl put_token t ps) = tk_normalization t \<and>
   tk_merges (foldl put_token t ps) = tk_merges t \<and> tk_key (foldl put_token t ps) = tk_key t \<and>
   tk_pad (foldl put_token t ps) = tk_pad t \<and> tk_unk (foldl put_token t ps) = tk_unk t \<and>
   tk_bos (foldl put_token t ps) = tk_bos t \<and> tk_eos (foldl put_token t ps) = tk_eos t \<and>
   set (tk_special (foldl put_token t ps)) = set (tk_special t) \<union>
     {s. \<exists>i. (s, i) \<in> set ps \<and> i \<in> {tk_pad t, tk_unk t, tk_bos t, tk_eos t}}"
proof (induction ps arbitrary: t)
  case (Cons p ps)
  have "{s. \<exists>i. (s, i) \<in> set (p # ps) \<and> i \<in> {tk_pad t, tk_unk t, tk_bos t, tk_eos t}} =
      (if snd p \<in> {tk_pad t, tk_unk t, tk_bos t, tk_eos t} then {fst p} else {}) \<union>
      {s. \<exists>i. (s, i) \<in> set ps \<and> i \<in> {tk_pad t, tk_unk t, tk_bos t, tk_eos t}}"
    by (cases p) auto
  then show ?case by (simp only: foldl.simps Cons [of "put_token t p"] put_token_same Un_assoc simp_thms)
qed simp

lemma put_tokens_tables:
  assumes "distinct (map fst (tk_vocab t) @ map fst ps)" and "distinct (map fst (tk_inverse t) @ map snd ps)"
  shows "tk_vocab (foldl put_token t ps) = tk_vocab t @ ps \<and>
    tk_inverse (foldl put_token t ps) = tk_inverse t @ map (\<lambda>(s, i). (i, s)) ps"
  using assms
proof (induction ps arbitrary: t)
  case (Cons p ps)
  have "tk_vocab (put_token t p) = tk_vocab t @ [p]" "tk_inverse (put_token t p) = tk_inverse t @ [(snd p, fst p)]"
    using Cons.prems by (simp_all add: update_fresh)
  with Cons.prems Cons.IH [of "put_token t p"] show ?case by (simp add: case_prod_beta)
qed simp

lemma permutes_distinct_snd: "permutes order \<Longrightarrow> distinct (map snd (order xs)) \<longleftrightarrow> distinct (map snd xs)"
  by (metis permutes_def mset_map mset_eq_imp_distinct_iff)

lemma vocab_lines_clean: "list_all (\<lambda>l. NL \<notin> set l) (vocab_lines order t)"
proof -
  have n: "NL \<notin> set (nat_to_string n)" for n using nat_to_string_chars number_char_plain(1) by blast
  have i: "NL \<notin> set (int_to_string i)" for i using int_to_string_chars number_char_plain(1) by blast
  have h: "list_all (\<lambda>l. NL \<notin> set l) (header_lines t)"
    using n i by (simp add: header_lines_def mode_name_def norm_name_def special_chars)
  have v: "NL \<notin> set (vocab_line p)" for p using i by (simp add: vocab_line_def)
  have m: "NL \<notin> set (merge_line p)" for p by (simp add: merge_line_def)
  have k: "NL \<notin> set ''VOCAB''" "NL \<notin> set ''BPE_MERGES ''" by (simp_all add: special_chars)
  show ?thesis unfolding vocab_lines_def list_all_append list.pred_map o_def list.pred_inject set_append Un_iff
    by (simp only: h v m k n list.pred_True list.pred_inject simp_thms)
qed

text \<open>What a tokenizer must satisfy to survive saving, and what "the same vocabulary" means.\<close>

definition file_ready :: "Tokenizer \<Rightarrow> bool" where
  "file_ready t \<longleftrightarrow>
     distinct (map fst (tk_vocab t)) \<and> distinct (map snd (tk_vocab t)) \<and>
     (\<forall>p \<in> set (tk_vocab t). \<not> reserved (fst p) \<and> 0 \<le> snd p \<and> snd p < 2 ^ 31) \<and>
     (\<forall>m \<in> set (tk_merges t). \<not> reserved (fst m) \<and> fst m \<noteq> [] \<and> snd m \<noteq> []) \<and>
     {(PAD, tk_pad t), (UNK, tk_unk t), (BOS, tk_bos t), (EOS, tk_eos t)} \<subseteq> set (tk_vocab t)"

definition same_vocabulary :: "Tokenizer \<Rightarrow> Tokenizer \<Rightarrow> bool" where
  "same_vocabulary t' t \<longleftrightarrow>
     tk_mode t' = tk_mode t \<and> tk_normalization t' = tk_normalization t \<and> tk_merges t' = tk_merges t \<and>
     map_of (tk_vocab t') = map_of (tk_vocab t) \<and>
     (\<forall>i s. map_of (tk_inverse t') i = Some s \<longleftrightarrow> map_of (tk_vocab t) s = Some i) \<and>
     set (tk_special t') = {PAD, UNK, BOS, EOS} \<and>
     tk_pad t' = tk_pad t \<and> tk_unk t' = tk_unk t \<and> tk_bos t' = tk_bos t \<and> tk_eos t' = tk_eos t"

lemma map_of_permuted:
  assumes "permutes order" and "distinct (map fst xs)"
  shows "map_of (order xs) = map_of xs"
proof -
  have "distinct (map fst (order xs))" using assms permutes_distinct by blast
  then show ?thesis by (intro map_of_inject_set [THEN iffD2] assms(2) permutes_set [OF assms(1)])
qed

lemma map_of_swapped:
  assumes "distinct (map fst xs)" and "distinct (map snd xs)"
  shows "map_of (map (\<lambda>(s, i). (i, s)) xs) i = Some s \<longleftrightarrow> map_of xs s = Some i"
proof -
  have "distinct (map fst (map (\<lambda>(s, i). (i, s)) xs))" using assms(2) by (simp add: case_prod_beta o_def)
  then have "map_of (map (\<lambda>(s, i). (i, s)) xs) i = Some s \<longleftrightarrow> (i, s) \<in> set (map (\<lambda>(s, i). (i, s)) xs)"
    by (rule map_of_eq_Some_iff)
  also have "\<dots> \<longleftrightarrow> (s, i) \<in> set xs" by auto
  also have "\<dots> \<longleftrightarrow> map_of xs s = Some i" using assms(1) by simp
  finally show ?thesis .
qed

lemma snd_inject: "distinct (map snd xs) \<Longrightarrow> (a, i) \<in> set xs \<Longrightarrow> (b, i) \<in> set xs \<Longrightarrow> a = b"
  by (metis eq_key_imp_eq_value fst_conv in_set_conv_nth distinct_map inj_onD snd_conv prod.inject)


lemma load_saved_lines:
  assumes ready: "file_ready t" and "permutes order" and "tk_vocab t0 = []" "tk_inverse t0 = []" "tk_merges t0 = []"
  shows "load_lines f (vocab_lines order t) (No_Section, t0) =
    (None, Merges_Section, (foldl put_token (header_read t t0) (order (tk_vocab t)))\<lparr>tk_merges := tk_merges t\<rparr>)"
proof -
  have p: "\<forall>p \<in> set (order (tk_vocab t)). \<not> reserved (fst p) \<and> 0 \<le> snd p \<and> snd p < 2 ^ 31"
    using ready unfolding permutes_set [OF assms(2)] by (simp add: file_ready_def)
  have m: "\<forall>m \<in> set (tk_merges t). \<not> reserved (fst m) \<and> fst m \<noteq> [] \<and> snd m \<noteq> []"
    using ready by (simp add: file_ready_def)
  have r: "int_range (tk_pad t)" "int_range (tk_unk t)" "int_range (tk_bos t)" "int_range (tk_eos t)"
    using ready by (auto simp: file_ready_def int_range_def)
  note h = load_lines_append [OF load_header [OF r]] load_lines_append [OF load_tokens [OF p]] load_merges [OF m]
  have "tk_merges (foldl put_token (header_read t t0) (order (tk_vocab t))) = []"
    using put_tokens_same [of "header_read t t0"] assms(5) by (simp add: header_read_def)
  then show ?thesis
    unfolding vocab_lines_def h(1) load_marks h(2) h(3) by simp
qed


text \<open>Loading what \<open>save_vocab\<close> wrote, into any tokenizer.\<close>

lemma load_saved:
  assumes ready: "file_ready t" and perm: "permutes order" and "filename \<noteq> []"
  shows "\<exists>t'. load_vocab filename (Some (unlines (vocab_lines order t))) (t0, k) = (None, t', k + 1) \<and>
    same_vocabulary t' t \<and> tk_key t' = k"
proof -
  define c where "c = t0\<lparr>tk_key := k, tk_normalization := LOWERCASE, tk_mode := ASCII,
    tk_vocab := [], tk_inverse := [], tk_merges := [], tk_special := []\<rparr>"
  define h where "h = header_read t c"
  define r where "r = (foldl put_token h (order (tk_vocab t)))\<lparr>tk_merges := tk_merges t\<rparr>"
  have lines: "getlines (unlines (vocab_lines order t)) = vocab_lines order t"
    using getlines_unlines [of "vocab_lines order t" "[]"] vocab_lines_clean by simp
  have load: "load_lines filename (vocab_lines order t) (No_Section, c) = (None, Merges_Section, r)"
    unfolding r_def h_def by (rule load_saved_lines) (use assms in \<open>simp_all add: c_def\<close>)
  have v: "distinct (map fst (tk_vocab t))" "distinct (map snd (tk_vocab t))"
      "{(PAD, tk_pad t), (UNK, tk_unk t), (BOS, tk_bos t), (EOS, tk_eos t)} \<subseteq> set (tk_vocab t)"
    using ready by (simp_all add: file_ready_def)
  have ov: "distinct (map fst (order (tk_vocab t)))" "distinct (map snd (order (tk_vocab t)))"
    using v permutes_distinct [OF perm] permutes_distinct_snd [OF perm] by simp_all
  have h: "tk_vocab h = []" "tk_inverse h = []" "tk_special h = []" "tk_mode h = tk_mode t" "tk_key h = k"
      "tk_normalization h = tk_normalization t" "tk_pad h = tk_pad t" "tk_unk h = tk_unk t"
      "tk_bos h = tk_bos t" "tk_eos h = tk_eos t"
    by (simp_all add: h_def c_def header_read_def)
  have r: "tk_vocab r = order (tk_vocab t)" "tk_inverse r = map (\<lambda>(s, i). (i, s)) (order (tk_vocab t))"
    using put_tokens_tables [of h "order (tk_vocab t)"] ov by (simp_all add: r_def h)
  note same = put_tokens_same [of h "order (tk_vocab t)", unfolded h]
  have sp: "set (tk_special r) = {PAD, UNK, BOS, EOS}"
  proof -
    let ?S = "{s. \<exists>i. (s, i) \<in> set (tk_vocab t) \<and> i \<in> {tk_pad t, tk_unk t, tk_bos t, tk_eos t}}"
    have "?S \<subseteq> {PAD, UNK, BOS, EOS}" using v(3) snd_inject [OF v(2)] by blast
    moreover have "{PAD, UNK, BOS, EOS} \<subseteq> ?S" using v(3) by blast
    moreover have "set (tk_special r) = ?S"
      using same by (simp add: r_def permutes_set [OF perm])
    ultimately show ?thesis by (simp only: subset_antisym)
  qed
  have keys: "map_of (tk_inverse r) i = Some s \<longleftrightarrow> map_of (tk_vocab t) s = Some i" for i s
    unfolding r(2) map_of_swapped [OF ov] map_of_permuted [OF perm v(1)] ..
  have specials: "map_of (tk_vocab t) PAD = Some (tk_pad t)" "map_of (tk_vocab t) UNK = Some (tk_unk t)"
      "map_of (tk_vocab t) BOS = Some (tk_bos t)" "map_of (tk_vocab t) EOS = Some (tk_eos t)"
    using v(1,3) by simp_all
  have pads: "tk_pad r = tk_pad t" "tk_unk r = tk_unk t" "tk_bos r = tk_bos t" "tk_eos r = tk_eos t"
    using same by (simp_all add: r_def)
  have inverse: "map_of (tk_inverse (loaded r)) = map_of (tk_inverse r)"
    using specials [folded keys] by (simp add: loaded_def update_conv' pads map_upd_triv)
  have "same_vocabulary (loaded r) t"
    unfolding same_vocabulary_def
  proof (intro conjI allI)
    show "map_of (tk_vocab (loaded r)) = map_of (tk_vocab t)"
      by (simp add: loaded_def r(1) map_of_permuted [OF perm v(1)])
    show "map_of (tk_inverse (loaded r)) i = Some s \<longleftrightarrow> map_of (tk_vocab t) s = Some i" for i s
      unfolding inverse by (rule keys)
    show "set (tk_special (loaded r)) = {PAD, UNK, BOS, EOS}" by (auto simp: loaded_def sp)
  qed (use same in \<open>simp_all add: loaded_def r_def\<close>)
  moreover have "tk_vocab r \<noteq> []" "{PAD, UNK, BOS, EOS} \<subseteq> set (map fst (tk_vocab r))"
  proof -
    have "{PAD, UNK, BOS, EOS} \<subseteq> fst ` set (tk_vocab t)" using v(3) by force
    then show "{PAD, UNK, BOS, EOS} \<subseteq> set (map fst (tk_vocab r))" by (simp add: r(1) permutes_set [OF perm])
    then show "tk_vocab r \<noteq> []" by auto
  qed
  moreover have "load_vocab filename (Some (unlines (vocab_lines order t))) (t0, k) = (None, loaded r, k + 1)"
    using assms(3) calculation(2,3) by (simp add: load_vocab_def lines load flip: c_def)
  moreover have "tk_key (loaded r) = k" using same by (simp add: loaded_def r_def)
  ultimately show ?thesis by blast
qed

end
