(* ===== verification/Bpe_Cache.thy ===== *)
theory Bpe_Cache
  imports Bpe_Vocab
begin

text \<open>
  Encoding with the per-thread cache of \<open>BPETokenizer::apply_bpe\<close> (\<open>src/src/BPETokenizer.cpp\<close>), and a
  process in which several tokenizers and threads use it: tokenizers are made, copied, rebuilt and
  reloaded between calls of \<open>encode\<close>, in any order. The code keeps the two apart in time, since the
  mutators run single-threaded, so a whole operation is one step. The cache of a thread is a list,
  most recent last, of (cache key, words with their tokens).
\<close>

section \<open>One thread's caches\<close>

type_synonym word_cache = "(string \<times> string list) list"
type_synonym tls_caches = "(nat \<times> word_cache) list"

definition kCachedStates :: nat where "kCachedStates = 4"
definition kMaxCachedWords :: nat where "kMaxCachedWords = 65536"

text \<open>The search loop with its \<open>std::rotate\<close>; \<open>None\<close> when no entry has the key.\<close>

primrec rotate_to_back :: "nat \<Rightarrow> tls_caches \<Rightarrow> tls_caches option" where
  "rotate_to_back key [] = None"
| "rotate_to_back key (e # es) =
     (if fst e = key then Some (es @ [e]) else map_option ((#) e) (rotate_to_back key es))"

definition select_cache :: "nat \<Rightarrow> tls_caches \<Rightarrow> tls_caches" where
  "select_cache key tls =
     (case rotate_to_back key tls of
        Some tls \<Rightarrow> tls
      | None \<Rightarrow> (if length tls \<ge> kCachedStates then drop 1 tls else tls) @ [(key, [])])"

definition apply_bpe :: "Tokenizer \<Rightarrow> string \<Rightarrow> tls_caches \<Rightarrow> string list \<times> tls_caches" where
  "apply_bpe t word tls =
     (if word = [] then ([], tls)
      else
        let tls = select_cache (tk_key t) tls; cache = snd (last tls) in
        case map_of cache word of
          Some tokens \<Rightarrow> (tokens, tls)
        | None \<Rightarrow>
            let tokens = apply_merges (tk_merges t) (units (tk_mode t) word);
                cache = (if length cache \<ge> kMaxCachedWords then [] else cache)
            in (tokens, butlast tls @ [(fst (last tls), (word, tokens) # cache)]))"

primrec apply_words :: "Tokenizer \<Rightarrow> string list \<Rightarrow> tls_caches \<Rightarrow> string list \<times> tls_caches" where
  "apply_words t [] tls = ([], tls)"
| "apply_words t (w # ws) tls =
     (let (tokens, tls) = apply_bpe t w tls; (rest, tls) = apply_words t ws tls in (tokens @ rest, tls))"

definition tokenize :: "Tokenizer \<Rightarrow> string \<Rightarrow> tls_caches \<Rightarrow> (TokenizerError + string list) \<times> tls_caches" where
  "tokenize t txt tls =
     (case pre_tokenize (tk_mode t) (tk_normalization t) txt of
        None \<Rightarrow> (Inl (TokenizerEncodingError ''pre_tokenize(): Input text contains invalid UTF-8 sequences''), tls)
      | Some words \<Rightarrow> apfst Inr (apply_words t words tls))"

definition encode :: "Tokenizer \<Rightarrow> string \<Rightarrow> bool \<Rightarrow> tls_caches \<Rightarrow> (TokenizerError + int list) \<times> tls_caches" where
  "encode t txt add_special_tokens tls =
     (case validate_input txt ''encode()'' of
        Some e \<Rightarrow> (Inl e, tls)
      | None \<Rightarrow>
          case tokenize t txt tls of
            (Inl e, tls) \<Rightarrow> (Inl e, tls)
          | (Inr tokens, tls) \<Rightarrow> (Inr (with_special add_special_tokens t (map (token_id t) tokens)), tls))"

text \<open>What the caches must not change: the same functions without them.\<close>

definition tokens_of :: "Tokenizer \<Rightarrow> string \<Rightarrow> TokenizerError + string list" where
  "tokens_of t txt =
     (case pre_tokenize (tk_mode t) (tk_normalization t) txt of
        None \<Rightarrow> Inl (TokenizerEncodingError ''pre_tokenize(): Input text contains invalid UTF-8 sequences'')
      | Some words \<Rightarrow> Inr (concat (map (bpe_word (tk_mode t) (tk_merges t)) words)))"

definition encoding_of :: "Tokenizer \<Rightarrow> string \<Rightarrow> bool \<Rightarrow> TokenizerError + int list" where
  "encoding_of t txt add_special_tokens =
     (case validate_input txt ''encode()'' of
        Some e \<Rightarrow> Inl e
      | None \<Rightarrow> map_sum id (\<lambda>tokens. with_special add_special_tokens t (map (token_id t) tokens)) (tokens_of t txt))"

section \<open>The process\<close>

record process =
  p_tokenizers :: "nat \<rightharpoonup> Tokenizer"
  p_threads :: "nat \<Rightarrow> tls_caches"
  p_next_key :: nat

definition start_process :: process where
  "start_process = \<lparr>p_tokenizers = Map.empty, p_threads = (\<lambda>_. []), p_next_key = 1\<rparr>"

datatype operation =
    New_Tokenizer nat TokenizerMode
  | Copy_Tokenizer nat nat
  | Set_Normalization nat TextNormalization
  | Build_Vocab nat "string list" int int
  | Load_Vocab nat string "string option"
  | Encode nat nat string bool        \<comment> \<open>thread, tokenizer, text, with special tokens\<close>

definition with_tokenizer ::
  "nat \<Rightarrow> (Tokenizer \<times> nat \<Rightarrow> Tokenizer \<times> nat) \<Rightarrow> process \<Rightarrow> process" where
  "with_tokenizer h f p =
     (case p_tokenizers p h of
        None \<Rightarrow> p
      | Some t \<Rightarrow> case f (t, p_next_key p) of (t, key) \<Rightarrow>
          p\<lparr>p_tokenizers := (p_tokenizers p)(h \<mapsto> t), p_next_key := key\<rparr>)"

fun perform ::
  "((string \<times> nat) list \<Rightarrow> (string \<times> nat) list) \<Rightarrow> ((merge \<times> nat) list \<Rightarrow> (merge \<times> nat) list) \<Rightarrow>
     operation \<Rightarrow> process \<Rightarrow> process" where
  "perform ou op (New_Tokenizer h m) p =
     p\<lparr>p_tokenizers := (p_tokenizers p)(h \<mapsto> new_tokenizer m (p_next_key p)), p_next_key := p_next_key p + 1\<rparr>"
| "perform ou op (Copy_Tokenizer source h) p =
     (case p_tokenizers p source of None \<Rightarrow> p | Some t \<Rightarrow> p\<lparr>p_tokenizers := (p_tokenizers p)(h \<mapsto> t)\<rparr>)"
| "perform ou op (Set_Normalization h n) p =
     with_tokenizer h (\<lambda>(t, key). (set_normalization n key t, key + 1)) p"
| "perform ou op (Build_Vocab h texts vocab_size threshold) p =
     with_tokenizer h (\<lambda>x. snd (build_vocab ou op texts vocab_size threshold x)) p"
| "perform ou op (Load_Vocab h filename content) p =
     with_tokenizer h (\<lambda>x. snd (load_vocab filename content x)) p"
| "perform ou op (Encode th h txt b) p =
     (case p_tokenizers p h of
        None \<Rightarrow> p
      | Some t \<Rightarrow> p\<lparr>p_threads := (p_threads p)(th := snd (encode t txt b (p_threads p th)))\<rparr>)"

section \<open>A cache never shows another state's tokens\<close>

text \<open>\<open>cfg\<close> gives the mode and the merges a key stands for.\<close>

type_synonym config = "nat \<Rightarrow> TokenizerMode \<times> merge list"

definition cache_ok :: "config \<Rightarrow> nat \<Rightarrow> nat \<times> word_cache \<Rightarrow> bool" where
  "cache_ok cfg next_key e \<longleftrightarrow> fst e < next_key \<and> length (snd e) \<le> kMaxCachedWords \<and>
     (\<forall>x \<in> set (snd e). fst x \<noteq> [] \<and> snd x = bpe_word (fst (cfg (fst e))) (snd (cfg (fst e))) (fst x))"

definition tls_ok :: "config \<Rightarrow> nat \<Rightarrow> tls_caches \<Rightarrow> bool" where
  "tls_ok cfg next_key tls \<longleftrightarrow>
     length tls \<le> kCachedStates \<and> distinct (map fst tls) \<and> (\<forall>e \<in> set tls. cache_ok cfg next_key e)"

definition tokenizer_ok :: "config \<Rightarrow> nat \<Rightarrow> Tokenizer \<Rightarrow> bool" where
  "tokenizer_ok cfg next_key t \<longleftrightarrow> tk_key t < next_key \<and> cfg (tk_key t) = (tk_mode t, tk_merges t)"

lemma rotate_mset: "rotate_to_back key tls = Some tls' \<Longrightarrow> mset tls' = mset tls"
  by (induction tls arbitrary: tls') (auto split: if_splits)

lemma rotate_last: "rotate_to_back key tls = Some tls' \<Longrightarrow> tls' \<noteq> [] \<and> fst (last tls') = key"
  by (induction tls arbitrary: tls') (auto split: if_splits)

lemma rotate_None: "rotate_to_back key tls = None \<longleftrightarrow> key \<notin> fst ` set tls"
  by (induction tls) auto

lemma select_cache_ok:
  assumes "tls_ok cfg next_key tls" and "key < next_key"
  shows "tls_ok cfg next_key (select_cache key tls)" and "select_cache key tls \<noteq> []"
    and "fst (last (select_cache key tls)) = key"
proof -
  have "tls_ok cfg next_key (select_cache key tls) \<and> select_cache key tls \<noteq> [] \<and> fst (last (select_cache key tls)) = key"
  proof (cases "rotate_to_back key tls")
    case None
    then have k: "key \<notin> fst ` set tls" by (rule rotate_None [THEN iffD1])
    let ?old = "if length tls \<ge> kCachedStates then drop 1 tls else tls"
    have sub: "set ?old \<subseteq> set tls" using set_drop_subset [of 1 tls] by simp
    have "distinct (map fst ?old)" using assms(1) by (simp add: tls_ok_def drop_map [symmetric])
    moreover have "key \<notin> fst ` set ?old" using k sub by blast
    moreover have "length ?old < kCachedStates" using assms(1) by (auto simp: tls_ok_def kCachedStates_def)
    moreover have "\<forall>e \<in> set ?old. cache_ok cfg next_key e" using assms(1) sub unfolding tls_ok_def by blast
    moreover have "cache_ok cfg next_key (key, [])" using assms(2) by (simp add: cache_ok_def)
    moreover have "select_cache key tls = ?old @ [(key, [])]" using None by (simp add: select_cache_def)
    ultimately show ?thesis by (simp only: tls_ok_def) simp
  next
    case (Some tls')
    have "distinct (map fst tls') \<longleftrightarrow> distinct (map fst tls)"
      using rotate_mset [OF Some] by (metis mset_map mset_eq_imp_distinct_iff)
    then show ?thesis using Some assms rotate_last [OF Some] mset_eq_setD [OF rotate_mset [OF Some]]
        mset_eq_length [OF rotate_mset [OF Some]]
      by (simp add: select_cache_def tls_ok_def)
  qed
  then show "tls_ok cfg next_key (select_cache key tls)" "select_cache key tls \<noteq> []"
    "fst (last (select_cache key tls)) = key" by simp_all
qed


text \<open>One word, and with it a list of words, gives the tokens \<open>bpe_word\<close> gives, and keeps the invariant.\<close>

lemma apply_bpe_ok:
  assumes ok: "tls_ok cfg next_key tls" and t: "tokenizer_ok cfg next_key t"
  shows "fst (apply_bpe t word tls) = bpe_word (tk_mode t) (tk_merges t) word"
    and "tls_ok cfg next_key (snd (apply_bpe t word tls))"
proof -
  have "fst (apply_bpe t word tls) = bpe_word (tk_mode t) (tk_merges t) word \<and>
      tls_ok cfg next_key (snd (apply_bpe t word tls))"
  proof (cases "word = []")
    case True
    then show ?thesis using ok by (simp add: apply_bpe_def bpe_word_def)
  next
    case False
    define tls' where "tls' = select_cache (tk_key t) tls"
    have sel: "tls_ok cfg next_key tls'" "tls' \<noteq> []" "fst (last tls') = tk_key t"
      using select_cache_ok [OF ok, of "tk_key t"] t by (simp_all add: tls'_def tokenizer_ok_def)
    obtain es cache where e: "tls' = es @ [(tk_key t, cache)]"
      using sel(2,3) by (metis append_butlast_last_id prod.collapse)
    have c: "cache_ok cfg next_key (tk_key t, cache)" using sel(1) by (simp add: e tls_ok_def)
    have config: "fst (cfg (tk_key t)) = tk_mode t" "snd (cfg (tk_key t)) = tk_merges t"
      using t by (simp_all add: tokenizer_ok_def)
    have new: "apply_merges (tk_merges t) (units (tk_mode t) word) = bpe_word (tk_mode t) (tk_merges t) word"
      using False by (simp add: bpe_word_def)
    show ?thesis
    proof (cases "map_of cache word")
      case (Some tokens)
      then have "(word, tokens) \<in> set cache" by (rule map_of_SomeD)
      with c have "tokens = bpe_word (tk_mode t) (tk_merges t) word"
        by (auto simp: cache_ok_def config)
      with Some sel(1) False show ?thesis by (simp add: apply_bpe_def tls'_def [symmetric] e)
    next
      case None
      let ?c = "(word, bpe_word (tk_mode t) (tk_merges t) word) # (if length cache \<ge> kMaxCachedWords then [] else cache)"
      have "cache_ok cfg next_key (tk_key t, ?c)"
        using c False by (simp add: cache_ok_def config kMaxCachedWords_def)
      then have "tls_ok cfg next_key (es @ [(tk_key t, ?c)])" using sel(1) by (simp add: e tls_ok_def)
      with None False show ?thesis
        by (simp add: apply_bpe_def tls'_def [symmetric] e Let_def new split: if_splits)
    qed
  qed
  then show "fst (apply_bpe t word tls) = bpe_word (tk_mode t) (tk_merges t) word"
    "tls_ok cfg next_key (snd (apply_bpe t word tls))" by simp_all
qed

lemma apply_words_ok:
  assumes "tls_ok cfg next_key tls" and "tokenizer_ok cfg next_key t"
  shows "fst (apply_words t ws tls) = concat (map (bpe_word (tk_mode t) (tk_merges t)) ws) \<and>
    tls_ok cfg next_key (snd (apply_words t ws tls))"
  using assms(1)
proof (induction ws arbitrary: tls)
  case (Cons w ws)
  show ?case
    using apply_bpe_ok [OF Cons.prems assms(2), of w] Cons.IH [of "snd (apply_bpe t w tls)"]
    by (simp add: Let_def case_prod_beta)
qed simp

lemma encode_ok:
  assumes "tls_ok cfg next_key tls" and "tokenizer_ok cfg next_key t"
  shows "fst (encode t txt b tls) = encoding_of t txt b" and "tls_ok cfg next_key (snd (encode t txt b tls))"
  using apply_words_ok [OF assms] assms(1)
  by (auto simp: encode_def encoding_of_def tokenize_def tokens_of_def case_prod_beta apfst_def map_prod_def
      split: option.split sum.split)


text \<open>Every operation that changes a tokenizer gives it a key that no thread has seen, or leaves mode and
  merges alone.\<close>

definition rekeyed :: "Tokenizer \<times> nat \<Rightarrow> Tokenizer \<times> nat \<Rightarrow> bool" where
  "rekeyed x y \<longleftrightarrow> snd x \<le> snd y \<and>
     (tk_key (fst y) = tk_key (fst x) \<and> tk_mode (fst y) = tk_mode (fst x) \<and> tk_merges (fst y) = tk_merges (fst x) \<or>
      snd x \<le> tk_key (fst y) \<and> tk_key (fst y) < snd y)"

lemma rekeyed_refl: "rekeyed x x"
  by (simp add: rekeyed_def)

lemma rekeyed_trans: "rekeyed x y \<Longrightarrow> rekeyed y z \<Longrightarrow> rekeyed x z"
  by (auto simp: rekeyed_def)

lemma learn_merge_rekeyed: "rekeyed x (learn_merge m x)"
  by (simp add: rekeyed_def learn_merge_def Let_def case_prod_beta)

lemma learn_rekeyed: "rekeyed x (learn order n wt x)"
proof (induction n arbitrary: wt x)
  case (Suc n)
  let ?best = "get_most_frequent_pair order wt"
  show ?case
    using rekeyed_trans [OF learn_merge_rekeyed [of x ?best] Suc] by (simp add: Let_def rekeyed_refl)
qed (simp add: rekeyed_refl)

lemma add_bases_key: "tk_key (fst (foldl (add_base vsize threshold) x ps)) = tk_key (fst x)"
  by (induction ps arbitrary: x) (simp_all add: add_base_def case_prod_beta)

lemma build_vocab_rekeyed: "rekeyed x (snd (build_vocab ou op texts vsize threshold x))"
proof -
  obtain t k where x: "x = (t, k)" by (cases x)
  let ?t = "fst (foldl (add_base vsize threshold) (t, 4) (ou (char_freq t texts)))"
  have "rekeyed (t, k) (?t, k)"
    using add_bases_same [of vsize threshold "(t, 4)"] add_bases_key [of vsize threshold "(t, 4)"]
    by (simp add: rekeyed_def)
  moreover have "rekeyed (?t, k) (snd (build_vocab ou op texts vsize threshold x))"
    by (simp add: x build_vocab_def build_bpe_merges_def case_prod_beta Let_def rekeyed_refl learn_rekeyed
        split: option.split)
  ultimately show ?thesis unfolding x by (rule rekeyed_trans)
qed

lemma load_line_key: "load_line f l (sec, t) = Inr (sec', t') \<Longrightarrow> tk_key t' = tk_key t"
  by (auto simp: load_line_def load_special_def load_token_def load_merge_def Let_def
      split: if_splits option.splits stoi_result.splits vocab_section.splits sum.splits)

lemma load_lines_key: "tk_key (snd (snd (load_lines f ls x))) = tk_key (snd x)"
proof (induction ls arbitrary: x)
  case (Cons l ls)
  show ?case
    using Cons load_line_key [of f l "fst x" "snd x"] by (auto split: sum.split)
qed simp

lemma load_vocab_rekeyed: "rekeyed x (snd (load_vocab f c x))"
proof (cases "f = [] \<or> c = None")
  case True
  then show ?thesis by (auto simp: load_vocab_def rekeyed_def case_prod_beta split: option.split)
next
  case False
  then obtain s where s: "f \<noteq> []" "c = Some s" by auto
  show ?thesis
    using s load_lines_key [of f "getlines s"]
    by (auto simp: load_vocab_def rekeyed_def case_prod_beta Let_def loaded_def split: option.split)
qed


section \<open>The invariant of the process\<close>

definition process_ok :: "config \<Rightarrow> process \<Rightarrow> bool" where
  "process_ok cfg p \<longleftrightarrow>
     (\<forall>t \<in> ran (p_tokenizers p). tokenizer_ok cfg (p_next_key p) t) \<and>
     (\<forall>th. tls_ok cfg (p_next_key p) (p_threads p th))"

text \<open>A new key may be given a meaning without disturbing the old ones.\<close>

lemma new_key_ok:
  assumes "n \<le> n'" and "\<forall>k < n. cfg' k = cfg k"
  shows "tokenizer_ok cfg n t \<Longrightarrow> tokenizer_ok cfg' n' t" and "tls_ok cfg n tls \<Longrightarrow> tls_ok cfg' n' tls"
proof -
  show "tokenizer_ok cfg n t \<Longrightarrow> tokenizer_ok cfg' n' t" using assms by (auto simp: tokenizer_ok_def)
  assume ok: "tls_ok cfg n tls"
  have "cache_ok cfg' n' e" if "e \<in> set tls" for e
  proof -
    have e: "cache_ok cfg n e" using ok that by (simp add: tls_ok_def)
    then have "cfg' (fst e) = cfg (fst e)" using assms(2) by (simp add: cache_ok_def)
    with e assms(1) show ?thesis by (auto simp: cache_ok_def)
  qed
  with ok show "tls_ok cfg' n' tls" by (simp add: tls_ok_def)
qed

lemma replace_tokenizer_ok:
  assumes ok: "process_ok cfg p" and t: "p_next_key p \<le> key'"
    and old: "tokenizer_ok cfg (p_next_key p) t' \<or> p_next_key p \<le> tk_key t' \<and> tk_key t' < key'"
  shows "\<exists>cfg'. process_ok cfg' (p\<lparr>p_tokenizers := (p_tokenizers p)(h \<mapsto> t'), p_next_key := key'\<rparr>)"
proof -
  define cfg' where "cfg' = (if tk_key t' < p_next_key p then cfg else cfg(tk_key t' := (tk_mode t', tk_merges t')))"
  have same: "\<forall>k < p_next_key p. cfg' k = cfg k" by (simp add: cfg'_def)
  have t': "tokenizer_ok cfg' key' t'"
    using old t new_key_ok(1) [OF t same] by (auto simp: tokenizer_ok_def cfg'_def)
  have "tokenizer_ok cfg' key' t" if "t \<in> ran ((p_tokenizers p)(h \<mapsto> t'))" for t
  proof -
    have "t = t' \<or> t \<in> ran (p_tokenizers p)" using that by (auto simp: ran_def split: if_splits)
    then show ?thesis using t' ok new_key_ok(1) [OF t same] by (auto simp: process_ok_def)
  qed
  moreover have "tls_ok cfg' key' (p_threads p th)" for th
    using ok new_key_ok(2) [OF t same] by (simp add: process_ok_def)
  ultimately show ?thesis by (intro exI [of _ cfg']) (simp add: process_ok_def)
qed

lemma with_tokenizer_ok:
  assumes ok: "process_ok cfg p" and f: "\<And>x. rekeyed x (f x)"
  shows "\<exists>cfg'. process_ok cfg' (with_tokenizer h f p)"
proof (cases "p_tokenizers p h")
  case None
  then show ?thesis using ok by (auto simp: with_tokenizer_def)
next
  case (Some t)
  obtain t' key' where f': "f (t, p_next_key p) = (t', key')" by fastforce
  have t: "tokenizer_ok cfg (p_next_key p) t" using ok Some by (auto simp: process_ok_def intro: ranI)
  have r: "rekeyed (t, p_next_key p) (t', key')" using f [of "(t, p_next_key p)"] by (simp only: f')
  have "p_next_key p \<le> key'" using r by (simp add: rekeyed_def)
  moreover have "tokenizer_ok cfg (p_next_key p) t' \<or> p_next_key p \<le> tk_key t' \<and> tk_key t' < key'"
    using r t by (auto simp: rekeyed_def tokenizer_ok_def)
  ultimately show ?thesis using replace_tokenizer_ok [OF ok] by (simp add: with_tokenizer_def Some f')
qed

lemma set_normalization_rekeyed: "rekeyed x (case x of (t, key) \<Rightarrow> (set_normalization n key t, key + 1))"
  by (simp add: rekeyed_def set_normalization_def case_prod_beta)

lemma perform_ok:
  assumes ok: "process_ok cfg p"
  shows "\<exists>cfg'. process_ok cfg' (perform ou op a p)"
proof (cases a)
  case (New_Tokenizer h m)
  show ?thesis unfolding New_Tokenizer perform.simps
    by (rule replace_tokenizer_ok [OF ok]) (simp_all add: new_tokenizer_def)
next
  case (Copy_Tokenizer source h)
  show ?thesis
  proof (cases "p_tokenizers p source")
    case (Some t)
    then have "tokenizer_ok cfg (p_next_key p) t" using ok by (auto simp: process_ok_def intro: ranI)
    from replace_tokenizer_ok [OF ok order_refl disjI1 [OF this], of h] Some show ?thesis
      by (simp add: Copy_Tokenizer)
  qed (use ok Copy_Tokenizer in auto)
next
  case (Set_Normalization h n)
  show ?thesis unfolding Set_Normalization perform.simps
    by (rule with_tokenizer_ok [OF ok set_normalization_rekeyed])
next
  case (Build_Vocab h texts vsize threshold)
  show ?thesis unfolding Build_Vocab perform.simps by (rule with_tokenizer_ok [OF ok build_vocab_rekeyed])
next
  case (Load_Vocab h f c)
  show ?thesis unfolding Load_Vocab perform.simps by (rule with_tokenizer_ok [OF ok load_vocab_rekeyed])
next
  case (Encode th h s b)
  show ?thesis
  proof (cases "p_tokenizers p h")
    case (Some t)
    then have "tokenizer_ok cfg (p_next_key p) t" using ok by (auto simp: process_ok_def intro: ranI)
    with encode_ok(2) ok show ?thesis by (auto simp: Encode Some process_ok_def)
  qed (use ok Encode in auto)
qed

lemma start_ok: "process_ok cfg start_process"
  by (simp add: process_ok_def start_process_def tls_ok_def)

lemma run_ok: "\<exists>cfg. process_ok cfg (foldl (\<lambda>p a. perform ou op a p) start_process as)"
proof (induction as rule: rev_induct)
  case (snoc a as)
  then show ?case using perform_ok by fastforce
qed (auto intro: start_ok)

lemma run_encode:
  assumes "p_tokenizers p h = Some t" and "process_ok cfg p"
  shows "fst (encode t txt b (p_threads p th)) = encoding_of t txt b" and "length (p_threads p th) \<le> kCachedStates"
    and "\<forall>e \<in> set (p_threads p th). length (snd e) \<le> kMaxCachedWords"
proof -
  have "tokenizer_ok cfg (p_next_key p) t" using assms by (auto simp: process_ok_def intro: ranI)
  moreover have "tls_ok cfg (p_next_key p) (p_threads p th)" using assms(2) by (simp add: process_ok_def)
  ultimately show "fst (encode t txt b (p_threads p th)) = encoding_of t txt b"
      "length (p_threads p th) \<le> kCachedStates"
      "\<forall>e \<in> set (p_threads p th). length (snd e) \<le> kMaxCachedWords"
    by (rule encode_ok(1) [rotated], simp_all add: tls_ok_def cache_ok_def)
qed

end
