(* ===== verification/Bpe_Properties.thy ===== *)
theory Bpe_Properties
  imports Bpe_Build Bpe_Cache
begin

text \<open>
  The tokenizer of \<open>src/src/BPETokenizer.cpp\<close> as a whole: what learning chooses, that ids are unique, that
  encoding loses nothing it knows, that caches are invisible and that a vocabulary survives its file.
\<close>

lemma join_joined: "(\<lambda>(a, b). a @ b) = joined"
  by (simp add: joined_def fun_eq_iff)

text \<open>A small vocabulary to evaluate on.\<close>

definition sample_built :: "TokenizerError option \<times> Tokenizer \<times> nat" where
  "sample_built = build_vocab rev (\<lambda>ps. ps) [''abab abc''] 20 1 (set_normalization CASED 1 (new_tokenizer UNICODE 0), 2)"

lemma sample_built: "build_vocab rev (\<lambda>ps. ps) [''abab abc''] 20 1 (set_normalization CASED 1 (new_tokenizer UNICODE 0), 2) =
    (None, fst (snd sample_built), snd (snd sample_built))"
proof -
  have "fst sample_built = None" by code_simp
  then show ?thesis by (simp add: prod_eq_iff sample_built_def [symmetric] del: One_nat_def)
qed

text \<open>A vocabulary built on a new tokenizer.\<close>

lemma built:
  assumes "permutes order_units" and "permutes order_pairs"
    and build: "build_vocab order_units order_pairs texts vocab_size threshold
      (set_normalization n key (new_tokenizer m 0), next_key) = (None, t, next_key')"
  shows "dense t" "tk_mode t = m" "tk_normalization t = n" "tk_special t = [PAD, UNK, BOS, EOS]" "tk_bos t = 2" "tk_eos t = 3"
    and "joined ` set (tk_merges t) \<subseteq> fst ` set (tk_vocab t)"
    and "take 4 (tk_vocab t) = [(PAD, 0), (UNK, 1), (BOS, 2), (EOS, 3)]"
    and "\<forall>p \<in> set (tk_merges t). joined p \<notin> {PAD, UNK, BOS, EOS}"
proof -
  let ?t = "set_normalization n key (new_tokenizer m 0)"
  have t: "tk_vocab ?t = tk_vocab (new_tokenizer m 0)" "dense ?t" "tk_merges ?t = []"
    using new_tokenizer_dense [of m 0] by (simp_all add: set_normalization_def new_tokenizer_def dense_def)
  note fresh = build_vocab_fresh [OF assms(2) t(3) build]
  show "dense t" "tk_mode t = m" "tk_normalization t = n" "tk_special t = [PAD, UNK, BOS, EOS]" "tk_bos t = 2" "tk_eos t = 3"
      "joined ` set (tk_merges t) \<subseteq> fst ` set (tk_vocab t)"
      "take 4 (tk_vocab t) = [(PAD, 0), (UNK, 1), (BOS, 2), (EOS, 3)]"
    using build_vocab_dense [OF assms(1) t build fresh] by (simp_all add: set_normalization_def new_tokenizer_def)
  show "\<forall>p \<in> set (tk_merges t). joined p \<notin> {PAD, UNK, BOS, EOS}" using fresh(2) by simp
qed

section \<open>Learning\<close>

text \<open>The pair chosen for a merge is the most frequent one, the smallest among equals, whatever order
  the hash table is visited in; without any pair the result is the empty pair that ends the loop.\<close>

theorem best_pair_chosen:
  assumes "permutes order"
  shows "let pairs = concat (map adjacent words); best = get_most_frequent_pair order words in
    if pairs = [] then best = ([], [])
    else best \<in> set pairs \<and>
      (\<forall>p \<in> set pairs. count_list pairs p < count_list pairs best \<or> count_list pairs p = count_list pairs best \<and> best \<le> p)"
  using most_frequent_pair [OF assms, of words] unfolding Let_def by (simp only: split: if_split)

theorem best_pair_chosen_witness:
  "get_most_frequent_pair rev [[''a'', ''b'', ''c''], [''b'', ''c'', ''a'', ''b'']] \<in> {(''a'', ''b''), (''b'', ''c'')}"
  using best_pair_chosen [OF permutes_id(2), of "[[''a'', ''b'', ''c''], [''b'', ''c'', ''a'', ''b'']]"]
  by code_simp

text \<open>C8: a vocabulary built from any corpus gives every token its own id, the ids are \<open>0, 1, 2, \<dots>\<close> in
  order, the special tokens keep theirs, and the two tables are inverse to each other.\<close>

theorem built_ids_unique:
  assumes "permutes order_units" and "permutes order_pairs"
    and "build_vocab order_units order_pairs texts vocab_size threshold
      (set_normalization n key (new_tokenizer m 0), next_key) = (None, t, next_key')"
  shows "distinct (map fst (tk_vocab t)) \<and> map snd (tk_vocab t) = map int [0..<length (tk_vocab t)] \<and>
    tk_inverse t = map (\<lambda>(s, i). (i, s)) (tk_vocab t) \<and>
    take 4 (tk_vocab t) = [(PAD, 0), (UNK, 1), (BOS, 2), (EOS, 3)] \<and>
    (\<forall>(a, b) \<in> set (tk_merges t). a @ b \<in> fst ` set (tk_vocab t))"
proof -
  note b = built [OF assms]
  have "a @ b \<in> fst ` set (tk_vocab t)" if "(a, b) \<in> set (tk_merges t)" for a b
    using subsetD [OF b(7) imageI [OF that]] by (simp add: joined_def)
  with b(1,8) show ?thesis by (auto simp: dense_def)
qed

theorem built_ids_unique_witness:
  "let t = fst (snd sample_built) in
   distinct (map fst (tk_vocab t)) \<and> map snd (tk_vocab t) = map int [0..<length (tk_vocab t)]"
  using built_ids_unique [OF permutes_id(2) permutes_id(1) sample_built] by (simp add: Let_def)

section \<open>Encoding\<close>

text \<open>Every atomic unit of the text is in the vocabulary.\<close>

definition units_known :: "Tokenizer \<Rightarrow> string \<Rightarrow> bool" where
  "units_known t s \<longleftrightarrow>
     (case pre_tokenize (tk_mode t) (tk_normalization t) s of
        None \<Rightarrow> False
      | Some words \<Rightarrow> list_all (\<lambda>w. list_all (\<lambda>u. map_of (tk_vocab t) u \<noteq> None) (units (tk_mode t) w)) words)"

lemma decode_known:
  assumes "dense t" and "\<forall>s \<in> set toks. s \<in> fst ` set (tk_vocab t) \<and> s \<notin> set (tk_special t)"
  shows "decode_ids t skip (map (token_id t) toks @ ids) r = decode_ids t skip ids (r @ concat toks)"
  using assms(2)
proof (induction toks arbitrary: r)
  case (Cons s toks)
  then obtain i where i: "map_of (tk_vocab t) s = Some i"
    by (metis list.set_intros(1) map_of_eq_None_iff not_None_eq)
  with dense_inverse [OF assms(1) i] Cons show ?case by (simp add: token_id_def)
qed simp

lemma known_tokens:
  assumes b: "\<forall>p \<in> set (tk_merges t). joined p \<notin> {PAD, UNK, BOS, EOS}" "tk_special t = [PAD, UNK, BOS, EOS]"
      "joined ` set (tk_merges t) \<subseteq> fst ` set (tk_vocab t)"
    and known: "units_known t s" and pre: "pre_tokenize (tk_mode t) (tk_normalization t) s = Some words"
  shows "\<forall>u \<in> set (concat (map (bpe_word (tk_mode t) (tk_merges t)) words)). u \<in> fst ` set (tk_vocab t) \<and> u \<notin> set (tk_special t)"
proof
  fix u assume "u \<in> set (concat (map (bpe_word (tk_mode t) (tk_merges t)) words))"
  then obtain w where w: "w \<in> set words" "u \<in> set (bpe_word (tk_mode t) (tk_merges t) w)" by auto
  then consider (unit) "u \<in> set (units (tk_mode t) w)" | (merged) "u \<in> joined ` set (tk_merges t)"
    using bpe_word_tokens [of "tk_mode t" "tk_merges t" w, unfolded join_joined] by blast
  then show "u \<in> fst ` set (tk_vocab t) \<and> u \<notin> set (tk_special t)"
  proof cases
    case unit
    then have "map_of (tk_vocab t) u \<noteq> None" using known w(1) by (auto simp: units_known_def pre list_all_iff)
    then have "u \<in> fst ` set (tk_vocab t)" by (simp add: map_of_eq_None_iff)
    moreover have "u \<notin> set (tk_special t)" using units_short [OF unit] by (auto simp: b(2) special_strings)
    ultimately show ?thesis by simp
  next
    case merged
    with b show ?thesis by auto
  qed
qed

lemma decode_framed:
  assumes "dense t" and "take 4 (tk_vocab t) = [(PAD, 0), (UNK, 1), (BOS, 2), (EOS, 3)]" and "tk_special t = [PAD, UNK, BOS, EOS]"
    and "\<forall>s \<in> set toks. s \<in> fst ` set (tk_vocab t) \<and> s \<notin> set (tk_special t)"
  shows "decode t True ([2] @ map (token_id t) toks @ [3]) = Inr (concat toks)"
proof -
  obtain rest where rest: "tk_vocab t = [(PAD, 0), (UNK, 1), (BOS, 2), (EOS, 3)] @ rest"
    using assms(2) by (metis append_take_drop_id)
  have inv: "map_of (tk_inverse t) 2 = Some BOS" "map_of (tk_inverse t) 3 = Some EOS"
    using dense_inverse [OF assms(1), of BOS 2] dense_inverse [OF assms(1), of EOS 3] by (simp_all add: rest special_strings)
  have "decode t True ([2] @ map (token_id t) toks @ [3]) = decode_ids t True [3] (concat toks)"
    using decode_known [OF assms(1,4), of True "[3]" "[]"] by (simp add: decode_def inv assms(3))
  then show ?thesis by (simp add: inv assms(3))
qed

text \<open>C5: with a vocabulary built from any corpus, encoding a text whose characters the vocabulary knows and
  decoding the ids gives the text back, case folded and with each run of white space inside a token
  as one blank; the special tokens put around the ids are dropped again.\<close>

theorem decode_encode:
  assumes "permutes order_units" and "permutes order_pairs"
    and build: "build_vocab order_units order_pairs texts vocab_size threshold
      (set_normalization n key (new_tokenizer m 0), next_key) = (None, t, next_key')"
    and s: "s \<noteq> []" "is_valid_utf8 s" "units_known t s"
  shows "\<exists>ids. fst (encode t s True []) = Inr ids \<and>
    decode t True ids = Inr (concat (map collapse_spaces (regex_tokens m (normalize_case m n s))))"
proof -
  note b = built [OF assms(1,2) build]
  define words where "words = map collapse_spaces (regex_tokens m (normalize_case m n s))"
  define toks where "toks = concat (map (bpe_word m (tk_merges t)) words)"
  have pre: "pre_tokenize m n s = Some words" unfolding words_def by (rule pre_tokenize_tokens [OF s(2)])
  have "fst (encode t s True []) = encoding_of t s True"
    by (rule encode_ok(1) [of "\<lambda>_. (tk_mode t, tk_merges t)" "Suc (tk_key t)"])
      (simp_all add: tls_ok_def tokenizer_ok_def)
  then have "fst (encode t s True []) = Inr ([2] @ map (token_id t) toks @ [3])"
    using s(1,2) by (simp add: encoding_of_def validate_input_def tokens_of_def b(2,3,5,6) pre with_special_def toks_def)
  moreover have "decode t True ([2] @ map (token_id t) toks @ [3]) = Inr (concat toks)"
    using known_tokens [OF b(9,4,7) s(3), unfolded b(2,3), OF pre] unfolding toks_def [symmetric]
    by (rule decode_framed [OF b(1,8,4)])
  moreover have "concat toks = concat words"
    unfolding toks_def by (induction words) (simp_all add: concat_bpe_word)
  ultimately show ?thesis by (simp add: words_def)
qed

theorem decode_encode_witness:
  "\<exists>ids. fst (encode (fst (snd sample_built)) ''cab a'' True []) = Inr ids \<and>
     decode (fst (snd sample_built)) True ids = Inr ''cab a''"
proof -
  have "units_known (fst (snd sample_built)) ''cab a''" "is_valid_utf8 ''cab a''" by code_simp+
  moreover have "concat (map collapse_spaces (regex_tokens UNICODE (normalize_case UNICODE CASED ''cab a''))) = ''cab a''"
    by code_simp
  ultimately show ?thesis
    using decode_encode [OF permutes_id(2) permutes_id(1) sample_built, of "''cab a''"] by simp
qed


text \<open>C6: the caches of the threads cannot be seen: after any sequence of operations on any number of
  tokenizers, copies, rebuilt and reloaded ones included, each thread encodes as if nothing were cached,
  and it holds at most 4 caches of at most 65536 words.\<close>

theorem caches_invisible:
  assumes "p_tokenizers (foldl (\<lambda>p a. perform order_units order_pairs a p) start_process operations) h = Some t"
  shows "let tls = p_threads (foldl (\<lambda>p a. perform order_units order_pairs a p) start_process operations) thread in
    fst (encode t s add_special tls) = encoding_of t s add_special \<and>
    length tls \<le> 4 \<and> (\<forall>cache \<in> snd ` set tls. length cache \<le> 65536)"
proof -
  obtain cfg where "process_ok cfg (foldl (\<lambda>p a. perform order_units order_pairs a p) start_process operations)"
    using run_ok by blast
  from run_encode [OF assms this] show ?thesis by (simp add: Let_def kCachedStates_def kMaxCachedWords_def)
qed

definition sample_operations :: "operation list" where
  "sample_operations =
     [New_Tokenizer 0 UNICODE, Build_Vocab 0 [''abab''] 20 1, Encode 1 0 ''abab'' False,
      Copy_Tokenizer 0 5, Load_Vocab 0 ''f'' None, Set_Normalization 5 LOWERCASE, Encode 1 5 ''ABAB'' False,
      Build_Vocab 5 [''baba''] 9 1]"

theorem caches_invisible_witness:
  "let p = foldl (\<lambda>p a. perform rev rev a p) start_process sample_operations in
   fst (encode (the (p_tokenizers p 5)) ''abab'' False (p_threads p 1)) = encoding_of (the (p_tokenizers p 5)) ''abab'' False"
proof -
  obtain t where "p_tokenizers (foldl (\<lambda>p a. perform rev rev a p) start_process sample_operations) 5 = Some t"
    by (simp add: sample_operations_def with_tokenizer_def start_process_def case_prod_beta)
  with caches_invisible [OF this, where s = "''abab''" and add_special = False and thread = 1] show ?thesis by (simp add: Let_def)
qed

section \<open>The vocabulary file\<close>

text \<open>C7: a vocabulary that \<open>save_vocab\<close> has written is loaded back, into any tokenizer, with the same mode,
  normalization, merges, ids and special tokens, provided no token starts like a header line or a comment.\<close>

theorem vocab_file_round_trip:
  assumes "file_ready t" and "permutes order" and "save_vocab env order filename t fs = (None, fs')"
  shows "\<exists>t'. load_vocab filename (fs' filename) (old, key) = (None, t', key + 1) \<and> same_vocabulary t' t \<and> tk_key t' = key"
proof -
  have f: "filename \<noteq> []" "fs' filename = Some (unlines (vocab_lines order t))"
    using assms(3) by (auto simp: save_vocab_def Let_def split: if_splits option.splits)
  show ?thesis unfolding f(2) by (rule load_saved [OF assms(1,2) f(1)])
qed

definition good_env :: save_env where
  "good_env = \<lparr>v_open_ok = True, v_written = None, v_rename_ok = True, v_remove_ok = True\<rparr>"

theorem vocab_file_round_trip_witness:
  "\<exists>t'. load_vocab ''v.txt'' (snd (save_vocab good_env rev ''v.txt'' (fst (snd sample_built)) Map.empty) ''v.txt'')
      (new_tokenizer ASCII 7, 8) = (None, t', 9) \<and> same_vocabulary t' (fst (snd sample_built))"
proof -
  have r: "file_ready (fst (snd sample_built))" by code_simp
  have "save_vocab good_env rev ''v.txt'' (fst (snd sample_built)) Map.empty =
      (None, snd (save_vocab good_env rev ''v.txt'' (fst (snd sample_built)) Map.empty))"
    by (simp add: save_vocab_def good_env_def Let_def)
  from vocab_file_round_trip [OF r permutes_id(2) this, of "new_tokenizer ASCII 7" 8] show ?thesis by auto
qed

text \<open>A save that fails, at whatever point, leaves the vocabulary file as it was.\<close>

theorem failed_save_keeps_file:
  "fst (save_vocab env order filename t fs) \<noteq> None \<longrightarrow> snd (save_vocab env order filename t fs) filename = fs filename"
  by (auto simp: save_vocab_def Let_def split: option.split)

theorem failed_save_keeps_file_witness:
  "snd (save_vocab (good_env\<lparr>v_rename_ok := False\<rparr>) rev ''v'' (new_tokenizer ASCII 1) [''v'' \<mapsto> ''old'']) ''v'' = Some ''old''"
proof -
  have "fst (save_vocab (good_env\<lparr>v_rename_ok := False\<rparr>) rev ''v'' (new_tokenizer ASCII 1) [''v'' \<mapsto> ''old'']) \<noteq> None"
    by (simp add: save_vocab_def good_env_def Let_def)
  with failed_save_keeps_file [of "good_env\<lparr>v_rename_ok := False\<rparr>" rev "''v''" "new_tokenizer ASCII 1" "[''v'' \<mapsto> ''old'']"]
  show ?thesis by simp
qed

text \<open>The condition on tokens is needed: the line of a token that starts with \<open>#\<close> is skipped as a comment.\<close>

lemma hash_token_skipped:
  "load_line filename (vocab_line (CHR ''#'' # s, i)) x = Inr x"
proof -
  have "\<not> starts_with format_comment (CHR ''#'' # vocab_escape s @ TAB # int_to_string i)"
  proof (cases s)
    case (Cons c cs)
    then show ?thesis
      by (cases "c = CHR '' ''") (auto simp: format_comment_def escape_char_def special_chars TAB_def)
  qed (simp add: format_comment_def TAB_def)
  then show ?thesis by (simp add: load_line_def vocab_line_def escape_char_def special_chars TAB_def case_prod_beta)
qed

end
