(* ===== verification/Special_Tokens.thy ===== *)
theory Special_Tokens
  imports Bpe
begin

text \<open>
  The special-token configuration and helpers of \<open>src/src/SpecialTokens.hpp\<close>. The strings are those
  of \<open>Bpe\<close>. An \<open>std::invalid_argument\<close> is \<open>Inl\<close> with its message.
\<close>

record SpecialTokenConfig =
  pad_token_id :: int
  unk_token_id :: int
  bos_token_id :: int
  eos_token_id :: int

definition default_special :: SpecialTokenConfig where
  "default_special = \<lparr>pad_token_id = 0, unk_token_id = 1, bos_token_id = 2, eos_token_id = 3\<rparr>"

definition special_ids :: "SpecialTokenConfig \<Rightarrow> int list" where
  "special_ids config = [pad_token_id config, unk_token_id config, bos_token_id config, eos_token_id config]"

definition validate_special :: "SpecialTokenConfig \<Rightarrow> string option" where
  "validate_special config =
     (if pad_token_id config < 0 \<or> unk_token_id config < 0 \<or> bos_token_id config < 0 \<or> eos_token_id config < 0
      then Some ''Special token IDs must be non-negative''
      else if card (set (special_ids config)) \<noteq> 4 then Some ''Special token IDs must be unique''
      else None)"

definition is_special_token :: "int \<Rightarrow> SpecialTokenConfig \<Rightarrow> bool" where
  "is_special_token i config \<longleftrightarrow>
     i = pad_token_id config \<or> i = unk_token_id config \<or>
     i = bos_token_id config \<or> i = eos_token_id config"

definition is_special_token_string :: "string \<Rightarrow> bool" where
  "is_special_token_string token_str \<longleftrightarrow>
     token_str = PAD \<or> token_str = UNK \<or> token_str = BOS \<or> token_str = EOS"

definition is_stop_token :: "int \<Rightarrow> SpecialTokenConfig \<Rightarrow> bool" where
  "is_stop_token i config \<longleftrightarrow> i = eos_token_id config \<or> i = pad_token_id config"

definition get_special_token_string :: "int \<Rightarrow> SpecialTokenConfig \<Rightarrow> string + string" where
  "get_special_token_string i config =
     (if i = pad_token_id config then Inr PAD
      else if i = unk_token_id config then Inr UNK
      else if i = bos_token_id config then Inr BOS
      else if i = eos_token_id config then Inr EOS
      else Inl (''Token ID '' @ int_to_string i @ '' is not a special token''))"

definition get_special_token_id :: "string \<Rightarrow> SpecialTokenConfig \<Rightarrow> string + int" where
  "get_special_token_id token_str config =
     (if token_str = PAD then Inr (pad_token_id config)
      else if token_str = UNK then Inr (unk_token_id config)
      else if token_str = BOS then Inr (bos_token_id config)
      else if token_str = EOS then Inr (eos_token_id config)
      else Inl (''Token string '' @ [CHR 0x27] @ token_str @ [CHR 0x27] @ '' is not a special token''))"

definition create_special_token_set :: "string set" where
  "create_special_token_set = {PAD, UNK, BOS, EOS}"

text \<open>The initializer list of an \<open>unordered_map\<close>: of entries with equal keys the first one stays.\<close>

definition create_special_token_map :: "SpecialTokenConfig \<Rightarrow> (string \<rightharpoonup> int)" where
  "create_special_token_map config = map_of
     [(PAD, pad_token_id config), (UNK, unk_token_id config), (BOS, bos_token_id config), (EOS, eos_token_id config)]"

definition create_inverse_special_token_map :: "SpecialTokenConfig \<Rightarrow> (int \<rightharpoonup> string)" where
  "create_inverse_special_token_map config = map_of
     [(pad_token_id config, PAD), (unk_token_id config, UNK), (bos_token_id config, BOS), (eos_token_id config, EOS)]"

section \<open>Helpers agree\<close>

lemma validate_special_iff:
  "validate_special config = None \<longleftrightarrow> list_all (\<lambda>i. 0 \<le> i) (special_ids config) \<and> distinct (special_ids config)"
proof -
  have "card (set (special_ids config)) = 4 \<longleftrightarrow> distinct (special_ids config)"
    using card_distinct [of "special_ids config"] distinct_card [of "special_ids config"]
    by (auto simp: special_ids_def simp del: distinct.simps)
  then show ?thesis by (auto simp: validate_special_def special_ids_def simp del: distinct.simps)
qed

text \<open>The inverse map is what \<open>get_special_token_string\<close> computes, also when ids collide.\<close>

lemma inverse_map_string:
  "create_inverse_special_token_map config i = (case get_special_token_string i config of Inl _ \<Rightarrow> None | Inr s \<Rightarrow> Some s)"
  by (simp add: create_inverse_special_token_map_def get_special_token_string_def)

lemma token_map_id:
  "create_special_token_map config s = (case get_special_token_id s config of Inl _ \<Rightarrow> None | Inr i \<Rightarrow> Some i)"
  by (simp add: create_special_token_map_def get_special_token_id_def)

lemma special_string_iff: "is_special_token_string s \<longleftrightarrow> s \<in> create_special_token_set"
  by (simp add: is_special_token_string_def create_special_token_set_def)

text \<open>For a valid configuration strings and ids are inverse to each other.\<close>

lemma special_round_trip:
  assumes "validate_special config = None"
  shows "get_special_token_id s config = Inr i \<longleftrightarrow> get_special_token_string i config = Inr s"
proof -
  have d: "PAD \<noteq> UNK" "PAD \<noteq> BOS" "PAD \<noteq> EOS" "UNK \<noteq> BOS" "UNK \<noteq> EOS" "BOS \<noteq> EOS"
    by (simp_all add: special_strings)
  show ?thesis using assms d [symmetric] d
    by (auto simp: validate_special_iff special_ids_def get_special_token_id_def get_special_token_string_def
        split: if_splits)
qed

end
