(* ===== verification/Config_Float.thy ===== *)
theory Config_Float
  imports Config_Text
begin

text \<open>
  \<open>float\<close> settings: \<open>parse_float\<close> of \<open>src/src/Config.cpp\<close> with the \<open>std::stof\<close> it rests on, and the two ways
  a \<open>float\<close> is printed. Every finite \<open>float\<close> is a whole multiple of \<open>2^-149\<close>, so it is modelled by its
  sign and that multiple; \<open>1.0f\<close> is \<open>2^149\<close> units. Infinities and NaNs never get past \<open>parse_float\<close>.
\<close>

datatype float32 = F32 bool int

fun f_units :: "float32 \<Rightarrow> int" where
  "f_units (F32 neg n) = (if neg then - n else n)"

definition ONE_UNITS :: int where "ONE_UNITS = 2 ^ 149"

section \<open>Rounding\<close>

function log2_floor :: "int \<Rightarrow> nat" where
  "log2_floor n = (if n < 2 then 0 else Suc (log2_floor (n div 2)))"
  by pat_completeness auto
termination by (relation "measure nat") auto

declare log2_floor.simps [simp del]

definition div_even :: "int \<Rightarrow> int \<Rightarrow> int" where
  "div_even n d =
     (let q = n div d; r = n mod d in
      if 2 * r > d \<or> 2 * r = d \<and> odd q then q + 1 else q)"

text \<open>To the nearest \<open>float\<close>, ties to even, in units; \<open>None\<close> when \<open>strtof\<close> reports \<open>ERANGE\<close>: too large, or
  inexact and below the smallest normal number after rounding. A magnitude is a fraction \<open>n / d\<close>.\<close>

definition round_shift :: "int \<Rightarrow> int \<Rightarrow> nat" where
  "round_shift n d = log2_floor (n * ONE_UNITS div d) - 23"

definition round_units :: "int \<Rightarrow> int \<Rightarrow> int" where
  "round_units n d = (let k = round_shift n d in div_even (n * ONE_UNITS) (d * 2 ^ k) * 2 ^ k)"

definition to_float :: "int \<Rightarrow> int \<Rightarrow> int option" where
  "to_float n d =
     (let r = round_units n d in
      if r \<ge> 2 ^ 277 then None
      else if div_even (2 * (n * ONE_UNITS)) d < 2 ^ 24 \<and> n * ONE_UNITS mod d \<noteq> 0 then None
      else Some r)"

section \<open>Parsing\<close>

definition hex_value :: "char \<Rightarrow> nat option" where
  "hex_value c =
     (if is_digit c then Some (digit_value c)
      else if CHR ''a'' \<le> to_lower c \<and> to_lower c \<le> CHR ''f'' then Some (of_char (to_lower c) - 87) else None)"

definition hex_digits_value :: "string \<Rightarrow> nat" where
  "hex_digits_value s = foldl (\<lambda>v c. v * 16 + (case hex_value c of Some x \<Rightarrow> x | None \<Rightarrow> 0)) 0 s"

text \<open>Mantissa digits around at most one point, then the rest.\<close>

definition split_mantissa :: "(char \<Rightarrow> bool) \<Rightarrow> string \<Rightarrow> string \<times> string \<times> string" where
  "split_mantissa P s =
     (let whole = takeWhile P s; s = dropWhile P s in
      case s of
        c # cs \<Rightarrow> if c = CHR ''.'' then (whole, takeWhile P cs, dropWhile P cs) else (whole, [], s)
      | [] \<Rightarrow> (whole, [], []))"

text \<open>The exponent after \<open>e\<close> or \<open>p\<close>, with nothing behind it; no exponent is 0.\<close>

definition exponent :: "char \<Rightarrow> string \<Rightarrow> int option" where
  "exponent mark s =
     (case s of
        [] \<Rightarrow> Some 0
      | c # cs \<Rightarrow>
          if to_lower c \<noteq> mark then None
          else case cs of
            [] \<Rightarrow> None
          | sg # ds \<Rightarrow>
              if sg = CHR ''-'' then map_option (\<lambda>n. - int n) (whole_nat ds)
              else if sg = CHR ''+'' then map_option int (whole_nat ds)
              else map_option int (whole_nat cs))"

definition scale :: "int \<Rightarrow> nat \<Rightarrow> int \<Rightarrow> int \<times> int" where
  "scale base m x = (if x \<ge> 0 then (int m * base ^ nat x, 1) else (int m, base ^ nat (- x)))"

definition decimal_magnitude :: "string \<Rightarrow> (int \<times> int) option" where
  "decimal_magnitude s =
     (case split_mantissa is_digit s of (whole, frac, rest) \<Rightarrow>
        if whole = [] \<and> frac = [] then None
        else case exponent CHR ''e'' rest of
          None \<Rightarrow> None
        | Some x \<Rightarrow> Some (scale 10 (digits_value (whole @ frac)) (x - int (length frac))))"

definition hex_magnitude :: "string \<Rightarrow> (int \<times> int) option" where
  "hex_magnitude s =
     (case split_mantissa (\<lambda>c. hex_value c \<noteq> None) s of (whole, frac, rest) \<Rightarrow>
        if whole = [] \<and> frac = [] then None
        else case exponent CHR ''p'' rest of
          None \<Rightarrow> None
        | Some x \<Rightarrow> Some (scale 2 (hex_digits_value (whole @ frac)) (x - 4 * int (length frac))))"

definition magnitude :: "string \<Rightarrow> (int \<times> int) option" where
  "magnitude s =
     (case s of
        z # x # rest \<Rightarrow> if z = CHR ''0'' \<and> to_lower x = CHR ''x'' then hex_magnitude rest else decimal_magnitude s
      | _ \<Rightarrow> decimal_magnitude s)"

text \<open>\<open>std::stof\<close> with the whole text consumed and a finite result.\<close>

definition parse_float :: "string \<Rightarrow> float32 option" where
  "parse_float value =
     (let s = dropWhile is_space value;
          (neg, ds) = (case s of c # cs \<Rightarrow> if c = CHR ''-'' then (True, cs)
                                    else if c = CHR ''+'' then (False, cs) else (False, s)
                       | [] \<Rightarrow> (False, []))
      in case magnitude ds of
           None \<Rightarrow> None
         | Some (n, d) \<Rightarrow> map_option (F32 neg) (to_float n d))"

definition parse_strict_float :: "string \<Rightarrow> float32 option" where
  "parse_strict_float value = parse_float value"

section \<open>Printing\<close>

text \<open>\<open>std::to_string(float)\<close>, that is \<open>%f\<close> of the exact value.\<close>

definition fixed6 :: "float32 \<Rightarrow> string" where
  "fixed6 f =
     (case f of F32 neg n \<Rightarrow>
        let q = nat (div_even (n * 1000000) ONE_UNITS); frac = nat_to_string (q mod 1000000) in
        (if neg then ''-'' else '''') @ nat_to_string (q div 1000000) @ ''.'' @
          replicate (6 - length frac) CHR ''0'' @ frac)"

text \<open>\<open>ostream << float\<close> with the default precision.\<close>

definition stream_float :: "float32 \<Rightarrow> string" where
  "stream_float f = (case f of F32 neg n \<Rightarrow> (if neg then ''-'' else '''') @ format_g6 (nat n) (nat ONE_UNITS))"

section \<open>Correct rounding\<close>

lemma div_even_near:
  assumes "0 < d"
  shows "2 * \<bar>div_even n d * d - n\<bar> \<le> d"
proof -
  define q r where "q = n div d" and "r = n mod d"
  have n: "n = q * d + r" by (simp add: q_def r_def)
  have r: "0 \<le> r" "r < d" using assms by (simp_all add: r_def)
  have "div_even n d = (if 2 * r > d \<or> 2 * r = d \<and> odd q then q + 1 else q)"
    by (simp add: div_even_def q_def r_def Let_def)
  with r show ?thesis unfolding n by (auto simp: algebra_simps split: if_splits)
qed

text \<open>The result differs from the exact value by at most half the distance of neighbouring floats.\<close>

lemma round_units_near:
  assumes "0 < d"
  shows "2 * \<bar>round_units n d * d - n * ONE_UNITS\<bar> \<le> d * 2 ^ round_shift n d"
proof -
  let ?k = "round_shift n d"
  have "2 * \<bar>div_even (n * ONE_UNITS) (d * 2 ^ ?k) * (d * 2 ^ ?k) - n * ONE_UNITS\<bar> \<le> d * 2 ^ ?k"
    by (rule div_even_near) (use assms in simp)
  then show ?thesis by (simp add: round_units_def Let_def algebra_simps)
qed


section \<open>Bounds\<close>

lemma ONE_UNITS_pos: "0 < ONE_UNITS"
  by (simp add: ONE_UNITS_def)

lemma times_ONE_mono: "a \<le> b \<Longrightarrow> a * ONE_UNITS \<le> b * ONE_UNITS"
  using ONE_UNITS_pos by (intro mult_right_mono) simp_all

lemma int_le_div: "0 < d \<Longrightarrow> m * d \<le> n \<Longrightarrow> m \<le> n div d" for d :: int
  using zdiv_mono1 [of "m * d" n d] by simp

lemma int_div_times: "0 < d \<Longrightarrow> n div d * d \<le> n" for d :: int
  using div_mult_mod_eq [of n d] pos_mod_sign [of d n] by linarith

lemma int_div_less: "0 < d \<Longrightarrow> n < m * d \<Longrightarrow> n div d < m" for d :: int
proof (rule ccontr)
  assume d: "0 < d" and n: "n < m * d" and "\<not> n div d < m"
  then have "m * d \<le> n div d * d" by (intro mult_right_mono) simp_all
  also have "\<dots> \<le> n" using d by (rule int_div_times)
  finally show False using n by simp
qed

lemma div_even_le: "0 < d \<Longrightarrow> n \<le> m * d \<Longrightarrow> div_even n d \<le> m"
proof -
  assume d: "0 < d" and n: "n \<le> m * d"
  show ?thesis
  proof (cases "n = m * d")
    case True
    with d show ?thesis by (simp add: div_even_def)
  next
    case False
    then have "n < m * d" using n by simp
    then have "n div d < m" using d by (intro int_div_less)
    then show ?thesis by (simp add: div_even_def Let_def)
  qed
qed

lemma div_even_ge: "0 < d \<Longrightarrow> m * d \<le> n \<Longrightarrow> m \<le> div_even n d"
proof -
  assume "0 < d" and "m * d \<le> n"
  then have "m \<le> n div d" by (rule int_le_div)
  then show ?thesis by (simp add: div_even_def Let_def)
qed

lemma log2_floor_le: "1 \<le> n \<Longrightarrow> 2 ^ log2_floor n \<le> n"
proof (induction n rule: log2_floor.induct)
  case (1 n)
  show ?case
  proof (cases "n < 2")
    case False
    then have "2 ^ log2_floor (n div 2) \<le> n div 2" using 1 by simp
    then have "2 * 2 ^ log2_floor (n div 2) \<le> n" by linarith
    then show ?thesis using False by (subst log2_floor.simps) simp
  qed (use 1 in \<open>simp add: log2_floor.simps\<close>)
qed

lemma log2_floor_bound: "1 \<le> n \<Longrightarrow> n \<le> 2 ^ k \<Longrightarrow> log2_floor n \<le> k"
proof -
  assume "1 \<le> n" and "n \<le> 2 ^ k"
  then have "(2 :: int) ^ log2_floor n \<le> 2 ^ k" using log2_floor_le [of n] by linarith
  then show ?thesis by (simp add: power_le_imp_le_exp)
qed

text \<open>The spacing at \<open>n / d\<close> is no more than \<open>2^-23\<close> of it, for normal numbers.\<close>

lemma round_shift_le:
  assumes "0 < d" and "d * 2 ^ 23 \<le> n * ONE_UNITS"
  shows "d * 2 ^ round_shift n d \<le> n * ONE_UNITS"
proof -
  let ?N = "n * ONE_UNITS" and ?q = "n * ONE_UNITS div d"
  have "2 ^ 23 \<le> ?q" using assms by (intro int_le_div) (simp_all add: mult.commute)
  then have "2 ^ log2_floor ?q \<le> ?q" by (intro log2_floor_le) simp
  moreover have "(2 :: int) ^ round_shift n d \<le> 2 ^ log2_floor ?q" by (simp add: round_shift_def)
  ultimately have "2 ^ round_shift n d \<le> ?q" by (rule order_trans [rotated])
  then have "2 ^ round_shift n d * d \<le> ?q * d" using assms(1) by (intro mult_right_mono) simp_all
  also have "\<dots> \<le> ?N" using assms(1) by (rule int_div_times)
  finally show ?thesis by (simp add: mult.commute)
qed

lemma not_tiny: "0 < d \<Longrightarrow> d * 2 ^ 23 \<le> n * ONE_UNITS \<Longrightarrow> \<not> div_even (2 * (n * ONE_UNITS)) d < 2 ^ 24"
  using div_even_ge [of d "2 ^ 24" "2 * (n * ONE_UNITS)"] by (simp add: mult.commute)

lemma round_shift_small:
  assumes "0 < d" and "1 \<le> n" and "d * 2 ^ 23 \<le> n * ONE_UNITS" and "n \<le> d * 2 ^ 20"
  shows "round_shift n d \<le> 149"
proof -
  let ?q = "n * ONE_UNITS div d"
  have "2 ^ 23 \<le> ?q" using assms by (intro int_le_div) (simp_all add: mult.commute)
  moreover have "?q \<le> 2 ^ 169"
  proof -
    have "n * ONE_UNITS \<le> d * 2 ^ 20 * ONE_UNITS" using assms(4) by (rule times_ONE_mono)
    then have "n * ONE_UNITS \<le> 2 ^ 169 * d" by (simp add: ONE_UNITS_def)
    then have "?q \<le> (2 ^ 169 * d) div d" using assms(1) by (intro zdiv_mono1)
    then show ?thesis using assms(1) by simp
  qed
  ultimately have "log2_floor ?q \<le> 169" by (intro log2_floor_bound) simp_all
  then show ?thesis by (simp add: round_shift_def)
qed

text \<open>A number of \<open>(0, 1]\<close> that is not tiny becomes a \<open>float\<close> of \<open>(0, 1]\<close>, one of at least 1 stays so.\<close>

lemma to_float_unit:
  assumes "0 < d" and "d \<le> n * 2 ^ 126" and "n \<le> d"
  shows "\<exists>r. to_float n d = Some r \<and> 0 < r \<and> r \<le> ONE_UNITS"
proof -
  have N: "d * 2 ^ 23 \<le> n * ONE_UNITS" using assms(2) by (simp add: ONE_UNITS_def)
  have n: "1 \<le> n" using assms(1,2) by (smt (verit) mult_nonneg_nonneg mult_nonpos_nonneg zero_le_power)
  let ?k = "round_shift n d"
  have k: "?k \<le> 149" using round_shift_small [OF assms(1) n N] assms(1,3) by simp
  have "1 \<le> div_even (n * ONE_UNITS) (d * 2 ^ ?k)"
    by (rule div_even_ge) (use assms(1) round_shift_le [OF assms(1) N] in simp_all)
  then have pos: "0 < round_units n d" by (simp add: round_units_def Let_def)
  have "n * ONE_UNITS \<le> 2 ^ (149 - ?k) * (d * 2 ^ ?k)"
  proof -
    have one: "(2 :: int) ^ (149 - ?k) * 2 ^ ?k = ONE_UNITS" using k by (simp add: ONE_UNITS_def flip: power_add)
    have "2 ^ (149 - ?k) * (d * 2 ^ ?k) = d * ONE_UNITS" unfolding one [symmetric] by simp
    then show ?thesis using times_ONE_mono [OF assms(3)] by (simp only:)
  qed
  then have "div_even (n * ONE_UNITS) (d * 2 ^ ?k) \<le> 2 ^ (149 - ?k)" by (intro div_even_le) (use assms(1) in simp_all)
  then have "round_units n d \<le> 2 ^ (149 - ?k) * 2 ^ ?k" by (simp add: round_units_def Let_def)
  also have "\<dots> = ONE_UNITS" using k by (simp add: ONE_UNITS_def flip: power_add)
  finally have le: "round_units n d \<le> ONE_UNITS" .
  then have "\<not> 2 ^ 277 \<le> round_units n d" by (simp add: ONE_UNITS_def)
  then show ?thesis using pos le not_tiny [OF assms(1) N] by (simp add: to_float_def Let_def)
qed

lemma to_float_large:
  assumes "0 < d" and "d \<le> n" and "n \<le> d * 2 ^ 20"
  shows "\<exists>r. to_float n d = Some r \<and> ONE_UNITS \<le> r"
proof -
  have N: "d * 2 ^ 23 \<le> n * ONE_UNITS"
  proof -
    have "d * 2 ^ 23 \<le> d * ONE_UNITS" using assms(1) by (simp add: ONE_UNITS_def)
    also have "\<dots> \<le> n * ONE_UNITS" using assms(2) by (rule times_ONE_mono)
    finally show ?thesis .
  qed
  let ?k = "round_shift n d"
  have k: "?k \<le> 149" using round_shift_small [OF assms(1) _ N assms(3)] assms(1,2) by simp
  have one: "(2 :: int) ^ (149 - ?k) * 2 ^ ?k = ONE_UNITS" using k by (simp add: ONE_UNITS_def flip: power_add)
  have "2 ^ (149 - ?k) * (d * 2 ^ ?k) = d * ONE_UNITS" unfolding one [symmetric] by simp
  then have "2 ^ (149 - ?k) * (d * 2 ^ ?k) \<le> n * ONE_UNITS" using times_ONE_mono [OF assms(2)] by (simp only:)
  then have "2 ^ (149 - ?k) \<le> div_even (n * ONE_UNITS) (d * 2 ^ ?k)" by (intro div_even_ge) (use assms(1) in simp_all)
  then have "2 ^ (149 - ?k) * 2 ^ ?k \<le> round_units n d" by (simp add: round_units_def Let_def)
  then have ge: "ONE_UNITS \<le> round_units n d" unfolding one .
  have "n * ONE_UNITS \<le> (2 ^ 20 * 2 ^ (149 - ?k)) * (d * 2 ^ ?k)"
  proof -
    have "(2 ^ 20 * 2 ^ (149 - ?k)) * (d * 2 ^ ?k) = d * 2 ^ 20 * (2 ^ (149 - ?k) * 2 ^ ?k)" by (simp only: mult.assoc mult.commute mult.left_commute)
    also have "\<dots> = d * 2 ^ 20 * ONE_UNITS" unfolding one ..
    finally show ?thesis using times_ONE_mono [OF assms(3)] by (simp only:)
  qed
  then have "div_even (n * ONE_UNITS) (d * 2 ^ ?k) \<le> 2 ^ 20 * 2 ^ (149 - ?k)" by (intro div_even_le) (use assms(1) in simp_all)
  then have "round_units n d \<le> 2 ^ 20 * (2 ^ (149 - ?k) * 2 ^ ?k)" by (simp add: round_units_def Let_def mult.assoc)
  then have "round_units n d \<le> 2 ^ 20 * ONE_UNITS" unfolding one .
  then have "\<not> 2 ^ 277 \<le> round_units n d" by (simp add: ONE_UNITS_def)
  then show ?thesis using ge not_tiny [OF assms(1) N] by (simp add: to_float_def Let_def)
qed

end
