(* ===== verification/Config_Keys.thy ===== *)
theory Config_Keys
  imports Config_Float
begin

text \<open>
  The settings of \<open>src/src/Config.hpp\<close> and \<open>src/src/Config.cpp\<close>: every field of \<open>ServiceConfig\<close> with its default,
  every key \<open>load_from_file\<close> knows with the field it sets and the parser it uses, in the order of the
  if-chain, and the same for the environment variables of \<open>load_from_env\<close>. A configuration is a function
  from field names to values.
\<close>

datatype GPUStrategy = BACKGROUND | FULL

datatype setting = Text string | Whole int | Size int | Real float32 | Flag bool | Gpu GPUStrategy

type_synonym fields = "string \<Rightarrow> setting"

definition gpu_strategy_from_string :: "string \<Rightarrow> GPUStrategy" where
  "gpu_strategy_from_string s = (if s = ''full'' then FULL else BACKGROUND)"

section \<open>Parsers\<close>

definition generation_strategy_names :: "string list" where
  "generation_strategy_names = [''greedy'', ''beam'', ''temperature'', ''top_k'', ''nucleus'']"

definition metrics_storage_backend_names :: "string list" where
  "metrics_storage_backend_names = [''sqlite+file'', ''sqlite'', ''postgres+file'', ''postgres'', ''file'']"

definition kLogLevels :: "string list" where "kLogLevels = [''DEBUG'', ''INFO'', ''WARN'', ''ERROR'']"
definition kDatasetKinds :: "string list" where "kDatasetKinds = [[], ''encoder'', ''decoder'', ''world_model'', ''chatbot'']"
definition kTokenizerModes :: "string list" where "kTokenizerModes = [''unicode'', ''ascii'']"
definition kGpuStrategies :: "string list" where "kGpuStrategies = [''background'', ''full'']"

definition kReservedKeys :: "string list" where "kReservedKeys = [''HIPPOCAMPAL_COVERAGE_LOSS_WEIGHT'']"

datatype kind = K_Text | K_Int | K_Size | K_Float | K_Bool | K_Choice "string list" | K_Gpu | K_Tokenizer

fun parse_setting :: "kind \<Rightarrow> string \<Rightarrow> string \<Rightarrow> setting option" where
  "parse_setting K_Text key v = Some (Text v)"
| "parse_setting K_Int key v = map_option Whole (parse_int v)"
| "parse_setting K_Size key v = map_option (\<lambda>n. Size (int n)) (parse_size v)"
| "parse_setting K_Float key v = map_option Real (parse_float v)"
| "parse_setting K_Bool key v = map_option Flag (parse_bool v)"
| "parse_setting (K_Choice cs) key v = map_option Text (parse_file_choice key v cs)"
| "parse_setting K_Gpu key v =
     map_option (\<lambda>c. Gpu (gpu_strategy_from_string c)) (parse_file_choice key v kGpuStrategies)"
| "parse_setting K_Tokenizer key v =
     map_option (\<lambda>c. Flag (c = ''unicode'')) (parse_file_choice key v kTokenizerModes)"

section \<open>Fields and defaults\<close>

text \<open>An initializer of the struct: a value, or a floating-point literal the compiler rounds.\<close>

datatype initializer = Value setting | Float_Literal string

fun initial :: "initializer \<Rightarrow> setting" where
  "initial (Value s) = s"
| "initial (Float_Literal s) = Real (case parse_float s of Some f \<Rightarrow> f | None \<Rightarrow> F32 False 0)"

definition d_server :: "(string \<times> initializer) list" where
  "d_server =
    [(''model_path'', Value (Text [])), (''vocab_path'', Value (Text [])),
     (''draft_model_path'', Value (Text [])), (''speculative_num_candidates'', Value (Whole 4)),
     (''port'', Value (Whole 8080)), (''session_timeout'', Value (Whole 30)),
     (''max_sessions'', Value (Whole 10000)), (''max_batch_size'', Value (Whole 32)),
     (''log_level'', Value (Text ''INFO'')), (''log_file_path'', Value (Text [])),
     (''session_dir'', Value (Text ''training_sessions'')), (''log_max_size_mb'', Value (Size 10)),
     (''log_max_files'', Value (Size 5)), (''log_compress'', Value (Flag False))]"

definition d_architecture :: "(string \<times> initializer) list" where
  "d_architecture =
    [(''d_model'', Value (Size 512)), (''num_heads'', Value (Size 8)), (''d_ff'', Value (Size 2048)),
     (''num_encoder_layers'', Value (Size 6)), (''num_decoder_layers'', Value (Size 6)),
     (''max_seq_length'', Value (Size 1024))]"

definition d_training :: "(string \<times> initializer) list" where
  "d_training =
    [(''learning_rate'', Float_Literal ''0.0001''), (''num_epochs'', Value (Whole 10)),
     (''weight_decay'', Float_Literal ''0.01''), (''gradient_clip'', Float_Literal ''1.0''),
     (''adaptive_gradient_clip'', Value (Flag False)), (''gradient_clip_min'', Float_Literal ''0.1''),
     (''gradient_clip_max'', Float_Literal ''5.0''), (''gradient_clip_ema_decay'', Float_Literal ''0.05''),
     (''gradient_clip_headroom'', Float_Literal ''2.0''), (''gradient_clip_warmup_steps'', Value (Whole 100)),
     (''gradient_clip_spike_k'', Float_Literal ''5.0''), (''batch_size'', Value (Whole 1)),
     (''gradient_accumulation_steps'', Value (Whole 1))]"

definition d_max_length :: "(string \<times> initializer) list" where
  "d_max_length =
    [(''max_gen_length'', Value (Size 100))]"

definition d_generation :: "(string \<times> initializer) list" where
  "d_generation =
    [(''temperature'', Float_Literal ''1.0''), (''top_p'', Float_Literal ''0.9''), (''top_k'', Value (Whole 50)),
     (''beam_width'', Value (Whole 4)), (''strategy'', Value (Text ''nucleus''))]"

definition d_metrics_push :: "(string \<times> initializer) list" where
  "d_metrics_push =
    [(''enable_metrics_service'', Value (Flag True)),
     (''metrics_server_url'', Value (Text ''http://localhost:8081'')),
     (''metrics_push_timeout_ms'', Value (Whole 1000)), (''metrics_server_headers'', Value (Text [])),
     (''metrics_server_ca_file'', Value (Text []))]"

definition d_metrics_files :: "(string \<times> initializer) list" where
  "d_metrics_files =
    [(''metrics_enable_persistence'', Value (Flag True)),
     (''metrics_file'', Value (Text ''training_sessions/metrics.jsonl'')),
     (''metrics_summary_file'', Value (Text ''training_sessions/metrics_summary.json'')),
     (''metrics_persist_every_samples'', Value (Whole 100)),
     (''metrics_persist_every_seconds'', Value (Whole 30)),
     (''metrics_max_records_in_memory'', Value (Whole 10000)),
     (''metrics_max_records_on_disk'', Value (Whole 100000)), (''metrics_retention_days'', Value (Whole 90)),
     (''metrics_file_max_mb'', Value (Whole 100)), (''metrics_file_backups'', Value (Whole 3)),
     (''metrics_enable_prometheus'', Value (Flag False)),
     (''metrics_prometheus_file'', Value (Text ''training_sessions/metrics.prom''))]"

definition d_sessions :: "(string \<times> initializer) list" where
  "d_sessions =
    [(''metrics_session_key'', Value (Text [])), (''metrics_session_label'', Value (Text [])),
     (''metrics_max_live_sessions'', Value (Size 16)), (''metrics_completed_ttl_seconds'', Value (Whole 3600)),
     (''metrics_sweep_interval_seconds'', Value (Whole 60)),
     (''metrics_staleness_threshold_seconds'', Value (Whole 60))]"

definition d_heartbeat :: "(string \<times> initializer) list" where
  "d_heartbeat =
    [(''metrics_heartbeat_interval_ms'', Value (Whole 30000))]"

definition d_metrics_api :: "(string \<times> initializer) list" where
  "d_metrics_api =
    [(''metrics_api_port'', Value (Whole 8081)), (''metrics_api_allow_control'', Value (Flag True)),
     (''metrics_api_cors_allowed_origins'', Value (Text []))]"

definition d_metrics_db :: "(string \<times> initializer) list" where
  "d_metrics_db =
    [(''metrics_storage_backend'', Value (Text ''sqlite+file'')),
     (''metrics_db_path'', Value (Text ''training_sessions/metrics.db'')), (''metrics_db_url'', Value (Text [])),
     (''metrics_db_pool_size'', Value (Whole 4))]"

definition d_registry :: "(string \<times> initializer) list" where
  "d_registry =
    [(''registry_server_url'', Value (Text [])), (''run_group'', Value (Text [])), (''run_id'', Value (Text [])),
     (''dataset_kind'', Value (Text [])), (''cache_tokenized_data'', Value (Flag False)),
     (''tokenized_cache_dir'', Value (Text ''tokenized_cache'')), (''registry_timeout_ms'', Value (Whole 5000)),
     (''registry_listen_port'', Value (Whole 8082)), (''registry_data_dir'', Value (Text ''registry_sessions'')),
     (''registry_admin_enabled'', Value (Flag True)), (''registry_claim_lease_minutes'', Value (Whole 30)),
     (''registry_max_upload_mb'', Value (Whole 2048)), (''registry_max_concurrent_fetches'', Value (Whole 2))]"

definition d_ftp :: "(string \<times> initializer) list" where
  "d_ftp =
    [(''ftp_server_enabled'', Value (Flag False)), (''ftp_advertise_ip'', Value (Text [])),
     (''ftp_server_port'', Value (Whole 2121)), (''ftp_pasv_port_min'', Value (Whole 50000)),
     (''ftp_pasv_port_max'', Value (Whole 50099)), (''ftp_token_ttl_minutes'', Value (Whole 30)),
     (''ftp_data_server_secret'', Value (Text [])), (''download_dir'', Value (Text [])),
     (''max_parallel_downloads'', Value (Whole 4)), (''large_file_warn_threshold_mb'', Value (Whole 500)),
     (''ftps_ca_file'', Value (Text [])), (''ftps_pinned_public_key'', Value (Text [])),
     (''ftp_max_sessions_per_run'', Value (Whole 4)), (''ftps_enabled'', Value (Flag False)),
     (''ftp_cert_file'', Value (Text [])), (''ftp_key_file'', Value (Text []))]"

definition d_outlier :: "(string \<times> initializer) list" where
  "d_outlier =
    [(''loss_outlier_z_threshold'', Float_Literal ''3.0''),
     (''grad_norm_outlier_threshold'', Float_Literal ''10.0''), (''max_abnormal_samples'', Value (Whole 1000))]"

definition d_quality :: "(string \<times> initializer) list" where
  "d_quality =
    [(''enable_generation_quality_metrics'', Value (Flag False)),
     (''generation_quality_sample_size'', Value (Whole 10)),
     (''generation_quality_max_tokens'', Value (Whole 50)),
     (''generation_quality_async_threshold'', Value (Whole 50)), (''loss_quality_backfill'', Value (Flag True)),
     (''generation_quality_backfill'', Value (Flag False))]"

definition d_rag :: "(string \<times> initializer) list" where
  "d_rag =
    [(''allow_untrained_model'', Value (Flag False)), (''rag_enabled'', Value (Flag False)),
     (''rag_docs_path'', Value (Text [])), (''rag_num_docs'', Value (Whole 3)),
     (''rag_threshold'', Float_Literal ''0.0''), (''rag_max_context_length'', Value (Whole 512))]"

definition d_name_service :: "(string \<times> initializer) list" where
  "d_name_service =
    [(''name_service_url'', Value (Text [])), (''name_service_headers'', Value (Text [])),
     (''name_service_ca_file'', Value (Text [])), (''name_service_port'', Value (Whole 8083)),
     (''name_service_dir'', Value (Text ''name_service'')), (''name_service_timeout_ms'', Value (Whole 5000)),
     (''name_service_admin_enabled'', Value (Flag True)), (''model_name'', Value (Text [])),
     (''model_role'', Value (Text []))]"

definition d_trainer_admin :: "(string \<times> initializer) list" where
  "d_trainer_admin =
    [(''trainer_admin_enabled'', Value (Flag False)), (''trainer_admin_port'', Value (Whole 8084)),
     (''trainer_admin_host'', Value (Text ''127.0.0.1'')),
     (''trainer_admin_dir'', Value (Text ''trainer_admin'')), (''trainer_child_admin_port'', Value (Whole 8085))]"

definition d_world_model :: "(string \<times> initializer) list" where
  "d_world_model =
    [(''world_model_enabled'', Value (Flag False)), (''world_model_d_model'', Value (Size 512)),
     (''world_model_num_layers'', Value (Size 6)), (''world_model_num_heads'', Value (Size 8)),
     (''world_model_d_ff'', Value (Size 2048)), (''world_model_sigreg_lambda'', Float_Literal ''1.0''),
     (''world_model_sigreg_num_sketches'', Value (Size 64)), (''world_model_sigreg_batch_size'', Value (Size 32)),
     (''world_model_inject_every_n_layers'', Value (Size 0)), (''world_model_artifact_path'', Value (Text []))]"

definition d_hippocampal :: "(string \<times> initializer) list" where
  "d_hippocampal =
    [(''hippocampal_memory_enabled'', Value (Flag False)), (''hippocampal_memory_capacity'', Value (Size 512)),
     (''hippocampal_state_path'', Value (Text [])), (''hippocampal_save_interval_seconds'', Value (Whole 300)),
     (''hippocampal_repetition_alpha'', Float_Literal ''0.0''),
     (''hippocampal_repetition_decay'', Float_Literal ''0.95''),
     (''hippocampal_cross_reference_alpha'', Float_Literal ''0.0''),
     (''hippocampal_association_decay'', Float_Literal ''0.95'')]"

definition d_checkpoint :: "(string \<times> initializer) list" where
  "d_checkpoint =
    [(''auto_save_enabled'', Value (Flag True)), (''resume_from_best_checkpoint'', Value (Flag False)),
     (''auto_save_every_samples'', Value (Whole 1000)), (''auto_save_every_minutes'', Value (Whole 30)),
     (''max_sessions_to_keep'', Value (Whole 50))]"

definition d_gpu :: "(string \<times> initializer) list" where
  "d_gpu =
    [(''gpu_enabled'', Value (Flag False)), (''gpu_device_id'', Value (Whole 0)),
     (''gpu_memory_fraction'', Float_Literal ''0.5''), (''gpu_strategy'', Value (Gpu BACKGROUND)),
     (''unicode_tokenizer'', Value (Flag True)), (''vocab_build_size'', Value (Whole 0))]"

definition default_list :: "(string \<times> initializer) list" where
  "default_list =
     d_server @ d_architecture @ d_training @ d_max_length @ d_generation @ d_metrics_push @
     d_metrics_files @ d_sessions @ d_heartbeat @ d_metrics_api @ d_metrics_db @ d_registry @ d_ftp @
     d_outlier @ d_quality @ d_rag @ d_name_service @ d_trainer_admin @ d_world_model @ d_hippocampal @
     d_checkpoint @ d_gpu"

definition default_fields :: fields where
  "default_fields f = (case map_of default_list f of Some i \<Rightarrow> initial i | None \<Rightarrow> Text [])"

section \<open>Keys of a configuration file\<close>

definition f_server :: "(string \<times> string \<times> kind) list" where
  "f_server =
    [(''MODEL_PATH'', ''model_path'', K_Text), (''VOCAB_PATH'', ''vocab_path'', K_Text),
     (''DRAFT_MODEL_PATH'', ''draft_model_path'', K_Text),
     (''SPECULATIVE_NUM_CANDIDATES'', ''speculative_num_candidates'', K_Int), (''PORT'', ''port'', K_Int),
     (''SESSION_TIMEOUT'', ''session_timeout'', K_Int), (''MAX_SESSIONS'', ''max_sessions'', K_Int),
     (''MAX_BATCH_SIZE'', ''max_batch_size'', K_Int), (''LOG_LEVEL'', ''log_level'', (K_Choice kLogLevels)),
     (''LOG_FILE_PATH'', ''log_file_path'', K_Text), (''SESSION_DIR'', ''session_dir'', K_Text),
     (''LOG_MAX_SIZE_MB'', ''log_max_size_mb'', K_Size), (''LOG_MAX_FILES'', ''log_max_files'', K_Size),
     (''LOG_COMPRESS'', ''log_compress'', K_Bool)]"

definition f_architecture :: "(string \<times> string \<times> kind) list" where
  "f_architecture =
    [(''D_MODEL'', ''d_model'', K_Size), (''NUM_HEADS'', ''num_heads'', K_Size), (''D_FF'', ''d_ff'', K_Size),
     (''NUM_ENCODER_LAYERS'', ''num_encoder_layers'', K_Size),
     (''NUM_DECODER_LAYERS'', ''num_decoder_layers'', K_Size), (''MAX_SEQ_LENGTH'', ''max_seq_length'', K_Size)]"

definition f_training :: "(string \<times> string \<times> kind) list" where
  "f_training =
    [(''LEARNING_RATE'', ''learning_rate'', K_Float), (''NUM_EPOCHS'', ''num_epochs'', K_Int),
     (''WEIGHT_DECAY'', ''weight_decay'', K_Float), (''GRADIENT_CLIP'', ''gradient_clip'', K_Float),
     (''GRADIENT_CLIP_ADAPTIVE'', ''adaptive_gradient_clip'', K_Bool),
     (''GRADIENT_CLIP_MIN'', ''gradient_clip_min'', K_Float),
     (''GRADIENT_CLIP_MAX'', ''gradient_clip_max'', K_Float),
     (''GRADIENT_CLIP_EMA_DECAY'', ''gradient_clip_ema_decay'', K_Float),
     (''GRADIENT_CLIP_HEADROOM'', ''gradient_clip_headroom'', K_Float),
     (''GRADIENT_CLIP_WARMUP_STEPS'', ''gradient_clip_warmup_steps'', K_Int),
     (''GRADIENT_CLIP_SPIKE_K'', ''gradient_clip_spike_k'', K_Float), (''BATCH_SIZE'', ''batch_size'', K_Int),
     (''GRADIENT_ACCUMULATION_STEPS'', ''gradient_accumulation_steps'', K_Int)]"

definition f_length_alias :: "(string \<times> string \<times> kind) list" where
  "f_length_alias =
    [(''MAX_LENGTH'', ''max_gen_length'', K_Size)]"

definition f_max_length :: "(string \<times> string \<times> kind) list" where
  "f_max_length =
    [(''MAX_GEN_LENGTH'', ''max_gen_length'', K_Size)]"

definition f_generation :: "(string \<times> string \<times> kind) list" where
  "f_generation =
    [(''TEMPERATURE'', ''temperature'', K_Float), (''TOP_P'', ''top_p'', K_Float), (''TOP_K'', ''top_k'', K_Int),
     (''BEAM_WIDTH'', ''beam_width'', K_Int), (''STRATEGY'', ''strategy'', (K_Choice generation_strategy_names))]"

definition f_metrics_push :: "(string \<times> string \<times> kind) list" where
  "f_metrics_push =
    [(''ENABLE_METRICS_SERVICE'', ''enable_metrics_service'', K_Bool),
     (''METRICS_SERVER_URL'', ''metrics_server_url'', K_Text),
     (''METRICS_PUSH_TIMEOUT_MS'', ''metrics_push_timeout_ms'', K_Int),
     (''METRICS_SERVER_HEADERS'', ''metrics_server_headers'', K_Text),
     (''METRICS_SERVER_CA_FILE'', ''metrics_server_ca_file'', K_Text)]"

definition f_heartbeat :: "(string \<times> string \<times> kind) list" where
  "f_heartbeat =
    [(''METRICS_HEARTBEAT_INTERVAL_MS'', ''metrics_heartbeat_interval_ms'', K_Int)]"

definition f_metrics_files :: "(string \<times> string \<times> kind) list" where
  "f_metrics_files =
    [(''METRICS_ENABLE_PERSISTENCE'', ''metrics_enable_persistence'', K_Bool),
     (''METRICS_FILE'', ''metrics_file'', K_Text), (''METRICS_SUMMARY_FILE'', ''metrics_summary_file'', K_Text),
     (''METRICS_PERSIST_EVERY_SAMPLES'', ''metrics_persist_every_samples'', K_Int),
     (''METRICS_PERSIST_EVERY_SECONDS'', ''metrics_persist_every_seconds'', K_Int),
     (''METRICS_MAX_RECORDS_IN_MEMORY'', ''metrics_max_records_in_memory'', K_Int),
     (''METRICS_MAX_RECORDS_ON_DISK'', ''metrics_max_records_on_disk'', K_Int),
     (''METRICS_RETENTION_DAYS'', ''metrics_retention_days'', K_Int),
     (''METRICS_FILE_MAX_MB'', ''metrics_file_max_mb'', K_Int),
     (''METRICS_FILE_BACKUPS'', ''metrics_file_backups'', K_Int),
     (''METRICS_ENABLE_PROMETHEUS'', ''metrics_enable_prometheus'', K_Bool),
     (''METRICS_PROMETHEUS_FILE'', ''metrics_prometheus_file'', K_Text)]"

definition f_sessions :: "(string \<times> string \<times> kind) list" where
  "f_sessions =
    [(''METRICS_SESSION_KEY'', ''metrics_session_key'', K_Text),
     (''METRICS_SESSION_LABEL'', ''metrics_session_label'', K_Text),
     (''METRICS_MAX_LIVE_SESSIONS'', ''metrics_max_live_sessions'', K_Size),
     (''METRICS_COMPLETED_TTL_SECONDS'', ''metrics_completed_ttl_seconds'', K_Int),
     (''METRICS_SWEEP_INTERVAL_SECONDS'', ''metrics_sweep_interval_seconds'', K_Int),
     (''METRICS_STALENESS_THRESHOLD_SECONDS'', ''metrics_staleness_threshold_seconds'', K_Int)]"

definition f_metrics_api :: "(string \<times> string \<times> kind) list" where
  "f_metrics_api =
    [(''METRICS_API_PORT'', ''metrics_api_port'', K_Int),
     (''METRICS_API_ALLOW_CONTROL'', ''metrics_api_allow_control'', K_Bool),
     (''METRICS_API_CORS_ALLOWED_ORIGINS'', ''metrics_api_cors_allowed_origins'', K_Text)]"

definition f_metrics_db :: "(string \<times> string \<times> kind) list" where
  "f_metrics_db =
    [(''METRICS_STORAGE_BACKEND'', ''metrics_storage_backend'', (K_Choice metrics_storage_backend_names)),
     (''METRICS_DB_PATH'', ''metrics_db_path'', K_Text), (''METRICS_DB_URL'', ''metrics_db_url'', K_Text),
     (''METRICS_DB_POOL_SIZE'', ''metrics_db_pool_size'', K_Int)]"

definition f_quality :: "(string \<times> string \<times> kind) list" where
  "f_quality =
    [(''ENABLE_GENERATION_QUALITY_METRICS'', ''enable_generation_quality_metrics'', K_Bool),
     (''GENERATION_QUALITY_SAMPLE_SIZE'', ''generation_quality_sample_size'', K_Int),
     (''GENERATION_QUALITY_MAX_TOKENS'', ''generation_quality_max_tokens'', K_Int),
     (''GENERATION_QUALITY_ASYNC_THRESHOLD'', ''generation_quality_async_threshold'', K_Int),
     (''LOSS_QUALITY_BACKFILL'', ''loss_quality_backfill'', K_Bool),
     (''GENERATION_QUALITY_BACKFILL'', ''generation_quality_backfill'', K_Bool)]"

definition f_rag :: "(string \<times> string \<times> kind) list" where
  "f_rag =
    [(''ALLOW_UNTRAINED_MODEL'', ''allow_untrained_model'', K_Bool), (''RAG_ENABLED'', ''rag_enabled'', K_Bool),
     (''RAG_DOCS_PATH'', ''rag_docs_path'', K_Text), (''RAG_NUM_DOCS'', ''rag_num_docs'', K_Int),
     (''RAG_THRESHOLD'', ''rag_threshold'', K_Float),
     (''RAG_MAX_CONTEXT_LENGTH'', ''rag_max_context_length'', K_Int)]"

definition f_registry :: "(string \<times> string \<times> kind) list" where
  "f_registry =
    [(''REGISTRY_SERVER_URL'', ''registry_server_url'', K_Text), (''RUN_GROUP'', ''run_group'', K_Text),
     (''RUN_ID'', ''run_id'', K_Text), (''DATASET_KIND'', ''dataset_kind'', (K_Choice kDatasetKinds)),
     (''CACHE_TOKENIZED_DATA'', ''cache_tokenized_data'', K_Bool),
     (''TOKENIZED_CACHE_DIR'', ''tokenized_cache_dir'', K_Text),
     (''REGISTRY_TIMEOUT_MS'', ''registry_timeout_ms'', K_Int),
     (''REGISTRY_LISTEN_PORT'', ''registry_listen_port'', K_Int),
     (''REGISTRY_DATA_DIR'', ''registry_data_dir'', K_Text),
     (''REGISTRY_ADMIN_ENABLED'', ''registry_admin_enabled'', K_Bool),
     (''REGISTRY_CLAIM_LEASE_MINUTES'', ''registry_claim_lease_minutes'', K_Int),
     (''REGISTRY_MAX_UPLOAD_MB'', ''registry_max_upload_mb'', K_Int),
     (''REGISTRY_MAX_CONCURRENT_FETCHES'', ''registry_max_concurrent_fetches'', K_Int)]"

definition f_ftp :: "(string \<times> string \<times> kind) list" where
  "f_ftp =
    [(''FTP_SERVER_ENABLED'', ''ftp_server_enabled'', K_Bool),
     (''FTP_ADVERTISE_IP'', ''ftp_advertise_ip'', K_Text), (''FTP_SERVER_PORT'', ''ftp_server_port'', K_Int),
     (''FTP_PASV_PORT_MIN'', ''ftp_pasv_port_min'', K_Int), (''FTP_PASV_PORT_MAX'', ''ftp_pasv_port_max'', K_Int),
     (''FTP_TOKEN_TTL_MINUTES'', ''ftp_token_ttl_minutes'', K_Int),
     (''FTP_DATA_SERVER_SECRET'', ''ftp_data_server_secret'', K_Text),
     (''DOWNLOAD_DIR'', ''download_dir'', K_Text),
     (''MAX_PARALLEL_DOWNLOADS'', ''max_parallel_downloads'', K_Int),
     (''LARGE_FILE_WARN_THRESHOLD_MB'', ''large_file_warn_threshold_mb'', K_Int),
     (''FTPS_CA_FILE'', ''ftps_ca_file'', K_Text),
     (''FTPS_PINNED_PUBLIC_KEY'', ''ftps_pinned_public_key'', K_Text),
     (''FTP_MAX_SESSIONS_PER_RUN'', ''ftp_max_sessions_per_run'', K_Int),
     (''FTPS_ENABLED'', ''ftps_enabled'', K_Bool), (''FTP_CERT_FILE'', ''ftp_cert_file'', K_Text),
     (''FTP_KEY_FILE'', ''ftp_key_file'', K_Text)]"

definition f_name_service :: "(string \<times> string \<times> kind) list" where
  "f_name_service =
    [(''NAME_SERVICE_URL'', ''name_service_url'', K_Text),
     (''NAME_SERVICE_HEADERS'', ''name_service_headers'', K_Text),
     (''NAME_SERVICE_CA_FILE'', ''name_service_ca_file'', K_Text),
     (''NAME_SERVICE_PORT'', ''name_service_port'', K_Int), (''NAME_SERVICE_DIR'', ''name_service_dir'', K_Text),
     (''NAME_SERVICE_TIMEOUT_MS'', ''name_service_timeout_ms'', K_Int),
     (''MNS_ADMIN_ENABLED'', ''name_service_admin_enabled'', K_Bool), (''MODEL_NAME'', ''model_name'', K_Text),
     (''MODEL_ROLE'', ''model_role'', K_Text)]"

definition f_trainer_admin :: "(string \<times> string \<times> kind) list" where
  "f_trainer_admin =
    [(''TRAINER_ADMIN_ENABLED'', ''trainer_admin_enabled'', K_Bool),
     (''TRAINER_ADMIN_PORT'', ''trainer_admin_port'', K_Int),
     (''TRAINER_ADMIN_HOST'', ''trainer_admin_host'', K_Text),
     (''TRAINER_ADMIN_DIR'', ''trainer_admin_dir'', K_Text),
     (''TRAINER_CHILD_ADMIN_PORT'', ''trainer_child_admin_port'', K_Int)]"

definition f_world_model :: "(string \<times> string \<times> kind) list" where
  "f_world_model =
    [(''WORLD_MODEL_ENABLED'', ''world_model_enabled'', K_Bool),
     (''WORLD_MODEL_D_MODEL'', ''world_model_d_model'', K_Size),
     (''WORLD_MODEL_NUM_LAYERS'', ''world_model_num_layers'', K_Size),
     (''WORLD_MODEL_NUM_HEADS'', ''world_model_num_heads'', K_Size),
     (''WORLD_MODEL_D_FF'', ''world_model_d_ff'', K_Size),
     (''WORLD_MODEL_SIGREG_LAMBDA'', ''world_model_sigreg_lambda'', K_Float),
     (''WORLD_MODEL_SIGREG_NUM_SKETCHES'', ''world_model_sigreg_num_sketches'', K_Size),
     (''WORLD_MODEL_SIGREG_BATCH_SIZE'', ''world_model_sigreg_batch_size'', K_Size),
     (''WORLD_MODEL_INJECT_EVERY_N_LAYERS'', ''world_model_inject_every_n_layers'', K_Size),
     (''WORLD_MODEL_ARTIFACT_PATH'', ''world_model_artifact_path'', K_Text)]"

definition f_hippocampal :: "(string \<times> string \<times> kind) list" where
  "f_hippocampal =
    [(''HIPPOCAMPAL_MEMORY_ENABLED'', ''hippocampal_memory_enabled'', K_Bool),
     (''HIPPOCAMPAL_MEMORY_CAPACITY'', ''hippocampal_memory_capacity'', K_Size),
     (''HIPPOCAMPAL_STATE_PATH'', ''hippocampal_state_path'', K_Text),
     (''HIPPOCAMPAL_SAVE_INTERVAL_SECONDS'', ''hippocampal_save_interval_seconds'', K_Int),
     (''HIPPOCAMPAL_REPETITION_ALPHA'', ''hippocampal_repetition_alpha'', K_Float),
     (''HIPPOCAMPAL_REPETITION_DECAY'', ''hippocampal_repetition_decay'', K_Float),
     (''HIPPOCAMPAL_CROSS_REFERENCE_ALPHA'', ''hippocampal_cross_reference_alpha'', K_Float),
     (''HIPPOCAMPAL_ASSOCIATION_DECAY'', ''hippocampal_association_decay'', K_Float)]"

definition f_checkpoint :: "(string \<times> string \<times> kind) list" where
  "f_checkpoint =
    [(''AUTO_SAVE_ENABLED'', ''auto_save_enabled'', K_Bool),
     (''RESUME_FROM_BEST_CHECKPOINT'', ''resume_from_best_checkpoint'', K_Bool),
     (''AUTO_SAVE_EVERY_SAMPLES'', ''auto_save_every_samples'', K_Int),
     (''AUTO_SAVE_EVERY_MINUTES'', ''auto_save_every_minutes'', K_Int),
     (''MAX_SESSIONS_TO_KEEP'', ''max_sessions_to_keep'', K_Int)]"

definition f_gpu :: "(string \<times> string \<times> kind) list" where
  "f_gpu =
    [(''GPU_ENABLED'', ''gpu_enabled'', K_Bool), (''GPU_DEVICE_ID'', ''gpu_device_id'', K_Int),
     (''GPU_MEMORY_FRACTION'', ''gpu_memory_fraction'', K_Float), (''GPU_STRATEGY'', ''gpu_strategy'', K_Gpu),
     (''TOKENIZER_MODE'', ''unicode_tokenizer'', K_Tokenizer), (''VOCAB_BUILD_SIZE'', ''vocab_build_size'', K_Int)]"

definition file_keys :: "(string \<times> string \<times> kind) list" where
  "file_keys =
     f_server @ f_architecture @ f_training @ f_length_alias @ f_max_length @ f_generation @
     f_metrics_push @ f_heartbeat @ f_metrics_files @ f_sessions @ f_metrics_api @ f_metrics_db @
     f_quality @ f_rag @ f_registry @ f_ftp @ f_name_service @ f_trainer_admin @ f_world_model @
     f_hippocampal @ f_checkpoint @ f_gpu"

section \<open>Environment variables\<close>

definition e_server :: "(string \<times> string \<times> kind) list" where
  "e_server =
    [(''MODEL_PATH'', ''model_path'', K_Text), (''VOCAB_PATH'', ''vocab_path'', K_Text),
     (''DRAFT_MODEL_PATH'', ''draft_model_path'', K_Text),
     (''SPECULATIVE_NUM_CANDIDATES'', ''speculative_num_candidates'', K_Int), (''PORT'', ''port'', K_Int),
     (''SESSION_TIMEOUT'', ''session_timeout'', K_Int), (''MAX_SESSIONS'', ''max_sessions'', K_Int),
     (''MAX_BATCH_SIZE'', ''max_batch_size'', K_Int), (''LOG_LEVEL'', ''log_level'', (K_Choice kLogLevels)),
     (''LOG_FILE_PATH'', ''log_file_path'', K_Text), (''SESSION_DIR'', ''session_dir'', K_Text),
     (''LOG_MAX_SIZE_MB'', ''log_max_size_mb'', K_Size), (''LOG_MAX_FILES'', ''log_max_files'', K_Size),
     (''LOG_COMPRESS'', ''log_compress'', K_Bool)]"

definition e_architecture :: "(string \<times> string \<times> kind) list" where
  "e_architecture =
    [(''D_MODEL'', ''d_model'', K_Size), (''NUM_HEADS'', ''num_heads'', K_Size), (''D_FF'', ''d_ff'', K_Size),
     (''NUM_ENCODER_LAYERS'', ''num_encoder_layers'', K_Size),
     (''NUM_DECODER_LAYERS'', ''num_decoder_layers'', K_Size), (''MAX_SEQ_LENGTH'', ''max_seq_length'', K_Size)]"

definition e_training :: "(string \<times> string \<times> kind) list" where
  "e_training =
    [(''LEARNING_RATE'', ''learning_rate'', K_Float), (''NUM_EPOCHS'', ''num_epochs'', K_Int),
     (''WEIGHT_DECAY'', ''weight_decay'', K_Float), (''GRADIENT_CLIP'', ''gradient_clip'', K_Float),
     (''GRADIENT_CLIP_ADAPTIVE'', ''adaptive_gradient_clip'', K_Bool),
     (''GRADIENT_CLIP_MIN'', ''gradient_clip_min'', K_Float),
     (''GRADIENT_CLIP_MAX'', ''gradient_clip_max'', K_Float),
     (''GRADIENT_CLIP_EMA_DECAY'', ''gradient_clip_ema_decay'', K_Float),
     (''GRADIENT_CLIP_HEADROOM'', ''gradient_clip_headroom'', K_Float),
     (''GRADIENT_CLIP_WARMUP_STEPS'', ''gradient_clip_warmup_steps'', K_Int),
     (''GRADIENT_CLIP_SPIKE_K'', ''gradient_clip_spike_k'', K_Float), (''BATCH_SIZE'', ''batch_size'', K_Int),
     (''GRADIENT_ACCUMULATION_STEPS'', ''gradient_accumulation_steps'', K_Int)]"

definition e_max_length :: "(string \<times> string \<times> kind) list" where
  "e_max_length =
    [(''MAX_GEN_LENGTH'', ''max_gen_length'', K_Size)]"

definition e_length_alias :: "(string \<times> string \<times> kind) list" where
  "e_length_alias =
    [(''MAX_LENGTH'', ''max_gen_length'', K_Size)]"

definition e_generation :: "(string \<times> string \<times> kind) list" where
  "e_generation =
    [(''TEMPERATURE'', ''temperature'', K_Float), (''TOP_P'', ''top_p'', K_Float), (''TOP_K'', ''top_k'', K_Int),
     (''BEAM_WIDTH'', ''beam_width'', K_Int), (''STRATEGY'', ''strategy'', (K_Choice generation_strategy_names))]"

definition e_metrics_push :: "(string \<times> string \<times> kind) list" where
  "e_metrics_push =
    [(''ENABLE_METRICS_SERVICE'', ''enable_metrics_service'', K_Bool),
     (''METRICS_SERVER_URL'', ''metrics_server_url'', K_Text),
     (''METRICS_PUSH_TIMEOUT_MS'', ''metrics_push_timeout_ms'', K_Int),
     (''METRICS_SERVER_HEADERS'', ''metrics_server_headers'', K_Text),
     (''METRICS_SERVER_CA_FILE'', ''metrics_server_ca_file'', K_Text)]"

definition e_heartbeat :: "(string \<times> string \<times> kind) list" where
  "e_heartbeat =
    [(''METRICS_HEARTBEAT_INTERVAL_MS'', ''metrics_heartbeat_interval_ms'', K_Int)]"

definition e_metrics_files :: "(string \<times> string \<times> kind) list" where
  "e_metrics_files =
    [(''METRICS_ENABLE_PERSISTENCE'', ''metrics_enable_persistence'', K_Bool),
     (''METRICS_FILE'', ''metrics_file'', K_Text), (''METRICS_SUMMARY_FILE'', ''metrics_summary_file'', K_Text),
     (''METRICS_PERSIST_EVERY_SAMPLES'', ''metrics_persist_every_samples'', K_Int),
     (''METRICS_PERSIST_EVERY_SECONDS'', ''metrics_persist_every_seconds'', K_Int),
     (''METRICS_MAX_RECORDS_IN_MEMORY'', ''metrics_max_records_in_memory'', K_Int),
     (''METRICS_MAX_RECORDS_ON_DISK'', ''metrics_max_records_on_disk'', K_Int),
     (''METRICS_RETENTION_DAYS'', ''metrics_retention_days'', K_Int),
     (''METRICS_FILE_MAX_MB'', ''metrics_file_max_mb'', K_Int),
     (''METRICS_FILE_BACKUPS'', ''metrics_file_backups'', K_Int),
     (''METRICS_ENABLE_PROMETHEUS'', ''metrics_enable_prometheus'', K_Bool),
     (''METRICS_PROMETHEUS_FILE'', ''metrics_prometheus_file'', K_Text)]"

definition e_metrics_api :: "(string \<times> string \<times> kind) list" where
  "e_metrics_api =
    [(''METRICS_API_PORT'', ''metrics_api_port'', K_Int),
     (''METRICS_API_ALLOW_CONTROL'', ''metrics_api_allow_control'', K_Bool),
     (''METRICS_API_CORS_ALLOWED_ORIGINS'', ''metrics_api_cors_allowed_origins'', K_Text)]"

definition e_quality :: "(string \<times> string \<times> kind) list" where
  "e_quality =
    [(''ENABLE_GENERATION_QUALITY_METRICS'', ''enable_generation_quality_metrics'', K_Bool),
     (''GENERATION_QUALITY_SAMPLE_SIZE'', ''generation_quality_sample_size'', K_Int),
     (''GENERATION_QUALITY_MAX_TOKENS'', ''generation_quality_max_tokens'', K_Int),
     (''GENERATION_QUALITY_ASYNC_THRESHOLD'', ''generation_quality_async_threshold'', K_Int),
     (''LOSS_QUALITY_BACKFILL'', ''loss_quality_backfill'', K_Bool),
     (''GENERATION_QUALITY_BACKFILL'', ''generation_quality_backfill'', K_Bool)]"

definition e_sessions :: "(string \<times> string \<times> kind) list" where
  "e_sessions =
    [(''METRICS_SESSION_KEY'', ''metrics_session_key'', K_Text),
     (''METRICS_SESSION_LABEL'', ''metrics_session_label'', K_Text),
     (''METRICS_MAX_LIVE_SESSIONS'', ''metrics_max_live_sessions'', K_Size),
     (''METRICS_COMPLETED_TTL_SECONDS'', ''metrics_completed_ttl_seconds'', K_Int),
     (''METRICS_SWEEP_INTERVAL_SECONDS'', ''metrics_sweep_interval_seconds'', K_Int),
     (''METRICS_STALENESS_THRESHOLD_SECONDS'', ''metrics_staleness_threshold_seconds'', K_Int)]"

definition e_metrics_db :: "(string \<times> string \<times> kind) list" where
  "e_metrics_db =
    [(''METRICS_STORAGE_BACKEND'', ''metrics_storage_backend'', (K_Choice metrics_storage_backend_names)),
     (''METRICS_DB_PATH'', ''metrics_db_path'', K_Text), (''METRICS_DB_URL'', ''metrics_db_url'', K_Text),
     (''METRICS_DB_POOL_SIZE'', ''metrics_db_pool_size'', K_Int)]"

definition e_rag :: "(string \<times> string \<times> kind) list" where
  "e_rag =
    [(''ALLOW_UNTRAINED_MODEL'', ''allow_untrained_model'', K_Bool), (''RAG_ENABLED'', ''rag_enabled'', K_Bool),
     (''RAG_DOCS_PATH'', ''rag_docs_path'', K_Text), (''RAG_NUM_DOCS'', ''rag_num_docs'', K_Int),
     (''RAG_THRESHOLD'', ''rag_threshold'', K_Float),
     (''RAG_MAX_CONTEXT_LENGTH'', ''rag_max_context_length'', K_Int)]"

definition e_gpu :: "(string \<times> string \<times> kind) list" where
  "e_gpu =
    [(''GPU_ENABLED'', ''gpu_enabled'', K_Bool), (''GPU_DEVICE_ID'', ''gpu_device_id'', K_Int),
     (''GPU_MEMORY_FRACTION'', ''gpu_memory_fraction'', K_Float), (''GPU_STRATEGY'', ''gpu_strategy'', K_Gpu),
     (''TOKENIZER_MODE'', ''unicode_tokenizer'', K_Tokenizer), (''VOCAB_BUILD_SIZE'', ''vocab_build_size'', K_Int)]"

definition e_registry :: "(string \<times> string \<times> kind) list" where
  "e_registry =
    [(''REGISTRY_SERVER_URL'', ''registry_server_url'', K_Text), (''RUN_GROUP'', ''run_group'', K_Text),
     (''RUN_ID'', ''run_id'', K_Text), (''DATASET_KIND'', ''dataset_kind'', (K_Choice kDatasetKinds)),
     (''CACHE_TOKENIZED_DATA'', ''cache_tokenized_data'', K_Bool),
     (''TOKENIZED_CACHE_DIR'', ''tokenized_cache_dir'', K_Text),
     (''REGISTRY_TIMEOUT_MS'', ''registry_timeout_ms'', K_Int),
     (''REGISTRY_LISTEN_PORT'', ''registry_listen_port'', K_Int),
     (''REGISTRY_DATA_DIR'', ''registry_data_dir'', K_Text),
     (''REGISTRY_ADMIN_ENABLED'', ''registry_admin_enabled'', K_Bool),
     (''REGISTRY_CLAIM_LEASE_MINUTES'', ''registry_claim_lease_minutes'', K_Int),
     (''REGISTRY_MAX_UPLOAD_MB'', ''registry_max_upload_mb'', K_Int),
     (''REGISTRY_MAX_CONCURRENT_FETCHES'', ''registry_max_concurrent_fetches'', K_Int)]"

definition e_ftp :: "(string \<times> string \<times> kind) list" where
  "e_ftp =
    [(''FTP_SERVER_ENABLED'', ''ftp_server_enabled'', K_Bool),
     (''FTP_ADVERTISE_IP'', ''ftp_advertise_ip'', K_Text), (''FTP_SERVER_PORT'', ''ftp_server_port'', K_Int),
     (''FTP_PASV_PORT_MIN'', ''ftp_pasv_port_min'', K_Int), (''FTP_PASV_PORT_MAX'', ''ftp_pasv_port_max'', K_Int),
     (''FTP_TOKEN_TTL_MINUTES'', ''ftp_token_ttl_minutes'', K_Int),
     (''FTP_DATA_SERVER_SECRET'', ''ftp_data_server_secret'', K_Text),
     (''DOWNLOAD_DIR'', ''download_dir'', K_Text),
     (''MAX_PARALLEL_DOWNLOADS'', ''max_parallel_downloads'', K_Int),
     (''LARGE_FILE_WARN_THRESHOLD_MB'', ''large_file_warn_threshold_mb'', K_Int),
     (''FTPS_CA_FILE'', ''ftps_ca_file'', K_Text),
     (''FTPS_PINNED_PUBLIC_KEY'', ''ftps_pinned_public_key'', K_Text),
     (''FTP_MAX_SESSIONS_PER_RUN'', ''ftp_max_sessions_per_run'', K_Int),
     (''FTPS_ENABLED'', ''ftps_enabled'', K_Bool), (''FTP_CERT_FILE'', ''ftp_cert_file'', K_Text),
     (''FTP_KEY_FILE'', ''ftp_key_file'', K_Text)]"

definition e_name_service :: "(string \<times> string \<times> kind) list" where
  "e_name_service =
    [(''NAME_SERVICE_URL'', ''name_service_url'', K_Text),
     (''NAME_SERVICE_HEADERS'', ''name_service_headers'', K_Text),
     (''NAME_SERVICE_CA_FILE'', ''name_service_ca_file'', K_Text),
     (''NAME_SERVICE_PORT'', ''name_service_port'', K_Int), (''NAME_SERVICE_DIR'', ''name_service_dir'', K_Text),
     (''NAME_SERVICE_TIMEOUT_MS'', ''name_service_timeout_ms'', K_Int),
     (''MNS_ADMIN_ENABLED'', ''name_service_admin_enabled'', K_Bool), (''MODEL_NAME'', ''model_name'', K_Text),
     (''MODEL_ROLE'', ''model_role'', K_Text)]"

definition e_trainer_admin :: "(string \<times> string \<times> kind) list" where
  "e_trainer_admin =
    [(''TRAINER_ADMIN_ENABLED'', ''trainer_admin_enabled'', K_Bool),
     (''TRAINER_ADMIN_PORT'', ''trainer_admin_port'', K_Int),
     (''TRAINER_ADMIN_HOST'', ''trainer_admin_host'', K_Text),
     (''TRAINER_ADMIN_DIR'', ''trainer_admin_dir'', K_Text),
     (''TRAINER_CHILD_ADMIN_PORT'', ''trainer_child_admin_port'', K_Int)]"

definition e_world_model :: "(string \<times> string \<times> kind) list" where
  "e_world_model =
    [(''WORLD_MODEL_ENABLED'', ''world_model_enabled'', K_Bool),
     (''WORLD_MODEL_D_MODEL'', ''world_model_d_model'', K_Size),
     (''WORLD_MODEL_NUM_LAYERS'', ''world_model_num_layers'', K_Size),
     (''WORLD_MODEL_NUM_HEADS'', ''world_model_num_heads'', K_Size),
     (''WORLD_MODEL_D_FF'', ''world_model_d_ff'', K_Size),
     (''WORLD_MODEL_SIGREG_LAMBDA'', ''world_model_sigreg_lambda'', K_Float),
     (''WORLD_MODEL_SIGREG_NUM_SKETCHES'', ''world_model_sigreg_num_sketches'', K_Size),
     (''WORLD_MODEL_SIGREG_BATCH_SIZE'', ''world_model_sigreg_batch_size'', K_Size),
     (''WORLD_MODEL_INJECT_EVERY_N_LAYERS'', ''world_model_inject_every_n_layers'', K_Size),
     (''WORLD_MODEL_ARTIFACT_PATH'', ''world_model_artifact_path'', K_Text)]"

definition e_hippocampal :: "(string \<times> string \<times> kind) list" where
  "e_hippocampal =
    [(''HIPPOCAMPAL_MEMORY_ENABLED'', ''hippocampal_memory_enabled'', K_Bool),
     (''HIPPOCAMPAL_MEMORY_CAPACITY'', ''hippocampal_memory_capacity'', K_Size),
     (''HIPPOCAMPAL_STATE_PATH'', ''hippocampal_state_path'', K_Text),
     (''HIPPOCAMPAL_SAVE_INTERVAL_SECONDS'', ''hippocampal_save_interval_seconds'', K_Int),
     (''HIPPOCAMPAL_REPETITION_ALPHA'', ''hippocampal_repetition_alpha'', K_Float),
     (''HIPPOCAMPAL_REPETITION_DECAY'', ''hippocampal_repetition_decay'', K_Float),
     (''HIPPOCAMPAL_CROSS_REFERENCE_ALPHA'', ''hippocampal_cross_reference_alpha'', K_Float),
     (''HIPPOCAMPAL_ASSOCIATION_DECAY'', ''hippocampal_association_decay'', K_Float)]"

definition e_checkpoint :: "(string \<times> string \<times> kind) list" where
  "e_checkpoint =
    [(''AUTO_SAVE_ENABLED'', ''auto_save_enabled'', K_Bool),
     (''RESUME_FROM_BEST_CHECKPOINT'', ''resume_from_best_checkpoint'', K_Bool),
     (''AUTO_SAVE_EVERY_SAMPLES'', ''auto_save_every_samples'', K_Int),
     (''AUTO_SAVE_EVERY_MINUTES'', ''auto_save_every_minutes'', K_Int),
     (''MAX_SESSIONS_TO_KEEP'', ''max_sessions_to_keep'', K_Int)]"

definition env_keys :: "(string \<times> string \<times> kind) list" where
  "env_keys =
     e_server @ e_architecture @ e_training @ e_max_length @ e_length_alias @ e_generation @
     e_metrics_push @ e_heartbeat @ e_metrics_files @ e_metrics_api @ e_quality @ e_sessions @
     e_metrics_db @ e_rag @ e_gpu @ e_registry @ e_ftp @ e_name_service @ e_trainer_admin @
     e_world_model @ e_hippocampal @ e_checkpoint"

text \<open>The groups of the tables, under one name each.\<close>

lemmas file_groups = f_server_def f_architecture_def f_training_def f_length_alias_def f_max_length_def f_generation_def f_metrics_push_def f_heartbeat_def f_metrics_files_def f_sessions_def f_metrics_api_def f_metrics_db_def f_quality_def f_rag_def f_registry_def f_ftp_def f_name_service_def f_trainer_admin_def f_world_model_def f_hippocampal_def f_checkpoint_def f_gpu_def

lemmas env_groups = e_server_def e_architecture_def e_training_def e_max_length_def e_length_alias_def e_generation_def e_metrics_push_def e_heartbeat_def e_metrics_files_def e_metrics_api_def e_quality_def e_sessions_def e_metrics_db_def e_rag_def e_gpu_def e_registry_def e_ftp_def e_name_service_def e_trainer_admin_def e_world_model_def e_hippocampal_def e_checkpoint_def

lemmas default_groups = d_server_def d_architecture_def d_training_def d_max_length_def d_generation_def d_metrics_push_def d_metrics_files_def d_sessions_def d_heartbeat_def d_metrics_api_def d_metrics_db_def d_registry_def d_ftp_def d_outlier_def d_quality_def d_rag_def d_name_service_def d_trainer_admin_def d_world_model_def d_hippocampal_def d_checkpoint_def d_gpu_def

end
