(* ===== verification/Table_Check.thy ===== *)
theory Table_Check
  imports Main "HOL-Library.Multiset"
begin

text \<open>
  Checking by evaluation that the keys of a large table are distinct: a merge sort of numbers computed from
  the strings needs a few comparisons of small numbers per key.
\<close>

text \<open>A number for a string; equal numbers of different strings would only make a check fail.\<close>

definition char_number :: "char \<Rightarrow> int" where
  "char_number c = of_bool (digit0 c) + 2 * (of_bool (digit1 c) + 2 * (of_bool (digit2 c) +
     2 * (of_bool (digit3 c) + 2 * of_bool (digit4 c))))"

primrec string_sums :: "string \<Rightarrow> int \<Rightarrow> int \<Rightarrow> int" where
  "string_sums [] s1 s2 = s1 + s2"
| "string_sums (c # s) s1 s2 = (let s1 = s1 + char_number c in string_sums s s1 (s2 + s1))"

definition string_number :: "string \<Rightarrow> int" where
  "string_number s = string_sums s 0 0"

fun merge_ints :: "int list \<Rightarrow> int list \<Rightarrow> int list" where
  "merge_ints (x # xs) (y # ys) = (if x \<le> y then x # merge_ints xs (y # ys) else y # merge_ints (x # xs) ys)"
| "merge_ints [] ys = ys"
| "merge_ints xs [] = xs"

fun merge_pairs :: "int list list \<Rightarrow> int list list" where
  "merge_pairs (xs # ys # zs) = merge_ints xs ys # merge_pairs zs"
| "merge_pairs xs = xs"

primrec merge_rounds :: "nat \<Rightarrow> int list list \<Rightarrow> int list list" where
  "merge_rounds 0 xs = xs"
| "merge_rounds (Suc n) xs = merge_rounds n (merge_pairs xs)"

text \<open>Eight rounds join up to 256 runs.\<close>

definition sorted_numbers :: "string list \<Rightarrow> int list" where
  "sorted_numbers xs = concat (merge_rounds 8 (map (\<lambda>x. [string_number x]) xs))"

fun increasing :: "int list \<Rightarrow> bool" where
  "increasing (x # y # zs) \<longleftrightarrow> x < y \<and> increasing (y # zs)"
| "increasing _ \<longleftrightarrow> True"

lemma mset_merge_ints: "mset (merge_ints xs ys) = mset xs + mset ys"
  by (induction xs ys rule: merge_ints.induct) auto

lemma mset_merge_pairs: "mset (concat (merge_pairs xs)) = mset (concat xs)"
  by (induction xs rule: merge_pairs.induct) (simp_all add: mset_merge_ints)

lemma mset_merge_rounds: "mset (concat (merge_rounds n xs)) = mset (concat xs)"
  by (induction n arbitrary: xs) (simp_all only: merge_rounds.simps mset_merge_pairs)

lemma mset_sorted_numbers: "mset (sorted_numbers xs) = mset (map string_number xs)"
  unfolding sorted_numbers_def mset_merge_rounds by (induction xs) simp_all

lemma increasing_distinct: "increasing xs \<Longrightarrow> distinct xs"
proof -
  have "increasing xs \<Longrightarrow> sorted_wrt (<) xs"
  proof (induction xs rule: increasing.induct)
    case (1 x y zs)
    then show ?case by fastforce
  qed auto
  then show "increasing xs \<Longrightarrow> distinct xs" by (simp add: strict_sorted_iff)
qed

lemma distinct_by_sorting:
  assumes "increasing (sorted_numbers xs)"
  shows "distinct xs"
proof -
  have "distinct (map string_number xs)"
    using increasing_distinct [OF assms] mset_sorted_numbers by (metis mset_eq_imp_distinct_iff)
  then show ?thesis by (simp add: distinct_map)
qed

end
