(* ===== verification/Config_Load.thy ===== *)
theory Config_Load
  imports Config_Keys Table_Check "HOL-Library.AList"
begin

text \<open>
  Loading a configuration (\<open>src/src/Config.cpp\<close>): \<open>load_from_file\<close>, \<open>load_from_env\<close>, \<open>load\<close> and
  \<open>discover_config_path\<close>. The environment and the files are maps; warnings are collected in order, without
  the exception's text.
\<close>

record ServiceConfig =
  c_fields :: fields
  c_file :: "(string \<times> string) list"    \<comment> \<open>\<open>file_values\<close>\<close>

definition default_config :: ServiceConfig where
  "default_config = \<lparr>c_fields = default_fields, c_file = []\<rparr>"

definition set_field :: "string \<Rightarrow> setting \<Rightarrow> ServiceConfig \<Rightarrow> ServiceConfig" where
  "set_field f s c = c\<lparr>c_fields := (c_fields c)(f := s)\<rparr>"

datatype config_warning = Invalid_Line nat string | Unknown_Key string | Invalid_Value string string
  | File_Not_Found string

section \<open>The file\<close>

definition apply_setting :: "string \<Rightarrow> string \<Rightarrow> ServiceConfig \<Rightarrow> ServiceConfig \<times> config_warning list" where
  "apply_setting key value c =
     (let c = c\<lparr>c_file := AList.update key value (c_file c)\<rparr> in
      case map_of file_keys key of
        Some (field, kind) \<Rightarrow>
          (case parse_setting kind key value of
             Some s \<Rightarrow> (set_field field s c, [])
           | None \<Rightarrow> (c, [Invalid_Value key value]))
      | None \<Rightarrow> (c, if key \<in> set kReservedKeys then [] else [Unknown_Key key]))"

definition config_file_line ::
  "nat \<Rightarrow> string \<Rightarrow> ServiceConfig \<times> config_warning list \<Rightarrow> ServiceConfig \<times> config_warning list" where
  "config_file_line line_number raw x =
     (case config_line raw of
        Skipped \<Rightarrow> x
      | Invalid line \<Rightarrow> (fst x, snd x @ [Invalid_Line line_number line])
      | Setting key value \<Rightarrow> apsnd ((@) (snd x)) (apply_setting key value (fst x)))"

primrec config_file_lines ::
  "nat \<Rightarrow> string list \<Rightarrow> ServiceConfig \<times> config_warning list \<Rightarrow> ServiceConfig \<times> config_warning list" where
  "config_file_lines line_number [] x = x"
| "config_file_lines line_number (l # ls) x = config_file_lines (line_number + 1) ls (config_file_line (line_number + 1) l x)"

type_synonym files = "string \<rightharpoonup> string"
type_synonym environment = "string \<rightharpoonup> string"

definition load_from_file :: "files \<Rightarrow> string \<Rightarrow> ServiceConfig \<Rightarrow> ServiceConfig \<times> config_warning list" where
  "load_from_file fs file_path c =
     (case fs file_path of
        None \<Rightarrow> (c, [File_Not_Found file_path])
      | Some content \<Rightarrow> config_file_lines 0 (getlines content) (c, []))"

section \<open>The environment\<close>

definition get_env :: "environment \<Rightarrow> string \<Rightarrow> string option" where
  "get_env env var_name =
     (case env var_name of None \<Rightarrow> None | Some v \<Rightarrow> if v = [] then None else Some v)"

text \<open>\<open>get_env_int\<close>, \<open>get_env_size_t\<close>, \<open>get_env_float\<close>, \<open>get_env_bool\<close>, \<open>env_choice\<close> and \<open>get_env\<close> in one.\<close>

definition env_value :: "environment \<Rightarrow> string \<Rightarrow> kind \<Rightarrow> setting option" where
  "env_value env key kind = (case get_env env key of None \<Rightarrow> None | Some v \<Rightarrow> parse_setting kind key v)"

definition env_step :: "environment \<Rightarrow> ServiceConfig \<Rightarrow> string \<times> string \<times> kind \<Rightarrow> ServiceConfig" where
  "env_step env c e =
     (case e of (key, field, kind) \<Rightarrow>
        case env_value env key kind of None \<Rightarrow> c | Some s \<Rightarrow> set_field field s c)"

definition load_from_env :: "environment \<Rightarrow> ServiceConfig \<Rightarrow> ServiceConfig" where
  "load_from_env env c = foldl (env_step env) c env_keys"

definition load_config :: "files \<Rightarrow> environment \<Rightarrow> string \<Rightarrow> ServiceConfig" where
  "load_config fs env config_file_path = load_from_env env (fst (load_from_file fs config_file_path default_config))"

definition load_default :: "files \<Rightarrow> environment \<Rightarrow> ServiceConfig" where
  "load_default fs env = load_config fs env ''/etc/adai/config.conf''"

definition discover_config_path :: "files \<Rightarrow> string \<Rightarrow> string \<Rightarrow> string" where
  "discover_config_path fs explicit_path service_filename =
     (if explicit_path \<noteq> [] then explicit_path
      else if fs service_filename \<noteq> None then service_filename
      else if fs (''/etc/adai/'' @ service_filename) \<noteq> None then ''/etc/adai/'' @ service_filename
      else if fs ''config.conf'' \<noteq> None then ''config.conf''
      else ''/etc/adai/config.conf'')"

section \<open>What a field ends up with\<close>

definition line_setting :: "string \<Rightarrow> string \<Rightarrow> setting option" where
  "line_setting f raw =
     (case config_line raw of
        Setting key value \<Rightarrow>
          (case map_of file_keys key of
             Some (field, kind) \<Rightarrow> if field = f then parse_setting kind key value else None
           | None \<Rightarrow> None)
      | _ \<Rightarrow> None)"

definition file_settings :: "files \<Rightarrow> string \<Rightarrow> string \<Rightarrow> setting list" where
  "file_settings fs path f =
     (case fs path of None \<Rightarrow> [] | Some content \<Rightarrow> List.map_filter (line_setting f) (getlines content))"

definition env_settings :: "environment \<Rightarrow> string \<Rightarrow> setting list" where
  "env_settings env f = List.map_filter (\<lambda>(key, field, kind). if field = f then env_value env key kind else None) env_keys"

lemma map_filter_Cons: "List.map_filter g (x # xs) = (case g x of None \<Rightarrow> List.map_filter g xs | Some y \<Rightarrow> y # List.map_filter g xs)"
  by (simp add: List.map_filter_def split: option.split)

lemma config_file_line_field:
  "c_fields (fst (config_file_line n raw x)) f = (case line_setting f raw of None \<Rightarrow> c_fields (fst x) f | Some s \<Rightarrow> s)"
  by (auto simp: config_file_line_def line_setting_def apply_setting_def set_field_def Let_def
      split: config_line.split option.split)

lemma config_file_lines_field:
  "c_fields (fst (config_file_lines n ls x)) f = List.last (c_fields (fst x) f # List.map_filter (line_setting f) ls)"
proof (induction ls arbitrary: n x)
  case (Cons l ls)
  show ?case
    by (simp only: config_file_lines.simps Cons.IH config_file_line_field map_filter_Cons split: option.split) simp
qed simp

lemma load_from_file_field:
  "c_fields (fst (load_from_file fs path c)) f = List.last (c_fields c f # file_settings fs path f)"
  by (simp add: load_from_file_def file_settings_def config_file_lines_field split: option.split)

lemma env_steps_field:
  "c_fields (foldl (env_step env) c es) f =
   List.last (c_fields c f # List.map_filter (\<lambda>(key, field, kind). if field = f then env_value env key kind else None) es)"
proof (induction es arbitrary: c)
  case (Cons e es)
  show ?case
    by (simp only: foldl.simps Cons.IH map_filter_Cons) (simp add: env_step_def set_field_def split: prod.split option.split)
qed simp

lemma load_from_env_field:
  "c_fields (load_from_env env c) f = List.last (c_fields c f # env_settings env f)"
  by (simp only: load_from_env_def env_steps_field env_settings_def)

lemma last_last: "List.last (List.last (a # xs) # ys) = List.last (a # xs @ ys)"
  by (cases ys) simp_all

lemma load_config_field:
  "c_fields (load_config fs env path) f =
   List.last (default_fields f # file_settings fs path f @ env_settings env f)"
  by (simp only: load_config_def load_from_env_field load_from_file_field last_last default_config_def ServiceConfig.simps)

end
