(* ===== verification/Config_Tables.thy ===== *)
theory Config_Tables
  imports Config_Load
begin

text \<open>
  The two tables of \<open>src/src/Config.cpp\<close> agree: file and environment know the same keys with the same fields
  and parsers, every branch of the if-chain can be reached, and every parser yields the type its field has.
\<close>

section \<open>Keys\<close>

lemma file_keys_sorted: "increasing (sorted_numbers (map fst file_keys))"
  by code_simp

lemma file_keys_distinct: "distinct (map fst file_keys)"
  by (rule distinct_by_sorting [OF file_keys_sorted])

text \<open>Group by group the tables are the same.\<close>

lemma same_groups:
  "e_server = f_server" "e_architecture = f_architecture" "e_training = f_training" "e_max_length = f_max_length"
  "e_length_alias = f_length_alias" "e_generation = f_generation" "e_metrics_push = f_metrics_push"
  "e_heartbeat = f_heartbeat" "e_metrics_files = f_metrics_files" "e_metrics_api = f_metrics_api"
  "e_quality = f_quality" "e_sessions = f_sessions" "e_metrics_db = f_metrics_db" "e_rag = f_rag" "e_gpu = f_gpu"
  "e_registry = f_registry" "e_ftp = f_ftp" "e_name_service = f_name_service" "e_trainer_admin = f_trainer_admin"
  "e_world_model = f_world_model" "e_hippocampal = f_hippocampal" "e_checkpoint = f_checkpoint"
  by (simp_all only: file_groups env_groups)

lemma tables_agree: "set file_keys = set env_keys"
  unfolding file_keys_def env_keys_def same_groups set_append by blast

text \<open>Only \<open>MAX_LENGTH\<close> and \<open>MAX_GEN_LENGTH\<close> set the same field.\<close>

definition single_keys :: "(string \<times> string \<times> kind) list" where
  "single_keys = filter (\<lambda>e. fst e \<noteq> ''MAX_LENGTH'') env_keys"

lemma single_keys_sorted: "increasing (sorted_numbers (map (\<lambda>e. fst (snd e)) single_keys))"
  by code_simp

lemma single_keys_distinct: "distinct (map (\<lambda>e. fst (snd e)) single_keys)"
  by (rule distinct_by_sorting [OF single_keys_sorted])

section \<open>Types\<close>

fun same_type :: "setting \<Rightarrow> setting \<Rightarrow> bool" where
  "same_type (Text _) (Text _) = True"
| "same_type (Whole _) (Whole _) = True"
| "same_type (Size _) (Size _) = True"
| "same_type (Real _) (Real _) = True"
| "same_type (Flag _) (Flag _) = True"
| "same_type (Gpu _) (Gpu _) = True"
| "same_type _ _ = False"

fun kind_fits :: "kind \<Rightarrow> setting \<Rightarrow> bool" where
  "kind_fits K_Text s = same_type (Text []) s"
| "kind_fits K_Int s = same_type (Whole 0) s"
| "kind_fits K_Size s = same_type (Size 0) s"
| "kind_fits K_Float s = same_type (Real (F32 False 0)) s"
| "kind_fits K_Bool s = same_type (Flag True) s"
| "kind_fits (K_Choice _) s = same_type (Text []) s"
| "kind_fits K_Gpu s = same_type (Gpu FULL) s"
| "kind_fits K_Tokenizer s = same_type (Flag True) s"

fun init_fits :: "kind \<Rightarrow> initializer \<Rightarrow> bool" where
  "init_fits kind (Value s) = kind_fits kind s"
| "init_fits kind (Float_Literal _) = kind_fits kind (Real (F32 False 0))"

lemma init_fits_initial: "init_fits kind i \<Longrightarrow> kind_fits kind (initial i)"
  by (cases i; cases kind) auto

text \<open>A group of keys against the group of fields it sets, in the same order.\<close>

definition group_fits :: "(string \<times> string \<times> kind) list \<Rightarrow> (string \<times> initializer) list \<Rightarrow> bool" where
  "group_fits ks ds \<longleftrightarrow> list_all2 (\<lambda>k d. fst (snd k) = fst d \<and> init_fits (snd (snd k)) (snd d)) ks ds"

lemma fits_length_alias: "group_fits f_length_alias d_max_length"
  by code_simp

lemma fits_server: "group_fits f_server d_server"
  by code_simp

lemma fits_architecture: "group_fits f_architecture d_architecture"
  by code_simp

lemma fits_training: "group_fits f_training d_training"
  by code_simp

lemma fits_max_length: "group_fits f_max_length d_max_length"
  by code_simp

lemma fits_generation: "group_fits f_generation d_generation"
  by code_simp

lemma fits_metrics_push: "group_fits f_metrics_push d_metrics_push"
  by code_simp

lemma fits_heartbeat: "group_fits f_heartbeat d_heartbeat"
  by code_simp

lemma fits_metrics_files: "group_fits f_metrics_files d_metrics_files"
  by code_simp

lemma fits_sessions: "group_fits f_sessions d_sessions"
  by code_simp

lemma fits_metrics_api: "group_fits f_metrics_api d_metrics_api"
  by code_simp

lemma fits_metrics_db: "group_fits f_metrics_db d_metrics_db"
  by code_simp

lemma fits_quality: "group_fits f_quality d_quality"
  by code_simp

lemma fits_rag: "group_fits f_rag d_rag"
  by code_simp

lemma fits_registry: "group_fits f_registry d_registry"
  by code_simp

lemma fits_ftp: "group_fits f_ftp d_ftp"
  by code_simp

lemma fits_name_service: "group_fits f_name_service d_name_service"
  by code_simp

lemma fits_trainer_admin: "group_fits f_trainer_admin d_trainer_admin"
  by code_simp

lemma fits_world_model: "group_fits f_world_model d_world_model"
  by code_simp

lemma fits_hippocampal: "group_fits f_hippocampal d_hippocampal"
  by code_simp

lemma fits_checkpoint: "group_fits f_checkpoint d_checkpoint"
  by code_simp

lemma fits_gpu: "group_fits f_gpu d_gpu"
  by code_simp

lemmas groups_fit = fits_length_alias fits_server fits_architecture fits_training fits_max_length fits_generation fits_metrics_push fits_heartbeat fits_metrics_files fits_sessions fits_metrics_api fits_metrics_db fits_quality fits_rag fits_registry fits_ftp fits_name_service fits_trainer_admin fits_world_model fits_hippocampal fits_checkpoint fits_gpu

lemma group_fits_sound:
  "group_fits ks ds \<Longrightarrow> (key, field, kind) \<in> set ks \<Longrightarrow> \<exists>i. (field, i) \<in> set ds \<and> init_fits kind i"
  unfolding group_fits_def by (force simp: list_all2_conv_all_nth in_set_conv_nth)

lemma default_sorted: "increasing (sorted_numbers (map fst default_list))"
  by code_simp

lemma default_distinct: "distinct (map fst default_list)"
  by (rule distinct_by_sorting [OF default_sorted])

lemma default_groups_sub: "(field, i) \<in> set d_max_length \<Longrightarrow> (field, i) \<in> set default_list"
  by (simp add: default_list_def)

lemma key_initializer:
  assumes "(key, field, kind) \<in> set file_keys"
  shows "\<exists>i. (field, i) \<in> set default_list \<and> init_fits kind i"
  using assms unfolding file_keys_def set_append Un_iff
  by (elim disjE) (drule groups_fit [THEN group_fits_sound]; simp only: default_list_def set_append Un_iff; blast)+

lemma key_type:
  assumes "(key, field, kind) \<in> set file_keys"
  shows "kind_fits kind (default_fields field)"
proof -
  obtain i where i: "(field, i) \<in> set default_list" "init_fits kind i" using key_initializer [OF assms] by blast
  then have "map_of default_list field = Some i" using default_distinct by simp
  with init_fits_initial [OF i(2)] show ?thesis by (simp add: default_fields_def)
qed

text \<open>So the untyped encoding of the settings loses nothing: a loaded field has the type the program
  declares for it, and no reader of the model meets a value of another one.\<close>

definition well_typed :: "fields \<Rightarrow> bool" where
  "well_typed fs \<longleftrightarrow> (\<forall>f. same_type (fs f) (default_fields f))"

lemma same_type_refl: "same_type s s"
  by (cases s) simp_all

lemma same_type_trans: "same_type a b \<Longrightarrow> same_type b c \<Longrightarrow> same_type a c"
  by (cases a; cases b; cases c) simp_all

lemma parse_setting_type: "parse_setting kind key v = Some s \<Longrightarrow> kind_fits kind t \<Longrightarrow> same_type s t"
  by (cases kind; cases t) auto

lemma line_setting_type: "line_setting f raw = Some s \<Longrightarrow> same_type s (default_fields f)"
  by (auto simp: line_setting_def split: config_line.splits option.splits if_splits
      intro!: parse_setting_type key_type map_of_SomeD)

lemma env_settings_type: "s \<in> set (env_settings env f) \<Longrightarrow> same_type s (default_fields f)"
  unfolding env_settings_def
proof -
  assume "s \<in> set (List.map_filter (\<lambda>(key, field, kind). if field = f then env_value env key kind else None) env_keys)"
  then obtain key kind where k: "(key, f, kind) \<in> set file_keys" "env_value env key kind = Some s"
    by (auto simp: List.map_filter_def tables_agree split: if_splits)
  then obtain v where "parse_setting kind key v = Some s" by (auto simp: env_value_def split: option.splits)
  then show ?thesis using key_type [OF k(1)] by (rule parse_setting_type)
qed

lemma file_settings_type: "s \<in> set (file_settings fs path f) \<Longrightarrow> same_type s (default_fields f)"
  by (auto simp: file_settings_def List.map_filter_def line_setting_type split: option.splits)

lemma load_config_typed: "well_typed (c_fields (load_config fs env path))"
proof -
  have "same_type (List.last (default_fields f # file_settings fs path f @ env_settings env f)) (default_fields f)" for f
    using last_in_set [of "default_fields f # file_settings fs path f @ env_settings env f"]
    by (auto simp: same_type_refl file_settings_type env_settings_type simp del: last.simps)
  then show ?thesis unfolding well_typed_def load_config_field by blast
qed

end
