(* ===== verification/Config_Validate.thy ===== *)
theory Config_Validate
  imports Config_Load
begin

text \<open>
  \<open>ConfigLoader::validate\<close> of \<open>src/src/Config.cpp\<close>. Each check is a condition that must hold and the message
  reported when it does not; the checks and messages are in the order of the code. \<open>validate\<close> returns the
  messages, and the configuration is valid when there is none.
\<close>

section \<open>Reading fields\<close>

fun the_text :: "setting \<Rightarrow> string" where "the_text (Text s) = s" | "the_text _ = []"
fun the_int :: "setting \<Rightarrow> int" where "the_int (Whole i) = i" | "the_int (Size i) = i" | "the_int _ = 0"
fun the_float :: "setting \<Rightarrow> float32" where "the_float (Real f) = f" | "the_float _ = F32 False 0"
fun the_flag :: "setting \<Rightarrow> bool" where "the_flag (Flag b) = b" | "the_flag _ = False"

definition field_units :: "setting \<Rightarrow> int" where "field_units s = f_units (the_float s)"

type_synonym check = "bool \<times> string"

section \<open>Forms of checks\<close>

definition invalid :: "string \<Rightarrow> string \<Rightarrow> string \<Rightarrow> string" where
  "invalid name value rule = ''Invalid '' @ name @ '': '' @ value @ '' ('' @ rule @ '')''"

definition in_range :: "fields \<Rightarrow> string \<Rightarrow> int \<Rightarrow> int \<Rightarrow> string \<Rightarrow> check" where
  "in_range c name lo hi rule =
     (let v = the_int (c name) in (lo \<le> v \<and> v \<le> hi, invalid name (int_to_string v) rule))"

definition at_least :: "fields \<Rightarrow> int \<Rightarrow> string \<Rightarrow> check" where
  "at_least c least name =
     (let v = the_int (c name) in
      (least \<le> v, invalid name (int_to_string v) (if least = 0 then ''must be >= 0'' else ''must be >= 1'')))"

definition is_port :: "fields \<Rightarrow> string \<Rightarrow> check" where
  "is_port c name = in_range c name 1 65535 ''must be 1-65535''"

definition float_check :: "fields \<Rightarrow> string \<Rightarrow> (int \<Rightarrow> bool) \<Rightarrow> string \<Rightarrow> check" where
  "float_check c name ok rule = (ok (field_units (c name)), invalid name (fixed6 (the_float (c name))) rule)"

section \<open>The checks\<close>

definition server_checks :: "fields \<Rightarrow> check list" where
  "server_checks c =
     [in_range c ''port'' 1 65535 ''must be 1-65535'',
      at_least c 1 ''session_timeout'',
      (the_flag (c ''rag_enabled'') \<longrightarrow> fst (at_least c 1 ''rag_num_docs''), snd (at_least c 1 ''rag_num_docs'')),
      (the_flag (c ''rag_enabled'') \<longrightarrow> fst (at_least c 1 ''rag_max_context_length''),
         snd (at_least c 1 ''rag_max_context_length'')),
      at_least c 1 ''max_batch_size'',
      at_least c 1 ''max_sessions'',
      (map to_upper (the_text (c ''log_level'')) \<in> set [''DEBUG'', ''INFO'', ''WARN'', ''ERROR''],
         invalid ''log_level'' (the_text (c ''log_level'')) ''must be DEBUG, INFO, WARN, or ERROR''),
      in_range c ''log_max_size_mb'' 1 1024 ''must be 1-1024'',
      in_range c ''log_max_files'' 1 100 ''must be 1-100'']"

text \<open>The bounds of a transformer; \<open>p\<close> is the prefix of the field names.\<close>

definition divisible :: "fields \<Rightarrow> string \<Rightarrow> check" where
  "divisible c p =
     (let d = the_int (c (p @ ''d_model'')); h = the_int (c (p @ ''num_heads'')) in
      (\<not> (h > 0 \<and> d mod h \<noteq> 0),
       p @ ''d_model ('' @ int_to_string d @ '') must be divisible by '' @ p @ ''num_heads ('' @ int_to_string h @ '')''))"

definition architecture_checks :: "fields \<Rightarrow> check list" where
  "architecture_checks c =
     [in_range c ''d_model'' 64 8192 ''must be 64-8192'',
      in_range c ''num_heads'' 1 64 ''must be 1-64'',
      divisible c [],
      in_range c ''d_ff'' 64 32768 ''must be 64-32768'',
      in_range c ''num_encoder_layers'' 1 48 ''must be 1-48'',
      in_range c ''num_decoder_layers'' 1 48 ''must be 1-48'',
      in_range c ''max_seq_length'' 16 32768 ''must be 16-32768'']"

definition world_model_checks :: "fields \<Rightarrow> check list" where
  "world_model_checks c =
     [in_range c ''world_model_d_model'' 64 8192 ''must be 64-8192'',
      in_range c ''world_model_num_heads'' 1 64 ''must be 1-64'',
      divisible c ''world_model_'',
      in_range c ''world_model_d_ff'' 64 32768 ''must be 64-32768'',
      in_range c ''world_model_num_layers'' 1 48 ''must be 1-48'',
      float_check c ''world_model_sigreg_lambda'' (\<lambda>u. 0 \<le> u) ''must be >= 0.0'',
      in_range c ''world_model_sigreg_num_sketches'' 1 4096 ''must be 1-4096'',
      in_range c ''world_model_sigreg_batch_size'' 2 4096 ''must be 2-4096; SIGReg needs at least 2 pooled embeddings'',
      (let w = the_int (c ''world_model_d_model''); d = the_int (c ''d_model'');
           n = the_int (c ''world_model_inject_every_n_layers'') in
       (\<not> (n > 0 \<and> w \<noteq> d),
        ''world_model_d_model ('' @ int_to_string w @ '') must equal d_model ('' @ int_to_string d @
        '') whenever world_model_inject_every_n_layers > 0 (currently '' @ int_to_string n @ '') '' @
        [CHR 0xE2, CHR 0x80, CHR 0x94] @ '' DecoderBlock'' @ [CHR 0x27] @
        ''s gated world-model cross-attention has no separate kv-dimension''))]"

definition hippocampal_checks :: "fields \<Rightarrow> check list" where
  "hippocampal_checks c =
     [in_range c ''hippocampal_memory_capacity'' 1 65536 ''must be 1-65536'',
      (0 \<le> the_int (c ''hippocampal_save_interval_seconds''),
         invalid ''hippocampal_save_interval_seconds'' (int_to_string (the_int (c ''hippocampal_save_interval_seconds'')))
           ''must be >= 0; 0 = only at shutdown''),
      float_check c ''hippocampal_repetition_alpha'' (\<lambda>u. 0 \<le> u) ''must be >= 0.0'',
      float_check c ''hippocampal_repetition_decay'' (\<lambda>u. 0 < u \<and> u \<le> ONE_UNITS) ''must be in (0.0, 1.0]'']"

definition generation_checks :: "fields \<Rightarrow> check list" where
  "generation_checks c =
     [in_range c ''max_gen_length'' 1 4096 ''must be 1-4096'',
      float_check c ''temperature'' (\<lambda>u. 0 \<le> u \<and> u \<le> 2 * ONE_UNITS) ''must be 0.0-2.0'',
      float_check c ''top_p'' (\<lambda>u. 0 \<le> u \<and> u \<le> ONE_UNITS) ''must be 0.0-1.0'',
      in_range c ''top_k'' 1 1000 ''must be 1-1000'',
      in_range c ''beam_width'' 1 16 ''must be 1-16'',
      (the_text (c ''strategy'') \<in> set generation_strategy_names,
         invalid ''strategy'' (the_text (c ''strategy'')) ''must be greedy, beam, temperature, top_k, or nucleus'')]"

definition training_checks :: "fields \<Rightarrow> check list" where
  "training_checks c =
     [float_check c ''learning_rate'' (\<lambda>u. 0 < u) ''must be > 0'',
      at_least c 1 ''num_epochs'',
      at_least c 1 ''batch_size'',
      at_least c 1 ''gradient_accumulation_steps'',
      float_check c ''weight_decay'' (\<lambda>u. 0 \<le> u) ''must be >= 0'',
      float_check c ''gradient_clip'' (\<lambda>u. 0 \<le> u) ''must be >= 0'',
      float_check c ''gradient_clip_min'' (\<lambda>u. 0 < u) ''must be > 0'',
      float_check c ''gradient_clip_max'' (\<lambda>u. field_units (c ''gradient_clip_min'') \<le> u) ''must be >= gradient_clip_min'',
      float_check c ''gradient_clip_ema_decay'' (\<lambda>u. 0 < u \<and> u \<le> ONE_UNITS) ''must be in (0.0, 1.0]'',
      float_check c ''gradient_clip_headroom'' (\<lambda>u. 0 < u) ''must be > 0'',
      at_least c 0 ''gradient_clip_warmup_steps'',
      float_check c ''gradient_clip_spike_k'' (\<lambda>u. 0 < u) ''must be > 0'',
      at_least c 0 ''vocab_build_size'',
      at_least c 1 ''speculative_num_candidates'',
      float_check c ''hippocampal_association_decay'' (\<lambda>u. 0 < u \<and> u \<le> ONE_UNITS) ''must be in (0.0, 1.0]'',
      float_check c ''hippocampal_cross_reference_alpha'' (\<lambda>u. 0 \<le> u) ''must be >= 0'',
      float_check c ''gpu_memory_fraction'' (\<lambda>u. 0 < u \<and> u \<le> ONE_UNITS) ''must be in (0.0, 1.0]'',
      at_least c 0 ''gpu_device_id'']"

definition port_checks :: "fields \<Rightarrow> check list" where
  "port_checks c =
     (let value = (\<lambda>name. int_to_string (the_int (c name))) in
     [is_port c ''metrics_api_port'', is_port c ''registry_listen_port'', is_port c ''ftp_server_port'',
      is_port c ''ftp_pasv_port_min'', is_port c ''ftp_pasv_port_max'',
      (the_int (c ''ftp_pasv_port_min'') \<le> the_int (c ''ftp_pasv_port_max''),
         invalid ''ftp_pasv_port_max'' (value ''ftp_pasv_port_max'') ''must be >= ftp_pasv_port_min''),
      is_port c ''name_service_port'', is_port c ''trainer_admin_port'', is_port c ''trainer_child_admin_port'',
      (the_int (c ''trainer_child_admin_port'') \<noteq> the_int (c ''trainer_admin_port''),
         invalid ''trainer_child_admin_port'' (value ''trainer_child_admin_port'') ''must differ from trainer_admin_port'')])"

text \<open>\<open>static_cast<long long>\<close> of a \<open>size_t\<close>\<close>

definition to_llong :: "int \<Rightarrow> int" where
  "to_llong v = (if v \<ge> 2 ^ 63 then v - 2 ^ 64 else v)"

definition live_sessions_check :: "fields \<Rightarrow> check" where
  "live_sessions_check c =
     (let v = to_llong (the_int (c ''metrics_max_live_sessions'')) in
      (1 \<le> v, invalid ''metrics_max_live_sessions'' (int_to_string v) ''must be >= 1''))"

definition metrics_checks :: "fields \<Rightarrow> check list" where
  "metrics_checks c =
     map (\<lambda>(least, name). at_least c least name)
      [(1, ''metrics_push_timeout_ms''), (1, ''metrics_heartbeat_interval_ms''), (0, ''metrics_persist_every_samples''),
       (0, ''metrics_persist_every_seconds''), (1, ''metrics_max_records_in_memory''), (0, ''metrics_max_records_on_disk''),
       (0, ''metrics_retention_days''), (0, ''metrics_file_max_mb''), (0, ''metrics_file_backups'')] @
     [live_sessions_check c]"

definition service_checks :: "fields \<Rightarrow> check list" where
  "service_checks c =
     map (\<lambda>(least, name). at_least c least name)
      [(0, ''metrics_completed_ttl_seconds''), (1, ''metrics_staleness_threshold_seconds''), (1, ''metrics_db_pool_size''),
       (0, ''generation_quality_sample_size''), (1, ''generation_quality_max_tokens''),
       (0, ''generation_quality_async_threshold''),
       (1, ''registry_timeout_ms''), (0, ''registry_claim_lease_minutes''), (1, ''registry_max_upload_mb''),
       (1, ''registry_max_concurrent_fetches''), (1, ''ftp_token_ttl_minutes''), (1, ''max_parallel_downloads''),
       (0, ''large_file_warn_threshold_mb''), (0, ''ftp_max_sessions_per_run''), (1, ''name_service_timeout_ms''),
       (0, ''auto_save_every_samples''), (0, ''auto_save_every_minutes''), (0, ''max_sessions_to_keep'')]"

definition all_checks :: "fields \<Rightarrow> check list" where
  "all_checks c = server_checks c @ architecture_checks c @ world_model_checks c @ hippocampal_checks c @
     generation_checks c @ training_checks c @ port_checks c @ metrics_checks c @ service_checks c"

definition validate :: "ServiceConfig \<Rightarrow> string list" where
  "validate config = map snd (filter (\<lambda>ch. \<not> fst ch) (all_checks (c_fields config)))"

section \<open>Valid configurations\<close>

lemma validate_iff: "validate config = [] \<longleftrightarrow> list_all fst (all_checks (c_fields config))"
  by (simp add: validate_def filter_empty_conv list_all_iff)

lemmas check_groups = server_checks_def architecture_checks_def world_model_checks_def hippocampal_checks_def
  generation_checks_def training_checks_def port_checks_def metrics_checks_def live_sessions_check_def service_checks_def

lemmas check_forms = in_range_def at_least_def is_port_def float_check_def divisible_def Let_def

end
