(* ===== verification/Config_Reload.thy ===== *)
theory Config_Reload
  imports Config_Validate "HOL-Library.List_Lexorder" "HOL-Library.Char_ord"
begin

text \<open>
  Reloading and showing a configuration (\<open>src/src/Config.cpp\<close>): \<open>changed_file_keys\<close>, \<open>detect_changes\<close>,
  \<open>reload\<close> and \<open>to_string\<close>. Log output is what \<open>reload\<close> returns; the mutex only guards the exchange of the
  two configurations.
\<close>

section \<open>Changes\<close>

definition changed_file_keys :: "ServiceConfig \<Rightarrow> ServiceConfig \<Rightarrow> string list" where
  "changed_file_keys old new =
     sort (map fst (filter (\<lambda>(key, value). map_of (c_file old) key \<noteq> Some value) (c_file new)) @
       filter (\<lambda>key. map_of (c_file new) key = None) (map fst (c_file old)))"

text \<open>\<open>key.find(marker) != npos\<close>\<close>

primrec contains :: "string \<Rightarrow> string \<Rightarrow> bool" where
  "contains m [] = (m = [])"
| "contains m (c # s) = (starts_with m (c # s) \<or> contains m s)"

definition is_secret_key :: "string \<Rightarrow> bool" where
  "is_secret_key key = list_ex (\<lambda>m. contains m key) [''SECRET'', ''PASSWORD'', ''TOKEN'', ''HEADERS'', ''CREDENTIAL'']"

definition in_quotes :: "string \<Rightarrow> string" where
  "in_quotes v = [CHR 0x27] @ v @ [CHR 0x27]"

definition describe_change :: "ServiceConfig \<Rightarrow> ServiceConfig \<Rightarrow> string \<Rightarrow> string" where
  "describe_change old new key =
     (let show_value = (\<lambda>v. if is_secret_key key then ''<hidden>'' else in_quotes v) in
      case (map_of (c_file old) key, map_of (c_file new) key) of
        (None, Some after) \<Rightarrow> key @ '': added ('' @ show_value after @ '')''
      | (Some before, None) \<Rightarrow> key @ '': removed (was '' @ show_value before @ '')''
      | (Some before, Some after) \<Rightarrow> key @ '': '' @ show_value before @ '' -> '' @ show_value after
      | (None, None) \<Rightarrow> [])"

text \<open>Configurations not read from a file: some fields are compared, each printed in its own way.\<close>

datatype shown = Quoted | Plain

fun show_setting :: "shown \<Rightarrow> setting \<Rightarrow> string" where
  "show_setting how (Text s) = (if how = Quoted then in_quotes s else s)"
| "show_setting how (Whole i) = int_to_string i"
| "show_setting how (Size i) = int_to_string i"
| "show_setting how (Real f) = fixed6 f"
| "show_setting how (Flag b) = (if b then ''true'' else ''false'')"
| "show_setting how (Gpu g) = (if g = FULL then ''full'' else ''background'')"

fun differ :: "setting \<Rightarrow> setting \<Rightarrow> bool" where
  "differ (Real f) (Real g) = (f_units f \<noteq> f_units g)"
| "differ a b = (a \<noteq> b)"

definition compared_fields :: "(string \<times> shown) list" where
  "compared_fields =
     [(''model_path'', Quoted), (''vocab_path'', Quoted), (''draft_model_path'', Quoted), (''port'', Plain),
      (''session_timeout'', Plain), (''log_level'', Plain), (''log_file_path'', Quoted), (''session_dir'', Quoted),
      (''log_max_size_mb'', Plain), (''log_max_files'', Plain), (''log_compress'', Plain), (''d_model'', Plain),
      (''num_heads'', Plain), (''d_ff'', Plain), (''num_encoder_layers'', Plain), (''num_decoder_layers'', Plain),
      (''max_seq_length'', Plain), (''max_gen_length'', Plain), (''temperature'', Plain), (''top_p'', Plain),
      (''top_k'', Plain), (''beam_width'', Plain), (''strategy'', Plain)]"

definition detect_changes :: "ServiceConfig \<Rightarrow> ServiceConfig \<Rightarrow> string list" where
  "detect_changes old new =
     (if c_file old \<noteq> [] \<or> c_file new \<noteq> [] then map (describe_change old new) (changed_file_keys old new)
      else List.map_filter (\<lambda>(f, how).
        let a = c_fields old f; b = c_fields new f in
        if differ a b then Some (f @ '': '' @ show_setting how a @ '' -> '' @ show_setting how b) else None)
        compared_fields)"

section \<open>Reloading\<close>

record reload_result =
  r_ok :: bool
  r_config :: ServiceConfig
  r_errors :: "string list"
  r_changes :: "string list"
  r_restart :: "string list"
  r_held :: "string list"

text \<open>A missing set of live keys means all keys take effect at once; a missing set of flags holds none.\<close>

definition held_key :: "string list option \<Rightarrow> string \<Rightarrow> bool" where
  "held_key cli_keys key = (case cli_keys of None \<Rightarrow> False | Some ks \<Rightarrow> key \<in> set ks)"

definition live_key :: "string list option \<Rightarrow> string \<Rightarrow> bool" where
  "live_key live_keys key = (case live_keys of None \<Rightarrow> True | Some ks \<Rightarrow> key \<in> set ks)"

definition reload ::
  "files \<Rightarrow> environment \<Rightarrow> string list option \<Rightarrow> (ServiceConfig \<Rightarrow> ServiceConfig) option \<Rightarrow> string list option \<Rightarrow>
     string \<Rightarrow> ServiceConfig \<Rightarrow> reload_result" where
  "reload fs env live_keys cli_overrides cli_keys config_file_path config =
     (let new_config = load_config fs env config_file_path;
          new_config = (case cli_overrides of None \<Rightarrow> new_config | Some f \<Rightarrow> f new_config);
          errors = validate new_config;
          changed = changed_file_keys config new_config
      in if errors \<noteq> [] then
           \<lparr>r_ok = False, r_config = config, r_errors = errors, r_changes = [], r_restart = [], r_held = []\<rparr>
         else
           \<lparr>r_ok = True, r_config = new_config, r_errors = [], r_changes = detect_changes config new_config,
            r_restart = filter (\<lambda>key. \<not> held_key cli_keys key \<and> \<not> live_key live_keys key) changed,
            r_held = filter (held_key cli_keys) changed\<rparr>)"

section \<open>Showing a configuration\<close>

datatype item_form = As_Text | As_Number | As_Flag | As_Minutes | As_Log_File | As_Tokenizer | As_Gpu

datatype print_item = Heading string | Item string item_form string

fun show_number :: "setting \<Rightarrow> string" where
  "show_number (Real f) = stream_float f"
| "show_number s = show_setting Plain s"

fun show_item :: "item_form \<Rightarrow> setting \<Rightarrow> string" where
  "show_item As_Text s = the_text s"
| "show_item As_Number s = show_number s"
| "show_item As_Flag s = (if the_flag s then ''true'' else ''false'')"
| "show_item As_Minutes s = show_number s @ '' minutes''"
| "show_item As_Log_File s = (if the_text s = [] then ''<console only>'' else the_text s)"
| "show_item As_Tokenizer s = (if the_flag s then ''unicode'' else ''ascii'')"
| "show_item As_Gpu s = (if s = Gpu FULL then ''full'' else ''background'')"

definition hidden_key :: "string \<Rightarrow> bool" where
  "hidden_key key \<longleftrightarrow> is_secret_key key \<or> key = ''METRICS_DB_URL''"

definition shown_value :: "string \<Rightarrow> string \<Rightarrow> string" where
  "shown_value key value = (if value = [] then ''<not set>'' else if hidden_key key then ''<hidden>'' else value)"

fun print_line :: "fields \<Rightarrow> print_item \<Rightarrow> string" where
  "print_line c (Heading name) = name @ '':'' @ [NL]"
| "print_line c (Item key form f) =
     ''  '' @ key @ replicate (36 - length key) CHR '' '' @ shown_value key (show_item form (c f)) @ [NL]"

definition rule_line :: string where
  "rule_line = replicate 50 CHR ''='' @ [NL]"

definition print_items1 :: "print_item list" where
  "print_items1 =
    [Heading ''Server'', Item ''MODEL_PATH'' As_Text ''model_path'', Item ''VOCAB_PATH'' As_Text ''vocab_path'',
     Item ''DRAFT_MODEL_PATH'' As_Text ''draft_model_path'',
     Item ''SPECULATIVE_NUM_CANDIDATES'' As_Number ''speculative_num_candidates'',
     Item ''PORT'' As_Number ''port'', Item ''SESSION_TIMEOUT'' As_Minutes ''session_timeout'',
     Item ''MAX_SESSIONS'' As_Number ''max_sessions'', Item ''MAX_BATCH_SIZE'' As_Number ''max_batch_size'',
     Item ''ALLOW_UNTRAINED_MODEL'' As_Flag ''allow_untrained_model'',
     Item ''SESSION_DIR'' As_Text ''session_dir'', Heading ''Logging'', Item ''LOG_LEVEL'' As_Text ''log_level'',
     Item ''LOG_FILE_PATH'' As_Log_File ''log_file_path'', Item ''LOG_MAX_SIZE_MB'' As_Number ''log_max_size_mb'',
     Item ''LOG_MAX_FILES'' As_Number ''log_max_files'', Item ''LOG_COMPRESS'' As_Flag ''log_compress'',
     Heading ''Model architecture'', Item ''D_MODEL'' As_Number ''d_model'',
     Item ''NUM_HEADS'' As_Number ''num_heads'', Item ''D_FF'' As_Number ''d_ff'',
     Item ''NUM_ENCODER_LAYERS'' As_Number ''num_encoder_layers'',
     Item ''NUM_DECODER_LAYERS'' As_Number ''num_decoder_layers'',
     Item ''MAX_SEQ_LENGTH'' As_Number ''max_seq_length'',
     Item ''TOKENIZER_MODE'' As_Tokenizer ''unicode_tokenizer'',
     Item ''VOCAB_BUILD_SIZE'' As_Number ''vocab_build_size'', Heading ''Training'',
     Item ''LEARNING_RATE'' As_Number ''learning_rate'', Item ''NUM_EPOCHS'' As_Number ''num_epochs'',
     Item ''BATCH_SIZE'' As_Number ''batch_size'',
     Item ''GRADIENT_ACCUMULATION_STEPS'' As_Number ''gradient_accumulation_steps'',
     Item ''WEIGHT_DECAY'' As_Number ''weight_decay'', Item ''GRADIENT_CLIP'' As_Number ''gradient_clip'',
     Item ''GRADIENT_CLIP_ADAPTIVE'' As_Flag ''adaptive_gradient_clip'',
     Item ''GRADIENT_CLIP_MIN'' As_Number ''gradient_clip_min'',
     Item ''GRADIENT_CLIP_MAX'' As_Number ''gradient_clip_max'',
     Item ''GRADIENT_CLIP_EMA_DECAY'' As_Number ''gradient_clip_ema_decay'',
     Item ''GRADIENT_CLIP_HEADROOM'' As_Number ''gradient_clip_headroom'',
     Item ''GRADIENT_CLIP_WARMUP_STEPS'' As_Number ''gradient_clip_warmup_steps'',
     Item ''GRADIENT_CLIP_SPIKE_K'' As_Number ''gradient_clip_spike_k'',
     Item ''CACHE_TOKENIZED_DATA'' As_Flag ''cache_tokenized_data'',
     Item ''TOKENIZED_CACHE_DIR'' As_Text ''tokenized_cache_dir'',
     Item ''ENABLE_GENERATION_QUALITY_METRICS'' As_Flag ''enable_generation_quality_metrics'',
     Item ''GENERATION_QUALITY_SAMPLE_SIZE'' As_Number ''generation_quality_sample_size'',
     Item ''GENERATION_QUALITY_MAX_TOKENS'' As_Number ''generation_quality_max_tokens'',
     Item ''GENERATION_QUALITY_ASYNC_THRESHOLD'' As_Number ''generation_quality_async_threshold'',
     Item ''LOSS_QUALITY_BACKFILL'' As_Flag ''loss_quality_backfill'',
     Item ''GENERATION_QUALITY_BACKFILL'' As_Flag ''generation_quality_backfill'', Heading ''Checkpointing'',
     Item ''AUTO_SAVE_ENABLED'' As_Flag ''auto_save_enabled'',
     Item ''AUTO_SAVE_EVERY_SAMPLES'' As_Number ''auto_save_every_samples'',
     Item ''AUTO_SAVE_EVERY_MINUTES'' As_Number ''auto_save_every_minutes'',
     Item ''MAX_SESSIONS_TO_KEEP'' As_Number ''max_sessions_to_keep'',
     Item ''RESUME_FROM_BEST_CHECKPOINT'' As_Flag ''resume_from_best_checkpoint'', Heading ''Generation'',
     Item ''MAX_GEN_LENGTH'' As_Number ''max_gen_length'', Item ''TEMPERATURE'' As_Number ''temperature'',
     Item ''TOP_P'' As_Number ''top_p'', Item ''TOP_K'' As_Number ''top_k'',
     Item ''BEAM_WIDTH'' As_Number ''beam_width'', Item ''STRATEGY'' As_Text ''strategy'', Heading ''RAG'',
     Item ''RAG_ENABLED'' As_Flag ''rag_enabled'', Item ''RAG_DOCS_PATH'' As_Text ''rag_docs_path'',
     Item ''RAG_NUM_DOCS'' As_Number ''rag_num_docs'', Item ''RAG_THRESHOLD'' As_Number ''rag_threshold'',
     Item ''RAG_MAX_CONTEXT_LENGTH'' As_Number ''rag_max_context_length'', Heading ''GPU'',
     Item ''GPU_ENABLED'' As_Flag ''gpu_enabled'', Item ''GPU_DEVICE_ID'' As_Number ''gpu_device_id'',
     Item ''GPU_MEMORY_FRACTION'' As_Number ''gpu_memory_fraction'',
     Item ''GPU_STRATEGY'' As_Gpu ''gpu_strategy'', Heading ''Metrics client'',
     Item ''ENABLE_METRICS_SERVICE'' As_Flag ''enable_metrics_service'',
     Item ''METRICS_SERVER_URL'' As_Text ''metrics_server_url'',
     Item ''METRICS_SERVER_HEADERS'' As_Text ''metrics_server_headers'',
     Item ''METRICS_SERVER_CA_FILE'' As_Text ''metrics_server_ca_file'',
     Item ''METRICS_PUSH_TIMEOUT_MS'' As_Number ''metrics_push_timeout_ms'',
     Item ''METRICS_HEARTBEAT_INTERVAL_MS'' As_Number ''metrics_heartbeat_interval_ms'',
     Item ''METRICS_SESSION_KEY'' As_Text ''metrics_session_key'',
     Item ''METRICS_SESSION_LABEL'' As_Text ''metrics_session_label'', Heading ''Metrics daemon'',
     Item ''METRICS_API_PORT'' As_Number ''metrics_api_port'',
     Item ''METRICS_API_ALLOW_CONTROL'' As_Flag ''metrics_api_allow_control'',
     Item ''METRICS_API_CORS_ALLOWED_ORIGINS'' As_Text ''metrics_api_cors_allowed_origins'',
     Item ''METRICS_STORAGE_BACKEND'' As_Text ''metrics_storage_backend'',
     Item ''METRICS_DB_PATH'' As_Text ''metrics_db_path'', Item ''METRICS_DB_URL'' As_Text ''metrics_db_url'',
     Item ''METRICS_DB_POOL_SIZE'' As_Number ''metrics_db_pool_size'',
     Item ''METRICS_ENABLE_PERSISTENCE'' As_Flag ''metrics_enable_persistence'',
     Item ''METRICS_FILE'' As_Text ''metrics_file'',
     Item ''METRICS_SUMMARY_FILE'' As_Text ''metrics_summary_file'',
     Item ''METRICS_PERSIST_EVERY_SAMPLES'' As_Number ''metrics_persist_every_samples'',
     Item ''METRICS_PERSIST_EVERY_SECONDS'' As_Number ''metrics_persist_every_seconds'',
     Item ''METRICS_MAX_RECORDS_IN_MEMORY'' As_Number ''metrics_max_records_in_memory'',
     Item ''METRICS_MAX_RECORDS_ON_DISK'' As_Number ''metrics_max_records_on_disk'',
     Item ''METRICS_RETENTION_DAYS'' As_Number ''metrics_retention_days'',
     Item ''METRICS_FILE_MAX_MB'' As_Number ''metrics_file_max_mb'',
     Item ''METRICS_FILE_BACKUPS'' As_Number ''metrics_file_backups'',
     Item ''METRICS_ENABLE_PROMETHEUS'' As_Flag ''metrics_enable_prometheus'',
     Item ''METRICS_PROMETHEUS_FILE'' As_Text ''metrics_prometheus_file'',
     Item ''METRICS_MAX_LIVE_SESSIONS'' As_Number ''metrics_max_live_sessions'',
     Item ''METRICS_COMPLETED_TTL_SECONDS'' As_Number ''metrics_completed_ttl_seconds'',
     Item ''METRICS_SWEEP_INTERVAL_SECONDS'' As_Number ''metrics_sweep_interval_seconds'',
     Item ''METRICS_STALENESS_THRESHOLD_SECONDS'' As_Number ''metrics_staleness_threshold_seconds'']"

definition print_items2 :: "print_item list" where
  "print_items2 =
    [Heading ''Dataset registry'', Item ''REGISTRY_SERVER_URL'' As_Text ''registry_server_url'',
     Item ''RUN_GROUP'' As_Text ''run_group'', Item ''RUN_ID'' As_Text ''run_id'',
     Item ''DATASET_KIND'' As_Text ''dataset_kind'',
     Item ''REGISTRY_TIMEOUT_MS'' As_Number ''registry_timeout_ms'',
     Item ''REGISTRY_LISTEN_PORT'' As_Number ''registry_listen_port'',
     Item ''REGISTRY_DATA_DIR'' As_Text ''registry_data_dir'',
     Item ''REGISTRY_ADMIN_ENABLED'' As_Flag ''registry_admin_enabled'',
     Item ''REGISTRY_CLAIM_LEASE_MINUTES'' As_Number ''registry_claim_lease_minutes'',
     Item ''REGISTRY_MAX_UPLOAD_MB'' As_Number ''registry_max_upload_mb'',
     Item ''REGISTRY_MAX_CONCURRENT_FETCHES'' As_Number ''registry_max_concurrent_fetches'',
     Item ''DOWNLOAD_DIR'' As_Text ''download_dir'',
     Item ''MAX_PARALLEL_DOWNLOADS'' As_Number ''max_parallel_downloads'',
     Item ''LARGE_FILE_WARN_THRESHOLD_MB'' As_Number ''large_file_warn_threshold_mb'', Heading ''FTP'',
     Item ''FTP_SERVER_ENABLED'' As_Flag ''ftp_server_enabled'',
     Item ''FTP_ADVERTISE_IP'' As_Text ''ftp_advertise_ip'',
     Item ''FTP_SERVER_PORT'' As_Number ''ftp_server_port'',
     Item ''FTP_PASV_PORT_MIN'' As_Number ''ftp_pasv_port_min'',
     Item ''FTP_PASV_PORT_MAX'' As_Number ''ftp_pasv_port_max'',
     Item ''FTP_TOKEN_TTL_MINUTES'' As_Number ''ftp_token_ttl_minutes'',
     Item ''FTP_MAX_SESSIONS_PER_RUN'' As_Number ''ftp_max_sessions_per_run'',
     Item ''FTP_DATA_SERVER_SECRET'' As_Text ''ftp_data_server_secret'',
     Item ''FTPS_ENABLED'' As_Flag ''ftps_enabled'', Item ''FTP_CERT_FILE'' As_Text ''ftp_cert_file'',
     Item ''FTP_KEY_FILE'' As_Text ''ftp_key_file'', Item ''FTPS_CA_FILE'' As_Text ''ftps_ca_file'',
     Item ''FTPS_PINNED_PUBLIC_KEY'' As_Text ''ftps_pinned_public_key'', Heading ''Model Name Service'',
     Item ''NAME_SERVICE_URL'' As_Text ''name_service_url'',
     Item ''NAME_SERVICE_HEADERS'' As_Text ''name_service_headers'',
     Item ''NAME_SERVICE_CA_FILE'' As_Text ''name_service_ca_file'',
     Item ''NAME_SERVICE_PORT'' As_Number ''name_service_port'',
     Item ''NAME_SERVICE_DIR'' As_Text ''name_service_dir'',
     Item ''NAME_SERVICE_TIMEOUT_MS'' As_Number ''name_service_timeout_ms'',
     Item ''MNS_ADMIN_ENABLED'' As_Flag ''name_service_admin_enabled'',
     Item ''MODEL_NAME'' As_Text ''model_name'', Item ''MODEL_ROLE'' As_Text ''model_role'',
     Heading ''Trainer admin API'', Item ''TRAINER_ADMIN_ENABLED'' As_Flag ''trainer_admin_enabled'',
     Item ''TRAINER_ADMIN_HOST'' As_Text ''trainer_admin_host'',
     Item ''TRAINER_ADMIN_PORT'' As_Number ''trainer_admin_port'',
     Item ''TRAINER_ADMIN_DIR'' As_Text ''trainer_admin_dir'',
     Item ''TRAINER_CHILD_ADMIN_PORT'' As_Number ''trainer_child_admin_port'', Heading ''World model'',
     Item ''WORLD_MODEL_ENABLED'' As_Flag ''world_model_enabled'',
     Item ''WORLD_MODEL_ARTIFACT_PATH'' As_Text ''world_model_artifact_path'',
     Item ''WORLD_MODEL_D_MODEL'' As_Number ''world_model_d_model'',
     Item ''WORLD_MODEL_NUM_LAYERS'' As_Number ''world_model_num_layers'',
     Item ''WORLD_MODEL_NUM_HEADS'' As_Number ''world_model_num_heads'',
     Item ''WORLD_MODEL_D_FF'' As_Number ''world_model_d_ff'',
     Item ''WORLD_MODEL_SIGREG_LAMBDA'' As_Number ''world_model_sigreg_lambda'',
     Item ''WORLD_MODEL_SIGREG_NUM_SKETCHES'' As_Number ''world_model_sigreg_num_sketches'',
     Item ''WORLD_MODEL_SIGREG_BATCH_SIZE'' As_Number ''world_model_sigreg_batch_size'',
     Item ''WORLD_MODEL_INJECT_EVERY_N_LAYERS'' As_Number ''world_model_inject_every_n_layers'',
     Heading ''Hippocampal memory'', Item ''HIPPOCAMPAL_MEMORY_ENABLED'' As_Flag ''hippocampal_memory_enabled'',
     Item ''HIPPOCAMPAL_MEMORY_CAPACITY'' As_Number ''hippocampal_memory_capacity'',
     Item ''HIPPOCAMPAL_STATE_PATH'' As_Text ''hippocampal_state_path'',
     Item ''HIPPOCAMPAL_SAVE_INTERVAL_SECONDS'' As_Number ''hippocampal_save_interval_seconds'',
     Item ''HIPPOCAMPAL_REPETITION_ALPHA'' As_Number ''hippocampal_repetition_alpha'',
     Item ''HIPPOCAMPAL_REPETITION_DECAY'' As_Number ''hippocampal_repetition_decay'',
     Item ''HIPPOCAMPAL_CROSS_REFERENCE_ALPHA'' As_Number ''hippocampal_cross_reference_alpha'',
     Item ''HIPPOCAMPAL_ASSOCIATION_DECAY'' As_Number ''hippocampal_association_decay'']"

definition print_items :: "print_item list" where
  "print_items = print_items1 @ print_items2"

definition config_to_string :: "ServiceConfig \<Rightarrow> string" where
  "config_to_string config =
     rule_line @ ''               ADAI Configuration'' @ [NL] @ rule_line @
     concat (map (print_line (c_fields config)) print_items) @ rule_line"

end
