(* ===== verification/Config_Properties.thy ===== *)
theory Config_Properties
  imports Config_Tables Config_Reload
begin

text \<open>
  The configuration of \<open>src/src/Config.cpp\<close> as a whole: where each value comes from, that types and bounds
  hold, what a reload may change and what is never shown.
\<close>

section \<open>Default values\<close>

lemma default_values: "list_all (\<lambda>(f, i). default_fields f = initial i) default_list"
  using default_distinct by (auto simp: list_all_iff default_fields_def)

lemma default_value_groups:
  "list_all (\<lambda>(f, i). default_fields f = initial i) d_server"
  "list_all (\<lambda>(f, i). default_fields f = initial i) d_architecture"
  "list_all (\<lambda>(f, i). default_fields f = initial i) d_training"
  "list_all (\<lambda>(f, i). default_fields f = initial i) d_max_length"
  "list_all (\<lambda>(f, i). default_fields f = initial i) d_generation"
  "list_all (\<lambda>(f, i). default_fields f = initial i) d_metrics_push"
  "list_all (\<lambda>(f, i). default_fields f = initial i) d_metrics_files"
  "list_all (\<lambda>(f, i). default_fields f = initial i) d_sessions"
  "list_all (\<lambda>(f, i). default_fields f = initial i) d_heartbeat"
  "list_all (\<lambda>(f, i). default_fields f = initial i) d_metrics_api"
  "list_all (\<lambda>(f, i). default_fields f = initial i) d_metrics_db"
  "list_all (\<lambda>(f, i). default_fields f = initial i) d_registry"
  "list_all (\<lambda>(f, i). default_fields f = initial i) d_ftp"
  "list_all (\<lambda>(f, i). default_fields f = initial i) d_quality"
  "list_all (\<lambda>(f, i). default_fields f = initial i) d_rag"
  "list_all (\<lambda>(f, i). default_fields f = initial i) d_name_service"
  "list_all (\<lambda>(f, i). default_fields f = initial i) d_trainer_admin"
  "list_all (\<lambda>(f, i). default_fields f = initial i) d_world_model"
  "list_all (\<lambda>(f, i). default_fields f = initial i) d_hippocampal"
  "list_all (\<lambda>(f, i). default_fields f = initial i) d_checkpoint"
  "list_all (\<lambda>(f, i). default_fields f = initial i) d_gpu"
  using default_values by (simp_all only: default_list_def list_all_append)

lemmas default_facts = default_value_groups [unfolded default_groups list.pred_inject prod.case]

section \<open>The defaults are valid\<close>

text \<open>The units of an initializer, as the checks read it.\<close>

definition literal_units :: "string \<Rightarrow> int" where
  "literal_units s = field_units (initial (Float_Literal s))"

lemma parse_plain:
  "is_digit c \<Longrightarrow> magnitude (c # s) = Some (n, d) \<Longrightarrow> parse_float (c # s) = map_option (F32 False) (to_float n d)"
proof -
  assume c: "is_digit c" and m: "magnitude (c # s) = Some (n, d)"
  have "\<not> is_space c" and "c \<noteq> CHR ''-''" and "c \<noteq> CHR ''+''" using c by (auto simp: is_digit_def is_space_def)
  then show ?thesis using m by (simp add: parse_float_def Let_def)
qed

lemma unit_literal:
  assumes "is_digit c" and "magnitude (c # s) = Some (n, d)" and "0 < d" and "d \<le> n * 2 ^ 126" and "n \<le> d"
  shows "0 < literal_units (c # s) \<and> literal_units (c # s) \<le> ONE_UNITS"
  using parse_plain [OF assms(1,2)] to_float_unit [OF assms(3-5)] by (auto simp: literal_units_def field_units_def)

lemma large_literal:
  assumes "is_digit c" and "magnitude (c # s) = Some (n, d)" and "0 < d" and "d \<le> n" and "n \<le> d * 2 ^ 20"
  shows "ONE_UNITS \<le> literal_units (c # s)"
  using parse_plain [OF assms(1,2)] to_float_large [OF assms(3-5)] by (auto simp: literal_units_def field_units_def)

lemma zero_to_float: "to_float 0 10 = Some 0"
  by (simp add: to_float_def round_units_def div_even_def Let_def)

lemmas magnitude_evaluation =
  magnitude_def decimal_magnitude_def split_mantissa_def exponent_def scale_def digits_value_def is_digit_def
  digit_value_def to_lower_def

lemma literal_magnitudes:
  "magnitude ''0.0001'' = Some (1, 10000)" "magnitude ''0.01'' = Some (1, 100)" "magnitude ''0.1'' = Some (1, 10)"
  "magnitude ''0.05'' = Some (5, 100)" "magnitude ''0.9'' = Some (9, 10)" "magnitude ''0.95'' = Some (95, 100)"
  "magnitude ''0.5'' = Some (5, 10)" "magnitude ''1.0'' = Some (10, 10)" "magnitude ''2.0'' = Some (20, 10)"
  "magnitude ''3.0'' = Some (30, 10)" "magnitude ''5.0'' = Some (50, 10)" "magnitude ''10.0'' = Some (100, 10)"
  "magnitude ''0.0'' = Some (0, 10)"
  by (simp_all add: magnitude_evaluation)

lemma zero_literal: "literal_units ''0.0'' = 0"
  using parse_plain [OF _ literal_magnitudes(13)]
  by (simp add: is_digit_def zero_to_float literal_units_def field_units_def)

lemma unit_literals:
  "0 < literal_units ''0.0001'' \<and> literal_units ''0.0001'' \<le> ONE_UNITS"
  "0 < literal_units ''0.01'' \<and> literal_units ''0.01'' \<le> ONE_UNITS"
  "0 < literal_units ''0.1'' \<and> literal_units ''0.1'' \<le> ONE_UNITS"
  "0 < literal_units ''0.05'' \<and> literal_units ''0.05'' \<le> ONE_UNITS"
  "0 < literal_units ''0.9'' \<and> literal_units ''0.9'' \<le> ONE_UNITS"
  "0 < literal_units ''0.95'' \<and> literal_units ''0.95'' \<le> ONE_UNITS"
  "0 < literal_units ''0.5'' \<and> literal_units ''0.5'' \<le> ONE_UNITS"
  "0 < literal_units ''1.0'' \<and> literal_units ''1.0'' \<le> ONE_UNITS"
  by (rule unit_literal, simp add: is_digit_def, rule literal_magnitudes; simp)+

lemma large_literals:
  "ONE_UNITS \<le> literal_units ''2.0''" "ONE_UNITS \<le> literal_units ''3.0''"
  "ONE_UNITS \<le> literal_units ''5.0''" "ONE_UNITS \<le> literal_units ''10.0''"
  by (rule large_literal, simp add: is_digit_def, rule literal_magnitudes; simp)+

lemma literal_bounds:
  "0 < literal_units ''0.0001''" "0 < literal_units ''0.01''" "0 < literal_units ''0.1''" "0 < literal_units ''0.05''"
  "0 < literal_units ''0.9''" "0 < literal_units ''0.95''" "0 < literal_units ''0.5''" "0 < literal_units ''1.0''"
  "0 < literal_units ''2.0''" "0 < literal_units ''3.0''" "0 < literal_units ''5.0''" "0 < literal_units ''10.0''"
  "literal_units ''0.0001'' \<le> ONE_UNITS" "literal_units ''0.01'' \<le> ONE_UNITS" "literal_units ''0.1'' \<le> ONE_UNITS"
  "literal_units ''0.05'' \<le> ONE_UNITS" "literal_units ''0.9'' \<le> ONE_UNITS" "literal_units ''0.95'' \<le> ONE_UNITS"
  "literal_units ''0.5'' \<le> ONE_UNITS" "literal_units ''1.0'' \<le> ONE_UNITS"
  using unit_literals large_literals ONE_UNITS_pos by simp_all

lemma units_literal: "field_units (initial (Float_Literal s)) = literal_units s"
  by (simp only: literal_units_def)

text \<open>Conditions of the forms of checks, without their messages.\<close>

lemma fst_checks:
  "fst (in_range c f lo hi r) \<longleftrightarrow> lo \<le> the_int (c f) \<and> the_int (c f) \<le> hi"
  "fst (at_least c l f) \<longleftrightarrow> l \<le> the_int (c f)"
  "fst (is_port c f) \<longleftrightarrow> 1 \<le> the_int (c f) \<and> the_int (c f) \<le> 65535"
  "fst (float_check c f ok r) \<longleftrightarrow> ok (field_units (c f))"
  "fst (divisible c p) \<longleftrightarrow> \<not> (the_int (c (p @ ''num_heads'')) > 0 \<and>
     the_int (c (p @ ''d_model'')) mod the_int (c (p @ ''num_heads'')) \<noteq> 0)"
  "fst (live_sessions_check c) \<longleftrightarrow> 1 \<le> to_llong (the_int (c ''metrics_max_live_sessions''))"
  by (simp_all add: check_forms live_sessions_check_def)

lemma unit_twice: "literal_units ''1.0'' \<le> 2 * ONE_UNITS"
  using literal_bounds(20) ONE_UNITS_pos by simp

lemma clip_range: "literal_units ''0.1'' \<le> literal_units ''5.0''"
  using unit_literals(3) large_literals(3) by simp

lemmas default_evaluation = fst_checks default_facts units_literal literal_bounds
  literal_bounds(1-12) [THEN less_imp_le] zero_literal unit_twice clip_range initial.simps(1)

lemma default_server: "list_all fst (server_checks default_fields)"
  by (simp add: server_checks_def default_evaluation to_upper_def del: initial.simps(2))

lemma default_architecture: "list_all fst (architecture_checks default_fields)"
  by (simp add: architecture_checks_def default_evaluation del: initial.simps(2))

lemma default_world_model: "list_all fst (world_model_checks default_fields)"
  by (simp add: world_model_checks_def default_evaluation Let_def del: initial.simps(2))

lemma default_hippocampal: "list_all fst (hippocampal_checks default_fields)"
  by (simp add: hippocampal_checks_def default_evaluation del: initial.simps(2))

lemma default_generation: "list_all fst (generation_checks default_fields)"
  by (simp add: generation_checks_def default_evaluation generation_strategy_names_def del: initial.simps(2))

lemma default_training: "list_all fst (training_checks default_fields)"
  by (simp add: training_checks_def default_evaluation del: initial.simps(2))

lemma default_ports: "list_all fst (port_checks default_fields)"
  by (simp add: port_checks_def Let_def default_evaluation del: initial.simps(2))

lemma default_metrics: "list_all fst (metrics_checks default_fields)"
  by (simp add: metrics_checks_def default_evaluation to_llong_def del: initial.simps(2))

lemma default_services: "list_all fst (service_checks default_fields)"
  by (simp add: service_checks_def default_evaluation del: initial.simps(2))

lemma default_valid: "validate default_config = []"
  by (simp add: validate_iff all_checks_def default_config_def default_server default_architecture default_world_model
      default_hippocampal default_generation default_training default_ports default_metrics default_services)

section \<open>Layers\<close>

text \<open>Abstractly, a configuration is a stack of partial assignments: the environment over the file over the
  defaults. A layer holds the last setting of each field.\<close>

definition last_setting :: "'a list \<Rightarrow> 'a option" where
  "last_setting xs = (if xs = [] then None else Some (List.last xs))"

definition overlay :: "fields \<Rightarrow> (string \<rightharpoonup> setting) \<Rightarrow> fields" where
  "overlay c m = (\<lambda>f. case m f of None \<Rightarrow> c f | Some s \<Rightarrow> s)"

definition file_layer :: "files \<Rightarrow> string \<Rightarrow> string \<rightharpoonup> setting" where
  "file_layer fs path = (\<lambda>f. last_setting (file_settings fs path f))"

definition env_layer :: "environment \<Rightarrow> string \<rightharpoonup> setting" where
  "env_layer env = (\<lambda>f. last_setting (env_settings env f))"

lemma last_overlay: "List.last (a # xs) = (case last_setting xs of None \<Rightarrow> a | Some s \<Rightarrow> s)"
  by (simp add: last_setting_def)

lemma load_from_file_layer: "c_fields (fst (load_from_file fs path c)) = overlay (c_fields c) (file_layer fs path)"
  by (rule ext) (simp only: load_from_file_field last_overlay overlay_def file_layer_def)

lemma load_from_env_layer: "c_fields (load_from_env env c) = overlay (c_fields c) (env_layer env)"
  by (rule ext) (simp only: load_from_env_field last_overlay overlay_def env_layer_def)

text \<open>A field of one key has at most one setting in the environment.\<close>

lemma map_filter_distinct:
  assumes "distinct (map h xs)" and "x \<in> set xs" and "\<And>y. h y \<noteq> h x \<Longrightarrow> g y = None"
  shows "List.map_filter g xs = (case g x of None \<Rightarrow> [] | Some y \<Rightarrow> [y])"
  using assms(1,2)
proof (induction xs)
  case (Cons a xs)
  show ?case
  proof (cases "a = x")
    case True
    have "g y = None" if "y \<in> set xs" for y
    proof (rule assms(3))
      show "h y \<noteq> h x" using Cons.prems(1) True that by (metis distinct.simps(2) image_eqI list.set_map list.simps(9))
    qed
    then have "List.map_filter g xs = []" by (auto simp: List.map_filter_def)
    then show ?thesis using True by (simp add: map_filter_Cons split: option.split)
  next
    case False
    then have x: "x \<in> set xs" using Cons.prems(2) by simp
    have "g a = None"
    proof (rule assms(3))
      show "h a \<noteq> h x" using Cons.prems(1) x by force
    qed
    then show ?thesis using Cons.IH Cons.prems(1) x by (simp add: map_filter_Cons)
  qed
qed simp

lemma map_filter_filter:
  "(\<And>y. y \<in> set xs \<Longrightarrow> \<not> P y \<Longrightarrow> g y = None) \<Longrightarrow> List.map_filter g xs = List.map_filter g (filter P xs)"
  by (induction xs) (simp_all add: map_filter_Cons split: option.split)

lemma alias_field:
  assumes "(''MAX_LENGTH'', field, kind) \<in> set env_keys"
  shows "field = ''max_gen_length''"
proof -
  have "(''MAX_LENGTH'', ''max_gen_length'', K_Size) \<in> set file_keys"
    by (simp add: file_keys_def f_length_alias_def)
  then show ?thesis
    using assms file_keys_distinct unfolding tables_agree [symmetric] by (metis Pair_inject map_of_eq_Some_iff option.inject)
qed

lemma single_env_setting:
  assumes "(key, field, kind) \<in> set file_keys" and "field \<noteq> ''max_gen_length''"
  shows "env_layer env field = env_value env key kind"
proof -
  let ?g = "\<lambda>(key, f, kind). if f = field then env_value env key kind else None"
  have "key \<noteq> ''MAX_LENGTH''" using alias_field assms tables_agree by blast
  then have mem: "(key, field, kind) \<in> set single_keys" using assms(1) tables_agree by (simp add: single_keys_def)
  have "env_settings env field = List.map_filter ?g single_keys"
    unfolding env_settings_def single_keys_def
    by (rule map_filter_filter) (use alias_field assms(2) in auto)
  also have "\<dots> = (case ?g (key, field, kind) of None \<Rightarrow> [] | Some y \<Rightarrow> [y])"
    by (rule map_filter_distinct [OF single_keys_distinct mem]) auto
  finally show ?thesis by (simp add: env_layer_def last_setting_def split: option.split)
qed

section \<open>What the file says\<close>

definition key_line :: "string \<Rightarrow> string \<Rightarrow> string option" where
  "key_line k raw = (case config_line raw of Setting key value \<Rightarrow> if key = k then Some value else None | _ \<Rightarrow> None)"

text \<open>The value of the last line that sets the key.\<close>

definition file_value :: "files \<Rightarrow> string \<Rightarrow> string \<Rightarrow> string option" where
  "file_value fs path k =
     (case fs path of None \<Rightarrow> None | Some content \<Rightarrow> last_setting (List.map_filter (key_line k) (getlines content)))"

lemma last_setting_Cons: "last_setting (x # xs) = (case last_setting xs of None \<Rightarrow> Some x | Some y \<Rightarrow> Some y)"
  by (simp add: last_setting_def)

lemma set_field_file: "c_file (set_field f s c) = c_file c"
  by (simp add: set_field_def)

lemma config_file_line_file:
  "map_of (c_file (fst (config_file_line n raw x))) k =
     (case key_line k raw of None \<Rightarrow> map_of (c_file (fst x)) k | Some v \<Rightarrow> Some v)"
  by (auto simp: config_file_line_def key_line_def apply_setting_def Let_def set_field_file update_conv
      split: config_line.split option.split)

lemma config_file_lines_file:
  "map_of (c_file (fst (config_file_lines n ls x))) k =
     (case last_setting (List.map_filter (key_line k) ls) of None \<Rightarrow> map_of (c_file (fst x)) k | Some v \<Rightarrow> Some v)"
proof (induction ls arbitrary: n x)
  case Nil
  show ?case by (simp add: last_setting_def List.map_filter_def)
next
  case (Cons l ls)
  show ?case
    by (simp only: config_file_lines.simps Cons.IH config_file_line_file map_filter_Cons split: option.split)
      (simp add: last_setting_Cons)
qed

lemma config_file_line_distinct:
  "distinct (map fst (c_file (fst x))) \<Longrightarrow> distinct (map fst (c_file (fst (config_file_line n raw x))))"
  by (auto simp: config_file_line_def apply_setting_def Let_def set_field_file intro!: distinct_update
      split: config_line.split option.split)

lemma config_file_lines_distinct:
  "distinct (map fst (c_file (fst x))) \<Longrightarrow> distinct (map fst (c_file (fst (config_file_lines n ls x))))"
proof (induction ls arbitrary: n x)
  case (Cons l ls)
  show ?case unfolding config_file_lines.simps by (rule Cons.IH [OF config_file_line_distinct [OF Cons.prems]])
qed simp

lemma load_from_env_file: "c_file (load_from_env env c) = c_file c"
proof -
  have "c_file (env_step env c e) = c_file c" for c e
    by (simp add: env_step_def set_field_file split: prod.split option.split)
  then have "c_file (foldl (env_step env) c es) = c_file c" for es by (induction es arbitrary: c) simp_all
  then show ?thesis by (simp only: load_from_env_def)
qed

lemma load_config_file: "map_of (c_file (load_config fs env path)) k = file_value fs path k"
  by (simp add: load_config_def load_from_env_file load_from_file_def file_value_def config_file_lines_file
      default_config_def split: option.split)

lemma load_config_file_distinct: "distinct (map fst (c_file (load_config fs env path)))"
  by (simp add: load_config_def load_from_env_file load_from_file_def config_file_lines_distinct
      default_config_def split: option.split)

section \<open>Changed keys\<close>

lemma fst_image_filter: "k \<in> set (map fst (filter (\<lambda>(key, value). P key value) xs)) \<longleftrightarrow> (\<exists>v. (k, v) \<in> set xs \<and> P k v)"
  by (induction xs) auto

lemma changed_file_keys_set:
  assumes "distinct (map fst (c_file a))" and "distinct (map fst (c_file b))"
  shows "k \<in> set (changed_file_keys a b) \<longleftrightarrow> map_of (c_file a) k \<noteq> map_of (c_file b) k"
proof -
  have *: "k \<in> set (changed_file_keys a b) \<longleftrightarrow>
      (\<exists>v. map_of (c_file b) k = Some v \<and> map_of (c_file a) k \<noteq> Some v) \<or>
      map_of (c_file a) k \<noteq> None \<and> map_of (c_file b) k = None"
    unfolding changed_file_keys_def set_sort set_append Un_iff fst_image_filter map_of_eq_Some_iff [OF assms(2)]
    by (simp add: map_of_eq_None_iff conj_commute)
  show ?thesis unfolding * by (cases "map_of (c_file a) k"; cases "map_of (c_file b) k") auto
qed

lemma changed_file_keys_distinct:
  assumes "distinct (map fst (c_file a))" and "distinct (map fst (c_file b))"
  shows "distinct (changed_file_keys a b)"
proof -
  have "distinct (map fst (filter P (c_file b)))" for P using assms(2) by (rule distinct_map_filter)
  moreover have "map_of (c_file b) k \<noteq> None" if "(k, v) \<in> set (c_file b)" for k v
    using that by (metis fst_conv image_eqI map_of_eq_None_iff)
  ultimately show ?thesis using assms(1) by (auto simp: changed_file_keys_def distinct_map_filter) fastforce
qed

section \<open>What is never shown\<close>

definition secret_fields :: "string list" where
  "secret_fields = [''metrics_server_headers'', ''metrics_db_url'', ''ftp_data_server_secret'', ''name_service_headers'']"

definition same_public :: "fields \<Rightarrow> fields \<Rightarrow> bool" where
  "same_public c c' \<longleftrightarrow> (\<forall>f. f \<notin> set secret_fields \<longrightarrow> c f = c' f) \<and>
     (\<forall>f \<in> set secret_fields. (the_text (c f) = []) = (the_text (c' f) = []))"

text \<open>Every line about a secret field prints text under a hidden key.\<close>

fun guarded :: "print_item \<Rightarrow> bool" where
  "guarded (Heading _) = True"
| "guarded (Item key form f) = (f \<in> set secret_fields \<longrightarrow> hidden_key key \<and> form = As_Text)"

lemma guarded1: "list_all guarded print_items1"
  by code_simp

lemma guarded2: "list_all guarded print_items2"
  by code_simp

lemma guarded_line: "guarded i \<Longrightarrow> same_public c c' \<Longrightarrow> print_line c i = print_line c' i"
  by (cases i) (auto simp: same_public_def shown_value_def)

lemma guarded_lines: "list_all guarded is \<Longrightarrow> same_public c c' \<Longrightarrow> map (print_line c) is = map (print_line c') is"
  by (induction "is") (simp_all add: guarded_line)

section \<open>Reloads in a row\<close>

text \<open>A daemon loads its configuration once and then reloads whatever the file and the environment hold each time,
  under the flags of its command line.\<close>

definition reading :: "(ServiceConfig \<Rightarrow> ServiceConfig) option \<Rightarrow> string \<Rightarrow> files \<times> environment \<Rightarrow> ServiceConfig" where
  "reading cli_overrides path now =
     (case cli_overrides of None \<Rightarrow> id | Some f \<Rightarrow> f) (load_config (fst now) (snd now) path)"

definition reload_once ::
  "string list option \<Rightarrow> (ServiceConfig \<Rightarrow> ServiceConfig) option \<Rightarrow> string list option \<Rightarrow> string \<Rightarrow>
     ServiceConfig \<Rightarrow> files \<times> environment \<Rightarrow> ServiceConfig" where
  "reload_once live_keys cli_overrides cli_keys path config now =
     r_config (reload (fst now) (snd now) live_keys cli_overrides cli_keys path config)"

lemma reload_outcome:
  "reload fs env live_keys cli_overrides cli_keys path config =
     (let new = reading cli_overrides path (fs, env); changed = changed_file_keys config new in
      if validate new \<noteq> [] then
        \<lparr>r_ok = False, r_config = config, r_errors = validate new, r_changes = [], r_restart = [], r_held = []\<rparr>
      else
        \<lparr>r_ok = True, r_config = new, r_errors = [], r_changes = detect_changes config new,
         r_restart = filter (\<lambda>key. \<not> held_key cli_keys key \<and> \<not> live_key live_keys key) changed,
         r_held = filter (held_key cli_keys) changed\<rparr>)"
  by (cases cli_overrides) (simp_all add: reload_def reading_def Let_def)

lemma reload_once_eq:
  "reload_once live_keys cli_overrides cli_keys path config now =
     (if validate (reading cli_overrides path now) = [] then reading cli_overrides path now else config)"
  by (simp add: reload_once_def reload_outcome Let_def)

lemma reloads_last:
  "foldl (reload_once live_keys cli_overrides cli_keys path) config attempts =
     List.last (config # filter (\<lambda>c. validate c = []) (map (reading cli_overrides path) attempts))"
proof (induction attempts arbitrary: config)
  case (Cons now attempts)
  then show ?case by (simp add: reload_once_eq)
qed simp

lemma load_nothing: "load_config Map.empty Map.empty path = default_config"
proof -
  have "env_step Map.empty c e = c" for c e
    by (simp add: env_step_def env_value_def get_env_def split: prod.split)
  then have "foldl (env_step Map.empty) c es = c" for c es by (induction es) simp_all
  then show ?thesis by (simp add: load_config_def load_from_env_def load_from_file_def)
qed

section \<open>Properties\<close>

text \<open>C24: Loading implements a stack of three layers: every field ends with its last valid setting of the
  environment, without one with the last valid setting of the file, without that with its default. Invalid lines,
  unknown keys and unparsable values change nothing.\<close>

theorem load_layers:
  "c_fields (load_config fs env path) = overlay (overlay default_fields (file_layer fs path)) (env_layer env)"
  by (simp only: load_config_def load_from_env_layer load_from_file_layer default_config_def ServiceConfig.simps)

text \<open>For every key a configuration file may hold, the environment variable of the same name sets the same
  field through the same parser and wins over the file; empty and unparsable variables are ignored.
  (\<open>max_gen_length\<close> has two keys.)\<close>

theorem env_wins:
  assumes "(key, field, kind) \<in> set file_keys" and "field \<noteq> ''max_gen_length''"
  shows "c_fields (load_config fs env path) field =
    (case env_value env key kind of
       Some s \<Rightarrow> s
     | None \<Rightarrow> overlay default_fields (file_layer fs path) field)"
  by (simp add: load_config_def load_from_env_layer load_from_file_layer default_config_def
      single_env_setting [OF assms] overlay_def split: option.split)

theorem env_wins_witness:
  "c_fields (load_config [''c'' \<mapsto> ''RUN_ID=a''] [''RUN_ID'' \<mapsto> ''b''] ''c'') ''run_id'' = Text ''b''"
proof -
  have "(''RUN_ID'', ''run_id'', K_Text) \<in> set file_keys" by (simp add: file_keys_def f_registry_def)
  from env_wins [OF this, of "[''c'' \<mapsto> ''RUN_ID=a'']" "[''RUN_ID'' \<mapsto> ''b'']" "''c''"]
  show ?thesis by (simp add: env_value_def get_env_def)
qed

text \<open>The built-in defaults are a configuration the program accepts: without a file and without any variable
  the loaded configuration passes every check.\<close>

theorem defaults_are_valid:
  "validate (load_config Map.empty Map.empty path) = []"
  by (simp only: load_nothing default_valid)

text \<open>C27: Reloading is all or nothing. After any sequence of attempts, whatever the file and the environment held
  each time and whatever flags the command line sets, the configuration in use is the last attempt's reading (file,
  environment, flags) that passes validation, and the first configuration if none did; an attempt reports success
  exactly when its reading is valid, and otherwise its messages. So a valid configuration never gives way to an
  invalid one.\<close>

theorem reload_all_or_nothing:
  "foldl (reload_once live_keys cli_overrides cli_keys path) config attempts =
     List.last (config # filter (\<lambda>c. validate c = []) (map (reading cli_overrides path) attempts)) \<and>
   r_errors (reload fs env live_keys cli_overrides cli_keys path config) = validate (reading cli_overrides path (fs, env)) \<and>
   r_ok (reload fs env live_keys cli_overrides cli_keys path config) =
     (validate (reading cli_overrides path (fs, env)) = []) \<and>
   (validate config = [] \<longrightarrow>
     validate (foldl (reload_once live_keys cli_overrides cli_keys path) config attempts) = [])"
proof -
  let ?valid = "filter (\<lambda>c. validate c = []) (map (reading cli_overrides path) attempts)"
  have "validate (List.last (config # ?valid)) = []" if "validate config = []"
    using that last_in_set [of "config # ?valid"] by (auto simp del: last.simps)
  then show ?thesis by (simp add: reloads_last reload_outcome Let_def del: last.simps)
qed

theorem reload_all_or_nothing_witness:
  "validate (reload_once None (Some (set_field ''run_id'' (Text ''r''))) None ''c'' default_config (Map.empty, Map.empty)) = []"
  using reload_all_or_nothing [of None "Some (set_field ''run_id'' (Text ''r''))" None "''c''" default_config
      "[(Map.empty, Map.empty)]"] default_valid by simp

text \<open>C28: A reload that succeeds warns about exactly those keys whose value in the file changed (set, altered or
  removed) and that it cannot put into effect: the ones a command-line flag holds, and of the others the ones the
  program cannot apply live; each once. A changed key that is live and not held gives no warning. The flags set
  fields, not what was read from the file.\<close>

theorem reload_reports_exactly:
  assumes "r_ok (reload fs env live_keys cli_overrides cli_keys path old)"
    and "c_file old = c_file (load_config fs0 env0 path0)"
    and "\<And>f c. cli_overrides = Some f \<Longrightarrow> c_file (f c) = c_file c"
  shows "let r = reload fs env live_keys cli_overrides cli_keys path old;
      changed = (\<lambda>k. file_value fs0 path0 k \<noteq> file_value fs path k) in
    distinct (r_restart r @ r_held r) \<and>
    (\<forall>k. k \<in> set (r_held r) \<longleftrightarrow> changed k \<and> held_key cli_keys k) \<and>
    (\<forall>k. k \<in> set (r_restart r) \<longleftrightarrow> changed k \<and> \<not> held_key cli_keys k \<and> \<not> live_key live_keys k)"
proof -
  let ?old = "load_config fs0 env0 path0" and ?new = "load_config fs env path"
  have new: "c_file (reading cli_overrides path (fs, env)) = c_file ?new"
    using assms(3) by (simp add: reading_def split: option.split)
  have keys: "changed_file_keys old (reading cli_overrides path (fs, env)) = changed_file_keys ?old ?new"
    by (simp add: changed_file_keys_def assms(2) new)
  have "k \<in> set (changed_file_keys ?old ?new) \<longleftrightarrow> file_value fs0 path0 k \<noteq> file_value fs path k" for k
    by (simp add: changed_file_keys_set load_config_file_distinct load_config_file)
  moreover have "distinct (changed_file_keys ?old ?new)"
    by (simp add: changed_file_keys_distinct load_config_file_distinct)
  ultimately show ?thesis using assms(1) by (auto simp: reload_outcome Let_def keys split: if_splits)
qed

theorem reload_reports_exactly_witness:
  "''PORT'' \<in> set (r_restart (reload Map.empty Map.empty (Some []) None None ''c''
     (load_config [''c'' \<mapsto> ''PORT=81''] Map.empty ''c'')))"
proof -
  let ?r = "\<lambda>c. reload Map.empty Map.empty (Some []) None None ''c'' c"
  have ok: "r_ok (?r c)" for c by (simp add: reload_def Let_def load_nothing default_valid)
  have "file_value [''c'' \<mapsto> ''PORT=81''] ''c'' ''PORT'' \<noteq> None"
    by code_simp
  moreover have "file_value Map.empty ''c'' k = None" for k by (simp add: file_value_def)
  ultimately show ?thesis
    using reload_reports_exactly [OF ok refl, of "[''c'' \<mapsto> ''PORT=81'']" Map.empty "''c''"]
    by (simp add: Let_def held_key_def live_key_def)
qed

text \<open>C29: A printed configuration reveals nothing of the header lists, the database URL and the FTP secret but
  whether they are set: configurations that differ only in those print alike.\<close>

theorem print_hides_secrets:
  assumes "same_public (c_fields config) (c_fields config')"
  shows "config_to_string config = config_to_string config'"
proof -
  have "list_all guarded print_items" using guarded1 guarded2 by (simp only: print_items_def list_all_append)
  from guarded_lines [OF this assms] show ?thesis by (simp only: config_to_string_def)
qed

theorem print_hides_secrets_witness:
  "config_to_string (set_field ''metrics_db_url'' (Text ''postgres://u:one@h'') default_config) =
   config_to_string (set_field ''metrics_db_url'' (Text ''postgres://u:two@h'') default_config)"
  by (rule print_hides_secrets) (simp add: same_public_def set_field_def secret_fields_def)

text \<open>A reload, however, describes a changed database URL in full.\<close>

lemma reload_shows_db_url:
  "describe_change \<lparr>c_fields = f, c_file = [(''METRICS_DB_URL'', ''a'')]\<rparr>
     \<lparr>c_fields = g, c_file = [(''METRICS_DB_URL'', ''postgres://u:pw@h'')]\<rparr> ''METRICS_DB_URL'' =
   ''METRICS_DB_URL: '' @ in_quotes ''a'' @ '' -> '' @ in_quotes ''postgres://u:pw@h''"
proof -
  have "\<not> is_secret_key ''METRICS_DB_URL''" by code_simp
  then show ?thesis by (simp add: describe_change_def)
qed

end
