(* ===== verification/Registry_Types.thy ===== *)
theory Registry_Types
  imports Utf8
begin

text \<open>
  The data of the dataset registry (\<open>src/src/RegistryTransport.hpp\<close>): trained records, queue entries, their
  identity, responses, and which paths may be queued (\<open>registry_path_problem\<close> of
  \<open>src/src/RegistryTransport.cpp\<close>).
\<close>

section \<open>Records\<close>

record DataVersion =
  data_file :: string
  dv_checksum :: string
  num_samples :: int
  trained :: bool
  model_id :: string
  dv_added_utc :: string
  dv_source :: string
  dv_segment_start :: int
  dv_segment_count :: int

record PendingEntry =
  pe_path :: string
  pe_run_id :: string
  pe_model_name :: string
  pe_source :: string
  pe_added_utc :: string
  pe_size_bytes :: int
  pe_num_entries :: int
  pe_checksum :: string
  pe_segment_start :: int
  pe_segment_count :: int
  pe_claimed_unix :: int

definition pending_entry :: "string \<Rightarrow> int \<Rightarrow> int \<Rightarrow> PendingEntry" where
  "pending_entry path segment_start segment_count =
     \<lparr>pe_path = path, pe_run_id = [], pe_model_name = [], pe_source = [], pe_added_utc = [], pe_size_bytes = 0,
      pe_num_entries = - 1, pe_checksum = [], pe_segment_start = segment_start, pe_segment_count = segment_count,
      pe_claimed_unix = 0\<rparr>"

text \<open>\<open>SegmentTarget\<close> and \<open>PendingFileRange\<close>: a path and a range of its rows, all of them when the start is negative.\<close>

record SegmentTarget =
  st_path :: string
  st_start :: int
  st_count :: int

record FileToken =
  ft_registry_path :: string
  ftp_path :: string
  ftp_username :: string
  ftp_password :: string
  ft_checksum :: string
  ft_size_bytes :: int
  token_expires_utc :: string
  ft_segment_start :: int
  ft_segment_count :: int

definition file_token :: "PendingEntry \<Rightarrow> FileToken" where
  "file_token e =
     \<lparr>ft_registry_path = pe_path e, ftp_path = [], ftp_username = [], ftp_password = [], ft_checksum = [],
      ft_size_bytes = 0, token_expires_utc = [], ft_segment_start = pe_segment_start e,
      ft_segment_count = pe_segment_count e\<rparr>"

record AcquireResponse =
  ar_run_id :: string
  ftp_server_host :: string
  ftp_server_port :: int
  ftps_enabled :: bool
  ar_files :: "FileToken list"
  ar_failed :: bool
  claim_lease_seconds :: int

definition acquire_response :: "string \<Rightarrow> AcquireResponse" where
  "acquire_response run_id =
     \<lparr>ar_run_id = run_id, ftp_server_host = [], ftp_server_port = 2121, ftps_enabled = False, ar_files = [],
      ar_failed = False, claim_lease_seconds = 0\<rparr>"

definition file_ranges :: "AcquireResponse \<Rightarrow> SegmentTarget list" where
  "file_ranges resp =
     map (\<lambda>f. \<lparr>st_path = ft_registry_path f, st_start = ft_segment_start f, st_count = ft_segment_count f\<rparr>) (ar_files resp)"

definition registry_paths :: "AcquireResponse \<Rightarrow> string list" where
  "registry_paths resp = map ft_registry_path (ar_files resp)"

section \<open>Identity\<close>

definition segment_matches :: "PendingEntry \<Rightarrow> string \<Rightarrow> int \<Rightarrow> int \<Rightarrow> bool" where
  "segment_matches e path segment_start segment_count =
     (if pe_path e \<noteq> path then False
      else if segment_start < 0 then pe_segment_start e < 0
      else pe_segment_start e = segment_start \<and> pe_segment_count e = segment_count)"

definition trained_matches :: "DataVersion \<Rightarrow> string \<Rightarrow> int \<Rightarrow> int \<Rightarrow> bool" where
  "trained_matches dv path segment_start segment_count =
     (if data_file dv \<noteq> path then False
      else if segment_start < 0 then dv_segment_start dv < 0
      else dv_segment_start dv = segment_start \<and> dv_segment_count dv = segment_count)"

text \<open>Both compare units: a file, or a range of its rows.\<close>

type_synonym work_unit = "string \<times> (int \<times> int) option"

definition unit_of :: "string \<Rightarrow> int \<Rightarrow> int \<Rightarrow> work_unit" where
  "unit_of path start count = (path, if start < 0 then None else Some (start, count))"

definition pending_unit :: "PendingEntry \<Rightarrow> work_unit" where
  "pending_unit e = unit_of (pe_path e) (pe_segment_start e) (pe_segment_count e)"

definition trained_unit :: "DataVersion \<Rightarrow> work_unit" where
  "trained_unit dv = unit_of (data_file dv) (dv_segment_start dv) (dv_segment_count dv)"

definition target_unit :: "SegmentTarget \<Rightarrow> work_unit" where
  "target_unit t = unit_of (st_path t) (st_start t) (st_count t)"

definition token_unit :: "FileToken \<Rightarrow> work_unit" where
  "token_unit f = unit_of (ft_registry_path f) (ft_segment_start f) (ft_segment_count f)"

lemma segment_matches_iff: "segment_matches e p s c \<longleftrightarrow> pending_unit e = unit_of p s c"
  by (auto simp: segment_matches_def pending_unit_def unit_of_def)

lemma trained_matches_iff: "trained_matches dv p s c \<longleftrightarrow> trained_unit dv = unit_of p s c"
  by (auto simp: trained_matches_def trained_unit_def unit_of_def)

lemma matches_target:
  "segment_matches e (st_path t) (st_start t) (st_count t) \<longleftrightarrow> pending_unit e = target_unit t"
  "trained_matches dv (st_path t) (st_start t) (st_count t) \<longleftrightarrow> trained_unit dv = target_unit t"
  by (simp_all only: segment_matches_iff trained_matches_iff target_unit_def)

lemma file_token_unit: "token_unit (file_token e) = pending_unit e"
  by (simp add: token_unit_def file_token_def pending_unit_def)

lemma pending_entry_unit: "pending_unit (pending_entry p s c) = unit_of p s c"
  by (simp add: pending_unit_def pending_entry_def)

lemma file_ranges_units: "map target_unit (file_ranges resp) = map token_unit (ar_files resp)"
  by (simp add: file_ranges_def target_unit_def token_unit_def)

section \<open>Paths that may be queued\<close>

datatype path_problem = Path_Ok | Path_Empty | Path_Control | Path_Not_Utf8

definition codes :: "string \<Rightarrow> nat list" where
  "codes s = map of_char s"

text \<open>The code point of a lead byte and its continuation bytes; \<open>None\<close> if one of them is no continuation byte.\<close>

fun continuation :: "nat \<Rightarrow> nat list \<Rightarrow> nat option" where
  "continuation cp [] = Some cp"
| "continuation cp (cc # ccs) =
     (if cc div 64 \<noteq> 2 then None else continuation (cp * 64 + cc mod 64) ccs)"

definition path_lead :: "nat \<Rightarrow> (nat \<times> nat) option" where
  "path_lead c =
     (if c < 0x80 then Some (1, c)
      else if 0xC2 \<le> c \<and> c \<le> 0xDF then Some (2, c mod 32)
      else if 0xE0 \<le> c \<and> c \<le> 0xEF then Some (3, c mod 16)
      else if 0xF0 \<le> c \<and> c \<le> 0xF4 then Some (4, c mod 8)
      else None)"

lemma path_lead_pos: "path_lead c = Some (len, cp) \<Longrightarrow> 0 < len"
  by (auto simp: path_lead_def split: if_splits)

function path_problem_bytes :: "nat list \<Rightarrow> path_problem" where
  "path_problem_bytes s =
     (case s of
        [] \<Rightarrow> Path_Ok
      | c # rest \<Rightarrow>
          if c < 0x20 \<or> c = 0x7F then Path_Control
          else case path_lead c of
            None \<Rightarrow> Path_Not_Utf8
          | Some (len, cp) \<Rightarrow>
              if len > length s then Path_Not_Utf8
              else case continuation cp (take (len - 1) rest) of
                None \<Rightarrow> Path_Not_Utf8
              | Some cp \<Rightarrow>
                  if len = 3 \<and> cp < 0x800 \<or> len = 4 \<and> (cp < 0x10000 \<or> cp > 0x10FFFF) \<or> 0xD800 \<le> cp \<and> cp \<le> 0xDFFF
                  then Path_Not_Utf8
                  else if 0x80 \<le> cp \<and> cp \<le> 0x9F then Path_Control
                  else path_problem_bytes (drop len s))"
  by pat_completeness auto
termination
  by (relation "measure length") (auto dest: path_lead_pos)

declare path_problem_bytes.simps [simp del]

definition registry_path_problem :: "string \<Rightarrow> path_problem" where
  "registry_path_problem path = (if path = [] then Path_Empty else path_problem_bytes (codes path))"

section \<open>Names of downloads\<close>

definition fnv1a :: "string \<Rightarrow> u64" where
  "fnv1a s = foldl (\<lambda>h c. (h XOR of_char c) * 1099511628211) 1469598103934665603 s"

definition hex_char :: "nat \<Rightarrow> char" where
  "hex_char d = ''0123456789abcdef'' ! d"

text \<open>The hexadecimal digits, least significant first, as the loop fills them in from the right.\<close>

primrec hex_digits :: "nat \<Rightarrow> u64 \<Rightarrow> string" where
  "hex_digits 0 h = []"
| "hex_digits (Suc n) h = hex_digits n (drop_bit 4 h) @ [hex_char (unat (h AND 0xF))]"

text \<open>After the last slash or backslash.\<close>

definition base_name :: "string \<Rightarrow> string" where
  "base_name path = rev (takeWhile (\<lambda>c. c \<noteq> CHR ''/'' \<and> c \<noteq> CHR 0x5C) (rev path))"

definition download_file_name :: "string \<Rightarrow> string" where
  "download_file_name path = hex_digits 16 (fnv1a path) @ ''_'' @ base_name path"

end
