(* ===== verification/Registry_Local.thy ===== *)
theory Registry_Local
  imports Registry_Types
begin

text \<open>
  \<open>LocalTransport\<close> of \<open>src/src/RegistryTransport.cpp\<close>: the pending queue and the trained registry that several
  trainers on one machine share. The store is the two files, as the entries their lines hold (\<open>None\<close>: no file),
  and which data files exist. Every call reads and writes the queue under the queue's lock; \<open>delete_paths\<close> and
  \<open>requeue_trained\<close> read the registry before they take the lock and write it after releasing it, so each is a part
  under the lock and a registry part outside, and the call as a whole is what happens when nothing comes between.
  What the system may refuse is in \<open>io\<close>: the lock, reading a file, replacing it, removing a data file.
\<close>

record registry_store =
  rs_registry :: "DataVersion list option"
  rs_pending :: "PendingEntry list option"
  rs_files :: "string \<Rightarrow> bool"

record io =
  io_lock :: bool
  io_read_registry :: bool
  io_read_pending :: bool
  io_save_registry :: bool
  io_save_pending :: bool
  io_remove :: "string \<Rightarrow> bool"
  io_now :: int

definition working_io :: "int \<Rightarrow> io" where
  "working_io now = \<lparr>io_lock = True, io_read_registry = True, io_read_pending = True, io_save_registry = True,
     io_save_pending = True, io_remove = (\<lambda>_. True), io_now = now\<rparr>"

text \<open>Loading; callers that ignore the result start from an empty list when it fails.\<close>

definition load_registry :: "io \<Rightarrow> registry_store \<Rightarrow> DataVersion list option" where
  "load_registry io s = (if io_read_registry io then rs_registry s else None)"

definition load_pending :: "io \<Rightarrow> registry_store \<Rightarrow> PendingEntry list option" where
  "load_pending io s = (if io_read_pending io then rs_pending s else None)"

definition entries_of :: "'a list option \<Rightarrow> 'a list" where
  "entries_of x = (case x of None \<Rightarrow> [] | Some es \<Rightarrow> es)"

definition save_registry :: "io \<Rightarrow> DataVersion list \<Rightarrow> registry_store \<Rightarrow> bool \<times> registry_store" where
  "save_registry io es s = (if io_save_registry io then (True, s\<lparr>rs_registry := Some es\<rparr>) else (False, s))"

definition save_pending :: "io \<Rightarrow> PendingEntry list \<Rightarrow> registry_store \<Rightarrow> bool \<times> registry_store" where
  "save_pending io es s = (if io_save_pending io then (True, s\<lparr>rs_pending := Some es\<rparr>) else (False, s))"

section \<open>Claims\<close>

definition eligible :: "string \<Rightarrow> PendingEntry \<Rightarrow> bool" where
  "eligible model e \<longleftrightarrow> pe_model_name e = [] \<or> pe_model_name e = model"

definition claimable :: "string \<Rightarrow> string \<Rightarrow> PendingEntry \<Rightarrow> bool" where
  "claimable run_id model e \<longleftrightarrow> (pe_run_id e = [] \<or> pe_run_id e = run_id) \<and> eligible model e"

text \<open>The loop of \<open>acquire\<close>; \<open>taken\<close> is \<open>resp.files.size()\<close>.\<close>

primrec claim_entries ::
  "string \<Rightarrow> string \<Rightarrow> int \<Rightarrow> int \<Rightarrow> int \<Rightarrow> PendingEntry list \<Rightarrow> PendingEntry list \<times> FileToken list" where
  "claim_entries run_id model limit now taken [] = ([], [])"
| "claim_entries run_id model limit now taken (e # es) =
     (if claimable run_id model e \<and> taken < limit then
        (case claim_entries run_id model limit now (taken + 1) es of
           (es', toks) \<Rightarrow> (e\<lparr>pe_run_id := run_id, pe_claimed_unix := now\<rparr> # es', file_token e # toks))
      else apfst ((#) e) (claim_entries run_id model limit now taken es))"

definition INT_MAX :: int where "INT_MAX = 2147483647"

definition acquire ::
  "string \<Rightarrow> int \<Rightarrow> string \<Rightarrow> io \<Rightarrow> registry_store \<Rightarrow> AcquireResponse \<times> registry_store" where
  "acquire run_id max_files model io s =
     (let resp = acquire_response run_id in
      if rs_pending s = None then (resp, s)
      else if \<not> io_lock io then (resp\<lparr>ar_failed := True\<rparr>, s)
      else
        (case claim_entries run_id model (if max_files > 0 then max_files else INT_MAX) (io_now io) 0
                (entries_of (load_pending io s)) of
           (entries, toks) \<Rightarrow>
             if toks = [] then (resp, s)
             else case save_pending io entries s of
               (ok, s) \<Rightarrow> (if ok then resp\<lparr>ar_files := toks\<rparr> else resp\<lparr>ar_failed := True\<rparr>, s)))"

definition release_entry :: "string \<Rightarrow> string list \<Rightarrow> SegmentTarget list \<Rightarrow> PendingEntry \<Rightarrow> PendingEntry" where
  "release_entry run_id paths segments e =
     (if pe_run_id e = run_id \<and>
         (pe_segment_start e < 0 \<and> pe_path e \<in> set paths \<or>
          list_ex (\<lambda>t. segment_matches e (st_path t) (st_start t) (st_count t)) segments)
      then e\<lparr>pe_run_id := []\<rparr> else e)"

definition release ::
  "string \<Rightarrow> string list \<Rightarrow> SegmentTarget list \<Rightarrow> io \<Rightarrow> registry_store \<Rightarrow> registry_store" where
  "release run_id paths segments io s =
     (if \<not> io_lock io then s
      else snd (save_pending io (map (release_entry run_id paths segments) (entries_of (load_pending io s))) s))"

section \<open>Recording trained units\<close>

definition claim_held :: "string \<Rightarrow> PendingEntry list \<Rightarrow> DataVersion \<Rightarrow> bool" where
  "claim_held run_id pending e \<longleftrightarrow>
     run_id = [] \<or>
     list_ex (\<lambda>p. pe_run_id p = run_id \<and>
       (if dv_segment_start e < 0 then pe_path p = data_file e
        else segment_matches p (data_file e) (dv_segment_start e) (dv_segment_count e))) pending"

definition trained_entry :: "string \<Rightarrow> string list \<Rightarrow> SegmentTarget list \<Rightarrow> PendingEntry \<Rightarrow> bool" where
  "trained_entry run_id trained_paths trained_segments e =
     (if run_id \<noteq> [] \<and> pe_run_id e \<noteq> run_id then False
      else if trained_segments = [] then pe_path e \<in> set trained_paths
      else if pe_segment_start e < 0 then pe_path e \<in> set trained_paths
      else list_ex (\<lambda>t. segment_matches e (st_path t) (st_start t) (st_count t)) trained_segments)"

definition commit_trained ::
  "string \<Rightarrow> DataVersion list \<Rightarrow> string list \<Rightarrow> SegmentTarget list \<Rightarrow> io \<Rightarrow> registry_store \<Rightarrow> registry_store" where
  "commit_trained run_id new_entries trained_paths trained_segments io s =
     (if \<not> io_lock io then s
      else
        let pending = entries_of (load_pending io s);
            registry = entries_of (load_registry io s) @ filter (claim_held run_id pending) new_entries;
            s = snd (save_registry io registry s)
        in snd (save_pending io (filter (\<lambda>e. \<not> trained_entry run_id trained_paths trained_segments e) pending) s))"

section \<open>Queueing and assigning\<close>

definition add_pending :: "string \<Rightarrow> int \<Rightarrow> int \<Rightarrow> io \<Rightarrow> registry_store \<Rightarrow> bool \<times> registry_store" where
  "add_pending path segment_start segment_count io s =
     (if registry_path_problem path \<noteq> Path_Ok then (False, s)
      else if \<not> io_lock io then (False, s)
      else
        let entries = entries_of (load_pending io s) in
        if list_ex (\<lambda>e. segment_matches e path segment_start segment_count) entries then (True, s)
        else save_pending io (entries @ [pending_entry path segment_start segment_count]) s)"

text \<open>The first entry that matches is changed.\<close>

primrec update_first :: "('a \<Rightarrow> bool) \<Rightarrow> ('a \<Rightarrow> 'a) \<Rightarrow> 'a list \<Rightarrow> 'a list" where
  "update_first P f [] = []"
| "update_first P f (x # xs) = (if P x then f x # xs else x # update_first P f xs)"

definition is_target :: "SegmentTarget \<Rightarrow> PendingEntry \<Rightarrow> bool" where
  "is_target t e = segment_matches e (st_path t) (st_start t) (st_count t)"

record AssignResult =
  as_assigned :: int
  as_paths :: "string list"
  as_segments :: "SegmentTarget list"

primrec assign_segments ::
  "string \<Rightarrow> SegmentTarget list \<Rightarrow> PendingEntry list \<Rightarrow> PendingEntry list \<times> SegmentTarget list" where
  "assign_segments model [] entries = (entries, [])"
| "assign_segments model (t # ts) entries =
     (if list_ex (is_target t) entries then
        apsnd ((#) t) (assign_segments model ts (update_first (is_target t) (\<lambda>e. e\<lparr>pe_model_name := model\<rparr>) entries))
      else assign_segments model ts entries)"

definition assign_match :: "string list \<Rightarrow> int \<Rightarrow> PendingEntry \<Rightarrow> bool" where
  "assign_match paths count e =
     (if paths \<noteq> [] then pe_segment_start e < 0 \<and> pe_path e \<in> set paths
      else if count > 0 then pe_segment_start e < 0 \<and> pe_model_name e = []
      else True)"

primrec assign_entries ::
  "string \<Rightarrow> string list \<Rightarrow> int \<Rightarrow> int \<Rightarrow> PendingEntry list \<Rightarrow> PendingEntry list \<times> string list" where
  "assign_entries model paths count done [] = ([], [])"
| "assign_entries model paths count done (e # es) =
     (if paths = [] \<and> count > 0 \<and> done \<ge> count then (e # es, [])
      else if assign_match paths count e then
        (case assign_entries model paths count (done + 1) es of
           (es', ps) \<Rightarrow> (e\<lparr>pe_model_name := model\<rparr> # es', pe_path e # ps))
      else apfst ((#) e) (assign_entries model paths count done es))"

definition assign ::
  "string \<Rightarrow> string list \<Rightarrow> int \<Rightarrow> SegmentTarget list \<Rightarrow> io \<Rightarrow> registry_store \<Rightarrow> AssignResult \<times> registry_store" where
  "assign model paths count segments io s =
     (let none = \<lparr>as_assigned = 0, as_paths = [], as_segments = []\<rparr> in
      if \<not> io_lock io then (none, s)
      else
        let entries = entries_of (load_pending io s);
            (entries, ps, ts) =
              (if segments \<noteq> [] then (case assign_segments model segments entries of (es, ts) \<Rightarrow> (es, [], ts))
               else (case assign_entries model paths count 0 entries of (es, ps) \<Rightarrow> (es, ps, [])));
            n = int (length ps + length ts)
        in if n > 0 then
             (case save_pending io entries s of
                (ok, s) \<Rightarrow> (if ok then \<lparr>as_assigned = n, as_paths = ps, as_segments = ts\<rparr> else none, s))
           else (\<lparr>as_assigned = n, as_paths = ps, as_segments = ts\<rparr>, s))"

record UnassignResult =
  un_unassigned :: int
  un_skipped :: int
  un_paths :: "string list"
  un_segments :: "SegmentTarget list"

text \<open>One target: the first match is cleared unless a run holds it; the pairs count skipped entries.\<close>

primrec unassign_segments ::
  "string \<Rightarrow> bool \<Rightarrow> SegmentTarget list \<Rightarrow> PendingEntry list \<Rightarrow> PendingEntry list \<times> int \<times> SegmentTarget list" where
  "unassign_segments model force [] entries = (entries, 0, [])"
| "unassign_segments model force (t # ts) entries =
     (let hit = (\<lambda>e. is_target t e \<and> (model = [] \<or> pe_model_name e = model)) in
      case find hit entries of
        None \<Rightarrow> unassign_segments model force ts entries
      | Some e \<Rightarrow>
          if pe_run_id e \<noteq> [] \<and> \<not> force then
            (case unassign_segments model force ts entries of (es, n, ts') \<Rightarrow> (es, n + 1, ts'))
          else
            (case unassign_segments model force ts (update_first hit (\<lambda>e. e\<lparr>pe_model_name := []\<rparr>) entries) of
               (es, n, ts') \<Rightarrow> (es, n, t # ts')))"

definition unassign_match :: "string \<Rightarrow> string list \<Rightarrow> PendingEntry \<Rightarrow> bool" where
  "unassign_match model paths e =
     (if paths = [] then pe_model_name e = model
      else pe_segment_start e < 0 \<and> pe_path e \<in> set paths \<and> (model = [] \<or> pe_model_name e = model))"

primrec unassign_entries ::
  "string \<Rightarrow> string list \<Rightarrow> bool \<Rightarrow> PendingEntry list \<Rightarrow> PendingEntry list \<times> int \<times> string list" where
  "unassign_entries model paths force [] = ([], 0, [])"
| "unassign_entries model paths force (e # es) =
     (case unassign_entries model paths force es of
        (es', n, ps) \<Rightarrow>
          if \<not> unassign_match model paths e then (e # es', n, ps)
          else if pe_run_id e \<noteq> [] \<and> \<not> force then (e # es', n + 1, ps)
          else (e\<lparr>pe_model_name := []\<rparr> # es', n, pe_path e # ps))"

definition unassign ::
  "string \<Rightarrow> string list \<Rightarrow> bool \<Rightarrow> SegmentTarget list \<Rightarrow> io \<Rightarrow> registry_store \<Rightarrow> UnassignResult \<times> registry_store" where
  "unassign model paths force segments io s =
     (let none = \<lparr>un_unassigned = 0, un_skipped = 0, un_paths = [], un_segments = []\<rparr> in
      if paths = [] \<and> segments = [] \<and> model = [] then (none, s)
      else if \<not> io_lock io then (none, s)
      else
        let entries = entries_of (load_pending io s);
            (entries, skipped, ps, ts) =
              (if segments \<noteq> [] then (case unassign_segments model force segments entries of (es, n, ts) \<Rightarrow> (es, n, [], ts))
               else (case unassign_entries model paths force entries of (es, n, ps) \<Rightarrow> (es, n, ps, [])));
            n = int (length ps + length ts);
            result = \<lparr>un_unassigned = n, un_skipped = skipped, un_paths = ps, un_segments = ts\<rparr>
        in if n > 0 then
             (case save_pending io entries s of
                (ok, s) \<Rightarrow> (if ok then result else result\<lparr>un_unassigned := 0, un_paths := [], un_segments := []\<rparr>, s))
           else (result, s))"

section \<open>Deleting\<close>

datatype delete_status = Deleted | Skipped_Active_Run | Delete_Not_Found

record DeleteDetail =
  de_path :: string
  de_status :: delete_status
  de_file_deleted :: bool
  de_start :: int
  de_count :: int

primrec remove_first :: "('a \<Rightarrow> bool) \<Rightarrow> 'a list \<Rightarrow> 'a list" where
  "remove_first P [] = []"
| "remove_first P (x # xs) = (if P x then xs else x # remove_first P xs)"

text \<open>\<open>fs::path\<close> compares roots and elements, so repeated slashes do not count.\<close>

definition path_elements :: "string \<Rightarrow> bool \<times> string list" where
  "path_elements p =
     (let parts = foldr (\<lambda>c acc. if c = CHR ''/'' then [] # acc else (c # hd acc) # tl acc) p [[]];
          names = filter (\<lambda>x. x \<noteq> []) parts
      in (p \<noteq> [] \<and> hd p = CHR ''/'',
          names @ (if names \<noteq> [] \<and> List.last p = CHR ''/'' then [[]] else [])))"

definition same_path :: "string \<Rightarrow> string \<Rightarrow> bool" where
  "same_path p q \<longleftrightarrow> path_elements p = path_elements q"

definition record_of_target :: "SegmentTarget \<Rightarrow> DataVersion \<Rightarrow> bool" where
  "record_of_target t dv =
     (if st_start t < 0 then data_file dv = st_path t
      else trained_matches dv (st_path t) (st_start t) (st_count t))"

text \<open>One target of \<open>delete_paths\<close>: queue, registry, existing files, and what is reported.\<close>

type_synonym delete_state = "PendingEntry list \<times> DataVersion list \<times> (string \<Rightarrow> bool)"

definition delete_target ::
  "string list \<Rightarrow> io \<Rightarrow> bool \<Rightarrow> bool \<Rightarrow> SegmentTarget \<Rightarrow> delete_state \<Rightarrow> DeleteDetail \<times> delete_state" where
  "delete_target own_files io force delete_files t x =
     (case x of (pending, registry, exists) \<Rightarrow>
        let entry = find (is_target t) pending;
            blocked = (case entry of None \<Rightarrow> False | Some e \<Rightarrow> pe_run_id e \<noteq> [] \<and> \<not> force);
            pending' = (if entry \<noteq> None \<and> \<not> blocked then remove_first (is_target t) pending else pending);
            registry' = filter (\<lambda>dv. \<not> record_of_target t dv) registry;
            found = (entry \<noteq> None \<or> registry' \<noteq> registry);
            own = list_ex (same_path (st_path t)) own_files;
            unlink = (\<not> blocked \<and> found \<and> delete_files \<and> st_start t < 0 \<and> \<not> own \<and> exists (st_path t)
              \<and> io_remove io (st_path t))
        in (\<lparr>de_path = st_path t,
              de_status = (if blocked then Skipped_Active_Run else if found then Deleted else Delete_Not_Found),
              de_file_deleted = unlink, de_start = st_start t, de_count = st_count t\<rparr>,
            (pending', registry', if unlink then exists(st_path t := False) else exists)))"

primrec delete_targets ::
  "string list \<Rightarrow> io \<Rightarrow> bool \<Rightarrow> bool \<Rightarrow> SegmentTarget list \<Rightarrow> delete_state \<Rightarrow> DeleteDetail list \<times> delete_state" where
  "delete_targets own_files io force delete_files [] x = ([], x)"
| "delete_targets own_files io force delete_files (t # ts) x =
     (case delete_target own_files io force delete_files t x of
        (d, x) \<Rightarrow> apfst ((#) d) (delete_targets own_files io force delete_files ts x))"

definition whole_file :: "string \<Rightarrow> SegmentTarget" where
  "whole_file p = \<lparr>st_path = p, st_start = - 1, st_count = - 1\<rparr>"

text \<open>The registry is read before the lock and written after it, so the call is three steps; \<open>delete_paths\<close> is
  what it does when nothing comes between.\<close>

definition delete_locked ::
  "string list \<Rightarrow> string list \<Rightarrow> bool \<Rightarrow> bool \<Rightarrow> SegmentTarget list \<Rightarrow> io \<Rightarrow> DataVersion list \<Rightarrow> registry_store \<Rightarrow>
     DeleteDetail list \<times> DataVersion list \<times> registry_store" where
  "delete_locked own_files paths force delete_files segments io registry s =
     (let pending = entries_of (load_pending io s) in
      case delete_targets own_files io force delete_files (map whole_file paths @ segments)
             (pending, registry, rs_files s) of
        (ds, pending', registry', exists) \<Rightarrow>
          let s = s\<lparr>rs_files := exists\<rparr> in
          (ds, registry', if pending' \<noteq> pending then snd (save_pending io pending' s) else s))"

definition delete_paths ::
  "string list \<Rightarrow> string list \<Rightarrow> bool \<Rightarrow> bool \<Rightarrow> SegmentTarget list \<Rightarrow> io \<Rightarrow> registry_store \<Rightarrow>
     DeleteDetail list \<times> registry_store" where
  "delete_paths own_files paths force delete_files segments io s =
     (if paths = [] \<and> segments = [] then ([], s)
      else
        let registry = entries_of (load_registry io s) in
        if \<not> io_lock io then ([], s)
        else case delete_locked own_files paths force delete_files segments io registry s of
          (ds, registry', s) \<Rightarrow>
            (ds, if registry' \<noteq> registry then snd (save_registry io registry' s) else s))"

section \<open>Training again\<close>

text \<open>Duplicates dropped, first occurrences kept.\<close>

definition remdups_first :: "'a list \<Rightarrow> 'a list" where
  "remdups_first xs = rev (remdups (rev xs))"

datatype requeue_status = Requeued | Already_Pending | Requeue_Not_Found

record RequeueResult =
  rq_ok :: bool
  rq_details :: "(string \<times> requeue_status) list"

definition requeued_entry :: "string \<Rightarrow> string \<Rightarrow> DataVersion \<Rightarrow> PendingEntry" where
  "requeued_entry model path dv =
     (pending_entry path (dv_segment_start dv) (dv_segment_count dv))
       \<lparr>pe_model_name := model, pe_source := dv_source dv, pe_added_utc := dv_added_utc dv, pe_checksum := dv_checksum dv\<rparr>"

primrec requeue_records ::
  "string \<Rightarrow> string \<Rightarrow> DataVersion list \<Rightarrow> PendingEntry list \<Rightarrow>
     (string \<times> requeue_status) list \<times> DataVersion list \<times> PendingEntry list" where
  "requeue_records model path [] pending = ([], [], pending)"
| "requeue_records model path (dv # dvs) pending =
     (if data_file dv \<noteq> path then
        (case requeue_records model path dvs pending of (ds, dvs', p) \<Rightarrow> (ds, dv # dvs', p))
      else if list_ex (\<lambda>e. segment_matches e path (dv_segment_start dv) (dv_segment_count dv)) pending then
        apfst ((#) (path, Already_Pending)) (requeue_records model path dvs pending)
      else apfst ((#) (path, Requeued)) (requeue_records model path dvs (pending @ [requeued_entry model path dv])))"

primrec requeue_paths ::
  "string \<Rightarrow> string list \<Rightarrow> DataVersion list \<Rightarrow> PendingEntry list \<Rightarrow>
     (string \<times> requeue_status) list \<times> DataVersion list \<times> PendingEntry list" where
  "requeue_paths model [] registry pending = ([], registry, pending)"
| "requeue_paths model (p # ps) registry pending =
     (case requeue_records model p registry pending of
        (ds, registry', pending') \<Rightarrow>
          apfst ((@) (if ds = [] then [(p, Requeue_Not_Found)] else ds)) (requeue_paths model ps registry' pending'))"

text \<open>As for \<open>delete_paths\<close>, the registry is read before the lock and written after it.\<close>

definition requeue_locked ::
  "string list \<Rightarrow> bool \<Rightarrow> string \<Rightarrow> io \<Rightarrow> DataVersion list \<Rightarrow> registry_store \<Rightarrow>
     RequeueResult \<times> DataVersion list \<times> registry_store" where
  "requeue_locked paths all_files model io registry s =
     (let pending = entries_of (load_pending io s);
          targets = remdups_first (if all_files then map data_file registry else paths)
      in case requeue_paths model targets registry pending of
        (ds, registry', pending') \<Rightarrow>
          let (ok, s) = (if registry' \<noteq> registry then save_pending io pending' s else (True, s))
          in (\<lparr>rq_ok = ok, rq_details = ds\<rparr>, registry', s))"

definition requeue_finish ::
  "io \<Rightarrow> DataVersion list \<Rightarrow> RequeueResult \<Rightarrow> DataVersion list \<Rightarrow> registry_store \<Rightarrow> RequeueResult \<times> registry_store" where
  "requeue_finish io registry result registry' s =
     (if registry' \<noteq> registry \<and> rq_ok result
      then (case save_registry io registry' s of (ok, s) \<Rightarrow> (result\<lparr>rq_ok := ok\<rparr>, s))
      else (result, s))"

definition requeue_trained ::
  "string list \<Rightarrow> bool \<Rightarrow> string \<Rightarrow> io \<Rightarrow> registry_store \<Rightarrow> RequeueResult \<times> registry_store" where
  "requeue_trained paths all_files model io s =
     (if paths = [] \<and> \<not> all_files then (\<lparr>rq_ok = True, rq_details = []\<rparr>, s)
      else
        let registry = entries_of (load_registry io s) in
        if \<not> io_lock io then (\<lparr>rq_ok = False, rq_details = []\<rparr>, s)
        else case requeue_locked paths all_files model io registry s of
          (result, registry', s) \<Rightarrow> requeue_finish io registry result registry' s)"

text \<open>The same call with the store as other processes leave it when they come in between: \<open>before\<close> the lock is
  taken, and \<open>after\<close> it is released and before the registry is written.\<close>

definition requeue_among ::
  "(registry_store \<Rightarrow> registry_store) \<Rightarrow> (registry_store \<Rightarrow> registry_store) \<Rightarrow>
     string list \<Rightarrow> bool \<Rightarrow> string \<Rightarrow> io \<Rightarrow> registry_store \<Rightarrow> RequeueResult \<times> registry_store" where
  "requeue_among before after paths all_files model io s =
     (if paths = [] \<and> \<not> all_files then (\<lparr>rq_ok = True, rq_details = []\<rparr>, s)
      else
        let registry = entries_of (load_registry io s);
            s = before s
        in if \<not> io_lock io then (\<lparr>rq_ok = False, rq_details = []\<rparr>, s)
           else case requeue_locked paths all_files model io registry s of
             (result, registry', s) \<Rightarrow> requeue_finish io registry result registry' (after s))"

lemma requeue_alone: "requeue_among (\<lambda>s. s) (\<lambda>s. s) = requeue_trained"
  by (simp add: fun_eq_iff requeue_among_def requeue_trained_def)

end
