(* ===== verification/Registry_Claims.thy ===== *)
theory Registry_Claims
  imports Registry_Local
begin

text \<open>
  What every operation of \<open>LocalTransport\<close> keeps of the queue: units are queued once, and a unit a run has claimed
  stays with that run until it gives it back. The queue parts of the calls of any number of trainers run one after
  the other, since each holds the queue's lock. A deletion or re-queueing that others interleave with is a sequence of
  its parts: the queue part, on whatever registry was read before the lock, and the later write of the registry.
\<close>

definition queue :: "registry_store \<Rightarrow> PendingEntry list" where
  "queue s = entries_of (rs_pending s)"

definition records :: "registry_store \<Rightarrow> DataVersion list" where
  "records s = entries_of (rs_registry s)"

lemma queued_now: "queue (s\<lparr>rs_pending := Some es\<rparr>) = es" "records (s\<lparr>rs_registry := Some dvs\<rparr>) = dvs"
    "queue (s\<lparr>rs_registry := Some dvs\<rparr>) = queue s" "records (s\<lparr>rs_pending := Some es\<rparr>) = records s"
  by (simp_all add: queue_def records_def entries_of_def)

definition queued_once :: "registry_store \<Rightarrow> bool" where
  "queued_once s \<longleftrightarrow> distinct (map pending_unit (queue s))"

definition holds :: "string \<Rightarrow> work_unit \<Rightarrow> PendingEntry list \<Rightarrow> bool" where
  "holds run_id u es \<longleftrightarrow> (\<exists>e \<in> set es. pending_unit e = u \<and> pe_run_id e = run_id)"

section \<open>Calls\<close>

datatype call =
    Acquire string int string
  | Release string "string list" "SegmentTarget list"
  | Commit string "DataVersion list" "string list" "SegmentTarget list"
  | Add string int int
  | Assign string "string list" int "SegmentTarget list"
  | Unassign string "string list" bool "SegmentTarget list"
  | Delete "string list" bool bool "SegmentTarget list"
  | Requeue "string list" bool string
  | Delete_Locked "DataVersion list" "string list" bool bool "SegmentTarget list"
  | Requeue_Locked "DataVersion list" "string list" bool string
  | Write_Registry "DataVersion list"

primrec call_step :: "string list \<Rightarrow> io \<Rightarrow> call \<Rightarrow> registry_store \<Rightarrow> registry_store" where
  "call_step own_files io (Acquire run n model) s = snd (acquire run n model io s)"
| "call_step own_files io (Release run ps ts) s = release run ps ts io s"
| "call_step own_files io (Commit run es ps ts) s = commit_trained run es ps ts io s"
| "call_step own_files io (Add p start count) s = snd (add_pending p start count io s)"
| "call_step own_files io (Assign model ps n ts) s = snd (assign model ps n ts io s)"
| "call_step own_files io (Unassign model ps force ts) s = snd (unassign model ps force ts io s)"
| "call_step own_files io (Delete ps force files ts) s = snd (delete_paths own_files ps force files ts io s)"
| "call_step own_files io (Requeue ps all_files model) s = snd (requeue_trained ps all_files model io s)"
| "call_step own_files io (Delete_Locked dvs ps force files ts) s =
     snd (snd (delete_locked own_files ps force files ts io dvs s))"
| "call_step own_files io (Requeue_Locked dvs ps all_files model) s = snd (snd (requeue_locked ps all_files model io dvs s))"
| "call_step own_files io (Write_Registry dvs) s = snd (save_registry io dvs s)"

definition call_steps :: "string list \<Rightarrow> (io \<times> call) list \<Rightarrow> registry_store \<Rightarrow> registry_store" where
  "call_steps own_files calls s = foldl (\<lambda>s (io, c). call_step own_files io c s) s calls"

section \<open>Loading and saving\<close>

lemma load_pending_cases: "entries_of (load_pending io s) = queue s \<or> entries_of (load_pending io s) = []"
  by (simp add: load_pending_def queue_def entries_of_def)

lemma load_pending_readable: "io_read_pending io \<Longrightarrow> entries_of (load_pending io s) = queue s"
  by (simp add: load_pending_def queue_def)

lemma entries_once: "queued_once s \<Longrightarrow> distinct (map pending_unit (entries_of (load_pending io s)))"
  using load_pending_cases [of io s] by (auto simp: queued_once_def)

lemma save_pending_queue: "queue (snd (save_pending io es s)) = (if io_save_pending io then es else queue s)"
  by (simp add: save_pending_def queue_def entries_of_def)

lemma save_registry_queue: "queue (snd (save_registry io es s)) = queue s"
  by (simp add: save_registry_def queue_def)

lemma save_registry_records: "records (snd (save_registry io es s)) = (if io_save_registry io then es else records s)"
  by (simp add: save_registry_def records_def entries_of_def)

lemma save_pending_records: "records (snd (save_pending io es s)) = records s"
  by (simp add: save_pending_def records_def)

lemma files_queue: "queue (s\<lparr>rs_files := f\<rparr>) = queue s"
  by (simp add: queue_def)

lemmas store_simps = save_pending_queue save_registry_queue save_registry_records save_pending_records files_queue

section \<open>Entries change in place\<close>

text \<open>Most operations change run, model and claim time of entries, never their unit.\<close>

lemma claim_entries_units: "map pending_unit (fst (claim_entries run model limit now taken es)) = map pending_unit es"
  by (induction es arbitrary: taken) (simp_all add: case_prod_unfold pending_unit_def)

text \<open>Assignments do not touch the run either.\<close>

definition claim_mark :: "PendingEntry \<Rightarrow> work_unit \<times> string" where
  "claim_mark e = (pending_unit e, pe_run_id e)"

lemma marks_units: "map claim_mark es = map claim_mark es' \<Longrightarrow> map pending_unit es = map pending_unit es'"
  by (metis (no_types, lifting) claim_mark_def fst_conv list.map_comp comp_def map_eq_conv)

lemma holds_mark: "holds run u es \<longleftrightarrow> (u, run) \<in> set (map claim_mark es)"
  by (auto simp: holds_def claim_mark_def)

text \<open>Whatever does not depend on the model is kept by assignments, for every entry.\<close>

definition model_free :: "(PendingEntry \<Rightarrow> 'a) \<Rightarrow> bool" where
  "model_free g \<longleftrightarrow> (\<forall>e m. g (e\<lparr>pe_model_name := m\<rparr>) = g e)"

lemma update_first_keep: "(\<And>e. g (f e) = g e) \<Longrightarrow> map g (update_first P f es) = map g es"
  by (induction es) simp_all

lemma assign_segments_keep: "model_free g \<Longrightarrow> map g (fst (assign_segments model ts es)) = map g es"
  by (induction ts arbitrary: es) (simp_all add: update_first_keep model_free_def)

lemma assign_entries_keep: "model_free g \<Longrightarrow> map g (fst (assign_entries model ps n k es)) = map g es"
  by (induction es arbitrary: k) (simp_all add: case_prod_unfold model_free_def)

lemma unassign_segments_keep: "model_free g \<Longrightarrow> map g (fst (unassign_segments model force ts es)) = map g es"
  by (cases force; induction ts arbitrary: es;
    simp add: case_prod_unfold Let_def update_first_keep model_free_def split: option.split)

lemma unassign_entries_keep: "model_free g \<Longrightarrow> map g (fst (unassign_entries model ps force es)) = map g es"
  by (cases force; induction es; simp add: case_prod_unfold model_free_def)

lemmas assignments_keep = assign_segments_keep assign_entries_keep unassign_segments_keep unassign_entries_keep

lemma claim_mark_free: "model_free claim_mark"
  by (simp add: model_free_def claim_mark_def pending_unit_def)

lemmas assignments_marks = assignments_keep [OF claim_mark_free]
lemmas assign_segments_marks = assignments_marks(1) and assign_entries_marks = assignments_marks(2)
  and unassign_segments_marks = assignments_marks(3) and unassign_entries_marks = assignments_marks(4)

lemmas units_kept = assign_segments_marks [THEN marks_units] assign_entries_marks [THEN marks_units]
  unassign_segments_marks [THEN marks_units] unassign_entries_marks [THEN marks_units]

lemma release_entry_unit: "pending_unit (release_entry run ps ts e) = pending_unit e"
  by (simp add: release_entry_def pending_unit_def)

section \<open>Units are queued once\<close>

lemma once_from_units:
  "map pending_unit es = map pending_unit (entries_of (load_pending io s)) \<Longrightarrow> queued_once s \<Longrightarrow>
     queued_once (snd (save_pending io es s))"
  using entries_once [of s io] by (auto simp: queued_once_def save_pending_queue)

lemma once_filtered:
  "distinct (map pending_unit es) \<Longrightarrow> distinct (map pending_unit (filter P es))"
  by (rule distinct_map_filter)

lemma remove_first_units: "distinct (map pending_unit es) \<Longrightarrow> distinct (map pending_unit (remove_first P es))"
proof -
  have "set (remove_first P es) \<subseteq> set es" for es :: "PendingEntry list" by (induction es) auto
  then show "distinct (map pending_unit es) \<Longrightarrow> distinct (map pending_unit (remove_first P es))"
    by (induction es) (auto dest!: subsetD)
qed

lemma acquire_once: "queued_once s \<Longrightarrow> queued_once (snd (acquire run n model io s))"
  unfolding acquire_def Let_def
  by (auto simp: case_prod_unfold once_from_units [OF claim_entries_units] split: prod.split)

lemma release_once: "queued_once s \<Longrightarrow> queued_once (release run ps ts io s)"
  unfolding release_def by (auto intro!: once_from_units simp: release_entry_unit)

lemma commit_once: "queued_once s \<Longrightarrow> queued_once (commit_trained run es ps ts io s)"
  using entries_once [of s io]
  by (auto simp: commit_trained_def Let_def queued_once_def store_simps once_filtered)

lemma add_once: "queued_once s \<Longrightarrow> queued_once (snd (add_pending p start count io s))"
  using entries_once [of s io]
  by (auto simp: add_pending_def Let_def queued_once_def store_simps list_ex_iff segment_matches_iff
      pending_entry_unit)

lemma assign_once: "queued_once s \<Longrightarrow> queued_once (snd (assign model ps n ts io s))"
  unfolding assign_def Let_def
  by (auto simp: case_prod_unfold once_from_units [OF units_kept(1)] once_from_units [OF units_kept(2)])

lemma unassign_once: "queued_once s \<Longrightarrow> queued_once (snd (unassign model ps force ts io s))"
  unfolding unassign_def Let_def
  by (auto simp: case_prod_unfold once_from_units [OF units_kept(3)] once_from_units [OF units_kept(4)])

lemma delete_target_pending:
  "fst (snd (delete_target own io force files t (pending, x))) = pending \<or>
   fst (snd (delete_target own io force files t (pending, x))) = remove_first (is_target t) pending"
  by (simp add: delete_target_def Let_def split: prod.split)

lemma delete_targets_units:
  "distinct (map pending_unit (fst x)) \<Longrightarrow>
     distinct (map pending_unit (fst (snd (delete_targets own io force files ts x))))"
proof (induction ts arbitrary: x)
  case (Cons t ts)
  have "distinct (map pending_unit (fst (snd (delete_target own io force files t x))))"
    using Cons.prems delete_target_pending [of own io force files t "fst x" "snd x"] remove_first_units by fastforce
  then show ?case by (simp add: case_prod_unfold Cons.IH)
qed simp

lemma delete_locked_once: "queued_once s \<Longrightarrow> queued_once (snd (snd (delete_locked own ps force files ts io dvs s)))"
  using entries_once [of s io] delete_targets_units
  by (auto simp: delete_locked_def Let_def case_prod_unfold queued_once_def store_simps)

lemma write_registry_once: "queued_once s \<Longrightarrow> queued_once (snd (save_registry io dvs s))"
  by (simp add: queued_once_def store_simps)

lemma delete_once: "queued_once s \<Longrightarrow> queued_once (snd (delete_paths own ps force files ts io s))"
  by (simp add: delete_paths_def Let_def case_prod_unfold delete_locked_once write_registry_once)

lemma requeued_entry_unit: "pending_unit (requeued_entry model p dv) = unit_of p (dv_segment_start dv) (dv_segment_count dv)"
  by (simp add: requeued_entry_def pending_unit_def pending_entry_def)

lemma requeue_records_units:
  "distinct (map pending_unit pending) \<Longrightarrow> distinct (map pending_unit (snd (snd (requeue_records model p dvs pending))))"
proof (induction dvs arbitrary: pending)
  case (Cons dv dvs)
  have "distinct (map pending_unit (pending @ [requeued_entry model p dv]))"
    if "\<not> list_ex (\<lambda>e. segment_matches e p (dv_segment_start dv) (dv_segment_count dv)) pending"
    using that Cons.prems by (auto simp: list_ex_iff segment_matches_iff requeued_entry_unit)
  then show ?case using Cons by (simp add: case_prod_unfold)
qed simp

lemma requeue_paths_units:
  "distinct (map pending_unit pending) \<Longrightarrow> distinct (map pending_unit (snd (snd (requeue_paths model ps dvs pending))))"
  by (induction ps arbitrary: dvs pending) (simp_all add: case_prod_unfold requeue_records_units)

lemma requeue_locked_once: "queued_once s \<Longrightarrow> queued_once (snd (snd (requeue_locked ps all_files model io dvs s)))"
  using entries_once [of s io] requeue_paths_units
  by (auto simp: requeue_locked_def Let_def case_prod_unfold queued_once_def store_simps)

lemma requeue_finish_queue: "queue (snd (requeue_finish io dvs result dvs' s)) = queue s"
  by (simp add: requeue_finish_def case_prod_unfold store_simps)

lemma requeue_once: "queued_once s \<Longrightarrow> queued_once (snd (requeue_trained ps all_files model io s))"
  using requeue_locked_once [of s ps all_files model io]
  by (simp add: requeue_trained_def Let_def case_prod_unfold queued_once_def requeue_finish_queue)

lemmas operations_once = acquire_once release_once commit_once add_once assign_once unassign_once delete_once requeue_once
  delete_locked_once requeue_locked_once write_registry_once

lemma call_step_once: "queued_once s \<Longrightarrow> queued_once (call_step own io c s)"
  by (cases c) (simp_all add: operations_once)

lemma call_steps_once: "queued_once s \<Longrightarrow> queued_once (call_steps own calls s)"
  unfolding call_steps_def by (induction calls arbitrary: s) (auto simp: call_step_once)

section \<open>Claims stay\<close>

text \<open>The calls by which a claim of \<open>run_id\<close> may end: its own release, a commit of its own or without a run, and
  a forced deletion.\<close>

primrec gives_back :: "string \<Rightarrow> call \<Rightarrow> bool" where
  "gives_back run_id (Acquire run n model) = False"
| "gives_back run_id (Release run ps ts) = (run = run_id)"
| "gives_back run_id (Commit run es ps ts) = (run = run_id \<or> run = [])"
| "gives_back run_id (Add p start count) = False"
| "gives_back run_id (Assign model ps n ts) = False"
| "gives_back run_id (Unassign model ps force ts) = False"
| "gives_back run_id (Delete ps force files ts) = force"
| "gives_back run_id (Requeue ps all_files model) = False"
| "gives_back run_id (Delete_Locked dvs ps force files ts) = force"
| "gives_back run_id (Requeue_Locked dvs ps all_files model) = False"
| "gives_back run_id (Write_Registry dvs) = False"

lemma holds_Cons: "holds run u (e # es) \<longleftrightarrow> pending_unit e = u \<and> pe_run_id e = run \<or> holds run u es"
  by (auto simp: holds_def)

lemma holds_append: "holds run u es \<Longrightarrow> holds run u (es @ es')"
  by (auto simp: holds_def)

lemma claim_entries_hold:
  "holds r u es \<Longrightarrow> r \<noteq> [] \<Longrightarrow> holds r u (fst (claim_entries run model limit now taken es))"
proof (induction es arbitrary: taken)
  case (Cons e es)
  then show ?case by (auto simp: case_prod_unfold holds_Cons claimable_def pending_unit_def)
qed (simp add: holds_def)

lemma save_pending_holds:
  "holds r u (queue s) \<Longrightarrow> (holds r u (queue s) \<Longrightarrow> holds r u es) \<Longrightarrow> holds r u (queue (snd (save_pending io es s)))"
  by (simp add: save_pending_queue)

lemma acquire_holds:
  assumes "holds r u (queue s)" and "r \<noteq> []" and "io_read_pending io"
  shows "holds r u (queue (snd (acquire run n model io s)))"
  using assms claim_entries_hold [OF assms(1,2)]
  by (auto simp: acquire_def Let_def case_prod_unfold load_pending_readable store_simps)

lemma release_holds:
  assumes "holds r u (queue s)" and "run \<noteq> r" and "io_read_pending io"
  shows "holds r u (queue (release run ps ts io s))"
proof -
  obtain e where e: "e \<in> set (queue s)" "pending_unit e = u" "pe_run_id e = r" using assms(1) by (auto simp: holds_def)
  have "release_entry run ps ts e = e" using e(3) assms(2) by (simp add: release_entry_def)
  then have "holds r u (map (release_entry run ps ts) (queue s))" using e by (force simp: holds_def)
  then show ?thesis using assms by (simp add: release_def load_pending_readable store_simps)
qed

lemma commit_holds:
  assumes "holds r u (queue s)" and "run \<noteq> r" and "run \<noteq> []" and "io_read_pending io"
  shows "holds r u (queue (commit_trained run es ps ts io s))"
  using assms by (auto simp: commit_trained_def Let_def load_pending_readable store_simps holds_def trained_entry_def)

lemma add_holds: "holds r u (queue s) \<Longrightarrow> io_read_pending io \<Longrightarrow> holds r u (queue (snd (add_pending p start count io s)))"
  by (simp add: add_pending_def Let_def load_pending_readable store_simps holds_append)

lemma holds_marks: "map claim_mark es = map claim_mark es' \<Longrightarrow> holds r u es = holds r u es'"
  by (simp add: holds_mark)

lemma assign_holds:
  "holds r u (queue s) \<Longrightarrow> io_read_pending io \<Longrightarrow> holds r u (queue (snd (assign model ps n ts io s)))"
  by (simp add: assign_def Let_def case_prod_unfold load_pending_readable store_simps
      assign_segments_marks [THEN holds_marks] assign_entries_marks [THEN holds_marks])

lemma unassign_holds:
  "holds r u (queue s) \<Longrightarrow> io_read_pending io \<Longrightarrow> holds r u (queue (snd (unassign model ps force ts io s)))"
  by (simp add: unassign_def Let_def case_prod_unfold load_pending_readable store_simps
      unassign_segments_marks [THEN holds_marks] unassign_entries_marks [THEN holds_marks])

text \<open>Without force a claimed entry survives a deletion, because the target's only match is the claimed entry.\<close>

lemma remove_first_other: "e \<in> set es \<Longrightarrow> \<not> P e \<Longrightarrow> e \<in> set (remove_first P es)"
  by (induction es) auto

lemma find_unit:
  assumes "distinct (map pending_unit es)" and "e \<in> set es" and "is_target t e"
  shows "find (is_target t) es = Some e"
  using assms by (induction es) (auto simp: is_target_def matches_target rev_image_eqI)

lemma delete_target_holds:
  assumes "distinct (map pending_unit (fst x))" and "holds r u (fst x)" and "r \<noteq> []"
  shows "holds r u (fst (snd (delete_target own io False files t x)))"
proof -
  obtain pending y where x: "x = (pending, y)" by (cases x)
  obtain e where e: "e \<in> set pending" "pending_unit e = u" "pe_run_id e = r" using assms(2) by (auto simp: holds_def x)
  show ?thesis
  proof (cases "is_target t e")
    case True
    then have "find (is_target t) pending = Some e" using find_unit assms(1) e(1) by (simp add: x)
    then show ?thesis using assms e by (simp add: delete_target_def Let_def x split: prod.split)
  next
    case False
    with e(1) have "e \<in> set (remove_first (is_target t) pending)" by (rule remove_first_other)
    then show ?thesis
      using delete_target_pending [of own io False files t pending y] e by (auto simp: holds_def x)
  qed
qed

lemma delete_targets_hold:
  "distinct (map pending_unit (fst x)) \<Longrightarrow> holds r u (fst x) \<Longrightarrow> r \<noteq> [] \<Longrightarrow>
     holds r u (fst (snd (delete_targets own io False files ts x)))"
proof (induction ts arbitrary: x)
  case (Cons t ts)
  have "distinct (map pending_unit (fst (snd (delete_target own io False files t x))))"
    using delete_targets_units [OF Cons.prems(1), of own io False files "[t]"] by (simp add: case_prod_unfold)
  then show ?case using Cons delete_target_holds by (simp add: case_prod_unfold)
qed simp

lemma delete_locked_holds:
  assumes "queued_once s" and "holds r u (queue s)" and "r \<noteq> []" and "io_read_pending io"
  shows "holds r u (queue (snd (snd (delete_locked own ps False files ts io dvs s))))"
proof -
  have "holds r u (fst (snd (delete_targets own io False files (map whole_file ps @ ts) (queue s, dvs, rs_files s))))"
    by (rule delete_targets_hold) (use assms in \<open>simp_all add: queued_once_def\<close>)
  then show ?thesis using assms(2,4)
    by (auto simp: delete_locked_def Let_def case_prod_unfold load_pending_readable store_simps)
qed

lemma write_registry_holds: "holds r u (queue s) \<Longrightarrow> holds r u (queue (snd (save_registry io dvs s)))"
  by (simp add: store_simps)

lemma delete_holds:
  assumes "queued_once s" and "holds r u (queue s)" and "r \<noteq> []" and "io_read_pending io"
  shows "holds r u (queue (snd (delete_paths own ps False files ts io s)))"
  using assms(2) delete_locked_holds [OF assms]
  by (simp add: delete_paths_def Let_def case_prod_unfold write_registry_holds)

lemma requeue_records_hold:
  "holds r u pending \<Longrightarrow> holds r u (snd (snd (requeue_records model p dvs pending)))"
  by (induction dvs arbitrary: pending) (simp_all add: case_prod_unfold holds_append)

lemma requeue_paths_hold: "holds r u pending \<Longrightarrow> holds r u (snd (snd (requeue_paths model ps dvs pending)))"
  by (induction ps arbitrary: dvs pending) (simp_all add: case_prod_unfold requeue_records_hold)

lemma requeue_locked_holds:
  "holds r u (queue s) \<Longrightarrow> io_read_pending io \<Longrightarrow>
     holds r u (queue (snd (snd (requeue_locked ps all_files model io dvs s))))"
  using requeue_paths_hold
  by (auto simp: requeue_locked_def Let_def case_prod_unfold load_pending_readable store_simps)

lemma requeue_holds:
  "holds r u (queue s) \<Longrightarrow> io_read_pending io \<Longrightarrow> holds r u (queue (snd (requeue_trained ps all_files model io s)))"
  using requeue_locked_holds
  by (simp add: requeue_trained_def Let_def case_prod_unfold requeue_finish_queue)

lemmas operations_hold = acquire_holds release_holds commit_holds add_holds assign_holds unassign_holds delete_holds
  requeue_holds delete_locked_holds requeue_locked_holds write_registry_holds

lemma call_step_holds:
  assumes "queued_once s" and "holds r u (queue s)" and "r \<noteq> []" and "io_read_pending io" and "\<not> gives_back r c"
  shows "holds r u (queue (call_step own io c s))"
  using assms by (cases c) (simp_all add: operations_hold)

lemma call_steps_hold:
  "queued_once s \<Longrightarrow> holds r u (queue s) \<Longrightarrow> r \<noteq> [] \<Longrightarrow> list_all (\<lambda>(io, c). io_read_pending io \<and> \<not> gives_back r c) calls \<Longrightarrow>
     holds r u (queue (call_steps own calls s))"
  unfolding call_steps_def by (induction calls arbitrary: s) (auto simp: call_step_holds call_step_once)

text \<open>What another run acquires is not what \<open>r\<close> holds.\<close>

lemma claim_entries_tokens:
  "f \<in> set (snd (claim_entries run model limit now taken es)) \<Longrightarrow>
     \<exists>e \<in> set es. claimable run model e \<and> token_unit f = pending_unit e"
  by (induction es arbitrary: taken) (auto simp: case_prod_unfold file_token_unit split: if_splits)

lemma acquire_tokens:
  "f \<in> set (ar_files (fst (acquire run n model io s))) \<Longrightarrow>
     \<exists>e \<in> set (entries_of (load_pending io s)). claimable run model e \<and> token_unit f = pending_unit e"
  by (auto simp: acquire_def Let_def acquire_response_def case_prod_unfold dest!: claim_entries_tokens split: if_splits)

lemma acquire_excludes:
  assumes "queued_once s" and "holds r u (queue s)" and "r \<noteq> []" and "run \<noteq> r"
    and "f \<in> set (ar_files (fst (acquire run n model io s)))"
  shows "token_unit f \<noteq> u"
proof -
  obtain e where e: "e \<in> set (queue s)" "claimable run model e" "token_unit f = pending_unit e"
    using acquire_tokens [OF assms(5)] load_pending_cases [of io s] by auto
  obtain e' where e': "e' \<in> set (queue s)" "pending_unit e' = u" "pe_run_id e' = r"
    using assms(2) by (auto simp: holds_def)
  have "e \<noteq> e'" using e(2) e'(3) assms(3,4) by (auto simp: claimable_def)
  then show ?thesis using e e' assms(1) by (metis queued_once_def distinct_map inj_onD)
qed

end
