(* ===== verification/Dataset_Registry.thy ===== *)
theory Dataset_Registry
  imports Registry_Local
begin

text \<open>
  \<open>DatasetRegistry\<close> of \<open>src/src/DatasetRegistry.cpp\<close>: one trainer's view of queue and registry, kept in memory
  beside a transport. The abstract class \<open>RegistryTransport\<close> is a record of operations over the transport's
  own state \<open>'t\<close>; \<open>local_transport\<close> is \<open>LocalTransport\<close>. The claim renewer thread is left out (a local claim has
  no lease), as are log lines and printing.
\<close>

section \<open>The transport interface\<close>

record 't transport =
  tr_load_registry :: "'t \<Rightarrow> DataVersion list option"
  tr_save_registry :: "DataVersion list \<Rightarrow> 't \<Rightarrow> bool \<times> 't"
  tr_load_pending :: "'t \<Rightarrow> PendingEntry list option"
  tr_save_pending :: "PendingEntry list \<Rightarrow> 't \<Rightarrow> bool \<times> 't"
  tr_acquire :: "string \<Rightarrow> int \<Rightarrow> string \<Rightarrow> 't \<Rightarrow> AcquireResponse \<times> 't"
  tr_release :: "string \<Rightarrow> string list \<Rightarrow> SegmentTarget list \<Rightarrow> 't \<Rightarrow> 't"
  tr_commit_trained :: "string \<Rightarrow> DataVersion list \<Rightarrow> string list \<Rightarrow> SegmentTarget list \<Rightarrow> 't \<Rightarrow> 't"
  tr_add_pending :: "string \<Rightarrow> int \<Rightarrow> int \<Rightarrow> 't \<Rightarrow> bool \<times> 't"
  tr_assign :: "string \<Rightarrow> string list \<Rightarrow> int \<Rightarrow> SegmentTarget list \<Rightarrow> 't \<Rightarrow> AssignResult \<times> 't"
  tr_unassign :: "string \<Rightarrow> string list \<Rightarrow> bool \<Rightarrow> SegmentTarget list \<Rightarrow> 't \<Rightarrow> UnassignResult \<times> 't"
  tr_delete_paths :: "string list \<Rightarrow> bool \<Rightarrow> bool \<Rightarrow> SegmentTarget list \<Rightarrow> 't \<Rightarrow> DeleteDetail list \<times> 't"
  tr_requeue_trained :: "string list \<Rightarrow> bool \<Rightarrow> string \<Rightarrow> 't \<Rightarrow> RequeueResult \<times> 't"

definition local_transport :: "string list \<Rightarrow> io \<Rightarrow> registry_store transport" where
  "local_transport own_files io =
     \<lparr>tr_load_registry = load_registry io, tr_save_registry = save_registry io, tr_load_pending = load_pending io,
      tr_save_pending = save_pending io, tr_acquire = (\<lambda>run n model. acquire run n model io),
      tr_release = (\<lambda>run ps ts. release run ps ts io),
      tr_commit_trained = (\<lambda>run es ps ts. commit_trained run es ps ts io),
      tr_add_pending = (\<lambda>p s c. add_pending p s c io), tr_assign = (\<lambda>m ps n ts. assign m ps n ts io),
      tr_unassign = (\<lambda>m ps f ts. unassign m ps f ts io),
      tr_delete_paths = (\<lambda>ps f d ts. delete_paths own_files ps f d ts io),
      tr_requeue_trained = (\<lambda>ps a m. requeue_trained ps a m io)\<rparr>"

section \<open>State\<close>

record 't dataset_registry =
  dr_registry :: "DataVersion list"
  dr_trained_set :: "string set"
  dr_pending :: "PendingEntry list"
  dr_transport :: 't

text \<open>The settings the operations read, and what the host says of files and time.\<close>

record dataset_config =
  dc_session_dir :: string
  dc_dataset_kind :: string
  dc_model_name :: string
  dc_max_files_per_run :: int

record host =
  h_stat :: "string \<Rightarrow> (nat \<times> int) option"    \<comment> \<open>size and modification time, if the file exists\<close>
  h_now_utc :: string

definition compute_checksum :: "host \<Rightarrow> string \<Rightarrow> string" where
  "compute_checksum h path =
     (case h_stat h path of
        None \<Rightarrow> ''MISSING''
      | Some (n, mtime) \<Rightarrow> nat_to_string n @ ''_'' @ int_to_string mtime)"

definition dataset_kinds :: "string list" where
  "dataset_kinds = [''encoder'', ''decoder'', ''world_model'', ''chatbot'']"

definition local_pool_dir :: "dataset_config \<Rightarrow> string option" where
  "local_pool_dir cfg =
     (if dc_dataset_kind cfg \<noteq> [] \<and> dc_dataset_kind cfg \<notin> set dataset_kinds then None
      else Some (if dc_dataset_kind cfg = [] then dc_session_dir cfg
                 else dc_session_dir cfg @ ''/'' @ dc_dataset_kind cfg))"

section \<open>The queue\<close>

definition is_trained :: "string \<Rightarrow> int \<Rightarrow> int \<Rightarrow> 't dataset_registry \<Rightarrow> bool" where
  "is_trained path segment_start segment_count r =
     (if segment_start < 0 then path \<in> dr_trained_set r
      else list_ex (\<lambda>dv. trained dv \<and>
        (trained_matches dv path (- 1) (- 1) \<or> trained_matches dv path segment_start segment_count)) (dr_registry r))"

definition add_pending_path_unchecked ::
  "'t transport \<Rightarrow> string \<Rightarrow> int \<Rightarrow> int \<Rightarrow> 't dataset_registry \<Rightarrow> bool \<times> 't dataset_registry" where
  "add_pending_path_unchecked tr path segment_start segment_count r =
     (if is_trained path segment_start segment_count r then (False, r)
      else if list_ex (\<lambda>e. segment_matches e path segment_start segment_count) (dr_pending r) then (False, r)
      else case tr_add_pending tr path segment_start segment_count (dr_transport r) of
        (ok, t) \<Rightarrow>
          if ok then
            (True, r\<lparr>dr_transport := t, dr_pending := dr_pending r @ [pending_entry path segment_start segment_count]\<rparr>)
          else (False, r\<lparr>dr_transport := t\<rparr>))"

definition add_file ::
  "'t transport \<Rightarrow> host \<Rightarrow> string \<Rightarrow> int \<Rightarrow> int \<Rightarrow> 't dataset_registry \<Rightarrow> bool \<times> 't dataset_registry" where
  "add_file tr h path segment_start segment_count r =
     (if h_stat h path = None then (False, r)
      else add_pending_path_unchecked tr path segment_start segment_count r)"

primrec add_files_loop ::
  "'t transport \<Rightarrow> host \<Rightarrow> string list \<Rightarrow> nat \<Rightarrow> 't dataset_registry \<Rightarrow> nat \<times> 't dataset_registry" where
  "add_files_loop tr h [] added r = (added, r)"
| "add_files_loop tr h (p # ps) added r =
     (case add_file tr h p (- 1) (- 1) r of (ok, r) \<Rightarrow> add_files_loop tr h ps (if ok then added + 1 else added) r)"

definition add_files ::
  "'t transport \<Rightarrow> host \<Rightarrow> string list \<Rightarrow> 't dataset_registry \<Rightarrow> bool \<times> 't dataset_registry" where
  "add_files tr h paths r = apfst (\<lambda>n. n > 0) (add_files_loop tr h paths 0 r)"

definition clear_pending :: "'t dataset_registry \<Rightarrow> 't dataset_registry" where
  "clear_pending r = r\<lparr>dr_pending := []\<rparr>"

definition save_pending_list :: "'t transport \<Rightarrow> 't dataset_registry \<Rightarrow> bool \<times> 't dataset_registry" where
  "save_pending_list tr r =
     (case tr_save_pending tr (dr_pending r) (dr_transport r) of (ok, t) \<Rightarrow> (ok, r\<lparr>dr_transport := t\<rparr>))"

definition remove_pending :: "'t transport \<Rightarrow> string \<Rightarrow> 't dataset_registry \<Rightarrow> bool \<times> 't dataset_registry" where
  "remove_pending tr path r =
     (if list_ex (\<lambda>e. pe_path e = path) (dr_pending r) then
        (True, snd (save_pending_list tr (r\<lparr>dr_pending := remove_first (\<lambda>e. pe_path e = path) (dr_pending r)\<rparr>)))
      else (False, r))"

definition count_acquirable :: "dataset_config \<Rightarrow> 't dataset_registry \<Rightarrow> nat" where
  "count_acquirable cfg r = length (filter (eligible (dc_model_name cfg)) (dr_pending r))"

section \<open>Assigning\<close>

definition set_model_paths :: "string \<Rightarrow> string list \<Rightarrow> PendingEntry list \<Rightarrow> PendingEntry list" where
  "set_model_paths model paths =
     map (\<lambda>e. if pe_segment_start e < 0 \<and> pe_path e \<in> set paths then e\<lparr>pe_model_name := model\<rparr> else e)"

definition set_model_segments :: "string \<Rightarrow> SegmentTarget list \<Rightarrow> PendingEntry list \<Rightarrow> PendingEntry list" where
  "set_model_segments model ts es =
     foldl (\<lambda>es t. update_first (is_target t) (\<lambda>e. e\<lparr>pe_model_name := model\<rparr>) es) es ts"

definition assign_model ::
  "'t transport \<Rightarrow> string \<Rightarrow> string list \<Rightarrow> int \<Rightarrow> SegmentTarget list \<Rightarrow> 't dataset_registry \<Rightarrow>
     AssignResult \<times> 't dataset_registry" where
  "assign_model tr model paths count segments r =
     (case tr_assign tr model paths count segments (dr_transport r) of
        (result, t) \<Rightarrow>
          (result, r\<lparr>dr_transport := t, dr_pending :=
             set_model_segments model (as_segments result) (set_model_paths model (as_paths result) (dr_pending r))\<rparr>))"

definition unassign_model ::
  "'t transport \<Rightarrow> string \<Rightarrow> string list \<Rightarrow> bool \<Rightarrow> SegmentTarget list \<Rightarrow> 't dataset_registry \<Rightarrow>
     UnassignResult \<times> 't dataset_registry" where
  "unassign_model tr model paths force segments r =
     (case tr_unassign tr model paths force segments (dr_transport r) of
        (result, t) \<Rightarrow>
          (result, r\<lparr>dr_transport := t, dr_pending :=
             set_model_segments [] (un_segments result) (set_model_paths [] (un_paths result) (dr_pending r))\<rparr>))"

section \<open>Loading\<close>

definition load_registry_view :: "'t transport \<Rightarrow> 't dataset_registry \<Rightarrow> bool \<times> 't dataset_registry" where
  "load_registry_view tr r =
     (case tr_load_registry tr (dr_transport r) of
        None \<Rightarrow> (False, r\<lparr>dr_registry := [], dr_trained_set := {}\<rparr>)
      | Some es \<Rightarrow> (True, r\<lparr>dr_registry := es, dr_trained_set := set (map data_file (filter trained es))\<rparr>))"

definition load_pending_list :: "'t transport \<Rightarrow> 't dataset_registry \<Rightarrow> bool \<times> 't dataset_registry" where
  "load_pending_list tr r =
     (case tr_load_pending tr (dr_transport r) of
        None \<Rightarrow> (False, r)
      | Some es \<Rightarrow> (True, r\<lparr>dr_pending := es\<rparr>))"

definition save_registry_view :: "'t transport \<Rightarrow> 't dataset_registry \<Rightarrow> bool \<times> 't dataset_registry" where
  "save_registry_view tr r =
     (case tr_save_registry tr (dr_registry r) (dr_transport r) of (ok, t) \<Rightarrow> (ok, r\<lparr>dr_transport := t\<rparr>))"

definition requeue_trained_files ::
  "'t transport \<Rightarrow> string list \<Rightarrow> bool \<Rightarrow> string \<Rightarrow> 't dataset_registry \<Rightarrow> RequeueResult \<times> 't dataset_registry" where
  "requeue_trained_files tr paths all_files model r =
     (case tr_requeue_trained tr paths all_files model (dr_transport r) of
        (result, t) \<Rightarrow> (result, snd (load_pending_list tr (snd (load_registry_view tr (r\<lparr>dr_transport := t\<rparr>))))))"

definition total_samples_trained :: "'t dataset_registry \<Rightarrow> int" where
  "total_samples_trained r = sum_list (map num_samples (filter trained (dr_registry r)))"

section \<open>Deleting\<close>

definition forget_deleted :: "DeleteDetail \<Rightarrow> 't dataset_registry \<Rightarrow> 't dataset_registry" where
  "forget_deleted d r =
     (if de_status d \<noteq> Deleted then r
      else
        let records = filter (\<lambda>dv. \<not> (if de_start d < 0 then data_file dv = de_path d
                                     else trained_matches dv (de_path d) (de_start d) (de_count d))) (dr_registry r)
        in r\<lparr>dr_pending := filter (\<lambda>e. \<not> segment_matches e (de_path d) (de_start d) (de_count d)) (dr_pending r),
             dr_registry := records,
             dr_trained_set :=
               (if list_ex (\<lambda>dv. data_file dv = de_path d) records then dr_trained_set r
                else dr_trained_set r - {de_path d})\<rparr>)"

definition delete_entries ::
  "'t transport \<Rightarrow> string list \<Rightarrow> bool \<Rightarrow> bool \<Rightarrow> SegmentTarget list \<Rightarrow> 't dataset_registry \<Rightarrow>
     DeleteDetail list \<times> 't dataset_registry" where
  "delete_entries tr paths force delete_files segments r =
     (case tr_delete_paths tr paths force delete_files segments (dr_transport r) of
        (details, t) \<Rightarrow> (details, foldl (\<lambda>r d. forget_deleted d r) (r\<lparr>dr_transport := t\<rparr>) details))"

section \<open>Recording\<close>

definition new_version :: "host \<Rightarrow> SegmentTarget \<Rightarrow> int \<Rightarrow> DataVersion" where
  "new_version h u count =
     \<lparr>data_file = st_path u, dv_checksum = compute_checksum h (st_path u), num_samples = count, trained = True,
      model_id = [], dv_added_utc = h_now_utc h, dv_source = [], dv_segment_start = st_start u,
      dv_segment_count = st_count u\<rparr>"

definition recorded_in :: "SegmentTarget \<Rightarrow> DataVersion list \<Rightarrow> bool" where
  "recorded_in u dvs = list_ex (\<lambda>dv. trained_matches dv (st_path u) (st_start u) (st_count u)) dvs"

text \<open>\<open>build_new_versions\<close>: the loop over the units with their sample counts, 0 for a missing count.\<close>

primrec build_loop ::
  "host \<Rightarrow> bool \<Rightarrow> SegmentTarget list \<Rightarrow> int list \<Rightarrow> DataVersion list \<Rightarrow> DataVersion list \<Rightarrow> string set \<Rightarrow>
     DataVersion list \<times> DataVersion list \<times> string set" where
  "build_loop h record_again [] counts new_entries registry trained_set = (new_entries, registry, trained_set)"
| "build_loop h record_again (u # us) counts new_entries registry trained_set =
     (let count = (case counts of [] \<Rightarrow> 0 | n # _ \<Rightarrow> n) in
      if recorded_in u new_entries \<or> (recorded_in u registry \<and> \<not> record_again) then
        build_loop h record_again us (tl counts) new_entries registry trained_set
      else
        let dv = new_version h u count in
        build_loop h record_again us (tl counts) (new_entries @ [dv]) (registry @ [dv]) (insert (st_path u) trained_set))"

definition build_new_versions ::
  "host \<Rightarrow> bool \<Rightarrow> SegmentTarget list \<Rightarrow> int list \<Rightarrow> 't dataset_registry \<Rightarrow> DataVersion list \<times> 't dataset_registry" where
  "build_new_versions h record_again units counts r =
     (case build_loop h record_again units counts [] (dr_registry r) (dr_trained_set r) of
        (new_entries, registry, trained_set) \<Rightarrow> (new_entries, r\<lparr>dr_registry := registry, dr_trained_set := trained_set\<rparr>))"

definition whole_file_units :: "string list \<Rightarrow> SegmentTarget list" where
  "whole_file_units paths = map whole_file paths"

definition drop_paths :: "string list \<Rightarrow> 't dataset_registry \<Rightarrow> 't dataset_registry" where
  "drop_paths paths r = r\<lparr>dr_pending := filter (\<lambda>e. pe_path e \<notin> set paths) (dr_pending r)\<rparr>"

text \<open>The three overloads of \<open>mark_trained\<close>: without a run, for whole files of a run, for units of a run.\<close>

definition mark_trained_local ::
  "'t transport \<Rightarrow> host \<Rightarrow> string list \<Rightarrow> int list \<Rightarrow> 't dataset_registry \<Rightarrow> 't dataset_registry" where
  "mark_trained_local tr h paths counts r =
     drop_paths paths
       (snd (save_registry_view tr (snd (build_new_versions h False (whole_file_units paths) counts r))))"

definition mark_trained_paths ::
  "'t transport \<Rightarrow> host \<Rightarrow> string \<Rightarrow> string list \<Rightarrow> int list \<Rightarrow> 't dataset_registry \<Rightarrow> 't dataset_registry" where
  "mark_trained_paths tr h run_id paths counts r =
     (case build_new_versions h (run_id \<noteq> []) (whole_file_units paths) counts r of
        (new_entries, r) \<Rightarrow>
          drop_paths paths (r\<lparr>dr_transport := tr_commit_trained tr run_id new_entries paths [] (dr_transport r)\<rparr>))"

definition whole_paths :: "SegmentTarget list \<Rightarrow> string list" where
  "whole_paths units = map st_path (filter (\<lambda>u. st_start u < 0) units)"

definition ranges :: "SegmentTarget list \<Rightarrow> SegmentTarget list" where
  "ranges units = filter (\<lambda>u. \<not> st_start u < 0) units"

definition mark_trained ::
  "'t transport \<Rightarrow> host \<Rightarrow> string \<Rightarrow> SegmentTarget list \<Rightarrow> int list \<Rightarrow> 't dataset_registry \<Rightarrow> 't dataset_registry" where
  "mark_trained tr h run_id units counts r =
     (case build_new_versions h (run_id \<noteq> []) units counts r of
        (new_entries, r) \<Rightarrow>
          r\<lparr>dr_transport := tr_commit_trained tr run_id new_entries (whole_paths units) (ranges units) (dr_transport r),
            dr_pending := filter (\<lambda>e. \<not> list_ex (\<lambda>u. segment_matches e (st_path u) (st_start u) (st_count u)) units)
              (dr_pending r)\<rparr>)"

section \<open>Claims\<close>

definition reflect_token :: "string \<Rightarrow> PendingEntry list \<Rightarrow> FileToken \<Rightarrow> PendingEntry list" where
  "reflect_token run_id es f =
     (if list_ex (\<lambda>e. segment_matches e (ft_registry_path f) (ft_segment_start f) (ft_segment_count f)) es then es
      else es @ [(pending_entry (ft_registry_path f) (ft_segment_start f) (ft_segment_count f))\<lparr>pe_run_id := run_id\<rparr>])"

definition acquire_pending ::
  "'t transport \<Rightarrow> dataset_config \<Rightarrow> string \<Rightarrow> int \<Rightarrow> 't dataset_registry \<Rightarrow> AcquireResponse \<times> 't dataset_registry" where
  "acquire_pending tr cfg run_id max_files r =
     (case tr_acquire tr run_id (if max_files > 0 then max_files else dc_max_files_per_run cfg) (dc_model_name cfg)
             (dr_transport r) of
        (resp, t) \<Rightarrow>
          (resp, r\<lparr>dr_transport := t, dr_pending := foldl (reflect_token run_id) (dr_pending r) (ar_files resp)\<rparr>))"

definition release_pending ::
  "'t transport \<Rightarrow> string \<Rightarrow> string list \<Rightarrow> SegmentTarget list \<Rightarrow> 't dataset_registry \<Rightarrow> 't dataset_registry" where
  "release_pending tr run_id paths segments r =
     r\<lparr>dr_transport := tr_release tr run_id paths segments (dr_transport r),
       dr_pending := filter (\<lambda>e. \<not> list_ex (\<lambda>t. segment_matches e (st_path t) (st_start t) (st_count t)) segments)
         (filter (\<lambda>e. \<not> (pe_segment_start e < 0 \<and> pe_path e \<in> set paths)) (dr_pending r))\<rparr>"

definition release_units ::
  "'t transport \<Rightarrow> string \<Rightarrow> SegmentTarget list \<Rightarrow> 't dataset_registry \<Rightarrow> 't dataset_registry" where
  "release_units tr run_id units r = release_pending tr run_id (whole_paths units) (ranges units) r"

text \<open>A file that the registry server fetched or received; an empty path reports a failure.\<close>

definition add_remote :: "string \<Rightarrow> 't dataset_registry \<Rightarrow> 't dataset_registry" where
  "add_remote path r = (if path = [] then r else r\<lparr>dr_pending := dr_pending r @ [pending_entry path (- 1) (- 1)]\<rparr>)"

end
