(* ===== verification/Registry_Batches.thy ===== *)
theory Registry_Batches
  imports Registry_Claims Dataset_Registry
begin

text \<open>
  The life of a batch: a trainer acquires units, and either records them as trained or gives them back. What it
  needs of a transport is the locale \<open>shared_queue\<close>; \<open>LocalTransport\<close> provides it.
\<close>

section \<open>The contract of a transport\<close>

definition token_units :: "AcquireResponse \<Rightarrow> work_unit list" where
  "token_units resp = map token_unit (ar_files resp)"

text \<open>A commit names a batch by its units, one record each. \<open>entry\<close> is what a transport keeps of a record, and
  \<open>fit\<close> which records it can carry.\<close>

definition batch :: "SegmentTarget list \<Rightarrow> DataVersion list \<Rightarrow> bool" where
  "batch us es \<longleftrightarrow> distinct (map target_unit us) \<and> map trained_unit es = map target_unit us"

locale shared_queue =
  fixes tr :: "'t transport"
    and view :: "'t \<Rightarrow> PendingEntry list"
    and history :: "'t \<Rightarrow> 'r list"
    and entry :: "DataVersion \<Rightarrow> 'r"
    and fit :: "DataVersion \<Rightarrow> bool"
    and ok :: "'t \<Rightarrow> bool"
  assumes view_once: "ok t \<Longrightarrow> distinct (map pending_unit (view t))"
    and acquire_ok: "ok t \<Longrightarrow> ok (snd (tr_acquire tr run n model t))"
    and acquire_history: "ok t \<Longrightarrow> history (snd (tr_acquire tr run n model t)) = history t"
    and acquire_view: "ok t \<Longrightarrow> run \<noteq> [] \<Longrightarrow> map claim_mark (view (snd (tr_acquire tr run n model t))) =
      map (\<lambda>(u, r). (u, if u \<in> set (token_units (fst (tr_acquire tr run n model t))) then run else r))
        (map claim_mark (view t))"
    and acquire_once: "ok t \<Longrightarrow> distinct (token_units (fst (tr_acquire tr run n model t)))"
    and acquire_free: "ok t \<Longrightarrow> u \<in> set (token_units (fst (tr_acquire tr run n model t))) \<Longrightarrow>
      holds [] u (view t) \<or> holds run u (view t)"
    and commit_history: "ok t \<Longrightarrow> run \<noteq> [] \<Longrightarrow> batch us es \<Longrightarrow> list_all fit es \<Longrightarrow>
      (\<And>u. u \<in> set us \<Longrightarrow> holds run (target_unit u) (view t)) \<Longrightarrow>
      history (tr_commit_trained tr run es (whole_paths us) (ranges us) t) = history t @ map entry es"
    and commit_view: "ok t \<Longrightarrow> run \<noteq> [] \<Longrightarrow> batch us es \<Longrightarrow> list_all fit es \<Longrightarrow>
      view (tr_commit_trained tr run es (whole_paths us) (ranges us) t) =
        filter (\<lambda>e. \<not> trained_entry run (whole_paths us) (ranges us) e) (view t)"
    and release_view: "ok t \<Longrightarrow> run \<noteq> [] \<Longrightarrow> (\<And>u. u \<in> set us \<Longrightarrow> holds run (target_unit u) (view t)) \<Longrightarrow>
      map claim_mark (view (tr_release tr run (whole_paths us) (ranges us) t)) =
        map claim_mark (map (release_entry run (whole_paths us) (ranges us)) (view t))"

section \<open>Records of a batch\<close>

primrec versions :: "host \<Rightarrow> SegmentTarget list \<Rightarrow> int list \<Rightarrow> DataVersion list" where
  "versions h [] counts = []"
| "versions h (u # us) counts = new_version h u (case counts of [] \<Rightarrow> 0 | n # _ \<Rightarrow> n) # versions h us (tl counts)"

lemma new_version_unit: "trained_unit (new_version h u n) = target_unit u"
  by (simp add: trained_unit_def new_version_def target_unit_def)

lemma versions_units: "map trained_unit (versions h us counts) = map target_unit us"
  by (induction us arbitrary: counts) (simp_all add: new_version_unit)

lemma recorded_in_iff: "recorded_in u dvs \<longleftrightarrow> target_unit u \<in> set (map trained_unit dvs)"
  by (auto simp: recorded_in_def list_ex_iff matches_target rev_image_eqI)

lemma build_loop_again:
  "distinct (map trained_unit new @ map target_unit us) \<Longrightarrow>
     fst (build_loop h True us counts new reg tset) = new @ versions h us counts"
proof (induction us arbitrary: counts new reg tset)
  case (Cons u us)
  have "\<not> recorded_in u new" using Cons.prems by (auto simp: recorded_in_iff)
  moreover have "distinct (map trained_unit (new @ [new_version h u n]) @ map target_unit us)" for n
    using Cons.prems by (auto simp: new_version_unit)
  ultimately show ?case by (simp add: Let_def Cons.IH)
qed simp

lemma build_new_versions_again:
  assumes "distinct (map target_unit us)"
  shows "fst (build_new_versions h True us counts r) = versions h us counts"
    and "dr_transport (snd (build_new_versions h b us counts r)) = dr_transport r"
  using build_loop_again [of "[]" us] assms by (simp_all add: build_new_versions_def case_prod_unfold)

section \<open>Units named by paths and ranges\<close>

lemma unit_of_whole: "start < 0 \<Longrightarrow> unit_of p start c = (p, None)"
  by (simp add: unit_of_def)

text \<open>A batch as a list of whole paths and a list of ranges names exactly its units.\<close>

lemma named_units:
  "pending_unit e \<in> target_unit ` set us \<longleftrightarrow>
     pe_segment_start e < 0 \<and> pe_path e \<in> set (whole_paths us) \<or> list_ex (\<lambda>t. segment_matches e (st_path t) (st_start t) (st_count t)) (ranges us)"
proof -
  have *: "pending_unit e = target_unit t \<longleftrightarrow>
      st_start t < 0 \<and> pe_segment_start e < 0 \<and> pe_path e = st_path t \<or>
      \<not> st_start t < 0 \<and> segment_matches e (st_path t) (st_start t) (st_count t)" for t
    by (auto simp: segment_matches_def pending_unit_def target_unit_def unit_of_def)
  have w: "pe_path e \<in> set (whole_paths us) \<longleftrightarrow> (\<exists>t \<in> set us. st_start t < 0 \<and> pe_path e = st_path t)"
    by (auto simp: whole_paths_def)
  have r: "list_ex P (ranges us) \<longleftrightarrow> (\<exists>t \<in> set us. \<not> st_start t < 0 \<and> P t)" for P
    by (auto simp: ranges_def list_ex_iff)
  show ?thesis unfolding w r image_iff * by blast
qed

lemma released_iff: "claim_mark (release_entry run (whole_paths us) (ranges us) e) =
    (pending_unit e, if pe_run_id e = run \<and> pending_unit e \<in> target_unit ` set us then [] else pe_run_id e)"
  unfolding named_units by (auto simp: release_entry_def claim_mark_def pending_unit_def)

text \<open>A commit with ranges removes exactly its units; one with whole files only removes every entry of their
  paths that the run holds.\<close>

lemma trained_entry_units:
  assumes "run \<noteq> []" and "ranges us \<noteq> [] \<or> (pe_path e \<in> set (whole_paths us) \<longrightarrow> pe_segment_start e < 0)"
  shows "trained_entry run (whole_paths us) (ranges us) e \<longleftrightarrow> pe_run_id e = run \<and> pending_unit e \<in> target_unit ` set us"
proof (cases "ranges us = []")
  case True
  then show ?thesis using assms by (auto simp: trained_entry_def named_units)
next
  case False
  have "\<not> pe_segment_start e < 0" if "list_ex (\<lambda>t. segment_matches e (st_path t) (st_start t) (st_count t)) (ranges us)"
    using that by (auto simp: list_ex_iff ranges_def segment_matches_def split: if_splits)
  then show ?thesis using False assms(1) by (auto simp: trained_entry_def named_units)
qed

lemma holds_unique: "distinct (map pending_unit es) \<Longrightarrow> holds q u es \<Longrightarrow> holds q' u es \<Longrightarrow> q = q'"
  by (auto simp: holds_def distinct_map dest: inj_onD)

lemma filter_others:
  "filter (\<lambda>(u, q). u \<notin> S) (map (\<lambda>(u, q). (u, if u \<in> S then run else q)) ms) = filter (\<lambda>(u, q). u \<notin> S) ms"
  by (induction ms) auto

section \<open>Client lemmas\<close>

context shared_queue
begin

lemma acquire_marks:
  assumes "ok (dr_transport r)" and "acquire_pending tr cfg run n r = (resp, r1)" and "run \<noteq> []"
  shows "map claim_mark (view (dr_transport r1)) =
      map (\<lambda>(u, q). (u, if u \<in> set (token_units resp) then run else q)) (map claim_mark (view (dr_transport r)))"
    and "history (dr_transport r1) = history (dr_transport r)"
    and "ok (dr_transport r1)"
    and "distinct (token_units resp)"
    and "\<And>u. u \<in> set (token_units resp) \<Longrightarrow> holds [] u (view (dr_transport r)) \<or> holds run u (view (dr_transport r))"
proof -
  define k where "k = (if n > 0 then n else dc_max_files_per_run cfg)"
  let ?a = "tr_acquire tr run k (dc_model_name cfg) (dr_transport r)"
  have a: "resp = fst ?a" "dr_transport r1 = snd ?a"
    using assms(2) by (auto simp: acquire_pending_def case_prod_unfold k_def)
  show "map claim_mark (view (dr_transport r1)) =
      map (\<lambda>(u, q). (u, if u \<in> set (token_units resp) then run else q)) (map claim_mark (view (dr_transport r)))"
    unfolding a by (rule acquire_view [OF assms(1,3)])
  show "history (dr_transport r1) = history (dr_transport r)" unfolding a by (rule acquire_history [OF assms(1)])
  show "ok (dr_transport r1)" unfolding a by (rule acquire_ok [OF assms(1)])
  show "distinct (token_units resp)" unfolding a by (rule acquire_once [OF assms(1)])
  show "holds [] u (view (dr_transport r)) \<or> holds run u (view (dr_transport r))" if "u \<in> set (token_units resp)" for u
    by (rule acquire_free [OF assms(1)]) (use that a(1) in simp)
qed

text \<open>A unit of the batch is in the queue, so it is held after the call.\<close>

lemma batch_held:
  assumes "ok (dr_transport r)" and "acquire_pending tr cfg run n r = (resp, r1)" and "run \<noteq> []"
    and "u \<in> set (token_units resp)"
  shows "holds run u (view (dr_transport r1))"
proof -
  obtain q where "(u, q) \<in> set (map claim_mark (view (dr_transport r)))"
    using acquire_marks(5) [OF assms] by (auto simp only: holds_mark)
  then have "(u, run) \<in> set (map (\<lambda>(u, q). (u, if u \<in> set (token_units resp) then run else q))
      (map claim_mark (view (dr_transport r))))"
    using assms(4) unfolding set_map [of "\<lambda>(u, q). (u, if u \<in> set (token_units resp) then run else q)"]
    by (intro image_eqI [where x = "(u, q)"]) simp_all
  then show ?thesis unfolding holds_mark acquire_marks(1) [OF assms(1,2,3)] .
qed

lemma range_units: "target_unit ` set (file_ranges resp) = set (token_units resp)"
  by (simp add: token_units_def flip: file_ranges_units)

lemma batch_shape:
  assumes "ok (dr_transport r)" and "acquire_pending tr cfg run n r = (resp, r1)" and "run \<noteq> []"
  shows "distinct (map target_unit (file_ranges resp))"
    and "batch (file_ranges resp) (versions h (file_ranges resp) counts)"
  using acquire_marks(4) [OF assms] by (simp_all add: batch_def versions_units token_units_def flip: file_ranges_units)

lemma mark_trained_commits:
  assumes "distinct (map target_unit us)" and "run \<noteq> []"
  shows "dr_transport (mark_trained tr h run us counts r) =
    tr_commit_trained tr run (versions h us counts) (whole_paths us) (ranges us) (dr_transport r)"
  using assms by (simp add: mark_trained_def case_prod_unfold build_new_versions_again [OF assms(1)])

lemma batch_units_held:
  assumes "ok (dr_transport r)" and "acquire_pending tr cfg run n r = (resp, r1)" and "run \<noteq> []"
    and "u \<in> set (file_ranges resp)"
  shows "holds run (target_unit u) (view (dr_transport r1))"
  using batch_held [OF assms(1-3)] range_units [of resp] assms(4) by blast

lemma batch_recorded:
  assumes "ok (dr_transport r)" and "acquire_pending tr cfg run n r = (resp, r1)" and "run \<noteq> []"
    and "list_all fit (versions h (file_ranges resp) counts)"
  shows "history (dr_transport (mark_trained tr h run (file_ranges resp) counts r1)) =
    history (dr_transport r) @ map entry (versions h (file_ranges resp) counts)"
proof -
  note shape = batch_shape [OF assms(1-3)]
  show ?thesis
    unfolding mark_trained_commits [OF shape(1) assms(3)]
    using commit_history [OF acquire_marks(3) [OF assms(1-3)] assms(3) shape(2) assms(4)]
      batch_units_held [OF assms(1-3)] acquire_marks(2) [OF assms(1-3)]
    by simp
qed

text \<open>The queue loses exactly the batch.\<close>

lemma batch_leaves_queue:
  assumes "ok (dr_transport r)" and "acquire_pending tr cfg run n r = (resp, r1)" and "run \<noteq> []"
    and fit: "list_all fit (versions h (file_ranges resp) counts)"
    and caveat: "ranges (file_ranges resp) \<noteq> [] \<or>
      (\<forall>e \<in> set (view (dr_transport r1)). pe_run_id e = run \<and> pe_path e \<in> set (whole_paths (file_ranges resp)) \<longrightarrow>
        pe_segment_start e < 0)"
  shows "map claim_mark (view (dr_transport (mark_trained tr h run (file_ranges resp) counts r1))) =
    filter (\<lambda>(u, q). u \<notin> set (token_units resp)) (map claim_mark (view (dr_transport r)))"
proof -
  let ?us = "file_ranges resp" and ?t = "dr_transport r1"
  note shape = batch_shape [OF assms(1-3)]
  have gone: "trained_entry run (whole_paths ?us) (ranges ?us) e \<longleftrightarrow> pending_unit e \<in> set (token_units resp)"
    if e: "e \<in> set (view ?t)" for e
  proof -
    have "pe_run_id e = run" if u: "pending_unit e \<in> set (token_units resp)"
    proof -
      obtain e' where e': "e' \<in> set (view ?t)" "pending_unit e' = pending_unit e" "pe_run_id e' = run"
        using batch_held [OF assms(1-3) u] by (auto simp: holds_def)
      then show ?thesis
        using e view_once [OF acquire_marks(3) [OF assms(1-3)]] by (metis distinct_map inj_onD)
    qed
    moreover have "trained_entry run (whole_paths ?us) (ranges ?us) e \<Longrightarrow> pe_run_id e = run"
      using assms(3) by (auto simp: trained_entry_def split: if_splits)
    ultimately show ?thesis
      using trained_entry_units [OF assms(3), of ?us e] caveat e range_units [of resp] by blast
  qed
  have "view (dr_transport (mark_trained tr h run ?us counts r1)) =
      filter (\<lambda>e. \<not> trained_entry run (whole_paths ?us) (ranges ?us) e) (view ?t)"
    unfolding mark_trained_commits [OF shape(1) assms(3)]
    by (rule commit_view [OF acquire_marks(3) [OF assms(1-3)] assms(3) shape(2) fit])
  also have "\<dots> = filter (\<lambda>e. pending_unit e \<notin> set (token_units resp)) (view ?t)"
    by (rule filter_cong) (use gone in simp_all)
  finally have "map claim_mark (view (dr_transport (mark_trained tr h run ?us counts r1))) =
      filter (\<lambda>(u, q). u \<notin> set (token_units resp)) (map claim_mark (view ?t))"
    by (simp add: filter_map comp_def claim_mark_def)
  also have "\<dots> = filter (\<lambda>(u, q). u \<notin> set (token_units resp)) (map claim_mark (view (dr_transport r)))"
    unfolding acquire_marks(1) [OF assms(1-3)] by (rule filter_others)
  finally show ?thesis .
qed

text \<open>A batch given back leaves every claim as it was.\<close>

lemma batch_released:
  assumes "ok (dr_transport r)" and "acquire_pending tr cfg run n r = (resp, r1)" and "run \<noteq> []"
    and fresh: "\<And>u. \<not> holds run u (view (dr_transport r))"
  shows "map claim_mark (view (dr_transport (release_units tr run (file_ranges resp) r1))) =
    map claim_mark (view (dr_transport r))"
proof -
  let ?us = "file_ranges resp" and ?t = "dr_transport r1"
  have "map claim_mark (view (dr_transport (release_units tr run ?us r1))) =
      map (\<lambda>(u, q). (u, if q = run \<and> u \<in> set (token_units resp) then [] else q)) (map claim_mark (view ?t))"
    using release_view [OF acquire_marks(3) [OF assms(1-3)] assms(3) batch_units_held [OF assms(1-3)]] range_units [of resp]
    by (simp add: release_units_def release_pending_def released_iff) (simp add: claim_mark_def)
  also have "\<dots> = map claim_mark (view (dr_transport r))"
    unfolding acquire_marks(1) [OF assms(1-3)] map_map [of _ "\<lambda>(u, q). (u, if u \<in> set (token_units resp) then run else q)"]
  proof (rule map_idI)
    fix m assume m: "m \<in> set (map claim_mark (view (dr_transport r)))"
    obtain u q where uq: "m = (u, q)" by (cases m)
    have h: "holds q u (view (dr_transport r))" using m by (simp only: holds_mark uq)
    have "q \<noteq> run" using fresh h by metis
    moreover have "q = []" if "u \<in> set (token_units resp)"
    proof -
      have "holds [] u (view (dr_transport r))" using acquire_marks(5) [OF assms(1-3) that] fresh by blast
      then show ?thesis using h holds_unique view_once [OF assms(1)] by metis
    qed
    ultimately show "((\<lambda>(u, q). (u, if q = run \<and> u \<in> set (token_units resp) then [] else q)) \<circ>
        (\<lambda>(u, q). (u, if u \<in> set (token_units resp) then run else q))) m = m"
      by (auto simp: uq)
  qed
  finally show ?thesis .
qed

end

section \<open>LocalTransport keeps the contract\<close>

lemma claim_entries_marks:
  assumes "distinct (map pending_unit es)"
  shows "map claim_mark (fst (claim_entries run model limit now taken es)) =
    map (\<lambda>(u, r). (u, if u \<in> set (map token_unit (snd (claim_entries run model limit now taken es))) then run else r))
      (map claim_mark es)"
  using assms
proof (induction es arbitrary: taken)
  case (Cons e es)
  have new: "pending_unit e \<notin> set (map token_unit (snd (claim_entries run model limit now k es)))" for k
    using Cons.prems claim_entries_tokens by fastforce
  have other: "pending_unit e' \<noteq> pending_unit e" if "e' \<in> set es" for e'
    using Cons.prems that by (metis distinct.simps(2) image_eqI list.set_map list.simps(9))
  show ?case
    using Cons.IH Cons.prems new
    by (simp add: case_prod_unfold file_token_unit)
      (use other in \<open>auto simp: claim_mark_def pending_unit_def\<close>)
qed simp

lemma claim_entries_once:
  "distinct (map pending_unit es) \<Longrightarrow> distinct (map token_unit (snd (claim_entries run model limit now taken es)))"
proof (induction es arbitrary: taken)
  case (Cons e es)
  have "pending_unit e \<notin> set (map token_unit (snd (claim_entries run model limit now k es)))" for k
    using Cons.prems claim_entries_tokens by fastforce
  then show ?case using Cons by (simp add: case_prod_unfold file_token_unit)
qed simp

lemma acquire_working:
  assumes "io_lock io" and "io_read_pending io" and "io_save_pending io"
  shows "queue (snd (acquire run n model io s)) =
      fst (claim_entries run model (if n > 0 then n else INT_MAX) (io_now io) 0 (queue s))"
    and "ar_files (fst (acquire run n model io s)) =
      snd (claim_entries run model (if n > 0 then n else INT_MAX) (io_now io) 0 (queue s))"
proof -
  have none: "fst (claim_entries run model l now k es) = es" if "snd (claim_entries run model l now k es) = []" for l now k es
    using that by (induction es arbitrary: k) (auto simp: case_prod_unfold split: if_splits)
  have empty: "queue s = []" if "rs_pending s = None" using that by (simp add: queue_def entries_of_def)
  show "queue (snd (acquire run n model io s)) =
      fst (claim_entries run model (if n > 0 then n else INT_MAX) (io_now io) 0 (queue s))"
    using assms by (auto simp: acquire_def Let_def case_prod_unfold load_pending_readable store_simps none empty)
  show "ar_files (fst (acquire run n model io s)) =
      snd (claim_entries run model (if n > 0 then n else INT_MAX) (io_now io) 0 (queue s))"
    using assms
    by (auto simp: acquire_def Let_def case_prod_unfold load_pending_readable save_pending_def acquire_response_def empty)
qed

lemma acquire_records: "records (snd (acquire run n model io s)) = records s"
  by (simp add: acquire_def Let_def case_prod_unfold store_simps)

lemma claim_held_holds: "holds run (trained_unit dv) es \<Longrightarrow> claim_held run es dv"
  by (auto simp: claim_held_def holds_def list_ex_iff trained_unit_def segment_matches_iff pending_unit_def unit_of_def
      split: if_splits)

lemma working_simps: "io_lock (working_io now)" "io_read_registry (working_io now)" "io_read_pending (working_io now)"
    "io_save_registry (working_io now)" "io_save_pending (working_io now)"
  by (simp_all add: working_io_def)

interpretation local: shared_queue "local_transport own (working_io now)" queue records "\<lambda>dv. dv" "\<lambda>_. True" queued_once
  for own now
proof unfold_locales
  fix t run n model
  assume ok: "queued_once t"
  then show "distinct (map pending_unit (queue t))" by (simp add: queued_once_def)
  let ?a = "acquire run n model (working_io now) t"
  have a: "tr_acquire (local_transport own (working_io now)) run n model t = ?a" by (simp add: local_transport_def)
  show "queued_once (snd (tr_acquire (local_transport own (working_io now)) run n model t))"
    unfolding a using ok by (rule acquire_once)
  show "records (snd (tr_acquire (local_transport own (working_io now)) run n model t)) = records t"
    unfolding a by (rule acquire_records)
  have d: "distinct (map pending_unit (queue t))" using ok by (simp add: queued_once_def)
  show "map claim_mark (queue (snd (tr_acquire (local_transport own (working_io now)) run n model t))) =
      map (\<lambda>(u, r). (u, if u \<in> set (token_units (fst (tr_acquire (local_transport own (working_io now)) run n model t))) then run else r))
        (map claim_mark (queue t))"
    unfolding a token_units_def acquire_working [OF working_simps(1,3,5)] by (rule claim_entries_marks [OF d])
  show "distinct (token_units (fst (tr_acquire (local_transport own (working_io now)) run n model t)))"
    unfolding a token_units_def acquire_working [OF working_simps(1,3,5)] by (rule claim_entries_once [OF d])
  show "holds [] u (queue t) \<or> holds run u (queue t)"
    if "u \<in> set (token_units (fst (tr_acquire (local_transport own (working_io now)) run n model t)))" for u
    using that unfolding a token_units_def acquire_working [OF working_simps(1,3,5)]
    by (auto simp: holds_def claimable_def dest!: claim_entries_tokens)
next
  fix t run us es
  assume "queued_once t" and "run \<noteq> []" and "batch us es"
    and held: "\<And>u. u \<in> set us \<Longrightarrow> holds run (target_unit u) (queue t)"
  then have "map trained_unit es = map target_unit us" by (simp add: batch_def)
  then have "holds run (trained_unit dv) (queue t)" if "dv \<in> set es" for dv
    using held that by (metis (no_types, lifting) image_iff list.set_map)
  then have "filter (claim_held run (queue t)) es = es" using claim_held_holds by (simp add: filter_id_conv)
  then show "records (tr_commit_trained (local_transport own (working_io now)) run es (whole_paths us) (ranges us) t) =
      records t @ map (\<lambda>dv. dv) es"
    by (simp add: local_transport_def commit_trained_def Let_def working_simps store_simps load_pending_readable)
      (simp add: load_registry_def working_simps records_def)
next
  fix t run us es
  show "queue (tr_commit_trained (local_transport own (working_io now)) run es (whole_paths us) (ranges us) t) =
      filter (\<lambda>e. \<not> trained_entry run (whole_paths us) (ranges us) e) (queue t)"
    by (simp add: local_transport_def commit_trained_def Let_def working_simps store_simps load_pending_readable)
next
  fix t run us
  show "map claim_mark (queue (tr_release (local_transport own (working_io now)) run (whole_paths us) (ranges us) t)) =
      map claim_mark (map (release_entry run (whole_paths us) (ranges us)) (queue t))"
    by (simp add: local_transport_def release_def working_simps store_simps load_pending_readable)
qed

end
