(* ===== verification/Registry_Paths.thy ===== *)
theory Registry_Paths
  imports Registry_Types
begin

text \<open>
  Queued paths and download names: \<open>registry_path_problem\<close> accepts only valid UTF-8 without control characters,
  and a download's name is a plain file name.
\<close>

section \<open>Lead and continuation bytes\<close>

lemma mask_id: "(w :: u8) AND NOT (mask k) = push_bit k (drop_bit k w)"
  by (rule bit_word_eqI) (auto simp: bit_simps)

lemma mask_words: "(0xE0 :: u8) = NOT (mask 5)" "(0xF0 :: u8) = NOT (mask 4)" "(0xF8 :: u8) = NOT (mask 3)" "(0xC0 :: u8) = NOT (mask 6)"
  by (simp_all add: mask_eq_exp_minus_1 not_eq_complement)

lemma masks:
  fixes w :: u8
  shows "w AND 0xE0 = push_bit 5 (drop_bit 5 w)" "w AND 0xF0 = push_bit 4 (drop_bit 4 w)" "w AND 0xF8 = push_bit 3 (drop_bit 3 w)"
    "w AND 0xC0 = push_bit 6 (drop_bit 6 w)"
  unfolding mask_id [symmetric] by (simp_all only: mask_words)

lemma drop_of_char: "drop_bit k (of_char c :: u8) = of_nat (of_char c div 2 ^ k)"
proof -
  define n :: nat where "n = of_char c"
  have n: "n < 256" by (simp add: n_def nat_of_char_less_256)
  have w: "(of_char c :: u8) = of_nat n" by (simp only: n_def of_nat_of_char)
  have u: "unat (of_nat n :: u8) = n" using n by (intro unat_of_nat_less) simp
  have "n div 2 ^ k < 256" using n by (meson div_le_dividend le_less_trans)
  then have u': "unat (of_nat (n div 2 ^ k) :: u8) = n div 2 ^ k" by (intro unat_of_nat_less) simp
  have "unat (drop_bit k (of_nat n :: u8)) = drop_bit k (take_bit LENGTH(8) (unat (of_nat n :: u8)))"
    by (rule unsigned_drop_bit_eq)
  also have "\<dots> = unat (of_nat (n div 2 ^ k) :: u8)"
    unfolding u u' using n by (simp add: take_bit_nat_eq_self drop_bit_eq_div)
  finally have "unat (drop_bit k (of_nat n :: u8)) = unat (of_nat (n div 2 ^ k) :: u8)" .
  then show ?thesis unfolding w n_def [symmetric] by (simp only: unsigned_word_eqI)
qed

lemma lead_sound: "path_lead (of_char c) = Some (len, cp) \<Longrightarrow> lead_length c = Some len"
proof -
  assume l: "path_lead (of_char c) = Some (len, cp)"
  define n :: nat where "n = of_char c"
  have ascii: "byte_of c AND 0x80 = 0 \<longleftrightarrow> n < 128" using is_ascii_iff [of c] by (simp add: is_ascii_def n_def)
  have e: "byte_of c AND 0xE0 = push_bit 5 (of_nat (n div 32))" "byte_of c AND 0xF0 = push_bit 4 (of_nat (n div 16))"
      "byte_of c AND 0xF8 = push_bit 3 (of_nat (n div 8))"
    unfolding masks byte_of_def drop_of_char n_def by simp_all
  consider "n < 128" "len = 1" | "n div 32 = 6" "len = 2" | "n div 16 = 14" "len = 3" | "n div 8 = 30" "len = 4"
    using l by (auto simp: path_lead_def n_def split: if_splits)
  then show ?thesis
  proof cases
    case 1
    then show ?thesis by (simp add: lead_length_def ascii)
  next
    case 2
    then have "\<not> n < 128" by linarith
    then show ?thesis using 2 by (simp add: lead_length_def ascii e)
  next
    case 3
    then have "\<not> n < 128" and "n div 32 = 7" by linarith+
    then show ?thesis using 3 by (simp add: lead_length_def ascii e)
  next
    case 4
    then have "\<not> n < 128" and "n div 32 = 7" and "n div 16 = 15" by linarith+
    then show ?thesis using 4 by (simp add: lead_length_def ascii e)
  qed
qed

lemma byte_continuation: "of_char c div 64 = (2 :: nat) \<Longrightarrow> is_continuation c"
  using drop_of_char [of 6 c] by (simp add: is_continuation_def byte_of_def masks)

section \<open>Accepted paths\<close>

lemma continuation_sound: "continuation cp (map of_char cs) \<noteq> None \<Longrightarrow> list_all is_continuation cs"
proof (induction cs arbitrary: cp)
  case (Cons c cs)
  then show ?case using byte_continuation [of c] by (auto split: if_splits)
qed simp

definition plain_char :: "char \<Rightarrow> bool" where
  "plain_char c \<longleftrightarrow> 32 \<le> (of_char c :: nat) \<and> of_char c \<noteq> (127 :: nat)"

lemma continuation_plain: "continuation cp (map of_char cs) \<noteq> None \<Longrightarrow> list_all plain_char cs"
  by (induction cs arbitrary: cp) (auto simp: plain_char_def split: if_splits)

lemma path_problem_step:
  assumes "path_problem_bytes (c # rest) = Path_Ok"
  obtains len cp where "path_lead c = Some (len, cp)" and "len \<le> Suc (length rest)"
    and "continuation cp (take (len - 1) rest) \<noteq> None" and "path_problem_bytes (drop len (c # rest)) = Path_Ok"
    and "32 \<le> c" and "c \<noteq> 127"
  using assms unfolding path_problem_bytes.simps [of "c # rest"]
  by (auto split: if_splits option.splits prod.splits)

lemma path_problem_sound:
  "path_problem_bytes (map of_char p) = Path_Ok \<Longrightarrow> is_valid_utf8 p \<and> list_all plain_char p"
proof (induction "length p" arbitrary: p rule: less_induct)
  case less
  show ?case
  proof (cases p)
    case (Cons c rest)
    obtain len cp where l: "path_lead (of_char c) = Some (len, cp)" and n: "len \<le> length p"
      and k: "continuation cp (map of_char (take (len - 1) rest)) \<noteq> None"
      and r: "path_problem_bytes (map of_char (drop len p)) = Path_Ok" and c: "plain_char c"
      using less.prems unfolding Cons list.map
      by (rule path_problem_step) (simp add: plain_char_def take_map drop_map flip: list.map(2))
    have pos: "0 < len" by (rule path_lead_pos [OF l])
    have IH: "is_valid_utf8 (drop len p) \<and> list_all plain_char (drop len p)"
      by (rule less.hyps [OF _ r]) (use pos in \<open>simp add: Cons\<close>)
    have "p = c # take (len - 1) rest @ drop len p" using pos by (cases len) (simp_all add: Cons)
    then have "list_all plain_char p" using c continuation_plain [OF k] IH by (metis list_all_append list.pred_inject(2))
    moreover have "is_valid_utf8 p"
      using lead_sound [OF l] continuation_sound [OF k] IH n by (simp add: Cons is_valid_utf8.simps [of "c # rest"])
    ultimately show ?thesis by simp
  qed simp
qed

lemma registry_path_sound: "registry_path_problem p = Path_Ok \<Longrightarrow> p \<noteq> [] \<and> is_valid_utf8 p \<and> list_all plain_char p"
  using path_problem_sound [of p] by (auto simp: registry_path_problem_def codes_def split: if_splits)

text \<open>Printable ASCII is accepted.\<close>

lemma ascii_path_ok: "list_all (\<lambda>c. 32 \<le> c \<and> c < 127) s \<Longrightarrow> path_problem_bytes s = Path_Ok"
proof (induction s)
  case (Cons c s)
  then show ?case by (simp add: path_problem_bytes.simps [of "c # s"] path_lead_def)
qed (simp add: path_problem_bytes.simps)

section \<open>Download names\<close>

lemma hex_digits_length: "length (hex_digits n h) = n"
  by (induction n arbitrary: h) simp_all

lemma hex_char_in: "hex_char (unat (h AND 0xF :: u64)) \<in> set ''0123456789abcdef''"
proof -
  have "h AND 0xF = take_bit 4 h" by (simp add: take_bit_eq_mask mask_eq_exp_minus_1)
  then have "unat (h AND 0xF) = take_bit 4 (unat h)" by (simp only: unsigned_take_bit_eq)
  then have "unat (h AND 0xF) < length ''0123456789abcdef''" using take_bit_nat_less_exp [of 4 "unat h"] by simp
  then show ?thesis unfolding hex_char_def by (rule nth_mem)
qed

lemma hex_digits_in: "set (hex_digits n h) \<subseteq> set ''0123456789abcdef''"
proof (induction n arbitrary: h)
  case (Suc n)
  then show ?case using hex_char_in [of h] unfolding hex_digits.simps set_append by simp
qed simp

lemma base_name_chars: "c \<in> set (base_name p) \<Longrightarrow> c \<noteq> CHR ''/'' \<and> c \<noteq> CHR 0x5C"
  by (auto simp: base_name_def dest: set_takeWhileD)

lemma download_name_shape:
  "length (download_file_name p) = 17 + length (base_name p) \<and>
   (\<forall>c \<in> set (download_file_name p). c \<noteq> CHR ''/'' \<and> c \<noteq> CHR 0x5C)"
proof -
  have "c \<noteq> CHR ''/'' \<and> c \<noteq> CHR 0x5C" if "c \<in> set (hex_digits 16 h)" for c h
    using that hex_digits_in [of 16 h] by auto
  then show ?thesis by (auto simp: download_file_name_def hex_digits_length dest: base_name_chars)
qed

end
