(* ===== verification/Registry_Properties.thy ===== *)
theory Registry_Properties
  imports Registry_Batches Registry_Paths
begin

text \<open>
  The dataset registry: no unit is given to two runs, a batch is recorded or given back exactly, re-queueing
  loses nothing, queued paths are clean text, and what failing file operations can do.
\<close>

section \<open>Example stores\<close>

definition claimed_entry :: "string \<Rightarrow> string \<Rightarrow> PendingEntry" where
  "claimed_entry path run = (pending_entry path (- 1) (- 1))\<lparr>pe_run_id := run\<rparr>"

definition store_of :: "PendingEntry list \<Rightarrow> registry_store" where
  "store_of es = \<lparr>rs_registry = Some [], rs_pending = Some es, rs_files = (\<lambda>_. True)\<rparr>"

lemmas example_simps = claimed_entry_def store_of_def pending_entry_def queue_def records_def entries_of_def
  pending_unit_def unit_of_def

section \<open>Claims\<close>

text \<open>C9: No unit is handed to two runs: as long as run \<open>r\<close> does not release, commit or forcibly delete, whatever
  any number of trainers do in between, the parts of deletions and re-queueings interleaved with other calls included, with any failures but that of reading the queue, \<open>r\<close> still holds what it
  claimed and no acquire of another run returns it.\<close>

theorem claims_exclusive:
  assumes "queued_once s" and "holds r u (queue s)" and "r \<noteq> []"
    and "list_all (\<lambda>(io, c). io_read_pending io \<and> \<not> gives_back r c) calls" and "run \<noteq> r"
  shows "holds r u (queue (call_steps own_files calls s)) \<and>
    (\<forall>f \<in> set (ar_files (fst (acquire run n model io (call_steps own_files calls s)))). token_unit f \<noteq> u)"
  using call_steps_hold [OF assms(1-4)] acquire_excludes [OF call_steps_once [OF assms(1)] _ assms(3,5)] by blast

theorem claims_exclusive_witness:
  "holds ''a'' (''f'', None) (queue (call_steps [] [(working_io 5, Acquire ''b'' 0 []), (working_io 6, Delete [''f''] False True [])]
     (store_of [claimed_entry ''f'' ''a''])))"
proof -
  have "queued_once (store_of [claimed_entry ''f'' ''a''])" by (simp add: queued_once_def example_simps)
  moreover have "holds ''a'' (''f'', None) (queue (store_of [claimed_entry ''f'' ''a'']))"
    by (simp add: holds_def example_simps)
  ultimately show ?thesis
    using claims_exclusive [of _ "''a''" "(''f'', None)" _ "''b''" "[]"] by (simp add: working_io_def)
qed

text \<open>C26: Every unit, a file or a row range of one, is in the queue at most once, over any sequence of calls of any
  trainers and whatever lock, read and write fails.\<close>

theorem units_queued_once:
  assumes "queued_once s"
  shows "queued_once (call_steps own_files calls s)"
  using assms by (rule call_steps_once)

theorem units_queued_once_witness:
  "queued_once (call_steps [] [(working_io 1, Add ''f'' (- 1) (- 1)), (working_io 2, Add ''f'' (- 5) 0)] (store_of []))"
  by (rule units_queued_once) (simp add: queued_once_def example_simps)

text \<open>C10: A trainer that acquires a batch and commits it adds exactly one record per unit, with that unit's sample
  count, to the shared registry, and takes exactly the batch out of the queue: every other entry stays, with its
  claim. (With whole files only, a row range of the same path that the run holds too goes with them, so the batch
  must hold it.)\<close>

theorem trained_batch:
  assumes "queued_once (dr_transport r)" and "run \<noteq> []"
    and "acquire_pending (local_transport own (working_io now)) cfg run n r = (resp, r1)"
    and "ranges (file_ranges resp) \<noteq> [] \<or>
      (\<forall>e \<in> set (queue (dr_transport r1)). pe_run_id e = run \<and> pe_path e \<in> set (whole_paths (file_ranges resp)) \<longrightarrow>
        pe_segment_start e < 0)"
  shows "let t = dr_transport (mark_trained (local_transport own (working_io now)) h run (file_ranges resp) counts r1) in
    records t = records (dr_transport r) @ versions h (file_ranges resp) counts \<and>
    map claim_mark (queue t) = filter (\<lambda>(u, q). u \<notin> set (token_units resp)) (map claim_mark (queue (dr_transport r)))"
  using local.batch_recorded [OF assms(1,3,2), of h counts] local.batch_leaves_queue [OF assms(1,3,2), of h counts] assms(4)
  by (simp add: Let_def list_all_iff)

definition example_registry :: "registry_store dataset_registry" where
  "example_registry = \<lparr>dr_registry = [], dr_trained_set = {}, dr_pending = [],
     dr_transport = store_of [claimed_entry ''f'' [], claimed_entry ''g'' ''b'']\<rparr>"

definition example_config :: dataset_config where
  "example_config = \<lparr>dc_session_dir = [], dc_dataset_kind = [], dc_model_name = [], dc_max_files_per_run = 0\<rparr>"

lemma example_once: "queued_once (dr_transport example_registry)"
  by (simp add: queued_once_def example_registry_def example_simps)

lemma example_acquire:
  "fst (acquire_pending (local_transport [] (working_io 7)) example_config ''a'' 0 example_registry) =
     (acquire_response ''a'')\<lparr>ar_files := [file_token (claimed_entry ''f'' [])]\<rparr>"
  by (simp add: acquire_pending_def case_prod_unfold local_transport_def acquire_def example_registry_def example_config_def
      Let_def working_io_def load_pending_def save_pending_def claimable_def eligible_def INT_MAX_def example_simps)

theorem trained_batch_witness:
  "map claim_mark (queue (dr_transport (mark_trained (local_transport [] (working_io 7))
      \<lparr>h_stat = (\<lambda>_. None), h_now_utc = []\<rparr> ''a''
      (file_ranges (fst (acquire_pending (local_transport [] (working_io 7)) example_config ''a'' 0 example_registry)))
      [3] (snd (acquire_pending (local_transport [] (working_io 7)) example_config ''a'' 0 example_registry))))) =
    [((''g'', None), ''b'')]"
proof -
  let ?a = "acquire_pending (local_transport [] (working_io 7)) example_config ''a'' 0 example_registry"
  obtain resp r1 where a: "?a = (resp, r1)" by (cases ?a)
  have resp: "resp = (acquire_response ''a'')\<lparr>ar_files := [file_token (claimed_entry ''f'' [])]\<rparr>"
    using example_acquire a by simp
  have "\<forall>e \<in> set (queue (dr_transport (snd ?a))). pe_segment_start e < 0"
    by (simp add: acquire_pending_def case_prod_unfold local_transport_def acquire_def example_registry_def example_config_def
        Let_def working_io_def load_pending_def save_pending_def claimable_def eligible_def INT_MAX_def example_simps)
  then have "map claim_mark (queue (dr_transport (mark_trained (local_transport [] (working_io 7))
      \<lparr>h_stat = (\<lambda>_. None), h_now_utc = []\<rparr> ''a'' (file_ranges resp) [3] r1))) =
      filter (\<lambda>(u, q). u \<notin> set (token_units resp)) (map claim_mark (queue (dr_transport example_registry)))"
    using trained_batch [OF example_once _ a] a by (simp add: Let_def)
  also have "\<dots> = [((''g'', None), ''b'')]"
    by (simp add: resp token_units_def file_token_unit example_registry_def claim_mark_def example_simps)
  finally show ?thesis by (simp add: a)
qed

text \<open>A batch that is given back leaves queue, claims and records as they were before it was acquired.\<close>

theorem released_batch:
  assumes "queued_once (dr_transport r)" and "run \<noteq> []"
    and "acquire_pending (local_transport own (working_io now)) cfg run n r = (resp, r1)"
    and "\<And>u. \<not> holds run u (queue (dr_transport r))"
  shows "map claim_mark (queue (dr_transport (release_units (local_transport own (working_io now)) run (file_ranges resp) r1))) =
    map claim_mark (queue (dr_transport r))"
  using local.batch_released [OF assms(1,3,2,4)] .

theorem released_batch_witness:
  "let a = acquire_pending (local_transport [] (working_io 7)) example_config ''a'' 0 example_registry in
   map claim_mark (queue (dr_transport (release_units (local_transport [] (working_io 7)) ''a'' (file_ranges (fst a)) (snd a)))) =
     [((''f'', None), []), ((''g'', None), ''b'')]"
proof -
  let ?a = "acquire_pending (local_transport [] (working_io 7)) example_config ''a'' 0 example_registry"
  have "\<not> holds ''a'' u (queue (dr_transport example_registry))" for u
    by (simp add: holds_def example_registry_def example_simps)
  with released_batch [OF example_once _ surjective_pairing, of "''a''" "[]" 7 example_config 0]
  have "map claim_mark (queue (dr_transport (release_units (local_transport [] (working_io 7)) ''a''
      (file_ranges (fst ?a)) (snd ?a)))) = map claim_mark (queue (dr_transport example_registry))"
    by blast
  also have "\<dots> = [((''f'', None), []), ((''g'', None), ''b'')]"
    by (simp add: example_registry_def claim_mark_def example_simps)
  finally show ?thesis by (simp add: Let_def)
qed

section \<open>Order and eligibility\<close>

lemma claim_entries_take:
  "snd (claim_entries run model limit now taken es) =
     map file_token (take (nat (limit - taken)) (filter (claimable run model) es))"
proof (induction es arbitrary: taken)
  case (Cons e es)
  show ?case
  proof (cases "taken < limit")
    case True
    then have "nat (limit - taken) = Suc (nat (limit - (taken + 1)))" by simp
    then show ?thesis using True Cons.IH by (simp add: case_prod_unfold)
  qed (use Cons.IH in \<open>simp add: case_prod_unfold\<close>)
qed simp

text \<open>An acquire returns the oldest entries first: the first \<open>max_files\<close> (all, when it is not positive) that no
  other run holds and that no other model is assigned to; a failure to lock or save returns none and changes
  nothing.\<close>

theorem acquire_in_order:
  "(case acquire run max_files model io s of (resp, s') \<Rightarrow>
     (io_lock io \<and> io_read_pending io \<and> io_save_pending io \<longrightarrow>
        ar_files resp = map file_token (take (nat (if max_files > 0 then max_files else INT_MAX))
          (filter (claimable run model) (queue s)))) \<and>
     (\<not> (io_lock io \<and> io_save_pending io) \<longrightarrow> ar_files resp = [] \<and> s' = s))"
proof -
  have "ar_files (fst (acquire run max_files model io s)) = [] \<and> snd (acquire run max_files model io s) = s"
    if "\<not> (io_lock io \<and> io_save_pending io)"
    using that by (auto simp: acquire_def Let_def case_prod_unfold acquire_response_def save_pending_def)
  then show ?thesis
    using acquire_working(2) [of io run max_files model s] by (auto simp: case_prod_unfold claim_entries_take)
qed

theorem acquire_in_order_witness:
  "ar_files (fst (acquire ''a'' 1 [] (working_io 3) (store_of [claimed_entry ''f'' ''b'', claimed_entry ''g'' [], claimed_entry ''h'' []]))) =
     [file_token (claimed_entry ''g'' [])]"
  using acquire_in_order [where run = "''a''" and max_files = 1 and model = "[]" and io = "working_io 3"
      and s = "store_of [claimed_entry ''f'' ''b'', claimed_entry ''g'' [], claimed_entry ''h'' []]"]
  by (simp add: case_prod_unfold working_simps claimable_def eligible_def example_simps)

section \<open>Training again\<close>

lemma requeue_records_exact:
  "set (fst (snd (requeue_records model p dvs pending))) = {dv \<in> set dvs. data_file dv \<noteq> p} \<and>
   pending_unit ` set (snd (snd (requeue_records model p dvs pending))) =
     pending_unit ` set pending \<union> trained_unit ` {dv \<in> set dvs. data_file dv = p}"
proof (induction dvs arbitrary: pending)
  case (Cons dv dvs)
  have "trained_unit dv \<in> pending_unit ` set pending"
    if "list_ex (\<lambda>e. segment_matches e (data_file dv) (dv_segment_start dv) (dv_segment_count dv)) pending"
    using that by (auto simp: list_ex_iff segment_matches_iff trained_unit_def rev_image_eqI)
  moreover have "pending_unit (requeued_entry model (data_file dv) dv) = trained_unit dv"
    by (simp add: requeued_entry_unit trained_unit_def)
  ultimately show ?case using Cons.IH by (auto simp: case_prod_unfold)
qed simp

lemma requeue_paths_exact:
  "set (fst (snd (requeue_paths model ps dvs pending))) = {dv \<in> set dvs. data_file dv \<notin> set ps} \<and>
   pending_unit ` set (snd (snd (requeue_paths model ps dvs pending))) =
     pending_unit ` set pending \<union> trained_unit ` {dv \<in> set dvs. data_file dv \<in> set ps}"
proof (induction ps arbitrary: dvs pending)
  case (Cons p ps)
  show ?case
    using Cons.IH requeue_records_exact [of model p dvs pending] by (auto simp: case_prod_unfold)
qed simp

text \<open>What other processes may do in between: they leave the trained registry as it is, and take no unit out of the
  queue (they may add, claim, release, assign).\<close>

definition keeps_units :: "registry_store \<Rightarrow> registry_store \<Rightarrow> bool" where
  "keeps_units s s' \<longleftrightarrow> records s' = records s \<and> pending_unit ` set (queue s) \<subseteq> pending_unit ` set (queue s')"

text \<open>The queue was not saved or there was nothing to do, or it was saved and then perhaps the registry.\<close>

lemma requeue_writes:
  assumes "requeue_locked paths all_files model io (records s) s = (result1, dvs', s1)"
    and "requeue_paths model (remdups_first (if all_files then map data_file (records s) else paths)) (records s) (queue s) =
      (ds, dvs', p')"
    and "io_read_pending io" and "keeps_units s1 s2" and "requeue_finish io (records s) result1 dvs' s2 = (result, s')"
  shows "pending_unit ` set (queue s) \<subseteq> pending_unit ` set (queue s') \<and> records s' = records s \<and>
      (rq_ok result \<longrightarrow> dvs' = records s) \<or>
    pending_unit ` set p' \<subseteq> pending_unit ` set (queue s') \<and>
      (records s' = dvs' \<or> records s' = records s \<and> \<not> rq_ok result)"
proof (cases "dvs' = records s")
  case True
  then show ?thesis using assms
    by (auto simp: requeue_locked_def requeue_finish_def Let_def load_pending_readable keeps_units_def)
next
  case changed: False
  note locked = requeue_locked_def Let_def load_pending_readable [OF assms(3)] assms(2) changed
  show ?thesis
  proof (cases "io_save_pending io")
    case True
    with assms(1) have s1: "s1 = s\<lparr>rs_pending := Some p'\<rparr>" "rq_ok result1" by (auto simp: locked save_pending_def)
    have k: "pending_unit ` set p' \<subseteq> pending_unit ` set (queue s2)" "records s2 = records s"
      using assms(4) by (simp_all add: keeps_units_def s1 queued_now)
    have "queue s' = queue s2 \<and> (records s' = dvs' \<or> records s' = records s \<and> \<not> rq_ok result)"
      using assms(5) changed s1 k(2) by (auto simp: requeue_finish_def save_registry_def queue_def records_def entries_of_def split: if_splits)
    with k(1) show ?thesis by simp
  next
    case False
    with assms(1) have "s1 = s" "\<not> rq_ok result1" by (auto simp: locked save_pending_def)
    with assms(4,5) show ?thesis by (simp add: requeue_finish_def keeps_units_def)
  qed
qed

lemma requeue_outcomes:
  assumes "io_read_registry io" and "io_read_pending io" and "\<And>s. keeps_units s (before s)" and "\<And>s. keeps_units s (after s)"
    and "requeue_among before after paths all_files model io s = (result, s')"
  obtains "keeps_units s s'" and "rq_ok result \<longrightarrow> paths = [] \<and> \<not> all_files"
  | ds dvs' p' where "requeue_paths model (remdups_first (if all_files then map data_file (records s) else paths))
        (records s) (queue (before s)) = (ds, dvs', p')"
      and "keeps_units (before s) s' \<and> (rq_ok result \<longrightarrow> dvs' = records s) \<or>
        pending_unit ` set p' \<subseteq> pending_unit ` set (queue s') \<and>
          (records s' = dvs' \<or> records s' = records s \<and> \<not> rq_ok result)"
proof -
  let ?ts = "remdups_first (if all_files then map data_file (records s) else paths)" and ?s = "before s"
  have reg: "entries_of (load_registry io s) = records s" using assms(1) by (simp add: load_registry_def records_def)
  have same: "records ?s = records s" using assms(3) by (simp add: keeps_units_def)
  obtain ds dvs' p' where r: "requeue_paths model ?ts (records s) (queue ?s) = (ds, dvs', p')" by (metis prod_cases3)
  show thesis
  proof (cases "(paths = [] \<and> \<not> all_files) \<or> \<not> io_lock io")
    case True
    then show thesis using assms(5) assms(3) [of s] that(1)
      by (auto simp: requeue_among_def keeps_units_def Let_def split: if_splits)
  next
    case False
    obtain result1 dvs1 s1 where l: "requeue_locked paths all_files model io (records s) ?s = (result1, dvs1, s1)"
      by (metis prod_cases3)
    then have dvs1: "dvs1 = dvs'"
      by (auto simp: requeue_locked_def load_pending_readable [OF assms(2)] r Let_def split: prod.splits)
    have "requeue_finish io (records s) result1 dvs' (after s1) = (result, s')"
      using assms(5) False l by (auto simp: requeue_among_def Let_def reg dvs1)
    from requeue_writes [of _ _ _ _ ?s, unfolded same, OF l [unfolded dvs1] r assms(2) assms(4) this] show thesis
      using that(2) [OF r] by (auto simp: keeps_units_def same)
  qed
qed

text \<open>C23: Re-queueing trained files loses no unit, whichever write fails, when the queue and the registry can be
  read: what was queued or recorded before still is. When the call reports success, every record of the named paths
  has become a queue entry of the same unit. The call reads the registry before it takes the lock and writes it after
  releasing it; other processes may do anything in those gaps but write the registry or take units out of the queue.\<close>

theorem requeue_loses_nothing:
  assumes "io_read_registry io" and "io_read_pending io"
    and "\<And>s. keeps_units s (before s)" and "\<And>s. keeps_units s (after s)"
  shows "case requeue_among before after paths all_files model io s of (result, s') \<Rightarrow>
    pending_unit ` set (queue s) \<union> trained_unit ` set (records s) \<subseteq>
      pending_unit ` set (queue s') \<union> trained_unit ` set (records s') \<and>
    (rq_ok result \<longrightarrow> (\<forall>dv \<in> set (records s). all_files \<or> data_file dv \<in> set paths \<longrightarrow>
       trained_unit dv \<in> pending_unit ` set (queue s') \<and> dv \<notin> set (records s')))"
proof -
  obtain result s' where x: "requeue_among before after paths all_files model io s = (result, s')" by (metis surj_pair)
  have b: "pending_unit ` set (queue s) \<subseteq> pending_unit ` set (queue (before s))" "records (before s) = records s"
    using assms(3) by (simp_all add: keeps_units_def)
  show ?thesis unfolding x prod.case
  proof (rule requeue_outcomes [OF assms x], goal_cases)
    case 1
    then show ?case by (auto simp: keeps_units_def)
  next
    case (2 ds dvs' p')
    let ?named = "{dv \<in> set (records s). all_files \<or> data_file dv \<in> set paths}"
    let ?ts = "remdups_first (if all_files then map data_file (records s) else paths)"
    have named: "{dv \<in> set (records s). data_file dv \<in> set ?ts} = ?named" by (auto simp: remdups_first_def)
    have exact: "set dvs' = {dv \<in> set (records s). data_file dv \<notin> set ?ts}"
      "pending_unit ` set p' = pending_unit ` set (queue (before s)) \<union>
        trained_unit ` {dv \<in> set (records s). data_file dv \<in> set ?ts}"
      using requeue_paths_exact [of model ?ts "records s" "queue (before s)"] unfolding 2(1) by simp_all
    have dvs': "set dvs' = set (records s) - ?named" unfolding named [symmetric] exact(1) by blast
    note p' = exact(2) [unfolded named]
    have split: "trained_unit ` set (records s) = trained_unit ` set dvs' \<union> trained_unit ` ?named"
      unfolding image_Un [symmetric] by (rule arg_cong [where f = "image trained_unit"]) (auto simp: dvs')
    have saved: "pending_unit ` set (queue s) \<subseteq> Q \<and> trained_unit ` ?named \<subseteq> Q" if "pending_unit ` set p' \<subseteq> Q" for Q
      using that b(1) unfolding p' Un_subset_iff by (blast intro: subset_trans)
    from 2(2) show ?case
    proof (elim disjE conjE, goal_cases)
      case 1
      from 1(1) have "pending_unit ` set (queue (before s)) \<subseteq> pending_unit ` set (queue s')"
        and r: "records s' = records s" using b(2) by (simp_all add: keeps_units_def)
      with b(1) have k: "pending_unit ` set (queue s) \<subseteq> pending_unit ` set (queue s')" by (rule_tac subset_trans)
      have none: "\<not> (all_files \<or> data_file dv \<in> set paths)" if "rq_ok result" "dv \<in> set (records s)" for dv
      proof -
        from that(1) 1(2) dvs' have "set (records s) = set (records s) - ?named" by simp
        with that(2) show ?thesis by blast
      qed
      show ?case unfolding r using none by (intro conjI Un_mono k subset_refl) blast
    next
      case 2
      have "dv \<notin> set dvs'" if "all_files \<or> data_file dv \<in> set paths" for dv using that dvs' by blast
      with 2(2) saved [OF 2(1)] show ?case unfolding 2(2) split by (intro conjI) (auto simp del: image_subset_iff)
    next
      case 3
      with saved [OF 3(1)] show ?case by (simp only: sup.coboundedI1 sup.coboundedI2 Un_mono subset_refl simp_thms)
    qed
  qed
qed

definition queue_another :: "registry_store \<Rightarrow> registry_store" where
  "queue_another s = s\<lparr>rs_pending := Some (queue s @ [pending_entry ''g'' (- 1) (- 1)])\<rparr>"

definition trained_range :: DataVersion where
  "trained_range = \<lparr>data_file = ''f'', dv_checksum = [], num_samples = 2, trained = True, model_id = [], dv_added_utc = [],
     dv_source = [], dv_segment_start = 0, dv_segment_count = 5\<rparr>"

theorem requeue_loses_nothing_witness:
  "let r = requeue_among (\<lambda>s. s) queue_another [''f''] False [] (working_io 3)
      \<lparr>rs_registry = Some [trained_range], rs_pending = None, rs_files = (\<lambda>_. True)\<rparr>
   in (''f'', Some (0, 5)) \<in> pending_unit ` set (queue (snd r)) \<union> trained_unit ` set (records (snd r))"
proof -
  have k: "keeps_units s s" "keeps_units s (queue_another s)" for s
    by (simp_all add: keeps_units_def queue_another_def queue_def records_def entries_of_def subset_insertI)
  have u: "trained_unit trained_range = (''f'', Some (0, 5))" by (simp add: trained_range_def trained_unit_def unit_of_def)
  show ?thesis
    using requeue_loses_nothing [OF _ _ k, where io = "working_io 3" and paths = "[''f'']" and all_files = False
        and model = "[]" and s = "\<lparr>rs_registry = Some [trained_range], rs_pending = None, rs_files = (\<lambda>_. True)\<rparr>"]
    by (simp add: case_prod_unfold working_simps Let_def records_def entries_of_def u)
qed

section \<open>Paths and names\<close>

text \<open>A path that is accepted for the queue is not empty, is valid UTF-8 (as the tokenizer's check sees it too)
  and has no control character, so it never breaks a line of a registry file.\<close>

theorem queued_paths_clean:
  assumes "registry_path_problem path = Path_Ok"
  shows "path \<noteq> [] \<and> is_valid_utf8 path \<and> list_all plain_char path"
  using assms by (rule registry_path_sound)

theorem queued_paths_clean_witness: "is_valid_utf8 ''/d/my file.jsonl''"
proof -
  have "registry_path_problem ''/d/my file.jsonl'' = Path_Ok"
    by (simp add: registry_path_problem_def codes_def ascii_path_ok)
  from queued_paths_clean [OF this] show ?thesis by simp
qed

text \<open>The name a trainer gives a download is a plain file name: no slash or backslash, and never \<open>.\<close> or
  \<open>..\<close>, so the file lands in the download directory whatever the registry's path is.\<close>

theorem download_name_plain:
  "(\<forall>c \<in> set (download_file_name path). c \<noteq> CHR ''/'' \<and> c \<noteq> CHR 0x5C) \<and>
   download_file_name path \<notin> {[], ''.'', ''..''}"
proof -
  have short: "17 \<le> length x \<Longrightarrow> x \<notin> {[], ''.'', ''..''}" for x :: string by auto
  show ?thesis using download_name_shape [of path] short [of "download_file_name path"] by simp
qed

theorem download_name_plain_witness: "CHR ''/'' \<notin> set (download_file_name ''/etc/../x'')"
  using download_name_plain [of "''/etc/../x''"] by blast

section \<open>When file operations fail\<close>

text \<open>Callers ignore that the queue could not be read: one release by any run then replaces the whole queue with
  an empty one.\<close>

lemma unreadable_queue_lost:
  "queue (release run paths segments ((working_io now)\<lparr>io_read_pending := False\<rparr>) (store_of [claimed_entry ''f'' ''b''])) = []"
  by (simp add: release_def load_pending_def working_io_def save_pending_def example_simps)

text \<open>A commit whose registry cannot be saved still takes the units out of the queue: they are neither queued nor
  recorded any more.\<close>

lemma commit_loses_units:
  "let s = commit_trained ''a'' [dv] [''f''] [] ((working_io now)\<lparr>io_save_registry := False\<rparr>)
     (store_of [claimed_entry ''f'' ''a'']) in queue s = [] \<and> records s = []"
  by (simp add: commit_trained_def load_pending_def load_registry_def working_io_def save_pending_def save_registry_def
      trained_entry_def Let_def example_simps)

text \<open>\<open>delete_paths\<close> reads the registry before it takes the lock and writes it after: a record committed in
  between is lost.\<close>

lemma delete_loses_commit:
  assumes "data_file dv = ''g''" and "dv_segment_start dv = - 1"
  shows "let s = (store_of [claimed_entry ''g'' ''b''])\<lparr>rs_registry := Some [dv\<lparr>data_file := ''f''\<rparr>]\<rparr>;
      registry = entries_of (load_registry (working_io now) s);
      committed = commit_trained ''b'' [dv] [''g''] [] (working_io now) s
    in case delete_locked [] [''f''] False False [] (working_io now) registry committed of (ds, registry', s') \<Rightarrow>
      records committed = [dv\<lparr>data_file := ''f''\<rparr>, dv] \<and>
      records (snd (save_registry (working_io now) registry' s')) = []"
  using assms
  by (simp add: commit_trained_def load_pending_def load_registry_def working_io_def save_pending_def save_registry_def
      trained_entry_def claim_held_def Let_def delete_locked_def delete_target_def whole_file_def record_of_target_def
      is_target_def segment_matches_def example_simps)

text \<open>\<open>requeue_trained\<close> has the same gap: a record another run commits between the reading and the writing of the
  registry is lost, with its unit already out of the queue.\<close>

lemma requeue_loses_commit:
  assumes "data_file dv = ''g''" and "dv_segment_start dv = - 1"
  shows "let s = (store_of [claimed_entry ''g'' ''b''])\<lparr>rs_registry := Some [dv\<lparr>data_file := ''f''\<rparr>]\<rparr>;
      registry = entries_of (load_registry (working_io now) s)
    in case requeue_locked [''f''] False [] (working_io now) registry s of (result, registry', s1) \<Rightarrow>
      let committed = commit_trained ''b'' [dv] [''g''] [] (working_io now) s1 in
      case requeue_finish (working_io now) registry result registry' committed of (result', s') \<Rightarrow>
        dv \<in> set (records committed) \<and> rq_ok result' \<and> records s' = [] \<and> map pe_path (queue s') = [''f'']"
  using assms
  by (simp add: commit_trained_def load_pending_def load_registry_def working_io_def save_pending_def save_registry_def
      trained_entry_def claim_held_def Let_def requeue_locked_def requeue_finish_def remdups_first_def requeued_entry_def
      segment_matches_def example_simps)

text \<open>\<open>remove_pending\<close> writes the trainer's own copy of the queue over the shared one, without the lock: a claim
  another run made since is gone.\<close>

lemma remove_pending_drops_claim:
  "queue (dr_transport (snd (remove_pending (local_transport [] (working_io now)) ''f''
     \<lparr>dr_registry = [], dr_trained_set = {}, dr_pending = [claimed_entry ''f'' [], claimed_entry ''g'' []],
      dr_transport = store_of [claimed_entry ''f'' [], claimed_entry ''g'' ''b'']\<rparr>))) = [claimed_entry ''g'' []]"
  by (simp add: remove_pending_def save_pending_list_def local_transport_def save_pending_def working_io_def example_simps)

text \<open>Assigning every entry to a model also assigns row ranges in the store, but not in the trainer's copy.\<close>

lemma assign_all_misses_ranges:
  "let r = \<lparr>dr_registry = [], dr_trained_set = {}, dr_pending = [pending_entry ''f'' 0 5],
      dr_transport = store_of [pending_entry ''f'' 0 5]\<rparr>;
      r' = snd (assign_model (local_transport [] (working_io now)) ''m'' [] 0 [] r)
    in map pe_model_name (queue (dr_transport r')) = [''m''] \<and> map pe_model_name (dr_pending r') = [[]]"
  by (simp add: assign_model_def local_transport_def assign_def load_pending_def working_io_def save_pending_def
      assign_match_def set_model_segments_def set_model_paths_def Let_def example_simps)

end
