(* ===== verification/Sample_Json.thy ===== *)
theory Sample_Json
  imports Config_Float
begin

text \<open>
  Training samples as JSON lines (\<open>src/src/TrainingSampleMeta.hpp\<close>): the writer \<open>sample_to_jsonl\<close> and the
  lenient reader of the top-level members of one object. A position in the line is the rest of the line from there;
  a function that moves the position returns the new rest. Bytes are characters.
\<close>

section \<open>Samples\<close>

text \<open>Any value of a \<open>float\<close>; metadata is not checked for being finite.\<close>

datatype any_float = Finite float32 | Infinite bool | Not_A_Number bool

definition ONE :: any_float where "ONE = Finite (F32 False ONE_UNITS)"
definition MINUS_ONE :: any_float where "MINUS_ONE = Finite (F32 True ONE_UNITS)"

record SampleMeta =
  sm_domain :: string
  sm_task_type :: string
  sm_language :: string
  sm_split :: string
  sm_quality :: any_float
  sm_weight :: any_float
  sm_token_count :: int

definition no_meta :: SampleMeta where
  "no_meta = \<lparr>sm_domain = [], sm_task_type = [], sm_language = [], sm_split = [], sm_quality = MINUS_ONE,
     sm_weight = ONE, sm_token_count = - 1\<rparr>"

section \<open>Escaping\<close>

abbreviation QUOTE :: char where "QUOTE \<equiv> CHR 0x22"

definition esc_char :: "char \<Rightarrow> string" where
  "esc_char c =
     (if c = QUOTE then [BSLASH, QUOTE]
      else if c = BSLASH then [BSLASH, BSLASH]
      else if c = NL then [BSLASH, CHR ''n'']
      else if c = CR then [BSLASH, CHR ''r'']
      else if c = CHR 0x09 then [BSLASH, CHR ''t'']
      else [c])"

definition json_esc :: "string \<Rightarrow> string" where
  "json_esc s = concat (map esc_char s)"

text \<open>\<open>0xC0 | (cp >> 6)\<close> and so on: the bits never overlap, so \<open>|\<close> adds. \<open>static_cast<char>\<close> drops what is above 8 bits.\<close>

definition append_utf8 :: "nat \<Rightarrow> string" where
  "append_utf8 cp =
     (if cp < 0x80 then [char_of cp]
      else if cp < 0x800 then [char_of (0xC0 + cp div 64), char_of (0x80 + cp mod 64)]
      else if cp < 0x10000 then
        [char_of (0xE0 + cp div 4096), char_of (0x80 + cp div 64 mod 64), char_of (0x80 + cp mod 64)]
      else [char_of (0xF0 + cp div 262144), char_of (0x80 + cp div 4096 mod 64), char_of (0x80 + cp div 64 mod 64),
        char_of (0x80 + cp mod 64)])"

definition read_hex4 :: "string \<Rightarrow> nat option" where
  "read_hex4 s =
     (if length s < 4 then None
      else if list_all (\<lambda>c. hex_value c \<noteq> None) (take 4 s) then Some (hex_digits_value (take 4 s)) else None)"

text \<open>What \<open>\u\<close> stands for and the text behind it: a second escape is taken only as the low half of a pair.\<close>

definition low_surrogate :: "string \<Rightarrow> (nat \<times> string) option" where
  "low_surrogate s =
     (case s of b # u # s' \<Rightarrow>
        if b = BSLASH \<and> u = CHR ''u'' then
          (case read_hex4 s' of
             Some lo \<Rightarrow> if 0xDC00 \<le> lo \<and> lo \<le> 0xDFFF then Some (lo, drop 4 s') else None
           | None \<Rightarrow> None)
        else None
      | _ \<Rightarrow> None)"

definition unicode_escape :: "string \<Rightarrow> string \<times> string" where
  "unicode_escape s =
     (case read_hex4 s of
        None \<Rightarrow> ([BSLASH, CHR ''u''], s)
      | Some cp \<Rightarrow>
          let s = drop 4 s in
          if 0xD800 \<le> cp \<and> cp \<le> 0xDBFF then
            (case low_surrogate s of
               Some (lo, s) \<Rightarrow> (append_utf8 (0x10000 + (cp - 0xD800) * 1024 + (lo - 0xDC00)), s)
             | None \<Rightarrow> (append_utf8 0xFFFD, s))
          else if 0xDC00 \<le> cp \<and> cp \<le> 0xDFFF then (append_utf8 0xFFFD, s)
          else (append_utf8 cp, s))"

definition escape_value :: "char \<Rightarrow> char" where
  "escape_value c =
     (if c = CHR ''b'' then CHR 0x08 else if c = CHR ''f'' then CHR 0x0C
      else if c = CHR ''n'' then NL else if c = CHR ''r'' then CR
      else if c = CHR ''t'' then CHR 0x09 else c)"

definition escape :: "char \<Rightarrow> string \<Rightarrow> string \<times> string" where
  "escape c s = (if c = CHR ''u'' then unicode_escape s else ([escape_value c], s))"

lemma low_surrogate_rest: "low_surrogate s = Some (lo, r) \<Longrightarrow> length r \<le> length s"
  by (auto simp: low_surrogate_def split: list.splits if_splits option.splits)

lemma escape_rest: "length (snd (escape c s)) \<le> length s"
  by (auto simp: escape_def unicode_escape_def Let_def dest: low_surrogate_rest split: option.split)

text \<open>\<open>parse_string\<close> behind the opening quote: the decoded text and what follows the closing quote.\<close>

function parse_string :: "string \<Rightarrow> (string \<times> string) option" where
  "parse_string [] = None"
| "parse_string (c # s) =
     (if c = QUOTE then Some ([], s)
      else if c \<noteq> BSLASH then map_option (apfst ((#) c)) (parse_string s)
      else case s of
        [] \<Rightarrow> None
      | e # s \<Rightarrow> map_option (apfst ((@) (fst (escape e s)))) (parse_string (snd (escape e s))))"
  by pat_completeness auto
termination by (relation "measure length") (auto intro: le_imp_less_Suc le_SucI escape_rest)

declare parse_string.simps(2) [simp del]

lemma parse_string_shorter: "parse_string s = Some (out, r) \<Longrightarrow> length r < length s"
proof (induction s arbitrary: out r rule: parse_string.induct)
  case (2 c s)
  show ?case
  proof (cases s)
    case (Cons e s')
    have "length (snd (escape e s')) < Suc (length s')" using escape_rest by (rule le_imp_less_Suc)
    with 2 Cons show ?thesis by (force simp: parse_string.simps(2) split: if_splits)
  qed (use 2 in \<open>auto simp: parse_string.simps(2) split: if_splits\<close>)
qed simp

section \<open>Members\<close>

record JsonMember =
  is_string :: bool
  member_value :: string

definition skip_ws :: "string \<Rightarrow> string" where
  "skip_ws s = dropWhile is_space s"

function skip_container :: "int \<Rightarrow> string \<Rightarrow> string option" where
  "skip_container depth [] = None"
| "skip_container depth (c # s) =
     (if c = QUOTE then
        (case parse_string s of None \<Rightarrow> None | Some (_, s) \<Rightarrow> skip_container depth s)
      else if c = CHR ''{'' \<or> c = CHR ''['' then skip_container (depth + 1) s
      else if c = CHR ''}'' \<or> c = CHR '']'' then (if depth - 1 = 0 then Some s else skip_container (depth - 1) s)
      else skip_container depth s)"
  by pat_completeness auto
termination by (relation "measure (length \<circ> snd)") (auto dest: parse_string_shorter)

declare skip_container.simps(2) [simp del]

lemma skip_container_shorter: "skip_container depth s = Some r \<Longrightarrow> length r < length s"
proof (induction depth s rule: skip_container.induct)
  case (2 depth c s)
  show ?case
  proof (cases "c = QUOTE")
    case True
    with 2(5) obtain out s' where s': "parse_string s = Some (out, s')" "skip_container depth s' = Some r"
      by (auto simp: skip_container.simps(2) split: option.splits)
    from 2(1) [OF True s'(1) refl s'(2)] parse_string_shorter [OF s'(1)] show ?thesis by simp
  next
    case False
    with 2(2-5) show ?thesis by (auto simp: skip_container.simps(2) less_SucI split: if_splits)
  qed
qed simp

definition token_end :: "char \<Rightarrow> bool" where
  "token_end c \<longleftrightarrow> c = CHR '','' \<or> c = CHR ''}'' \<or> is_space c"

text \<open>The value at the position, a string, a skipped object or array, or the characters of any other token.\<close>

definition parse_value :: "string \<Rightarrow> (JsonMember \<times> string) option" where
  "parse_value s =
     (case s of
        [] \<Rightarrow> None
      | c # cs \<Rightarrow>
          if c = QUOTE then map_option (apfst (\<lambda>v. \<lparr>is_string = True, member_value = v\<rparr>)) (parse_string cs)
          else if c = CHR ''{'' \<or> c = CHR ''['' then
            map_option (Pair \<lparr>is_string = False, member_value = []\<rparr>) (skip_container 0 s)
          else Some (\<lparr>is_string = False, member_value = takeWhile (Not \<circ> token_end) s\<rparr>, dropWhile (Not \<circ> token_end) s))"

text \<open>One \<open>key : value\<close> and the position behind it; \<open>None\<close> where the loop returns what it has.\<close>

definition parse_member :: "string \<Rightarrow> ((string \<times> JsonMember) \<times> string) option" where
  "parse_member s =
     (case skip_ws s of
        [] \<Rightarrow> None
      | c # cs \<Rightarrow>
          if c \<noteq> QUOTE then None
          else case parse_string cs of
            None \<Rightarrow> None
          | Some (key, s) \<Rightarrow>
              (case skip_ws s of
                 [] \<Rightarrow> None
               | d # s \<Rightarrow>
                   if d \<noteq> CHR '':'' then None
                   else map_option (apfst (Pair key)) (parse_value (skip_ws s))))"

lemma parse_value_rest:
  assumes "parse_value s = Some (m, r)"
  shows "length r \<le> length s"
proof (cases s)
  case (Cons c cs)
  consider "parse_string cs = Some (member_value m, r)" | "skip_container 0 s = Some r"
    | "r = dropWhile (Not \<circ> token_end) s"
    using assms Cons by (auto simp: parse_value_def split: if_splits)
  then show ?thesis
    using parse_string_shorter [of cs] skip_container_shorter [of 0 s r] length_dropWhile_le [of "Not \<circ> token_end" s]
    by cases (simp_all add: Cons less_imp_le le_SucI)
qed (use assms in \<open>simp add: parse_value_def\<close>)

lemma skip_ws_le: "length (skip_ws s) \<le> length s"
  by (simp add: skip_ws_def length_dropWhile_le)

lemma skip_ws_Cons: "skip_ws s = c # s' \<Longrightarrow> length s' < length s"
  using skip_ws_le [of s] by simp

lemma parse_member_shorter: "parse_member s = Some (m, r) \<Longrightarrow> length r < length s"
  using skip_ws_le
  by (fastforce simp: parse_member_def split: list.splits if_splits option.splits prod.splits
      dest!: parse_value_rest parse_string_shorter skip_ws_Cons intro: le_less_trans)

function parse_members :: "string \<Rightarrow> (string \<times> JsonMember) list" where
  "parse_members s =
     (case parse_member s of
        None \<Rightarrow> []
      | Some (m, r) \<Rightarrow>
          m # (case skip_ws r of [] \<Rightarrow> [] | c # r \<Rightarrow> if c = CHR '','' then parse_members r else []))"
  by pat_completeness auto
termination by (relation "measure length") (auto dest!: parse_member_shorter skip_ws_Cons)

declare parse_members.simps [simp del]

definition parse_object_members :: "string \<Rightarrow> (string \<times> JsonMember) list" where
  "parse_object_members line =
     (case skip_ws line of [] \<Rightarrow> [] | c # s \<Rightarrow> if c = CHR ''{'' then parse_members s else [])"

text \<open>The last member of a name counts.\<close>

definition find_member :: "(string \<times> JsonMember) list \<Rightarrow> string \<Rightarrow> JsonMember option" where
  "find_member members key = map_of (rev members) key"

definition member_str :: "(string \<times> JsonMember) list \<Rightarrow> string \<Rightarrow> string" where
  "member_str members key =
     (case find_member members key of Some m \<Rightarrow> if is_string m then member_value m else [] | None \<Rightarrow> [])"

section \<open>Numbers\<close>

text \<open>\<open>std::stoi\<close>: the longest number at the front counts, whatever follows.\<close>

definition signed_prefix :: "string \<Rightarrow> bool \<times> string" where
  "signed_prefix value =
     (case dropWhile is_space value of
        c # cs \<Rightarrow> if c = CHR ''-'' then (True, cs) else if c = CHR ''+'' then (False, cs) else (False, c # cs)
      | [] \<Rightarrow> (False, []))"

definition stoi :: "string \<Rightarrow> int option" where
  "stoi value =
     (case signed_prefix value of (neg, s) \<Rightarrow>
        (case whole_nat (takeWhile is_digit s) of
           None \<Rightarrow> None
         | Some n \<Rightarrow>
             let i = (if neg then - int n else int n) in
             if - (2 ^ 31) \<le> i \<and> i < 2 ^ 31 then Some i else None))"

text \<open>\<open>std::stof\<close> likewise, over \<open>strtof\<close>: an exponent without digits is not part of the number, nor is \<open>0x\<close>
  without hexadecimal digits. Out of range is an exception, \<open>inf\<close> and \<open>nan\<close> are values.\<close>

definition exponent_prefix :: "char \<Rightarrow> string \<Rightarrow> int" where
  "exponent_prefix mark s =
     (case s of
        [] \<Rightarrow> 0
      | c # cs \<Rightarrow>
          if to_lower c \<noteq> mark then 0
          else case cs of
            [] \<Rightarrow> 0
          | sg # ds \<Rightarrow>
              if sg = CHR ''-'' then - int (digits_value (takeWhile is_digit ds))
              else if sg = CHR ''+'' then int (digits_value (takeWhile is_digit ds))
              else int (digits_value (takeWhile is_digit cs)))"

definition decimal_prefix :: "string \<Rightarrow> (int \<times> int) option" where
  "decimal_prefix s =
     (case split_mantissa is_digit s of (whole, frac, rest) \<Rightarrow>
        if whole = [] \<and> frac = [] then None
        else Some (scale 10 (digits_value (whole @ frac)) (exponent_prefix CHR ''e'' rest - int (length frac))))"

definition hex_prefix :: "string \<Rightarrow> (int \<times> int) option" where
  "hex_prefix s =
     (case split_mantissa (\<lambda>c. hex_value c \<noteq> None) s of (whole, frac, rest) \<Rightarrow>
        if whole = [] \<and> frac = [] then Some (0, 1)
        else Some (scale 2 (hex_digits_value (whole @ frac)) (exponent_prefix CHR ''p'' rest - 4 * int (length frac))))"

definition stof :: "string \<Rightarrow> any_float option" where
  "stof value =
     (case signed_prefix value of (neg, s) \<Rightarrow>
        let word = map to_lower (take 3 s) in
        if word = ''inf'' then Some (Infinite neg)
        else if word = ''nan'' then Some (Not_A_Number neg)
        else
          case (if starts_with ''0x'' (map to_lower s) then hex_prefix (drop 2 s) else decimal_prefix s) of
            None \<Rightarrow> None
          | Some (n, d) \<Rightarrow> map_option (\<lambda>u. Finite (F32 neg u)) (to_float n d))"

definition member_flt :: "(string \<times> JsonMember) list \<Rightarrow> string \<Rightarrow> any_float \<Rightarrow> any_float" where
  "member_flt members key def =
     (case find_member members key of
        None \<Rightarrow> def
      | Some m \<Rightarrow>
          if is_string m \<or> member_value m = [] then def
          else case stof (member_value m) of Some f \<Rightarrow> f | None \<Rightarrow> def)"

definition member_inum :: "(string \<times> JsonMember) list \<Rightarrow> string \<Rightarrow> int \<Rightarrow> int" where
  "member_inum members key def =
     (case find_member members key of
        None \<Rightarrow> def
      | Some m \<Rightarrow>
          if is_string m \<or> member_value m = [] then def
          else case stoi (member_value m) of Some i \<Rightarrow> i | None \<Rightarrow> def)"

section \<open>Writing and reading a sample\<close>

definition print_float :: "any_float \<Rightarrow> string" where
  "print_float f =
     (case f of
        Finite x \<Rightarrow> stream_float x
      | Infinite neg \<Rightarrow> (if neg then ''-inf'' else ''inf'')
      | Not_A_Number neg \<Rightarrow> (if neg then ''-nan'' else ''nan''))"

definition not_negative :: "any_float \<Rightarrow> bool" where
  "not_negative f = (case f of Finite x \<Rightarrow> 0 \<le> f_units x | Infinite neg \<Rightarrow> \<not> neg | Not_A_Number _ \<Rightarrow> False)"

definition is_one :: "any_float \<Rightarrow> bool" where
  "is_one f = (case f of Finite x \<Rightarrow> f_units x = ONE_UNITS | _ \<Rightarrow> False)"

definition text_member :: "string \<Rightarrow> string \<Rightarrow> string" where
  "text_member key s = [QUOTE] @ key @ [QUOTE] @ '':'' @ [QUOTE] @ json_esc s @ [QUOTE]"

definition number_member :: "string \<Rightarrow> string \<Rightarrow> string" where
  "number_member key s = [QUOTE] @ key @ [QUOTE] @ '':'' @ s"

definition optional_text :: "string \<Rightarrow> string \<Rightarrow> string" where
  "optional_text key s = (if s = [] then [] else '','' @ text_member key s)"

definition sample_to_jsonl :: "string \<Rightarrow> string \<Rightarrow> SampleMeta \<Rightarrow> string" where
  "sample_to_jsonl input response meta =
     ''{'' @ text_member ''input'' input @ '','' @ text_member ''response'' response @
     optional_text ''domain'' (sm_domain meta) @
     optional_text ''task_type'' (sm_task_type meta) @
     optional_text ''language'' (sm_language meta) @
     optional_text ''split'' (sm_split meta) @
     (if not_negative (sm_quality meta) then '','' @ number_member ''quality'' (print_float (sm_quality meta)) else []) @
     (if is_one (sm_weight meta) then [] else '','' @ number_member ''weight'' (print_float (sm_weight meta))) @
     (if 0 \<le> sm_token_count meta then '','' @ number_member ''token_count'' (int_to_string (sm_token_count meta)) else []) @
     ''}''"

text \<open>\<open>None\<close> for \<open>false\<close>.\<close>

definition parse_jsonl_sample :: "string \<Rightarrow> (string \<times> string \<times> SampleMeta) option" where
  "parse_jsonl_sample line =
     (let members = parse_object_members line;
          input = member_str members ''input'';
          response = member_str members ''response''
      in if input = [] then None
         else Some (input, response,
           \<lparr>sm_domain = member_str members ''domain'', sm_task_type = member_str members ''task_type'',
            sm_language = member_str members ''language'', sm_split = member_str members ''split'',
            sm_quality = member_flt members ''quality'' MINUS_ONE, sm_weight = member_flt members ''weight'' ONE,
            sm_token_count = member_inum members ''token_count'' (- 1)\<rparr>))"

end
