(* ===== verification/Sample_Text.thy ===== *)
theory Sample_Text
  imports Sample_Json
begin

text \<open>
  What \<open>sample_to_jsonl\<close> writes is what \<open>parse_jsonl_sample\<close> reads: escaped strings are decoded to themselves, the
  reader finds exactly the members that were written, and a sample never spans two lines.
\<close>

section \<open>Strings\<close>

lemma append_one: "(@) [c] = (#) c"
  by (rule ext) simp

lemma parse_string_esc_char: "parse_string (esc_char c @ r) = map_option (apfst ((#) c)) (parse_string r)"
  by (simp add: esc_char_def parse_string.simps(2) escape_def escape_value_def special_chars append_one)

lemma parse_string_esc [simp]: "parse_string (json_esc s @ QUOTE # r) = Some (s, r)"
  by (induction s) (simp_all add: json_esc_def parse_string_esc_char, simp add: parse_string.simps(2))

definition plain_key :: "string \<Rightarrow> bool" where
  "plain_key s \<longleftrightarrow> QUOTE \<notin> set s \<and> BSLASH \<notin> set s"

lemma parse_string_plain: "plain_key s \<Longrightarrow> parse_string (s @ QUOTE # r) = Some (s, r)"
  by (induction s) (simp_all add: plain_key_def parse_string.simps(2) eq_commute [of QUOTE] eq_commute [of BSLASH])

lemma json_esc_one_line: "NL \<notin> set (json_esc s)" "CR \<notin> set (json_esc s)"
  by (auto simp: json_esc_def esc_char_def special_chars split: if_splits)

section \<open>Members\<close>

definition raw_token :: "string \<Rightarrow> bool" where
  "raw_token s \<longleftrightarrow> s \<noteq> [] \<and> (\<forall>c \<in> set s. \<not> token_end c \<and> c \<notin> {QUOTE, CHR ''{'', CHR ''[''})"

fun good_member :: "string \<times> JsonMember \<Rightarrow> bool" where
  "good_member (key, m) \<longleftrightarrow> plain_key key \<and> (is_string m \<or> raw_token (member_value m))"

fun member_text :: "string \<times> JsonMember \<Rightarrow> string" where
  "member_text (key, m) =
     [QUOTE] @ key @ [QUOTE] @ '':'' @
       (if is_string m then [QUOTE] @ json_esc (member_value m) @ [QUOTE] else member_value m)"

definition more_text :: "(string \<times> JsonMember) list \<Rightarrow> string" where
  "more_text ms = concat (map (\<lambda>m. '','' @ member_text m) ms)"

lemma skip_ws_plain: "\<not> is_space c \<Longrightarrow> skip_ws (c # s) = c # s"
  by (simp add: skip_ws_def)

lemma raw_token_ends:
  assumes "raw_token s" and "token_end c"
  shows "takeWhile (Not \<circ> token_end) (s @ c # r) = s" and "dropWhile (Not \<circ> token_end) (s @ c # r) = c # r"
  using assms by (simp_all add: raw_token_def takeWhile_append2 dropWhile_append2)

lemma parse_value_text:
  assumes "good_member (key, m)" and "token_end c"
  shows "parse_value (skip_ws ((if is_string m then [QUOTE] @ json_esc (member_value m) @ [QUOTE] else member_value m)
    @ c # r)) = Some (m, c # r)"
proof (cases "is_string m")
  case True
  then have "m = \<lparr>is_string = True, member_value = member_value m\<rparr>" by simp
  with True show ?thesis by (simp add: skip_ws_def is_space_def parse_value_def)
next
  case False
  with assms have raw: "raw_token (member_value m)" by simp
  then obtain d ds where d: "member_value m = d # ds" "\<not> token_end d" "d \<notin> {QUOTE, CHR ''{'', CHR ''[''}"
    by (cases "member_value m") (auto simp: raw_token_def)
  from False have m: "m = \<lparr>is_string = False, member_value = member_value m\<rparr>" by simp
  have "skip_ws (member_value m @ c # r) = member_value m @ c # r"
    using d by (simp add: skip_ws_def token_end_def)
  moreover have "parse_value (member_value m @ c # r) = Some (m, c # r)"
    using raw_token_ends [OF raw assms(2), of r] d m by (simp add: parse_value_def)
  ultimately show ?thesis using False by simp
qed

lemma parse_member_text:
  assumes "good_member m" and "token_end c"
  shows "parse_member (member_text m @ c # r) = Some (m, c # r)"
proof -
  obtain key j where m: "m = (key, j)" by force
  have "parse_string (key @ QUOTE # s) = Some (key, s)" for s using assms(1) m by (simp add: parse_string_plain)
  then show ?thesis using parse_value_text [OF assms(1) [unfolded m] assms(2), of r]
    by (simp add: parse_member_def m skip_ws_plain is_space_def)
qed

lemma parse_members_text:
  "list_all good_member (m # ms) \<Longrightarrow> parse_members (member_text m @ more_text ms @ ''}'' @ r) = m # ms"
proof (induction ms arbitrary: m)
  case Nil
  have t: "token_end CHR ''}''" by (simp add: token_end_def)
  have "\<not> is_space CHR ''}''" by (simp add: is_space_def)
  with Nil parse_member_text [OF _ t] show ?case
    by (subst parse_members.simps) (simp add: more_text_def skip_ws_plain)
next
  case (Cons m' ms)
  have t: "token_end CHR '',''" by (simp add: token_end_def)
  have "\<not> is_space CHR '',''" by (simp add: is_space_def)
  with Cons parse_member_text [OF _ t] show ?case
    by (subst parse_members.simps) (simp add: more_text_def skip_ws_plain)
qed

lemma parse_object_text:
  assumes "list_all good_member (m # ms)"
  shows "parse_object_members (''{'' @ member_text m @ more_text ms @ ''}'') = m # ms"
  using parse_members_text [OF assms, of "[]"]
  by (simp add: parse_object_members_def skip_ws_plain is_space_def)

section \<open>The members of a sample\<close>

definition string_member :: "string \<Rightarrow> string \<Rightarrow> string \<times> JsonMember" where
  "string_member key s = (key, \<lparr>is_string = True, member_value = s\<rparr>)"

definition token_member :: "string \<Rightarrow> string \<Rightarrow> string \<times> JsonMember" where
  "token_member key s = (key, \<lparr>is_string = False, member_value = s\<rparr>)"

definition member_if :: "bool \<Rightarrow> 'a \<Rightarrow> 'a list" where
  "member_if b x = (if b then [x] else [])"

definition meta_members :: "SampleMeta \<Rightarrow> (string \<times> JsonMember) list" where
  "meta_members meta =
     member_if (sm_domain meta \<noteq> []) (string_member ''domain'' (sm_domain meta)) @
     member_if (sm_task_type meta \<noteq> []) (string_member ''task_type'' (sm_task_type meta)) @
     member_if (sm_language meta \<noteq> []) (string_member ''language'' (sm_language meta)) @
     member_if (sm_split meta \<noteq> []) (string_member ''split'' (sm_split meta)) @
     member_if (not_negative (sm_quality meta)) (token_member ''quality'' (print_float (sm_quality meta))) @
     member_if (\<not> is_one (sm_weight meta)) (token_member ''weight'' (print_float (sm_weight meta))) @
     member_if (0 \<le> sm_token_count meta) (token_member ''token_count'' (int_to_string (sm_token_count meta)))"

lemma number_char_raw: "number_char c \<Longrightarrow> \<not> token_end c \<and> c \<notin> {QUOTE, CHR ''{'', CHR ''[''}"
  by (auto simp: number_char_def is_digit_def token_end_def is_space_def less_eq_char_def)

lemma number_raw: "s \<noteq> [] \<Longrightarrow> list_all number_char s \<Longrightarrow> raw_token s"
  using number_char_raw by (auto simp: raw_token_def list_all_iff)

lemma print_float_chars: "list_all number_char (print_float f)"
  using format_g6_chars
  by (auto simp: print_float_def stream_float_def number_char_def split: any_float.split float32.split)

lemma print_float_nonempty: "print_float f \<noteq> []"
  by (auto simp: print_float_def stream_float_def format_g6_def with_point_def Let_def
      split: any_float.split float32.split prod.split)

lemma int_to_string_nonempty: "int_to_string i \<noteq> []"
  by (simp add: int_to_string_def)

lemma member_if_all: "list_all P (member_if b x) \<longleftrightarrow> (b \<longrightarrow> P x)"
  by (simp add: member_if_def)

lemma good_meta: "list_all good_member (meta_members meta)"
  using number_raw [OF print_float_nonempty print_float_chars]
    number_raw [OF int_to_string_nonempty int_to_string_chars]
  by (simp add: meta_members_def member_if_all string_member_def token_member_def plain_key_def BSLASH_def)

lemma more_text_when: "more_text (member_if b m @ ms) = (if b then '','' @ member_text m else []) @ more_text ms"
    "more_text (member_if b m) = (if b then '','' @ member_text m else [])"
  by (simp_all add: more_text_def member_if_def)

lemma sample_text:
  "sample_to_jsonl input response meta = ''{'' @ member_text (string_member ''input'' input) @
     more_text (string_member ''response'' response # meta_members meta) @ ''}''"
proof -
  have r: "more_text (m # ms) = '','' @ member_text m @ more_text ms" for m ms by (simp add: more_text_def)
  show ?thesis
    unfolding r meta_members_def more_text_when
    by (simp add: sample_to_jsonl_def string_member_def token_member_def optional_text_def text_member_def number_member_def)
qed

lemma sample_members:
  "parse_object_members (sample_to_jsonl input response meta) =
     string_member ''input'' input # string_member ''response'' response # meta_members meta"
  unfolding sample_text
  by (rule parse_object_text) (simp add: good_meta string_member_def plain_key_def BSLASH_def)

section \<open>Reading the members back\<close>

lemma find_append: "find_member (ms @ ns) k =
    (case find_member ns k of Some m \<Rightarrow> Some m | None \<Rightarrow> find_member ms k)"
  unfolding find_member_def rev_append map_of_append map_add_def by (rule refl)

lemma find_when [simp]: "find_member (member_if b (k', m)) k = (if b \<and> k = k' then Some m else None)"
  by (simp add: find_member_def member_if_def)

lemma find_Cons: "find_member ((k', m) # ms) k =
    (case find_member ms k of Some x \<Rightarrow> Some x | None \<Rightarrow> if k = k' then Some m else None)"
  by (simp add: find_member_def map_add_def split: option.split)

lemmas find_simps = find_append find_Cons string_member_def token_member_def meta_members_def

lemma takeWhile_number: "takeWhile is_digit (nat_to_string n) = nat_to_string n"
  using nat_to_string_digits [of n] by (auto simp: list_all_iff takeWhile_eq_all_conv)

lemma sample_stoi_print:
  assumes "0 \<le> i" and "i < 2 ^ 31"
  shows "stoi (int_to_string i) = Some i"
proof -
  obtain c cs where c: "nat_to_string (nat i) = c # cs" "is_digit c" by (rule nat_to_string_first)
  have "signed_prefix (int_to_string i) = (False, nat_to_string (nat i))"
    using assms c digit_not_special [OF c(2)] by (simp add: signed_prefix_def int_to_string_def)
  then show ?thesis using assms by (simp add: stoi_def takeWhile_number)
qed

text \<open>A number that was written is read as whatever \<open>std::stof\<close> makes of its digits.\<close>

definition reread :: "any_float \<Rightarrow> any_float \<Rightarrow> any_float" where
  "reread f def = (case stof (print_float f) of Some g \<Rightarrow> g | None \<Rightarrow> def)"

lemma sample_round_trip_gen:
  assumes "input \<noteq> []" and "sm_token_count meta < 2 ^ 31"
  shows "parse_jsonl_sample (sample_to_jsonl input response meta) = Some (input, response,
    meta\<lparr>sm_quality := (if not_negative (sm_quality meta) then reread (sm_quality meta) MINUS_ONE else MINUS_ONE),
      sm_weight := (if is_one (sm_weight meta) then ONE else reread (sm_weight meta) ONE),
      sm_token_count := max (- 1) (sm_token_count meta)\<rparr>)"
proof -
  let ?ms = "string_member ''input'' input # string_member ''response'' response # meta_members meta"
  have texts: "member_str ?ms ''input'' = input" "member_str ?ms ''response'' = response"
    "member_str ?ms ''domain'' = sm_domain meta" "member_str ?ms ''task_type'' = sm_task_type meta"
    "member_str ?ms ''language'' = sm_language meta" "member_str ?ms ''split'' = sm_split meta"
    by (simp_all add: member_str_def find_simps)
  have "member_flt ?ms ''quality'' MINUS_ONE =
      (if not_negative (sm_quality meta) then reread (sm_quality meta) MINUS_ONE else MINUS_ONE)"
    by (simp add: member_flt_def find_simps print_float_nonempty reread_def)
  moreover have "member_flt ?ms ''weight'' ONE = (if is_one (sm_weight meta) then ONE else reread (sm_weight meta) ONE)"
    by (simp add: member_flt_def find_simps print_float_nonempty reread_def)
  moreover have "member_inum ?ms ''token_count'' (- 1) = max (- 1) (sm_token_count meta)"
    using assms(2) by (simp add: member_inum_def find_simps int_to_string_nonempty sample_stoi_print)
  ultimately show ?thesis using assms(1) texts by (simp add: parse_jsonl_sample_def sample_members)
qed

section \<open>One line\<close>

lemma sample_one_line: "NL \<notin> set (sample_to_jsonl input response meta)"
proof -
  have "NL \<notin> set (print_float f)" for f by (rule number_char_plain(1) [OF print_float_chars])
  moreover have "NL \<notin> set (int_to_string i)" for i by (rule number_char_plain(1) [OF int_to_string_chars])
  ultimately show ?thesis using json_esc_one_line(1)
    by (simp add: sample_to_jsonl_def text_member_def optional_text_def number_member_def) (simp add: NL_def)
qed

end
