(* ===== verification/Training_Data.thy ===== *)
theory Training_Data
  imports Sample_Text
begin

text \<open>
  Reading a training file: \<open>DatasetRegistry::load_conversation_pairs\<close> and \<open>count_pairs\<close> of
  \<open>src/src/DatasetRegistry.cpp\<close>, on the text of the file. A file is in the JSON lines format or in the older
  \<open>INPUT:\<close> / \<open>RESPONSE:\<close> format; only the first can be read by a range of pairs (a negative start means all).
\<close>

record ConversationPair =
  cp_input :: string
  cp_response :: string
  cp_meta :: SampleMeta

definition plain_pair :: "string \<Rightarrow> string \<Rightarrow> ConversationPair" where
  "plain_pair i r = \<lparr>cp_input = i, cp_response = r, cp_meta = no_meta\<rparr>"

section \<open>The format\<close>

text \<open>\<open>find_first_not_of(" \t\r\n")\<close> of every line until one is left over: empty when no line is.\<close>

fun first_line :: "string list \<Rightarrow> string" where
  "first_line [] = []"
| "first_line (l # ls) = (if dropWhile blank l \<noteq> [] then dropWhile blank l else first_line ls)"

definition is_jsonl :: "string \<Rightarrow> bool" where
  "is_jsonl content = starts_with ''{'' (first_line (getlines content))"

section \<open>JSON lines\<close>

definition line_sample :: "string \<Rightarrow> (string \<times> string \<times> SampleMeta) option" where
  "line_sample line =
     (case line of [] \<Rightarrow> None | c # _ \<Rightarrow> if c \<noteq> CHR ''{'' then None else parse_jsonl_sample line)"

fun jsonl_pairs :: "int \<Rightarrow> int \<Rightarrow> int \<Rightarrow> string list \<Rightarrow> ConversationPair list" where
  "jsonl_pairs start count seen [] = []"
| "jsonl_pairs start count seen (line # lines) =
     (case line_sample line of
        None \<Rightarrow> jsonl_pairs start count seen lines
      | Some (i, r, meta) \<Rightarrow>
          if 0 \<le> start \<and> seen < start then jsonl_pairs start count (seen + 1) lines
          else if 0 \<le> start \<and> start + count \<le> seen then []
          else \<lparr>cp_input = i, cp_response = r, cp_meta = meta\<rparr> # jsonl_pairs start count (seen + 1) lines)"

section \<open>\<open>INPUT:\<close> and \<open>RESPONSE:\<close>\<close>

record legacy_state =
  current_input :: string
  current_response :: string
  legacy_pairs :: "ConversationPair list"

definition emit_pair :: "legacy_state \<Rightarrow> legacy_state" where
  "emit_pair s =
     (if current_input s \<noteq> [] \<and> current_response s \<noteq> [] then
        \<lparr>current_input = [], current_response = [],
         legacy_pairs = legacy_pairs s @ [plain_pair (current_input s) (current_response s)]\<rparr>
      else s)"

definition tab_or_space :: "char \<Rightarrow> bool" where
  "tab_or_space c \<longleftrightarrow> c = CHR '' '' \<or> c = CHR 0x09"

definition legacy_line :: "legacy_state \<Rightarrow> string \<Rightarrow> legacy_state" where
  "legacy_line s line =
     (let line = trim line in
      if line = [] then emit_pair s
      else if starts_with ''INPUT:'' line then
        (emit_pair s)\<lparr>current_input := dropWhile tab_or_space (drop 6 line)\<rparr>
      else if starts_with ''RESPONSE:'' line then
        s\<lparr>current_response := dropWhile tab_or_space (drop 9 line)\<rparr>
      else s)"

definition legacy_file :: "string list \<Rightarrow> ConversationPair list" where
  "legacy_file lines =
     legacy_pairs (emit_pair (foldl legacy_line \<lparr>current_input = [], current_response = [], legacy_pairs = []\<rparr> lines))"

section \<open>Loading\<close>

text \<open>\<open>None\<close> is a file that cannot be opened. The pairs are appended to those the caller has.\<close>

definition load_conversation_pairs ::
  "string option \<Rightarrow> int \<Rightarrow> int \<Rightarrow> ConversationPair list \<Rightarrow> ConversationPair list \<times> nat" where
  "load_conversation_pairs file segment_start segment_count pairs =
     (case file of
        None \<Rightarrow> (pairs, 0)
      | Some content \<Rightarrow>
          let new = (if is_jsonl content then jsonl_pairs segment_start segment_count 0 (getlines content)
                     else legacy_file (getlines content))
          in (pairs @ new, length new))"

definition load_all_pairs :: "string option \<Rightarrow> ConversationPair list \<Rightarrow> ConversationPair list \<times> nat" where
  "load_all_pairs file pairs = load_conversation_pairs file (- 1) (- 1) pairs"

definition count_pairs :: "string option \<Rightarrow> nat" where
  "count_pairs file = snd (load_all_pairs file [])"

section \<open>Ranges\<close>

text \<open>The samples of a file, line by line.\<close>

definition line_pairs :: "string \<Rightarrow> ConversationPair list" where
  "line_pairs line =
     (case line_sample line of None \<Rightarrow> []
      | Some (i, r, meta) \<Rightarrow> [\<lparr>cp_input = i, cp_response = r, cp_meta = meta\<rparr>])"

definition file_pairs :: "string list \<Rightarrow> ConversationPair list" where
  "file_pairs lines = concat (map line_pairs lines)"

lemma file_pairs_simps [simp]: "file_pairs [] = []" "file_pairs (l # ls) = line_pairs l @ file_pairs ls"
    "file_pairs (ls @ ls') = file_pairs ls @ file_pairs ls'"
  by (simp_all add: file_pairs_def)

lemma jsonl_pairs_all: "start < 0 \<Longrightarrow> jsonl_pairs start count seen lines = file_pairs lines"
  by (induction lines arbitrary: seen) (auto simp: line_pairs_def split: option.split)

lemma jsonl_pairs_range:
  assumes "0 \<le> start" and "0 \<le> count"
  shows "jsonl_pairs start count seen lines =
    take (nat (start + count - max start seen)) (drop (nat (start - seen)) (file_pairs lines))"
proof (induction lines arbitrary: seen)
  case (Cons l ls)
  show ?case
  proof (cases "line_sample l")
    case None
    then show ?thesis using Cons.IH by (simp add: line_pairs_def)
  next
    case (Some p)
    then obtain p' where p: "line_pairs l = [p']" by (cases p) (simp add: line_pairs_def)
    consider "seen < start" | "start + count \<le> seen" "start \<le> seen" | "start \<le> seen" "seen < start + count" by linarith
    then show ?thesis
    proof cases
      case 1
      then have "nat (start - seen) = Suc (nat (start - (seen + 1)))" by simp
      with 1 Some p Cons.IH assms show ?thesis by (cases p) simp
    next
      case 2
      then show ?thesis using Some p assms by (cases p) simp
    next
      case 3
      then have "nat (start + count - seen) = Suc (nat (start + count - (seen + 1)))" by simp
      with 3 Some p Cons.IH assms show ?thesis by (cases p) (simp add: line_pairs_def)
    qed
  qed
qed simp

lemma load_jsonl_all:
  "is_jsonl content \<Longrightarrow> load_all_pairs (Some content) pairs =
     (pairs @ file_pairs (getlines content), length (file_pairs (getlines content)))"
  by (simp add: load_all_pairs_def load_conversation_pairs_def jsonl_pairs_all Let_def)

lemma load_jsonl_range:
  assumes "is_jsonl content" and "0 \<le> start" and "0 \<le> count"
  shows "fst (load_conversation_pairs (Some content) start count pairs) =
    pairs @ take (nat count) (drop (nat start) (file_pairs (getlines content)))"
  using assms by (simp add: load_conversation_pairs_def jsonl_pairs_range)

section \<open>Written files\<close>

text \<open>A file of written samples, one a line.\<close>

definition pair_line :: "ConversationPair \<Rightarrow> string" where
  "pair_line p = sample_to_jsonl (cp_input p) (cp_response p) (cp_meta p)"

definition reread_pair :: "ConversationPair \<Rightarrow> ConversationPair" where
  "reread_pair p =
     p\<lparr>cp_meta := (cp_meta p)\<lparr>
        sm_quality := (let q = sm_quality (cp_meta p) in if not_negative q then reread q MINUS_ONE else MINUS_ONE),
        sm_weight := (let w = sm_weight (cp_meta p) in if is_one w then ONE else reread w ONE),
        sm_token_count := max (- 1) (sm_token_count (cp_meta p))\<rparr>\<rparr>"

definition writable :: "ConversationPair \<Rightarrow> bool" where
  "writable p \<longleftrightarrow> cp_input p \<noteq> [] \<and> sm_token_count (cp_meta p) < 2 ^ 31"

lemma pair_line_Cons: "\<exists>s. pair_line p = CHR ''{'' # s"
  by (simp add: pair_line_def sample_to_jsonl_def)

lemma line_pairs_written: "writable p \<Longrightarrow> line_pairs (pair_line p) = [reread_pair p]"
proof -
  assume w: "writable p"
  obtain s where s: "pair_line p = CHR ''{'' # s" using pair_line_Cons by blast
  have "line_sample (pair_line p) = parse_jsonl_sample (pair_line p)" by (simp add: line_sample_def s)
  then show ?thesis using w
    by (simp add: line_pairs_def pair_line_def writable_def sample_round_trip_gen reread_pair_def Let_def)
qed

lemma written_lines: "getlines (unlines (map pair_line ps)) = map pair_line ps"
  using getlines_unlines [of "map pair_line ps" "[]"] sample_one_line by (simp add: pair_line_def list_all_iff)

lemma written_is_jsonl: "ps \<noteq> [] \<Longrightarrow> is_jsonl (unlines (map pair_line ps))"
proof -
  assume "ps \<noteq> []"
  then obtain p qs where ps: "ps = p # qs" by (cases ps) auto
  obtain s where "pair_line p = CHR ''{'' # s" using pair_line_Cons by blast
  then show ?thesis by (simp only: is_jsonl_def written_lines ps) (simp add: blank_def)
qed

lemma file_pairs_written: "list_all writable ps \<Longrightarrow> file_pairs (map pair_line ps) = map reread_pair ps"
  by (induction ps) (simp_all add: line_pairs_written)

text \<open>The older format.\<close>

definition legacy_text :: "string \<Rightarrow> bool" where
  "legacy_text s \<longleftrightarrow> s \<noteq> [] \<and> NL \<notin> set s \<and> \<not> blank (List.hd s) \<and> \<not> blank (List.last s)"

definition legacy_lines :: "string \<times> string \<Rightarrow> string list" where
  "legacy_lines ir = [''INPUT: '' @ fst ir, ''RESPONSE: '' @ snd ir, []]"

lemma legacy_text_strip: "legacy_text s \<Longrightarrow> dropWhile tab_or_space s = s"
  by (rule dropWhile_id) (auto simp: legacy_text_def blank_def tab_or_space_def)

lemma trim_labelled: "legacy_text s \<Longrightarrow> \<not> blank c \<Longrightarrow> trim ((c # cs) @ s) = (c # cs) @ s"
  by (rule trim_id) (simp add: legacy_text_def)

lemma legacy_block:
  assumes "legacy_text i" and "legacy_text r" and "current_input s = [] \<or> current_response s = []"
  shows "foldl legacy_line s (legacy_lines (i, r)) =
    \<lparr>current_input = [], current_response = [], legacy_pairs = legacy_pairs s @ [plain_pair i r]\<rparr>"
proof -
  have "\<not> blank CHR ''I''" "\<not> blank CHR ''R''" by (simp_all add: blank_def)
  then have t: "trim (''INPUT: '' @ i) = ''INPUT: '' @ i" "trim (''RESPONSE: '' @ r) = ''RESPONSE: '' @ r"
    using trim_labelled [OF assms(1), of "CHR ''I''" "''NPUT: ''"] trim_labelled [OF assms(2), of "CHR ''R''" "''ESPONSE: ''"]
    by simp_all
  have ne: "i \<noteq> []" "r \<noteq> []" using assms(1,2) by (simp_all add: legacy_text_def)
  have d: "tab_or_space CHR '' ''" by (simp add: tab_or_space_def)
  have e: "emit_pair s = s" using assms(3) by (auto simp: emit_pair_def)
  have "legacy_line s (''INPUT: '' @ i) = s\<lparr>current_input := i\<rparr>"
    unfolding legacy_line_def t using assms by (simp add: e d legacy_text_strip Let_def)
  moreover have "legacy_line (s\<lparr>current_input := i\<rparr>) (''RESPONSE: '' @ r) = s\<lparr>current_input := i, current_response := r\<rparr>"
    unfolding legacy_line_def t using assms by (simp add: d legacy_text_strip Let_def)
  ultimately show ?thesis using ne
    by (simp add: legacy_lines_def legacy_line_def [of _ "[]"] trim_def emit_pair_def)
qed

lemma legacy_blocks:
  "list_all (\<lambda>(i, r). legacy_text i \<and> legacy_text r) ps \<Longrightarrow>
   foldl legacy_line \<lparr>current_input = [], current_response = [], legacy_pairs = qs\<rparr> (concat (map legacy_lines ps)) =
     \<lparr>current_input = [], current_response = [], legacy_pairs = qs @ map (\<lambda>(i, r). plain_pair i r) ps\<rparr>"
  by (induction ps arbitrary: qs) (auto simp: legacy_block)

end
