(* ===== verification/Utf8_Encode.thy ===== *)
theory Utf8_Encode
  imports Utf8
begin

text \<open>Which bytes lead or continue a code point, by their value: what an encoder has to produce.\<close>

lemma high_bits: "(w :: u8) AND NOT (mask k) = push_bit k (drop_bit k w)"
  by (rule bit_word_eqI) (auto simp: bit_simps)

lemma unat_high_bits: "unat ((w :: u8) AND NOT (mask k)) = 2 ^ k * (unat w div 2 ^ k)"
proof -
  have "2 ^ k * (unat w div 2 ^ k) \<le> unat w" by (rule times_div_less_eq_dividend)
  also have "unat w < 2 ^ 8" using unsigned_less [of w] by simp
  finally have "take_bit 8 (2 ^ k * (unat w div 2 ^ k)) = 2 ^ k * (unat w div 2 ^ k)"
    by (simp add: take_bit_nat_eq_self_iff)
  moreover have "unat (drop_bit k w) = unat w div 2 ^ k" unfolding unat_drop_bit_eq by (simp add: drop_bit_eq_div)
  ultimately show ?thesis
    unfolding high_bits unsigned_push_bit_eq by (simp add: push_bit_eq_mult mult.commute)
qed

lemma byte_value: "(n :: nat) < 256 \<Longrightarrow> unat (byte_of (char_of n)) = n"
proof -
  assume n: "n < 256"
  have "(of_char (char_of n :: char) :: u8) = of_nat (of_char (char_of n :: char))" by (simp only: of_nat_of_char)
  also have "of_char (char_of n :: char) = n" using n by (simp add: of_char_of)
  finally show ?thesis using n by (simp add: byte_of_def unat_of_nat_less)
qed

lemma lead_value:
  fixes n :: nat
  assumes "n < 256"
  shows "n < 128 \<Longrightarrow> lead_length (char_of n) = Some 1"
    and "n div 32 = 6 \<Longrightarrow> lead_length (char_of n) = Some 2"
    and "n div 16 = 14 \<Longrightarrow> lead_length (char_of n) = Some 3"
    and "n div 8 = 30 \<Longrightarrow> lead_length (char_of n) = Some 4"
    and "n div 64 = 2 \<Longrightarrow> is_continuation (char_of n)"
proof -
  let ?b = "byte_of (char_of n)"
  have m: "(0x80 :: u8) = NOT (mask 7)" "(0xE0 :: u8) = NOT (mask 5)" "(0xF0 :: u8) = NOT (mask 4)"
    "(0xF8 :: u8) = NOT (mask 3)" "(0xC0 :: u8) = NOT (mask 6)"
    by (simp_all add: mask_eq_exp_minus_1)
  have b: "unat (?b AND 0x80) = 128 * (n div 128)" "unat (?b AND 0xE0) = 32 * (n div 32)"
    "unat (?b AND 0xF0) = 16 * (n div 16)" "unat (?b AND 0xF8) = 8 * (n div 8)" "unat (?b AND 0xC0) = 64 * (n div 64)"
    unfolding m unat_high_bits byte_value [OF assms] by simp_all
  have eq: "?b AND 0x80 = 0 \<longleftrightarrow> n div 128 = 0" "?b AND 0xE0 = 0xC0 \<longleftrightarrow> n div 32 = 6"
    "?b AND 0xF0 = 0xE0 \<longleftrightarrow> n div 16 = 14" "?b AND 0xF8 = 0xF0 \<longleftrightarrow> n div 8 = 30" "?b AND 0xC0 = 0x80 \<longleftrightarrow> n div 64 = 2"
    by (simp_all only: word_unat_eq_iff b) simp_all
  have l: "lead_length (char_of n) = (if n < 128 then Some 1 else if n div 32 = 6 then Some 2
      else if n div 16 = 14 then Some 3 else if n div 8 = 30 then Some 4 else None)"
    unfolding lead_length_def eq by auto
  show "n < 128 \<Longrightarrow> lead_length (char_of n) = Some 1" by (simp add: l)
  show "n div 32 = 6 \<Longrightarrow> lead_length (char_of n) = Some 2" by (auto simp: l)
  show "n div 16 = 14 \<Longrightarrow> lead_length (char_of n) = Some 3"
  proof -
    assume *: "n div 16 = 14"
    then have "\<not> n < 128" "n div 16 div 2 = 7" by auto
    then have "n div 32 = 7" by (simp add: div_mult2_eq [symmetric])
    with * \<open>\<not> n < 128\<close> show ?thesis by (simp add: l)
  qed
  show "n div 8 = 30 \<Longrightarrow> lead_length (char_of n) = Some 4"
  proof -
    assume *: "n div 8 = 30"
    then have "\<not> n < 128" "n div 8 div 4 = 7" "n div 8 div 2 = 15" by auto
    then have "n div 32 = 7" "n div 16 = 15" by (simp_all add: div_mult2_eq [symmetric])
    with * \<open>\<not> n < 128\<close> show ?thesis by (simp add: l)
  qed
  show "n div 64 = 2 \<Longrightarrow> is_continuation (char_of n)" using eq(5) by (simp add: is_continuation_def byte_of_def)
qed

end
