(* ===== verification/Sample_Utf8.thy ===== *)
theory Sample_Utf8
  imports Sample_Json Utf8_Encode
begin

text \<open>
  Texts read from a line that is valid UTF-8 are valid UTF-8, whatever escapes the line uses and wherever it is
  malformed: the tokenizer refuses a text that is not.
\<close>

section \<open>ASCII in a valid text\<close>

lemma codepoint_cases:
  assumes "codepoint p"
  obtains c where "p = [c]" and "is_ascii c" | c cs where "p = c # cs" and "list_all (Not \<circ> is_ascii) p"
proof (cases p)
  case (Cons c cs)
  show thesis
  proof (cases "is_ascii c")
    case True
    with assms Cons that(1) show thesis by (simp add: codepoint_def lead_length_ascii)
  next
    case False
    with assms Cons have "list_all (Not \<circ> is_ascii) p"
      using ascii_not_continuation by (auto simp: codepoint_def list_all_iff)
    with Cons that(2) show thesis by blast
  qed
qed (use assms in \<open>simp add: codepoint_def\<close>)

lemma valid_ascii_Cons: "is_ascii c \<Longrightarrow> is_valid_utf8 (c # s) \<longleftrightarrow> is_valid_utf8 s"
  by (simp add: is_valid_utf8.simps [of "c # s"] lead_length_ascii)

lemma valid_ascii_append: "list_all is_ascii a \<Longrightarrow> is_valid_utf8 (a @ s) \<longleftrightarrow> is_valid_utf8 s"
  by (induction a) (simp_all add: valid_ascii_Cons)

lemma valid_drop_ascii: "list_all is_ascii (take n s) \<Longrightarrow> is_valid_utf8 s \<Longrightarrow> is_valid_utf8 (drop n s)"
  using valid_ascii_append [of "take n s" "drop n s"] by simp

lemma valid_behind: "is_valid_utf8 (a @ c # b) \<Longrightarrow> is_ascii c \<Longrightarrow> is_valid_utf8 b"
  using valid_after_ascii [of a c b] by simp

lemma ascii_specials [simp]: "is_ascii QUOTE" "is_ascii BSLASH" "is_ascii CHR ''u''" "is_ascii CHR ''}''"
    "is_ascii CHR '']''" "is_ascii CHR '',''" "is_ascii CHR '':''" "is_ascii CHR ''{''"
  by (simp_all add: is_ascii_iff BSLASH_def)

lemma space_ascii: "is_space c \<Longrightarrow> is_ascii c"
  by (auto simp: is_space_def is_ascii_iff)

lemma valid_skip_ws: "is_valid_utf8 s \<Longrightarrow> is_valid_utf8 (skip_ws s)"
  using valid_ascii_append [of "takeWhile is_space s" "dropWhile is_space s"] space_ascii
  by (auto simp: skip_ws_def list_all_iff dest: set_takeWhileD)

section \<open>Escapes\<close>

lemma codepoint_utf8: "cp < 0x110000 \<Longrightarrow> codepoint (append_utf8 cp)"
proof -
  assume cp: "cp < 0x110000"
  have cont: "is_continuation (char_of (0x80 + x mod 64))" for x :: nat by (rule lead_value(5)) simp_all
  have "cp < 0x80 \<Longrightarrow> lead_length (char_of cp) = Some 1" by (simp add: lead_value(1))
  moreover have "lead_length (char_of (0xC0 + cp div 64)) = Some 2" if "cp < 0x800"
    using that by (intro lead_value(2)) linarith+
  moreover have "lead_length (char_of (0xE0 + cp div 4096)) = Some 3" if "cp < 0x10000"
    using that by (intro lead_value(3)) linarith+
  moreover have "lead_length (char_of (0xF0 + cp div 262144)) = Some 4"
    using cp by (intro lead_value(4)) linarith+
  ultimately show ?thesis using cont by (simp add: append_utf8_def codepoint_def)
qed

lemma hex_value_range:
  assumes "hex_value c = Some x"
  shows "is_ascii c \<and> x < 16"
proof (cases "is_digit c")
  case True
  with assms have "x = of_char c - 48" by (simp add: hex_value_def digit_value_def)
  moreover have "48 \<le> (of_char c :: nat)" "of_char c \<le> (57 :: nat)" using True by (simp_all add: is_digit_def less_eq_char_def)
  ultimately show ?thesis by (simp add: is_ascii_iff)
next
  case False
  define n :: nat where "n = of_char c"
  define m :: nat where "m = of_char (to_lower c)"
  from False assms have l: "CHR ''a'' \<le> to_lower c" "to_lower c \<le> CHR ''f''" "x = m - 87"
    by (simp_all add: hex_value_def m_def split: if_splits)
  then have m: "97 \<le> m" "m \<le> 102" by (simp_all add: less_eq_char_def m_def)
  have "m = (if 65 \<le> n \<and> n \<le> 90 then n + 32 else n)"
    by (simp add: m_def n_def to_lower_def less_eq_char_def of_char_of)
  then have "n < 128" using m by (simp split: if_splits)
  then show ?thesis using m l(3) by (simp add: is_ascii_iff n_def)
qed

lemma hex4_range:
  assumes "read_hex4 s = Some cp"
  shows "list_all is_ascii (take 4 s)" and "cp < 0x10000"
proof -
  from assms have h: "4 \<le> length s" "list_all (\<lambda>c. hex_value c \<noteq> None) (take 4 s)" "cp = hex_digits_value (take 4 s)"
    by (auto simp: read_hex4_def split: if_splits)
  show "list_all is_ascii (take 4 s)" using h(2) hex_value_range by (auto simp: list_all_iff)
  obtain a b c d r where s: "s = a # b # c # d # r"
  proof -
    from h(1) have "Suc (Suc (Suc (Suc 0))) \<le> length s" by simp
    then show thesis using that by (auto simp: Suc_le_length_iff)
  qed
  with h(2) obtain w x y z where v: "hex_value a = Some w" "hex_value b = Some x" "hex_value c = Some y" "hex_value d = Some z"
    by auto
  with hex_value_range have "w < 16" "x < 16" "y < 16" "z < 16" by blast+
  then show "cp < 0x10000" by (simp add: h(3) s hex_digits_value_def v)
qed

lemma low_surrogate_valid:
  assumes "low_surrogate s = Some (lo, r)" and "is_valid_utf8 s"
  shows "is_valid_utf8 r" and "lo \<le> 0xDFFF"
proof -
  from assms(1) obtain s' where s: "s = BSLASH # CHR ''u'' # s'" "read_hex4 s' = Some lo" "r = drop 4 s'" "lo \<le> 0xDFFF"
    by (auto simp: low_surrogate_def split: list.splits if_splits option.splits)
  then show "is_valid_utf8 r" "lo \<le> 0xDFFF"
    using assms(2) valid_drop_ascii [OF hex4_range(1) [OF s(2)]] by (simp_all add: valid_ascii_Cons)
qed

lemma unicode_escape_valid:
  assumes "is_valid_utf8 s"
  shows "is_valid_utf8 (fst (unicode_escape s)) \<and> is_valid_utf8 (snd (unicode_escape s))"
proof (cases "read_hex4 s")
  case None
  then show ?thesis using assms by (simp add: unicode_escape_def valid_ascii_Cons)
next
  case (Some cp)
  have rest: "is_valid_utf8 (drop 4 s)" by (rule valid_drop_ascii [OF hex4_range(1) [OF Some] assms])
  have utf8: "is_valid_utf8 (append_utf8 n)" if "n < 0x110000" for n
    using valid_append_codepoint [OF codepoint_utf8 [OF that], of "[]"] by simp
  show ?thesis
  proof (cases "0xD800 \<le> cp \<and> cp \<le> 0xDBFF")
    case True
    then have n: "0x10000 + (cp - 0xD800) * 1024 + (lo - 0xDC00) < 0x110000" if "lo \<le> 0xDFFF" for lo
      using that by linarith
    show ?thesis
      using True Some rest utf8 [OF n] utf8 [of "0xFFFD"] low_surrogate_valid [OF _ rest]
      by (auto simp: unicode_escape_def Let_def split: option.split)
  next
    case False
    then show ?thesis using Some rest hex4_range(2) [OF Some] utf8 [of cp] utf8 [of "0xFFFD"]
      by (auto simp: unicode_escape_def Let_def)
  qed
qed

section \<open>Strings\<close>

lemma prefix_once: "apfst (\<lambda>s. s) a = a" "apfst ((@) p) (apfst ((@) q) a) = apfst ((@) (p @ q)) a"
    "apfst ((#) c) a = apfst ((@) [c]) a"
  by (cases a; simp)+

lemma parse_string_copy:
  "QUOTE \<notin> set p \<Longrightarrow> BSLASH \<notin> set p \<Longrightarrow> parse_string (p @ r) = map_option (apfst ((@) p)) (parse_string r)"
proof (induction p)
  case Nil
  show ?case by (cases "parse_string r") (simp_all add: prefix_once)
next
  case (Cons c p)
  then have "c \<noteq> QUOTE" "c \<noteq> BSLASH" by auto
  with Cons show ?case by (cases "parse_string r") (simp_all add: parse_string.simps(2) prefix_once)
qed

lemma not_ascii_copy: "list_all (Not \<circ> is_ascii) p \<Longrightarrow> QUOTE \<notin> set p \<and> BSLASH \<notin> set p"
  using ascii_specials by (auto simp: list_all_iff)

lemma escape_value_ascii: "is_ascii c \<Longrightarrow> is_ascii (escape_value c)" "\<not> is_ascii c \<Longrightarrow> escape_value c = c"
  by (auto simp: escape_value_def is_ascii_iff special_chars)

text \<open>What an escape in a valid text is replaced by, up to the next code point.\<close>

lemma escape_valid:
  assumes "is_valid_utf8 (e # s)"
  obtains out r where "is_valid_utf8 out" and "is_valid_utf8 r" and "length r \<le> length s"
    and "map_option (apfst ((@) (fst (escape e s)))) (parse_string (snd (escape e s))) =
      map_option (apfst ((@) out)) (parse_string r)"
proof -
  from assms obtain p r where p: "e # s = p @ r" "codepoint p" "is_valid_utf8 r" by (rule valid_first) simp
  from p(2) show thesis
  proof (cases rule: codepoint_cases)
    case (1 c)
    with p have s: "s = r" "c = e" by simp_all
    show thesis
    proof (cases "e = CHR ''u''")
      case True
      then show thesis using that [of "fst (escape e s)" "snd (escape e s)"] unicode_escape_valid [of s] p(3) s
          escape_rest [of e s] by (simp add: escape_def)
    next
      case False
      then show thesis using that [of "[escape_value e]" s] p(3) s 1(2) escape_value_ascii(1)
        by (simp add: escape_def valid_ascii_Cons)
    qed
  next
    case (2 c cs)
    with p(1) have s: "s = cs @ r" "c = e" by simp_all
    have "e \<noteq> CHR ''u''" "escape_value e = e" using 2(2) s 2(1) escape_value_ascii(2) by auto
    moreover have "parse_string s = map_option (apfst ((@) cs)) (parse_string r)"
      unfolding s using 2 not_ascii_copy [of cs] by (intro parse_string_copy) simp_all
    moreover have "is_valid_utf8 p" using valid_append_codepoint [OF p(2), of "[]"] by simp
    ultimately have "map_option (apfst ((@) (fst (escape e s)))) (parse_string (snd (escape e s))) =
        map_option (apfst ((@) p)) (parse_string r)"
      using s 2(1) by (cases "parse_string r") (simp_all add: escape_def prefix_once)
    then show thesis using that [of p r] p(3) s(1) \<open>is_valid_utf8 p\<close> by simp
  qed
qed

lemma parse_string_valid:
  "is_valid_utf8 s \<Longrightarrow> parse_string s = Some (out, r) \<Longrightarrow> is_valid_utf8 out \<and> is_valid_utf8 r"
proof (induction "length s" arbitrary: s out rule: less_induct)
  case less
  then have "s \<noteq> []" by auto
  with less.prems(1) obtain p t where p: "s = p @ t" "codepoint p" "is_valid_utf8 t" by (rule valid_first)
  then have short: "length t < length s" by (auto simp: codepoint_def split: list.splits)
  from p(2) show ?case
  proof (cases "QUOTE \<in> set p \<or> BSLASH \<in> set p")
    case False
    with less.prems(2) p(1) obtain out' where "parse_string t = Some (out', r)" "out = p @ out'"
      by (auto simp: parse_string_copy)
    with less.hyps [OF short p(3)] p(2) show ?thesis by (simp add: valid_append_codepoint)
  next
    case True
    with p(2) not_ascii_copy obtain c where c: "p = [c]" "c = QUOTE \<or> c = BSLASH"
      by (cases rule: codepoint_cases) auto
    show ?thesis
    proof (cases "c = QUOTE")
      case True
      then show ?thesis using less.prems(2) p c by (simp add: parse_string.simps(2))
    next
      case False
      with c less.prems(2) p obtain e t' where t: "t = e # t'"
        and e: "map_option (apfst ((@) (fst (escape e t')))) (parse_string (snd (escape e t'))) = Some (out, r)"
        by (auto simp: parse_string.simps(2) split: list.splits if_splits)
      from p(3) [unfolded t] obtain o1 t1 where o1: "is_valid_utf8 o1" "is_valid_utf8 t1" "length t1 \<le> length t'"
        "Some (out, r) = map_option (apfst ((@) o1)) (parse_string t1)" unfolding e [symmetric] by (rule escape_valid)
      then obtain out' where "parse_string t1 = Some (out', r)" "out = o1 @ out'" by (cases "parse_string t1") auto
      moreover have "length t1 < length s" using o1(3) short t by simp
      ultimately show ?thesis using less.hyps o1(1,2) valid_append by blast
    qed
  qed
qed

section \<open>Members\<close>

text \<open>Every step of the reader stops behind an ASCII character or in front of one.\<close>

lemma low_surrogate_suffix:
  assumes "low_surrogate s = Some (lo, r)"
  shows "\<exists>a. s = a @ r"
proof -
  from assms obtain b u s' where "s = b # u # s'" "r = drop 4 s'"
    by (auto simp: low_surrogate_def split: list.splits if_splits option.splits)
  then have "s = (b # u # take 4 s') @ r" by simp
  then show ?thesis by blast
qed

lemma escape_suffix: "\<exists>a. s = a @ snd (escape e s)"
proof -
  have "\<exists>a. s = a @ drop 4 s" by (metis append_take_drop_id)
  moreover have "\<exists>a. s = a @ r" if "low_surrogate (drop 4 s) = Some (lo, r)" for lo r
    using low_surrogate_suffix [OF that] by (metis append_assoc append_take_drop_id)
  ultimately show ?thesis
    by (auto simp: escape_def unicode_escape_def Let_def split: option.split)
qed

lemma parse_string_suffix: "parse_string s = Some (out, r) \<Longrightarrow> \<exists>a. s = a @ QUOTE # r"
proof (induction s arbitrary: out rule: parse_string.induct)
  case (2 c s)
  consider "c = QUOTE" | "c \<noteq> QUOTE" "c \<noteq> BSLASH" | "c \<noteq> QUOTE" "c = BSLASH" by blast
  then show ?case
  proof cases
    case 1
    with 2(3) show ?thesis by (simp add: parse_string.simps(2))
  next
    case 2
    note c = this
    with \<open>parse_string (c # s) = Some (out, r)\<close> obtain out' where "parse_string s = Some (out', r)"
      by (auto simp: parse_string.simps(2))
    with "2.IH"(1) c obtain a where "s = a @ QUOTE # r" by blast
    then show ?thesis by (metis append_Cons)
  next
    case 3
    note c = this
    with 2(3) obtain e s' out' where s: "s = e # s'" "parse_string (snd (escape e s')) = Some (out', r)"
      by (auto simp: parse_string.simps(2) split: list.splits)
    with "2.IH"(2) c obtain a where "snd (escape e s') = a @ QUOTE # r" by blast
    then show ?thesis using s(1) escape_suffix [of s' e] by (metis append_Cons append_assoc)
  qed
qed simp

lemma skip_container_suffix:
  "skip_container depth s = Some r \<Longrightarrow> \<exists>a c. s = a @ c # r \<and> is_ascii c"
proof (induction depth s rule: skip_container.induct)
  case (2 depth c s)
  have add: "\<exists>a d. c # t = a @ d # r \<and> is_ascii d" if "\<exists>a d. t = a @ d # r \<and> is_ascii d" for t
    using that by (metis append_Cons)
  show ?case
  proof (cases "c = QUOTE")
    case True
    with 2(5) obtain out s' where s': "parse_string s = Some (out, s')" "skip_container depth s' = Some r"
      by (auto simp: skip_container.simps(2) split: option.splits)
    from 2(1) [OF True s'(1) refl s'(2)] obtain a d where "s' = a @ d # r" "is_ascii d" by blast
    moreover obtain b where "s = b @ QUOTE # s'" using parse_string_suffix [OF s'(1)] by blast
    ultimately have "s = (b @ QUOTE # a) @ d # r" by simp
    with \<open>is_ascii d\<close> add show ?thesis by blast
  next
    case False
    with 2(5) consider "skip_container (depth + 1) s = Some r" "c = CHR ''{'' \<or> c = CHR ''[''"
      | "s = r" "c = CHR ''}'' \<or> c = CHR '']''"
      | "skip_container (depth - 1) s = Some r" "c = CHR ''}'' \<or> c = CHR '']''" "depth - 1 \<noteq> 0"
      | "skip_container depth s = Some r" "\<not> (c = CHR ''{'' \<or> c = CHR ''['')" "\<not> (c = CHR ''}'' \<or> c = CHR '']'')"
      by (auto simp: skip_container.simps(2) split: if_splits)
    then show ?thesis
    proof cases
      case 1
      with 2(2) False add show ?thesis by blast
    next
      case 2
      then show ?thesis by (metis append_Nil ascii_specials(4,5))
    next
      case 3
      then have "\<not> (c = CHR ''{'' \<or> c = CHR ''['')" by auto
      with 3 2(3) False add show ?thesis by blast
    next
      case 4
      with 2(4) False add show ?thesis by blast
    qed
  qed
qed simp

definition valid_member :: "JsonMember \<Rightarrow> bool" where
  "valid_member m \<longleftrightarrow> (is_string m \<longrightarrow> is_valid_utf8 (member_value m))"

lemma parse_value_valid:
  assumes "parse_value s = Some (m, r)" and "is_valid_utf8 s"
  shows "valid_member m \<and> is_valid_utf8 r"
proof (cases s)
  case (Cons c cs)
  from assms(1) have v: "(if c = QUOTE then map_option (apfst (\<lambda>v. \<lparr>is_string = True, member_value = v\<rparr>)) (parse_string cs)
      else if c = CHR ''{'' \<or> c = CHR ''['' then map_option (Pair \<lparr>is_string = False, member_value = []\<rparr>) (skip_container 0 s)
      else Some (\<lparr>is_string = False, member_value = takeWhile (Not \<circ> token_end) s\<rparr>, dropWhile (Not \<circ> token_end) s)) =
      Some (m, r)"
    by (simp only: parse_value_def Cons list.case)
  consider "c = QUOTE" | "c \<noteq> QUOTE" "c = CHR ''{'' \<or> c = CHR ''[''" | "c \<noteq> QUOTE" "\<not> (c = CHR ''{'' \<or> c = CHR ''['')"
    by blast
  then show ?thesis
  proof cases
    case 1
    with v have "map_option (apfst (\<lambda>v. \<lparr>is_string = True, member_value = v\<rparr>)) (parse_string cs) = Some (m, r)"
      by (simp only: if_True refl)
    then have "parse_string cs = Some (member_value m, r)" by (cases "parse_string cs") auto
    moreover have "is_valid_utf8 cs" using 1 assms(2) Cons by (simp add: valid_ascii_Cons)
    ultimately show ?thesis using parse_string_valid unfolding valid_member_def by blast
  next
    case 2
    with v have "map_option (Pair \<lparr>is_string = False, member_value = []\<rparr>) (skip_container 0 s) = Some (m, r)"
      by (simp only: if_False if_True)
    then have *: "\<not> is_string m" "skip_container 0 s = Some r" by (cases "skip_container 0 s"; auto)+
    with skip_container_suffix obtain a d where "s = a @ d # r" "is_ascii d" by blast
    with assms(2) *(1) valid_behind show ?thesis unfolding valid_member_def by blast
  next
    case 3
    then have *: "\<not> is_string m" "r = dropWhile (Not \<circ> token_end) s"
      using v by (simp_all only: if_False option.inject prod.inject JsonMember.simps) auto
    have "is_valid_utf8 r"
    proof (cases r)
      case (Cons d r')
      then have "token_end d" using *(2) hd_dropWhile [of "Not \<circ> token_end" s] by (metis comp_apply list.sel(1) list.distinct(1))
      then have "\<not> is_continuation d"
        using space_ascii ascii_not_continuation ascii_specials by (auto simp: token_end_def)
      moreover have "s = takeWhile (Not \<circ> token_end) s @ r" using *(2) by (simp only: takeWhile_dropWhile_id)
      ultimately show ?thesis using valid_cut [of "takeWhile (Not \<circ> token_end) s" r] assms(2) Cons by auto
    qed simp
    with *(1) show ?thesis by (simp add: valid_member_def)
  qed
qed (use assms in \<open>simp add: parse_value_def\<close>)

lemma parse_member_valid:
  assumes "parse_member s = Some ((key, m), r)" and "is_valid_utf8 s"
  shows "valid_member m \<and> is_valid_utf8 r"
proof -
  from assms(1) obtain cs t u where s: "skip_ws s = QUOTE # cs" "parse_string cs = Some (key, t)"
    "skip_ws t = CHR '':'' # u" "parse_value (skip_ws u) = Some (m, r)"
    by (auto simp: parse_member_def split: list.splits if_splits option.splits)
  have "is_valid_utf8 cs" using valid_skip_ws [OF assms(2)] s(1) by (simp add: valid_ascii_Cons)
  then have "is_valid_utf8 t" using parse_string_valid s(2) by blast
  then have "is_valid_utf8 u" using valid_skip_ws [of t] s(3) by (simp add: valid_ascii_Cons)
  then show ?thesis using parse_value_valid [OF s(4)] valid_skip_ws by blast
qed

lemma parse_members_valid: "is_valid_utf8 s \<Longrightarrow> \<forall>m \<in> set (parse_members s). valid_member (snd m)"
proof (induction s rule: parse_members.induct)
  case (1 s)
  show ?case
  proof (cases "parse_member s")
    case (Some p)
    then obtain key m r where p: "p = ((key, m), r)" by (cases p) auto
    with Some 1(2) parse_member_valid have m: "valid_member m" "is_valid_utf8 r" by blast+
    have "\<forall>m \<in> set (parse_members r'). valid_member (snd m)" if "skip_ws r = CHR '','' # r'" for r'
      using valid_skip_ws [OF m(2)] 1(1) [OF Some p [symmetric] that refl] that by (simp add: valid_ascii_Cons)
    then show ?thesis using m(1) Some p
      by (subst parse_members.simps) (cases "skip_ws r"; simp)
  qed (simp add: parse_members.simps [of s])
qed

lemma member_str_valid: "\<forall>m \<in> set ms. valid_member (snd m) \<Longrightarrow> is_valid_utf8 (member_str ms key)"
  by (fastforce simp: member_str_def find_member_def valid_member_def split: option.split dest: map_of_SomeD)

lemma object_members_valid: "is_valid_utf8 line \<Longrightarrow> \<forall>m \<in> set (parse_object_members line). valid_member (snd m)"
  using valid_skip_ws [of line] parse_members_valid
  by (cases "skip_ws line"; cases "skip_ws line \<noteq> [] \<and> List.hd (skip_ws line) = CHR ''{''")
    (auto simp: parse_object_members_def valid_ascii_Cons)

lemma sample_texts_valid:
  assumes "is_valid_utf8 line" and "parse_jsonl_sample line = Some (input, response, meta)"
  shows "list_all is_valid_utf8 [input, response, sm_domain meta, sm_task_type meta, sm_language meta, sm_split meta]"
  using assms(2) member_str_valid [OF object_members_valid [OF assms(1)]]
  by (auto simp: parse_jsonl_sample_def Let_def split: if_splits)

end
