(* ===== verification/Training_Utf8.thy ===== *)
theory Training_Utf8
  imports Training_Data Sample_Utf8
begin

text \<open>
  Texts loaded from a training file that is valid UTF-8 are valid UTF-8, in both formats, whatever range
  is read: lines are cut at line feeds and trimmed of ASCII characters, and a sample's texts are those
  of its line.
\<close>

definition pair_valid :: "ConversationPair \<Rightarrow> bool" where
  "pair_valid p \<longleftrightarrow> list_all is_valid_utf8 [cp_input p, cp_response p, sm_domain (cp_meta p),
     sm_task_type (cp_meta p), sm_language (cp_meta p), sm_split (cp_meta p)]"

section \<open>Lines\<close>

lemma NL_ascii [simp]: "is_ascii NL"
  by (simp add: is_ascii_iff NL_def)

lemma valid_around:
  assumes "is_valid_utf8 (a @ c # b)" and "is_ascii c"
  shows "is_valid_utf8 a \<and> is_valid_utf8 b"
  using valid_cut [of a "c # b"] valid_behind [OF assms] assms ascii_not_continuation by simp

lemma valid_getlines: "is_valid_utf8 s \<Longrightarrow> list_all is_valid_utf8 (getlines s)"
proof (induction s rule: getlines.induct)
  case (1 s)
  show ?case
  proof (cases "s = [] \<or> split_first NL s = None")
    case True
    then have "getlines s = (if s = [] then [] else [s])" by (metis getlines.simps option.case(1))
    then show ?thesis using 1(2) by simp
  next
    case False
    then obtain a b where ab: "split_first NL s = Some (a, b)" "s \<noteq> []" by fastforce
    then have v: "is_valid_utf8 a \<and> is_valid_utf8 b"
      using valid_around [of a NL b] 1(2) split_first_SomeD by fastforce
    then have "list_all is_valid_utf8 (getlines b)" using 1(1) [OF ab(2,1)] by simp
    then show ?thesis using v ab by (simp add: getlines.simps [of s])
  qed
qed

lemma valid_dropWhile: "(\<And>c. P c \<Longrightarrow> is_ascii c) \<Longrightarrow> is_valid_utf8 s \<Longrightarrow> is_valid_utf8 (dropWhile P s)"
  using valid_ascii_append [of "takeWhile P s" "dropWhile P s"] by (auto simp: list_all_iff dest: set_takeWhileD)

lemma valid_drop_end:
  assumes "\<And>c. P c \<Longrightarrow> is_ascii c" and "is_valid_utf8 s"
  shows "is_valid_utf8 (rev (dropWhile P (rev s)))"
proof -
  let ?a = "rev (dropWhile P (rev s))" and ?b = "rev (takeWhile P (rev s))"
  have s: "?a @ ?b = s" by (metis rev_append rev_rev_ident takeWhile_dropWhile_id)
  have "\<not> is_continuation (List.hd ?b)" if "?b \<noteq> []"
    using that assms(1) ascii_not_continuation list.set_sel(1) [OF that] by (auto dest: set_takeWhileD)
  with valid_cut [of ?a ?b] assms(2) s show ?thesis by metis
qed

lemma blank_ascii: "blank c \<Longrightarrow> is_ascii c" "tab_or_space c \<Longrightarrow> is_ascii c"
  by (auto simp: blank_def tab_or_space_def is_ascii_iff)

lemma valid_trim: "is_valid_utf8 s \<Longrightarrow> is_valid_utf8 (trim s)"
  unfolding trim_def by (intro valid_drop_end valid_dropWhile blank_ascii)

section \<open>JSON lines\<close>

lemma jsonl_pairs_valid:
  "list_all is_valid_utf8 lines \<Longrightarrow> list_all pair_valid (jsonl_pairs start count seen lines)"
proof (induction lines arbitrary: seen)
  case (Cons l ls)
  have "pair_valid \<lparr>cp_input = i, cp_response = r, cp_meta = m\<rparr>" if "line_sample l = Some (i, r, m)" for i r m
    using that Cons.prems sample_texts_valid [of l i r m]
    by (auto simp: line_sample_def pair_valid_def split: list.splits if_splits)
  with Cons show ?case by (auto split: option.split)
qed simp

section \<open>The older format\<close>

definition legacy_valid :: "legacy_state \<Rightarrow> bool" where
  "legacy_valid s \<longleftrightarrow> is_valid_utf8 (current_input s) \<and> is_valid_utf8 (current_response s) \<and>
     list_all pair_valid (legacy_pairs s)"

lemma emit_pair_valid: "legacy_valid s \<Longrightarrow> legacy_valid (emit_pair s)"
  by (simp add: legacy_valid_def emit_pair_def pair_valid_def plain_pair_def no_meta_def)

lemma valid_label:
  assumes "starts_with label s" and "list_all is_ascii label" and "is_valid_utf8 s" and "n = length label"
  shows "is_valid_utf8 (dropWhile tab_or_space (drop n s))"
proof -
  have "take n s = label" using assms(1,4) by (simp add: starts_with_def)
  then show ?thesis using assms by (intro valid_dropWhile blank_ascii valid_drop_ascii) simp_all
qed

lemma legacy_line_valid: "legacy_valid s \<Longrightarrow> is_valid_utf8 line \<Longrightarrow> legacy_valid (legacy_line s line)"
proof -
  assume s: "legacy_valid s" and l: "is_valid_utf8 line"
  let ?l = "trim line"
  have ascii: "list_all is_ascii ''INPUT:''" "list_all is_ascii ''RESPONSE:''" by (simp_all add: is_ascii_iff)
  have "is_valid_utf8 (dropWhile tab_or_space (drop 6 ?l))" if "starts_with ''INPUT:'' ?l"
    by (rule valid_label [OF that ascii(1) valid_trim [OF l]]) simp
  moreover have "is_valid_utf8 (dropWhile tab_or_space (drop 9 ?l))" if "starts_with ''RESPONSE:'' ?l"
    by (rule valid_label [OF that ascii(2) valid_trim [OF l]]) simp
  ultimately show ?thesis using s emit_pair_valid [OF s]
    by (simp add: legacy_line_def Let_def) (simp add: legacy_valid_def)
qed

lemma legacy_file_valid: "list_all is_valid_utf8 lines \<Longrightarrow> list_all pair_valid (legacy_file lines)"
proof -
  assume l: "list_all is_valid_utf8 lines"
  have "legacy_valid s \<Longrightarrow> legacy_valid (foldl legacy_line s lines)" for s
    using l by (induction lines arbitrary: s) (simp_all add: legacy_line_valid)
  from emit_pair_valid [OF this] show ?thesis by (simp add: legacy_file_def legacy_valid_def)
qed

lemma loaded_pairs_valid:
  assumes "is_valid_utf8 content"
  shows "list_all pair_valid (fst (load_conversation_pairs (Some content) start count []))"
  using jsonl_pairs_valid [OF valid_getlines [OF assms]] legacy_file_valid [OF valid_getlines [OF assms]]
  by (simp add: load_conversation_pairs_def Let_def)

end
