(* ===== verification/Training_Properties.thy ===== *)
theory Training_Properties
  imports Training_Utf8
begin

text \<open>What the training file reader and the sample writer promise.\<close>

section \<open>Files\<close>

text \<open>C21: A training file written sample by sample is loaded back pair by pair: the input, the response, the text
  fields and the token count of each are exactly those written, whatever bytes they hold, in the order of the file; a
  quality or weight is read as what \<open>std::stof\<close> makes of its printed digits, and one that was left out as its default.\<close>

theorem written_file_loads:
  assumes "list_all writable ps"
  shows "load_all_pairs (Some (unlines (map pair_line ps))) pairs = (pairs @ map reread_pair ps, length ps)"
proof (cases "ps = []")
  case True
  then show ?thesis by (simp add: load_all_pairs_def load_conversation_pairs_def is_jsonl_def legacy_file_def emit_pair_def)
next
  case False
  then show ?thesis using assms
    by (simp only: load_jsonl_all [OF written_is_jsonl [OF False]] written_lines file_pairs_written length_map)
qed

theorem written_file_loads_witness:
  "fst (load_all_pairs (Some (unlines [pair_line \<lparr>cp_input = [QUOTE, NL], cp_response = ''y'',
      cp_meta = no_meta\<lparr>sm_token_count := 7\<rparr>\<rparr>])) []) =
   [\<lparr>cp_input = [QUOTE, NL], cp_response = ''y'', cp_meta = no_meta\<lparr>sm_token_count := 7\<rparr>\<rparr>]"
  using written_file_loads [of "[\<lparr>cp_input = [QUOTE, NL], cp_response = ''y'', cp_meta = no_meta\<lparr>sm_token_count := 7\<rparr>\<rparr>]" "[]"]
  by (simp add: writable_def reread_pair_def no_meta_def not_negative_def is_one_def MINUS_ONE_def ONE_def ONE_UNITS_def Let_def)

text \<open>C25: Reading a JSON lines file by ranges is reading it once: the pairs of a range are that part of all pairs, and
  consecutive ranges that cover the count \<open>count_pairs\<close> reports give every pair exactly once.\<close>

theorem ranges_tile:
  assumes "is_jsonl content" and "0 \<le> start" and "list_all (\<lambda>n. 0 \<le> n) counts"
    and "start + sum_list counts = int (count_pairs (Some content))"
  shows "concat (map (\<lambda>k. fst (load_conversation_pairs (Some content) (start + sum_list (take k counts)) (counts ! k) []))
      [0..<length counts]) =
    drop (nat start) (fst (load_all_pairs (Some content) []))"
  using assms(2-4)
proof (induction counts arbitrary: start)
  case Nil
  then show ?case by (simp add: count_pairs_def load_jsonl_all [OF assms(1)])
next
  case (Cons n counts)
  let ?all = "file_pairs (getlines content)"
  have "[0..<length (n # counts)] = 0 # map Suc [0..<length counts]" by (simp add: upt_conv_Cons map_Suc_upt del: upt_Suc)
  moreover have "(\<lambda>k. fst (load_conversation_pairs (Some content) (start + sum_list (take k (n # counts))) ((n # counts) ! k) [])) \<circ> Suc =
      (\<lambda>k. fst (load_conversation_pairs (Some content) (start + n + sum_list (take k counts)) (counts ! k) []))"
    by (simp add: fun_eq_iff algebra_simps)
  moreover have "take (nat n) (drop (nat start) ?all) @ drop (nat (start + n)) ?all = drop (nat start) ?all"
  proof -
    from Cons.prems have "nat (start + n) = nat n + nat start" by (simp add: nat_add_distrib)
    then show ?thesis by (metis append_take_drop_id drop_drop)
  qed
  ultimately show ?case
    using Cons.IH [of "start + n"] Cons.prems load_jsonl_range [OF assms(1), of start n "[]"]
    by (simp add: load_jsonl_all [OF assms(1)] algebra_simps del: upt_Suc)
qed

theorem ranges_tile_witness:
  "let content = unlines (map pair_line [plain_pair ''a'' ''b'', plain_pair ''c'' ''d'', plain_pair ''e'' ''f'']) in
   fst (load_conversation_pairs (Some content) 1 1 []) @ fst (load_conversation_pairs (Some content) 2 1 []) =
     drop 1 (fst (load_all_pairs (Some content) []))"
proof -
  let ?ps = "[plain_pair ''a'' ''b'', plain_pair ''c'' ''d'', plain_pair ''e'' ''f'']"
  let ?c = "unlines (map pair_line ?ps)"
  have gen: "fst (load_conversation_pairs (Some c) 1 1 []) @ fst (load_conversation_pairs (Some c) 2 1 []) =
      drop 1 (fst (load_all_pairs (Some c) []))" if "is_jsonl c" "count_pairs (Some c) = 3" for c
    using ranges_tile [OF that(1), of 1 "[1, 1]"] that(2) by simp
  have j: "is_jsonl ?c" by (rule written_is_jsonl) simp
  have "list_all writable ?ps" by (simp add: writable_def plain_pair_def no_meta_def)
  then have "count_pairs (Some ?c) = 3"
    by (simp only: count_pairs_def load_jsonl_all [OF j] written_lines file_pairs_written) simp
  with j gen show ?thesis unfolding Let_def by blast
qed

text \<open>A file in the older format, an \<open>INPUT:\<close> line, a \<open>RESPONSE:\<close> line and an empty line for each pair, is loaded
  pair by pair when the texts are single lines without blanks at their ends; a range is ignored.\<close>

theorem legacy_file_loads:
  assumes "list_all (\<lambda>(i, r). legacy_text i \<and> legacy_text r) ps"
  shows "fst (load_conversation_pairs (Some (unlines (concat (map legacy_lines ps)))) start count pairs) =
    pairs @ map (\<lambda>(i, r). plain_pair i r) ps"
proof -
  let ?ls = "concat (map legacy_lines ps)"
  have "list_all (\<lambda>l. NL \<notin> set l) ?ls"
    using assms by (induction ps) (auto simp: legacy_lines_def legacy_text_def NL_def)
  then have ls: "getlines (unlines ?ls) = ?ls" using getlines_unlines [of ?ls "[]"] by simp
  have "\<not> is_jsonl (unlines ?ls)"
    unfolding is_jsonl_def ls by (cases ps) (simp_all add: legacy_lines_def blank_def)
  then show ?thesis
    using legacy_blocks [OF assms, of "[]"]
    by (simp add: load_conversation_pairs_def ls legacy_file_def emit_pair_def Let_def)
qed

theorem legacy_file_loads_witness:
  "fst (load_conversation_pairs (Some (unlines (concat (map legacy_lines [(''a b'', ''c'')])))) 0 1 []) = [plain_pair ''a b'' ''c'']"
  using legacy_file_loads [of "[(''a b'', ''c'')]" 0 1 "[]"] by (simp add: legacy_text_def blank_def NL_def)

section \<open>Lines\<close>

text \<open>C22: every text loaded from a file in valid UTF-8, in either format, by any range of samples, is valid
  UTF-8: the input, the response and the text fields of the metadata, whatever escapes, surrogates or malformed
  parts the lines have. So the tokenizer accepts every text of a valid file.\<close>

theorem sample_texts_are_valid:
  assumes "is_valid_utf8 content"
  shows "list_all pair_valid (fst (load_conversation_pairs (Some content) start count []))"
  using assms by (rule loaded_pairs_valid)

theorem sample_texts_are_valid_witness:
  "list_all pair_valid (fst (load_conversation_pairs
     (Some (''{'' @ [QUOTE] @ ''input'' @ [QUOTE] @ '':'' @ [QUOTE, BSLASH] @ ''ud83d!'' @ [QUOTE] @ ''}'')) 0 1 []))"
proof -
  let ?l = "''{'' @ [QUOTE] @ ''input'' @ [QUOTE] @ '':'' @ [QUOTE, BSLASH] @ ''ud83d!'' @ [QUOTE] @ ''}''"
  have "list_all is_ascii ?l" by (simp add: is_ascii_iff BSLASH_def)
  then have "is_valid_utf8 ?l" using valid_ascii_append [of ?l "[]"] by simp
  then show ?thesis by (rule sample_texts_are_valid)
qed

text \<open>The format is found on a line without its leading blanks, but a sample only on a line that starts with the brace:
  an indented sample makes the file a JSON lines file, and is then dropped.\<close>

lemma indented_sample_dropped:
  "is_jsonl (CHR '' '' # pair_line p @ [NL])"
  "fst (load_all_pairs (Some (CHR '' '' # pair_line p @ [NL])) []) = []"
proof -
  obtain s where s: "pair_line p = CHR ''{'' # s" using pair_line_Cons by blast
  have "NL \<notin> set (CHR '' '' # pair_line p)" using sample_one_line by (simp add: pair_line_def NL_def)
  then have l: "getlines (CHR '' '' # pair_line p @ [NL]) = [CHR '' '' # pair_line p]"
    using getlines_line [of "CHR '' '' # pair_line p" "[]"] by simp
  show j: "is_jsonl (CHR '' '' # pair_line p @ [NL])" unfolding is_jsonl_def l by (simp add: s blank_def)
  show "fst (load_all_pairs (Some (CHR '' '' # pair_line p @ [NL])) []) = []"
    unfolding load_jsonl_all [OF j] l by (simp add: line_pairs_def line_sample_def)
qed

end
