(* ===== verification/Json_Value.thy ===== *)
theory Json_Value
  imports Text_Lib
begin

text \<open>
  JSON values as the registry server and its clients exchange them. Text is parsed and printed by a vendored library,
  so a body is the value it holds (strings are texts both sides accept; a body that is no JSON is \<open>JNull\<close>). The
  readers are those of \<open>src/src/RegistryServer.cpp\<close> and \<open>src/src/RegistryTransport.cpp\<close>. An integer is
  what the parser keeps as one: from \<open>-2^63\<close> to \<open>2^64 - 1\<close>; \<open>get<T>\<close> converts it to \<open>T\<close> modulo its width.
\<close>

datatype json =
    JNull
  | JBool bool
  | JInt int
  | JReal u64
  | JString string
  | JArray "json list"
  | JObject "(string \<times> json) list"

definition to_i64 :: "int \<Rightarrow> int" where
  "to_i64 v = (v + 2 ^ 63) mod 2 ^ 64 - 2 ^ 63"

lemma to_i64_id: "- (2 ^ 63) \<le> v \<Longrightarrow> v < 2 ^ 63 \<Longrightarrow> to_i64 v = v"
  by (simp add: to_i64_def)

section \<open>The server's readers\<close>

text \<open>A body that is not an object has no fields.\<close>

definition json_field :: "json \<Rightarrow> string \<Rightarrow> json option" where
  "json_field body key = (case body of JObject ms \<Rightarrow> map_of ms key | _ \<Rightarrow> None)"

definition json_string :: "json \<Rightarrow> string \<Rightarrow> string" where
  "json_string body key = (case json_field body key of Some (JString s) \<Rightarrow> s | _ \<Rightarrow> [])"

definition json_int :: "json \<Rightarrow> string \<Rightarrow> int \<Rightarrow> int" where
  "json_int body key def =
     (case json_field body key of
        Some (JInt i) \<Rightarrow> let n = to_i64 i in if n < - (2 ^ 31) \<or> n > 2 ^ 31 - 1 then def else n
      | _ \<Rightarrow> def)"

definition json_bool :: "json \<Rightarrow> string \<Rightarrow> bool \<Rightarrow> bool" where
  "json_bool body key def = (case json_field body key of Some (JBool b) \<Rightarrow> b | _ \<Rightarrow> def)"

text \<open>Elements that are not strings are skipped.\<close>

fun strings_of :: "json list \<Rightarrow> string list" where
  "strings_of [] = []"
| "strings_of (JString s # js) = s # strings_of js"
| "strings_of (_ # js) = strings_of js"

definition json_string_array :: "json \<Rightarrow> string \<Rightarrow> string list" where
  "json_string_array body key = (case json_field body key of Some (JArray js) \<Rightarrow> strings_of js | _ \<Rightarrow> [])"

text \<open>One bad element makes the array count as not sent.\<close>

fun ints_of :: "json list \<Rightarrow> int list option" where
  "ints_of [] = Some []"
| "ints_of (JInt i # js) =
     (let n = to_i64 i in
      if n < - (2 ^ 31) \<or> n > 2 ^ 31 - 1 then None else map_option ((#) n) (ints_of js))"
| "ints_of (_ # js) = None"

definition json_int_array :: "json \<Rightarrow> string \<Rightarrow> int list" where
  "json_int_array body key =
     (case json_field body key of
        Some (JArray js) \<Rightarrow> (case ints_of js of Some ns \<Rightarrow> ns | None \<Rightarrow> [])
      | _ \<Rightarrow> [])"

section \<open>The client's readers\<close>

definition json_str :: "json \<Rightarrow> string \<Rightarrow> string" where
  "json_str j key = (case json_field j key of Some (JString s) \<Rightarrow> s | _ \<Rightarrow> [])"

text \<open>\<open>json_num<T>\<close> for \<open>int\<close>, \<open>long long\<close> and \<open>size_t\<close>.\<close>

definition json_num :: "json \<Rightarrow> string \<Rightarrow> int \<Rightarrow> int" where
  "json_num j key fallback = (case json_field j key of Some (JInt i) \<Rightarrow> to_i32 i | _ \<Rightarrow> fallback)"

definition json_num_long :: "json \<Rightarrow> string \<Rightarrow> int \<Rightarrow> int" where
  "json_num_long j key fallback = (case json_field j key of Some (JInt i) \<Rightarrow> to_i64 i | _ \<Rightarrow> fallback)"

definition json_num_size :: "json \<Rightarrow> string \<Rightarrow> int \<Rightarrow> int" where
  "json_num_size j key fallback = (case json_field j key of Some (JInt i) \<Rightarrow> i mod 2 ^ 64 | _ \<Rightarrow> fallback)"

definition json_flag :: "json \<Rightarrow> string \<Rightarrow> bool \<Rightarrow> bool" where
  "json_flag j key fallback = (case json_field j key of Some (JBool b) \<Rightarrow> b | _ \<Rightarrow> fallback)"

definition json_list :: "json \<Rightarrow> string \<Rightarrow> json list" where
  "json_list j key = (case json_field j key of Some (JArray js) \<Rightarrow> js | _ \<Rightarrow> [])"

definition json_strings :: "json \<Rightarrow> string \<Rightarrow> string list" where
  "json_strings j key = strings_of (json_list j key)"

definition is_object :: "json \<Rightarrow> bool" where
  "is_object j = (case j of JObject _ \<Rightarrow> True | _ \<Rightarrow> False)"

section \<open>Reading what was written\<close>

definition JStrings :: "string list \<Rightarrow> json" where
  "JStrings ss = JArray (map JString ss)"

definition JInts :: "int list \<Rightarrow> json" where
  "JInts ns = JArray (map JInt ns)"

lemma strings_of_map [simp]: "strings_of (map JString ss) = ss"
  by (induction ss) simp_all

definition int32_range :: "int \<Rightarrow> bool" where
  "int32_range i \<longleftrightarrow> - (2 ^ 31) \<le> i \<and> i < 2 ^ 31"

lemma int32_i64 [simp]: "int32_range i \<Longrightarrow> to_i64 i = i"
  by (rule to_i64_id) (simp_all add: int32_range_def)

lemma int32_i32 [simp]: "int32_range i \<Longrightarrow> to_i32 i = i"
  by (rule to_i32_id) (simp_all add: int32_range_def)

lemma ints_of_map: "list_all int32_range ns \<Longrightarrow> ints_of (map JInt ns) = Some ns"
  by (induction ns) (simp_all add: Let_def, simp add: int32_range_def)

lemma field_simps [simp]:
  "json_field (JObject []) key = None"
  "json_field (JObject ((k, v) # ms)) key = (if key = k then Some v else json_field (JObject ms) key)"
  by (simp_all add: json_field_def)

lemma reader_simps:
  "json_field j key = Some (JString s) \<Longrightarrow> json_string j key = s"
  "json_field j key = Some (JString s) \<Longrightarrow> json_str j key = s"
  "json_field j key = Some (JInt i) \<Longrightarrow> int32_range i \<Longrightarrow> json_int j key def = i"
  "json_field j key = Some (JInt i) \<Longrightarrow> int32_range i \<Longrightarrow> json_num j key def = i"
  "json_field j key = Some (JBool b) \<Longrightarrow> json_bool j key b' = b"
  "json_field j key = Some (JBool b) \<Longrightarrow> json_flag j key b' = b"
  "json_field j key = Some (JStrings ss) \<Longrightarrow> json_string_array j key = ss"
  "json_field j key = Some (JStrings ss) \<Longrightarrow> json_strings j key = ss"
  "json_field j key = Some (JArray js) \<Longrightarrow> json_list j key = js"
  "json_field j key = Some (JInts ns) \<Longrightarrow> list_all int32_range ns \<Longrightarrow> json_int_array j key = ns"
  "json_field j key = None \<Longrightarrow> json_int_array j key = []"
  "json_field j key = None \<Longrightarrow> json_list j key = []"
  by (simp_all add: json_string_def json_str_def json_int_def json_num_def json_bool_def json_flag_def
      json_string_array_def json_strings_def json_list_def json_int_array_def JStrings_def JInts_def ints_of_map Let_def)
    (simp add: int32_range_def)

end
