(* ===== verification/Registry_Server.thy ===== *)
theory Registry_Server
  imports Dataset_Registry Json_Value "HOL-Library.List_Lexorder"
begin

text \<open>
  The registry daemon (\<open>src/src/RegistryServer.cpp\<close>): the queue of every group, over HTTP. A request reaches one
  handler, which runs under the lock of its pool on that pool's \<open>LocalTransport\<close> store; a deletion may also unlink
  files, and those are shared by all pools. Requests are taken one at a time. A handler that cannot
  save throws, and the exception handler answers 500. Fetches, uploads and the admin settings are left out.
\<close>

section \<open>The daemon\<close>

text \<open>What an FTP token names; the server that issues it is a parameter.\<close>

record ftp_side =
  fs_host :: string
  fs_port :: int
  fs_tls :: bool
  fs_relative :: "string \<Rightarrow> string option"          \<comment> \<open>\<open>weakly_canonical\<close>, then relative to the data directory\<close>
  fs_path :: "string \<Rightarrow> string"                      \<comment> \<open>the path in the token\<close>
  fs_issue :: "string \<Rightarrow> string \<Rightarrow> string \<times> string \<times> string"    \<comment> \<open>user, password, expiry\<close>

record server =
  sv_lease :: int
  sv_start :: int
  sv_now :: int
  sv_now_utc :: string
  sv_stat :: "string \<Rightarrow> (nat \<times> int) option"        \<comment> \<open>size and time of a regular file\<close>
  sv_content :: "string \<Rightarrow> string option"
  sv_ftp :: "ftp_side option"
  sv_root :: string                                 \<comment> \<open>the canonical data directory\<close>
  sv_canonical :: "string \<Rightarrow> string option"         \<comment> \<open>\<open>weakly_canonical\<close> of a path, unless it throws\<close>
  sv_sessions :: "bool option"                      \<comment> \<open>the session counters: not open, or whether they can be written\<close>

record reply =
  re_status :: nat
  re_body :: json

definition ok_reply :: "(string \<times> json) list \<Rightarrow> reply" where
  "ok_reply ms = \<lparr>re_status = 200, re_body = JObject ms\<rparr>"

definition error_reply :: "nat \<Rightarrow> string \<Rightarrow> reply" where
  "error_reply status msg = \<lparr>re_status = status, re_body = JObject [(''error'', JString msg)]\<rparr>"

definition save_error :: "string \<Rightarrow> string \<Rightarrow> reply" where
  "save_error what grp =
     error_reply 500 (''could not save the '' @ what @ '' of group '' @ [CHR 0x27] @ grp @ [CHR 0x27] @
       ''; nothing was changed there'')"

text \<open>\<open>must_save\<close> of the queue, and the reply of a handler that ends with it.\<close>

definition saving_queue :: "string \<Rightarrow> io \<Rightarrow> PendingEntry list \<Rightarrow> reply \<Rightarrow> registry_store \<Rightarrow> reply \<times> registry_store" where
  "saving_queue grp io entries rep s =
     (case save_pending io entries s of (ok, s) \<Rightarrow> (if ok then rep else save_error ''pending queue'' grp, s))"

definition valid_group_name :: "string \<Rightarrow> bool" where
  "valid_group_name grp \<longleftrightarrow>
     (let ok = (\<lambda>c first. CHR ''A'' \<le> c \<and> c \<le> CHR ''Z'' \<or> CHR ''a'' \<le> c \<and> c \<le> CHR ''z'' \<or> is_digit c \<or>
        c = CHR ''_'' \<or> c = CHR ''-'' \<or> \<not> first \<and> c = CHR ''.'')
      in case grp of
        [] \<Rightarrow> False
      | c # cs \<Rightarrow> length grp \<le> 128 \<and> ok c True \<and> list_all (\<lambda>c. ok c False) cs)"

definition group_dir :: "string \<Rightarrow> string \<Rightarrow> string \<Rightarrow> string option" where
  "group_dir data_dir grp kind =
     (if \<not> valid_group_name grp then None
      else Some (if kind = [] then data_dir @ ''/'' @ grp else data_dir @ ''/'' @ grp @ ''/'' @ kind))"

definition pool_key :: "string \<Rightarrow> string \<Rightarrow> string" where
  "pool_key grp kind = (if kind = [] then grp else grp @ ''/'' @ kind)"

text \<open>\<open>[A-Za-z0-9._-]*\<close>\<close>

definition is_safe_model_name :: "string \<Rightarrow> bool" where
  "is_safe_model_name s \<longleftrightarrow>
     list_all (\<lambda>c. CHR ''A'' \<le> c \<and> c \<le> CHR ''Z'' \<or> CHR ''a'' \<le> c \<and> c \<le> CHR ''z'' \<or> is_digit c \<or>
       c = CHR ''.'' \<or> c = CHR ''_'' \<or> c = CHR ''-'') s"

section \<open>Requests and file data\<close>

definition int_or :: "json \<Rightarrow> string \<Rightarrow> int" where
  "int_or obj k = (case json_field obj k of Some (JInt i) \<Rightarrow> to_i32 i | _ \<Rightarrow> - 1)"

definition segment_target :: "json \<Rightarrow> SegmentTarget list" where
  "segment_target obj =
     (case json_field obj ''path'' of
        Some (JString p) \<Rightarrow>
          if p = [] then []
          else [\<lparr>st_path = p, st_start = int_or obj ''segment_start'', st_count = int_or obj ''segment_count''\<rparr>]
      | _ \<Rightarrow> [])"

definition json_segment_targets :: "json \<Rightarrow> string \<Rightarrow> SegmentTarget list" where
  "json_segment_targets body key =
     (case json_field body key of Some (JArray js) \<Rightarrow> concat (map segment_target js) | _ \<Rightarrow> [])"

definition stat_local_file :: "server \<Rightarrow> string \<Rightarrow> (nat \<times> string) option" where
  "stat_local_file sv path =
     map_option (\<lambda>(size, ftime). (size, nat_to_string size @ ''_'' @ int_to_string ftime)) (sv_stat sv path)"

definition count_jsonl_entries :: "server \<Rightarrow> string \<Rightarrow> int" where
  "count_jsonl_entries sv path =
     (case sv_content sv path of
        None \<Rightarrow> - 1
      | Some content \<Rightarrow> int (length (filter (\<lambda>l. l \<noteq> []) (getlines content))))"

definition entry_json :: "PendingEntry \<Rightarrow> json" where
  "entry_json e = JObject
     [(''path'', JString (pe_path e)), (''run_id'', JString (pe_run_id e)), (''model_name'', JString (pe_model_name e)),
      (''source'', JString (pe_source e)), (''added_utc'', JString (pe_added_utc e)),
      (''size_bytes'', JInt (pe_size_bytes e)), (''num_entries'', JInt (pe_num_entries e)),
      (''checksum'', JString (pe_checksum e)), (''segment_start'', JInt (pe_segment_start e)),
      (''segment_count'', JInt (pe_segment_count e)), (''claimed_unix'', JInt (pe_claimed_unix e))]"

definition record_json :: "DataVersion \<Rightarrow> json" where
  "record_json dv = JObject
     [(''data_file'', JString (data_file dv)), (''checksum'', JString (dv_checksum dv)),
      (''num_samples'', JInt (num_samples dv)), (''trained'', JBool (trained dv)),
      (''added_utc'', JString (dv_added_utc dv)), (''source'', JString (dv_source dv)),
      (''segment_start'', JInt (dv_segment_start dv)), (''segment_count'', JInt (dv_segment_count dv))]"

definition target_json :: "SegmentTarget \<Rightarrow> json" where
  "target_json t = JObject
     [(''path'', JString (st_path t)), (''segment_start'', JInt (st_start t)), (''segment_count'', JInt (st_count t))]"

section \<open>Reading\<close>

definition handle_queue :: "io \<Rightarrow> registry_store \<Rightarrow> reply" where
  "handle_queue io s = ok_reply [(''entries'', JArray (map entry_json (entries_of (load_pending io s))))]"

definition handle_registry :: "io \<Rightarrow> registry_store \<Rightarrow> reply" where
  "handle_registry io s = ok_reply [(''entries'', JArray (map record_json (entries_of (load_registry io s))))]"

definition handle_runs :: "io \<Rightarrow> registry_store \<Rightarrow> reply" where
  "handle_runs io s =
     (let claimed = filter (\<lambda>e. pe_run_id e \<noteq> []) (entries_of (load_pending io s)) in
      ok_reply [(''runs'', JObject (map
        (\<lambda>run. (run, JStrings (map pe_path (filter (\<lambda>e. pe_run_id e = run) claimed))))
        (sort (remdups (map pe_run_id claimed)))))])"

definition history_json :: "DataVersion \<Rightarrow> json" where
  "history_json dv = JObject
     [(''data_file'', JString (data_file dv)), (''checksum'', JString (dv_checksum dv)),
      (''num_samples'', JInt (num_samples dv)), (''trained'', JBool (trained dv)), (''model_id'', JString (model_id dv))]"

definition handle_history :: "string \<Rightarrow> io \<Rightarrow> registry_store \<Rightarrow> reply" where
  "handle_history filter_id io s =
     ok_reply [(''entries'', JArray (map history_json
       (filter (\<lambda>dv. filter_id = [] \<or> model_id dv = filter_id) (entries_of (load_registry io s)))))]"

section \<open>Claims\<close>

definition claim_expired :: "server \<Rightarrow> PendingEntry \<Rightarrow> bool" where
  "claim_expired sv e \<longleftrightarrow>
     \<not> (sv_lease sv \<le> 0 \<or> pe_run_id e = []) \<and>
     sv_lease sv \<le> sv_now sv - (if pe_claimed_unix e > 0 then pe_claimed_unix e else sv_start sv)"

definition srv_claimable :: "server \<Rightarrow> string \<Rightarrow> string \<Rightarrow> PendingEntry \<Rightarrow> bool" where
  "srv_claimable sv run_id model e \<longleftrightarrow>
     (pe_run_id e = [] \<or> pe_run_id e = run_id \<or> pe_run_id e \<noteq> run_id \<and> claim_expired sv e) \<and> eligible model e"

text \<open>The path lies inside a directory: the relative path exists and does not start with two dots.\<close>

definition inside :: "string option \<Rightarrow> bool" where
  "inside rel = (case rel of None \<Rightarrow> False | Some r \<Rightarrow> r \<noteq> [] \<and> take 2 r \<noteq> ''..'')"

definition ftp_deliverable :: "server \<Rightarrow> PendingEntry \<Rightarrow> bool" where
  "ftp_deliverable sv e = (case sv_ftp sv of None \<Rightarrow> True | Some f \<Rightarrow> inside (fs_relative f (pe_path e)))"

primrec srv_claim ::
  "server \<Rightarrow> string \<Rightarrow> string \<Rightarrow> int \<Rightarrow> int \<Rightarrow> PendingEntry list \<Rightarrow> PendingEntry list \<times> SegmentTarget list" where
  "srv_claim sv run_id model limit taken [] = ([], [])"
| "srv_claim sv run_id model limit taken (e # es) =
     (if srv_claimable sv run_id model e \<and> taken < limit \<and> ftp_deliverable sv e then
        (case srv_claim sv run_id model limit (taken + 1) es of
           (es', ts) \<Rightarrow> (e\<lparr>pe_run_id := run_id, pe_claimed_unix := sv_now sv\<rparr> # es',
             \<lparr>st_path = pe_path e, st_start = pe_segment_start e, st_count = pe_segment_count e\<rparr> # ts))
      else apfst ((#) e) (srv_claim sv run_id model limit taken es))"

definition token_json :: "server \<Rightarrow> ftp_side \<Rightarrow> string \<Rightarrow> SegmentTarget \<Rightarrow> json" where
  "token_json sv f run_id t =
     (let p = st_path t; ftp_path = map (\<lambda>c. if c = CHR 0x5C then CHR ''/'' else c) (fs_path f p);
          (size, checksum) = (case stat_local_file sv p of Some x \<Rightarrow> x | None \<Rightarrow> (0, []));
          (user, password, expires) = fs_issue f run_id ftp_path
      in JObject
        [(''registry_path'', JString p), (''ftp_path'', JString ftp_path), (''ftp_username'', JString user),
         (''ftp_password'', JString password), (''checksum'', JString checksum), (''size_bytes'', JInt (int size)),
         (''token_expires_utc'', JString expires), (''segment_start'', JInt (st_start t)),
         (''segment_count'', JInt (st_count t))])"

definition acquire_reply :: "server \<Rightarrow> string \<Rightarrow> SegmentTarget list \<Rightarrow> reply" where
  "acquire_reply sv run_id ts =
     (case sv_ftp sv of
        None \<Rightarrow> ok_reply
          [(''acquired'', JStrings (map st_path ts)), (''segment_starts'', JInts (map st_start ts)),
           (''segment_counts'', JInts (map st_count ts)), (''claim_lease_seconds'', JInt (sv_lease sv))]
      | Some f \<Rightarrow> ok_reply
          [(''run_id'', JString run_id), (''ftp_server_host'', JString (fs_host f)),
           (''ftp_server_port'', JInt (fs_port f)), (''ftps_enabled'', JBool (fs_tls f)),
           (''claim_lease_seconds'', JInt (sv_lease sv)), (''files'', JArray (map (token_json sv f run_id) ts))])"

definition handle_acquire :: "server \<Rightarrow> io \<Rightarrow> string \<Rightarrow> json \<Rightarrow> registry_store \<Rightarrow> reply \<times> registry_store" where
  "handle_acquire sv io grp body s =
     (let run_id = json_string body ''run_id'';
          model = json_string body ''model_name'';
          max_files = json_int body ''max_files'' 0
      in if run_id = [] then (error_reply 400 ''run_id required'', s)
         else
           let entries = entries_of (load_pending io s);
               limit = (if max_files > 0 then max_files else int (length entries))
           in case srv_claim sv run_id model limit 0 entries of
             (entries, ts) \<Rightarrow>
               if ts = [] then (acquire_reply sv run_id ts, s)
               else saving_queue grp io entries (acquire_reply sv run_id ts) s)"

definition srv_released :: "string \<Rightarrow> string list \<Rightarrow> SegmentTarget list \<Rightarrow> PendingEntry \<Rightarrow> bool" where
  "srv_released run_id files segments e \<longleftrightarrow>
     \<not> (run_id \<noteq> [] \<and> pe_run_id e \<noteq> run_id) \<and>
     (pe_segment_start e < 0 \<and> pe_path e \<in> set files \<or>
      list_ex (\<lambda>t. segment_matches e (st_path t) (st_start t) (st_count t)) segments)"

definition handle_release :: "io \<Rightarrow> string \<Rightarrow> json \<Rightarrow> registry_store \<Rightarrow> reply \<times> registry_store" where
  "handle_release io grp body s =
     (let run_id = json_string body ''run_id'';
          files = json_string_array body ''files'';
          segments = json_segment_targets body ''segments'';
          entries = entries_of (load_pending io s);
          hit = srv_released run_id files segments
      in saving_queue grp io (map (\<lambda>e. if hit e then e\<lparr>pe_run_id := [], pe_claimed_unix := 0\<rparr> else e) entries)
           (ok_reply [(''released'', JInt (int (length (filter hit entries))))]) s)"

definition handle_renew :: "server \<Rightarrow> io \<Rightarrow> string \<Rightarrow> json \<Rightarrow> registry_store \<Rightarrow> reply \<times> registry_store" where
  "handle_renew sv io grp body s =
     (let run_id = json_string body ''run_id'' in
      if run_id = [] then (error_reply 400 ''run_id required'', s)
      else
        let entries = entries_of (load_pending io s);
            renewed = length (filter (\<lambda>e. pe_run_id e = run_id) entries);
            rep = ok_reply [(''renewed'', JInt (int renewed)), (''claim_lease_seconds'', JInt (sv_lease sv))]
        in if renewed > 0 then
             saving_queue grp io
               (map (\<lambda>e. if pe_run_id e = run_id then e\<lparr>pe_claimed_unix := sv_now sv\<rparr> else e) entries) rep s
           else (rep, s))"

section \<open>Assigning\<close>

definition handle_assign :: "io \<Rightarrow> string \<Rightarrow> json \<Rightarrow> registry_store \<Rightarrow> reply \<times> registry_store" where
  "handle_assign io grp body s =
     (let model = json_string body ''model_name'';
          paths = json_string_array body ''paths'';
          count = json_int body ''count'' 0;
          segments = json_segment_targets body ''segments''
      in if \<not> is_safe_model_name model \<or> model = [] then
           (error_reply 400 ''non-empty model_name matching [A-Za-z0-9._-]+ required'', s)
         else
           let entries = entries_of (load_pending io s);
               (entries, ps, ts) =
                 (if segments \<noteq> [] then (case assign_segments model segments entries of (es, ts) \<Rightarrow> (es, [], ts))
                  else (case assign_entries model paths count 0 entries of (es, ps) \<Rightarrow> (es, ps, [])));
               n = length ps + length ts;
               rep = ok_reply [(''assigned'', JInt (int n)), (''paths'', JStrings ps),
                 (''segments'', JArray (map target_json ts))]
           in if n > 0 then saving_queue grp io entries rep s else (rep, s))"

definition handle_unassign :: "io \<Rightarrow> string \<Rightarrow> json \<Rightarrow> registry_store \<Rightarrow> reply \<times> registry_store" where
  "handle_unassign io grp body s =
     (let model = json_string body ''model_name'';
          paths = json_string_array body ''paths'';
          force = json_bool body ''force'' False;
          segments = json_segment_targets body ''segments''
      in if paths = [] \<and> segments = [] \<and> model = [] then
           (error_reply 400 ''paths, segments, or model_name (or a combination) required'', s)
         else if model \<noteq> [] \<and> \<not> is_safe_model_name model then
           (error_reply 400 ''model_name must match [A-Za-z0-9._-]+'', s)
         else
           let entries = entries_of (load_pending io s);
               (entries, skipped, ps, ts) =
                 (if segments \<noteq> [] then (case unassign_segments model force segments entries of (es, n, ts) \<Rightarrow> (es, n, [], ts))
                  else (case unassign_entries model paths force entries of (es, n, ps) \<Rightarrow> (es, n, ps, [])));
               n = length ps + length ts;
               rep = ok_reply [(''unassigned'', JInt (int n)), (''skipped'', JInt skipped), (''paths'', JStrings ps),
                 (''segments'', JArray (map target_json ts))]
           in if n > 0 then saving_queue grp io entries rep s else (rep, s))"

section \<open>Deleting and training again\<close>

definition status_text :: "delete_status \<Rightarrow> string" where
  "status_text st = (case st of Skipped_Active_Run \<Rightarrow> ''skipped_active_run'' | Deleted \<Rightarrow> ''deleted''
     | Delete_Not_Found \<Rightarrow> ''not_found'')"

text \<open>The daemon's state: the queue and registry file of every pool directory, the other files below the data
  directory (by canonical path), and the session counters. The \<open>rs_files\<close> of a pool's store are not used here.\<close>

record daemon =
  pool :: "string \<Rightarrow> registry_store"      \<comment> \<open>\<open>groups\<close>: the store of each pool directory\<close>
  data_files :: "string \<Rightarrow> bool"
  counters :: "string \<rightharpoonup> int"

text \<open>\<open>get_group\<close> keeps the state of a pool in two files of its directory; the directories are no symbolic links.\<close>

datatype state_file = Queue_File string | Records_File string

definition without_suffix :: "string \<Rightarrow> string \<Rightarrow> string option" where
  "without_suffix suffix s =
     (if length suffix \<le> length s \<and> drop (length s - length suffix) s = suffix
      then Some (take (length s - length suffix) s) else None)"

definition state_file_of :: "string \<Rightarrow> string \<Rightarrow> state_file option" where
  "state_file_of root canon =
     (if \<not> starts_with (root @ ''/'') canon then None
      else
        let p = drop (length root + 1) canon in
        case without_suffix ''/pending_files.txt'' p of
          Some key \<Rightarrow> Some (Queue_File key)
        | None \<Rightarrow> map_option Records_File (without_suffix ''/data_registry.txt'' p))"

definition file_exists :: "string \<Rightarrow> string \<Rightarrow> daemon \<Rightarrow> bool" where
  "file_exists root canon d =
     (case state_file_of root canon of
        Some (Queue_File key) \<Rightarrow> rs_pending (pool d key) \<noteq> None
      | Some (Records_File key) \<Rightarrow> rs_registry (pool d key) \<noteq> None
      | None \<Rightarrow> data_files d canon)"

definition unlink_file :: "string \<Rightarrow> string \<Rightarrow> daemon \<Rightarrow> daemon" where
  "unlink_file root canon d =
     (case state_file_of root canon of
        Some (Queue_File key) \<Rightarrow> d\<lparr>pool := (pool d)(key := (pool d key)\<lparr>rs_pending := None\<rparr>)\<rparr>
      | Some (Records_File key) \<Rightarrow> d\<lparr>pool := (pool d)(key := (pool d key)\<lparr>rs_registry := None\<rparr>)\<rparr>
      | None \<Rightarrow> d\<lparr>data_files := (data_files d)(canon := False)\<rparr>)"

text \<open>\<open>lexically_relative\<close> of the group's directory (of no kind): not empty, and not starting with two dots.\<close>

definition in_group :: "string \<Rightarrow> string \<Rightarrow> string \<Rightarrow> bool" where
  "in_group root grp canon =
     (let dir = root @ ''/'' @ grp in
      canon = dir \<or> starts_with (dir @ ''/'') canon \<and> inside (Some (drop (length dir + 1) canon)))"

text \<open>As \<open>delete_target\<close> of \<open>LocalTransport\<close>, but a file goes only when it lies in the group's directory, and
  then whatever it is: there is no guard for state files.\<close>

type_synonym srv_delete_state = "PendingEntry list \<times> DataVersion list \<times> daemon"

definition srv_delete_target ::
  "server \<Rightarrow> io \<Rightarrow> string \<Rightarrow> bool \<Rightarrow> bool \<Rightarrow> SegmentTarget \<Rightarrow> srv_delete_state \<Rightarrow> DeleteDetail \<times> srv_delete_state" where
  "srv_delete_target sv io grp force delete_files t x =
     (case x of (pending, registry, d) \<Rightarrow>
        let entry = find (is_target t) pending;
            blocked = (case entry of None \<Rightarrow> False | Some e \<Rightarrow> pe_run_id e \<noteq> [] \<and> \<not> force);
            pending' = (if entry \<noteq> None \<and> \<not> blocked then remove_first (is_target t) pending else pending);
            registry' = filter (\<lambda>dv. \<not> record_of_target t dv) registry;
            found = (entry \<noteq> None \<or> registry' \<noteq> registry);
            unlinked = (case sv_canonical sv (st_path t) of
                None \<Rightarrow> None
              | Some canon \<Rightarrow>
                  if \<not> blocked \<and> found \<and> delete_files \<and> st_start t < 0 \<and> file_exists (sv_root sv) canon d \<and>
                     in_group (sv_root sv) grp canon \<and> io_remove io canon
                  then Some canon else None)
        in (\<lparr>de_path = st_path t,
              de_status = (if blocked then Skipped_Active_Run else if found then Deleted else Delete_Not_Found),
              de_file_deleted = (unlinked \<noteq> None), de_start = st_start t, de_count = st_count t\<rparr>,
            (pending', registry',
             (case unlinked of None \<Rightarrow> d | Some canon \<Rightarrow> unlink_file (sv_root sv) canon d))))"

primrec srv_delete_targets ::
  "server \<Rightarrow> io \<Rightarrow> string \<Rightarrow> bool \<Rightarrow> bool \<Rightarrow> SegmentTarget list \<Rightarrow> srv_delete_state \<Rightarrow>
     DeleteDetail list \<times> srv_delete_state" where
  "srv_delete_targets sv io grp force delete_files [] x = ([], x)"
| "srv_delete_targets sv io grp force delete_files (t # ts) x =
     (case srv_delete_target sv io grp force delete_files t x of
        (d, x) \<Rightarrow> apfst ((#) d) (srv_delete_targets sv io grp force delete_files ts x))"

definition detail_json :: "DeleteDetail \<Rightarrow> json" where
  "detail_json d = JObject
     [(''path'', JString (de_path d)), (''status'', JString (status_text (de_status d))),
      (''file_deleted'', JBool (de_file_deleted d)), (''segment_start'', JInt (de_start d)),
      (''segment_count'', JInt (de_count d))]"

definition count_status :: "delete_status \<Rightarrow> DeleteDetail list \<Rightarrow> int" where
  "count_status st ds = int (length (filter (\<lambda>d. de_status d = st) ds))"

definition delete_request_targets :: "json \<Rightarrow> SegmentTarget list" where
  "delete_request_targets body =
     map whole_file (json_string_array body ''paths'') @ json_segment_targets body ''segments''"

text \<open>\<open>pending_changed\<close> and \<open>registry_changed\<close> are set exactly when an entry or record was erased; then that file is
  written again, even when it was just unlinked.\<close>

definition handle_delete :: "server \<Rightarrow> io \<Rightarrow> string \<Rightarrow> string \<Rightarrow> json \<Rightarrow> daemon \<Rightarrow> reply \<times> daemon" where
  "handle_delete sv io grp kind body d =
     (let key = pool_key grp kind;
          force = json_bool body ''force'' False;
          delete_files = json_bool body ''delete_files'' False;
          targets = delete_request_targets body
      in if targets = [] then (error_reply 400 ''paths or segments required'', d)
         else
           let pending = entries_of (load_pending io (pool d key));
               registry = entries_of (load_registry io (pool d key))
           in case srv_delete_targets sv io grp force delete_files targets (pending, registry, d) of
             (ds, pending', registry', d) \<Rightarrow>
               let rep = ok_reply [(''deleted'', JInt (count_status Deleted ds)),
                     (''skipped'', JInt (count_status Skipped_Active_Run ds)),
                     (''not_found'', JInt (count_status Delete_Not_Found ds)), (''details'', JArray (map detail_json ds))];
                   s = pool d key;
                   (ok, s) = (if pending' \<noteq> pending then save_pending io pending' s else (True, s));
                   (rep, s) =
                     (if \<not> ok then (save_error ''pending queue'' grp, s)
                      else
                        let (ok, s) = (if registry' \<noteq> registry then save_registry io registry' s else (True, s))
                        in (if ok then rep else save_error ''trained registry'' grp, s))
               in (rep, d\<lparr>pool := (pool d)(key := s)\<rparr>))"

definition requeue_text :: "requeue_status \<Rightarrow> string" where
  "requeue_text st = (case st of Requeued \<Rightarrow> ''requeued'' | Already_Pending \<Rightarrow> ''already_pending''
     | Requeue_Not_Found \<Rightarrow> ''not_found'')"

definition requeue_count :: "requeue_status \<Rightarrow> (string \<times> requeue_status) list \<Rightarrow> int" where
  "requeue_count st ds = int (length (filter (\<lambda>d. snd d = st) ds))"

definition handle_requeue :: "io \<Rightarrow> string \<Rightarrow> json \<Rightarrow> registry_store \<Rightarrow> reply \<times> registry_store" where
  "handle_requeue io grp body s =
     (let paths = json_string_array body ''paths'';
          all_files = json_bool body ''all'' False;
          model = json_string body ''model_name''
      in if paths = [] \<and> \<not> all_files then (error_reply 400 ''paths or all:true required'', s)
         else case requeue_trained paths all_files model io s of
           (result, s) \<Rightarrow>
             (if rq_ok result then
                ok_reply [(''requeued'', JInt (requeue_count Requeued (rq_details result))),
                  (''already_pending'', JInt (requeue_count Already_Pending (rq_details result))),
                  (''not_found'', JInt (requeue_count Requeue_Not_Found (rq_details result))),
                  (''details'', JArray (map (\<lambda>(p, st). JObject [(''path'', JString p), (''status'', JString (requeue_text st))])
                    (rq_details result)))]
              else error_reply 500 (''could not save the requeue in group '' @ [CHR 0x27] @ grp @ [CHR 0x27]), s))"

section \<open>Recording trained units\<close>

text \<open>One reported unit: its file, its range, the samples. Without ranges for every file all count as whole files.\<close>

record report =
  rp_file :: string
  rp_start :: int
  rp_count :: int
  rp_samples :: int

definition exact_mode :: "string list \<Rightarrow> int list \<Rightarrow> int list \<Rightarrow> bool" where
  "exact_mode files starts counts \<longleftrightarrow> length starts = length files \<and> length counts = length files \<and> files \<noteq> []"

definition reports :: "string list \<Rightarrow> int list \<Rightarrow> int list \<Rightarrow> int list \<Rightarrow> report list" where
  "reports files samples starts counts =
     (let exact = exact_mode files starts counts in
      map (\<lambda>i. \<lparr>rp_file = files ! i, rp_start = (if exact then starts ! i else - 1),
                rp_count = (if exact then counts ! i else - 1),
                rp_samples = (if i < length samples then samples ! i else 0)\<rparr>) [0..<length files])"

definition claimed_by_caller :: "string \<Rightarrow> bool \<Rightarrow> PendingEntry list \<Rightarrow> report \<Rightarrow> bool" where
  "claimed_by_caller run_id exact pending r \<longleftrightarrow>
     list_ex (\<lambda>e. pe_run_id e = run_id \<and>
       (if exact then segment_matches e (rp_file r) (rp_start r) (rp_count r) else pe_path e = rp_file r)) pending"

definition recorded :: "DataVersion list \<Rightarrow> report \<Rightarrow> bool" where
  "recorded registry r \<longleftrightarrow> list_ex (\<lambda>dv. trained_matches dv (rp_file r) (rp_start r) (rp_count r)) registry"

text \<open>\<open>pending_by_path\<close> keeps the last entry of a path.\<close>

definition reported_version :: "server \<Rightarrow> string \<Rightarrow> PendingEntry list \<Rightarrow> report \<Rightarrow> DataVersion" where
  "reported_version sv mid pending r =
     (let (source, added) = (case find (\<lambda>e. pe_path e = rp_file r) (rev pending) of
            Some e \<Rightarrow> (pe_source e, pe_added_utc e) | None \<Rightarrow> ([], []))
      in \<lparr>data_file = rp_file r,
          dv_checksum = (case stat_local_file sv (rp_file r) of Some (_, c) \<Rightarrow> c | None \<Rightarrow> ''REMOTE''),
          num_samples = rp_samples r, trained = True, model_id = mid,
          dv_added_utc = (if added = [] then sv_now_utc sv else added), dv_source = source,
          dv_segment_start = rp_start r, dv_segment_count = rp_count r\<rparr>)"

primrec record_reports ::
  "server \<Rightarrow> string \<Rightarrow> string \<Rightarrow> bool \<Rightarrow> PendingEntry list \<Rightarrow> report list \<Rightarrow> (string \<times> int \<times> int) list \<Rightarrow> DataVersion list \<Rightarrow>
     DataVersion list \<times> string list" where
  "record_reports sv run_id mid exact pending [] done registry = (registry, [])"
| "record_reports sv run_id mid exact pending (r # rs) done registry =
     (let this = (rp_file r, rp_start r, rp_count r) in
      if this \<in> set done then record_reports sv run_id mid exact pending rs done registry
      else if \<not> (if run_id = [] then \<not> recorded registry r else claimed_by_caller run_id exact pending r) then
        apsnd ((@) (if run_id \<noteq> [] then [rp_file r] else []))
          (record_reports sv run_id mid exact pending rs done registry)
      else record_reports sv run_id mid exact pending rs (this # done)
             (registry @ [reported_version sv mid pending r]))"

definition srv_trained :: "string \<Rightarrow> bool \<Rightarrow> string list \<Rightarrow> report list \<Rightarrow> PendingEntry \<Rightarrow> bool" where
  "srv_trained run_id exact files rs e =
     (if run_id \<noteq> [] \<and> pe_run_id e \<noteq> run_id then False
      else if \<not> exact then pe_path e \<in> set files
      else list_ex (\<lambda>r. segment_matches e (rp_file r) (rp_start r) (rp_count r)) rs)"

definition handle_trained :: "server \<Rightarrow> io \<Rightarrow> string \<Rightarrow> json \<Rightarrow> registry_store \<Rightarrow> reply \<times> registry_store" where
  "handle_trained sv io grp body s =
     (let run_id = json_string body ''run_id'';
          files = json_string_array body ''files'';
          starts = json_int_array body ''segment_starts'';
          counts = json_int_array body ''segment_counts'';
          exact = exact_mode files starts counts;
          rs = reports files (json_int_array body ''samples'') starts counts;
          pending = entries_of (load_pending io s);
          registry = entries_of (load_registry io s)
      in case record_reports sv run_id (json_string body ''model_id'') exact pending rs [] registry of
        (registry', rejected) \<Rightarrow>
          (case save_registry io registry' s of
             (ok, s) \<Rightarrow>
               if \<not> ok then (save_error ''trained registry'' grp, s)
               else saving_queue grp io (filter (\<lambda>e. \<not> srv_trained run_id exact files rs e) pending)
                 (ok_reply [(''trained'', JInt (int (length registry' - length registry))),
                   (''rejected'', JStrings rejected)]) s))"

section \<open>Queueing\<close>

definition new_entry :: "server \<Rightarrow> string \<Rightarrow> string \<Rightarrow> int \<Rightarrow> int \<Rightarrow> int \<Rightarrow> PendingEntry" where
  "new_entry sv path source known segment_start segment_count =
     (let (size, checksum) = (case stat_local_file sv path of Some x \<Rightarrow> x | None \<Rightarrow> (0, [])) in
      (pending_entry path segment_start segment_count)
        \<lparr>pe_source := source, pe_added_utc := sv_now_utc sv, pe_size_bytes := int size, pe_checksum := checksum,
         pe_num_entries := (if segment_start \<ge> 0 then segment_count else if known \<ge> 0 then known
                            else count_jsonl_entries sv path)\<rparr>)"

text \<open>\<open>Some False\<close>: already pending; \<open>None\<close>: the queue could not be saved.\<close>

definition add_pending_path_locked ::
  "server \<Rightarrow> io \<Rightarrow> string \<Rightarrow> string \<Rightarrow> int \<Rightarrow> int \<Rightarrow> int \<Rightarrow> registry_store \<Rightarrow> bool option \<times> registry_store" where
  "add_pending_path_locked sv io path source known segment_start segment_count s =
     (let entries = entries_of (load_pending io s) in
      if list_ex (\<lambda>e. segment_matches e path segment_start segment_count) entries then (Some False, s)
      else case save_pending io (entries @ [new_entry sv path source known segment_start segment_count]) s of
        (ok, s) \<Rightarrow> (if ok then Some True else None, s))"

definition problem_text :: "path_problem \<Rightarrow> string" where
  "problem_text p = (case p of Path_Ok \<Rightarrow> [] | Path_Empty \<Rightarrow> ''path is empty''
     | Path_Control \<Rightarrow> ''path contains a control character (tab, newline, ...)''
     | Path_Not_Utf8 \<Rightarrow> ''path is not valid UTF-8'')"

definition handle_pending_add :: "server \<Rightarrow> io \<Rightarrow> string \<Rightarrow> json \<Rightarrow> registry_store \<Rightarrow> reply \<times> registry_store" where
  "handle_pending_add sv io grp body s =
     (let path = json_string body ''path'' in
      if path = [] then (error_reply 400 ''path required'', s)
      else if registry_path_problem path \<noteq> Path_Ok then (error_reply 400 (problem_text (registry_path_problem path)), s)
      else case add_pending_path_locked sv io path ''manual'' (- 1) (json_int body ''segment_start'' (- 1))
                  (json_int body ''segment_count'' (- 1)) s of
        (Some True, s) \<Rightarrow> (ok_reply [(''added'', JBool True)], s)
      | (Some False, s) \<Rightarrow> (ok_reply [(''added'', JBool False), (''reason'', JString ''already_pending'')], s)
      | (None, s) \<Rightarrow> (save_error ''pending queue'' grp, s))"

section \<open>Session numbers\<close>

text \<open>\<open>SessionCounterStore::next\<close>: one upsert, which starts again after the largest \<open>int\<close>.\<close>

definition next_number :: "string \<Rightarrow> (string \<rightharpoonup> int) \<Rightarrow> int \<times> (string \<rightharpoonup> int)" where
  "next_number key table =
     (let n = (case table key of None \<Rightarrow> 1 | Some v \<Rightarrow> if v < 0 \<or> v \<ge> 2147483647 then 1 else v + 1)
      in (n, table(key \<mapsto> n)))"

definition session_label :: "int \<Rightarrow> string" where
  "session_label n =
     (let str = int_to_string n in ''session-'' @ (if length str < 2 then ''0'' @ str else str))"

definition handle_session_next :: "server \<Rightarrow> json \<Rightarrow> (string \<rightharpoonup> int) \<Rightarrow> reply \<times> (string \<rightharpoonup> int)" where
  "handle_session_next sv body table =
     (let model = json_string body ''model_name''; run_id = json_string body ''run_id'' in
      if run_id = [] then (error_reply 400 ''run_id required'', table)
      else if \<not> is_safe_model_name model \<or> CHR ''|'' \<in> set run_id then
        (error_reply 400 (''model_name must match [A-Za-z0-9._-]* and run_id must not contain '' @ [CHR 0x27] @ ''|'' @ [CHR 0x27]),
         table)
      else case sv_sessions sv of
        None \<Rightarrow> (error_reply 503 ''session_counters.db unavailable'', table)
      | Some False \<Rightarrow> (error_reply 500 ''could not allocate a session number'', table)
      | Some True \<Rightarrow>
          (case next_number (model @ ''|'' @ run_id) table of
             (n, table) \<Rightarrow> (ok_reply [(''session_id'', JString (session_label n))], table)))"

section \<open>Routes\<close>

datatype http_method = Get | Post | Put

record request =
  hr_method :: http_method
  hr_path :: string
  hr_model_id :: string       \<comment> \<open>the parameter \<open>model_id\<close> of the query, empty if there is none\<close>
  hr_body :: json

fun split_slash :: "string \<Rightarrow> string list" where
  "split_slash [] = [[]]"
| "split_slash (c # cs) =
     (if c = CHR ''/'' then [] # split_slash cs
      else case split_slash cs of p # ps \<Rightarrow> (c # p) # ps | [] \<Rightarrow> [[c]])"

text \<open>\<open>/registry/([^/]+)(?:/(encoder|decoder|world_model|chatbot))?/action\<close>\<close>

definition route :: "string \<Rightarrow> (string \<times> string \<times> string list) option" where
  "route path =
     (case split_slash path of
        lead # reg # grp # rest \<Rightarrow>
          if lead \<noteq> [] \<or> reg \<noteq> ''registry'' \<or> grp = [] then None
          else (case rest of
            [] \<Rightarrow> None
          | kind # action \<Rightarrow> if kind \<in> set dataset_kinds then Some (grp, kind, action) else Some (grp, [], rest))
      | _ \<Rightarrow> None)"

text \<open>The handlers that work on one pool.\<close>

definition handler :: "server \<Rightarrow> io \<Rightarrow> string \<Rightarrow> string \<Rightarrow> request \<Rightarrow> string list \<Rightarrow>
    (registry_store \<Rightarrow> reply \<times> registry_store) option" where
  "handler sv io grp kind req action =
     (let body = hr_body req; pure = (\<lambda>f. Some (\<lambda>s. (f s, s))) in
      case hr_method req of
        Get \<Rightarrow>
          (if action = [''queue''] then pure (handle_queue io)
           else if action = [''registry''] then pure (handle_registry io)
           else if action = [''runs''] then pure (handle_runs io)
           else if action = [''history''] then pure (handle_history (hr_model_id req) io)
           else None)
      | Post \<Rightarrow>
          (if action = [''acquire''] then Some (handle_acquire sv io grp body)
           else if action = [''release''] then Some (handle_release io grp body)
           else if action = [''renew''] then Some (handle_renew sv io grp body)
           else if action = [''assign''] then Some (handle_assign io grp body)
           else if action = [''unassign''] then Some (handle_unassign io grp body)
           else if action = [''requeue''] then Some (handle_requeue io (pool_key grp kind) body)
           else if action = [''trained''] then Some (handle_trained sv io grp body)
           else if action = [''pending'', ''add''] then Some (handle_pending_add sv io (pool_key grp kind) body)
           else None)
      | Put \<Rightarrow> None)"

definition not_found :: reply where
  "not_found = \<lparr>re_status = 404, re_body = JNull\<rparr>"

definition serve :: "server \<Rightarrow> io \<Rightarrow> request \<Rightarrow> daemon \<Rightarrow> reply \<times> daemon" where
  "serve sv io req d =
     (case route (hr_path req) of
        None \<Rightarrow> (not_found, d)
      | Some (grp, kind, action) \<Rightarrow>
          if hr_method req = Post \<and> action = [''session'', ''next''] then
            if \<not> valid_group_name grp then (error_reply 400 ''invalid group name'', d)
            else (case handle_session_next sv (hr_body req) (counters d) of (rep, cs) \<Rightarrow> (rep, d\<lparr>counters := cs\<rparr>))
          else if hr_method req = Post \<and> action = [''delete''] then
            if \<not> valid_group_name grp then (error_reply 400 ''invalid group name'', d)
            else handle_delete sv io grp kind (hr_body req) d
          else
            (case handler sv io grp kind req action of
               None \<Rightarrow> (not_found, d)
             | Some h \<Rightarrow>
                 if \<not> valid_group_name grp then (error_reply 400 ''invalid group name'', d)
                 else
                   let key = pool_key grp kind in
                   case h (pool d key) of (rep, s) \<Rightarrow> (rep, d\<lparr>pool := (pool d)(key := s)\<rparr>)))"

end
