(* ===== verification/Registry_Remote.thy ===== *)
theory Registry_Remote
  imports Registry_Server
begin

text \<open>
  \<open>RemoteTransport\<close> of \<open>src/src/RegistryTransport.cpp\<close>: the transport of a trainer on another machine, one request
  to the daemon for each call. A request may be lost, or be served and its reply lost: then the client sees no
  response.
\<close>

datatype net = Delivered | Request_Lost | Reply_Lost

record remote =
  rt_server :: server
  rt_io :: io                         \<comment> \<open>of the daemon\<close>
  rt_group_prefix :: string
  rt_net :: net

definition group_prefix :: "string \<Rightarrow> string \<Rightarrow> string" where
  "group_prefix run_group dataset_kind =
     ''/registry/'' @ run_group @ (if dataset_kind = [] then [] else ''/'' @ dataset_kind)"

text \<open>The response the client library returns, if any.\<close>

definition send :: "remote \<Rightarrow> http_method \<Rightarrow> string \<Rightarrow> json \<Rightarrow> daemon \<Rightarrow> reply option \<times> daemon" where
  "send rt m action body d =
     (let req = \<lparr>hr_method = m, hr_path = rt_group_prefix rt @ action, hr_model_id = [], hr_body = body\<rparr> in
      case rt_net rt of
        Request_Lost \<Rightarrow> (None, d)
      | Delivered \<Rightarrow> apfst Some (serve (rt_server rt) (rt_io rt) req d)
      | Reply_Lost \<Rightarrow> (None, snd (serve (rt_server rt) (rt_io rt) req d)))"

text \<open>\<open>!res || res->status != 200\<close>, then \<open>parse_reply\<close>: both failures are \<open>None\<close>.\<close>

definition reply_object :: "reply option \<Rightarrow> json option" where
  "reply_object res =
     (case res of None \<Rightarrow> None
      | Some rep \<Rightarrow> if re_status rep = 200 \<and> is_object (re_body rep) then Some (re_body rep) else None)"

definition segments_json :: "SegmentTarget list \<Rightarrow> json" where
  "segments_json ts = JArray (map target_json ts)"

section \<open>Reading queue and registry\<close>

definition read_entry :: "json \<Rightarrow> PendingEntry" where
  "read_entry obj =
     \<lparr>pe_path = json_str obj ''path'', pe_run_id = json_str obj ''run_id'', pe_model_name = json_str obj ''model_name'',
      pe_source = json_str obj ''source'', pe_added_utc = json_str obj ''added_utc'',
      pe_size_bytes = json_num_size obj ''size_bytes'' 0, pe_num_entries = json_num obj ''num_entries'' (- 1),
      pe_checksum = json_str obj ''checksum'', pe_segment_start = json_num obj ''segment_start'' (- 1),
      pe_segment_count = json_num obj ''segment_count'' (- 1), pe_claimed_unix = json_num_long obj ''claimed_unix'' 0\<rparr>"

definition remote_load_pending :: "remote \<Rightarrow> daemon \<Rightarrow> PendingEntry list option" where
  "remote_load_pending rt d =
     (case reply_object (fst (send rt Get ''/queue'' JNull d)) of
        None \<Rightarrow> None
      | Some j \<Rightarrow>
          if json_field j ''entries'' = None then None
          else Some (filter (\<lambda>e. pe_path e \<noteq> []) (map read_entry (filter is_object (json_list j ''entries'')))))"

definition read_record :: "json \<Rightarrow> DataVersion" where
  "read_record obj =
     \<lparr>data_file = json_str obj ''data_file'', dv_checksum = json_str obj ''checksum'',
      num_samples = json_num obj ''num_samples'' 0, trained = json_flag obj ''trained'' False,
      model_id = json_str obj ''model_id'', dv_added_utc = json_str obj ''added_utc'', dv_source = json_str obj ''source'',
      dv_segment_start = json_num obj ''segment_start'' (- 1), dv_segment_count = json_num obj ''segment_count'' (- 1)\<rparr>"

definition remote_load_registry :: "remote \<Rightarrow> daemon \<Rightarrow> DataVersion list option" where
  "remote_load_registry rt d =
     (case reply_object (fst (send rt Get ''/registry'' JNull d)) of
        None \<Rightarrow> None
      | Some j \<Rightarrow>
          if json_field j ''entries'' = None then None
          else Some (filter (\<lambda>dv. data_file dv \<noteq> []) (map read_record (filter is_object (json_list j ''entries'')))))"

text \<open>The daemon owns both files.\<close>

definition remote_save_registry :: "DataVersion list \<Rightarrow> daemon \<Rightarrow> bool \<times> daemon" where
  "remote_save_registry entries d = (False, d)"

definition remote_save_pending :: "PendingEntry list \<Rightarrow> daemon \<Rightarrow> bool \<times> daemon" where
  "remote_save_pending entries d = (False, d)"

section \<open>Claims\<close>

definition ftp_token :: "json \<Rightarrow> FileToken" where
  "ftp_token obj =
     \<lparr>ft_registry_path = json_str obj ''registry_path'', ftp_path = json_str obj ''ftp_path'',
      ftp_username = json_str obj ''ftp_username'', ftp_password = json_str obj ''ftp_password'',
      ft_checksum = json_str obj ''checksum'', ft_size_bytes = json_num_size obj ''size_bytes'' 0,
      token_expires_utc = json_str obj ''token_expires_utc'', ft_segment_start = json_num obj ''segment_start'' (- 1),
      ft_segment_count = json_num obj ''segment_count'' (- 1)\<rparr>"

definition int_at :: "json list \<Rightarrow> nat \<Rightarrow> int" where
  "int_at js i = (if i < length js then (case js ! i of JInt n \<Rightarrow> to_i32 n | _ \<Rightarrow> - 1) else - 1)"

definition legacy_token :: "json list \<Rightarrow> json list \<Rightarrow> nat \<times> json \<Rightarrow> FileToken list" where
  "legacy_token starts counts x =
     (case snd x of
        JString p \<Rightarrow> [\<lparr>ft_registry_path = p, ftp_path = [], ftp_username = [], ftp_password = [], ft_checksum = [],
          ft_size_bytes = 0, token_expires_utc = [], ft_segment_start = int_at starts (fst x),
          ft_segment_count = int_at counts (fst x)\<rparr>]
      | _ \<Rightarrow> [])"

definition acquired_reply :: "string \<Rightarrow> json \<Rightarrow> AcquireResponse" where
  "acquired_reply run_id j =
     (let resp = (acquire_response run_id)\<lparr>claim_lease_seconds := max 0 (json_num j ''claim_lease_seconds'' 0)\<rparr> in
      if json_field j ''files'' \<noteq> None then
        resp\<lparr>ftp_server_host := json_str j ''ftp_server_host'',
          ftp_server_port := json_num j ''ftp_server_port'' (ftp_server_port resp),
          ftps_enabled := json_flag j ''ftps_enabled'' False,
          ar_files := filter (\<lambda>t. ft_registry_path t \<noteq> []) (map ftp_token (filter is_object (json_list j ''files'')))\<rparr>
      else
        resp\<lparr>ar_files := concat (map (legacy_token (json_list j ''segment_starts'') (json_list j ''segment_counts''))
          (enumerate 0 (json_list j ''acquired'')))\<rparr>)"

definition remote_acquire :: "remote \<Rightarrow> string \<Rightarrow> int \<Rightarrow> string \<Rightarrow> daemon \<Rightarrow> AcquireResponse \<times> daemon" where
  "remote_acquire rt run_id max_files model d =
     (case send rt Post ''/acquire''
          (JObject [(''run_id'', JString run_id), (''max_files'', JInt max_files), (''model_name'', JString model)]) d of
        (res, d) \<Rightarrow>
          (case reply_object res of
             None \<Rightarrow> (acquire_response run_id)\<lparr>ar_failed := True\<rparr>
           | Some j \<Rightarrow> acquired_reply run_id j, d))"

definition remote_release :: "remote \<Rightarrow> string \<Rightarrow> string list \<Rightarrow> SegmentTarget list \<Rightarrow> daemon \<Rightarrow> daemon" where
  "remote_release rt run_id paths segments d =
     snd (send rt Post ''/release''
       (JObject [(''run_id'', JString run_id), (''files'', JStrings paths), (''segments'', segments_json segments)]) d)"

definition renew_claims :: "remote \<Rightarrow> string \<Rightarrow> daemon \<Rightarrow> int \<times> daemon" where
  "renew_claims rt run_id d =
     (case send rt Post ''/renew'' (JObject [(''run_id'', JString run_id)]) d of
        (res, d) \<Rightarrow> (case reply_object res of None \<Rightarrow> - 1 | Some j \<Rightarrow> json_num j ''renewed'' (- 1), d))"

text \<open>Each unit once, the reported samples first.\<close>

primrec add_units :: "report list \<Rightarrow> report list \<Rightarrow> report list" where
  "add_units done [] = done"
| "add_units done (r # rs) =
     add_units (if list_ex (\<lambda>q. rp_file q = rp_file r \<and> rp_start q = rp_start r \<and> rp_count q = rp_count r) done
                then done else done @ [r]) rs"

definition trained_report :: "DataVersion list \<Rightarrow> string list \<Rightarrow> SegmentTarget list \<Rightarrow> report list" where
  "trained_report new_entries trained_paths trained_segments =
     add_units []
       (map (\<lambda>e. \<lparr>rp_file = data_file e, rp_start = dv_segment_start e, rp_count = dv_segment_count e,
                  rp_samples = num_samples e\<rparr>) new_entries @
        map (\<lambda>p. \<lparr>rp_file = p, rp_start = - 1, rp_count = - 1, rp_samples = 0\<rparr>) trained_paths @
        map (\<lambda>t. \<lparr>rp_file = st_path t, rp_start = st_start t, rp_count = st_count t, rp_samples = 0\<rparr>) trained_segments)"

definition trained_body :: "string \<Rightarrow> DataVersion list \<Rightarrow> string list \<Rightarrow> SegmentTarget list \<Rightarrow> json" where
  "trained_body run_id new_entries trained_paths trained_segments =
     (let us = trained_report new_entries trained_paths trained_segments in
      JObject ([(''run_id'', JString run_id), (''files'', JStrings (map rp_file us)), (''samples'', JInts (map rp_samples us))] @
        (if trained_segments = [] then []
         else [(''segment_starts'', JInts (map rp_start us)), (''segment_counts'', JInts (map rp_count us))])))"

definition remote_commit_trained ::
  "remote \<Rightarrow> string \<Rightarrow> DataVersion list \<Rightarrow> string list \<Rightarrow> SegmentTarget list \<Rightarrow> daemon \<Rightarrow> daemon" where
  "remote_commit_trained rt run_id new_entries trained_paths trained_segments d =
     snd (send rt Post ''/trained'' (trained_body run_id new_entries trained_paths trained_segments) d)"

section \<open>Managing the queue\<close>

definition remote_add_pending :: "remote \<Rightarrow> string \<Rightarrow> int \<Rightarrow> int \<Rightarrow> daemon \<Rightarrow> bool \<times> daemon" where
  "remote_add_pending rt path segment_start segment_count d =
     (case send rt Post ''/pending/add'' (JObject [(''path'', JString path), (''segment_start'', JInt segment_start),
          (''segment_count'', JInt segment_count)]) d of
        (res, d) \<Rightarrow> (case reply_object res of None \<Rightarrow> False | Some j \<Rightarrow> json_flag j ''added'' True, d))"

definition remote_assign ::
  "remote \<Rightarrow> string \<Rightarrow> string list \<Rightarrow> int \<Rightarrow> SegmentTarget list \<Rightarrow> daemon \<Rightarrow> AssignResult \<times> daemon" where
  "remote_assign rt model paths count segments d =
     (case send rt Post ''/assign'' (JObject [(''model_name'', JString model), (''paths'', JStrings paths),
          (''count'', JInt count), (''segments'', segments_json segments)]) d of
        (res, d) \<Rightarrow>
          (case reply_object res of
             None \<Rightarrow> \<lparr>as_assigned = 0, as_paths = [], as_segments = []\<rparr>
           | Some j \<Rightarrow> \<lparr>as_assigned = json_num j ''assigned'' 0, as_paths = json_strings j ''paths'', as_segments = []\<rparr>, d))"

definition remote_unassign ::
  "remote \<Rightarrow> string \<Rightarrow> string list \<Rightarrow> bool \<Rightarrow> SegmentTarget list \<Rightarrow> daemon \<Rightarrow> UnassignResult \<times> daemon" where
  "remote_unassign rt model paths force segments d =
     (case send rt Post ''/unassign'' (JObject [(''model_name'', JString model), (''paths'', JStrings paths),
          (''force'', JBool force), (''segments'', segments_json segments)]) d of
        (res, d) \<Rightarrow>
          (case reply_object res of
             None \<Rightarrow> \<lparr>un_unassigned = 0, un_skipped = 0, un_paths = [], un_segments = []\<rparr>
           | Some j \<Rightarrow> \<lparr>un_unassigned = json_num j ''unassigned'' 0, un_skipped = json_num j ''skipped'' 0,
               un_paths = json_strings j ''paths'', un_segments = []\<rparr>, d))"

text \<open>The status texts are the daemon's; a text it never sends reads as not found here.\<close>

definition read_status :: "string \<Rightarrow> delete_status" where
  "read_status t = (if t = ''deleted'' then Deleted else if t = ''skipped_active_run'' then Skipped_Active_Run
     else Delete_Not_Found)"

definition read_detail :: "json \<Rightarrow> DeleteDetail" where
  "read_detail obj =
     \<lparr>de_path = json_str obj ''path'', de_status = read_status (json_str obj ''status''),
      de_file_deleted = json_flag obj ''file_deleted'' False, de_start = json_num obj ''segment_start'' (- 1),
      de_count = json_num obj ''segment_count'' (- 1)\<rparr>"

definition remote_delete_paths ::
  "remote \<Rightarrow> string list \<Rightarrow> bool \<Rightarrow> bool \<Rightarrow> SegmentTarget list \<Rightarrow> daemon \<Rightarrow> DeleteDetail list \<times> daemon" where
  "remote_delete_paths rt paths force delete_files segments d =
     (case send rt Post ''/delete'' (JObject [(''paths'', JStrings paths), (''force'', JBool force),
          (''delete_files'', JBool delete_files), (''segments'', segments_json segments)]) d of
        (res, d) \<Rightarrow>
          (case reply_object res of
             None \<Rightarrow> []
           | Some j \<Rightarrow> map read_detail (filter is_object (json_list j ''details'')), d))"

definition read_requeue_status :: "string \<Rightarrow> requeue_status" where
  "read_requeue_status t = (if t = ''requeued'' then Requeued else if t = ''already_pending'' then Already_Pending
     else Requeue_Not_Found)"

definition remote_requeue_trained ::
  "remote \<Rightarrow> string list \<Rightarrow> bool \<Rightarrow> string \<Rightarrow> daemon \<Rightarrow> RequeueResult \<times> daemon" where
  "remote_requeue_trained rt paths all_files model d =
     (case send rt Post ''/requeue'' (JObject [(''paths'', JStrings paths), (''all'', JBool all_files),
          (''model_name'', JString model)]) d of
        (res, d) \<Rightarrow>
          (case reply_object res of
             None \<Rightarrow> \<lparr>rq_ok = False, rq_details = []\<rparr>
           | Some j \<Rightarrow> \<lparr>rq_ok = True, rq_details =
               map (\<lambda>obj. (json_str obj ''path'', read_requeue_status (json_str obj ''status'')))
                 (filter is_object (json_list j ''details''))\<rparr>, d))"

definition next_session :: "remote \<Rightarrow> string \<Rightarrow> string \<Rightarrow> daemon \<Rightarrow> string \<times> daemon" where
  "next_session rt model run_id d =
     (case send rt Post ''/session/next'' (JObject [(''model_name'', JString model), (''run_id'', JString run_id)]) d of
        (res, d) \<Rightarrow>
          (case res of
             None \<Rightarrow> ''session-01''
           | Some rep \<Rightarrow> if re_status rep \<noteq> 200 then ''session-01''
               else case reply_object res of None \<Rightarrow> [] | Some j \<Rightarrow> json_str j ''session_id'', d))"

section \<open>The transport\<close>

definition remote_transport :: "remote \<Rightarrow> daemon transport" where
  "remote_transport rt =
     \<lparr>tr_load_registry = remote_load_registry rt, tr_save_registry = remote_save_registry,
      tr_load_pending = remote_load_pending rt, tr_save_pending = remote_save_pending,
      tr_acquire = remote_acquire rt, tr_release = remote_release rt, tr_commit_trained = remote_commit_trained rt,
      tr_add_pending = remote_add_pending rt, tr_assign = remote_assign rt, tr_unassign = remote_unassign rt,
      tr_delete_paths = remote_delete_paths rt, tr_requeue_trained = remote_requeue_trained rt\<rparr>"

end
