(* ===== verification/Registry_Leases.thy ===== *)
theory Registry_Leases
  imports Registry_Server Registry_Claims
begin

text \<open>
  What every request keeps of the daemon's queues: units are queued once, and a unit a run has claimed stays with
  that run until it gives it back, an administrator forces a deletion, or its lease runs out.
\<close>

section \<open>What a deletion may unlink\<close>

lemma pool_unlink_file:
  "pool (unlink_file root canon d) key =
     (if state_file_of root canon = Some (Queue_File key) then (pool d key)\<lparr>rs_pending := None\<rparr>
      else if state_file_of root canon = Some (Records_File key) then (pool d key)\<lparr>rs_registry := None\<rparr>
      else pool d key)"
  by (auto simp: unlink_file_def split: option.split state_file.split)

text \<open>The path of a target of group \<open>grp\<close> resolves to a state file, inside the group's directory.\<close>

definition reaches :: "server \<Rightarrow> string \<Rightarrow> state_file \<Rightarrow> SegmentTarget \<Rightarrow> bool" where
  "reaches sv grp f t \<longleftrightarrow>
     st_start t < 0 \<and>
     (case sv_canonical sv (st_path t) of
        None \<Rightarrow> False
      | Some canon \<Rightarrow> in_group (sv_root sv) grp canon \<and> state_file_of (sv_root sv) canon = Some f)"

definition unlinks :: "server \<Rightarrow> request \<Rightarrow> state_file \<Rightarrow> bool" where
  "unlinks sv req f \<longleftrightarrow>
     (case route (hr_path req) of
        Some (grp, _, action) \<Rightarrow>
          hr_method req = Post \<and> action = [''delete''] \<and> json_bool (hr_body req) ''delete_files'' False \<and>
          list_ex (reaches sv grp f) (delete_request_targets (hr_body req))
      | None \<Rightarrow> False)"

lemma srv_delete_target_daemon:
  obtains (same) "snd (snd (snd (srv_delete_target sv io grp force files t (pending, registry, d)))) = d"
  | (unlinked) canon where "files" "st_start t < 0" "sv_canonical sv (st_path t) = Some canon"
      "in_group (sv_root sv) grp canon"
      "snd (snd (snd (srv_delete_target sv io grp force files t (pending, registry, d)))) = unlink_file (sv_root sv) canon d"
proof (cases "sv_canonical sv (st_path t)")
  case None
  then show thesis using that(1) by (simp add: srv_delete_target_def Let_def)
next
  case (Some canon)
  show thesis
  proof (cases "snd (snd (snd (srv_delete_target sv io grp force files t (pending, registry, d)))) = d")
    case False
    then have "files \<and> st_start t < 0 \<and> in_group (sv_root sv) grp canon \<and>
        snd (snd (snd (srv_delete_target sv io grp force files t (pending, registry, d)))) = unlink_file (sv_root sv) canon d"
      using Some by (auto simp: srv_delete_target_def Let_def split: if_splits)
    then show thesis using that(2) Some by blast
  qed (rule that(1))
qed

text \<open>A queue or registry file stays unless a target reaches it, and then it is gone.\<close>

lemma srv_delete_target_store:
  fixes d :: daemon
  assumes "s' = pool (snd (snd (snd (srv_delete_target sv io grp force files t (pending, registry, d))))) key"
  shows "rs_pending s' = rs_pending (pool d key) \<or> rs_pending s' = None \<and> files \<and> reaches sv grp (Queue_File key) t"
    and "rs_registry s' = rs_registry (pool d key) \<or> rs_registry s' = None \<and> files \<and> reaches sv grp (Records_File key) t"
    and "rs_files s' = rs_files (pool d key)"
  by (rule srv_delete_target_daemon [of sv io grp force files t pending registry d];
      simp add: assms pool_unlink_file reaches_def)+

lemma srv_delete_targets_store:
  assumes "s' = pool (snd (snd (snd (srv_delete_targets sv io grp force files ts x)))) key"
    and "s = pool (snd (snd x)) key"
  shows "rs_pending s' = rs_pending s \<or> rs_pending s' = None \<and> files \<and> list_ex (reaches sv grp (Queue_File key)) ts"
    and "rs_registry s' = rs_registry s \<or> rs_registry s' = None \<and> files \<and> list_ex (reaches sv grp (Records_File key)) ts"
    and "rs_files s' = rs_files s"
proof -
  have "(rs_pending s' = rs_pending s \<or> rs_pending s' = None \<and> files \<and> list_ex (reaches sv grp (Queue_File key)) ts) \<and>
    (rs_registry s' = rs_registry s \<or> rs_registry s' = None \<and> files \<and> list_ex (reaches sv grp (Records_File key)) ts) \<and>
    rs_files s' = rs_files s"
    using assms
  proof (induction ts arbitrary: x s)
    case (Cons t ts)
    obtain pending registry d where x: "x = (pending, registry, d)" by (cases x)
    let ?y = "snd (srv_delete_target sv io grp force files t x)"
    have "s' = pool (snd (snd (snd (srv_delete_targets sv io grp force files ts ?y)))) key"
      using Cons.prems(1) by (simp add: case_prod_unfold)
    from Cons.IH [OF this refl] srv_delete_target_store [OF refl, of sv io grp force files t pending registry d key]
    show ?case using Cons.prems(2) by (auto simp: x)
  qed simp
  then show "rs_pending s' = rs_pending s \<or> rs_pending s' = None \<and> files \<and> list_ex (reaches sv grp (Queue_File key)) ts"
    and "rs_registry s' = rs_registry s \<or> rs_registry s' = None \<and> files \<and> list_ex (reaches sv grp (Records_File key)) ts"
    and "rs_files s' = rs_files s" by blast+
qed

lemmas queue_after_targets = srv_delete_targets_store(1) [OF refl refl]

section \<open>Which pools a request changes\<close>

definition addressed :: "request \<Rightarrow> string \<Rightarrow> bool" where
  "addressed req key =
     (case route (hr_path req) of None \<Rightarrow> False | Some (grp, kind, action) \<Rightarrow> pool_key grp kind = key \<and> valid_group_name grp)"

lemma serve_cases:
  obtains (unchanged) "pool (snd (serve sv io req d)) = pool d"
  | (handled) grp kind action h where "route (hr_path req) = Some (grp, kind, action)"
      "handler sv io grp kind req action = Some h" "valid_group_name grp"
      "pool (snd (serve sv io req d)) = (pool d)(pool_key grp kind := snd (h (pool d (pool_key grp kind))))"
  | (deleted) grp kind where "route (hr_path req) = Some (grp, kind, [''delete''])" "hr_method req = Post"
      "valid_group_name grp" "snd (serve sv io req d) = snd (handle_delete sv io grp kind (hr_body req) d)"
proof (cases "route (hr_path req)")
  case None
  then show thesis using that(1) by (simp add: serve_def)
next
  case (Some r)
  obtain grp kind action where r: "r = (grp, kind, action)" by (cases r)
  consider "hr_method req = Post \<and> action = [''session'', ''next''] \<or> \<not> valid_group_name grp \<or>
      \<not> (hr_method req = Post \<and> action = [''delete'']) \<and> handler sv io grp kind req action = None"
    | "valid_group_name grp" "hr_method req = Post" "action = [''delete'']"
    | "valid_group_name grp" "\<not> (hr_method req = Post \<and> action = [''delete''])"
      "\<not> (hr_method req = Post \<and> action = [''session'', ''next''])" "handler sv io grp kind req action \<noteq> None" by blast
  then show thesis
  proof cases
    case 1
    then show thesis using that(1) Some r by (auto simp: serve_def case_prod_unfold split: option.splits)
  next
    case 2
    then show thesis using that(3) [of grp kind] Some r by (simp add: serve_def)
  next
    case 3
    then show thesis using that(2) [of grp kind action] Some r by (auto simp: serve_def case_prod_unfold Let_def)
  qed
qed

text \<open>What a deletion leaves in a pool: its own is saved last.\<close>

lemma handle_delete_store:
  fixes sv :: server and io :: io and grp kind :: string and d :: daemon and body :: json
  assumes "delete_request_targets body \<noteq> []"
  defines "x \<equiv> (entries_of (load_pending io (pool d (pool_key grp kind))),
      entries_of (load_registry io (pool d (pool_key grp kind))), d)"
  defines "r \<equiv> snd (srv_delete_targets sv io grp (json_bool body ''force'' False) (json_bool body ''delete_files'' False)
      (delete_request_targets body) x)"
  shows "key \<noteq> pool_key grp kind \<Longrightarrow> pool (snd (handle_delete sv io grp kind body d)) key = pool (snd (snd r)) key"
    and "queue (pool (snd (handle_delete sv io grp kind body d)) (pool_key grp kind)) =
      (if fst r \<noteq> fst x \<and> io_save_pending io then fst r else queue (pool (snd (snd r)) (pool_key grp kind)))"
  using assms(1)
  by (simp_all add: handle_delete_def Let_def case_prod_unfold x_def r_def store_simps)

lemma serve_elsewhere:
  assumes "\<not> addressed req key" and "\<not> unlinks sv req (Queue_File key)" and "\<not> unlinks sv req (Records_File key)"
  shows "pool (snd (serve sv io req d)) key = pool d key"
proof (cases rule: serve_cases [of sv io req d])
  case (handled grp kind action h)
  then show ?thesis using assms(1) by (auto simp: addressed_def)
next
  case (deleted grp kind)
  have k: "key \<noteq> pool_key grp kind" using assms(1) deleted(1,3) by (auto simp: addressed_def)
  show ?thesis
  proof (cases "delete_request_targets (hr_body req) = []")
    case True
    then show ?thesis by (simp add: deleted(4) handle_delete_def Let_def)
  next
    case False
    let ?x = "(entries_of (load_pending io (pool d (pool_key grp kind))),
      entries_of (load_registry io (pool d (pool_key grp kind))), d)"
    let ?s = "pool (snd (snd (snd (srv_delete_targets sv io grp (json_bool (hr_body req) ''force'' False)
      (json_bool (hr_body req) ''delete_files'' False) (delete_request_targets (hr_body req)) ?x)))) key"
    have "rs_pending ?s = rs_pending (pool d key) \<and> rs_registry ?s = rs_registry (pool d key) \<and>
        rs_files ?s = rs_files (pool d key)"
      using srv_delete_targets_store [OF refl, of "pool d key" ?x key sv io grp "json_bool (hr_body req) ''force'' False"
          "json_bool (hr_body req) ''delete_files'' False" "delete_request_targets (hr_body req)"] assms(2,3)
      by (auto simp: unlinks_def deleted(1,2))
    then have "?s = pool d key" by (cases ?s; cases "pool d key") simp
    then show ?thesis using handle_delete_store(1) [OF False k] by (simp add: deleted(4))
  qed
qed simp

definition daemon_steps :: "(server \<times> io \<times> request) list \<Rightarrow> daemon \<Rightarrow> daemon" where
  "daemon_steps steps d = foldl (\<lambda>d (sv, io, req). snd (serve sv io req d)) d steps"

lemma daemon_steps_simps [simp]:
  "daemon_steps [] d = d"
  "daemon_steps (x # xs) d = daemon_steps xs (snd (serve (fst x) (fst (snd x)) (snd (snd x)) d))"
  by (simp_all add: daemon_steps_def case_prod_unfold)

section \<open>Claims and deletions of the daemon\<close>

lemma saving_queue_simps:
  "queue (snd (saving_queue grp io es rep s)) = (if io_save_pending io then es else queue s)"
  by (simp add: saving_queue_def case_prod_unfold store_simps)

lemma srv_claim_units_same: "map pending_unit (fst (srv_claim sv run model limit taken es)) = map pending_unit es"
  by (induction es arbitrary: taken) (simp_all add: case_prod_unfold pending_unit_def)

lemma srv_delete_target_pending:
  "fst (snd (srv_delete_target sv io grp force files t (pending, x))) = pending \<or>
   fst (snd (srv_delete_target sv io grp force files t (pending, x))) = remove_first (is_target t) pending"
  by (simp add: srv_delete_target_def Let_def split: prod.split)

lemma srv_delete_targets_units:
  "distinct (map pending_unit (fst x)) \<Longrightarrow>
     distinct (map pending_unit (fst (snd (srv_delete_targets sv io grp force files ts x))))"
proof (induction ts arbitrary: x)
  case (Cons t ts)
  have "distinct (map pending_unit (fst (snd (srv_delete_target sv io grp force files t x))))"
    using Cons.prems srv_delete_target_pending [of sv io grp force files t "fst x" "snd x"] remove_first_units by fastforce
  then show ?case by (simp add: case_prod_unfold Cons.IH)
qed simp

section \<open>Units are queued once\<close>

lemma handler_once_queue:
  assumes "\<And>es. distinct (map pending_unit es) \<Longrightarrow> distinct (map pending_unit (f es))" and "queued_once s"
  shows "queued_once (snd (saving_queue grp io (f (entries_of (load_pending io s))) rep s))"
  using assms(1) [OF entries_once [OF assms(2)]] assms(2) by (simp add: queued_once_def saving_queue_simps)

lemma acquire_handler_once: "queued_once s \<Longrightarrow> queued_once (snd (handle_acquire sv io grp body s))"
  using handler_once_queue [of "\<lambda>es. fst (srv_claim sv run model limit taken es)" for run model limit taken]
  by (simp add: handle_acquire_def Let_def case_prod_unfold srv_claim_units_same)

lemma marked_units:
  "map pending_unit (map (\<lambda>e. if P e then e\<lparr>pe_run_id := r, pe_claimed_unix := t\<rparr> else e) es) = map pending_unit es"
  "map pending_unit (map (\<lambda>e. if P e then e\<lparr>pe_claimed_unix := t\<rparr> else e) es) = map pending_unit es"
  by (simp_all add: pending_unit_def)

lemma release_handler_once: "queued_once s \<Longrightarrow> queued_once (snd (handle_release io grp body s))"
  unfolding handle_release_def Let_def by (rule handler_once_queue) (simp_all only: marked_units)

lemma renew_handler_once:
  assumes "queued_once s"
  shows "queued_once (snd (handle_renew sv io grp body s))"
proof -
  have "queued_once (snd (saving_queue grp io
      (map (\<lambda>e. if pe_run_id e = run then e\<lparr>pe_claimed_unix := n\<rparr> else e) (entries_of (load_pending io s))) rep s))" for run n rep
    by (rule handler_once_queue [OF _ assms]) (simp only: marked_units)
  then show ?thesis using assms by (simp add: handle_renew_def Let_def)
qed

lemma pending_unit_free: "model_free pending_unit"
  by (simp add: model_free_def pending_unit_def)

lemmas assignments_units = assignments_keep [OF pending_unit_free]

lemma assign_handler_once: "queued_once s \<Longrightarrow> queued_once (snd (handle_assign io grp body s))"
  using handler_once_queue [of "\<lambda>es. fst (assign_segments model ts es)" s for model ts]
    handler_once_queue [of "\<lambda>es. fst (assign_entries model ps n k es)" s for model ps n k]
  by (simp add: handle_assign_def Let_def case_prod_unfold assignments_units)

lemma unassign_handler_once: "queued_once s \<Longrightarrow> queued_once (snd (handle_unassign io grp body s))"
  using handler_once_queue [of "\<lambda>es. fst (unassign_segments model force ts es)" s for model force ts]
    handler_once_queue [of "\<lambda>es. fst (unassign_entries model ps force es)" s for model ps force]
  by (simp add: handle_unassign_def Let_def case_prod_unfold assignments_units)

lemma unlinked_once:
  "rs_pending s' = rs_pending s \<or> rs_pending s' = None \<and> P \<Longrightarrow> queued_once s \<Longrightarrow> queued_once s'"
  by (auto simp: queued_once_def queue_def entries_of_def)

lemma delete_handler_once:
  assumes "queued_once (pool d key)"
  shows "queued_once (pool (snd (handle_delete sv io grp kind body d)) key)"
proof (cases "delete_request_targets body = []")
  case True
  then show ?thesis using assms by (simp add: handle_delete_def Let_def)
next
  case False
  let ?own = "pool d (pool_key grp kind)"
  let ?x = "(entries_of (load_pending io ?own), entries_of (load_registry io ?own), d)"
  let ?r = "snd (srv_delete_targets sv io grp (json_bool body ''force'' False) (json_bool body ''delete_files'' False)
      (delete_request_targets body) ?x)"
  have rest: "queued_once (pool (snd (snd ?r)) key)"
    using unlinked_once [OF queue_after_targets [where x = ?x and key = key and sv = sv and io = io and grp = grp and force = "json_bool body ''force'' False"
          and files = "json_bool body ''delete_files'' False" and ts = "delete_request_targets body"]] assms by simp
  show ?thesis
  proof (cases "key = pool_key grp kind")
    case True
    then have "distinct (map pending_unit (fst ?r))"
      using srv_delete_targets_units [of ?x] entries_once [of ?own io] assms by simp
    then show ?thesis using handle_delete_store(2) [OF False, where io = io and d = d and grp = grp and kind = kind and sv = sv] rest True
      by (simp add: queued_once_def)
  next
    case False': False
    then show ?thesis using handle_delete_store(1) [OF False False', where sv = sv and io = io and d = d] rest by simp
  qed
qed

lemma requeue_handler_once: "queued_once s \<Longrightarrow> queued_once (snd (handle_requeue io grp body s))"
  by (simp add: handle_requeue_def Let_def case_prod_unfold requeue_once)

lemma trained_handler_once: "queued_once s \<Longrightarrow> queued_once (snd (handle_trained sv io grp body s))"
  using entries_once [of s io]
  by (auto simp: handle_trained_def Let_def case_prod_unfold queued_once_def saving_queue_simps store_simps once_filtered)

lemma new_entry_unit: "pending_unit (new_entry sv p src known start count) = unit_of p start count"
  by (simp add: new_entry_def pending_unit_def pending_entry_def case_prod_unfold Let_def)

lemma add_locked_once: "queued_once s \<Longrightarrow> queued_once (snd (add_pending_path_locked sv io p src known start count s))"
  using entries_once [of s io]
  by (auto simp: add_pending_path_locked_def Let_def case_prod_unfold queued_once_def store_simps list_ex_iff
      segment_matches_iff new_entry_unit)

lemma pending_add_handler_once: "queued_once s \<Longrightarrow> queued_once (snd (handle_pending_add sv io grp body s))"
  by (auto simp: handle_pending_add_def Let_def add_locked_once split: prod.split option.split bool.split
      dest: add_locked_once [of s sv io "json_string body ''path''" "''manual''" "- 1" "json_int body ''segment_start'' (- 1)"
        "json_int body ''segment_count'' (- 1)"])

lemmas handlers_once = acquire_handler_once release_handler_once renew_handler_once assign_handler_once
  unassign_handler_once requeue_handler_once trained_handler_once pending_add_handler_once

lemma handler_once: "handler sv io grp kind req action = Some h \<Longrightarrow> queued_once s \<Longrightarrow> queued_once (snd (h s))"
  by (auto simp: handler_def Let_def handlers_once split: http_method.splits if_splits)

lemma serve_once: "queued_once (pool d key) \<Longrightarrow> queued_once (pool (snd (serve sv io req d)) key)"
  by (rule serve_cases [of sv io req d]) (auto simp: handler_once delete_handler_once)

lemma daemon_steps_once: "queued_once (pool d key) \<Longrightarrow> queued_once (pool (daemon_steps steps d) key)"
  by (induction steps arbitrary: d) (auto simp: serve_once)

section \<open>Leases\<close>

text \<open>\<open>run\<close> holds the unit with a claim made or renewed at \<open>t\<close> or later.\<close>

definition leased :: "string \<Rightarrow> work_unit \<Rightarrow> int \<Rightarrow> PendingEntry list \<Rightarrow> bool" where
  "leased run u t es \<longleftrightarrow> (\<exists>e \<in> set es. pending_unit e = u \<and> pe_run_id e = run \<and> t \<le> pe_claimed_unix e)"

text \<open>A claim of time \<open>t\<close> has not run out yet.\<close>

definition lease_live :: "server \<Rightarrow> int \<Rightarrow> bool" where
  "lease_live sv t \<longleftrightarrow> t \<le> sv_now sv \<and> (sv_lease sv \<le> 0 \<or> sv_now sv < t + sv_lease sv)"

definition ends_claim :: "string \<Rightarrow> request \<Rightarrow> bool" where
  "ends_claim run req =
     (case route (hr_path req) of
        Some (_, _, [action]) \<Rightarrow>
          (action = ''release'' \<or> action = ''trained'') \<and> json_string (hr_body req) ''run_id'' \<in> {[], run} \<or>
          action = ''delete'' \<and> json_bool (hr_body req) ''force'' False
      | _ \<Rightarrow> False)"

lemma leased_not_expired:
  "0 < t \<Longrightarrow> lease_live sv t \<Longrightarrow> t \<le> pe_claimed_unix e \<Longrightarrow> \<not> claim_expired sv e"
  by (auto simp: lease_live_def claim_expired_def)

lemma leased_map:
  assumes "leased run u t es"
    and "\<And>e. pending_unit e = u \<Longrightarrow> pe_run_id e = run \<Longrightarrow> t \<le> pe_claimed_unix e \<Longrightarrow>
      pending_unit (f e) = u \<and> pe_run_id (f e) = run \<and> t \<le> pe_claimed_unix (f e)"
  shows "leased run u t (map f es)"
  using assms by (force simp: leased_def)

lemma leased_append: "leased run u t es \<Longrightarrow> leased run u t (es @ es')"
  by (auto simp: leased_def)

lemma leased_filter:
  "leased run u t es \<Longrightarrow> (\<And>e. pe_run_id e = run \<Longrightarrow> P e) \<Longrightarrow> leased run u t (filter P es)"
  by (auto simp: leased_def)

lemma leased_Cons:
  "leased run u t (e # es) \<longleftrightarrow> pending_unit e = u \<and> pe_run_id e = run \<and> t \<le> pe_claimed_unix e \<or> leased run u t es"
  by (auto simp: leased_def)

lemma srv_claim_leased:
  assumes "run \<noteq> []" and "0 < t" and "lease_live sv t"
  shows "leased run u t es \<Longrightarrow> leased run u t (fst (srv_claim sv run' model limit taken es))"
proof (induction es arbitrary: taken)
  case (Cons e es)
  have "pe_run_id e = run' \<and> t \<le> sv_now sv" if "pe_run_id e = run" "t \<le> pe_claimed_unix e" "srv_claimable sv run' model e"
    using that assms leased_not_expired [OF assms(2,3), of e] by (auto simp: srv_claimable_def lease_live_def)
  then show ?case using Cons by (auto simp: case_prod_unfold leased_Cons pending_unit_def)
qed simp

text \<open>Assignments keep unit, run and claim time.\<close>

definition claim_stamp :: "PendingEntry \<Rightarrow> work_unit \<times> string \<times> int" where
  "claim_stamp e = (pending_unit e, pe_run_id e, pe_claimed_unix e)"

lemma claim_stamp_free: "model_free claim_stamp"
  by (simp add: model_free_def claim_stamp_def pending_unit_def)

lemma leased_stamps:
  assumes "map claim_stamp es' = map claim_stamp es"
  shows "leased run u t es' \<longleftrightarrow> leased run u t es"
proof -
  have "leased run u t xs \<longleftrightarrow> (\<exists>c \<ge> t. (u, run, c) \<in> set (map claim_stamp xs))" for xs
    by (force simp: leased_def claim_stamp_def)
  then show ?thesis using assms by (simp del: set_map)
qed

lemmas assignments_leased = assignments_keep [OF claim_stamp_free, THEN leased_stamps]

lemma srv_delete_target_leased:
  assumes "distinct (map pending_unit (fst x))" and "leased run u t (fst x)" and "run \<noteq> []"
  shows "leased run u t (fst (snd (srv_delete_target sv io grp False files tg x)))"
proof -
  obtain pending y where x: "x = (pending, y)" by (cases x)
  obtain e where e: "e \<in> set pending" "pending_unit e = u" "pe_run_id e = run" "t \<le> pe_claimed_unix e"
    using assms(2) by (auto simp: leased_def x)
  show ?thesis
  proof (cases "is_target tg e")
    case True
    then have "find (is_target tg) pending = Some e" using find_unit assms(1) e(1) by (simp add: x)
    then show ?thesis using assms e by (simp add: srv_delete_target_def Let_def x split: prod.split)
  next
    case False
    with e(1) have "e \<in> set (remove_first (is_target tg) pending)" by (rule remove_first_other)
    then show ?thesis
      using srv_delete_target_pending [of sv io grp False files tg pending y] e by (auto simp: leased_def x)
  qed
qed

lemma srv_delete_targets_leased:
  "distinct (map pending_unit (fst x)) \<Longrightarrow> leased run u t (fst x) \<Longrightarrow> run \<noteq> [] \<Longrightarrow>
     leased run u t (fst (snd (srv_delete_targets sv io grp False files ts x)))"
proof (induction ts arbitrary: x)
  case (Cons tg ts)
  have "distinct (map pending_unit (fst (snd (srv_delete_target sv io grp False files tg x))))"
    using srv_delete_targets_units [OF Cons.prems(1), of sv io grp False files "[tg]"] by (simp add: case_prod_unfold)
  then show ?case using Cons srv_delete_target_leased by (simp add: case_prod_unfold)
qed simp

lemma requeue_records_leased:
  "leased r u t pending \<Longrightarrow> leased r u t (snd (snd (requeue_records model p dvs pending)))"
  by (induction dvs arbitrary: pending) (simp_all add: case_prod_unfold leased_append)

lemma requeue_paths_leased: "leased r u t pending \<Longrightarrow> leased r u t (snd (snd (requeue_paths model ps dvs pending)))"
  by (induction ps arbitrary: dvs pending) (simp_all add: case_prod_unfold requeue_records_leased)

section \<open>Requests keep a lease\<close>

lemma acquire_handler_leased:
  assumes "leased run u t (queue s)" and "run \<noteq> []" and "0 < t" and "lease_live sv t" and "io_read_pending io"
  shows "leased run u t (queue (snd (handle_acquire sv io grp body s)))"
  using assms srv_claim_leased [OF assms(2-4,1)]
  by (simp add: handle_acquire_def Let_def case_prod_unfold saving_queue_simps load_pending_readable)

lemma release_handler_leased:
  assumes "leased run u t (queue s)" and "json_string body ''run_id'' \<notin> {[], run}" and "io_read_pending io"
  shows "leased run u t (queue (snd (handle_release io grp body s)))"
  using assms
  by (auto simp: handle_release_def Let_def saving_queue_simps load_pending_readable srv_released_def intro!: leased_map)

lemma renew_handler_leased:
  assumes "leased run u t (queue s)" and "lease_live sv t" and "io_read_pending io"
  shows "leased run u t (queue (snd (handle_renew sv io grp body s)))"
  using assms
  by (auto simp: handle_renew_def Let_def saving_queue_simps load_pending_readable lease_live_def pending_unit_def
      intro!: leased_map)

lemma assign_handler_leased:
  assumes "leased run u t (queue s)" and "io_read_pending io"
  shows "leased run u t (queue (snd (handle_assign io grp body s)))"
    and "leased run u t (queue (snd (handle_unassign io grp body s)))"
  using assms
  by (simp_all add: handle_assign_def handle_unassign_def Let_def case_prod_unfold saving_queue_simps load_pending_readable
      assignments_leased)

lemma delete_handler_leased:
  assumes "queued_once (pool d key)" and "leased run u t (queue (pool d key))" and "run \<noteq> []" and "io_read_pending io"
    and "key = pool_key grp kind \<Longrightarrow> \<not> json_bool body ''force'' False"
    and "\<not> (json_bool body ''delete_files'' False \<and> list_ex (reaches sv grp (Queue_File key)) (delete_request_targets body))"
  shows "leased run u t (queue (pool (snd (handle_delete sv io grp kind body d)) key))"
proof (cases "delete_request_targets body = []")
  case True
  then show ?thesis using assms(2) by (simp add: handle_delete_def Let_def)
next
  case False
  let ?own = "pool d (pool_key grp kind)"
  let ?x = "(entries_of (load_pending io ?own), entries_of (load_registry io ?own), d)"
  let ?r = "snd (srv_delete_targets sv io grp (json_bool body ''force'' False) (json_bool body ''delete_files'' False)
      (delete_request_targets body) ?x)"
  have "queue (pool (snd (snd ?r)) key) = queue (pool d key)"
    using queue_after_targets [where x = ?x and key = key and sv = sv and io = io and grp = grp and force = "json_bool body ''force'' False"
        and files = "json_bool body ''delete_files'' False" and ts = "delete_request_targets body"] assms(6) by (auto simp: queue_def)
  then have rest: "leased run u t (queue (pool (snd (snd ?r)) key))" using assms(2) by simp
  show ?thesis
  proof (cases "key = pool_key grp kind")
    case True
    then have "leased run u t (fst ?r)"
      using srv_delete_targets_leased [of ?x run u t sv io grp] assms(1-5)
      by (simp add: load_pending_readable queued_once_def)
    then show ?thesis using handle_delete_store(2) [OF False, where io = io and d = d and grp = grp and kind = kind and sv = sv] rest True by simp
  next
    case False': False
    then show ?thesis using handle_delete_store(1) [OF False False', where sv = sv and io = io and d = d] rest by simp
  qed
qed

lemma requeue_handler_leased:
  assumes "leased run u t (queue s)" and "io_read_pending io"
  shows "leased run u t (queue (snd (handle_requeue io grp body s)))"
  using assms requeue_paths_leased [OF assms(1)]
  by (simp add: handle_requeue_def requeue_trained_def requeue_locked_def requeue_finish_queue Let_def case_prod_unfold
      load_pending_readable store_simps)

lemma trained_handler_leased:
  assumes "leased run u t (queue s)" and "json_string body ''run_id'' \<notin> {[], run}" and "io_read_pending io"
  shows "leased run u t (queue (snd (handle_trained sv io grp body s)))"
  using assms
  by (auto simp: handle_trained_def Let_def case_prod_unfold saving_queue_simps store_simps load_pending_readable
      srv_trained_def intro!: leased_filter)

lemma pending_add_handler_leased:
  assumes "leased run u t (queue s)" and "io_read_pending io"
  shows "leased run u t (queue (snd (handle_pending_add sv io grp body s)))"
  using assms
  by (auto simp: handle_pending_add_def add_pending_path_locked_def Let_def case_prod_unfold load_pending_readable store_simps
      leased_append split: option.split bool.split)

lemmas handlers_leased = acquire_handler_leased release_handler_leased renew_handler_leased assign_handler_leased
  requeue_handler_leased trained_handler_leased pending_add_handler_leased

text \<open>A request that leaves a claim of \<open>run\<close> in a pool alone: sent to that pool, it does not end the claim, and it
  does not unlink the queue file.\<close>

definition spares_claim :: "server \<Rightarrow> string \<Rightarrow> string \<Rightarrow> request \<Rightarrow> bool" where
  "spares_claim sv key run req \<longleftrightarrow> \<not> (addressed req key \<and> ends_claim run req) \<and> \<not> unlinks sv req (Queue_File key)"

lemma serve_leased:
  assumes "queued_once (pool d key)" and "leased run u t (queue (pool d key))" and "run \<noteq> []" and "0 < t"
    and "io_read_pending io" and "lease_live sv t" and "spares_claim sv key run req"
  shows "leased run u t (queue (pool (snd (serve sv io req d)) key))"
proof (cases rule: serve_cases [of sv io req d])
  case (handled grp kind action h)
  show ?thesis
  proof (cases "pool_key grp kind = key")
    case True
    then have "addressed req key" using handled by (simp add: addressed_def)
    then have "\<not> ends_claim run req" using assms(7) by (simp add: spares_claim_def)
    then have "leased run u t (queue (snd (h (pool d key))))"
      using handled(1,2) assms
      by (auto simp: ends_claim_def handler_def Let_def handlers_leased split: http_method.splits if_splits)
    then show ?thesis using True handled(4) by simp
  qed (use handled assms in simp)
next
  case (deleted grp kind)
  have own: "\<not> json_bool (hr_body req) ''force'' False" if "key = pool_key grp kind"
    using that assms(7) deleted(1,3) by (auto simp: spares_claim_def addressed_def ends_claim_def)
  have "\<not> (json_bool (hr_body req) ''delete_files'' False \<and>
      list_ex (reaches sv grp (Queue_File key)) (delete_request_targets (hr_body req)))"
    using assms(7) deleted(1,2) by (auto simp: spares_claim_def unlinks_def)
  from delete_handler_leased [OF assms(1,2,3,5) own this, of kind] show ?thesis by (simp add: deleted(4))
qed (use assms in simp)

lemma daemon_steps_leased:
  assumes "run \<noteq> []" and "0 < t"
    and "list_all (\<lambda>(sv, io, req). io_read_pending io \<and> lease_live sv t \<and> spares_claim sv key run req) steps"
  shows "queued_once (pool d key) \<Longrightarrow> leased run u t (queue (pool d key)) \<Longrightarrow>
    leased run u t (queue (pool (daemon_steps steps d) key))"
  using assms(3) by (induction steps arbitrary: d) (auto simp: serve_leased [OF _ _ assms(1,2)] serve_once)

end
