(* ===== verification/Remote_Batches.thy ===== *)
theory Remote_Batches
  imports Registry_Remote Registry_Batches Registry_Leases
begin

text \<open>
  A trainer on another machine: what \<open>RemoteTransport\<close> does to the daemon's queue, and that it keeps the contract
  \<open>shared_queue\<close>, as long as the daemon can save and no lease has run out.
\<close>

section \<open>Requests reach their handler\<close>

lemma split_slash_plain: "CHR ''/'' \<notin> set a \<Longrightarrow> split_slash (a @ CHR ''/'' # b) = a # split_slash b"
  by (induction a) auto

lemma split_slash_last: "CHR ''/'' \<notin> set a \<Longrightarrow> split_slash a = [a]"
  by (induction a) auto

lemma valid_group_plain: "valid_group_name grp \<Longrightarrow> CHR ''/'' \<notin> set grp \<and> grp \<noteq> []"
  by (auto simp: valid_group_name_def Let_def list_all_iff is_digit_def less_eq_char_def split: list.splits)

lemma kind_plain: "kind \<in> set dataset_kinds \<Longrightarrow> CHR ''/'' \<notin> set kind \<and> kind \<noteq> []"
  by (auto simp: dataset_kinds_def)

definition valid_pool :: "string \<Rightarrow> string \<Rightarrow> bool" where
  "valid_pool grp kind \<longleftrightarrow> valid_group_name grp \<and> (kind = [] \<or> kind \<in> set dataset_kinds)"

lemma route_action:
  assumes "valid_pool grp kind" and "split_slash a \<noteq> []" and "List.hd (split_slash a) \<notin> set dataset_kinds"
  shows "route (group_prefix grp kind @ ''/'' @ a) = Some (grp, kind, split_slash a)"
proof -
  have g: "CHR ''/'' \<notin> set grp" "grp \<noteq> []" using assms(1) valid_group_plain by (auto simp: valid_pool_def)
  have r: "split_slash (''/registry/'' @ x) = [] # ''registry'' # split_slash x" for x by simp
  show ?thesis
  proof (cases "kind = []")
    case True
    then have "split_slash (group_prefix grp kind @ ''/'' @ a) = [] # ''registry'' # grp # split_slash a"
      unfolding group_prefix_def using r [of "grp @ CHR ''/'' # a"] split_slash_plain [OF g(1)] by simp
    then show ?thesis using True assms(2,3) g(2) by (cases "split_slash a") (simp_all add: route_def)
  next
    case False
    then have k: "kind \<in> set dataset_kinds" "CHR ''/'' \<notin> set kind" using assms(1) kind_plain by (auto simp: valid_pool_def)
    have "split_slash (group_prefix grp kind @ ''/'' @ a) = [] # ''registry'' # grp # kind # split_slash a"
      unfolding group_prefix_def
      using False r [of "grp @ CHR ''/'' # kind @ CHR ''/'' # a"] split_slash_plain [OF g(1)] split_slash_plain [OF k(2)]
      by simp
    then show ?thesis using k(1) g(2) by (simp add: route_def)
  qed
qed

definition remote_on :: "server \<Rightarrow> io \<Rightarrow> string \<Rightarrow> string \<Rightarrow> remote" where
  "remote_on sv io grp kind =
     \<lparr>rt_server = sv, rt_io = io, rt_group_prefix = group_prefix grp kind, rt_net = Delivered\<rparr>"

definition on_pool :: "string \<Rightarrow> (registry_store \<Rightarrow> reply \<times> registry_store) \<Rightarrow> daemon \<Rightarrow> reply option \<times> daemon" where
  "on_pool key h d = (case h (pool d key) of (rep, s) \<Rightarrow> (Some rep, d\<lparr>pool := (pool d)(key := s)\<rparr>))"

lemma pool_on_pool: "pool (snd (on_pool key h d)) key = snd (h (pool d key))"
    "fst (on_pool key h d) = Some (fst (h (pool d key)))"
  by (simp_all add: on_pool_def case_prod_unfold)

lemma send_post:
  assumes "valid_pool grp kind"
  shows "send (remote_on sv io grp kind) Post ''/acquire'' body d = on_pool (pool_key grp kind) (handle_acquire sv io grp body) d"
    and "send (remote_on sv io grp kind) Post ''/release'' body d = on_pool (pool_key grp kind) (handle_release io grp body) d"
    and "send (remote_on sv io grp kind) Post ''/renew'' body d = on_pool (pool_key grp kind) (handle_renew sv io grp body) d"
    and "send (remote_on sv io grp kind) Post ''/trained'' body d = on_pool (pool_key grp kind) (handle_trained sv io grp body) d"
    and "send (remote_on sv io grp kind) Post ''/assign'' body d = on_pool (pool_key grp kind) (handle_assign io grp body) d"
    and "send (remote_on sv io grp kind) Post ''/unassign'' body d = on_pool (pool_key grp kind) (handle_unassign io grp body) d"
    and "send (remote_on sv io grp kind) Post ''/delete'' body d = apfst Some (handle_delete sv io grp kind body d)"
    and "send (remote_on sv io grp kind) Post ''/requeue'' body d =
      on_pool (pool_key grp kind) (handle_requeue io (pool_key grp kind) body) d"
    and "send (remote_on sv io grp kind) Post ''/pending/add'' body d =
      on_pool (pool_key grp kind) (handle_pending_add sv io (pool_key grp kind) body) d"
  using assms route_action [OF assms, of "''acquire''"] route_action [OF assms, of "''release''"]
    route_action [OF assms, of "''renew''"] route_action [OF assms, of "''trained''"] route_action [OF assms, of "''assign''"]
    route_action [OF assms, of "''unassign''"] route_action [OF assms, of "''delete''"] route_action [OF assms, of "''requeue''"]
    route_action [OF assms, of "''pending/add''"]
  by (simp_all add: send_def remote_on_def serve_def handler_def valid_pool_def dataset_kinds_def on_pool_def case_prod_unfold Let_def)

lemma send_get:
  assumes "valid_pool grp kind"
  shows "send (remote_on sv io grp kind) Get ''/queue'' body d = on_pool (pool_key grp kind) (\<lambda>s. (handle_queue io s, s)) d"
    and "send (remote_on sv io grp kind) Get ''/registry'' body d = on_pool (pool_key grp kind) (\<lambda>s. (handle_registry io s, s)) d"
  using assms route_action [OF assms, of "''queue''"] route_action [OF assms, of "''registry''"]
  by (simp_all add: send_def remote_on_def serve_def handler_def valid_pool_def dataset_kinds_def on_pool_def case_prod_unfold Let_def)

section \<open>Claiming\<close>

definition fit_entry :: "PendingEntry \<Rightarrow> bool" where
  "fit_entry e \<longleftrightarrow> int32_range (pe_segment_start e) \<and> int32_range (pe_segment_count e) \<and> pe_path e \<noteq> []"

definition fit_target :: "SegmentTarget \<Rightarrow> bool" where
  "fit_target t \<longleftrightarrow> int32_range (st_start t) \<and> int32_range (st_count t) \<and> st_path t \<noteq> []"

definition remote_ok :: "server \<Rightarrow> string \<Rightarrow> string \<Rightarrow> daemon \<Rightarrow> bool" where
  "remote_ok sv grp kind d \<longleftrightarrow>
     valid_pool grp kind \<and> 0 < sv_now sv \<and>
     (let s = pool d (pool_key grp kind) in
      queued_once s \<and> (\<forall>e \<in> set (queue s). \<not> claim_expired sv e \<and> fit_entry e))"

lemma srv_claim_targets:
  "t \<in> set (snd (srv_claim sv run model limit taken es)) \<Longrightarrow>
     \<exists>e \<in> set es. srv_claimable sv run model e \<and> t = \<lparr>st_path = pe_path e, st_start = pe_segment_start e, st_count = pe_segment_count e\<rparr>"
  by (induction es arbitrary: taken) (auto simp: case_prod_unfold split: if_splits)

lemma claimed_target_unit:
  "target_unit \<lparr>st_path = pe_path e, st_start = pe_segment_start e, st_count = pe_segment_count e\<rparr> = pending_unit e"
  by (simp add: target_unit_def pending_unit_def)

lemma srv_claim_units:
  "u \<in> target_unit ` set (snd (srv_claim sv run model limit taken es)) \<Longrightarrow>
     \<exists>e \<in> set es. srv_claimable sv run model e \<and> u = pending_unit e"
  using srv_claim_targets claimed_target_unit by fastforce

lemma srv_claim_marks:
  assumes "distinct (map pending_unit es)"
  shows "map claim_mark (fst (srv_claim sv run model limit taken es)) =
    map (\<lambda>(u, r). (u, if u \<in> target_unit ` set (snd (srv_claim sv run model limit taken es)) then run else r))
      (map claim_mark es)"
  using assms
proof (induction es arbitrary: taken)
  case (Cons e es)
  have new: "pending_unit e \<notin> target_unit ` set (snd (srv_claim sv run model limit k es))" for k
    using Cons.prems srv_claim_units [of _ sv run model limit k es] by fastforce
  have other: "pending_unit e' \<noteq> pending_unit e" if "e' \<in> set es" for e'
    using Cons.prems that by (metis distinct.simps(2) image_eqI list.set_map list.simps(9))
  show ?case
    using Cons.IH Cons.prems new
    by (simp add: case_prod_unfold claimed_target_unit)
      (use other in \<open>auto simp: claim_mark_def pending_unit_def\<close>)
qed simp

lemma srv_claim_once:
  "distinct (map pending_unit es) \<Longrightarrow> distinct (map target_unit (snd (srv_claim sv run model limit taken es)))"
proof (induction es arbitrary: taken)
  case (Cons e es)
  have "pending_unit e \<notin> target_unit ` set (snd (srv_claim sv run model limit k es))" for k
    using Cons.prems srv_claim_units [of _ sv run model limit k es] by fastforce
  then show ?case using Cons by (simp add: case_prod_unfold claimed_target_unit)
qed simp

lemma srv_claim_entries:
  "e \<in> set (fst (srv_claim sv run model limit taken es)) \<Longrightarrow>
     e \<in> set es \<or> (\<exists>e' \<in> set es. e = e'\<lparr>pe_run_id := run, pe_claimed_unix := sv_now sv\<rparr>)"
  by (induction es arbitrary: taken) (auto simp: case_prod_unfold split: if_splits)

lemma srv_claim_none: "snd (srv_claim sv run model limit taken es) = [] \<Longrightarrow> fst (srv_claim sv run model limit taken es) = es"
  by (induction es arbitrary: taken) (auto simp: case_prod_unfold split: if_splits)

lemma fresh_claim: "0 < sv_now sv \<Longrightarrow> \<not> claim_expired sv (e\<lparr>pe_run_id := run, pe_claimed_unix := sv_now sv\<rparr>)"
  by (auto simp: claim_expired_def)

section \<open>The reply\<close>

lemma legacy_tokens:
  assumes "list_all fit_target ts"
  shows "map token_unit (concat (map (legacy_token (map JInt (map st_start ts)) (map JInt (map st_count ts)))
    (enumerate 0 (map JString (map st_path ts))))) = map target_unit ts"
proof -
  have gen: "concat (map (legacy_token S C) (enumerate n (map JString ps))) =
      map (\<lambda>i. \<lparr>ft_registry_path = ps ! i, ftp_path = [], ftp_username = [], ftp_password = [], ft_checksum = [],
          ft_size_bytes = 0, token_expires_utc = [], ft_segment_start = int_at S (n + i), ft_segment_count = int_at C (n + i)\<rparr>)
        [0..<length ps]" for S C n ps
  proof (induction ps arbitrary: n)
    case (Cons p ps)
    have "[0..<length (p # ps)] = 0 # map Suc [0..<length ps]" by (simp add: upt_conv_Cons map_Suc_upt del: upt_Suc)
    then show ?case using Cons.IH [of "Suc n"] by (simp add: legacy_token_def del: upt_Suc)
  qed simp
  have "int_at (map JInt (map st_start ts)) i = st_start (ts ! i)"
      "int_at (map JInt (map st_count ts)) i = st_count (ts ! i)" if "i < length ts" for i
    using that assms by (simp_all add: int_at_def list_all_length fit_target_def)
  then show ?thesis
    unfolding gen by (auto simp: token_unit_def target_unit_def simp del: map_map intro!: nth_equalityI)
qed

lemma ftp_tokens:
  assumes "list_all fit_target ts"
  shows "map token_unit (filter (\<lambda>t. ft_registry_path t \<noteq> [])
    (map ftp_token (filter is_object (map (token_json sv f run) ts)))) = map target_unit ts"
proof -
  have o: "is_object (token_json sv f run t)" for t by (simp add: is_object_def token_json_def Let_def case_prod_unfold)
  have t: "ft_registry_path (ftp_token (token_json sv f run t)) = st_path t"
    "fit_target t \<Longrightarrow> token_unit (ftp_token (token_json sv f run t)) = target_unit t" for t
    by (simp_all add: ftp_token_def token_json_def Let_def case_prod_unfold reader_simps token_unit_def target_unit_def fit_target_def)
  have "filter is_object (map (token_json sv f run) ts) = map (token_json sv f run) ts"
    by (simp add: filter_id_conv o)
  moreover have "filter (\<lambda>t. ft_registry_path t \<noteq> []) (map ftp_token (map (token_json sv f run) ts)) =
      map ftp_token (map (token_json sv f run) ts)"
    using assms by (simp add: filter_id_conv t list_all_iff fit_target_def)
  ultimately show ?thesis using assms by (simp add: t(2) list_all_iff)
qed

lemma reply_units:
  assumes "list_all fit_target ts"
  shows "map token_unit (ar_files (acquired_reply run (re_body (acquire_reply sv run ts)))) = map target_unit ts"
proof (cases "sv_ftp sv")
  case None
  then show ?thesis using legacy_tokens [OF assms]
    by (simp add: acquired_reply_def acquire_reply_def ok_reply_def Let_def reader_simps JStrings_def JInts_def)
next
  case (Some f)
  then show ?thesis using ftp_tokens [OF assms, of sv f run]
    by (simp add: acquired_reply_def acquire_reply_def ok_reply_def Let_def reader_simps)
qed

section \<open>What the calls do to the pool\<close>

lemma saving_working: "saving_queue grp (working_io now) es rep s = (rep, s\<lparr>rs_pending := Some es\<rparr>)"
  by (simp add: saving_queue_def save_pending_def working_io_def)

lemma working_loads: "entries_of (load_pending (working_io now) s) = queue s"
    "entries_of (load_registry (working_io now) s) = records s"
  by (simp_all add: load_pending_def load_registry_def working_io_def queue_def records_def)

lemma remote_acquire_effect:
  assumes "valid_pool grp kind" and "run \<noteq> []"
  obtains limit where
    "queue (pool (snd (remote_acquire (remote_on sv (working_io now) grp kind) run n model d)) (pool_key grp kind)) =
       fst (srv_claim sv run model limit 0 (queue (pool d (pool_key grp kind))))"
    and "ar_files (fst (remote_acquire (remote_on sv (working_io now) grp kind) run n model d)) =
       ar_files (acquired_reply run (re_body (acquire_reply sv run (snd (srv_claim sv run model limit 0 (queue (pool d (pool_key grp kind))))))))"
proof -
  let ?body = "JObject [(''run_id'', JString run), (''max_files'', JInt n), (''model_name'', JString model)]"
  let ?s = "pool d (pool_key grp kind)"
  define limit where "limit = (if json_int ?body ''max_files'' 0 > 0 then json_int ?body ''max_files'' 0 else int (length (queue ?s)))"
  have b: "json_string ?body ''run_id'' = run" "json_string ?body ''model_name'' = model" by (simp_all add: reader_simps)
  have rep: "reply_object (Some (acquire_reply sv run ts)) = Some (re_body (acquire_reply sv run ts))" for ts
    by (simp add: reply_object_def acquire_reply_def ok_reply_def is_object_def split: option.split)
  have h: "handle_acquire sv (working_io now) grp ?body ?s =
      (acquire_reply sv run (snd (srv_claim sv run model limit 0 (queue ?s))),
       if snd (srv_claim sv run model limit 0 (queue ?s)) = [] then ?s
       else ?s\<lparr>rs_pending := Some (fst (srv_claim sv run model limit 0 (queue ?s)))\<rparr>)"
    unfolding handle_acquire_def b Let_def working_loads limit_def [symmetric] saving_working
    using assms(2) by (simp add: case_prod_unfold)
  show thesis
  proof (rule that [of limit])
    show "queue (pool (snd (remote_acquire (remote_on sv (working_io now) grp kind) run n model d)) (pool_key grp kind)) =
       fst (srv_claim sv run model limit 0 (queue ?s))"
      using srv_claim_none [of sv run model limit 0 "queue ?s"]
      by (simp add: remote_acquire_def send_post [OF assms(1)] case_prod_unfold pool_on_pool h queued_now)
    show "ar_files (fst (remote_acquire (remote_on sv (working_io now) grp kind) run n model d)) =
       ar_files (acquired_reply run (re_body (acquire_reply sv run (snd (srv_claim sv run model limit 0 (queue ?s))))))"
      by (simp add: remote_acquire_def send_post [OF assms(1)] case_prod_unfold pool_on_pool h rep)
  qed
qed

lemma remote_acquire_all:
  fixes d :: daemon
  assumes "valid_pool grp kind" and "run \<noteq> []"
  defines "es \<equiv> queue (pool d (pool_key grp kind))"
  shows "ar_files (fst (remote_acquire (remote_on sv (working_io now) grp kind) run 0 model d)) =
    ar_files (acquired_reply run (re_body (acquire_reply sv run (snd (srv_claim sv run model (int (length es)) 0 es)))))"
proof -
  let ?body = "JObject [(''run_id'', JString run), (''max_files'', JInt 0), (''model_name'', JString model)]"
  have b: "json_string ?body ''run_id'' = run" "json_string ?body ''model_name'' = model" "json_int ?body ''max_files'' 0 = 0"
    by (simp_all add: reader_simps int32_range_def)
  have rep: "reply_object (Some (acquire_reply sv run ts)) = Some (re_body (acquire_reply sv run ts))" for ts
    by (simp add: reply_object_def acquire_reply_def ok_reply_def is_object_def split: option.split)
  have "fst (handle_acquire sv (working_io now) grp ?body (pool d (pool_key grp kind))) =
      acquire_reply sv run (snd (srv_claim sv run model (int (length es)) 0 es))"
    unfolding handle_acquire_def b Let_def working_loads saving_working es_def
    using assms(2) by (simp add: case_prod_unfold)
  then show ?thesis by (simp add: remote_acquire_def send_post [OF assms(1)] case_prod_unfold pool_on_pool rep)
qed

lemma remote_acquire_records:
  "valid_pool grp kind \<Longrightarrow>
   records (pool (snd (remote_acquire (remote_on sv io grp kind) run n model d)) (pool_key grp kind)) =
     records (pool d (pool_key grp kind))"
  by (simp add: remote_acquire_def send_post case_prod_unfold pool_on_pool handle_acquire_def Let_def saving_queue_def store_simps)

lemma remote_acquire_anonymous:
  assumes "valid_pool grp kind"
  shows "pool (snd (remote_acquire (remote_on sv io grp kind) [] n model d)) (pool_key grp kind) = pool d (pool_key grp kind)"
    and "ar_files (fst (remote_acquire (remote_on sv io grp kind) [] n model d)) = []"
  by (simp_all add: remote_acquire_def send_post [OF assms] case_prod_unfold pool_on_pool handle_acquire_def reader_simps
      error_reply_def reply_object_def acquire_response_def)

section \<open>Trained units\<close>

definition fit_record :: "DataVersion \<Rightarrow> bool" where
  "fit_record dv \<longleftrightarrow>
     int32_range (num_samples dv) \<and> int32_range (dv_segment_start dv) \<and> int32_range (dv_segment_count dv) \<and>
     (dv_segment_start dv < 0 \<longrightarrow> dv_segment_start dv = - 1 \<and> dv_segment_count dv = - 1)"

definition report_of :: "DataVersion \<Rightarrow> report" where
  "report_of dv = \<lparr>rp_file = data_file dv, rp_start = dv_segment_start dv, rp_count = dv_segment_count dv,
     rp_samples = num_samples dv\<rparr>"

definition same_report :: "report \<Rightarrow> report \<Rightarrow> bool" where
  "same_report q r \<longleftrightarrow> rp_file q = rp_file r \<and> rp_start q = rp_start r \<and> rp_count q = rp_count r"

lemma add_units_all:
  "list_all (\<lambda>r. list_ex (\<lambda>q. same_report q r) done) rs \<Longrightarrow> add_units done rs = done"
  by (induction rs) (simp_all add: same_report_def)

lemma add_units_new:
  "distinct (map (\<lambda>r. (rp_file r, rp_start r, rp_count r)) (done @ rs)) \<Longrightarrow> add_units done (rs @ ts) = add_units (done @ rs) ts"
  by (induction rs arbitrary: "done") (auto simp: list_ex_iff rev_image_eqI)

lemma batch_report:
  assumes "batch us es" and "list_all fit_record es"
  shows "trained_report es (whole_paths us) (ranges us) = map report_of es"
proof -
  have units: "map trained_unit es = map target_unit us" "distinct (map trained_unit es)" using assms(1) by (simp_all add: batch_def)
  have "trained_unit dv = (\<lambda>(f, s, c). unit_of f s c) (rp_file (report_of dv), rp_start (report_of dv), rp_count (report_of dv))" for dv
    by (simp add: trained_unit_def report_of_def)
  then have d: "distinct (map (\<lambda>r. (rp_file r, rp_start r, rp_count r)) (map report_of es))"
    using units(2) by (auto simp: distinct_map inj_on_def)
  have found: "\<exists>dv \<in> set es. data_file dv = st_path u \<and>
      (if st_start u < 0 then dv_segment_start dv = - 1 \<and> dv_segment_count dv = - 1
       else dv_segment_start dv = st_start u \<and> dv_segment_count dv = st_count u)" if u: "u \<in> set us" for u
  proof -
    have "target_unit u \<in> set (map trained_unit es)" unfolding units(1) using u by simp
    then obtain dv where dv: "dv \<in> set es" "trained_unit dv = target_unit u" by auto
    then have "fit_record dv" using assms(2) by (simp add: list_all_iff)
    then show ?thesis using dv by (intro bexI [OF _ dv(1)])
        (auto simp: trained_unit_def target_unit_def unit_of_def fit_record_def split: if_splits)
  qed
  have "list_all (\<lambda>r. list_ex (\<lambda>q. same_report q r) (map report_of es))
      (map (\<lambda>p. \<lparr>rp_file = p, rp_start = - 1, rp_count = - 1, rp_samples = 0\<rparr>) (whole_paths us) @
       map (\<lambda>t. \<lparr>rp_file = st_path t, rp_start = st_start t, rp_count = st_count t, rp_samples = 0\<rparr>) (ranges us))"
    using found by (fastforce simp: list_all_iff list_ex_iff same_report_def report_of_def whole_paths_def ranges_def)
  then show ?thesis
    using add_units_new [of "[]" "map report_of es"] d
    by (simp add: trained_report_def report_of_def [symmetric] add_units_all comp_def)
qed

lemma exact_ranges:
  assumes "batch us es"
  shows "ranges us = [] \<longleftrightarrow> (\<forall>dv \<in> set es. dv_segment_start dv < 0)"
proof -
  have eq: "trained_unit ` set es = target_unit ` set us" using assms by (metis batch_def list.set_map)
  have "snd (trained_unit dv) = None \<longleftrightarrow> dv_segment_start dv < 0" for dv by (simp add: trained_unit_def unit_of_def)
  moreover have "snd (target_unit u) = None \<longleftrightarrow> st_start u < 0" for u by (simp add: target_unit_def unit_of_def)
  ultimately have "(\<forall>dv \<in> set es. dv_segment_start dv < 0) \<longleftrightarrow> (\<forall>x \<in> trained_unit ` set es. snd x = None)"
    "(\<forall>u \<in> set us. st_start u < 0) \<longleftrightarrow> (\<forall>x \<in> target_unit ` set us. snd x = None)" by auto
  then show ?thesis unfolding eq by (auto simp: ranges_def filter_empty_conv)
qed

text \<open>What the daemon reads in the request.\<close>

lemma read_trained_body:
  fixes run :: string
  assumes "batch us es" and "list_all fit_record es"
  defines "body \<equiv> trained_body run es (whole_paths us) (ranges us)"
  defines "starts \<equiv> json_int_array body ''segment_starts''" and "counts \<equiv> json_int_array body ''segment_counts''"
  shows "json_string body ''run_id'' = run" and "json_string_array body ''files'' = map data_file es"
    and "exact_mode (map data_file es) starts counts \<longleftrightarrow> ranges us \<noteq> []"
    and "reports (map data_file es) (json_int_array body ''samples'') starts counts = map report_of es"
proof -
  have r: "trained_report es (whole_paths us) (ranges us) = map report_of es" by (rule batch_report [OF assms(1,2)])
  have i: "list_all int32_range (map dv_segment_start es)" "list_all int32_range (map dv_segment_count es)"
    "list_all int32_range (map num_samples es)"
    using assms(2) by (simp_all add: list_all_iff fit_record_def)
  have b: "body = JObject ([(''run_id'', JString run), (''files'', JStrings (map data_file es)), (''samples'', JInts (map num_samples es))] @
      (if ranges us = [] then [] else [(''segment_starts'', JInts (map dv_segment_start es)),
        (''segment_counts'', JInts (map dv_segment_count es))]))"
    by (simp add: body_def trained_body_def r Let_def comp_def report_of_def)
  show "json_string body ''run_id'' = run" by (simp add: b reader_simps)
  show "json_string_array body ''files'' = map data_file es" by (simp add: b reader_simps)
  have sa: "json_int_array body ''samples'' = map num_samples es" using i(3) by (simp add: b reader_simps)
  have sc: "starts = (if ranges us = [] then [] else map dv_segment_start es)"
    "counts = (if ranges us = [] then [] else map dv_segment_count es)"
    using i by (simp_all add: starts_def counts_def b reader_simps)
  have ne: "es \<noteq> []" if "ranges us \<noteq> []" using exact_ranges [OF assms(1)] that by auto
  show x: "exact_mode (map data_file es) starts counts \<longleftrightarrow> ranges us \<noteq> []"
    using ne by (auto simp: exact_mode_def sc)
  have "dv_segment_start dv = - 1 \<and> dv_segment_count dv = - 1" if "ranges us = []" "dv \<in> set es" for dv
    using that exact_ranges [OF assms(1)] assms(2) by (auto simp: list_all_iff fit_record_def)
  then have "reports (map data_file es) (json_int_array body ''samples'') starts counts =
      map (\<lambda>i. report_of (es ! i)) [0..<length es]"
    unfolding reports_def Let_def x sa length_map
    by (intro map_cong refl) (cases "ranges us = []"; simp add: report_of_def sc)
  also have "\<dots> = map report_of (map ((!) es) [0..<length es])" by simp
  finally show "reports (map data_file es) (json_int_array body ''samples'') starts counts = map report_of es"
    by (simp only: map_nth)
qed

lemma record_reports_held:
  assumes "run \<noteq> []" and "list_all (claimed_by_caller run exact pending) rs"
    and "distinct (map (\<lambda>r. (rp_file r, rp_start r, rp_count r)) rs)"
    and "set (map (\<lambda>r. (rp_file r, rp_start r, rp_count r)) rs) \<inter> set done = {}"
  shows "record_reports sv run mid exact pending rs done registry = (registry @ map (reported_version sv mid pending) rs, [])"
  using assms(2-4)
proof (induction rs arbitrary: "done" registry)
  case (Cons r rs)
  then show ?case using assms(1) by (auto simp: Let_def)
qed simp

text \<open>What the daemon keeps of a record: the unit and its samples (the rest it knows better).\<close>

definition trained_row :: "DataVersion \<Rightarrow> work_unit \<times> int" where
  "trained_row dv = (trained_unit dv, num_samples dv)"

lemma reported_version_row: "trained_row (reported_version sv mid pending (report_of dv)) = trained_row dv"
  by (simp add: trained_row_def reported_version_def report_of_def trained_unit_def case_prod_unfold Let_def)

lemma triples_distinct:
  "batch us es \<Longrightarrow> distinct (map (\<lambda>r. (rp_file r, rp_start r, rp_count r)) (map report_of es))"
proof -
  assume "batch us es"
  then have d: "distinct (map trained_unit es)" by (simp add: batch_def)
  have "trained_unit dv = (\<lambda>(f, s, c). unit_of f s c) (rp_file (report_of dv), rp_start (report_of dv), rp_count (report_of dv))" for dv
    by (simp add: trained_unit_def report_of_def)
  then show ?thesis using d by (auto simp: distinct_map inj_on_def)
qed

lemma held_by_caller:
  assumes "holds run (trained_unit dv) pending" and "exact \<or> dv_segment_start dv < 0"
  shows "claimed_by_caller run exact pending (report_of dv)"
proof -
  obtain e where e: "e \<in> set pending" "pending_unit e = trained_unit dv" "pe_run_id e = run"
    using assms(1) by (auto simp: holds_def)
  then have "segment_matches e (data_file dv) (dv_segment_start dv) (dv_segment_count dv)"
    by (simp add: segment_matches_iff trained_unit_def)
  moreover from this have "pe_path e = data_file dv" by (simp add: segment_matches_def split: if_splits)
  ultimately show ?thesis using e by (auto simp: claimed_by_caller_def list_ex_iff report_of_def)
qed

lemma srv_trained_entry:
  assumes "run \<noteq> []" and "batch us es"
  shows "srv_trained run (ranges us \<noteq> []) (map data_file es) (map report_of es) e =
    trained_entry run (whole_paths us) (ranges us) e"
proof (cases "ranges us = []")
  case True
  have "trained_unit ` set es = target_unit ` set us" using assms(2) by (metis batch_def list.set_map)
  then have "fst ` trained_unit ` set es = fst ` target_unit ` set us" by simp
  then have "data_file ` set es = st_path ` set us"
    by (simp add: image_image trained_unit_def target_unit_def unit_of_def)
  moreover have "whole_paths us = map st_path us" using True by (simp add: whole_paths_def ranges_def filter_empty_conv)
  ultimately show ?thesis using True by (auto simp: srv_trained_def trained_entry_def)
next
  case False
  have "trained_unit ` set es = target_unit ` set us" using assms(2) by (metis batch_def list.set_map)
  moreover have "list_ex (\<lambda>r. segment_matches e (rp_file r) (rp_start r) (rp_count r)) (map report_of es) \<longleftrightarrow>
      pending_unit e \<in> trained_unit ` set es"
    by (auto simp: list_ex_iff report_of_def segment_matches_iff trained_unit_def)
  ultimately show ?thesis
    using trained_entry_units [OF assms(1), of us e] False assms(1) by (auto simp: srv_trained_def)
qed

lemma remote_commit_effect:
  fixes sv :: server and d :: daemon and now :: int
  assumes "valid_pool grp kind" and "run \<noteq> []" and "batch us es" and "list_all fit_record es"
  defines "d' \<equiv> remote_commit_trained (remote_on sv (working_io now) grp kind) run es (whole_paths us) (ranges us) d"
  defines "s \<equiv> pool d (pool_key grp kind)" and "s' \<equiv> pool d' (pool_key grp kind)"
  shows "queue s' = filter (\<lambda>e. \<not> trained_entry run (whole_paths us) (ranges us) e) (queue s)"
    and "(\<And>u. u \<in> set us \<Longrightarrow> holds run (target_unit u) (queue s)) \<Longrightarrow>
      map trained_row (records s') = map trained_row (records s) @ map trained_row es"
proof -
  let ?body = "trained_body run es (whole_paths us) (ranges us)"
  note body = read_trained_body [OF assms(3,4)]
  let ?rec = "record_reports sv run (json_string ?body ''model_id'') (ranges us \<noteq> []) (queue s) (map report_of es) [] (records s)"
  have "handle_trained sv (working_io now) grp ?body s =
      (ok_reply [(''trained'', JInt (int (length (fst ?rec) - length (records s)))), (''rejected'', JStrings (snd ?rec))],
       s\<lparr>rs_registry := Some (fst ?rec),
         rs_pending := Some (filter (\<lambda>e. \<not> srv_trained run (ranges us \<noteq> []) (map data_file es) (map report_of es) e) (queue s))\<rparr>)"
    unfolding handle_trained_def Let_def body working_loads saving_working
    by (simp add: case_prod_unfold save_registry_def working_io_def)
  then have s': "s' = s\<lparr>rs_registry := Some (fst ?rec),
      rs_pending := Some (filter (\<lambda>e. \<not> srv_trained run (ranges us \<noteq> []) (map data_file es) (map report_of es) e) (queue s))\<rparr>"
    by (simp add: s'_def d'_def remote_commit_trained_def send_post [OF assms(1)] pool_on_pool s_def)
  show "queue s' = filter (\<lambda>e. \<not> trained_entry run (whole_paths us) (ranges us) e) (queue s)"
    unfolding s' srv_trained_entry [OF assms(2,3)] by (simp add: queued_now)
  assume held: "\<And>u. u \<in> set us \<Longrightarrow> holds run (target_unit u) (queue s)"
  have "list_all (claimed_by_caller run (ranges us \<noteq> []) (queue s)) (map report_of es)"
  proof -
    have units: "map trained_unit es = map target_unit us" using assms(3) by (simp add: batch_def)
    have "claimed_by_caller run (ranges us \<noteq> []) (queue s) (report_of dv)" if dv: "dv \<in> set es" for dv
    proof (rule held_by_caller)
      have "trained_unit dv \<in> set (map target_unit us)" using dv by (simp flip: units)
      then show "holds run (trained_unit dv) (queue s)" using held by auto
      show "ranges us \<noteq> [] \<or> dv_segment_start dv < 0" using exact_ranges [OF assms(3)] dv by blast
    qed
    then show ?thesis by (simp add: list_all_iff)
  qed
  then have "fst ?rec = records s @ map (reported_version sv (json_string ?body ''model_id'') (queue s)) (map report_of es)"
    using record_reports_held [OF assms(2) _ triples_distinct [OF assms(3)], of "ranges us \<noteq> []" "queue s" "[]" sv] by simp
  moreover have "records s' = fst ?rec" by (simp add: s' records_def entries_of_def)
  ultimately show "map trained_row (records s') = map trained_row (records s) @ map trained_row es"
    by (simp add: reported_version_row)
qed

section \<open>Giving back\<close>

lemma read_targets:
  assumes "list_all (\<lambda>t. int32_range (st_start t) \<and> int32_range (st_count t) \<and> st_path t \<noteq> []) ts"
    and "json_field body key = Some (segments_json ts)"
  shows "json_segment_targets body key = ts"
proof -
  have "concat (map segment_target (map target_json ts)) = ts"
    using assms(1)
    by (induction ts) (simp_all add: segment_target_def target_json_def int_or_def)
  then show ?thesis by (simp add: json_segment_targets_def assms(2) segments_json_def)
qed

lemma remote_release_effect:
  assumes "valid_pool grp kind" and "run \<noteq> []" and "list_all fit_target ts"
  shows "queue (pool (remote_release (remote_on sv (working_io now) grp kind) run ps ts d) (pool_key grp kind)) =
    map (\<lambda>e. if srv_released run ps ts e then e\<lparr>pe_run_id := [], pe_claimed_unix := 0\<rparr> else e)
      (queue (pool d (pool_key grp kind)))"
proof -
  let ?body = "JObject [(''run_id'', JString run), (''files'', JStrings ps), (''segments'', segments_json ts)]"
  have "json_segment_targets ?body ''segments'' = ts"
    using assms(3) by (intro read_targets) (simp_all add: list_all_iff fit_target_def)
  moreover have "json_string ?body ''run_id'' = run" "json_string_array ?body ''files'' = ps" by (simp_all add: reader_simps)
  ultimately show ?thesis
    by (simp add: remote_release_def send_post [OF assms(1)] pool_on_pool handle_release_def Let_def working_loads saving_working
        queued_now)
qed

lemma released_mark:
  "run \<noteq> [] \<Longrightarrow> claim_mark (if srv_released run ps ts e then e\<lparr>pe_run_id := [], pe_claimed_unix := 0\<rparr> else e) =
     claim_mark (release_entry run ps ts e)"
  by (auto simp: srv_released_def release_entry_def claim_mark_def pending_unit_def)

section \<open>RemoteTransport keeps the contract\<close>

lemma held_target_fits:
  assumes "holds run (target_unit u) es" and "list_all fit_entry es" and "\<not> st_start u < 0"
  shows "fit_target u"
  using assms by (auto simp: holds_def list_all_iff fit_entry_def fit_target_def pending_unit_def target_unit_def unit_of_def
      split: if_splits)

lemma not_expired_claimable:
  "\<not> claim_expired sv e \<Longrightarrow> srv_claimable sv run model e \<longleftrightarrow> claimable run model e"
  by (auto simp: srv_claimable_def claimable_def)

interpretation remote: shared_queue "remote_transport (remote_on sv (working_io now) grp kind)"
    "\<lambda>d. queue (pool d (pool_key grp kind))" "\<lambda>d. map trained_row (records (pool d (pool_key grp kind)))"
    trained_row fit_record "remote_ok sv grp kind"
  for sv now grp kind
proof unfold_locales
  fix d :: daemon and run n model
  let ?tr = "remote_transport (remote_on sv (working_io now) grp kind)" and ?key = "pool_key grp kind"
  let ?q = "queue (pool d ?key)"
  assume ok: "remote_ok sv grp kind d"
  then have pool: "valid_pool grp kind" "0 < sv_now sv" and d: "distinct (map pending_unit ?q)"
    and fits: "\<And>e. e \<in> set ?q \<Longrightarrow> \<not> claim_expired sv e \<and> fit_entry e"
    by (simp_all add: remote_ok_def Let_def queued_once_def)
  show "distinct (map pending_unit ?q)" by (rule d)
  have tr: "tr_acquire ?tr = remote_acquire (remote_on sv (working_io now) grp kind)" by (simp add: remote_transport_def)
  show "map trained_row (records (pool (snd (tr_acquire ?tr run n model d)) ?key)) = map trained_row (records (pool d ?key))"
    unfolding tr by (simp only: remote_acquire_records [OF pool(1)])
  consider "run = []" | limit where "run \<noteq> []"
    "queue (pool (snd (tr_acquire ?tr run n model d)) ?key) = fst (srv_claim sv run model limit 0 ?q)"
    "token_units (fst (tr_acquire ?tr run n model d)) = map target_unit (snd (srv_claim sv run model limit 0 ?q))"
  proof (cases "run = []")
    case False
    obtain limit where l: "queue (pool (snd (tr_acquire ?tr run n model d)) ?key) = fst (srv_claim sv run model limit 0 ?q)"
      "ar_files (fst (tr_acquire ?tr run n model d)) =
         ar_files (acquired_reply run (re_body (acquire_reply sv run (snd (srv_claim sv run model limit 0 ?q)))))"
      unfolding tr by (rule remote_acquire_effect [OF pool(1) False])
    have "list_all fit_target (snd (srv_claim sv run model limit 0 ?q))"
      using srv_claim_targets [of _ sv run model limit 0 ?q] fits by (fastforce simp: list_all_iff fit_target_def fit_entry_def)
    then have "token_units (fst (tr_acquire ?tr run n model d)) = map target_unit (snd (srv_claim sv run model limit 0 ?q))"
      by (simp add: token_units_def l(2) reply_units)
    with False l(1) that(2) show thesis by blast
  qed simp
  note cases = this
  have none: "token_units (fst (tr_acquire ?tr [] n model d)) = []" "pool (snd (tr_acquire ?tr [] n model d)) ?key = pool d ?key"
    unfolding tr by (simp_all add: token_units_def remote_acquire_anonymous [OF pool(1)])
  show "remote_ok sv grp kind (snd (tr_acquire ?tr run n model d))"
  proof (cases rule: cases)
    case 1
    then show ?thesis using ok none(2) by (simp add: remote_ok_def Let_def)
  next
    case (2 limit)
    have "\<not> claim_expired sv e \<and> fit_entry e" if "e \<in> set (fst (srv_claim sv run model limit 0 ?q))" for e
      using srv_claim_entries [OF that] fits fresh_claim [OF pool(2)] by (auto simp: fit_entry_def)
    then show ?thesis using pool d 2(2) srv_claim_units_same [of sv run model limit 0 ?q]
      by (simp add: remote_ok_def Let_def queued_once_def)
  qed
  show "map claim_mark (queue (pool (snd (tr_acquire ?tr run n model d)) ?key)) =
      map (\<lambda>(u, r). (u, if u \<in> set (token_units (fst (tr_acquire ?tr run n model d))) then run else r)) (map claim_mark ?q)"
    if "run \<noteq> []"
  proof (cases rule: cases)
    case (2 limit)
    show ?thesis unfolding 2(2,3) set_map by (rule srv_claim_marks [OF d])
  qed (use that in simp)
  show "distinct (token_units (fst (tr_acquire ?tr run n model d)))"
    by (cases rule: cases) (simp_all add: none(1) srv_claim_once [OF d])
  show "holds [] u ?q \<or> holds run u ?q" if u: "u \<in> set (token_units (fst (tr_acquire ?tr run n model d)))" for u
  proof (cases rule: cases)
    case 1
    then show ?thesis using u none(1) by simp
  next
    case (2 limit)
    then obtain e where "e \<in> set ?q" "srv_claimable sv run model e" "u = pending_unit e"
      using u srv_claim_units [of u sv run model limit 0 ?q] by auto
    then show ?thesis using not_expired_claimable fits by (auto simp: holds_def claimable_def)
  qed
next
  fix d :: daemon and run :: string and us es
  let ?tr = "remote_transport (remote_on sv (working_io now) grp kind)" and ?key = "pool_key grp kind"
  assume ok: "remote_ok sv grp kind d" and run: "run \<noteq> []" "batch us es" "list_all fit_record es"
  then have pool: "valid_pool grp kind" by (simp add: remote_ok_def)
  show "queue (pool (tr_commit_trained ?tr run es (whole_paths us) (ranges us) d) ?key) =
      filter (\<lambda>e. \<not> trained_entry run (whole_paths us) (ranges us) e) (queue (pool d ?key))"
    using remote_commit_effect(1) [OF pool run] by (simp add: remote_transport_def)
  show "map trained_row (records (pool (tr_commit_trained ?tr run es (whole_paths us) (ranges us) d) ?key)) =
      map trained_row (records (pool d ?key)) @ map trained_row es"
    if "\<And>u. u \<in> set us \<Longrightarrow> holds run (target_unit u) (queue (pool d ?key))"
    using remote_commit_effect(2) [OF pool run that] by (simp add: remote_transport_def)
next
  fix d :: daemon and run :: string and us
  let ?tr = "remote_transport (remote_on sv (working_io now) grp kind)" and ?key = "pool_key grp kind"
  assume ok: "remote_ok sv grp kind d" and run: "run \<noteq> []"
    and held: "\<And>u. u \<in> set us \<Longrightarrow> holds run (target_unit u) (queue (pool d ?key))"
  have pool: "valid_pool grp kind" and fits: "list_all fit_entry (queue (pool d ?key))"
    using ok by (simp_all add: remote_ok_def Let_def list_all_iff)
  then have "list_all fit_target (ranges us)"
    using held_target_fits [OF held fits] by (simp add: list_all_iff ranges_def)
  then show "map claim_mark (queue (pool (tr_release ?tr run (whole_paths us) (ranges us) d) ?key)) =
      map claim_mark (map (release_entry run (whole_paths us) (ranges us)) (queue (pool d ?key)))"
    using remote_release_effect [OF pool run] released_mark [OF run] by (simp add: remote_transport_def)
qed

end
