(* ===== verification/Remote_Properties.thy ===== *)
theory Remote_Properties
  imports Remote_Batches
begin

text \<open>
  The registry daemon and its clients: claims are safe while their lease lasts, batches over the network behave as
  they do on one machine, groups do not see each other, and a client reads and changes exactly the shared queue.
\<close>

section \<open>Example daemon\<close>

definition example_server :: server where
  "example_server = \<lparr>sv_lease = 60, sv_start = 0, sv_now = 100, sv_now_utc = [], sv_stat = (\<lambda>_. None),
     sv_content = (\<lambda>_. None), sv_ftp = None, sv_root = ''/data'', sv_canonical = Some, sv_sessions = None\<rparr>"

definition queued_file :: "string \<Rightarrow> string \<Rightarrow> int \<Rightarrow> PendingEntry" where
  "queued_file path run claimed = (pending_entry path (- 1) (- 1))\<lparr>pe_run_id := run, pe_claimed_unix := claimed\<rparr>"

definition daemon_with :: "PendingEntry list \<Rightarrow> daemon" where
  "daemon_with es =
     \<lparr>pool = (\<lambda>_. \<lparr>rs_registry = Some [], rs_pending = Some es, rs_files = (\<lambda>_. True)\<rparr>),
      data_files = (\<lambda>_. True), counters = (\<lambda>_. None)\<rparr>"

lemmas daemon_simps = example_server_def queued_file_def daemon_with_def pending_entry_def queue_def records_def
  entries_of_def pending_unit_def unit_of_def pool_key_def

lemma example_pool: "valid_pool ''g'' []"
  by (simp add: valid_pool_def valid_group_name_def Let_def is_digit_def)

section \<open>Claims\<close>

text \<open>No request makes a unit queued twice: in every pool of the daemon each file or range of rows is queued at
  most once, whatever requests arrive in whatever order and whichever files cannot be read or saved.\<close>

theorem daemon_queued_once:
  assumes "queued_once (pool d key)"
  shows "queued_once (pool (daemon_steps steps d) key)"
  using assms by (rule daemon_steps_once)

text \<open>C11: A claim is safe while its lease lasts: after run \<open>run\<close> claimed a unit at time \<open>t\<close>, whatever other requests
  the daemon serves before the lease of that claim is over, the run still holds the unit and no acquire of another
  run is given it, unless the run gives it back, an administrator forces a deletion, or a deletion with
  \<open>delete_files\<close> names the queue file itself.\<close>

theorem lease_protects:
  assumes "queued_once (pool d key)" and "leased run u t (queue (pool d key))" and "run \<noteq> []" and "0 < t"
    and "list_all (\<lambda>(sv, io, req). io_read_pending io \<and> lease_live sv t \<and> spares_claim sv key run req) steps"
    and "lease_live sv t" and "run' \<noteq> run"
  shows "let es = queue (pool (daemon_steps steps d) key) in
    leased run u t es \<and> u \<notin> target_unit ` set (snd (srv_claim sv run' model limit 0 es))"
proof -
  let ?es = "queue (pool (daemon_steps steps d) key)"
  have l: "leased run u t ?es" by (rule daemon_steps_leased [OF assms(3,4,5,1,2)])
  then obtain e where e: "e \<in> set ?es" "pending_unit e = u" "pe_run_id e = run" "t \<le> pe_claimed_unix e"
    by (auto simp: leased_def)
  have d: "distinct (map pending_unit ?es)" using daemon_steps_once [OF assms(1)] by (simp add: queued_once_def)
  have "u \<notin> target_unit ` set (snd (srv_claim sv run' model limit 0 ?es))"
  proof
    assume "u \<in> target_unit ` set (snd (srv_claim sv run' model limit 0 ?es))"
    then obtain e' where e': "e' \<in> set ?es" "srv_claimable sv run' model e'" "u = pending_unit e'"
      using srv_claim_units by blast
    then have "e' = e" using e d by (metis distinct_map inj_onD)
    then show False using e'(2) e(3,4) leased_not_expired [OF assms(4,6)] assms(3,7) by (auto simp: srv_claimable_def)
  qed
  then show ?thesis using l by (simp add: Let_def)
qed

definition example_request :: "string \<Rightarrow> json \<Rightarrow> request" where
  "example_request action body =
     \<lparr>hr_method = Post, hr_path = ''/registry/g/'' @ action, hr_model_id = [], hr_body = body\<rparr>"

definition example_steps :: "(server \<times> io \<times> request) list" where
  "example_steps =
     [(example_server, working_io 100, example_request ''acquire'' (JObject [(''run_id'', JString ''b'')])),
      (example_server, working_io 100, example_request ''trained''
         (JObject [(''run_id'', JString ''b''), (''files'', JStrings [''f''])])),
      (example_server, working_io 100, example_request ''delete'' (JObject [(''paths'', JStrings [''f''])]))]"

theorem daemon_queued_once_witness:
  "queued_once (pool (daemon_steps example_steps (daemon_with [queued_file ''f'' ''a'' 90, queued_file ''g'' [] 0])) ''g'')"
  by (rule daemon_queued_once) (simp add: queued_once_def daemon_simps)

lemma example_steps_live:
  "list_all (\<lambda>(sv, io, req). io_read_pending io \<and> lease_live sv 90 \<and> spares_claim sv ''g'' ''a'' req) example_steps"
  by (simp add: example_steps_def example_request_def working_io_def lease_live_def example_server_def ends_claim_def
      spares_claim_def unlinks_def delete_request_targets_def whole_file_def reaches_def in_group_def starts_with_def
      json_segment_targets_def route_def dataset_kinds_def reader_simps json_bool_def)

theorem lease_protects_witness:
  "leased ''a'' (''f'', None) 90
     (queue (pool (daemon_steps example_steps (daemon_with [queued_file ''f'' ''a'' 90, queued_file ''g'' [] 0])) ''g''))"
proof -
  let ?d = "daemon_with [queued_file ''f'' ''a'' 90, queued_file ''g'' [] 0]"
  have "queued_once (pool ?d ''g'')" "leased ''a'' (''f'', None) 90 (queue (pool ?d ''g''))"
    "lease_live example_server 90"
    by (simp_all add: queued_once_def leased_def lease_live_def daemon_simps)
  from lease_protects [OF this(1,2) _ _ example_steps_live this(3), of "''b''" "[]" 9] show ?thesis
    by (simp add: Let_def)
qed

section \<open>Batches\<close>

text \<open>C12: A trainer on another machine that acquires a batch and commits it gets what a local one gets: the daemon
  records each unit of the batch once with its sample count, and exactly the batch leaves the daemon's queue.\<close>

theorem remote_trained_batch:
  assumes "remote_ok sv grp kind (dr_transport r)" and "run \<noteq> []"
    and "acquire_pending (remote_transport (remote_on sv (working_io now) grp kind)) cfg run n r = (resp, r1)"
    and "list_all fit_record (versions h (file_ranges resp) counts)"
    and "ranges (file_ranges resp) \<noteq> [] \<or>
      (\<forall>e \<in> set (queue (pool (dr_transport r1) (pool_key grp kind))).
         pe_run_id e = run \<and> pe_path e \<in> set (whole_paths (file_ranges resp)) \<longrightarrow> pe_segment_start e < 0)"
  shows "let s = pool (dr_transport r) (pool_key grp kind);
      t = pool (dr_transport (mark_trained (remote_transport (remote_on sv (working_io now) grp kind)) h run
        (file_ranges resp) counts r1)) (pool_key grp kind)
    in map trained_row (records t) = map trained_row (records s) @ map trained_row (versions h (file_ranges resp) counts) \<and>
       map claim_mark (queue t) = filter (\<lambda>(u, q). u \<notin> set (token_units resp)) (map claim_mark (queue s))"
  using remote.batch_recorded [OF assms(1,3,2,4)] remote.batch_leaves_queue [OF assms(1,3,2,4,5)]
  by (simp add: Let_def)

text \<open>A batch that is given back over the network leaves queue and claims of the daemon as they were.\<close>

theorem remote_released_batch:
  assumes "remote_ok sv grp kind (dr_transport r)" and "run \<noteq> []"
    and "acquire_pending (remote_transport (remote_on sv (working_io now) grp kind)) cfg run n r = (resp, r1)"
    and "\<And>u. \<not> holds run u (queue (pool (dr_transport r) (pool_key grp kind)))"
  shows "map claim_mark (queue (pool (dr_transport (release_units (remote_transport (remote_on sv (working_io now) grp kind))
      run (file_ranges resp) r1)) (pool_key grp kind))) =
    map claim_mark (queue (pool (dr_transport r) (pool_key grp kind)))"
  using remote.batch_released [OF assms(1,3,2,4)] .

definition example_remote :: "daemon dataset_registry" where
  "example_remote = \<lparr>dr_registry = [], dr_trained_set = {}, dr_pending = [],
     dr_transport = daemon_with [queued_file ''f'' [] 0, queued_file ''h'' ''b'' 90]\<rparr>"

definition remote_config :: dataset_config where
  "remote_config = \<lparr>dc_session_dir = [], dc_dataset_kind = [], dc_model_name = [], dc_max_files_per_run = 0\<rparr>"

lemma example_remote_ok: "remote_ok example_server ''g'' [] (dr_transport example_remote)"
  using example_pool
  by (simp add: remote_ok_def Let_def example_remote_def queued_once_def claim_expired_def fit_entry_def int32_range_def daemon_simps)

lemma example_remote_acquire:
  "acquire_pending (remote_transport (remote_on example_server (working_io 100) ''g'' [])) remote_config ''a'' 0 example_remote =
     ((acquire_response ''a'')\<lparr>ar_files := [file_token (queued_file ''f'' [] 0)], claim_lease_seconds := 60\<rparr>,
      example_remote\<lparr>dr_pending := [queued_file ''f'' ''a'' 0], dr_transport := (daemon_with [])\<lparr>pool := (pool (dr_transport example_remote))
        (''g'' := \<lparr>rs_registry = Some [], rs_pending = Some [queued_file ''f'' ''a'' 100, queued_file ''h'' ''b'' 90],
           rs_files = (\<lambda>_. True)\<rparr>)\<rparr>\<rparr>)"
  by (simp add: acquire_pending_def remote_transport_def remote_acquire_def send_post [OF example_pool] case_prod_unfold
      on_pool_def handle_acquire_def Let_def reader_simps json_int_def to_i64_def srv_claimable_def claim_expired_def eligible_def
      ftp_deliverable_def saving_queue_def working_io_def load_pending_def save_pending_def acquire_reply_def ok_reply_def
      reply_object_def is_object_def acquired_reply_def JStrings_def JInts_def legacy_token_def int_at_def json_num_def
      to_i32_def reflect_token_def file_token_def acquire_response_def example_remote_def remote_config_def daemon_simps)

definition example_host :: host where
  "example_host = \<lparr>h_stat = (\<lambda>_. None), h_now_utc = []\<rparr>"

theorem remote_trained_batch_witness:
  "map claim_mark (queue (pool (dr_transport (mark_trained (remote_transport (remote_on example_server (working_io 100) ''g'' []))
      example_host ''a'' [\<lparr>st_path = ''f'', st_start = - 1, st_count = - 1\<rparr>] [3]
      (snd (acquire_pending (remote_transport (remote_on example_server (working_io 100) ''g'' [])) remote_config ''a'' 0
        example_remote)))) ''g'')) = [((''h'', None), ''b'')]"
proof -
  let ?us = "[\<lparr>st_path = ''f'', st_start = - 1, st_count = - 1\<rparr>]"
  have us: "file_ranges ((acquire_response ''a'')\<lparr>ar_files := [file_token (queued_file ''f'' [] 0)], claim_lease_seconds := 60\<rparr>) = ?us"
    by (simp add: file_ranges_def file_token_def daemon_simps)
  have fit: "list_all fit_record (versions example_host ?us [3])"
    by (simp add: new_version_def fit_record_def int32_range_def)
  show ?thesis
    using remote_trained_batch [OF example_remote_ok _ example_remote_acquire, of example_host "[3]"] fit
    by (simp add: us Let_def example_remote_acquire ranges_def whole_paths_def token_units_def file_token_unit claim_mark_def
        pool_key_def) (simp add: example_remote_def claim_mark_def daemon_simps)
qed

theorem remote_released_batch_witness:
  "map claim_mark (queue (pool (dr_transport (release_units (remote_transport (remote_on example_server (working_io 100) ''g'' []))
      ''a'' [\<lparr>st_path = ''f'', st_start = - 1, st_count = - 1\<rparr>]
      (snd (acquire_pending (remote_transport (remote_on example_server (working_io 100) ''g'' [])) remote_config ''a'' 0
        example_remote)))) ''g'')) = [((''f'', None), []), ((''h'', None), ''b'')]"
proof -
  have "\<And>u. \<not> holds ''a'' u (queue (pool (dr_transport example_remote) (pool_key ''g'' [])))"
    by (simp add: holds_def example_remote_def daemon_simps)
  from remote_released_batch [OF example_remote_ok _ example_remote_acquire this] show ?thesis
    by (simp add: example_remote_acquire file_ranges_def file_token_def pool_key_def)
      (simp add: example_remote_def claim_mark_def daemon_simps)
qed

section \<open>Groups\<close>

lemma pool_key_parts:
  "valid_pool grp kind \<Longrightarrow> split_slash (pool_key grp kind) = grp # (if kind = [] then [] else [kind])"
  using valid_group_plain [of grp] kind_plain [of kind]
  by (auto simp: pool_key_def valid_pool_def split_slash_plain split_slash_last)

lemma pool_key_inj:
  assumes "valid_pool grp kind" and "valid_pool grp' kind'" and "pool_key grp kind = pool_key grp' kind'"
  shows "grp = grp' \<and> kind = kind'"
proof -
  have "grp # (if kind = [] then [] else [kind]) = grp' # (if kind' = [] then [] else [kind'])"
    using pool_key_parts [OF assms(1)] pool_key_parts [OF assms(2)] assms(3) by (simp only:)
  then show ?thesis by (simp split: if_splits)
qed

lemma route_valid:
  "route path = Some (grp, kind, action) \<Longrightarrow> kind = [] \<or> kind \<in> set dataset_kinds"
  by (auto simp: route_def split: list.splits if_splits)

text \<open>A path inside the directory of a group is a state file of that group's pools only.\<close>

lemma without_suffix_Some: "without_suffix suffix s = Some p \<Longrightarrow> s = p @ suffix"
  by (auto simp: without_suffix_def split: if_splits) (metis append_take_drop_id)

lemma starts_with_split: "starts_with p s \<longleftrightarrow> (\<exists>r. s = p @ r)"
  unfolding starts_with_def by (metis append_eq_conv_conj append_take_drop_id)

lemma state_file_in_group:
  assumes "in_group root grp canon" and "state_file_of root canon \<in> {Some (Queue_File key), Some (Records_File key)}"
    and "valid_group_name grp" and "key = pool_key grp' kind'" and "valid_pool grp' kind'"
  shows "grp' = grp"
proof -
  have g: "CHR ''/'' \<notin> set grp" and g': "CHR ''/'' \<notin> set grp'"
    using assms(3,5) valid_group_plain by (auto simp: valid_pool_def)
  obtain r where canon: "canon = root @ ''/'' @ r"
    using assms(2) by (auto simp: state_file_of_def starts_with_split split: if_splits)
  then have "without_suffix ''/pending_files.txt'' r = Some key \<or> without_suffix ''/data_registry.txt'' r = Some key"
    using assms(2) by (auto simp: state_file_of_def Let_def starts_with_split split: if_splits option.splits)
  then obtain rest where r: "r = key @ CHR ''/'' # rest" using without_suffix_Some by fastforce
  then have "r = grp \<or> (\<exists>q. r = grp @ CHR ''/'' # q)"
    using assms(1) canon by (auto simp: in_group_def Let_def starts_with_split)
  then obtain q where q: "r = grp @ CHR ''/'' # q" using r g by auto
  have "List.hd (split_slash r) = grp'"
    using r assms(4) split_slash_plain [OF g'] by (auto simp: pool_key_def)
  moreover have "List.hd (split_slash r) = grp" using q split_slash_plain [OF g] by simp
  ultimately show ?thesis by simp
qed

text \<open>C20: A request for one group never touches the queue or the records of another group. Within its group it
  leaves the pools of the other kinds alone too, except for a deletion with \<open>delete_files\<close> that names their queue or
  registry file: the check on what may be unlinked stops at the group's directory.\<close>

theorem pools_isolated:
  assumes "route (hr_path req) = Some (grp, kind, action)" and "valid_pool grp' kind'" and "(grp', kind') \<noteq> (grp, kind)"
  defines "key \<equiv> pool_key grp' kind'"
  shows "pool (snd (serve sv io req d)) key = pool d key \<or>
    grp' = grp \<and> (unlinks sv req (Queue_File key) \<or> unlinks sv req (Records_File key))"
proof (cases "valid_group_name grp \<and> (unlinks sv req (Queue_File key) \<or> unlinks sv req (Records_File key))")
  case True
  then obtain t f where "reaches sv grp f t" "f = Queue_File key \<or> f = Records_File key"
    using assms(1) by (auto simp: unlinks_def list_ex_iff)
  then obtain canon where "in_group (sv_root sv) grp canon"
    "state_file_of (sv_root sv) canon \<in> {Some (Queue_File key), Some (Records_File key)}"
    by (auto simp: reaches_def split: option.splits)
  from state_file_in_group [OF this _ _ assms(2)] True show ?thesis by (simp add: key_def)
next
  case False
  have "\<not> addressed req key"
    using pool_key_inj [OF assms(2), of grp kind] assms(1,3) route_valid [OF assms(1)]
    by (auto simp: addressed_def valid_pool_def key_def)
  moreover have "pool (snd (serve sv io req d)) key = pool d key" if "\<not> valid_group_name grp"
    using that assms(1) by (rule_tac serve_cases [of sv io req d]) auto
  ultimately show ?thesis using False serve_elsewhere by blast
qed

theorem pools_isolated_witness:
  "pool (snd (serve example_server (working_io 100) (example_request ''delete''
      (JObject [(''paths'', JStrings [''f'']), (''force'', JBool True)])) (daemon_with [queued_file ''f'' [] 0]))) ''g2'' =
    pool (daemon_with [queued_file ''f'' [] 0]) ''g2''"
proof -
  let ?req = "example_request ''delete'' (JObject [(''paths'', JStrings [''f'']), (''force'', JBool True)])"
  have r: "route (hr_path ?req) = Some (''g'', [], [''delete''])"
    by (simp add: example_request_def route_def dataset_kinds_def)
  have v: "valid_pool ''g2'' []" by (simp add: valid_pool_def valid_group_name_def Let_def is_digit_def)
  from pools_isolated [OF r v, of example_server "working_io 100"] show ?thesis by (simp add: pool_key_def)
qed

text \<open>The exception happens: a client queues the path of another kind's queue file, then deletes it with its file,
  and the claims of that pool are gone.\<close>

definition other_queue :: string where
  "other_queue = ''/data/g/encoder/pending_files.txt''"

lemma delete_empties_other_queue:
  defines "d \<equiv> daemon_with [queued_file other_queue [] 0, queued_file ''f'' ''a'' 90]"
  defines "d' \<equiv> snd (serve example_server (working_io 100) (example_request ''delete''
      (JObject [(''paths'', JStrings [other_queue]), (''delete_files'', JBool True)])) d)"
  shows "queue (pool d ''g/encoder'') \<noteq> []" and "queue (pool d' ''g/encoder'') = []"
proof -
  have s: "state_file_of ''/data'' other_queue = Some (Queue_File ''g/encoder'')"
    "in_group ''/data'' ''g'' other_queue" "other_queue \<noteq> []"
    by (simp_all add: state_file_of_def in_group_def inside_def without_suffix_def other_queue_def Let_def)
  show "queue (pool d ''g/encoder'') \<noteq> []" by (simp add: d_def daemon_simps)
  show "queue (pool d' ''g/encoder'') = []"
    using s
    by (simp add: d'_def d_def serve_def example_request_def route_def dataset_kinds_def valid_group_name_def Let_def
        is_digit_def handle_delete_def delete_request_targets_def reader_simps json_segment_targets_def whole_file_def
        srv_delete_target_def is_target_def segment_matches_def json_bool_def working_io_def load_pending_def
        load_registry_def save_pending_def file_exists_def unlink_file_def daemon_simps)
qed

text \<open>The directory of a group lies in the daemon's data directory: below it come one or two plain names, none of
  them empty, \<open>.\<close> or \<open>..\<close>.\<close>

theorem group_dir_confined:
  assumes "route path = Some (grp, kind, action)" and "group_dir data_dir grp kind = Some dir"
  shows "\<exists>names. dir = data_dir @ concat (map ((#) CHR ''/'') names) \<and> names \<noteq> [] \<and>
    (\<forall>n \<in> set names. CHR ''/'' \<notin> set n \<and> n \<notin> {[], ''.'', ''..''})"
proof -
  have v: "valid_group_name grp" using assms(2) by (simp add: group_dir_def split: if_splits)
  then have g: "CHR ''/'' \<notin> set grp" "grp \<notin> {[], ''.'', ''..''}"
    using valid_group_plain by (auto simp: valid_group_name_def Let_def is_digit_def)
  have k: "kind = [] \<or> CHR ''/'' \<notin> set kind \<and> kind \<notin> {[], ''.'', ''..''}"
    using route_valid [OF assms(1)] by (auto simp: dataset_kinds_def)
  show ?thesis
    using assms(2) v g k by (intro exI [where x = "grp # (if kind = [] then [] else [kind])"]) (auto simp: group_dir_def)
qed

theorem group_dir_confined_witness:
  "\<exists>names. ''/data/g/encoder'' = ''/data'' @ concat (map ((#) CHR ''/'') names) \<and> names \<noteq> [] \<and>
    (\<forall>n \<in> set names. CHR ''/'' \<notin> set n \<and> n \<notin> {[], ''.'', ''..''})"
proof -
  have "route ''/registry/g/encoder/queue'' = Some (''g'', ''encoder'', [''queue''])"
    by (simp add: route_def dataset_kinds_def)
  moreover have "group_dir ''/data'' ''g'' ''encoder'' = Some ''/data/g/encoder''"
    by (simp add: group_dir_def valid_group_name_def Let_def is_digit_def)
  ultimately show ?thesis by (rule group_dir_confined)
qed

section \<open>The client sees the shared queue\<close>

definition printable_entry :: "PendingEntry \<Rightarrow> bool" where
  "printable_entry e \<longleftrightarrow> pe_path e \<noteq> [] \<and> 0 \<le> pe_size_bytes e \<and> pe_size_bytes e < 2 ^ 64 \<and> int32_range (pe_num_entries e) \<and>
     int32_range (pe_segment_start e) \<and> int32_range (pe_segment_count e) \<and>
     - (2 ^ 63) \<le> pe_claimed_unix e \<and> pe_claimed_unix e < 2 ^ 63"

definition printable_record :: "DataVersion \<Rightarrow> bool" where
  "printable_record dv \<longleftrightarrow> data_file dv \<noteq> [] \<and> model_id dv = [] \<and> int32_range (num_samples dv) \<and>
     int32_range (dv_segment_start dv) \<and> int32_range (dv_segment_count dv)"

lemma read_entry_back: "printable_entry e \<Longrightarrow> read_entry (entry_json e) = e"
  by (simp add: printable_entry_def read_entry_def entry_json_def reader_simps json_num_size_def json_num_long_def to_i64_id)

lemma read_record_back: "printable_record dv \<Longrightarrow> read_record (record_json dv) = dv"
  by (simp add: printable_record_def read_record_def record_json_def reader_simps) (simp add: json_str_def)

lemma sent_objects: "is_object (entry_json e)" "is_object (record_json dv)"
    "printable_entry e \<Longrightarrow> pe_path e \<noteq> []" "printable_record dv \<Longrightarrow> data_file dv \<noteq> []"
  by (simp_all add: is_object_def entry_json_def record_json_def printable_entry_def printable_record_def)

lemma read_list_back:
  assumes "\<And>x. x \<in> set xs \<Longrightarrow> f (g x) = x \<and> is_object (g x) \<and> P x"
  shows "filter P (map f (filter is_object (map g xs))) = xs"
  using assms by (induction xs) simp_all

text \<open>What a remote trainer reads is the daemon's queue and its records, entry for entry and field for field (but
  the model of a record, which is not sent).\<close>

theorem remote_reads_store:
  assumes "valid_pool grp kind" and "list_all printable_entry (queue (pool d (pool_key grp kind)))"
    and "list_all printable_record (records (pool d (pool_key grp kind)))"
  shows "remote_load_pending (remote_on sv (working_io now) grp kind) d = Some (queue (pool d (pool_key grp kind))) \<and>
    remote_load_registry (remote_on sv (working_io now) grp kind) d = Some (records (pool d (pool_key grp kind)))"
proof
  let ?s = "pool d (pool_key grp kind)"
  have "filter (\<lambda>e. pe_path e \<noteq> []) (map read_entry (filter is_object (map entry_json (queue ?s)))) = queue ?s"
    by (rule read_list_back) (use assms(2) in \<open>simp add: list_all_iff read_entry_back sent_objects\<close>)
  then show "remote_load_pending (remote_on sv (working_io now) grp kind) d = Some (queue ?s)"
    by (simp add: remote_load_pending_def send_get [OF assms(1)] pool_on_pool handle_queue_def working_loads ok_reply_def
        reply_object_def is_object_def reader_simps)
  have "filter (\<lambda>dv. data_file dv \<noteq> []) (map read_record (filter is_object (map record_json (records ?s)))) = records ?s"
    by (rule read_list_back) (use assms(3) in \<open>simp add: list_all_iff read_record_back sent_objects\<close>)
  moreover have "entries_of (load_registry (working_io now) ?s) = records ?s"
    by (simp add: load_registry_def working_io_def records_def)
  ultimately show "remote_load_registry (remote_on sv (working_io now) grp kind) d = Some (records ?s)"
    by (simp add: remote_load_registry_def send_get [OF assms(1)] pool_on_pool handle_registry_def ok_reply_def
        reply_object_def is_object_def reader_simps)
qed

theorem remote_reads_store_witness:
  "remote_load_pending (remote_on example_server (working_io 100) ''g'' []) (daemon_with [queued_file ''f'' ''a'' 90]) =
     Some [queued_file ''f'' ''a'' 90]"
proof -
  have "list_all printable_entry (queue (pool (daemon_with [queued_file ''f'' ''a'' 90]) (pool_key ''g'' [])))"
    "list_all printable_record (records (pool (daemon_with [queued_file ''f'' ''a'' 90]) (pool_key ''g'' [])))"
    by (simp_all add: printable_entry_def int32_range_def daemon_simps)
  from remote_reads_store [OF example_pool this] show ?thesis by (simp add: daemon_with_def queue_def entries_of_def)
qed

section \<open>One queue, two transports\<close>

lemma working_store: "io_lock (working_io now)" "save_pending (working_io now) es s = (True, s\<lparr>rs_pending := Some es\<rparr>)"
    "save_registry (working_io now) dvs s = (True, s\<lparr>rs_registry := Some dvs\<rparr>)"
  by (simp_all add: working_io_def save_pending_def save_registry_def)

lemma assign_bounds:
  "length (snd (assign_segments model ts es)) \<le> length ts"
  "length (snd (assign_entries model ps n k es)) \<le> length es"
proof -
  show "length (snd (assign_segments model ts es)) \<le> length ts"
    by (induction ts arbitrary: es) (auto intro: le_SucI)
  show "length (snd (assign_entries model ps n k es)) \<le> length es"
    by (induction es arbitrary: k) (auto simp: case_prod_unfold intro: le_SucI)
qed

lemma unassign_bounds:
  "length (snd (snd (unassign_segments model force ts es))) + nat (fst (snd (unassign_segments model force ts es))) \<le> length ts \<and>
     0 \<le> fst (snd (unassign_segments model force ts es))"
  "length (snd (snd (unassign_entries model ps force es))) + nat (fst (snd (unassign_entries model ps force es))) \<le> length es \<and>
     0 \<le> fst (snd (unassign_entries model ps force es))"
proof -
  show "length (snd (snd (unassign_segments model force ts es))) + nat (fst (snd (unassign_segments model force ts es))) \<le> length ts \<and>
     0 \<le> fst (snd (unassign_segments model force ts es))"
  proof (induction ts arbitrary: es)
    case (Cons t ts)
    have "length (snd (snd (unassign_segments model force ts es))) + nat (fst (snd (unassign_segments model force ts es))) \<le> length ts"
      "0 \<le> fst (snd (unassign_segments model force ts es))" for es using Cons.IH by blast+
    then show ?case by (auto simp: Let_def case_prod_unfold nat_add_distrib intro: le_SucI split: option.split)
  qed simp
  show "length (snd (snd (unassign_entries model ps force es))) + nat (fst (snd (unassign_entries model ps force es))) \<le> length es \<and>
     0 \<le> fst (snd (unassign_entries model ps force es))"
    by (induction es) (auto simp: case_prod_unfold nat_add_distrib)
qed

lemma read_status_back: "read_requeue_status (requeue_text st) = st"
  by (cases st) (simp_all add: read_requeue_status_def requeue_text_def)

lemma read_back_reply: "reply_object (Some (ok_reply ms)) = Some (JObject ms)"
  by (simp add: reply_object_def ok_reply_def is_object_def)

lemma int32_zero: "int32_range 0"
  by (simp add: int32_range_def)

lemma remote_assign_local:
  fixes sv :: server and now :: int and paths :: "string list"
  assumes "valid_pool grp kind" and "model \<noteq> []" and "is_safe_model_name model" and "int32_range count"
    and "list_all fit_target segments" and "int (length (queue s)) < 2 ^ 31" and "int (length segments) < 2 ^ 31"
    and "s = pool d (pool_key grp kind)"
  defines "r \<equiv> remote_assign (remote_on sv (working_io now) grp kind) model paths count segments d"
  shows "pool (snd r) (pool_key grp kind) = snd (assign model paths count segments (working_io now) s)"
    and "fst r = (fst (assign model paths count segments (working_io now) s))\<lparr>as_segments := []\<rparr>"
proof -
  let ?body = "JObject [(''model_name'', JString model), (''paths'', JStrings paths), (''count'', JInt count),
    (''segments'', segments_json segments)]"
  have t: "json_segment_targets ?body ''segments'' = segments"
    using assms(5) by (intro read_targets) (simp_all add: list_all_iff fit_target_def)
  have b: "json_string ?body ''model_name'' = model" "json_string_array ?body ''paths'' = paths" "json_int ?body ''count'' 0 = count"
    using assms(4) by (simp_all add: reader_simps)
  have n: "int32_range (int (length (snd (assign_segments model segments (queue s)))))"
    "int32_range (int (length (snd (assign_entries model paths count 0 (queue s)))))"
    using assms(6,7) assign_bounds(1) [of model segments "queue s"] assign_bounds(2) [of model paths count 0 "queue s"]
    by (simp_all add: int32_range_def)
  show "pool (snd r) (pool_key grp kind) = snd (assign model paths count segments (working_io now) s)"
    using assms(2,3)
    by (simp add: r_def remote_assign_def send_post [OF assms(1)] case_prod_unfold pool_on_pool handle_assign_def b t Let_def
        assms(8) [symmetric] working_loads saving_working assign_def working_store)
  show "fst r = (fst (assign model paths count segments (working_io now) s))\<lparr>as_segments := []\<rparr>"
    using assms(2,3) n
    by (simp add: r_def remote_assign_def send_post [OF assms(1)] case_prod_unfold pool_on_pool handle_assign_def b t Let_def
        assms(8) [symmetric] working_loads saving_working assign_def working_store read_back_reply reader_simps int32_zero)
qed

lemma remote_unassign_local:
  fixes sv :: server and now :: int and paths :: "string list" and force :: bool
  assumes "valid_pool grp kind" and "model \<noteq> []" and "is_safe_model_name model"
    and "list_all fit_target segments" and "int (length (queue s)) < 2 ^ 31" and "int (length segments) < 2 ^ 31"
    and "s = pool d (pool_key grp kind)"
  defines "r \<equiv> remote_unassign (remote_on sv (working_io now) grp kind) model paths force segments d"
  shows "pool (snd r) (pool_key grp kind) = snd (unassign model paths force segments (working_io now) s)"
    and "fst r = (fst (unassign model paths force segments (working_io now) s))\<lparr>un_segments := []\<rparr>"
proof -
  let ?body = "JObject [(''model_name'', JString model), (''paths'', JStrings paths), (''force'', JBool force),
    (''segments'', segments_json segments)]"
  have t: "json_segment_targets ?body ''segments'' = segments"
    using assms(4) by (intro read_targets) (simp_all add: list_all_iff fit_target_def)
  have b: "json_string ?body ''model_name'' = model" "json_string_array ?body ''paths'' = paths"
    "json_bool ?body ''force'' False = force"
    by (simp_all add: reader_simps)
  have n: "int32_range (int (length (snd (snd (unassign_segments model force segments (queue s))))))"
    "int32_range (int (length (snd (snd (unassign_entries model paths force (queue s))))))"
    "int32_range (fst (snd (unassign_segments model force segments (queue s))))"
    "int32_range (fst (snd (unassign_entries model paths force (queue s))))"
    using assms(5,6) unassign_bounds(1) [of model force segments "queue s"] unassign_bounds(2) [of model paths force "queue s"]
    unfolding int32_range_def by linarith+
  show "pool (snd r) (pool_key grp kind) = snd (unassign model paths force segments (working_io now) s)"
    using assms(2,3)
    by (simp add: r_def remote_unassign_def send_post [OF assms(1)] case_prod_unfold pool_on_pool handle_unassign_def b t Let_def
        assms(7) [symmetric] working_loads saving_working unassign_def working_store)
  show "fst r = (fst (unassign model paths force segments (working_io now) s))\<lparr>un_segments := []\<rparr>"
    using assms(2,3) n
    by (simp add: r_def remote_unassign_def send_post [OF assms(1)] case_prod_unfold pool_on_pool handle_unassign_def b t Let_def
        assms(7) [symmetric] working_loads saving_working unassign_def working_store read_back_reply reader_simps int32_zero)
qed

lemma remote_requeue_local:
  fixes sv :: server and now :: int and model :: string
  assumes "valid_pool grp kind" and "paths \<noteq> [] \<or> all_files" and "s = pool d (pool_key grp kind)"
  defines "r \<equiv> remote_requeue_trained (remote_on sv (working_io now) grp kind) paths all_files model d"
  shows "pool (snd r) (pool_key grp kind) = snd (requeue_trained paths all_files model (working_io now) s)"
    and "fst r = fst (requeue_trained paths all_files model (working_io now) s)"
proof -
  let ?body = "JObject [(''paths'', JStrings paths), (''all'', JBool all_files), (''model_name'', JString model)]"
  let ?l = "requeue_trained paths all_files model (working_io now) s"
  have b: "json_string_array ?body ''paths'' = paths" "json_bool ?body ''all'' False = all_files"
    "json_string ?body ''model_name'' = model"
    by (simp_all add: reader_simps)
  have ok: "rq_ok (fst ?l)"
    by (simp add: requeue_trained_def requeue_locked_def requeue_finish_def Let_def working_store case_prod_unfold)
  have d: "map (\<lambda>obj. (json_str obj ''path'', read_requeue_status (json_str obj ''status'')))
      (filter is_object (map (\<lambda>x. JObject [(''path'', JString (fst x)), (''status'', JString (requeue_text (snd x)))]) ds)) = ds" for ds
    by (induction ds) (auto simp: is_object_def reader_simps read_status_back)
  show "pool (snd r) (pool_key grp kind) = snd ?l"
    using assms(2)
    by (auto simp: r_def remote_requeue_trained_def send_post [OF assms(1)] case_prod_unfold pool_on_pool handle_requeue_def b
        Let_def assms(3) [symmetric])
  have "handle_requeue (working_io now) (pool_key grp kind) ?body s =
      (ok_reply [(''requeued'', JInt (requeue_count Requeued (rq_details (fst ?l)))),
        (''already_pending'', JInt (requeue_count Already_Pending (rq_details (fst ?l)))),
        (''not_found'', JInt (requeue_count Requeue_Not_Found (rq_details (fst ?l)))),
        (''details'', JArray (map (\<lambda>x. JObject [(''path'', JString (fst x)), (''status'', JString (requeue_text (snd x)))])
          (rq_details (fst ?l))))], snd ?l)"
    using assms(2) ok by (auto simp: handle_requeue_def b Let_def case_prod_unfold)
  then have "fst r = \<lparr>rq_ok = True, rq_details = rq_details (fst ?l)\<rparr>"
    by (simp add: r_def remote_requeue_trained_def send_post [OF assms(1)] case_prod_unfold pool_on_pool
        assms(3) [symmetric] read_back_reply reader_simps d)
  then show "fst r = fst ?l" using ok by (cases "fst ?l") simp
qed

text \<open>C14: Assigning, unassigning and re-queueing over the network leave the queue and the records as the same call on the
  daemon's machine would, and report the same numbers, paths and outcomes (without the list of ranges).\<close>

theorem remote_is_local:
  fixes sv :: server and now :: int and d :: daemon
  assumes "valid_pool grp kind" and "model \<noteq> []" and "is_safe_model_name model" and "int32_range count"
    and "list_all fit_target segments" and "int (length (queue (pool d (pool_key grp kind)))) < 2 ^ 31"
    and "int (length segments) < 2 ^ 31" and "paths \<noteq> [] \<or> all_files"
  defines "rt \<equiv> remote_on sv (working_io now) grp kind" and "s \<equiv> pool d (pool_key grp kind)"
  shows "(case remote_assign rt model paths count segments d of (res, d') \<Rightarrow>
      (case assign model paths count segments (working_io now) s of (res', s') \<Rightarrow>
        pool d' (pool_key grp kind) = s' \<and> res = res'\<lparr>as_segments := []\<rparr>)) \<and>
    (case remote_unassign rt model paths force segments d of (res, d') \<Rightarrow>
      (case unassign model paths force segments (working_io now) s of (res', s') \<Rightarrow>
        pool d' (pool_key grp kind) = s' \<and> res = res'\<lparr>un_segments := []\<rparr>)) \<and>
    (case remote_requeue_trained rt paths all_files model d of (res, d') \<Rightarrow>
      (case requeue_trained paths all_files model (working_io now) s of (res', s') \<Rightarrow>
        pool d' (pool_key grp kind) = s' \<and> res = res'))"
  unfolding rt_def s_def case_prod_unfold
  using remote_assign_local [OF assms(1-7) refl, where sv = sv and now = now and paths = paths]
    remote_unassign_local [OF assms(1-3,5-7) refl, where sv = sv and now = now and paths = paths and force = force]
    remote_requeue_local [OF assms(1,8) refl, where sv = sv and now = now and model = model]
  by blast

theorem remote_is_local_witness:
  "queue (pool (snd (remote_assign (remote_on example_server (working_io 100) ''g'' []) ''m'' [''f''] 0 []
      (daemon_with [queued_file ''f'' [] 0]))) ''g'') =
    [(queued_file ''f'' [] 0)\<lparr>pe_model_name := ''m''\<rparr>]"
proof -
  have p: "is_safe_model_name ''m''" "int32_range 0"
    "int (length (queue (pool (daemon_with [queued_file ''f'' [] 0]) (pool_key ''g'' [])))) < 2 ^ 31"
    by (simp_all add: is_safe_model_name_def int32_range_def daemon_simps)
  let ?d = "daemon_with [queued_file ''f'' [] 0]"
  have "pool (snd (remote_assign (remote_on example_server (working_io 100) ''g'' []) ''m'' [''f''] 0 [] ?d)) ''g'' =
      snd (assign ''m'' [''f''] 0 [] (working_io 100) (pool ?d ''g''))"
    using remote_is_local [OF example_pool _ p(1,2) _ p(3), where segments = "[]" and paths = "[''f'']" and sv = example_server
      and now = 100 and all_files = False]
    by (simp add: case_prod_unfold pool_key_def)
  then show ?thesis
    by (simp add: assign_def Let_def working_store assign_match_def load_pending_def working_io_def save_pending_def daemon_simps)
qed

section \<open>Lost replies\<close>

lemma srv_claim_all:
  assumes "e \<in> set es" and "srv_claimable sv run model e" and "ftp_deliverable sv e"
    and "taken + int (length es) \<le> limit"
  shows "pending_unit e \<in> target_unit ` set (snd (srv_claim sv run model limit taken es))"
  using assms
proof (induction es arbitrary: taken)
  case (Cons x es)
  show ?case
  proof (cases "e = x")
    case True
    then show ?thesis using Cons.prems by (simp add: case_prod_unfold claimed_target_unit)
  next
    case False
    then have e: "e \<in> set es" using Cons.prems(1) by simp
    have "pending_unit e \<in> target_unit ` set (snd (srv_claim sv run model limit k es))" if "k \<le> taken + 1" for k
      using Cons.IH [OF e Cons.prems(2,3), of k] Cons.prems(4) that by simp
    from this [of taken] this [of "taken + 1"] show ?thesis by (simp add: case_prod_unfold)
  qed
qed simp

lemma srv_claim_taken:
  "u \<in> target_unit ` set (snd (srv_claim sv run model limit taken es)) \<Longrightarrow>
     \<exists>e \<in> set (fst (srv_claim sv run model limit taken es)).
       pending_unit e = u \<and> pe_run_id e = run \<and> eligible model e \<and> ftp_deliverable sv e"
proof (induction es arbitrary: taken)
  case (Cons x es)
  show ?case
  proof (cases "srv_claimable sv run model x \<and> taken < limit \<and> ftp_deliverable sv x")
    case True
    then show ?thesis using Cons.prems Cons.IH [of "taken + 1"]
      by (auto simp: case_prod_unfold claimed_target_unit pending_unit_def srv_claimable_def eligible_def ftp_deliverable_def
          split: option.split)
  next
    case False
    then show ?thesis using Cons.prems Cons.IH [of taken] by (auto simp: case_prod_unfold)
  qed
qed simp

lemma again_claimed:
  assumes "u \<in> target_unit ` set (snd (srv_claim sv run model limit 0 es))"
  shows "u \<in> target_unit ` set (snd (srv_claim sv run model (int (length es)) 0 (fst (srv_claim sv run model limit 0 es))))"
proof -
  obtain e where e: "e \<in> set (fst (srv_claim sv run model limit 0 es))" "pending_unit e = u" "pe_run_id e = run"
    "eligible model e" "ftp_deliverable sv e" using srv_claim_taken [OF assms] by blast
  have "length (fst (srv_claim sv run model limit 0 es)) = length es"
    using srv_claim_units_same [of sv run model limit 0 es] by (metis length_map)
  then show ?thesis using srv_claim_all [OF e(1) _ e(5), of run model 0 "int (length es)"] e by (simp add: srv_claimable_def)
qed

definition reply_lost :: "remote \<Rightarrow> remote" where
  "reply_lost rt = rt\<lparr>rt_net := Reply_Lost\<rparr>"

lemma reply_lost_send: "send (reply_lost (remote_on sv io grp kind)) m a body d = (None, snd (send (remote_on sv io grp kind) m a body d))"
  by (simp add: send_def reply_lost_def remote_on_def)

lemma reply_lost_acquire:
  "remote_acquire (reply_lost (remote_on sv io grp kind)) run n model d =
     ((acquire_response run)\<lparr>ar_failed := True\<rparr>, snd (remote_acquire (remote_on sv io grp kind) run n model d))"
  by (simp add: remote_acquire_def reply_lost_send reply_object_def case_prod_unfold)

text \<open>C13: When the reply of an acquire is lost, the trainer sees a failed acquire while the daemon has recorded the claim;
  asking again as the same run returns every unit of the lost reply, so no claim is stranded by the network.\<close>

theorem lost_acquire_recovered:
  fixes now :: int
  assumes "remote_ok sv grp kind d" and "run \<noteq> []"
  defines "rt \<equiv> remote_on sv (working_io now) grp kind"
  shows "case remote_acquire (reply_lost rt) run n model d of (lost, d1) \<Rightarrow>
    ar_failed lost \<and> ar_files lost = [] \<and>
    set (token_units (fst (remote_acquire rt run n model d))) \<subseteq> set (token_units (fst (remote_acquire rt run 0 model d1)))"
proof -
  let ?key = "pool_key grp kind"
  have pool: "valid_pool grp kind" and fits: "list_all fit_entry (queue (pool d ?key))"
    using assms(1) by (simp_all add: remote_ok_def Let_def list_all_iff)
  have fit_ts: "list_all fit_target (snd (srv_claim sv run model limit 0 es))" if "list_all fit_entry es" for limit es
    using srv_claim_targets [of _ sv run model limit 0 es] that by (fastforce simp: list_all_iff fit_target_def fit_entry_def)
  obtain limit where l: "queue (pool (snd (remote_acquire rt run n model d)) ?key) = fst (srv_claim sv run model limit 0 (queue (pool d ?key)))"
    "ar_files (fst (remote_acquire rt run n model d)) =
       ar_files (acquired_reply run (re_body (acquire_reply sv run (snd (srv_claim sv run model limit 0 (queue (pool d ?key)))))))"
    unfolding rt_def by (rule remote_acquire_effect [OF pool assms(2)])
  let ?q = "queue (pool d ?key)" and ?d1 = "snd (remote_acquire rt run n model d)"
  let ?q1 = "fst (srv_claim sv run model limit 0 ?q)"
  have fits1: "list_all fit_entry ?q1"
    using srv_claim_entries [of _ sv run model limit 0 ?q] fits by (fastforce simp: list_all_iff fit_entry_def)
  have first: "set (token_units (fst (remote_acquire rt run n model d))) = target_unit ` set (snd (srv_claim sv run model limit 0 ?q))"
    unfolding token_units_def l(2) reply_units [OF fit_ts [OF fits]] by simp
  have all: "ar_files (fst (remote_acquire rt run 0 model ?d1)) =
      ar_files (acquired_reply run (re_body (acquire_reply sv run (snd (srv_claim sv run model (int (length ?q1)) 0 ?q1)))))"
    unfolding rt_def using remote_acquire_all [OF pool assms(2)] l(1) by (simp add: rt_def)
  have len: "length ?q1 = length ?q" using srv_claim_units_same [of sv run model limit 0 ?q] by (metis length_map)
  have second: "set (token_units (fst (remote_acquire rt run 0 model ?d1))) =
      target_unit ` set (snd (srv_claim sv run model (int (length ?q)) 0 ?q1))"
    unfolding token_units_def all reply_units [OF fit_ts [OF fits1]] len by simp
  have "set (token_units (fst (remote_acquire rt run n model d))) \<subseteq> set (token_units (fst (remote_acquire rt run 0 model ?d1)))"
    unfolding first second using again_claimed by blast
  then show ?thesis by (simp add: rt_def reply_lost_acquire) (simp add: acquire_response_def)
qed

theorem lost_acquire_recovered_witness:
  "ar_failed (fst (remote_acquire (reply_lost (remote_on example_server (working_io 100) ''g'' [])) ''a'' 0 []
     (dr_transport example_remote)))"
  using lost_acquire_recovered [OF example_remote_ok, of "''a''" 100 0 "[]"] by (simp add: case_prod_unfold)

section \<open>Session numbers\<close>

text \<open>The daemon numbers the sessions of a run one after the other: from a fresh counter, the \<open>k\<close>-th request gets
  number \<open>k\<close>, whatever other runs ask for in between, as long as no more than \<open>2^31 - 1\<close> are handed out.\<close>

theorem session_numbers_follow:
  assumes "cs key = None" and "int (length (filter ((=) key) keys)) < 2147483647"
  shows "fst (next_number key (foldl (\<lambda>cs k. snd (next_number k cs)) cs keys)) = int (length (filter ((=) key) keys)) + 1"
proof -
  have "foldl (\<lambda>cs k. snd (next_number k cs)) cs keys key =
      (if filter ((=) key) keys = [] then None else Some (int (length (filter ((=) key) keys))))"
    using assms
  proof (induction keys rule: rev_induct)
    case (snoc k keys)
    then show ?case by (cases "k = key") (auto simp: next_number_def Let_def split: if_splits)
  qed simp
  then show ?thesis using assms(2) by (simp add: next_number_def Let_def)
qed

theorem session_numbers_follow_witness:
  "fst (next_number ''m|r'' (foldl (\<lambda>cs k. snd (next_number k cs)) (\<lambda>_. None) [''m|r'', ''x'', ''m|r''])) = 3"
  using session_numbers_follow [of "\<lambda>_. None" "''m|r''" "[''m|r'', ''x'', ''m|r'']"] by simp

end
