(* ===== verification/Mns_Json.thy ===== *)
theory Mns_Json
  imports Sample_Json "HOL-Library.List_Lexorder" "HOL-Library.Char_ord"
begin

text \<open>
  The hand-written JSON helpers of \<open>src/src/ModelNameService.cpp\<close>: a value is found by searching the text for its
  key. A position in the text is the rest of it; \<open>size_t\<close> is \<open>nat\<close>, conversions to it are modulo \<open>2^64\<close>.
\<close>

section \<open>Doubles\<close>

text \<open>A finite \<open>double\<close> is a whole number of units \<open>2^-1074\<close>, with a sign of its own.\<close>

datatype any_double = Dbl bool int | Dbl_Inf bool | Dbl_NaN bool

definition DBL_UNITS :: int where "DBL_UNITS = 2 ^ 1074"

definition DBL_ZERO :: any_double where "DBL_ZERO = Dbl False 0"

definition round_dbl :: "int \<Rightarrow> int \<Rightarrow> int" where
  "round_dbl n d =
     (let k = log2_floor (n * DBL_UNITS div d) - 52 in div_even (n * DBL_UNITS) (d * 2 ^ k) * 2 ^ k)"

text \<open>As \<open>to_float\<close>: \<open>None\<close> when \<open>strtod\<close> reports \<open>ERANGE\<close>.\<close>

definition to_double :: "int \<Rightarrow> int \<Rightarrow> int option" where
  "to_double n d =
     (let r = round_dbl n d in
      if r \<ge> 2 ^ 2098 then None
      else if div_even (2 * (n * DBL_UNITS)) d < 2 ^ 53 \<and> n * DBL_UNITS mod d \<noteq> 0 then None
      else Some r)"

definition stod :: "string \<Rightarrow> any_double option" where
  "stod value =
     (case signed_prefix value of (neg, s) \<Rightarrow>
        let word = map to_lower (take 3 s) in
        if word = ''inf'' then Some (Dbl_Inf neg)
        else if word = ''nan'' then Some (Dbl_NaN neg)
        else
          case (if starts_with ''0x'' (map to_lower s) then hex_prefix (drop 2 s) else decimal_prefix s) of
            None \<Rightarrow> None
          | Some (n, d) \<Rightarrow> map_option (Dbl neg) (to_double n d))"

text \<open>\<open>static_cast<float>\<close> and back.\<close>

definition double_to_float :: "any_double \<Rightarrow> any_float" where
  "double_to_float x =
     (case x of
        Dbl neg u \<Rightarrow> (let r = round_units u DBL_UNITS in if r \<ge> 2 ^ 277 then Infinite neg else Finite (F32 neg r))
      | Dbl_Inf neg \<Rightarrow> Infinite neg
      | Dbl_NaN neg \<Rightarrow> Not_A_Number neg)"

definition float_to_dbl :: "any_float \<Rightarrow> any_double" where
  "float_to_dbl f =
     (case f of
        Finite (F32 neg u) \<Rightarrow> Dbl neg (u * 2 ^ 925)
      | Infinite neg \<Rightarrow> Dbl_Inf neg
      | Not_A_Number neg \<Rightarrow> Dbl_NaN neg)"

text \<open>Streamed with the default precision of 6.\<close>

definition print_double :: "any_double \<Rightarrow> string" where
  "print_double x =
     (case x of
        Dbl neg u \<Rightarrow> (if neg then ''-'' else []) @ format_g6 (nat u) (nat DBL_UNITS)
      | Dbl_Inf neg \<Rightarrow> (if neg then ''-inf'' else ''inf'')
      | Dbl_NaN neg \<Rightarrow> (if neg then ''-nan'' else ''nan''))"

text \<open>The literal \<open>n / d\<close>, as a \<open>double\<close>.\<close>

definition dbl_literal :: "int \<Rightarrow> int \<Rightarrow> any_double" where
  "dbl_literal n d = Dbl False (round_dbl n d)"

section \<open>Writing\<close>

definition mns_esc_char :: "char \<Rightarrow> string" where
  "mns_esc_char c =
     (if c = QUOTE then [BSLASH, QUOTE]
      else if c = BSLASH then [BSLASH, BSLASH]
      else if c = NL then [BSLASH, CHR ''n'']
      else if c = CR then [BSLASH, CHR ''r'']
      else if c = CHR 0x09 then [BSLASH, CHR ''t'']
      else if (of_char c :: nat) < 0x20 then
        [BSLASH] @ ''u00'' @ [''0123456789abcdef'' ! (of_char c div 16), ''0123456789abcdef'' ! (of_char c mod 16)]
      else [c])"

definition mns_escape :: "string \<Rightarrow> string" where
  "mns_escape s = concat (map mns_esc_char s)"

text \<open>\<open>"key":"value"\<close> and \<open>"key":\<close>, and what an error reply is.\<close>

definition key_text :: "string \<Rightarrow> string" where
  "key_text key = [QUOTE] @ key @ [QUOTE] @ '':''"

definition text_field :: "string \<Rightarrow> string \<Rightarrow> string" where
  "text_field key s = key_text key @ [QUOTE] @ mns_escape s @ [QUOTE]"

definition bool_text :: "bool \<Rightarrow> string" where
  "bool_text b = (if b then ''true'' else ''false'')"

definition error_body :: "string \<Rightarrow> string" where
  "error_body msg = ''{'' @ key_text ''error'' @ [QUOTE] @ msg @ [QUOTE] @ ''}''"

section \<open>Finding\<close>

text \<open>What follows the first occurrence.\<close>

fun find_after :: "string \<Rightarrow> string \<Rightarrow> string option" where
  "find_after needle [] = (if needle = [] then Some [] else None)"
| "find_after needle (c # cs) =
     (if starts_with needle (c # cs) then Some (drop (length needle) (c # cs)) else find_after needle cs)"

fun unquote :: "string \<Rightarrow> string" where
  "unquote [] = []"
| "unquote [c] = (if c = QUOTE then [] else [c])"
| "unquote (c # e # cs) =
     (if c = BSLASH then
        (if e = CHR ''n'' then NL else if e = CHR ''r'' then CR else if e = CHR ''t'' then CHR 0x09 else e) # unquote cs
      else if c = QUOTE then [] else c # unquote (e # cs))"

definition mns_string :: "string \<Rightarrow> string \<Rightarrow> string" where
  "mns_string body key = (case find_after (key_text key @ [QUOTE]) body of None \<Rightarrow> [] | Some r \<Rightarrow> unquote r)"

definition mns_has_string_key :: "string \<Rightarrow> string \<Rightarrow> bool" where
  "mns_has_string_key body key \<longleftrightarrow> find_after (key_text key @ [QUOTE]) body \<noteq> None"

definition mns_int :: "string \<Rightarrow> string \<Rightarrow> int \<Rightarrow> int" where
  "mns_int body key def =
     (case find_after (key_text key) body of
        None \<Rightarrow> def
      | Some r \<Rightarrow> (case stoi r of Some i \<Rightarrow> i | None \<Rightarrow> def))"

definition mns_double :: "string \<Rightarrow> string \<Rightarrow> any_double \<Rightarrow> any_double" where
  "mns_double body key def =
     (case find_after (key_text key) body of
        None \<Rightarrow> def
      | Some r \<Rightarrow> (case stod r of Some x \<Rightarrow> x | None \<Rightarrow> def))"

definition mns_bool :: "string \<Rightarrow> string \<Rightarrow> bool \<Rightarrow> bool" where
  "mns_bool body key def =
     (case find_after (key_text key) body of
        None \<Rightarrow> def
      | Some r \<Rightarrow> if starts_with ''true'' r then True else if starts_with ''false'' r then False else def)"

definition to_size :: "int \<Rightarrow> nat" where
  "to_size i = nat (i mod 2 ^ 64)"

section \<open>Blocks\<close>

text \<open>From the opening bracket to the one that closes it; brackets in strings do not count.\<close>

fun block :: "char \<Rightarrow> char \<Rightarrow> nat \<Rightarrow> bool \<Rightarrow> string \<Rightarrow> string option" where
  "block op cl depth in_str [] = None"
| "block op cl depth True (c # cs) =
     (if c = BSLASH then
        (case cs of [] \<Rightarrow> None | e # cs' \<Rightarrow> map_option (\<lambda>b. c # e # b) (block op cl depth True cs'))
      else map_option ((#) c) (block op cl depth (c \<noteq> QUOTE) cs))"
| "block op cl depth False (c # cs) =
     (if c = QUOTE then map_option ((#) c) (block op cl depth True cs)
      else if c = op then map_option ((#) c) (block op cl (Suc depth) False cs)
      else if c = cl then (if depth = 1 then Some [c] else map_option ((#) c) (block op cl (depth - 1) False cs))
      else map_option ((#) c) (block op cl depth False cs))"

definition extract_object :: "string \<Rightarrow> string \<Rightarrow> string" where
  "extract_object s key =
     (case find_after (key_text key @ ''{'') s of
        None \<Rightarrow> ''{}''
      | Some r \<Rightarrow> (case block CHR ''{'' CHR ''}'' 0 False (CHR ''{'' # r) of Some b \<Rightarrow> b | None \<Rightarrow> ''{}''))"

definition extract_array :: "string \<Rightarrow> string \<Rightarrow> string" where
  "extract_array s key =
     (case find_after (key_text key @ ''['') s of
        None \<Rightarrow> ''[]''
      | Some r \<Rightarrow> (case block CHR ''['' CHR '']'' 0 False (CHR ''['' # r) of Some b \<Rightarrow> b | None \<Rightarrow> ''[]''))"

lemma block_nonempty: "block op cl depth in_str s = Some b \<Longrightarrow> b \<noteq> []"
  by (induction op cl depth in_str s arbitrary: b rule: block.induct) (auto split: if_splits list.splits)

function split_array_objects :: "string \<Rightarrow> string list" where
  "split_array_objects arr =
     (let s = dropWhile (\<lambda>c. c \<noteq> CHR ''{'') arr in
      if s = [] then []
      else case block CHR ''{'' CHR ''}'' 0 False s of
        None \<Rightarrow> []
      | Some b \<Rightarrow> b # split_array_objects (drop (length b) s))"
  by pat_completeness auto
termination
proof (relation "measure length", goal_cases)
  case (2 arr s b)
  then have "b \<noteq> []" "s \<noteq> []" using block_nonempty by blast+
  moreover have "length s \<le> length arr" using 2(1) by (simp add: length_dropWhile_le)
  ultimately show ?case by (cases b; cases s) simp_all
qed simp

declare split_array_objects.simps [simp del]

text \<open>\<open>parse_string_map\<close>: an escape stands for its second character, whatever it is.\<close>

fun quoted :: "string \<Rightarrow> string \<times> string" where
  "quoted [] = ([], [])"
| "quoted [c] = (if c = QUOTE then ([], [c]) else ([c], []))"
| "quoted (c # e # cs) =
     (if c = QUOTE then ([], c # e # cs)
      else if c = BSLASH then apfst ((#) e) (quoted cs)
      else apfst ((#) c) (quoted (e # cs)))"

lemma quoted_rest: "length (snd (quoted s)) \<le> length s"
  by (induction s rule: quoted.induct) auto

text \<open>A \<open>std::map\<close> is the list of its pairs in the order of the keys.\<close>

fun put :: "string \<Rightarrow> string \<Rightarrow> (string \<times> string) list \<Rightarrow> (string \<times> string) list" where
  "put k v [] = [(k, v)]"
| "put k v ((k', v') # m) =
     (if k = k' then (k, v) # m else if k < k' then (k, v) # (k', v') # m else (k', v') # put k v m)"

function map_members :: "string \<Rightarrow> (string \<times> string) list \<Rightarrow> (string \<times> string) list" where
  "map_members s m =
     (if s = [] \<or> List.hd s = CHR ''}'' then m
      else
        let s1 = dropWhile (\<lambda>c. c = CHR '','' \<or> c = CHR '' '') s in
        if s1 = [] \<or> List.hd s1 = CHR ''}'' then m
        else if List.hd s1 \<noteq> QUOTE then map_members (List.tl s1) m
        else
          let key = fst (quoted (List.tl s1));
              s2 = dropWhile (\<lambda>c. c \<noteq> QUOTE) (drop 1 (snd (quoted (List.tl s1))))
          in if s2 = [] then m
             else map_members (drop 1 (snd (quoted (List.tl s2))))
                    (if key = [] then m else put key (fst (quoted (List.tl s2))) m))"
  by pat_completeness auto
termination
proof (relation "measure (length \<circ> fst)", goal_cases)
  case (2 s m s1)
  have "length s1 \<le> length s" unfolding 2(2) by (rule length_dropWhile_le)
  then show ?case using 2(3) by (cases s1) simp_all
next
  case (3 s m s1 key s2)
  have "length s1 \<le> length s" "length s2 \<le> length (drop 1 (snd (quoted (List.tl s1))))"
    unfolding 3(2,6) by (rule length_dropWhile_le)+
  moreover have "0 < length s1" using 3(3) by auto
  moreover note quoted_rest [of "List.tl s1"] quoted_rest [of "List.tl s2"]
  ultimately have "length (drop 1 (snd (quoted (List.tl s2)))) < length s"
    unfolding length_tl length_drop by linarith
  then show ?case by simp
qed simp

declare map_members.simps [simp del]

definition parse_string_map :: "string \<Rightarrow> (string \<times> string) list" where
  "parse_string_map obj = map_members (drop 1 (dropWhile (\<lambda>c. c \<noteq> CHR ''{'') obj)) []"

section \<open>Names\<close>

definition mns_valid_name :: "string \<Rightarrow> bool" where
  "mns_valid_name name \<longleftrightarrow>
     (let low = (\<lambda>c. CHR ''a'' \<le> c \<and> c \<le> CHR ''z'' \<or> is_digit c) in
      2 \<le> length name \<and> length name \<le> 128 \<and> low (List.hd name) \<and>
      list_all (\<lambda>c. low c \<or> c = CHR ''-'' \<or> c = CHR ''.'') (List.tl name))"

definition zero_pad2 :: "int \<Rightarrow> string" where
  "zero_pad2 n = (let s = int_to_string n in if length s < 2 then ''0'' @ s else s)"

end
