(* ===== verification/Mns_Record.thy ===== *)
theory Mns_Record
  imports Mns_Json
begin

text \<open>
  The records of the model name service (\<open>src/src/ModelNameService.hpp\<close>) and their JSON text
  (\<open>src/src/ModelNameService.cpp\<close>).
\<close>

section \<open>Records\<close>

record ArtifactLocation =
  al_host :: string
  al_path :: string
  al_checksum :: string
  al_format :: string

definition no_artifact :: ArtifactLocation where
  "no_artifact = \<lparr>al_host = [], al_path = [], al_checksum = [], al_format = ''adai-native''\<rparr>"

record ModelConnection =
  mc_encoder_name :: string
  mc_decoder_name :: string
  mc_world_model_name :: string
  mc_inject_every_n_layers :: nat
  mc_memory_enabled :: bool
  mc_memory_capacity :: nat
  mc_repetition_alpha :: any_float
  mc_repetition_decay :: any_float
  mc_cross_reference_alpha :: any_float
  mc_association_decay :: any_float
  mc_sigreg_lambda :: any_float
  mc_sigreg_num_sketches :: nat

definition FLOAT_ZERO :: any_float where "FLOAT_ZERO = Finite (F32 False 0)"

definition no_connection :: ModelConnection where
  "no_connection =
     \<lparr>mc_encoder_name = [], mc_decoder_name = [], mc_world_model_name = [], mc_inject_every_n_layers = 0,
      mc_memory_enabled = False, mc_memory_capacity = 512, mc_repetition_alpha = FLOAT_ZERO,
      mc_repetition_decay = Finite (F32 False (round_units 95 100)), mc_cross_reference_alpha = FLOAT_ZERO,
      mc_association_decay = Finite (F32 False (round_units 95 100)), mc_sigreg_lambda = ONE, mc_sigreg_num_sketches = 64\<rparr>"

record TrainingHistoryEntry =
  th_run_id :: string
  th_session_key :: string
  th_dataset_group :: string
  th_epochs :: int
  th_final_loss :: any_double
  th_started_utc :: string
  th_finished_utc :: string
  th_incomplete :: bool

text \<open>The six inline architecture fields.\<close>

record ModelArchitecture =
  ma_d_model :: nat
  ma_num_heads :: nat
  ma_d_ff :: nat
  ma_num_encoder_layers :: nat
  ma_num_decoder_layers :: nat
  ma_max_seq_length :: nat

definition no_architecture :: ModelArchitecture where
  "no_architecture = \<lparr>ma_d_model = 0, ma_num_heads = 0, ma_d_ff = 0, ma_num_encoder_layers = 0,
     ma_num_decoder_layers = 0, ma_max_seq_length = 0\<rparr>"

record ModelRecord =
  mr_id :: string
  mr_name :: string
  mr_role :: string
  mr_kind :: string
  mr_run_group :: string
  mr_state :: string
  mr_run_id :: string
  mr_created_utc :: string
  mr_updated_utc :: string
  mr_artifact :: ArtifactLocation
  mr_arch :: ModelArchitecture
  mr_connection :: ModelConnection
  mr_run_number :: int
  mr_run_started_utc :: string
  mr_progress_session_id :: string
  mr_progress_epoch :: int
  mr_progress_loss :: any_double
  mr_progress_best_loss :: any_double
  mr_progress_updated_utc :: string
  mr_history :: "TrainingHistoryEntry list"
  mr_tags :: "(string \<times> string) list"

definition no_model :: ModelRecord where
  "no_model =
     \<lparr>mr_id = [], mr_name = [], mr_role = [], mr_kind = ''chatbot'', mr_run_group = [], mr_state = ''initializing'',
      mr_run_id = [], mr_created_utc = [], mr_updated_utc = [], mr_artifact = no_artifact, mr_arch = no_architecture,
      mr_connection = no_connection, mr_run_number = 0, mr_run_started_utc = [], mr_progress_session_id = [],
      mr_progress_epoch = 0, mr_progress_loss = DBL_ZERO, mr_progress_best_loss = DBL_ZERO, mr_progress_updated_utc = [],
      mr_history = [], mr_tags = []\<rparr>"

section \<open>Writing\<close>

definition comma_list :: "string list \<Rightarrow> string" where
  "comma_list xs = (case xs of [] \<Rightarrow> [] | x # xs \<Rightarrow> x @ concat (map ((#) CHR '','') xs))"

definition object_text :: "string list \<Rightarrow> string" where
  "object_text xs = ''{'' @ comma_list xs @ ''}''"

definition raw_field :: "string \<Rightarrow> string \<Rightarrow> string" where
  "raw_field key v = key_text key @ v"

definition size_field :: "string \<Rightarrow> nat \<Rightarrow> string" where
  "size_field key n = raw_field key (nat_to_string n)"

definition serialize_artifact :: "ArtifactLocation \<Rightarrow> string" where
  "serialize_artifact a = object_text
     [text_field ''host'' (al_host a), text_field ''path'' (al_path a), text_field ''checksum'' (al_checksum a),
      text_field ''format'' (al_format a)]"

definition serialize_connection :: "ModelConnection \<Rightarrow> string" where
  "serialize_connection c = object_text
     [text_field ''encoder_name'' (mc_encoder_name c), text_field ''decoder_name'' (mc_decoder_name c),
      text_field ''world_model_name'' (mc_world_model_name c),
      size_field ''world_model_inject_every_n_layers'' (mc_inject_every_n_layers c),
      raw_field ''hippocampal_memory_enabled'' (bool_text (mc_memory_enabled c)),
      size_field ''hippocampal_memory_capacity'' (mc_memory_capacity c),
      raw_field ''hippocampal_repetition_alpha'' (print_float (mc_repetition_alpha c)),
      raw_field ''hippocampal_repetition_decay'' (print_float (mc_repetition_decay c)),
      raw_field ''hippocampal_cross_reference_alpha'' (print_float (mc_cross_reference_alpha c)),
      raw_field ''hippocampal_association_decay'' (print_float (mc_association_decay c)),
      raw_field ''sigreg_lambda'' (print_float (mc_sigreg_lambda c)),
      size_field ''sigreg_num_sketches'' (mc_sigreg_num_sketches c)]"

definition tags_to_json :: "(string \<times> string) list \<Rightarrow> string" where
  "tags_to_json tags =
     object_text (map (\<lambda>(k, v). [QUOTE] @ mns_escape k @ [QUOTE] @ '':'' @ [QUOTE] @ mns_escape v @ [QUOTE]) tags)"

definition arch_json :: "ModelArchitecture \<Rightarrow> string" where
  "arch_json a = object_text
     [size_field ''d_model'' (ma_d_model a), size_field ''num_heads'' (ma_num_heads a), size_field ''d_ff'' (ma_d_ff a),
      size_field ''num_encoder_layers'' (ma_num_encoder_layers a), size_field ''num_decoder_layers'' (ma_num_decoder_layers a),
      size_field ''max_seq_length'' (ma_max_seq_length a)]"

definition mns_history_json :: "TrainingHistoryEntry \<Rightarrow> string" where
  "mns_history_json h = object_text
     [text_field ''run_id'' (th_run_id h), text_field ''metrics_session_key'' (th_session_key h),
      text_field ''dataset_group'' (th_dataset_group h), raw_field ''epochs'' (int_to_string (th_epochs h)),
      raw_field ''final_loss'' (print_double (th_final_loss h)), text_field ''started_utc'' (th_started_utc h),
      text_field ''finished_utc'' (th_finished_utc h), raw_field ''incomplete'' (bool_text (th_incomplete h))]"

definition serialize_record :: "ModelRecord \<Rightarrow> string" where
  "serialize_record r = object_text
     [text_field ''model_id'' (mr_id r), text_field ''model_name'' (mr_name r), text_field ''role'' (mr_role r),
      text_field ''kind'' (mr_kind r), raw_field ''connection'' (serialize_connection (mr_connection r)),
      text_field ''run_group'' (mr_run_group r), text_field ''state'' (mr_state r), text_field ''run_id'' (mr_run_id r),
      text_field ''created_utc'' (mr_created_utc r), text_field ''updated_utc'' (mr_updated_utc r),
      raw_field ''artifact'' (serialize_artifact (mr_artifact r)), raw_field ''arch'' (arch_json (mr_arch r)),
      raw_field ''current_run_number'' (int_to_string (mr_run_number r)),
      text_field ''run_started_utc'' (mr_run_started_utc r),
      raw_field ''progress'' (object_text
        [text_field ''session_id'' (mr_progress_session_id r), raw_field ''epoch'' (int_to_string (mr_progress_epoch r)),
         raw_field ''loss'' (print_double (mr_progress_loss r)),
         raw_field ''best_loss'' (print_double (mr_progress_best_loss r)),
         text_field ''updated_utc'' (mr_progress_updated_utc r)]),
      raw_field ''training_history'' (''['' @ comma_list (map mns_history_json (mr_history r)) @ '']''),
      raw_field ''tags'' (tags_to_json (mr_tags r))]"

definition resolve_json :: "ModelRecord \<Rightarrow> string" where
  "resolve_json r = object_text
     [text_field ''model_id'' (mr_id r), text_field ''model_name'' (mr_name r), text_field ''run_group'' (mr_run_group r),
      text_field ''state'' (mr_state r), raw_field ''artifact'' (serialize_artifact (mr_artifact r))]"

section \<open>Reading\<close>

definition parse_artifact :: "string \<Rightarrow> ArtifactLocation" where
  "parse_artifact obj =
     (let format = mns_string obj ''format'' in
      \<lparr>al_host = mns_string obj ''host'', al_path = mns_string obj ''path'', al_checksum = mns_string obj ''checksum'',
       al_format = (if format = [] then ''adai-native'' else format)\<rparr>)"

definition mns_size :: "string \<Rightarrow> string \<Rightarrow> int \<Rightarrow> nat" where
  "mns_size obj key def = to_size (mns_int obj key def)"

definition mns_float :: "string \<Rightarrow> string \<Rightarrow> any_double \<Rightarrow> any_float" where
  "mns_float obj key def = double_to_float (mns_double obj key def)"

definition parse_connection :: "string \<Rightarrow> ModelConnection" where
  "parse_connection obj =
     \<lparr>mc_encoder_name = mns_string obj ''encoder_name'', mc_decoder_name = mns_string obj ''decoder_name'',
      mc_world_model_name = mns_string obj ''world_model_name'',
      mc_inject_every_n_layers = mns_size obj ''world_model_inject_every_n_layers'' 0,
      mc_memory_enabled = mns_bool obj ''hippocampal_memory_enabled'' False,
      mc_memory_capacity = mns_size obj ''hippocampal_memory_capacity'' 512,
      mc_repetition_alpha = mns_float obj ''hippocampal_repetition_alpha'' DBL_ZERO,
      mc_repetition_decay = mns_float obj ''hippocampal_repetition_decay'' (dbl_literal 95 100),
      mc_cross_reference_alpha = mns_float obj ''hippocampal_cross_reference_alpha'' DBL_ZERO,
      mc_association_decay = mns_float obj ''hippocampal_association_decay'' (dbl_literal 95 100),
      mc_sigreg_lambda = mns_float obj ''sigreg_lambda'' (dbl_literal 1 1),
      mc_sigreg_num_sketches = mns_size obj ''sigreg_num_sketches'' 64\<rparr>"

definition parse_arch :: "string \<Rightarrow> ModelArchitecture" where
  "parse_arch arch =
     \<lparr>ma_d_model = mns_size arch ''d_model'' 0, ma_num_heads = mns_size arch ''num_heads'' 0, ma_d_ff = mns_size arch ''d_ff'' 0,
      ma_num_encoder_layers = mns_size arch ''num_encoder_layers'' 0,
      ma_num_decoder_layers = mns_size arch ''num_decoder_layers'' 0, ma_max_seq_length = mns_size arch ''max_seq_length'' 0\<rparr>"

definition parse_history :: "string \<Rightarrow> TrainingHistoryEntry" where
  "parse_history obj =
     \<lparr>th_run_id = mns_string obj ''run_id'', th_session_key = mns_string obj ''metrics_session_key'',
      th_dataset_group = mns_string obj ''dataset_group'', th_epochs = mns_int obj ''epochs'' 0,
      th_final_loss = mns_double obj ''final_loss'' DBL_ZERO, th_started_utc = mns_string obj ''started_utc'',
      th_finished_utc = mns_string obj ''finished_utc'', th_incomplete = mns_bool obj ''incomplete'' False\<rparr>"

text \<open>A line of the old \<open>models.jsonl\<close>: kind and connection are not read.\<close>

definition parse_record :: "string \<Rightarrow> ModelRecord" where
  "parse_record line =
     (let state = mns_string line ''state''; progress = extract_object line ''progress'' in
      no_model
        \<lparr>mr_id := mns_string line ''model_id'', mr_name := mns_string line ''model_name'', mr_role := mns_string line ''role'',
         mr_run_group := mns_string line ''run_group'', mr_state := (if state = [] then ''initializing'' else state),
         mr_run_id := mns_string line ''run_id'', mr_created_utc := mns_string line ''created_utc'',
         mr_updated_utc := mns_string line ''updated_utc'', mr_artifact := parse_artifact (extract_object line ''artifact''),
         mr_arch := parse_arch (extract_object line ''arch''), mr_run_number := mns_int line ''current_run_number'' 0,
         mr_run_started_utc := mns_string line ''run_started_utc'',
         mr_progress_session_id := mns_string progress ''session_id'', mr_progress_epoch := mns_int progress ''epoch'' 0,
         mr_progress_loss := mns_double progress ''loss'' DBL_ZERO,
         mr_progress_best_loss := mns_double progress ''best_loss'' DBL_ZERO,
         mr_progress_updated_utc := mns_string progress ''updated_utc'',
         mr_history := map parse_history (split_array_objects (extract_array line ''training_history'')),
         mr_tags := parse_string_map (extract_object line ''tags'')\<rparr>)"

end
