(* ===== verification/Mns_Service.thy ===== *)
theory Mns_Service
  imports Mns_Record
begin

text \<open>
  The model name service (\<open>src/src/ModelNameService.cpp\<close>): which models exist, the state each is in, which one serves a
  role, and the database behind them. Every handler runs under the exclusive lock, so calls come one after the other.
  A handler returns its status and body; the tables are kept by SQLite, whose statements may fail.
\<close>

section \<open>State\<close>

text \<open>A row of \<open>models\<close>: the columns, of which tags and connection are text; \<open>training_history\<close> and \<open>roles\<close>.\<close>

record model_row =
  mw_columns :: ModelRecord
  mw_tags_json :: string
  mw_connection_json :: string

record mns_db =
  db_models :: "model_row list"
  db_history :: "(string \<times> TrainingHistoryEntry) list"
  db_roles :: "(string \<times> string) list"

record mns =
  mn_models :: "string \<rightharpoonup> ModelRecord"
  mn_roles :: "string \<rightharpoonup> string"
  mn_db :: "mns_db option"
  mn_registry_url :: string
  mn_registry_group :: string
  mn_admin_enabled :: bool
  mn_config :: "(string \<rightharpoonup> string) option"     \<comment> \<open>\<open>daemon_config.db\<close>, if it is open\<close>

datatype db_write = Upsert_Model | Delete_History | Insert_History | Delete_Model | Delete_Roles | Insert_Roles | Save_Config

record mns_env =
  me_uuid :: string
  me_now :: string
  me_works :: "db_write \<Rightarrow> bool"
  me_roles :: "string list"           \<comment> \<open>the order in which the table of roles is walked\<close>

section \<open>Persistence\<close>

text \<open>SQLite keeps a NaN as \<open>NULL\<close>, which reads as 0, and writes minus zero as 0.\<close>

definition real_column :: "any_double \<Rightarrow> any_double" where
  "real_column x = (case x of Dbl_NaN _ \<Rightarrow> DBL_ZERO | Dbl neg u \<Rightarrow> if u = 0 then DBL_ZERO else x | Dbl_Inf _ \<Rightarrow> x)"

text \<open>Text is bound and read back as a C string.\<close>

definition c_text :: "string \<Rightarrow> string" where
  "c_text s = takeWhile (\<lambda>c. c \<noteq> CHR 0x00) s"

definition artifact_columns :: "ArtifactLocation \<Rightarrow> ArtifactLocation" where
  "artifact_columns a =
     \<lparr>al_host = c_text (al_host a), al_path = c_text (al_path a), al_checksum = c_text (al_checksum a),
      al_format = c_text (al_format a)\<rparr>"

definition model_row_of :: "ModelRecord \<Rightarrow> model_row" where
  "model_row_of r =
     \<lparr>mw_columns =
        \<lparr>mr_id = c_text (mr_id r), mr_name = c_text (mr_name r), mr_role = c_text (mr_role r), mr_kind = c_text (mr_kind r),
         mr_run_group = c_text (mr_run_group r), mr_state = c_text (mr_state r), mr_run_id = c_text (mr_run_id r),
         mr_created_utc = c_text (mr_created_utc r), mr_updated_utc = c_text (mr_updated_utc r),
         mr_artifact = artifact_columns (mr_artifact r), mr_arch = mr_arch r, mr_connection = no_connection,
         mr_run_number = mr_run_number r, mr_run_started_utc = c_text (mr_run_started_utc r),
         mr_progress_session_id = c_text (mr_progress_session_id r), mr_progress_epoch = mr_progress_epoch r,
         mr_progress_loss = real_column (mr_progress_loss r), mr_progress_best_loss = real_column (mr_progress_best_loss r),
         mr_progress_updated_utc = c_text (mr_progress_updated_utc r), mr_history = [], mr_tags = []\<rparr>,
      mw_tags_json = c_text (tags_to_json (mr_tags r)), mw_connection_json = c_text (serialize_connection (mr_connection r))\<rparr>"

definition history_row :: "TrainingHistoryEntry \<Rightarrow> TrainingHistoryEntry" where
  "history_row h =
     \<lparr>th_run_id = c_text (th_run_id h), th_session_key = c_text (th_session_key h), th_dataset_group = c_text (th_dataset_group h),
      th_epochs = th_epochs h, th_final_loss = real_column (th_final_loss h), th_started_utc = c_text (th_started_utc h),
      th_finished_utc = c_text (th_finished_utc h), th_incomplete = th_incomplete h\<rparr>"

text \<open>\<open>INSERT OR REPLACE\<close>: the rows with the same id or the same name go.\<close>

definition upsert_model :: "ModelRecord \<Rightarrow> model_row list \<Rightarrow> model_row list" where
  "upsert_model r rows =
     filter (\<lambda>w. mr_id (mw_columns w) \<noteq> mr_id r \<and> mr_name (mw_columns w) \<noteq> mr_name r) rows @ [model_row_of r]"

definition delete_history :: "string \<Rightarrow> (string \<times> TrainingHistoryEntry) list \<Rightarrow> (string \<times> TrainingHistoryEntry) list" where
  "delete_history name rows = filter (\<lambda>x. fst x \<noteq> name) rows"

definition persist_model :: "mns_env \<Rightarrow> ModelRecord \<Rightarrow> mns \<Rightarrow> mns" where
  "persist_model env r s =
     (case mn_db s of
        None \<Rightarrow> s
      | Some db \<Rightarrow>
          let db = (if me_works env Upsert_Model then db\<lparr>db_models := upsert_model r (db_models db)\<rparr> else db);
              db = (if me_works env Delete_History then db\<lparr>db_history := delete_history (mr_name r) (db_history db)\<rparr> else db);
              db = (if me_works env Insert_History
                    then db\<lparr>db_history := db_history db @ map (\<lambda>h. (mr_name r, history_row h)) (mr_history r)\<rparr> else db)
          in s\<lparr>mn_db := Some db\<rparr>)"

text \<open>A plain \<open>INSERT\<close> fails when the role is there already.\<close>

definition insert_role :: "(string \<times> string) list \<Rightarrow> string \<times> string \<Rightarrow> (string \<times> string) list" where
  "insert_role rows x = (if fst x \<in> fst ` set rows then rows else rows @ [x])"

definition role_rows :: "string list \<Rightarrow> (string \<rightharpoonup> string) \<Rightarrow> (string \<times> string) list" where
  "role_rows order roles = concat (map (\<lambda>role. case roles role of None \<Rightarrow> [] | Some m \<Rightarrow> [(role, m)]) order)"

definition persist_roles :: "mns_env \<Rightarrow> mns \<Rightarrow> mns" where
  "persist_roles env s =
     (case mn_db s of
        None \<Rightarrow> s
      | Some db \<Rightarrow>
          let db = (if me_works env Delete_Roles then db\<lparr>db_roles := []\<rparr> else db);
              db = (if me_works env Insert_Roles
                    then db\<lparr>db_roles := foldl insert_role (db_roles db) (role_rows (me_roles env) (mn_roles s))\<rparr> else db)
          in s\<lparr>mn_db := Some db\<rparr>)"

text \<open>\<open>load_from_disk\<close>.\<close>

definition load_row :: "model_row \<Rightarrow> ModelRecord" where
  "load_row w =
     (let c = mw_columns w; a = mr_artifact c in
      c\<lparr>mr_tags := parse_string_map (mw_tags_json w), mr_connection := parse_connection (mw_connection_json w), mr_history := [],
        mr_state := (if mr_state c = [] then ''initializing'' else mr_state c),
        mr_artifact := (if al_format a = [] then a\<lparr>al_format := ''adai-native''\<rparr> else a),
        mr_kind := (if mr_kind c = [] then ''chatbot'' else mr_kind c)\<rparr>)"

definition load_models :: "model_row list \<Rightarrow> (string \<rightharpoonup> ModelRecord)" where
  "load_models rows =
     foldl (\<lambda>m w. if mr_name (mw_columns w) = [] then m else m(mr_name (mw_columns w) \<mapsto> load_row w)) Map.empty rows"

definition load_history :: "(string \<times> TrainingHistoryEntry) list \<Rightarrow> (string \<rightharpoonup> ModelRecord) \<Rightarrow> (string \<rightharpoonup> ModelRecord)" where
  "load_history rows models =
     foldl (\<lambda>m (name, h). case m name of None \<Rightarrow> m | Some r \<Rightarrow> m(name \<mapsto> r\<lparr>mr_history := mr_history r @ [h]\<rparr>)) models rows"

definition load_from_disk :: "mns \<Rightarrow> mns" where
  "load_from_disk s =
     (case mn_db s of
        None \<Rightarrow> s
      | Some db \<Rightarrow> s\<lparr>mn_models := load_history (db_history db) (load_models (db_models db)), mn_roles := map_of (rev (db_roles db))\<rparr>)"

text \<open>
  \<open>migrate_from_jsonl\<close>, run when the table is empty: the lines of the old \<open>models.jsonl\<close> and the text of \<open>roles.json\<close>,
  where they exist. \<open>models_columns\<close> are the columns of the table.
\<close>

definition models_columns :: "string list" where
  "models_columns =
     [''model_id'', ''model_name'', ''role'', ''state'', ''run_id'', ''created_utc'', ''updated_utc'', ''artifact_host'',
      ''artifact_path'', ''artifact_checksum'', ''artifact_format'', ''d_model'', ''num_heads'', ''d_ff'',
      ''num_encoder_layers'', ''num_decoder_layers'', ''max_seq_length'', ''tags_json'', ''current_run_number'',
      ''run_started_utc'', ''progress_session_id'', ''progress_epoch'', ''progress_loss'', ''progress_best_loss'',
      ''progress_updated_utc'', ''run_group'', ''kind'', ''connection_json'']"

definition migrate_bindings :: nat where "migrate_bindings = 26"

text \<open>A statement that supplies another number of values than the table has columns does not compile.\<close>

definition migrate_line :: "string \<Rightarrow> mns_db \<times> nat \<Rightarrow> mns_db \<times> nat" where
  "migrate_line line x =
     (case x of (db, imported) \<Rightarrow>
        if line = [] \<or> List.hd line = CHR ''#'' then x
        else
          let r = parse_record line in
          if mr_name r = [] then x
          else if migrate_bindings \<noteq> length models_columns then x
          else (db\<lparr>db_models := upsert_model r (db_models db),
                  db_history := db_history db @ map (\<lambda>h. (mr_name r, history_row h)) (mr_history r)\<rparr>, imported + 1))"

definition migrate_role :: "(string \<times> string) list \<Rightarrow> string \<times> string \<Rightarrow> (string \<times> string) list" where
  "migrate_role rows x = filter (\<lambda>y. fst y \<noteq> fst x) rows @ [x]"

definition migrate_from_jsonl :: "string list option \<Rightarrow> string option \<Rightarrow> mns_db \<Rightarrow> mns_db \<times> nat" where
  "migrate_from_jsonl models_jsonl roles_json db =
     (case models_jsonl of
        None \<Rightarrow> (db, 0)
      | Some lines \<Rightarrow>
          let (db, imported) = foldl (\<lambda>x line. migrate_line line x) (db, 0) lines in
          (case roles_json of
             None \<Rightarrow> (db, imported)
           | Some content \<Rightarrow> (db\<lparr>db_roles := foldl migrate_role (db_roles db) (parse_string_map content)\<rparr>, imported)))"

section \<open>Registering\<close>

definition known_kind :: "string \<Rightarrow> bool" where
  "known_kind kind \<longleftrightarrow> kind \<in> {''encoder'', ''decoder'', ''world_model'', ''chatbot''}"

definition quote_name :: "string \<Rightarrow> string" where
  "quote_name name = [CHR 0x27] @ name @ [CHR 0x27]"

definition resolved_d_model :: "(string \<rightharpoonup> ModelRecord) \<Rightarrow> ModelRecord \<Rightarrow> nat" where
  "resolved_d_model models r =
     (if mc_encoder_name (mr_connection r) \<noteq> [] then
        (case models (mc_encoder_name (mr_connection r)) of
           Some enc \<Rightarrow> ma_d_model (mr_arch enc) | None \<Rightarrow> ma_d_model (mr_arch r))
      else ma_d_model (mr_arch r))"

text \<open>An error reply, or none.\<close>

definition validate_world_model_link ::
  "(string \<rightharpoonup> ModelRecord) \<Rightarrow> ModelRecord \<Rightarrow> string \<Rightarrow> nat \<Rightarrow> (nat \<times> string) option" where
  "validate_world_model_link models r world_model_name inject =
     (case models world_model_name of
        None \<Rightarrow> Some (400, error_body (''world_model_name '' @ quote_name world_model_name @ '' is not a registered world_model''))
      | Some wm \<Rightarrow>
          if mr_kind wm \<noteq> ''world_model''
          then Some (400, error_body (''world_model_name '' @ quote_name world_model_name @ '' is not a registered world_model''))
          else if inject > 0 \<and> ma_d_model (mr_arch wm) \<noteq> resolved_d_model models r
          then Some (409, error_body (''world model '' @ quote_name world_model_name @ '' d_model ('' @
            nat_to_string (ma_d_model (mr_arch wm)) @ '') does not match chatbot '' @ quote_name (mr_name r) @ '' d_model ('' @
            nat_to_string (resolved_d_model models r) @ '') '' @ [CHR 0xE2, CHR 0x80, CHR 0x94] @
            '' required whenever world_model_inject_every_n_layers > 0''))
          else None)"

text \<open>Encoders, decoders and world models have one stack of layers.\<close>

definition standalone_error :: "string \<Rightarrow> ModelArchitecture \<Rightarrow> (nat \<times> string) option" where
  "standalone_error kind a =
     (let own = (if kind = ''decoder'' then ma_num_decoder_layers a else ma_num_encoder_layers a);
          other = (if kind = ''decoder'' then ma_num_encoder_layers a else ma_num_decoder_layers a)
      in if own = 0 then Some (400, error_body (kind @ '' requires a positive layer count''))
         else if other \<noteq> 0
         then Some (400, error_body (kind @ '' must not set the layer-count field belonging to the other kind''))
         else if ma_d_model a = 0 \<or> ma_num_heads a = 0 \<or> ma_d_ff a = 0 \<or> ma_max_seq_length a = 0
         then Some (400, error_body (kind @ '' requires d_model/num_heads/d_ff/max_seq_length all positive''))
         else None)"

definition same_shape :: "ModelArchitecture \<Rightarrow> ModelArchitecture \<Rightarrow> bool" where
  "same_shape a b \<longleftrightarrow> ma_d_model a = ma_d_model b \<and> ma_num_heads a = ma_num_heads b \<and> ma_d_ff a = ma_d_ff b \<and>
     ma_max_seq_length a = ma_max_seq_length b"

definition pair_error :: "(string \<rightharpoonup> ModelRecord) \<Rightarrow> string \<Rightarrow> string \<Rightarrow> (nat \<times> string) option" where
  "pair_error models enc_name dec_name =
     (if enc_name = [] \<and> dec_name = [] then None
      else if enc_name = [] \<or> dec_name = []
      then Some (400, error_body ''chatbot requires both encoder_name and decoder_name, or neither (legacy inline architecture)'')
      else
        let not_enc = Some (400, error_body (''encoder_name '' @ quote_name enc_name @ '' is not a registered encoder''));
            not_dec = Some (400, error_body (''decoder_name '' @ quote_name dec_name @ '' is not a registered decoder''))
        in case models enc_name of
             None \<Rightarrow> not_enc
           | Some enc \<Rightarrow>
               if mr_kind enc \<noteq> ''encoder'' then not_enc
               else case models dec_name of
                 None \<Rightarrow> not_dec
               | Some dec \<Rightarrow>
                   if mr_kind dec \<noteq> ''decoder'' then not_dec
                   else if \<not> same_shape (mr_arch enc) (mr_arch dec)
                   then Some (409, error_body (''encoder '' @ quote_name enc_name @ '' and decoder '' @ quote_name dec_name @
                     '' have incompatible d_model/num_heads/d_ff/max_seq_length''))
                   else None)"

definition chatbot_error :: "(string \<rightharpoonup> ModelRecord) \<Rightarrow> ModelRecord \<Rightarrow> (nat \<times> string) option" where
  "chatbot_error models r =
     (let c = mr_connection r in
      case pair_error models (mc_encoder_name c) (mc_decoder_name c) of
        Some err \<Rightarrow> Some err
      | None \<Rightarrow>
          if mc_world_model_name c \<noteq> []
          then validate_world_model_link models r (mc_world_model_name c) (mc_inject_every_n_layers c)
          else None)"

definition registered_model :: "mns_env \<Rightarrow> string \<Rightarrow> string \<Rightarrow> string \<Rightarrow> ModelRecord" where
  "registered_model env model_name kind body =
     (let arch = extract_object body ''arch''; connection = extract_object body ''connection'' in
      no_model
        \<lparr>mr_id := me_uuid env, mr_name := model_name, mr_kind := kind, mr_role := mns_string body ''role'',
         mr_run_group := mns_string body ''run_group'', mr_created_utc := me_now env, mr_updated_utc := me_now env,
         mr_arch := (if arch = ''{}'' then no_architecture else parse_arch arch),
         mr_tags := parse_string_map (extract_object body ''tags''),
         mr_connection := (if connection = ''{}'' then no_connection else parse_connection connection)\<rparr>)"

definition handle_register :: "mns_env \<Rightarrow> string \<Rightarrow> mns \<Rightarrow> (nat \<times> string) \<times> mns" where
  "handle_register env body s =
     (let model_name = mns_string body ''model_name'';
          kind = (let k = mns_string body ''kind'' in if k = [] then ''chatbot'' else k)
      in if model_name = [] then ((400, error_body ''model_name required''), s)
         else if \<not> mns_valid_name model_name then
           ((400, error_body (''invalid model_name: must match [a-z0-9][a-z0-9'' @ [BSLASH] @ ''-'' @ [BSLASH] @ ''.]{1,127}'')), s)
         else if \<not> known_kind kind then
           ((400, error_body ''invalid kind: must be encoder, decoder, world_model, or chatbot''), s)
         else if mn_models s model_name \<noteq> None then ((409, error_body ''model_name already registered''), s)
         else
           let r = registered_model env model_name kind body in
           case (if kind = ''chatbot'' then chatbot_error (mn_models s) r else standalone_error kind (mr_arch r)) of
             Some err \<Rightarrow> (err, s)
           | None \<Rightarrow>
               ((201, object_text [text_field ''model_id'' (mr_id r), text_field ''state'' ''initializing'']),
                persist_model env r (s\<lparr>mn_models := (mn_models s)(model_name \<mapsto> r)\<rparr>)))"

section \<open>Life cycle\<close>

definition no_such_model :: "nat \<times> string" where
  "no_such_model = (404, error_body ''model not found'')"

definition superseded :: "nat \<times> string" where
  "superseded = (409, error_body (''run_id does not match the active run; this trainer'' @ [CHR 0x27] @
     ''s run has been superseded''))"

definition clear_progress :: "ModelRecord \<Rightarrow> ModelRecord" where
  "clear_progress r =
     r\<lparr>mr_progress_session_id := [], mr_progress_epoch := 0, mr_progress_loss := DBL_ZERO, mr_progress_best_loss := DBL_ZERO,
       mr_progress_updated_utc := []\<rparr>"

text \<open>\<open>None\<close> for a target state that does not exist.\<close>

definition valid_transition :: "string \<Rightarrow> string \<Rightarrow> bool option" where
  "valid_transition cur new_state =
     (if new_state = ''training'' then Some (cur \<in> {''initializing'', ''candidate'', ''training''})
      else if new_state = ''candidate'' then Some (cur \<in> {''training'', ''initializing'', ''retired''})
      else if new_state = ''retired'' then Some (cur \<noteq> ''retired'')
      else None)"

text \<open>A run that never reached \<open>candidate\<close> is archived, then the run number is allocated.\<close>

definition abandoned_run :: "mns_env \<Rightarrow> ModelRecord \<Rightarrow> TrainingHistoryEntry list" where
  "abandoned_run env r =
     (if mr_state r = ''training'' \<and> (mr_progress_epoch r > 0 \<or> mr_progress_session_id r \<noteq> []) then
        [\<lparr>th_run_id = mr_run_id r, th_session_key = mr_progress_session_id r, th_dataset_group = [],
          th_epochs = mr_progress_epoch r, th_final_loss = mr_progress_loss r, th_started_utc = mr_run_started_utc r,
          th_finished_utc = me_now env, th_incomplete = True\<rparr>]
      else [])"

definition next_run_number :: "bool \<Rightarrow> int \<Rightarrow> int" where
  "next_run_number new_run n = (if n = 0 then 1 else if new_run then n + 1 else n)"

definition start_training :: "mns_env \<Rightarrow> string \<Rightarrow> ModelRecord \<Rightarrow> ModelRecord" where
  "start_training env body r =
     (let n = next_run_number (mns_bool body ''new_run'' False) (mr_run_number r) in
      (clear_progress (r\<lparr>mr_history := mr_history r @ abandoned_run env r\<rparr>))
        \<lparr>mr_run_number := n, mr_run_id := ''run-'' @ zero_pad2 n, mr_run_started_utc := me_now env\<rparr>)"

definition finished_run :: "mns_env \<Rightarrow> string \<Rightarrow> ModelRecord \<Rightarrow> TrainingHistoryEntry" where
  "finished_run env body r =
     (let run_id = mns_string body ''run_id'';
          summary = extract_object body ''training_summary'';
          finished = mns_string summary ''finished_utc''
      in \<lparr>th_run_id = (if run_id = [] then mr_run_id r else run_id), th_session_key = mns_string body ''metrics_session_key'',
          th_dataset_group = mns_string summary ''dataset_group'', th_epochs = mns_int summary ''epochs'' 0,
          th_final_loss = mns_double summary ''final_loss'' DBL_ZERO, th_started_utc = mns_string summary ''started_utc'',
          th_finished_utc = (if finished = [] then me_now env else finished), th_incomplete = False\<rparr>)"

definition finish_training :: "mns_env \<Rightarrow> string \<Rightarrow> ModelRecord \<Rightarrow> ModelRecord" where
  "finish_training env body r =
     (let art = extract_object body ''artifact''; h = finished_run env body r in
      (clear_progress
        (r\<lparr>mr_artifact := (if art = ''{}'' then mr_artifact r else parse_artifact art),
           mr_history := (if th_run_id h = [] then mr_history r else mr_history r @ [h])\<rparr>))
        \<lparr>mr_run_id := []\<rparr>)"

definition handle_state_transition :: "mns_env \<Rightarrow> string \<Rightarrow> string \<Rightarrow> mns \<Rightarrow> (nat \<times> string) \<times> mns" where
  "handle_state_transition env name body s =
     (let new_state = mns_string body ''state''; run_id = mns_string body ''run_id'' in
      if new_state = [] then ((400, error_body ''state required''), s)
      else case mn_models s name of
        None \<Rightarrow> (no_such_model, s)
      | Some r \<Rightarrow>
          case valid_transition (mr_state r) new_state of
            None \<Rightarrow> ((400, error_body ''unknown target state; valid values: training, candidate, retired''), s)
          | Some False \<Rightarrow>
              ((409, error_body (''invalid transition: '' @ mns_escape (mr_state r) @ '' -> '' @ mns_escape new_state)), s)
          | Some True \<Rightarrow>
              if new_state = ''candidate'' \<and> mr_state r = ''training'' \<and> (run_id = [] \<or> run_id \<noteq> mr_run_id r) then (superseded, s)
              else
                let r = (if new_state = ''training'' then start_training env body r
                         else if new_state = ''candidate'' then finish_training env body r else r);
                    r = r\<lparr>mr_state := new_state, mr_updated_utc := me_now env\<rparr>
                in ((200, serialize_record r), persist_model env r (s\<lparr>mn_models := (mn_models s)(name \<mapsto> r)\<rparr>)))"

definition handle_progress_update :: "mns_env \<Rightarrow> string \<Rightarrow> string \<Rightarrow> mns \<Rightarrow> (nat \<times> string) \<times> mns" where
  "handle_progress_update env name body s =
     (case mn_models s name of
        None \<Rightarrow> (no_such_model, s)
      | Some r \<Rightarrow>
          let run_id = mns_string body ''run_id'' in
          if mr_state r \<noteq> ''training'' then ((409, error_body ''model is not currently training''), s)
          else if run_id = [] \<or> run_id \<noteq> mr_run_id r then (superseded, s)
          else
            let r = r\<lparr>mr_progress_session_id := mns_string body ''session_id'',
                  mr_progress_epoch := mns_int body ''epoch'' (mr_progress_epoch r),
                  mr_progress_loss := mns_double body ''loss'' (mr_progress_loss r),
                  mr_progress_best_loss := mns_double body ''best_loss'' (mr_progress_best_loss r),
                  mr_progress_updated_utc := me_now env, mr_updated_utc := me_now env\<rparr>
            in ((200, object_text [text_field ''status'' ''ok'']),
                persist_model env r (s\<lparr>mn_models := (mn_models s)(name \<mapsto> r)\<rparr>)))"

definition handle_update_run_group :: "mns_env \<Rightarrow> string \<Rightarrow> string \<Rightarrow> mns \<Rightarrow> (nat \<times> string) \<times> mns" where
  "handle_update_run_group env name body s =
     (case mn_models s name of
        None \<Rightarrow> (no_such_model, s)
      | Some r \<Rightarrow>
          let r = r\<lparr>mr_run_group := mns_string body ''run_group'', mr_updated_utc := me_now env\<rparr> in
          ((200, object_text [text_field ''status'' ''ok'', text_field ''run_group'' (mr_run_group r)]),
           persist_model env r (s\<lparr>mn_models := (mn_models s)(name \<mapsto> r)\<rparr>)))"

section \<open>World models\<close>

definition linked_connection :: "string \<Rightarrow> string \<Rightarrow> bool \<Rightarrow> nat \<Rightarrow> ModelConnection \<Rightarrow> ModelConnection" where
  "linked_connection body world_model_name merge inject c =
     (let old = (\<lambda>f def. if merge then float_to_dbl (f c) else def) in
      c\<lparr>mc_world_model_name := world_model_name, mc_inject_every_n_layers := inject,
        mc_memory_enabled := mns_bool body ''hippocampal_memory_enabled'' (if merge then mc_memory_enabled c else False),
        mc_memory_capacity := mns_size body ''hippocampal_memory_capacity''
          (if merge then to_i32 (int (mc_memory_capacity c)) else 512),
        mc_repetition_alpha := mns_float body ''hippocampal_repetition_alpha'' (old mc_repetition_alpha DBL_ZERO),
        mc_repetition_decay := mns_float body ''hippocampal_repetition_decay'' (old mc_repetition_decay (dbl_literal 95 100)),
        mc_cross_reference_alpha :=
          mns_float body ''hippocampal_cross_reference_alpha'' (old mc_cross_reference_alpha DBL_ZERO),
        mc_association_decay :=
          mns_float body ''hippocampal_association_decay'' (old mc_association_decay (dbl_literal 95 100))\<rparr>)"

definition handle_link_world_model :: "mns_env \<Rightarrow> string \<Rightarrow> string \<Rightarrow> mns \<Rightarrow> (nat \<times> string) \<times> mns" where
  "handle_link_world_model env name body s =
     (case mn_models s name of
        None \<Rightarrow> (no_such_model, s)
      | Some r \<Rightarrow>
          let wm = mns_string body ''world_model_name''; c = mr_connection r;
              done = (\<lambda>c. persist_model env (r\<lparr>mr_connection := c, mr_updated_utc := me_now env\<rparr>)
                (s\<lparr>mn_models := (mn_models s)(name \<mapsto> r\<lparr>mr_connection := c, mr_updated_utc := me_now env\<rparr>)\<rparr>))
          in if mr_kind r \<noteq> ''chatbot'' then ((400, error_body ''only a chatbot-kind record can link a world model''), s)
             else if wm = [] then
               ((200, object_text [text_field ''status'' ''ok'', text_field ''world_model_name'' []]),
                done (c\<lparr>mc_world_model_name := []\<rparr>))
             else
               let merge = mns_bool body ''merge'' False;
                   inject = mns_size body ''world_model_inject_every_n_layers''
                     (if merge then to_i32 (int (mc_inject_every_n_layers c)) else 0)
               in case validate_world_model_link (mn_models s) r wm inject of
                 Some err \<Rightarrow> (err, s)
               | None \<Rightarrow>
                   ((200, object_text [text_field ''status'' ''ok'', text_field ''world_model_name'' wm]),
                    done (linked_connection body wm merge inject c)))"

section \<open>Deleting and promoting\<close>

definition handle_mns_delete :: "mns_env \<Rightarrow> string \<Rightarrow> mns \<Rightarrow> (nat \<times> string) \<times> mns" where
  "handle_mns_delete env name s =
     (case mn_models s name of
        None \<Rightarrow> (no_such_model, s)
      | Some r \<Rightarrow>
          if mr_state r \<in> {''training'', ''candidate'', ''production''}
          then ((409, error_body ''can only delete models in initializing or retired state''), s)
          else
            let s = s\<lparr>mn_models := (mn_models s)(name := None),
                  mn_roles := (\<lambda>role. if mn_roles s role = Some name then None else mn_roles s role),
                  mn_db := map_option (\<lambda>db.
                    let db = (if me_works env Delete_Model
                              then db\<lparr>db_models := filter (\<lambda>w. mr_name (mw_columns w) \<noteq> name) (db_models db)\<rparr> else db)
                    in if me_works env Delete_History then db\<lparr>db_history := delete_history name (db_history db)\<rparr> else db)
                    (mn_db s)\<rparr>
            in ((200, object_text [raw_field ''deleted'' ''true'', text_field ''model_name'' name]), persist_roles env s))"

definition handle_promote :: "mns_env \<Rightarrow> string \<Rightarrow> string \<Rightarrow> mns \<Rightarrow> (nat \<times> string) \<times> mns" where
  "handle_promote env role body s =
     (let model_name = mns_string body ''model_name'' in
      if \<not> mns_valid_name role then ((400, error_body ''invalid role name''), s)
      else if model_name = [] then ((400, error_body ''model_name required''), s)
      else case mn_models s model_name of
        None \<Rightarrow> (no_such_model, s)
      | Some r \<Rightarrow>
          if mr_state r \<noteq> ''candidate''
          then ((409, error_body ''model must be in candidate state to promote to production''), s)
          else
            let (retired, s) =
                  (case mn_roles s role of
                     None \<Rightarrow> ([], s)
                   | Some prev \<Rightarrow>
                       if prev \<noteq> [] \<and> prev \<noteq> model_name then
                         (case mn_models s prev of
                            None \<Rightarrow> ([], s)
                          | Some p \<Rightarrow>
                              if mr_state p = ''production'' then
                                let p = p\<lparr>mr_state := ''retired'', mr_updated_utc := me_now env\<rparr> in
                                (prev, persist_model env p (s\<lparr>mn_models := (mn_models s)(prev \<mapsto> p)\<rparr>))
                              else ([], s))
                       else ([], s));
                r = r\<lparr>mr_state := ''production'', mr_role := role, mr_updated_utc := me_now env\<rparr>;
                s = s\<lparr>mn_models := (mn_models s)(model_name \<mapsto> r), mn_roles := (mn_roles s)(role \<mapsto> model_name)\<rparr>
            in ((200, object_text [text_field ''promoted'' model_name, text_field ''retired'' retired, text_field ''role'' role]),
                persist_roles env (persist_model env r s)))"

section \<open>Reading\<close>

text \<open>\<open>order\<close>: how the hash table is walked.\<close>

definition handle_list :: "string list \<Rightarrow> string \<Rightarrow> string \<Rightarrow> int \<Rightarrow> string \<Rightarrow> mns \<Rightarrow> nat \<times> string" where
  "handle_list order state_filter role_filter limit kind_filter s =
     (let keep = (\<lambda>r. (state_filter = [] \<or> mr_state r = state_filter) \<and> (role_filter = [] \<or> mr_role r = role_filter) \<and>
            (kind_filter = [] \<or> mr_kind r = kind_filter));
          rs = filter keep (concat (map (\<lambda>n. case mn_models s n of None \<Rightarrow> [] | Some r \<Rightarrow> [r]) order))
      in (200, ''{'' @ key_text ''models'' @ ''['' @ comma_list (map serialize_record (take (nat limit) rs)) @ '']}''))"

definition handle_get :: "string \<Rightarrow> mns \<Rightarrow> nat \<times> string" where
  "handle_get name s = (case mn_models s name of None \<Rightarrow> no_such_model | Some r \<Rightarrow> (200, serialize_record r))"

definition handle_resolve :: "string \<Rightarrow> mns \<Rightarrow> nat \<times> string" where
  "handle_resolve name s =
     (case mn_models s name of
        None \<Rightarrow> no_such_model
      | Some r \<Rightarrow>
          if mr_state r = ''initializing'' then (409, error_body ''model has no artifact yet (state: initializing)'')
          else (200, resolve_json r))"

definition handle_list_roles :: "string list \<Rightarrow> mns \<Rightarrow> nat \<times> string" where
  "handle_list_roles order s =
     (200, ''{'' @ key_text ''roles'' @ ''['' @
        comma_list (map (\<lambda>(role, m). object_text [text_field ''role'' role, text_field ''production_model'' m])
          (role_rows order (mn_roles s))) @ '']}'')"

definition handle_resolve_role :: "string \<Rightarrow> mns \<Rightarrow> nat \<times> string" where
  "handle_resolve_role role s =
     (case mn_roles s role of
        None \<Rightarrow> (404, error_body ''no production model for role'')
      | Some name \<Rightarrow>
          (case mn_models s name of
             None \<Rightarrow> (404, error_body ''production model record not found'')
           | Some r \<Rightarrow> (200, resolve_json r)))"

section \<open>Admin settings\<close>

definition occurs :: "string \<Rightarrow> string \<Rightarrow> bool" where
  "occurs needle s \<longleftrightarrow> find_after needle s \<noteq> None"

definition handle_admin_get_config :: "int \<Rightarrow> string \<Rightarrow> mns \<Rightarrow> nat \<times> string" where
  "handle_admin_get_config port data_dir s =
     (200, object_text [raw_field ''port'' (int_to_string port), text_field ''data_dir'' data_dir,
        text_field ''registry_url'' (mn_registry_url s), text_field ''registry_group'' (mn_registry_group s),
        raw_field ''admin_enabled'' (bool_text (mn_admin_enabled s))])"

text \<open>\<open>what\<close>: the text of the exception when the settings cannot be saved.\<close>

definition handle_admin_put_config :: "mns_env \<Rightarrow> int \<Rightarrow> string \<Rightarrow> string \<Rightarrow> string \<Rightarrow> mns \<Rightarrow> (nat \<times> string) \<times> mns" where
  "handle_admin_put_config env port data_dir what body s =
     (if \<not> mn_admin_enabled s then ((403, error_body ''admin config mutation disabled (--admin-enabled=false)''), s)
      else if occurs ([QUOTE] @ ''port'' @ [QUOTE]) body \<or> occurs ([QUOTE] @ ''data_dir'' @ [QUOTE]) body then
        ((400, error_body (''port and data_dir are immutable at runtime; set them via config.mns.conf or '' @
           ''--port/--data-dir and restart'')), s)
      else
        let has_url = mns_has_string_key body ''registry_url''; has_group = mns_has_string_key body ''registry_group'';
            url = (if has_url then mns_string body ''registry_url'' else mn_registry_url s);
            grp = (if has_group then (let g = mns_string body ''registry_group'' in if g = [] then ''default'' else g)
                   else mn_registry_group s)
        in if \<not> has_url \<and> \<not> has_group then
             ((400, error_body ''no recognized mutable keys in body (registry_url, registry_group)''), s)
           else if mn_config s \<noteq> None \<and> \<not> me_works env Save_Config then
             ((500, error_body (''could not save the admin config ('' @ mns_escape what @ ''); nothing was changed'')), s)
           else
             let s = s\<lparr>mn_registry_url := url, mn_registry_group := grp,
                   mn_config := map_option (\<lambda>c. c(''registry_url'' \<mapsto> url, ''registry_group'' \<mapsto> grp)) (mn_config s)\<rparr>
             in (handle_admin_get_config port data_dir s, s))"

section \<open>Calls\<close>

datatype mns_call =
    Register string
  | Transition string string
  | Progress string string
  | Set_Run_Group string string
  | Link_World_Model string string
  | Delete_Name string
  | Promote string string

definition mns_step :: "mns_env \<Rightarrow> mns_call \<Rightarrow> mns \<Rightarrow> (nat \<times> string) \<times> mns" where
  "mns_step env c s =
     (case c of
        Register body \<Rightarrow> handle_register env body s
      | Transition name body \<Rightarrow> handle_state_transition env name body s
      | Progress name body \<Rightarrow> handle_progress_update env name body s
      | Set_Run_Group name body \<Rightarrow> handle_update_run_group env name body s
      | Link_World_Model name body \<Rightarrow> handle_link_world_model env name body s
      | Delete_Name name \<Rightarrow> handle_mns_delete env name s
      | Promote role body \<Rightarrow> handle_promote env role body s)"

definition mns_steps :: "(mns_env \<times> mns_call) list \<Rightarrow> mns \<Rightarrow> mns" where
  "mns_steps calls s = foldl (\<lambda>s (env, c). snd (mns_step env c s)) s calls"

end
