(* ===== verification/Mns_Life.thy ===== *)
theory Mns_Life
  imports Mns_Service "HOL-Library.Sublist"
begin

text \<open>
  The life of a model as an abstract machine on the two tables in memory, and that every call of the service is one of
  its steps.
\<close>

section \<open>The machine\<close>

type_synonym life = "(string \<rightharpoonup> ModelRecord) \<times> (string \<rightharpoonup> string)"

definition life_of :: "mns \<Rightarrow> life" where
  "life_of s = (mn_models s, mn_roles s)"

text \<open>What a model keeps until it is deleted.\<close>

definition fixed_part :: "ModelRecord \<Rightarrow> string \<times> string \<times> string \<times> ModelArchitecture \<times> string \<times> string \<times> (string \<times> string) list" where
  "fixed_part r = (mr_id r, mr_name r, mr_kind r, mr_arch r, mc_encoder_name (mr_connection r), mc_decoder_name (mr_connection r),
     mr_tags r)"

definition state_edge :: "string \<Rightarrow> string \<Rightarrow> bool" where
  "state_edge a b \<longleftrightarrow> a = b \<or> (a, b) \<in>
     {(''initializing'', ''training''), (''candidate'', ''training''), (''training'', ''candidate''),
      (''initializing'', ''candidate''), (''retired'', ''candidate'')} \<or> a \<noteq> ''retired'' \<and> b = ''retired''"

definition training_named :: "ModelRecord \<Rightarrow> bool" where
  "training_named r \<longleftrightarrow> (mr_state r = ''training'' \<longrightarrow> mr_run_id r = ''run-'' @ zero_pad2 (mr_run_number r))"

definition life_edge :: "ModelRecord \<Rightarrow> ModelRecord \<Rightarrow> bool" where
  "life_edge r r' \<longleftrightarrow>
     fixed_part r' = fixed_part r \<and> mr_role r' = mr_role r \<and> state_edge (mr_state r) (mr_state r') \<and>
     prefix (mr_history r) (mr_history r') \<and> (0 \<le> mr_run_number r \<longrightarrow> mr_run_number r \<le> mr_run_number r') \<and>
     (training_named r \<longrightarrow> training_named r')"

definition fresh_model :: "string \<Rightarrow> ModelRecord \<Rightarrow> bool" where
  "fresh_model n r \<longleftrightarrow> n \<noteq> [] \<and> mr_name r = n \<and> mr_state r = ''initializing'' \<and> known_kind (mr_kind r) \<and> mr_run_number r = 0 \<and>
     mr_history r = []"

definition retire_previous :: "string \<Rightarrow> string \<Rightarrow> string \<Rightarrow> life \<Rightarrow> (string \<rightharpoonup> ModelRecord)" where
  "retire_previous now role n l =
     (case l of (m, ro) \<Rightarrow>
        (case ro role of
           None \<Rightarrow> m
         | Some prev \<Rightarrow>
             if prev = [] \<or> prev = n then m
             else case m prev of
               None \<Rightarrow> m
             | Some p \<Rightarrow> if mr_state p = ''production''
                         then m(prev \<mapsto> p\<lparr>mr_state := ''retired'', mr_updated_utc := now\<rparr>) else m))"

text \<open>A step may delete only the model it names.\<close>

inductive life_step :: "string option \<Rightarrow> life \<Rightarrow> life \<Rightarrow> bool" where
  stay: "life_step d l l"
| create: "m n = None \<Longrightarrow> fresh_model n r \<Longrightarrow> life_step d (m, ro) (m(n \<mapsto> r), ro)"
| change: "m n = Some r \<Longrightarrow> life_edge r r' \<Longrightarrow> life_step d (m, ro) (m(n \<mapsto> r'), ro)"
| remove: "m n = Some r \<Longrightarrow> mr_state r \<notin> {''training'', ''candidate'', ''production''} \<Longrightarrow>
    life_step (Some n) (m, ro) (m(n := None), \<lambda>role. if ro role = Some n then None else ro role)"
| promote: "m n = Some r \<Longrightarrow> mr_state r = ''candidate'' \<Longrightarrow>
    life_step d (m, ro) ((retire_previous now role n (m, ro))
      (n \<mapsto> r\<lparr>mr_state := ''production'', mr_role := role, mr_updated_utc := now\<rparr>), ro(role \<mapsto> n))"

section \<open>The handlers follow it\<close>

lemma persist_model_life [simp]:
  "mn_models (persist_model env r s) = mn_models s" "mn_roles (persist_model env r s) = mn_roles s"
  by (simp_all add: persist_model_def Let_def split: option.split)

lemma persist_roles_life [simp]:
  "mn_models (persist_roles env s) = mn_models s" "mn_roles (persist_roles env s) = mn_roles s"
  by (simp_all add: persist_roles_def Let_def split: option.split)

lemma registered_fresh: "n \<noteq> [] \<Longrightarrow> known_kind kind \<Longrightarrow> fresh_model n (registered_model env n kind body)"
  by (simp add: fresh_model_def registered_model_def no_model_def Let_def)

lemma register_life: "life_step None (life_of s) (life_of (snd (handle_register env body s)))"
  unfolding handle_register_def Let_def
  by (auto simp: life_of_def split: option.split intro!: life_step.stay life_step.create registered_fresh)

lemma start_training_edge:
  assumes "mr_state r \<in> {''initializing'', ''candidate'', ''training''}"
  shows "life_edge r ((start_training env body r)\<lparr>mr_state := ''training'', mr_updated_utc := now\<rparr>)"
  using assms
  by (auto simp: life_edge_def fixed_part_def state_edge_def training_named_def start_training_def clear_progress_def
      next_run_number_def Let_def)

lemma finish_training_edge:
  assumes "mr_state r \<in> {''training'', ''initializing'', ''retired''}"
  shows "life_edge r ((finish_training env body r)\<lparr>mr_state := ''candidate'', mr_updated_utc := now\<rparr>)"
  using assms
  by (auto simp: life_edge_def fixed_part_def state_edge_def training_named_def finish_training_def clear_progress_def Let_def)

lemma retire_edge:
  "mr_state r \<noteq> ''retired'' \<Longrightarrow> life_edge r (r\<lparr>mr_state := ''retired'', mr_updated_utc := now\<rparr>)"
  by (simp add: life_edge_def fixed_part_def state_edge_def training_named_def)

lemma transition_edge:
  assumes "valid_transition (mr_state r) new = Some True"
  shows "life_edge r ((if new = ''training'' then start_training env body r
    else if new = ''candidate'' then finish_training env body r else r)\<lparr>mr_state := new, mr_updated_utc := now\<rparr>)"
proof -
  consider "new = ''training''" "mr_state r \<in> {''initializing'', ''candidate'', ''training''}"
    | "new = ''candidate''" "mr_state r \<in> {''training'', ''initializing'', ''retired''}"
    | "new = ''retired''" "mr_state r \<noteq> ''retired''"
    using assms by (auto simp: valid_transition_def split: if_splits)
  then show ?thesis by cases (simp_all add: start_training_edge finish_training_edge retire_edge)
qed

lemma transition_life: "life_step None (life_of s) (life_of (snd (handle_state_transition env name body s)))"
proof (cases "mn_models s name")
  case None
  then show ?thesis by (simp add: handle_state_transition_def Let_def life_step.stay)
next
  case (Some r)
  show ?thesis
  proof (cases "valid_transition (mr_state r) (mns_string body ''state'') = Some True")
    case True
    from life_step.change [where m = "mn_models s", OF Some transition_edge [OF True]] True Some show ?thesis
      by (simp add: handle_state_transition_def Let_def life_of_def life_step.stay)
  next
    case False
    then consider "valid_transition (mr_state r) (mns_string body ''state'') = None"
      | "valid_transition (mr_state r) (mns_string body ''state'') = Some False"
      by (cases "valid_transition (mr_state r) (mns_string body ''state'')") auto
    then show ?thesis using Some by cases (simp_all add: handle_state_transition_def Let_def life_step.stay)
  qed
qed

lemma touched_edge:
  assumes "fixed_part r' = fixed_part r" and "mr_role r' = mr_role r" and "mr_state r' = mr_state r"
    and "mr_history r' = mr_history r" and "mr_run_number r' = mr_run_number r" and "mr_run_id r' = mr_run_id r"
  shows "life_edge r r'"
  using assms by (simp add: life_edge_def state_edge_def training_named_def)

lemma progress_life: "life_step None (life_of s) (life_of (snd (handle_progress_update env name body s)))"
  by (auto simp: handle_progress_update_def life_of_def Let_def fixed_part_def split: option.split
      intro!: life_step.stay life_step.change touched_edge)

lemma run_group_life: "life_step None (life_of s) (life_of (snd (handle_update_run_group env name body s)))"
  by (auto simp: handle_update_run_group_def life_of_def Let_def fixed_part_def split: option.split
      intro!: life_step.stay life_step.change touched_edge)

lemma linked_names: "mc_encoder_name (linked_connection body wm merge inject c) = mc_encoder_name c"
    "mc_decoder_name (linked_connection body wm merge inject c) = mc_decoder_name c"
  by (simp_all add: linked_connection_def Let_def)

lemma link_life: "life_step None (life_of s) (life_of (snd (handle_link_world_model env name body s)))"
  by (auto simp: handle_link_world_model_def life_of_def Let_def fixed_part_def linked_names split: option.split
      intro!: life_step.stay life_step.change touched_edge)

lemma delete_life: "life_step (Some name) (life_of s) (life_of (snd (handle_mns_delete env name s)))"
  by (auto simp: handle_mns_delete_def life_of_def Let_def split: option.split intro!: life_step.stay life_step.remove)

lemma promote_life: "life_step None (life_of s) (life_of (snd (handle_promote env role body s)))"
proof -
  let ?n = "mns_string body ''model_name''"
  show ?thesis
  proof (cases "mn_models s ?n")
    case None
    then show ?thesis by (simp add: handle_promote_def Let_def life_step.stay)
  next
    case (Some r)
    show ?thesis
    proof (cases "mns_valid_name role \<and> ?n \<noteq> [] \<and> mr_state r = ''candidate''")
      case True
      then have "life_of (snd (handle_promote env role body s)) =
         ((retire_previous (me_now env) role ?n (life_of s))
            (?n \<mapsto> r\<lparr>mr_state := ''production'', mr_role := role, mr_updated_utc := me_now env\<rparr>),
          (mn_roles s)(role \<mapsto> ?n))"
        using Some by (simp add: handle_promote_def Let_def life_of_def retire_previous_def split: option.split)
      then show ?thesis using life_step.promote [where m = "mn_models s", OF Some] True by (simp add: life_of_def)
    next
      case False
      then show ?thesis using Some by (auto simp: handle_promote_def Let_def life_step.stay)
    qed
  qed
qed

lemmas calls_life = register_life transition_life progress_life run_group_life link_life delete_life promote_life

definition deleted_name :: "mns_call \<Rightarrow> string option" where
  "deleted_name c = (case c of Delete_Name n \<Rightarrow> Some n | _ \<Rightarrow> None)"

lemma mns_step_life: "life_step (deleted_name c) (life_of s) (life_of (snd (mns_step env c s)))"
  by (cases c) (simp_all add: mns_step_def calls_life deleted_name_def)

lemma mns_steps_simps [simp]:
  "mns_steps [] s = s"
  "mns_steps (x # xs) s = mns_steps xs (snd (mns_step (fst x) (snd x) s))"
  by (simp_all add: mns_steps_def case_prod_unfold)

section \<open>Invariant\<close>

definition life_ok :: "life \<Rightarrow> bool" where
  "life_ok l \<longleftrightarrow>
     (case l of (m, ro) \<Rightarrow>
        (\<forall>n r. m n = Some r \<longrightarrow> mr_name r = n \<and> n \<noteq> [] \<and> known_kind (mr_kind r) \<and> 0 \<le> mr_run_number r \<and> training_named r \<and>
           mr_state r \<in> {''initializing'', ''training'', ''candidate'', ''production'', ''retired''} \<and>
           (mr_state r = ''production'' \<longrightarrow> ro (mr_role r) = Some n)) \<and>
        (\<forall>role n. ro role = Some n \<longrightarrow> m n \<noteq> None))"

lemma life_ok_model:
  assumes "life_ok (m, ro)" and "m n = Some r"
  shows "mr_name r = n" "known_kind (mr_kind r)" "0 \<le> mr_run_number r" "training_named r"
    "mr_state r \<in> {''initializing'', ''training'', ''candidate'', ''production'', ''retired''}"
    "mr_state r = ''production'' \<Longrightarrow> ro (mr_role r) = Some n" "n \<noteq> []"
  using assms by (auto simp: life_ok_def)

lemma edge_keeps:
  assumes "life_edge r r'" and "life_ok (m, ro)" and "m n = Some r"
  shows "life_ok (m(n \<mapsto> r'), ro)"
proof -
  note r = life_ok_model [OF assms(2,3)]
  have "mr_name r' = n" "known_kind (mr_kind r')" "0 \<le> mr_run_number r'" "training_named r'"
    using assms(1) r(1-4) by (auto simp: life_edge_def fixed_part_def)
  moreover have "mr_state r' \<in> {''initializing'', ''training'', ''candidate'', ''production'', ''retired''}"
    "mr_state r' = ''production'' \<Longrightarrow> mr_state r = ''production'' \<and> mr_role r' = mr_role r"
    using assms(1) r(5) by (auto simp: life_edge_def state_edge_def)
  ultimately show ?thesis using assms(2) r(6,7) by (auto simp: life_ok_def)
qed

lemma retired_previous:
  assumes "life_ok (m, ro)" and "retire_previous now role n (m, ro) q = Some p" and "q \<noteq> n"
  obtains p0 where "m q = Some p0" "p = p0" "\<not> (mr_state p0 = ''production'' \<and> mr_role p0 = role)"
  | p0 where "m q = Some p0" "p = p0\<lparr>mr_state := ''retired'', mr_updated_utc := now\<rparr>"
proof -
  obtain p0 where p0: "m q = Some p0" using assms(2) by (auto simp: retire_previous_def split: option.splits if_splits)
  show thesis
  proof (cases "mr_state p0 = ''production'' \<and> mr_role p0 = role")
    case True
    then have "ro role = Some q" "q \<noteq> []"
      using life_ok_model(6) [OF assms(1) p0] life_ok_model(7) [OF assms(1) p0] by auto
    then have "p = p0\<lparr>mr_state := ''retired'', mr_updated_utc := now\<rparr>"
      using assms(2,3) p0 True by (simp add: retire_previous_def)
    then show thesis using that(2) p0 by blast
  next
    case False
    then show thesis
      using assms(2) p0 that by (auto simp: retire_previous_def split: option.splits if_splits)
  qed
qed

lemma promote_keeps:
  assumes ok: "life_ok (m, ro)" and n: "m n = Some r" and c: "mr_state r = ''candidate''"
  shows "life_ok ((retire_previous now role n (m, ro))
    (n \<mapsto> r\<lparr>mr_state := ''production'', mr_role := role, mr_updated_utc := now\<rparr>), ro(role \<mapsto> n))"
    (is "life_ok (?m(n \<mapsto> ?r), _)")
proof -
  have dom: "?m q \<noteq> None \<longleftrightarrow> m q \<noteq> None" for q by (simp add: retire_previous_def split: option.split)
  have model: "mr_name p = q \<and> q \<noteq> [] \<and> known_kind (mr_kind p) \<and> 0 \<le> mr_run_number p \<and> training_named p \<and>
      mr_state p \<in> {''initializing'', ''training'', ''candidate'', ''production'', ''retired''} \<and>
      (mr_state p = ''production'' \<longrightarrow> (ro(role \<mapsto> n)) (mr_role p) = Some q)" if p: "(?m(n \<mapsto> ?r)) q = Some p" for q p
  proof (cases "q = n")
    case True
    then show ?thesis using p life_ok_model [OF ok n] by (auto simp: training_named_def)
  next
    case False
    then have "?m q = Some p" using p by simp
    from ok this False show ?thesis
      by (cases rule: retired_previous) (use life_ok_model [OF ok] in \<open>auto simp: training_named_def\<close>)
  qed
  have "(?m(n \<mapsto> ?r)) q \<noteq> None" if "(ro(role \<mapsto> n)) k = Some q" for k q
    using that ok dom [of q] by (auto simp: life_ok_def split: if_splits)
  with model show ?thesis unfolding life_ok_def prod.case by blast
qed

lemma life_step_ok: "life_step d l l' \<Longrightarrow> life_ok l \<Longrightarrow> life_ok l'"
proof (induction rule: life_step.induct)
  case (create m n r d ro)
  then show ?case by (auto simp: life_ok_def fresh_model_def training_named_def)
next
  case (remove m n r ro)
  then show ?case by (auto simp: life_ok_def split: if_splits)
qed (simp_all add: edge_keeps promote_keeps)

lemma mns_steps_ok: "life_ok (life_of s) \<Longrightarrow> life_ok (life_of (mns_steps calls s))"
  by (induction calls arbitrary: s) (auto intro: life_step_ok [OF mns_step_life])

section \<open>What a model keeps\<close>

text \<open>Between two steps a model stays the same one, or is deleted.\<close>

lemma life_step_keeps:
  assumes "life_step d l l'" and "life_ok l" and "fst l n = Some r" and "fst l' n = Some r'"
  shows "fixed_part r' = fixed_part r \<and> prefix (mr_history r) (mr_history r') \<and> mr_run_number r \<le> mr_run_number r'"
  using assms
proof (induction rule: life_step.induct)
  case (change m k q q' d ro)
  then show ?case using life_ok_model(3) [of m ro k q] by (auto simp: life_edge_def split: if_splits)
next
  case (promote m k q d ro now role)
  show ?case
  proof (cases "n = k")
    case True
    then show ?thesis using promote by (auto simp: fixed_part_def)
  next
    case False
    then have "retire_previous now role k (m, ro) n = Some r'" using promote.prems by simp
    from promote.prems(1) this False show ?thesis
      by (cases rule: retired_previous) (use promote.prems in \<open>auto simp: fixed_part_def\<close>)
  qed
qed (auto split: if_splits)

lemma stays_known: "life_step d l l' \<Longrightarrow> fst l n \<noteq> None \<Longrightarrow> d \<noteq> Some n \<Longrightarrow> fst l' n \<noteq> None"
  by (induction rule: life_step.induct) (auto simp: retire_previous_def split: option.split)

lemma mns_steps_keep:
  assumes "life_ok (life_of s)" and "mn_models s n = Some r" and "list_all (\<lambda>(env, c). c \<noteq> Delete_Name n) calls"
  shows "\<exists>r'. mn_models (mns_steps calls s) n = Some r' \<and> fixed_part r' = fixed_part r \<and>
    prefix (mr_history r) (mr_history r') \<and> mr_run_number r \<le> mr_run_number r'"
  using assms
proof (induction calls arbitrary: s r)
  case (Cons x xs)
  obtain env c where x: "x = (env, c)" by (cases x)
  have "deleted_name c \<noteq> Some n" using Cons.prems(3) by (cases c) (simp_all add: x deleted_name_def)
  then obtain r1 where r1: "mn_models (snd (mns_step env c s)) n = Some r1"
    using stays_known [OF mns_step_life, of s n c env] Cons.prems(2) by (auto simp: life_of_def)
  then have keep: "fixed_part r1 = fixed_part r \<and> prefix (mr_history r) (mr_history r1) \<and> mr_run_number r \<le> mr_run_number r1"
    using life_step_keeps [OF mns_step_life Cons.prems(1)] Cons.prems(2) by (simp add: life_of_def)
  have "life_ok (life_of (snd (mns_step env c s)))" using life_step_ok [OF mns_step_life Cons.prems(1)] .
  from Cons.IH [OF this r1] Cons.prems(3) keep show ?case by (auto simp: x intro: prefix_order.trans)
qed simp

end
