(* ===== verification/Mns_Links.thy ===== *)
theory Mns_Links
  imports Mns_Life
begin

text \<open>
  What registering and linking promise: a chatbot's encoder, decoder and world model exist, are of the right kind and have
  its dimensions. Calls keep this as long as nobody deletes a model that is linked.
\<close>

section \<open>Records that fit\<close>

definition stack_shape :: "ModelArchitecture \<Rightarrow> nat \<times> nat \<times> nat \<times> nat" where
  "stack_shape a = (ma_d_model a, ma_num_heads a, ma_d_ff a, ma_max_seq_length a)"

definition linked_pair :: "(string \<rightharpoonup> ModelRecord) \<Rightarrow> ModelConnection \<Rightarrow> bool" where
  "linked_pair models c \<longleftrightarrow>
     mc_encoder_name c = [] \<and> mc_decoder_name c = [] \<or>
     (\<exists>enc dec. models (mc_encoder_name c) = Some enc \<and> mr_kind enc = ''encoder'' \<and> mc_encoder_name c \<noteq> [] \<and>
        models (mc_decoder_name c) = Some dec \<and> mr_kind dec = ''decoder'' \<and> mc_decoder_name c \<noteq> [] \<and>
        stack_shape (mr_arch enc) = stack_shape (mr_arch dec))"

definition linked_world :: "(string \<rightharpoonup> ModelRecord) \<Rightarrow> ModelRecord \<Rightarrow> bool" where
  "linked_world models r \<longleftrightarrow>
     (mc_world_model_name (mr_connection r) \<noteq> [] \<longrightarrow>
        (\<exists>wm. models (mc_world_model_name (mr_connection r)) = Some wm \<and> mr_kind wm = ''world_model'' \<and>
           (0 < mc_inject_every_n_layers (mr_connection r) \<longrightarrow> ma_d_model (mr_arch wm) = resolved_d_model models r)))"

definition one_stack :: "string \<Rightarrow> ModelArchitecture \<Rightarrow> bool" where
  "one_stack kind a \<longleftrightarrow>
     (if kind = ''decoder'' then ma_num_decoder_layers a \<noteq> 0 \<and> ma_num_encoder_layers a = 0
      else ma_num_encoder_layers a \<noteq> 0 \<and> ma_num_decoder_layers a = 0) \<and>
     ma_d_model a \<noteq> 0 \<and> ma_num_heads a \<noteq> 0 \<and> ma_d_ff a \<noteq> 0 \<and> ma_max_seq_length a \<noteq> 0"

definition fits :: "(string \<rightharpoonup> ModelRecord) \<Rightarrow> ModelRecord \<Rightarrow> bool" where
  "fits models r \<longleftrightarrow>
     (if mr_kind r = ''chatbot'' then linked_pair models (mr_connection r) \<and> linked_world models r
      else one_stack (mr_kind r) (mr_arch r))"

definition links_ok :: "(string \<rightharpoonup> ModelRecord) \<Rightarrow> bool" where
  "links_ok models \<longleftrightarrow> (\<forall>n r. models n = Some r \<longrightarrow> fits models r)"

text \<open>The checks decide it.\<close>

lemma pair_error_None: "pair_error models e d = None \<Longrightarrow> mc_encoder_name c = e \<Longrightarrow> mc_decoder_name c = d \<Longrightarrow> linked_pair models c"
  by (auto simp: pair_error_def linked_pair_def stack_shape_def same_shape_def Let_def split: if_splits option.splits)

lemma world_error_None:
  assumes "validate_world_model_link models r wm inject = None"
  shows "\<exists>w. models wm = Some w \<and> mr_kind w = ''world_model'' \<and> (0 < inject \<longrightarrow> ma_d_model (mr_arch w) = resolved_d_model models r)"
  using assms by (auto simp: validate_world_model_link_def split: if_splits option.splits)

lemma standalone_error_None: "standalone_error kind a = None \<longleftrightarrow> one_stack kind a"
  by (simp add: standalone_error_def one_stack_def Let_def)

lemma chatbot_error_None:
  assumes "chatbot_error models r = None"
  shows "linked_pair models (mr_connection r)" "linked_world models r"
proof -
  let ?c = "mr_connection r"
  have pair: "pair_error models (mc_encoder_name ?c) (mc_decoder_name ?c) = None"
    using assms by (simp add: chatbot_error_def Let_def split: option.splits)
  show "linked_pair models ?c" by (rule pair_error_None [OF pair]) simp_all
  show "linked_world models r"
    using assms pair world_error_None [of models r "mc_world_model_name ?c" "mc_inject_every_n_layers ?c"]
    by (auto simp: chatbot_error_def linked_world_def Let_def)
qed

section \<open>They keep fitting\<close>

definition world_link :: "ModelRecord \<Rightarrow> string \<times> nat" where
  "world_link r = (mc_world_model_name (mr_connection r), mc_inject_every_n_layers (mr_connection r))"

definition names_linked :: "ModelRecord \<Rightarrow> string set" where
  "names_linked r = {mc_encoder_name (mr_connection r), mc_decoder_name (mr_connection r), mc_world_model_name (mr_connection r)}"

lemma fixed_partD:
  assumes "fixed_part r' = fixed_part r"
  shows "mr_kind r' = mr_kind r" "mr_arch r' = mr_arch r" "mc_encoder_name (mr_connection r') = mc_encoder_name (mr_connection r)"
    "mc_decoder_name (mr_connection r') = mc_decoder_name (mr_connection r)"
  using assms by (simp_all add: fixed_part_def)

lemma fits_kept:
  assumes fit: "fits m r" and same: "fixed_part r' = fixed_part r" "world_link r' = world_link r"
    and kept: "\<And>k q. k \<in> names_linked r \<Longrightarrow> m k = Some q \<Longrightarrow> \<exists>q'. m' k = Some q' \<and> fixed_part q' = fixed_part q"
  shows "fits m' r'"
proof (cases "mr_kind r = ''chatbot''")
  case False
  then show ?thesis using fit fixed_partD [OF same(1)] by (simp add: fits_def)
next
  case True
  let ?c = "mr_connection r" and ?c' = "mr_connection r'"
  note fixed = fixed_partD [OF same(1)]
  have pair: "linked_pair m ?c" and world: "linked_world m r" using fit True by (simp_all add: fits_def)
  have pair': "linked_pair m' ?c' \<and> resolved_d_model m' r' = resolved_d_model m r"
  proof (cases "mc_encoder_name ?c = []")
    case True
    then show ?thesis using pair fixed by (simp add: linked_pair_def resolved_d_model_def)
  next
    case False
    then obtain enc dec where e: "m (mc_encoder_name ?c) = Some enc" "mr_kind enc = ''encoder''"
      and d: "m (mc_decoder_name ?c) = Some dec" "mr_kind dec = ''decoder''" "mc_decoder_name ?c \<noteq> []"
      and shape: "stack_shape (mr_arch enc) = stack_shape (mr_arch dec)"
      using pair unfolding linked_pair_def by blast
    obtain enc' where e': "m' (mc_encoder_name ?c) = Some enc'" "fixed_part enc' = fixed_part enc"
      using kept [OF _ e(1)] by (auto simp: names_linked_def)
    obtain dec' where d': "m' (mc_decoder_name ?c) = Some dec'" "fixed_part dec' = fixed_part dec"
      using kept [OF _ d(1)] by (auto simp: names_linked_def)
    show ?thesis
      using False e d e' d' shape fixed fixed_partD [OF e'(2)] fixed_partD [OF d'(2)]
      by (simp add: linked_pair_def resolved_d_model_def)
  qed
  have "linked_world m' r'"
    unfolding linked_world_def
  proof
    assume "mc_world_model_name ?c' \<noteq> []"
    then obtain w where w: "m (mc_world_model_name ?c) = Some w" "mr_kind w = ''world_model''"
      "0 < mc_inject_every_n_layers ?c \<longrightarrow> ma_d_model (mr_arch w) = resolved_d_model m r"
      using world same(2) by (auto simp: linked_world_def world_link_def)
    obtain w' where w': "m' (mc_world_model_name ?c) = Some w'" "fixed_part w' = fixed_part w"
      using kept [OF _ w(1)] by (auto simp: names_linked_def)
    show "\<exists>wm. m' (mc_world_model_name ?c') = Some wm \<and> mr_kind wm = ''world_model'' \<and>
        (0 < mc_inject_every_n_layers ?c' \<longrightarrow> ma_d_model (mr_arch wm) = resolved_d_model m' r')"
      using w w' fixed_partD [OF w'(2)] same(2) pair' by (simp add: world_link_def)
  qed
  with pair' True fixed show ?thesis by (simp add: fits_def)
qed

section \<open>Where a record comes from\<close>

definition descends :: "(string \<rightharpoonup> ModelRecord) \<Rightarrow> string \<Rightarrow> ModelRecord \<Rightarrow> bool" where
  "descends m n r' \<longleftrightarrow> (\<exists>r. m n = Some r \<and> fixed_part r' = fixed_part r \<and> world_link r' = world_link r) \<or> fits m r'"

lemma descends_refl: "m n = Some r \<Longrightarrow> descends m n r"
  by (auto simp: descends_def)

lemma descends_same:
  "m n = Some r \<Longrightarrow> fixed_part r' = fixed_part r \<Longrightarrow> mr_connection r' = mr_connection r \<Longrightarrow> descends m n r'"
  by (auto simp: descends_def world_link_def)

lemma register_descends:
  assumes "mn_models (snd (handle_register env body s)) n = Some r"
  shows "descends (mn_models s) n r"
proof (cases "mn_models s n = Some r")
  case False
  let ?name = "mns_string body ''model_name''" and ?k = "mns_string body ''kind''"
  define kind where "kind = (if ?k = [] then ''chatbot'' else ?k)"
  have "r = registered_model env ?name kind body \<and>
      (if kind = ''chatbot'' then chatbot_error (mn_models s) r else standalone_error kind (mr_arch r)) = None"
    using assms False unfolding handle_register_def Let_def kind_def [symmetric]
    by (auto split: if_splits option.splits)
  moreover have "mr_kind (registered_model env ?name kind body) = kind"
    by (simp add: registered_model_def no_model_def Let_def)
  ultimately have "fits (mn_models s) r"
    using chatbot_error_None [of "mn_models s" r] standalone_error_None by (auto simp: fits_def split: if_splits)
  then show ?thesis by (simp add: descends_def)
qed (rule descends_refl)

lemma training_fixed [simp]:
  "fixed_part (start_training env body r) = fixed_part r" "mr_connection (start_training env body r) = mr_connection r"
  "fixed_part (finish_training env body r) = fixed_part r" "mr_connection (finish_training env body r) = mr_connection r"
  by (simp_all add: start_training_def finish_training_def clear_progress_def fixed_part_def Let_def)

lemma fixed_part_update [simp]:
  "fixed_part (r\<lparr>mr_state := st, mr_updated_utc := now\<rparr>) = fixed_part r"
  "fixed_part (r\<lparr>mr_state := st, mr_role := ro, mr_updated_utc := now\<rparr>) = fixed_part r"
  by (simp_all add: fixed_part_def)

lemma transition_descends:
  assumes "mn_models (snd (handle_state_transition env name body s)) n = Some r"
  shows "descends (mn_models s) n r"
proof (cases "mn_models s n = Some r")
  case False
  have n: "n = name"
    by (rule ccontr) (use assms False in \<open>simp add: handle_state_transition_def Let_def split: if_splits option.splits bool.splits\<close>)
  obtain r0 where r0: "mn_models s name = Some r0"
    using assms n by (auto simp: handle_state_transition_def Let_def split: if_splits option.splits)
  have "fixed_part r = fixed_part r0 \<and> mr_connection r = mr_connection r0"
    using assms False r0 n
    by (auto simp: handle_state_transition_def Let_def split: if_splits option.splits bool.splits)
  with r0 n show ?thesis by (auto intro: descends_same)
qed (rule descends_refl)

lemma progress_descends:
  assumes "mn_models (snd (handle_progress_update env name body s)) n = Some r"
  shows "descends (mn_models s) n r"
  using assms by (auto simp: handle_progress_update_def Let_def fixed_part_def split: if_splits option.splits
      intro: descends_refl intro!: descends_same)

lemma run_group_descends:
  assumes "mn_models (snd (handle_update_run_group env name body s)) n = Some r"
  shows "descends (mn_models s) n r"
  using assms by (auto simp: handle_update_run_group_def Let_def fixed_part_def split: if_splits option.splits
      intro: descends_refl intro!: descends_same)

lemma promote_descends:
  assumes "mn_models (snd (handle_promote env role body s)) n = Some r"
  shows "descends (mn_models s) n r"
proof (cases "mn_models s n = Some r")
  case False
  then have "\<exists>r0. mn_models s n = Some r0 \<and> fixed_part r = fixed_part r0 \<and> mr_connection r = mr_connection r0"
    using assms by (auto simp: handle_promote_def Let_def split: if_splits option.splits)
  then show ?thesis by (auto intro: descends_same)
qed (rule descends_refl)

lemma delete_descends: "mn_models (snd (handle_mns_delete env name s)) n = Some r \<Longrightarrow> descends (mn_models s) n r"
  by (auto simp: handle_mns_delete_def Let_def split: if_splits option.splits intro: descends_refl)

text \<open>The link is validated against the record as it was; its encoder, decoder and dimensions do not change.\<close>

lemma link_descends:
  assumes "mn_models (snd (handle_link_world_model env name body s)) n = Some r" and "links_ok (mn_models s)"
  shows "descends (mn_models s) n r"
proof (cases "mn_models s n = Some r")
  case False
  let ?m = "mn_models s"
  obtain r0 where r0: "?m name = Some r0" and n: "n = name" and kind: "mr_kind r0 = ''chatbot''"
    using assms(1) False by (auto simp: handle_link_world_model_def Let_def split: if_splits option.splits)
  have pair: "linked_pair ?m (mr_connection r0)" using assms(2) r0 kind by (auto simp: links_ok_def fits_def)
  let ?c = "mr_connection r"
  have "mr_kind r = ''chatbot'' \<and> mr_arch r = mr_arch r0 \<and> mc_encoder_name ?c = mc_encoder_name (mr_connection r0) \<and>
      mc_decoder_name ?c = mc_decoder_name (mr_connection r0) \<and>
      (mc_world_model_name ?c = [] \<or>
        validate_world_model_link ?m r0 (mc_world_model_name ?c) (mc_inject_every_n_layers ?c) = None)"
    using assms(1) False r0 n kind
    by (auto simp: handle_link_world_model_def Let_def linked_connection_def split: if_splits option.splits)
  note r = this
  have "linked_pair ?m ?c" using pair r by (simp add: linked_pair_def)
  moreover have "resolved_d_model ?m r = resolved_d_model ?m r0" using r by (simp add: resolved_d_model_def split: option.split)
  then have "linked_world ?m r" using r world_error_None by (fastforce simp: linked_world_def)
  ultimately show ?thesis using r by (simp add: descends_def fits_def)
qed (rule descends_refl)

lemma mns_step_descends:
  assumes "mn_models (snd (mns_step env c s)) n = Some r" and "links_ok (mn_models s)"
  shows "descends (mn_models s) n r"
  using assms
  by (cases c) (auto simp: mns_step_def dest: register_descends transition_descends progress_descends run_group_descends
      link_descends delete_descends promote_descends)

section \<open>Calls\<close>

definition linked_to :: "(string \<rightharpoonup> ModelRecord) \<Rightarrow> string \<Rightarrow> bool" where
  "linked_to models n \<longleftrightarrow> (\<exists>k r. models k = Some r \<and> n \<in> names_linked r)"

lemma mns_step_links:
  assumes ok: "life_ok (life_of s)" and links: "links_ok (mn_models s)"
    and del: "\<And>n. c = Delete_Name n \<Longrightarrow> \<not> linked_to (mn_models s) n"
  shows "links_ok (mn_models (snd (mns_step env c s)))"
  unfolding links_ok_def
proof (intro allI impI)
  let ?m = "mn_models s" and ?m' = "mn_models (snd (mns_step env c s))"
  fix n r assume r: "?m' n = Some r"
  have kept: "\<exists>q'. ?m' k = Some q' \<and> fixed_part q' = fixed_part q" if q: "?m k = Some q" and del: "c \<noteq> Delete_Name k" for k q
  proof -
    have "deleted_name c \<noteq> Some k" using del by (cases c) (simp_all add: deleted_name_def)
    then obtain q' where q': "?m' k = Some q'"
      using stays_known [OF mns_step_life, of s k c env] q by (auto simp: life_of_def)
    then show ?thesis using life_step_keeps [OF mns_step_life ok] q by (auto simp: life_of_def)
  qed
  from mns_step_descends [OF r links] show "fits ?m' r"
    unfolding descends_def
  proof (elim disjE exE conjE)
    fix r0 assume r0: "?m n = Some r0" "fixed_part r = fixed_part r0" "world_link r = world_link r0"
    have "fits ?m r0" using links r0(1) by (auto simp: links_ok_def)
    then show ?thesis
    proof (rule fits_kept [OF _ r0(2,3)])
      fix k q assume k: "k \<in> names_linked r0" "?m k = Some q"
      have "c \<noteq> Delete_Name k" using del [of k] k(1) r0(1) unfolding linked_to_def by blast
      then show "\<exists>q'. ?m' k = Some q' \<and> fixed_part q' = fixed_part q" by (rule kept [OF k(2)])
    qed
  next
    assume new: "fits ?m r"
    show ?thesis
    proof (cases "\<exists>k. c = Delete_Name k")
      case False
      then show ?thesis using fits_kept [OF new, of r ?m'] kept by blast
    next
      case True
      then have "?m n = Some r"
        using r by (auto simp: mns_step_def handle_mns_delete_def Let_def split: if_splits option.splits)
      then have "c \<noteq> Delete_Name k" if "k \<in> names_linked r" for k
        using del [of k] that unfolding linked_to_def by blast
      then show ?thesis using fits_kept [OF new, of r ?m'] kept by blast
    qed
  qed
qed

primrec deletes_unlinked :: "(mns_env \<times> mns_call) list \<Rightarrow> mns \<Rightarrow> bool" where
  "deletes_unlinked [] s = True"
| "deletes_unlinked (x # xs) s =
     ((case snd x of Delete_Name n \<Rightarrow> \<not> linked_to (mn_models s) n | _ \<Rightarrow> True) \<and>
      deletes_unlinked xs (snd (mns_step (fst x) (snd x) s)))"

lemma mns_steps_links:
  "life_ok (life_of s) \<Longrightarrow> links_ok (mn_models s) \<Longrightarrow> deletes_unlinked calls s \<Longrightarrow> links_ok (mn_models (mns_steps calls s))"
proof (induction calls arbitrary: s)
  case (Cons x xs)
  have "links_ok (mn_models (snd (mns_step (fst x) (snd x) s)))"
    by (rule mns_step_links) (use Cons.prems in auto)
  then show ?case using Cons.IH life_step_ok [OF mns_step_life Cons.prems(1)] Cons.prems(3) by simp
qed simp

end
