(* ===== verification/Mns_Text.thy ===== *)
theory Mns_Text
  imports Mns_Service Sample_Text
begin

text \<open>
  The stored texts of a model read back: a flat object of fields is searched for its keys, the tags are parsed as a map.
\<close>

section \<open>Searching a flat object\<close>

definition good_key :: "string \<Rightarrow> bool" where
  "good_key k \<longleftrightarrow> k \<noteq> [] \<and> QUOTE \<notin> set k \<and> List.hd k \<notin> {CHR '':'', CHR '','', CHR ''}''}"

definition good_value :: "string \<Rightarrow> bool" where
  "good_value v \<longleftrightarrow> QUOTE \<notin> set v \<or> (\<exists>w. v = QUOTE # w @ [QUOTE] \<and> QUOTE \<notin> set w)"

fun fields_text :: "(string \<times> string) list \<Rightarrow> string" where
  "fields_text [] = ''}''"
| "fields_text ((k, v) # fs) = CHR '','' # key_text k @ v @ fields_text fs"

lemma fields_text_first: "\<exists>t. fields_text fs = CHR '','' # t \<or> fields_text fs = CHR ''}'' # t"
  by (cases fs rule: fields_text.cases) simp_all

lemma find_after_skip: "QUOTE \<notin> set p \<Longrightarrow> find_after (QUOTE # n) (p @ t) = find_after (QUOTE # n) t"
  by (induction p) auto

lemma find_after_miss: "\<not> starts_with n t \<Longrightarrow> find_after (QUOTE # n) (QUOTE # t) = find_after (QUOTE # n) t"
  by simp

lemma starts_with_quoted:
  assumes "QUOTE \<notin> set k" and "QUOTE \<notin> set k'"
  shows "starts_with (k @ QUOTE # y) (k' @ QUOTE # z) \<longleftrightarrow> k = k' \<and> starts_with y z"
  using assms
proof (induction k arbitrary: k')
  case Nil
  then show ?case by (cases k') auto
next
  case (Cons c k)
  then show ?case by (cases k') auto
qed

lemma starts_with_first: "k \<noteq> [] \<Longrightarrow> List.hd k \<noteq> c \<Longrightarrow> \<not> starts_with (k @ y) (c # t)"
  by (cases k) auto

lemma starts_with_append [simp]: "starts_with p (p @ t)"
  by (simp add: starts_with_def)

lemma find_field_skip:
  assumes k: "good_key k" and k': "good_key k'" and v: "good_value v" and ne: "k \<noteq> k'"
  shows "find_after (key_text k @ x) (CHR '','' # key_text k' @ v @ fields_text fs) = find_after (key_text k @ x) (fields_text fs)"
proof -
  let ?n = "k @ QUOTE # CHR '':'' # x"
  let ?find = "find_after (QUOTE # ?n)"
  have q: "QUOTE \<notin> set k" "QUOTE \<notin> set k'" and ne': "k \<noteq> []" and h: "List.hd k \<noteq> CHR '':''" "List.hd k \<noteq> CHR '',''" "List.hd k \<noteq> CHR ''}''"
    using k k' by (auto simp: good_key_def)
  obtain c t where t: "fields_text fs = c # t" and c: "c = CHR '','' \<or> c = CHR ''}''" using fields_text_first by blast
  have key: "?find (QUOTE # k' @ QUOTE # CHR '':'' # s) = ?find s" for s
  proof -
    have "?find (QUOTE # k' @ QUOTE # CHR '':'' # s) = ?find (k' @ QUOTE # CHR '':'' # s)"
      by (rule find_after_miss) (simp add: starts_with_quoted q ne)
    also have "\<dots> = ?find (QUOTE # CHR '':'' # s)" by (rule find_after_skip [OF q(2)])
    also have "\<dots> = ?find (CHR '':'' # s)" by (rule find_after_miss) (rule starts_with_first [OF ne' h(1)])
    finally show ?thesis by simp
  qed
  have "?find (v @ fields_text fs) = ?find (fields_text fs)"
  proof (cases "QUOTE \<in> set v")
    case False
    then show ?thesis by (rule find_after_skip)
  next
    case True
    then obtain w where w: "v = QUOTE # w @ [QUOTE]" "QUOTE \<notin> set w" using v by (auto simp: good_value_def)
    have "?find (QUOTE # w @ QUOTE # c # t) = ?find (w @ QUOTE # c # t)"
      by (rule find_after_miss) (use c in \<open>auto simp: starts_with_quoted q w(2)\<close>)
    also have "\<dots> = ?find (QUOTE # c # t)" by (rule find_after_skip [OF w(2)])
    also have "\<dots> = ?find (c # t)" by (rule find_after_miss) (rule starts_with_first [OF ne'], use c h in auto)
    finally show ?thesis by (simp add: w t)
  qed
  with key [of "v @ fields_text fs"] show ?thesis by (simp add: key_text_def)
qed

lemma find_field:
  assumes "good_key k" and "list_all (\<lambda>(k', v'). good_key k' \<and> good_value v') fs" and "map_of fs k = Some (x @ v)"
  shows "\<exists>fs'. find_after (key_text k @ x) (fields_text fs) = Some (v @ fields_text fs')"
  using assms(2,3)
proof (induction fs)
  case (Cons f fs)
  obtain k' v' where f: "f = (k', v')" by (cases f)
  show ?case
  proof (cases "k = k'")
    case True
    have "find_after (key_text k @ x) (key_text k @ x @ s) = Some s" for s
    proof -
      have "key_text k @ x @ s = QUOTE # k @ [QUOTE] @ '':'' @ x @ s" by (simp add: key_text_def)
      moreover have "starts_with (key_text k @ x) (key_text k @ x @ s)" using starts_with_append [of "key_text k @ x" s] by simp
      ultimately show ?thesis by (simp add: key_text_def)
    qed
    moreover have "find_after (key_text k @ x) (CHR '','' # s) = find_after (key_text k @ x) s" for s by (simp add: key_text_def)
    ultimately show ?thesis using Cons.prems True f by auto
  next
    case False
    then show ?thesis using Cons assms(1) f find_field_skip [OF assms(1), of k' v' x fs] by simp
  qed
qed simp

lemma object_fields:
  "object_text (map (\<lambda>(k, v). raw_field k v) (f # fs)) = CHR ''{'' # List.tl (fields_text (f # fs))"
proof -
  have "concat (map ((#) CHR '','') (map (\<lambda>(k, v). raw_field k v) fs)) @ ''}'' = fields_text fs" for fs
    by (induction fs) (auto simp: raw_field_def)
  from this [of fs] show ?thesis by (cases f) (simp add: object_text_def comma_list_def raw_field_def)
qed

lemma find_object:
  assumes "good_key k" and "list_all (\<lambda>(k', v'). good_key k' \<and> good_value v') (f # fs)" and "map_of (f # fs) k = Some (x @ v)"
  shows "\<exists>fs'. find_after (key_text k @ x) (object_text (map (\<lambda>(k, v). raw_field k v) (f # fs))) = Some (v @ fields_text fs')"
proof -
  obtain k' v' where f: "f = (k', v')" by (cases f)
  have "find_after (key_text k @ x) (CHR ''{'' # s) = find_after (key_text k @ x) (CHR '','' # s)" for s
    by (simp add: key_text_def)
  then show ?thesis using find_field [OF assms] unfolding object_fields by (simp add: f)
qed

section \<open>Values\<close>

definition clean_char :: "char \<Rightarrow> bool" where
  "clean_char c \<longleftrightarrow> 0x20 \<le> (of_char c :: nat)"

definition clean_name :: "string \<Rightarrow> bool" where
  "clean_name s \<longleftrightarrow> list_all (\<lambda>c. clean_char c \<and> c \<noteq> QUOTE \<and> c \<noteq> BSLASH) s"

lemma clean_special: "\<not> clean_char NL" "\<not> clean_char CR" "\<not> clean_char (CHR 0x09)"
  by (simp_all add: clean_char_def NL_def CR_def)

lemma clean_name_escape: "clean_name s \<Longrightarrow> mns_escape s = s"
  by (induction s) (auto simp: clean_name_def mns_escape_def mns_esc_char_def clean_char_def NL_def CR_def)

lemma clean_name_quote: "clean_name s \<Longrightarrow> QUOTE \<notin> set s"
  by (auto simp: clean_name_def list_all_iff)

lemma unquote_clean: "clean_name s \<Longrightarrow> unquote (s @ QUOTE # r) = s"
proof (induction s)
  case Nil
  then show ?case by (cases r) (simp_all add: BSLASH_def)
next
  case (Cons c s)
  then show ?case by (cases s) (simp_all add: clean_name_def)
qed

lemma split_mantissa_stops:
  assumes "\<not> P c" and "c \<noteq> CHR ''.''"
  shows "split_mantissa P (s @ c # t) = (case split_mantissa P s of (w, f, r) \<Rightarrow> (w, f, r @ c # t))"
proof -
  have stop: "takeWhile P (u @ c # t) = takeWhile P u" "dropWhile P (u @ c # t) = dropWhile P u @ c # t" for u
    using assms(1) by (induction u) auto
  show ?thesis
  proof (cases "dropWhile P s")
    case Nil
    then show ?thesis using assms(2) by (simp add: split_mantissa_def stop del: dropWhile_eq_Nil_conv)
  next
    case (Cons x xs)
    then show ?thesis using stop(2) [of s] stop [of xs] by (simp add: split_mantissa_def stop(1) Let_def)
  qed
qed

lemma takeWhile_digits_stop: "\<not> is_digit c \<Longrightarrow> takeWhile is_digit (u @ c # t) = takeWhile is_digit u"
  by (induction u) auto

definition stop_char :: "char \<Rightarrow> bool" where
  "stop_char c \<longleftrightarrow> c = CHR '','' \<or> c = CHR ''}''"

lemma stop_char_plain:
  assumes "stop_char c"
  shows "\<not> is_digit c" "to_lower c = c" "c \<notin> set ''.enx''"
  using assms by (auto simp: stop_char_def is_digit_def to_lower_def less_eq_char_def)

lemma exponent_prefix_stops:
  assumes "stop_char c"
  shows "exponent_prefix CHR ''e'' (s @ c # t) = exponent_prefix CHR ''e'' s"
proof (cases s)
  case Nil
  then show ?thesis using stop_char_plain [OF assms] by (simp add: exponent_prefix_def)
next
  case (Cons d ds)
  note c = stop_char_plain(1) [OF assms]
  have "c \<noteq> CHR ''-''" "c \<noteq> CHR ''+''" using assms by (auto simp: stop_char_def)
  then show ?thesis using takeWhile_digits_stop [OF c, of ds t] Cons
    by (cases ds) (auto simp: exponent_prefix_def digits_value_def c takeWhile_digits_stop)
qed

lemma decimal_prefix_stops:
  assumes "stop_char c"
  shows "decimal_prefix (s @ c # t) = decimal_prefix s"
proof -
  have "c \<noteq> CHR ''.''" using stop_char_plain(3) [OF assms] by simp
  from split_mantissa_stops [where P = is_digit, OF stop_char_plain(1) [OF assms] this] show ?thesis
    by (simp add: decimal_prefix_def exponent_prefix_stops [OF assms] split: prod.split)
qed

lemma number_not_space: "number_char c \<Longrightarrow> \<not> is_space c"
  by (auto simp: number_char_def is_digit_def is_space_def less_eq_char_def)

lemma signed_prefix_stops:
  assumes "list_all number_char s" and "s \<noteq> []"
  obtains neg u where "signed_prefix s = (neg, u)" "signed_prefix (s @ t) = (neg, u @ t)" "list_all number_char u"
proof -
  obtain c cs where s: "s = c # cs" using assms(2) by (cases s) auto
  then have "\<not> is_space c" using assms(1) number_not_space by simp
  then have "signed_prefix s = (c = CHR ''-'', if c \<in> {CHR ''-'', CHR ''+''} then cs else c # cs)"
    "signed_prefix (s @ t) = (c = CHR ''-'', (if c \<in> {CHR ''-'', CHR ''+''} then cs else c # cs) @ t)"
    by (simp_all add: signed_prefix_def s)
  then show thesis by (rule that) (use s assms(1) in simp)
qed

lemma word_stops:
  assumes "stop_char c" and "word = ''inf'' \<or> word = ''nan''"
  shows "map to_lower (take 3 (u @ c # t)) = word \<longleftrightarrow> map to_lower (take 3 u) = word"
proof (cases "3 \<le> length u")
  case False
  then have "c \<in> set (take 3 (u @ c # t))" by (simp add: take_Cons')
  then have "to_lower c \<in> set (map to_lower (take 3 (u @ c # t)))" unfolding set_map by (rule imageI)
  moreover have "to_lower c \<notin> set word" using assms unfolding stop_char_plain(2) [OF assms(1)] by (auto simp: stop_char_def)
  ultimately have "map to_lower (take 3 (u @ c # t)) \<noteq> word" by blast
  moreover have "length word = 3" using assms(2) by auto
  then have "map to_lower (take 3 u) \<noteq> word" using False by auto
  ultimately show ?thesis by blast
qed simp

lemma number_not_hex:
  assumes "list_all number_char u"
  shows "\<not> starts_with ''0x'' (map to_lower u)"
    "stop_char c \<Longrightarrow> \<not> starts_with ''0x'' (map to_lower (u @ c # t))"
proof -
  have x: "to_lower d \<noteq> CHR ''x''" if "number_char d" for d
    using that by (auto simp: number_char_def is_digit_def to_lower_def less_eq_char_def)
  show "\<not> starts_with ''0x'' (map to_lower u)"
    using assms x by (cases u; cases "List.tl u"; auto)
  assume c: "stop_char c"
  have "c \<noteq> CHR ''0''" "c \<noteq> CHR ''x''" using c by (auto simp: stop_char_def)
  then show "\<not> starts_with ''0x'' (map to_lower (u @ c # t))"
    using assms x stop_char_plain(2) [OF c] by (cases u; cases "List.tl u"; auto)
qed

lemma stod_stops:
  assumes "list_all number_char s" and "s \<noteq> []" and c: "stop_char c"
  shows "stod (s @ c # t) = stod s"
proof -
  obtain neg u where u: "signed_prefix s = (neg, u)" "signed_prefix (s @ c # t) = (neg, u @ c # t)"
    "list_all number_char u" using signed_prefix_stops [OF assms(1,2)] .
  show ?thesis
    unfolding stod_def u prod.case Let_def word_stops [OF c disjI1 [OF refl]] word_stops [OF c disjI2 [OF refl]]
    by (simp only: number_not_hex(1) [OF u(3)] number_not_hex(2) [OF u(3) c] if_False decimal_prefix_stops [OF c])
qed

lemma stoi_stops:
  assumes "0 \<le> i" and "i < 2 ^ 31" and "\<not> is_digit c"
  shows "stoi (int_to_string i @ c # t) = Some i"
proof -
  obtain d ds where d: "nat_to_string (nat i) = d # ds" "is_digit d" by (rule nat_to_string_first)
  have "signed_prefix (int_to_string i @ c # t) = (False, nat_to_string (nat i) @ c # t)"
    using assms d digit_not_special [OF d(2)] by (simp add: signed_prefix_def int_to_string_def)
  then show ?thesis using assms by (simp add: stoi_def takeWhile_digits_stop takeWhile_number)
qed

section \<open>Connections\<close>

definition connection_fields :: "ModelConnection \<Rightarrow> (string \<times> string) list" where
  "connection_fields c =
     (let str = (\<lambda>s. [QUOTE] @ mns_escape s @ [QUOTE]) in
      [(''encoder_name'', str (mc_encoder_name c)), (''decoder_name'', str (mc_decoder_name c)),
       (''world_model_name'', str (mc_world_model_name c)),
       (''world_model_inject_every_n_layers'', nat_to_string (mc_inject_every_n_layers c)),
       (''hippocampal_memory_enabled'', bool_text (mc_memory_enabled c)),
       (''hippocampal_memory_capacity'', nat_to_string (mc_memory_capacity c)),
       (''hippocampal_repetition_alpha'', print_float (mc_repetition_alpha c)),
       (''hippocampal_repetition_decay'', print_float (mc_repetition_decay c)),
       (''hippocampal_cross_reference_alpha'', print_float (mc_cross_reference_alpha c)),
       (''hippocampal_association_decay'', print_float (mc_association_decay c)),
       (''sigreg_lambda'', print_float (mc_sigreg_lambda c)),
       (''sigreg_num_sketches'', nat_to_string (mc_sigreg_num_sketches c))])"

lemma connection_text: "serialize_connection c = object_text (map (\<lambda>(k, v). raw_field k v) (connection_fields c))"
  by (simp add: serialize_connection_def connection_fields_def text_field_def size_field_def raw_field_def Let_def)

text \<open>A float that is still itself after being printed with six digits and read as a \<open>double\<close>.\<close>

definition prints_back :: "any_float \<Rightarrow> bool" where
  "prints_back f \<longleftrightarrow> map_option double_to_float (stod (print_float f)) = Some f"

definition plain_connection :: "ModelConnection \<Rightarrow> bool" where
  "plain_connection c \<longleftrightarrow>
     clean_name (mc_encoder_name c) \<and> clean_name (mc_decoder_name c) \<and> clean_name (mc_world_model_name c) \<and>
     mc_inject_every_n_layers c < 2 ^ 31 \<and> mc_memory_capacity c < 2 ^ 31 \<and> mc_sigreg_num_sketches c < 2 ^ 31 \<and>
     prints_back (mc_repetition_alpha c) \<and> prints_back (mc_repetition_decay c) \<and>
     prints_back (mc_cross_reference_alpha c) \<and> prints_back (mc_association_decay c) \<and> prints_back (mc_sigreg_lambda c)"

lemma number_text_good: "list_all number_char s \<Longrightarrow> good_value s"
proof -
  have "\<not> number_char QUOTE" by (simp add: number_char_def is_digit_def less_eq_char_def)
  then show "list_all number_char s \<Longrightarrow> good_value s" by (auto simp: good_value_def list_all_iff)
qed

lemma quoted_text_good: "clean_name s \<Longrightarrow> good_value ([QUOTE] @ mns_escape s @ [QUOTE])"
  by (simp add: good_value_def clean_name_escape clean_name_quote)

lemma bool_text_good: "good_value (bool_text b)"
  by (simp add: good_value_def bool_text_def)

lemma connection_fields_good:
  assumes "plain_connection c"
  shows "list_all (\<lambda>(k, v). good_key k \<and> good_value v) (connection_fields c)"
  using assms quoted_text_good number_text_good [OF nat_to_string_chars] number_text_good [OF print_float_chars] bool_text_good
  by (simp add: connection_fields_def plain_connection_def Let_def good_key_def)

lemma find_connection:
  assumes "plain_connection c" and "good_key k" and "map_of (connection_fields c) k = Some (x @ v)"
  shows "\<exists>fs. find_after (key_text k @ x) (serialize_connection c) = Some (v @ fields_text fs)"
proof -
  obtain f fs where f: "connection_fields c = f # fs" by (simp add: connection_fields_def Let_def)
  show ?thesis
    using find_object [OF assms(2), of f fs x v] connection_fields_good [OF assms(1)] assms(3)
    unfolding connection_text f by blast
qed

lemma read_string:
  assumes c: "plain_connection c" and k: "good_key k" and f: "map_of (connection_fields c) k = Some ([QUOTE] @ mns_escape s @ [QUOTE])"
    and s: "clean_name s"
  shows "mns_string (serialize_connection c) k = s"
proof -
  obtain fs where "find_after (key_text k @ [QUOTE]) (serialize_connection c) = Some ((s @ [QUOTE]) @ fields_text fs)"
    using find_connection [OF c k f] clean_name_escape [OF s] by auto
  then show ?thesis by (simp add: mns_string_def unquote_clean [OF s])
qed

lemma find_bare:
  assumes "plain_connection c" and "good_key k" and "map_of (connection_fields c) k = Some v"
  shows "\<exists>fs. find_after (key_text k) (serialize_connection c) = Some (v @ fields_text fs)"
  using find_connection [OF assms(1,2), of "[]" v] assms(3) by simp

lemma read_size:
  assumes "plain_connection c" and "good_key k" and "map_of (connection_fields c) k = Some (nat_to_string n)" and "n < 2 ^ 31"
  shows "mns_size (serialize_connection c) k def = n"
proof -
  obtain fs where fs: "find_after (key_text k) (serialize_connection c) = Some (nat_to_string n @ fields_text fs)"
    using find_bare [OF assms(1-3)] by auto
  obtain d t where d: "fields_text fs = d # t" "\<not> is_digit d"
    using fields_text_first [of fs] by (auto simp: is_digit_def less_eq_char_def)
  have "stoi (nat_to_string n @ d # t) = Some (int n)"
    using stoi_stops [of "int n", OF _ _ d(2), of t] assms(4) by (simp add: int_to_string_def)
  then show ?thesis using fs d(1) assms(4) by (simp add: mns_size_def mns_int_def to_size_def)
qed

lemma read_bool:
  assumes "plain_connection c" and "good_key k" and "map_of (connection_fields c) k = Some (bool_text b)"
  shows "mns_bool (serialize_connection c) k def = b"
  using find_bare [OF assms] by (cases b) (auto simp: mns_bool_def bool_text_def)

lemma read_float:
  assumes "plain_connection c" and "good_key k" and "map_of (connection_fields c) k = Some (print_float f)" and "prints_back f"
  shows "mns_float (serialize_connection c) k def = f"
proof -
  obtain fs where fs: "find_after (key_text k) (serialize_connection c) = Some (print_float f @ fields_text fs)"
    using find_bare [OF assms(1-3)] by auto
  obtain d t where d: "fields_text fs = d # t" "stop_char d"
    using fields_text_first [of fs] by (auto simp: stop_char_def)
  have "stod (print_float f @ d # t) = stod (print_float f)"
    by (rule stod_stops [OF print_float_chars print_float_nonempty d(2)])
  then show ?thesis using fs d(1) assms(4) by (auto simp: mns_float_def mns_double_def prints_back_def)
qed

lemma good_connection_keys:
  "list_all good_key (map fst (connection_fields c))"
  by (simp add: connection_fields_def Let_def good_key_def)

theorem connection_reads_back:
  assumes "plain_connection c"
  shows "parse_connection (serialize_connection c) = c"
proof -
  note plain = assms [unfolded plain_connection_def]
  have keys: "good_key k" if "k \<in> fst ` set (connection_fields c)" for k
    using that good_connection_keys [of c] by (auto simp: list_all_iff)
  note fields = connection_fields_def Let_def
  have "mns_size (serialize_connection c) ''world_model_inject_every_n_layers'' def = mc_inject_every_n_layers c"
    "mns_size (serialize_connection c) ''hippocampal_memory_capacity'' def = mc_memory_capacity c"
    "mns_size (serialize_connection c) ''sigreg_num_sketches'' def = mc_sigreg_num_sketches c" for def
    by (rule read_size [OF assms keys]; use plain in \<open>simp add: fields\<close>)+
  then show ?thesis
    unfolding parse_connection_def
    by (simp add: read_string [OF assms keys] read_bool [OF assms keys] read_float [OF assms keys] plain fields)
qed

section \<open>Tags\<close>

definition clean_text :: "string \<Rightarrow> bool" where
  "clean_text s \<longleftrightarrow> list_all clean_char s"

definition plain_tags :: "(string \<times> string) list \<Rightarrow> bool" where
  "plain_tags tags \<longleftrightarrow> sorted_wrt (<) (map fst tags) \<and> list_all (\<lambda>(k, v). k \<noteq> [] \<and> clean_text k \<and> clean_text v) tags"

lemma quoted_escape: "clean_text s \<Longrightarrow> quoted (mns_escape s @ QUOTE # r) = (s, QUOTE # r)"
proof (induction s)
  case Nil
  then show ?case by (cases r) (simp_all add: mns_escape_def)
next
  case (Cons c s)
  then have IH: "quoted (mns_escape s @ QUOTE # r) = (s, QUOTE # r)" and c: "clean_char c"
    by (simp_all add: clean_text_def)
  have esc: "mns_escape (c # s) = mns_esc_char c @ mns_escape s" by (simp add: mns_escape_def)
  show ?case
  proof (cases "c = QUOTE \<or> c = BSLASH")
    case True
    then show ?thesis using IH unfolding esc by (auto simp: mns_esc_char_def special_chars)
  next
    case False
    then have e: "mns_esc_char c = [c]"
      using c clean_special by (auto simp: mns_esc_char_def clean_char_def)
    obtain d ds where d: "mns_escape s @ QUOTE # r = d # ds" by (cases "mns_escape s @ QUOTE # r") auto
    show ?thesis using IH False unfolding esc e d by (simp add: d)
  qed
qed

definition tag_text :: "string \<times> string \<Rightarrow> string" where
  "tag_text x = [QUOTE] @ mns_escape (fst x) @ [QUOTE] @ '':'' @ [QUOTE] @ mns_escape (snd x) @ [QUOTE]"

lemma put_last: "\<forall>x \<in> set m. fst x < k \<Longrightarrow> put k v m = m @ [(k, v)]"
  by (induction m) auto

lemma map_members_tag:
  assumes "k \<noteq> []" and "clean_text k" and "clean_text v"
  shows "map_members (tag_text (k, v) @ r) m = map_members r (put k v m)"
    and "map_members (CHR '','' # tag_text (k, v) @ r) m = map_members r (put k v m)"
proof -
  let ?s1 = "QUOTE # mns_escape k @ QUOTE # CHR '':'' # QUOTE # mns_escape v @ QUOTE # r"
  have t: "tag_text (k, v) @ r = ?s1" by (simp add: tag_text_def)
  note q = quoted_escape [OF assms(2)] quoted_escape [OF assms(3)]
  have "dropWhile (\<lambda>c. c \<noteq> QUOTE) (CHR '':'' # QUOTE # mns_escape v @ QUOTE # r) = QUOTE # mns_escape v @ QUOTE # r"
    by simp
  then show "map_members (tag_text (k, v) @ r) m = map_members r (put k v m)"
    unfolding t by (subst map_members.simps) (simp add: q assms(1) Let_def)
  show "map_members (CHR '','' # tag_text (k, v) @ r) m = map_members r (put k v m)"
    unfolding t by (subst map_members.simps) (simp add: q assms(1) Let_def)
qed

lemma map_members_tags:
  assumes "list_all (\<lambda>(k, v). k \<noteq> [] \<and> clean_text k \<and> clean_text v) tags" and "sorted_wrt (<) (map fst (m @ tags))"
  shows "map_members (concat (map (\<lambda>x. CHR '','' # tag_text x) tags) @ ''}'') m = m @ tags"
  using assms
proof (induction tags arbitrary: m)
  case Nil
  show ?case by (subst map_members.simps) simp
next
  case (Cons x tags)
  obtain k v where x: "x = (k, v)" by (cases x)
  have "put k v m = m @ [(k, v)]" using Cons.prems(2) by (intro put_last) (auto simp: x sorted_wrt_append)
  then show ?case using Cons.IH [of "m @ [(k, v)]"] Cons.prems map_members_tag(2) [of k v] by (simp add: x)
qed

theorem tags_read_back:
  assumes "plain_tags tags"
  shows "parse_string_map (tags_to_json tags) = tags"
proof -
  have json: "tags_to_json tags = ''{'' @ comma_list (map tag_text tags) @ ''}''"
    by (simp add: tags_to_json_def object_text_def tag_text_def [abs_def] case_prod_unfold)
  show ?thesis
  proof (cases tags)
    case Nil
    then show ?thesis unfolding parse_string_map_def json by (subst map_members.simps) (simp add: comma_list_def)
  next
    case (Cons x xs)
    obtain k v where x: "x = (k, v)" by (cases x)
    have c: "comma_list (map tag_text tags) = tag_text (k, v) @ concat (map (\<lambda>x. CHR '','' # tag_text x) xs)"
      by (simp add: comma_list_def Cons x comp_def)
    have "map_members (tag_text (k, v) @ concat (map (\<lambda>x. CHR '','' # tag_text x) xs) @ ''}'') [] = [(k, v)] @ xs"
      using assms map_members_tag(1) [of k v] map_members_tags [of xs "[(k, v)]"]
      by (simp add: plain_tags_def Cons x)
    then show ?thesis unfolding parse_string_map_def json c by (simp add: Cons x)
  qed
qed

end
