(* ===== verification/Mns_Store.thy ===== *)
theory Mns_Store
  imports Mns_Life Mns_Text
begin

text \<open>
  The database mirrors the tables in memory: as long as its statements succeed, loading it gives back every model, its
  history and every role.
\<close>

section \<open>A row reads back\<close>

definition no_nul :: "string \<Rightarrow> bool" where
  "no_nul s \<longleftrightarrow> CHR 0x00 \<notin> set s"

lemma c_text_same: "no_nul s \<Longrightarrow> c_text s = s"
  by (induction s) (auto simp: no_nul_def c_text_def)

lemma no_nul_number: "list_all number_char s \<Longrightarrow> no_nul s"
  by (auto simp: no_nul_def list_all_iff number_char_def is_digit_def less_eq_char_def)

lemma hex_digit_no_nul: "n < 16 \<Longrightarrow> ''0123456789abcdef'' ! n \<noteq> CHR 0x00"
proof -
  assume "n < 16"
  then have "''0123456789abcdef'' ! n \<in> set ''0123456789abcdef''" by (intro nth_mem) simp
  moreover have "CHR 0x00 \<notin> set ''0123456789abcdef''" by simp
  ultimately show ?thesis by metis
qed

lemma no_nul_esc_char: "CHR 0x00 \<notin> set (mns_esc_char c)"
proof (cases "c \<in> {QUOTE, BSLASH, NL, CR, CHR 0x09}")
  case True
  then show ?thesis by (auto simp: mns_esc_char_def special_chars)
next
  case False
  show ?thesis
  proof (cases "(of_char c :: nat) < 0x20")
    case True
    have "''0123456789abcdef'' ! (of_char c div 16) \<noteq> CHR 0x00" "''0123456789abcdef'' ! (of_char c mod 16) \<noteq> CHR 0x00"
      by (rule hex_digit_no_nul, use True in linarith)+
    then show ?thesis using False True by (simp add: mns_esc_char_def special_chars del: nth_Cons_numeral)
  next
    case False
    then have "c \<noteq> CHR 0x00" by auto
    with False \<open>c \<notin> _\<close> show ?thesis by (simp add: mns_esc_char_def)
  qed
qed

lemma no_nul_escape: "no_nul (mns_escape s)"
  using no_nul_esc_char by (auto simp: no_nul_def mns_escape_def)

lemma no_nul_append [simp]: "no_nul (s @ t) \<longleftrightarrow> no_nul s \<and> no_nul t" "no_nul (c # s) \<longleftrightarrow> c \<noteq> CHR 0x00 \<and> no_nul s" "no_nul []"
  by (auto simp: no_nul_def)

lemma no_nul_object: "list_all no_nul xs \<Longrightarrow> no_nul (object_text xs)"
proof -
  have "list_all no_nul xs \<Longrightarrow> no_nul (concat (map ((#) CHR '','') xs))" for xs by (induction xs) auto
  then show "list_all no_nul xs \<Longrightarrow> no_nul (object_text xs)"
    by (cases xs) (auto simp: object_text_def comma_list_def)
qed

lemma no_nul_tags: "no_nul (tags_to_json tags)"
  unfolding tags_to_json_def
  by (rule no_nul_object) (auto simp: list_all_iff no_nul_escape)

lemma no_nul_connection: "no_nul (serialize_connection c)"
  unfolding serialize_connection_def
  by (rule no_nul_object)
    (simp add: text_field_def key_text_def size_field_def raw_field_def bool_text_def no_nul_escape
      no_nul_number [OF nat_to_string_chars] no_nul_number [OF print_float_chars])

definition plain_history :: "TrainingHistoryEntry \<Rightarrow> bool" where
  "plain_history h \<longleftrightarrow>
     list_all no_nul [th_run_id h, th_session_key h, th_dataset_group h, th_started_utc h, th_finished_utc h] \<and>
     real_column (th_final_loss h) = th_final_loss h"

definition plain_record :: "ModelRecord \<Rightarrow> bool" where
  "plain_record r \<longleftrightarrow>
     list_all no_nul [mr_id r, mr_name r, mr_role r, mr_kind r, mr_run_group r, mr_state r, mr_run_id r, mr_created_utc r,
       mr_updated_utc r, al_host (mr_artifact r), al_path (mr_artifact r), al_checksum (mr_artifact r),
       al_format (mr_artifact r), mr_run_started_utc r, mr_progress_session_id r, mr_progress_updated_utc r] \<and>
     mr_state r \<noteq> [] \<and> mr_kind r \<noteq> [] \<and> al_format (mr_artifact r) \<noteq> [] \<and>
     real_column (mr_progress_loss r) = mr_progress_loss r \<and> real_column (mr_progress_best_loss r) = mr_progress_best_loss r \<and>
     plain_tags (mr_tags r) \<and> plain_connection (mr_connection r) \<and> list_all plain_history (mr_history r)"

lemma history_reads_back: "plain_history h \<Longrightarrow> history_row h = h"
  by (simp add: plain_history_def history_row_def c_text_same)

lemma row_reads_back:
  assumes "plain_record r"
  shows "(load_row (model_row_of r))\<lparr>mr_history := map history_row (mr_history r)\<rparr> = r"
proof -
  note plain = assms [unfolded plain_record_def]
  have "map history_row (mr_history r) = mr_history r"
    using plain by (simp add: list_all_iff history_reads_back map_idI)
  moreover have "artifact_columns (mr_artifact r) = mr_artifact r"
    using plain by (simp add: artifact_columns_def c_text_same)
  moreover have "parse_string_map (c_text (tags_to_json (mr_tags r))) = mr_tags r"
    "parse_connection (c_text (serialize_connection (mr_connection r))) = mr_connection r"
    using plain by (simp_all add: c_text_same [OF no_nul_tags] c_text_same [OF no_nul_connection] tags_read_back connection_reads_back)
  ultimately show ?thesis using plain by (simp add: load_row_def model_row_of_def Let_def c_text_same)
qed

section \<open>Loading\<close>

definition stored_models :: "mns_db \<Rightarrow> (string \<rightharpoonup> ModelRecord)" where
  "stored_models db = load_history (db_history db) (load_models (db_models db))"

definition row_name :: "model_row \<Rightarrow> string" where
  "row_name w = mr_name (mw_columns w)"

definition rows_ok :: "model_row list \<Rightarrow> bool" where
  "rows_ok rows \<longleftrightarrow> distinct (map row_name rows) \<and> [] \<notin> row_name ` set rows"

definition history_of :: "string \<Rightarrow> (string \<times> TrainingHistoryEntry) list \<Rightarrow> TrainingHistoryEntry list" where
  "history_of n rows = map snd (filter (\<lambda>x. fst x = n) rows)"

lemma load_history_apply:
  "load_history rows m n = map_option (\<lambda>r. r\<lparr>mr_history := mr_history r @ history_of n rows\<rparr>) (m n)"
proof (induction rows arbitrary: m)
  case Nil
  show ?case by (cases "m n") (simp_all add: load_history_def history_of_def)
next
  case (Cons x rows)
  obtain k h where x: "x = (k, h)" by (cases x)
  have "load_history (x # rows) m =
      load_history rows (case m k of None \<Rightarrow> m | Some r \<Rightarrow> m(k \<mapsto> r\<lparr>mr_history := mr_history r @ [h]\<rparr>))"
    by (simp add: load_history_def x)
  then show ?case by (auto simp: Cons.IH history_of_def x split: option.split)
qed

lemma load_models_append: "load_models (rows @ [w]) = (if row_name w = [] then load_models rows
    else (load_models rows)(row_name w \<mapsto> load_row w))"
  by (simp add: load_models_def row_name_def)

lemma rows_ok_append:
  "rows_ok (rows @ [w]) \<longleftrightarrow> rows_ok rows \<and> row_name w \<noteq> [] \<and> (\<forall>x \<in> set rows. row_name x \<noteq> row_name w)"
  by (fastforce simp: rows_ok_def image_iff)

lemma load_models_filter:
  assumes "rows_ok rows"
  shows "load_models (filter P rows) n = (if \<exists>w \<in> set rows. row_name w = n \<and> P w then load_models rows n else None)"
  using assms
proof (induction rows rule: rev_induct)
  case Nil
  then show ?case by (simp add: load_models_def)
next
  case (snoc w rows)
  then have IH: "load_models (filter P rows) n = (if \<exists>w \<in> set rows. row_name w = n \<and> P w then load_models rows n else None)"
    and w: "row_name w \<noteq> []" "\<forall>x \<in> set rows. row_name x \<noteq> row_name w"
    by (auto simp: rows_ok_append)
  then show ?case by (cases "n = row_name w") (auto simp: load_models_append)
qed

lemma load_models_row:
  assumes "rows_ok rows"
  shows "load_models rows n \<noteq> None \<longleftrightarrow> (\<exists>w \<in> set rows. row_name w = n)"
    and "w \<in> set rows \<Longrightarrow> load_models rows (row_name w) = Some (load_row w)"
proof -
  show "load_models rows n \<noteq> None \<longleftrightarrow> (\<exists>w \<in> set rows. row_name w = n)"
    using assms
  proof (induction rows rule: rev_induct)
    case Nil
    show ?case by (simp add: load_models_def)
  next
    case (snoc w rows)
    then show ?case by (auto simp: load_models_append rows_ok_append)
  qed
  show "w \<in> set rows \<Longrightarrow> load_models rows (row_name w) = Some (load_row w)"
    using assms by (induction rows rule: rev_induct) (auto simp: load_models_append rows_ok_append)
qed

lemma stored_apply:
  "stored_models db n = map_option (\<lambda>r. r\<lparr>mr_history := history_of n (db_history db)\<rparr>) (load_models (db_models db) n)"
proof -
  have "mr_history r = []" if "load_models rows n = Some r" for rows r
    using that by (induction rows rule: rev_induct)
      (auto simp: load_models_append load_models_def load_row_def Let_def split: if_splits)
  then show ?thesis by (cases "load_models (db_models db) n") (simp_all add: stored_models_def load_history_apply)
qed

section \<open>Writing\<close>

definition works :: "mns_env \<Rightarrow> bool" where
  "works env \<longleftrightarrow> (\<forall>w. me_works env w)"

lemma upsert_rows_ok:
  assumes "rows_ok rows" and "plain_record r" and "mr_name r \<noteq> []"
  shows "rows_ok (upsert_model r rows)"
proof -
  have n: "row_name (model_row_of r) = mr_name r"
    using assms(2) by (simp add: row_name_def model_row_of_def plain_record_def c_text_same)
  let ?P = "\<lambda>w. mr_id (mw_columns w) \<noteq> mr_id r \<and> mr_name (mw_columns w) \<noteq> mr_name r"
  have "distinct (map row_name (filter ?P rows))" using assms(1) by (simp add: rows_ok_def distinct_map_filter)
  then show ?thesis using assms(1,3) by (auto simp: rows_ok_def upsert_model_def n row_name_def [symmetric])
qed

lemma upsert_loads:
  assumes ok: "rows_ok rows" and plain: "plain_record r" and name: "mr_name r \<noteq> []"
    and ids: "\<And>w. w \<in> set rows \<Longrightarrow> mr_id (mw_columns w) = mr_id r \<Longrightarrow> row_name w = mr_name r"
  shows "load_models (upsert_model r rows) = (load_models rows)(mr_name r \<mapsto> load_row (model_row_of r))"
proof
  fix n
  have n: "row_name (model_row_of r) = mr_name r"
    using plain by (simp add: row_name_def model_row_of_def plain_record_def c_text_same)
  have "(\<exists>w \<in> set rows. row_name w = n \<and> mr_id (mw_columns w) \<noteq> mr_id r \<and> mr_name (mw_columns w) \<noteq> mr_name r) \<longleftrightarrow>
      load_models rows n \<noteq> None" if "n \<noteq> mr_name r"
    unfolding load_models_row(1) [OF ok] using ids that by (auto simp: row_name_def)
  then show "load_models (upsert_model r rows) n = ((load_models rows)(mr_name r \<mapsto> load_row (model_row_of r))) n"
    using name by (auto simp: upsert_model_def load_models_append n load_models_filter [OF ok])
qed

lemma history_of_append: "history_of n (rows @ map (\<lambda>h. (k, f h)) hs) = history_of n rows @ (if n = k then map f hs else [])"
proof -
  have "filter (\<lambda>x. fst x = n) (map (\<lambda>h. (k, f h)) hs) = (if n = k then map (\<lambda>h. (k, f h)) hs else [])"
    by (induction hs) auto
  then show ?thesis by (simp add: history_of_def comp_def)
qed

lemma history_of_delete: "history_of n (delete_history k rows) = (if n = k then [] else history_of n rows)"
  by (induction rows) (auto simp: history_of_def delete_history_def)

lemma stored_upsert:
  assumes ok: "rows_ok (db_models db)" and plain: "plain_record r" and name: "mr_name r \<noteq> []"
    and ids: "\<And>n q. stored_models db n = Some q \<Longrightarrow> mr_id q = mr_id r \<Longrightarrow> n = mr_name r"
    and db': "db_models db' = upsert_model r (db_models db)"
      "db_history db' = delete_history (mr_name r) (db_history db) @ map (\<lambda>h. (mr_name r, history_row h)) (mr_history r)"
  shows "stored_models db' = (stored_models db)(mr_name r \<mapsto> r)"
proof
  fix n
  have rows: "row_name w = mr_name r" if w: "w \<in> set (db_models db)" "mr_id (mw_columns w) = mr_id r" for w
    by (rule ids [of _ "(load_row w)\<lparr>mr_history := history_of (row_name w) (db_history db)\<rparr>"])
      (use w(2) load_models_row(2) [OF ok w(1)] in \<open>simp_all add: stored_apply load_row_def Let_def\<close>)
  have load: "load_models (db_models db') = (load_models (db_models db))(mr_name r \<mapsto> load_row (model_row_of r))"
    unfolding db'(1) by (rule upsert_loads [OF ok plain name rows])
  show "stored_models db' n = ((stored_models db)(mr_name r \<mapsto> r)) n"
    using row_reads_back [OF plain]
    by (simp add: stored_apply load db'(2) history_of_append history_of_delete)
qed

lemma persist_model_stores:
  assumes db: "mn_db s = Some db" and ok: "rows_ok (db_models db)" and works: "works env"
    and plain: "plain_record r" and name: "mr_name r \<noteq> []"
    and ids: "\<And>n q. stored_models db n = Some q \<Longrightarrow> mr_id q = mr_id r \<Longrightarrow> n = mr_name r"
  obtains db' where "mn_db (persist_model env r s) = Some db'" "rows_ok (db_models db')"
    "stored_models db' = (stored_models db)(mr_name r \<mapsto> r)" "db_roles db' = db_roles db"
proof -
  let ?db' = "db\<lparr>db_models := upsert_model r (db_models db),
    db_history := delete_history (mr_name r) (db_history db) @ map (\<lambda>h. (mr_name r, history_row h)) (mr_history r)\<rparr>"
  have "mn_db (persist_model env r s) = Some ?db'"
    using works by (simp add: persist_model_def db works_def Let_def)
  moreover have "stored_models ?db' = (stored_models db)(mr_name r \<mapsto> r)"
    by (rule stored_upsert [OF ok plain name]) (use ids in simp_all)
  ultimately show thesis using that upsert_rows_ok [OF ok plain name] by simp
qed

lemma insert_roles:
  assumes "set rows \<subseteq> {x. ro (fst x) = Some (snd x)}" and "set xs \<subseteq> {x. ro (fst x) = Some (snd x)}"
  shows "set (foldl insert_role rows xs) \<subseteq> {x. ro (fst x) = Some (snd x)} \<and>
    fst ` set (foldl insert_role rows xs) = fst ` set rows \<union> fst ` set xs"
  using assms by (induction xs arbitrary: rows) (auto simp: insert_role_def)

lemma persist_roles_stores:
  assumes db: "mn_db s = Some db" and works: "works env" and dom: "dom (mn_roles s) \<subseteq> set (me_roles env)"
  obtains rows where "mn_db (persist_roles env s) = Some (db\<lparr>db_roles := rows\<rparr>)" "map_of (rev rows) = mn_roles s"
proof -
  let ?xs = "role_rows (me_roles env) (mn_roles s)"
  let ?rows = "foldl insert_role [] ?xs"
  have xs: "set ?xs = {(k, v). k \<in> set (me_roles env) \<and> mn_roles s k = Some v}"
    by (auto simp: role_rows_def split: option.splits)
  then have "set ?xs \<subseteq> {x. mn_roles s (fst x) = Some (snd x)}" by auto
  from insert_roles [of "[]", OF _ this] have rows: "set ?rows \<subseteq> {x. mn_roles s (fst x) = Some (snd x)}"
    "fst ` set ?rows = fst ` set ?xs" by simp_all
  have "map_of (rev ?rows) k = mn_roles s k" for k
  proof (cases "mn_roles s k")
    case None
    then have "k \<notin> fst ` set (rev ?rows)" using rows(1) by force
    then show ?thesis using None by (simp add: map_of_eq_None_iff)
  next
    case (Some v)
    then have "(k, v) \<in> set ?xs" using dom xs by auto
    then have "k \<in> fst ` set (rev ?rows)" unfolding set_rev rows(2) by force
    then obtain w where w: "map_of (rev ?rows) k = Some w" by (metis map_of_eq_None_iff not_None_eq)
    then have "(k, w) \<in> set ?rows" using map_of_SomeD by fastforce
    then show ?thesis using rows(1) Some w by auto
  qed
  then have "map_of (rev ?rows) = mn_roles s" by (rule ext)
  moreover have "mn_db (persist_roles env s) = Some (db\<lparr>db_roles := ?rows\<rparr>)"
    using works by (simp add: persist_roles_def db works_def Let_def)
  ultimately show thesis using that by blast
qed

end
