(* ===== verification/Mns_Restart.thy ===== *)
theory Mns_Restart
  imports Mns_Store
begin

text \<open>
  Every call keeps the database in step with memory, so that a service started again on the same file knows what the
  stopped one knew.
\<close>

section \<open>The mirror\<close>

definition mirrors :: "mns \<Rightarrow> bool" where
  "mirrors s \<longleftrightarrow>
     (case mn_db s of
        None \<Rightarrow> False
      | Some db \<Rightarrow> rows_ok (db_models db) \<and> stored_models db = mn_models s \<and> map_of (rev (db_roles db)) = mn_roles s)"

definition ids_ok :: "(string \<rightharpoonup> ModelRecord) \<Rightarrow> bool" where
  "ids_ok m \<longleftrightarrow> (\<forall>n n' r r'. m n = Some r \<longrightarrow> m n' = Some r' \<longrightarrow> mr_id r = mr_id r' \<longrightarrow> n = n')"

definition restarted :: "mns \<Rightarrow> mns" where
  "restarted s = load_from_disk (s\<lparr>mn_models := Map.empty, mn_roles := Map.empty\<rparr>)"

lemma restarted_life: "mirrors s \<Longrightarrow> life_of (restarted s) = life_of s"
  by (auto simp: mirrors_def restarted_def load_from_disk_def life_of_def stored_models_def split: option.splits)

text \<open>One record changes or appears.\<close>

definition writes :: "mns_env \<Rightarrow> mns \<Rightarrow> mns \<Rightarrow> bool" where
  "writes env s s' \<longleftrightarrow> s' = s \<or>
     (\<exists>r. s' = persist_model env r (s\<lparr>mn_models := (mn_models s)(mr_name r \<mapsto> r)\<rparr>) \<and> mr_name r \<noteq> [] \<and>
        (case mn_models s (mr_name r) of Some r0 \<Rightarrow> mr_id r = mr_id r0 | None \<Rightarrow> mr_id r = me_uuid env))"

lemma writes_one:
  assumes "life_ok (life_of s)" and "mn_models s n = Some r0" and "fixed_part r = fixed_part r0"
  shows "writes env s (persist_model env r (s\<lparr>mn_models := (mn_models s)(n \<mapsto> r)\<rparr>))"
proof -
  have n: "mr_name r = n" "n \<noteq> []" "mr_id r = mr_id r0"
    using life_ok_model(1,7) [of "mn_models s" "mn_roles s" n r0] assms by (auto simp: life_of_def fixed_part_def)
  then show ?thesis using assms(2) unfolding writes_def by (intro disjI2 exI [of _ r]) auto
qed

lemma ids_ok_update:
  assumes "ids_ok m" and "\<And>k q. m k = Some q \<Longrightarrow> k \<noteq> n \<Longrightarrow> mr_id q \<noteq> mr_id r"
  shows "ids_ok (m(n \<mapsto> r))"
  unfolding ids_ok_def
proof (intro allI impI)
  fix k k' q q' assume q: "(m(n \<mapsto> r)) k = Some q" "(m(n \<mapsto> r)) k' = Some q'" "mr_id q = mr_id q'"
  consider "k = n" "k' = n" | "k = n" "k' \<noteq> n" | "k \<noteq> n" "k' = n" | "k \<noteq> n" "k' \<noteq> n" by blast
  then show "k = k'"
    using q assms(2) [of k] assms(2) [of k'] assms(1) unfolding ids_ok_def
    by cases (auto split: if_splits)
qed

lemma other_ids:
  assumes "ids_ok m" and "m n = Some r0" and "mr_id r = mr_id r0" and "m k = Some q" and "k \<noteq> n"
  shows "mr_id q \<noteq> mr_id r"
  using assms unfolding ids_ok_def by metis

lemma persist_mirror:
  assumes db: "mn_db s = Some db" "rows_ok (db_models db)" "stored_models db = m" and works: "works env"
    and plain: "plain_record r" and name: "mr_name r \<noteq> []" and ids: "\<And>k q. m k = Some q \<Longrightarrow> k \<noteq> mr_name r \<Longrightarrow> mr_id q \<noteq> mr_id r"
  obtains db' where "mn_db (persist_model env r s) = Some db'" "rows_ok (db_models db')"
    "stored_models db' = m(mr_name r \<mapsto> r)" "db_roles db' = db_roles db"
proof -
  obtain db' where "mn_db (persist_model env r s) = Some db'" "rows_ok (db_models db')"
    "stored_models db' = (stored_models db)(mr_name r \<mapsto> r)" "db_roles db' = db_roles db"
    by (rule persist_model_stores [OF db(1,2) works plain name]) (use ids db(3) in blast)+
  then show thesis using that db(3) by blast
qed

lemma writes_mirror:
  assumes mir: "mirrors s" and ids: "ids_ok (mn_models s)" and w: "writes env s s'" and works: "works env"
    and fresh: "\<And>n r. mn_models s n = Some r \<Longrightarrow> mr_id r \<noteq> me_uuid env"
    and plain: "\<And>n r. mn_models s' n = Some r \<Longrightarrow> plain_record r"
  shows "mirrors s' \<and> ids_ok (mn_models s')"
  using w unfolding writes_def
proof (elim disjE exE conjE)
  assume "s' = s"
  then show ?thesis using mir ids by simp
next
  fix r
  let ?s = "s\<lparr>mn_models := (mn_models s)(mr_name r \<mapsto> r)\<rparr>"
  assume s': "s' = persist_model env r ?s" and name: "mr_name r \<noteq> []"
    and id: "case mn_models s (mr_name r) of Some r0 \<Rightarrow> mr_id r = mr_id r0 | None \<Rightarrow> mr_id r = me_uuid env"
  have other: "mr_id q \<noteq> mr_id r" if q: "mn_models s k = Some q" "k \<noteq> mr_name r" for k q
  proof (cases "mn_models s (mr_name r)")
    case None
    then show ?thesis using id fresh [OF q(1)] by simp
  next
    case (Some r0)
    then show ?thesis using id other_ids [OF ids Some, of r k q] q by simp
  qed
  obtain db where db: "mn_db s = Some db" "rows_ok (db_models db)" "stored_models db = mn_models s"
    "map_of (rev (db_roles db)) = mn_roles s" using mir by (auto simp: mirrors_def split: option.splits)
  have "plain_record r" using plain [of "mr_name r" r] by (simp add: s')
  then obtain db' where "mn_db (persist_model env r ?s) = Some db'" "rows_ok (db_models db')"
    "stored_models db' = (mn_models s)(mr_name r \<mapsto> r)" "db_roles db' = db_roles db"
    using persist_mirror [of ?s db "mn_models s" env r] db works name other by auto
  then have "mirrors s'" using db(4) by (simp add: mirrors_def s')
  moreover have "ids_ok (mn_models s')" using ids_ok_update [OF ids] other by (simp add: s')
  ultimately show ?thesis ..
qed

section \<open>The calls\<close>

lemma register_writes: "writes env s (snd (handle_register env body s))"
proof -
  let ?n = "mns_string body ''model_name''"
  define kind where "kind = (let k = mns_string body ''kind'' in if k = [] then ''chatbot'' else k)"
  have "writes env s (persist_model env (registered_model env ?n kind body)
      (s\<lparr>mn_models := (mn_models s)(?n \<mapsto> registered_model env ?n kind body)\<rparr>))" if "?n \<noteq> []" "mn_models s ?n = None"
  proof -
    have "mr_name (registered_model env ?n kind body) = ?n" "mr_id (registered_model env ?n kind body) = me_uuid env"
      by (simp_all add: registered_model_def Let_def)
    then show ?thesis using that unfolding writes_def
      by (intro disjI2 exI [of _ "registered_model env ?n kind body"]) simp
  qed
  moreover have "writes env s s" by (simp add: writes_def)
  ultimately show ?thesis
    unfolding handle_register_def Let_def kind_def [unfolded Let_def, symmetric]
    by (auto split: option.split)
qed

lemma transition_writes:
  assumes "life_ok (life_of s)"
  shows "writes env s (snd (handle_state_transition env name body s))"
proof (cases "mn_models s name")
  case None
  then show ?thesis by (simp add: handle_state_transition_def Let_def writes_def)
next
  case (Some r)
  have "fixed_part ((if new = ''training'' then start_training env body r else if new = ''candidate'' then finish_training env body r
      else r)\<lparr>mr_state := new, mr_updated_utc := now\<rparr>) = fixed_part r" for new now
    by (simp add: fixed_part_def start_training_def finish_training_def clear_progress_def Let_def)
  from writes_one [OF assms Some this] have w: "writes env s s" "\<And>new now. writes env s (persist_model env
      ((if new = ''training'' then start_training env body r else if new = ''candidate'' then finish_training env body r
        else r)\<lparr>mr_state := new, mr_updated_utc := now\<rparr>)
      (s\<lparr>mn_models := (mn_models s)(name \<mapsto> (if new = ''training'' then start_training env body r
        else if new = ''candidate'' then finish_training env body r else r)\<lparr>mr_state := new, mr_updated_utc := now\<rparr>)\<rparr>))"
    by (simp_all add: writes_def)
  define st where "st = mns_string body ''state''"
  consider "valid_transition (mr_state r) st = None" | "valid_transition (mr_state r) st = Some False"
    | "valid_transition (mr_state r) st = Some True"
    by (cases "valid_transition (mr_state r) st") auto
  then show ?thesis
    by cases (use Some w(1) w(2) [where new = st and now = "me_now env"] in \<open>simp_all add: handle_state_transition_def Let_def st_def [symmetric]\<close>)
qed

lemma progress_writes: "life_ok (life_of s) \<Longrightarrow> writes env s (snd (handle_progress_update env name body s))"
  by (auto simp: handle_progress_update_def Let_def fixed_part_def writes_def [of env s s] split: option.split
      intro!: writes_one)

lemma run_group_writes: "life_ok (life_of s) \<Longrightarrow> writes env s (snd (handle_update_run_group env name body s))"
  by (auto simp: handle_update_run_group_def Let_def fixed_part_def writes_def [of env s s] split: option.split
      intro!: writes_one)

lemma link_writes: "life_ok (life_of s) \<Longrightarrow> writes env s (snd (handle_link_world_model env name body s))"
  by (auto simp: handle_link_world_model_def Let_def fixed_part_def linked_names writes_def [of env s s] split: option.split
      intro!: writes_one)

lemma delete_mirror:
  assumes mir: "mirrors s" and ids: "ids_ok (mn_models s)" and works: "works env"
    and dom: "dom (mn_roles (snd (handle_mns_delete env name s))) \<subseteq> set (me_roles env)"
  shows "mirrors (snd (handle_mns_delete env name s)) \<and> ids_ok (mn_models (snd (handle_mns_delete env name s)))"
proof (cases "snd (handle_mns_delete env name s) = s")
  case False
  obtain db where db: "mn_db s = Some db" "rows_ok (db_models db)" "stored_models db = mn_models s"
    "map_of (rev (db_roles db)) = mn_roles s" using mir by (auto simp: mirrors_def split: option.splits)
  define db1 where "db1 = db\<lparr>db_models := filter (\<lambda>w. mr_name (mw_columns w) \<noteq> name) (db_models db),
    db_history := delete_history name (db_history db)\<rparr>"
  define s1 where "s1 = s\<lparr>mn_models := (mn_models s)(name := None),
    mn_roles := (\<lambda>role. if mn_roles s role = Some name then None else mn_roles s role), mn_db := Some db1\<rparr>"
  have s': "snd (handle_mns_delete env name s) = persist_roles env s1"
    using False works
    by (auto simp: handle_mns_delete_def Let_def db(1) s1_def db1_def works_def split: option.splits if_splits)
  have stored: "stored_models db1 = (mn_models s)(name := None)"
  proof
    fix n
    have "load_models (db_models db1) n = (if n = name then None else load_models (db_models db) n)"
      using load_models_row(1) [OF db(2), of n]
      by (auto simp: db1_def load_models_filter [OF db(2)] row_name_def [symmetric])
    then show "stored_models db1 n = ((mn_models s)(name := None)) n"
      by (simp add: stored_apply db1_def history_of_delete db(3) [symmetric])
  qed
  have "distinct (map row_name (db_models db1))" using db(2) by (simp add: db1_def rows_ok_def distinct_map_filter)
  then have ok: "rows_ok (db_models db1)" using db(2) by (auto simp: db1_def rows_ok_def)
  have "mn_db s1 = Some db1" by (simp add: s1_def)
  moreover have "dom (mn_roles s1) \<subseteq> set (me_roles env)" using dom unfolding s' by simp
  ultimately obtain rows where "mn_db (persist_roles env s1) = Some (db1\<lparr>db_roles := rows\<rparr>)" "map_of (rev rows) = mn_roles s1"
    using persist_roles_stores works by blast
  then have "mirrors (persist_roles env s1)" using ok stored by (simp add: mirrors_def s1_def stored_models_def)
  moreover have "ids_ok (mn_models (persist_roles env s1))" using ids by (simp add: s1_def ids_ok_def)
  ultimately show ?thesis unfolding s' ..
qed (use mir ids in simp)

text \<open>What a promotion does: retire the model before it, if that is in production, then write the model and the roles.\<close>

definition promoted :: "mns_env \<Rightarrow> string \<Rightarrow> ModelRecord \<Rightarrow> ModelRecord" where
  "promoted env role r = r\<lparr>mr_state := ''production'', mr_role := role, mr_updated_utc := me_now env\<rparr>"

definition promote_to :: "mns_env \<Rightarrow> string \<Rightarrow> string \<Rightarrow> ModelRecord \<Rightarrow> mns \<Rightarrow> mns" where
  "promote_to env role n r s =
     persist_roles env (persist_model env r (s\<lparr>mn_models := (mn_models s)(n \<mapsto> r), mn_roles := (mn_roles s)(role \<mapsto> n)\<rparr>))"

definition retires :: "mns_env \<Rightarrow> string \<Rightarrow> mns \<Rightarrow> mns \<Rightarrow> bool" where
  "retires env n s s1 \<longleftrightarrow> s1 = s \<or>
     (\<exists>p p0. mr_name p \<noteq> n \<and> mn_models s (mr_name p) = Some p0 \<and> mr_id p = mr_id p0 \<and>
        s1 = persist_model env p (s\<lparr>mn_models := (mn_models s)(mr_name p \<mapsto> p)\<rparr>))"

lemma promote_shape:
  assumes life: "life_ok (life_of s)" and changed: "snd (handle_promote env role body s) \<noteq> s"
    and r0: "mn_models s (mns_string body ''model_name'') = Some r0"
  shows "\<exists>s1. retires env (mns_string body ''model_name'') s s1 \<and>
    snd (handle_promote env role body s) = promote_to env role (mns_string body ''model_name'') (promoted env role r0) s1"
proof (cases "\<exists>q p0. mn_roles s role = Some q \<and> q \<noteq> [] \<and> q \<noteq> mns_string body ''model_name'' \<and> mn_models s q = Some p0 \<and>
    mr_state p0 = ''production''")
  case True
  let ?n = "mns_string body ''model_name''"
  obtain q p0 where q: "mn_roles s role = Some q" "q \<noteq> []" "q \<noteq> ?n" "mn_models s q = Some p0" "mr_state p0 = ''production''"
    using True by blast
  define p where "p = p0\<lparr>mr_state := ''retired'', mr_updated_utc := me_now env\<rparr>"
  have p: "mr_name p = q" "mr_id p = mr_id p0"
    using life_ok_model(1) [OF life [unfolded life_of_def] q(4)] by (simp_all add: p_def)
  let ?s1 = "persist_model env p (s\<lparr>mn_models := (mn_models s)(q \<mapsto> p)\<rparr>)"
  have "retires env ?n s ?s1" unfolding retires_def using q p by blast
  moreover have "snd (handle_promote env role body s) = promote_to env role ?n (promoted env role r0) ?s1"
    using changed r0 q p by (auto simp: handle_promote_def Let_def promote_to_def promoted_def p_def split: if_splits)
  ultimately show ?thesis by blast
next
  case False
  have "snd (handle_promote env role body s) =
      promote_to env role (mns_string body ''model_name'') (promoted env role r0) s"
    using changed r0 False
    by (auto simp: handle_promote_def Let_def promote_to_def promoted_def split: if_splits option.splits)
  then show ?thesis unfolding retires_def by blast
qed

lemma retires_mirror:
  assumes life: "life_ok (life_of s)" and db: "mn_db s = Some db" "rows_ok (db_models db)" "stored_models db = mn_models s"
    and ids: "ids_ok (mn_models s)" and works: "works env" and ret: "retires env n s s1" and n: "mn_models s n = Some r0"
    and plain: "\<And>k p. mn_models s1 k = Some p \<Longrightarrow> k \<noteq> n \<Longrightarrow> plain_record p"
  shows "(\<exists>db1. mn_db s1 = Some db1 \<and> rows_ok (db_models db1) \<and> stored_models db1 = mn_models s1) \<and> ids_ok (mn_models s1) \<and>
    mn_models s1 n = Some r0"
  using ret unfolding retires_def
proof (elim disjE exE conjE)
  assume "s1 = s"
  then show ?thesis using db ids n by simp
next
  fix p p0
  let ?s = "s\<lparr>mn_models := (mn_models s)(mr_name p \<mapsto> p)\<rparr>"
  assume p: "mr_name p \<noteq> n" "mn_models s (mr_name p) = Some p0" "mr_id p = mr_id p0" "s1 = persist_model env p ?s"
  have other: "mr_id q \<noteq> mr_id p" if "mn_models s k = Some q" "k \<noteq> mr_name p" for k q
    using other_ids [OF ids p(2), of p k q] that p(3) by simp
  have plain_p: "plain_record p" by (rule plain [of "mr_name p"]) (simp_all add: p(1,4))
  have name: "mr_name p \<noteq> []" using life_ok_model(7) [OF life [unfolded life_of_def] p(2)] .
  have "mn_db ?s = Some db" by (simp add: db(1))
  from persist_mirror [OF this db(2,3) works plain_p name] other
  obtain db1 where "mn_db (persist_model env p ?s) = Some db1" "rows_ok (db_models db1)"
    "stored_models db1 = (mn_models s)(mr_name p \<mapsto> p)" by blast
  moreover have "ids_ok ((mn_models s)(mr_name p \<mapsto> p))" by (rule ids_ok_update [OF ids other])
  ultimately show ?thesis using p n by simp
qed

lemma promote_to_mirror:
  assumes db: "mn_db s = Some db" "rows_ok (db_models db)" "stored_models db = mn_models s"
    and ids: "ids_ok (mn_models s)" and works: "works env" and n: "mn_models s (mr_name r) = Some r0" "mr_id r = mr_id r0"
    and name: "mr_name r \<noteq> []" and plain: "plain_record r"
    and dom: "dom (mn_roles (promote_to env role (mr_name r) r s)) \<subseteq> set (me_roles env)"
  shows "mirrors (promote_to env role (mr_name r) r s) \<and> ids_ok (mn_models (promote_to env role (mr_name r) r s))"
proof -
  let ?s = "s\<lparr>mn_models := (mn_models s)(mr_name r \<mapsto> r), mn_roles := (mn_roles s)(role \<mapsto> mr_name r)\<rparr>"
  have other: "mr_id q \<noteq> mr_id r" if "mn_models s k = Some q" "k \<noteq> mr_name r" for k q
    using other_ids [OF ids n(1), of r k q] that n(2) by simp
  have "mn_db ?s = Some db" by (simp add: db(1))
  from persist_mirror [OF this db(2,3) works plain name] other
  obtain db2 where db2: "mn_db (persist_model env r ?s) = Some db2" "rows_ok (db_models db2)"
    "stored_models db2 = (mn_models s)(mr_name r \<mapsto> r)" by metis
  have "dom (mn_roles (persist_model env r ?s)) \<subseteq> set (me_roles env)" using dom by (simp add: promote_to_def)
  then obtain rows where "mn_db (promote_to env role (mr_name r) r s) = Some (db2\<lparr>db_roles := rows\<rparr>)"
    "map_of (rev rows) = mn_roles (persist_model env r ?s)"
    using persist_roles_stores [OF db2(1) works] unfolding promote_to_def by blast
  then have "mirrors (promote_to env role (mr_name r) r s)" using db2 by (simp add: mirrors_def promote_to_def stored_models_def)
  moreover have "ids_ok (mn_models (promote_to env role (mr_name r) r s))"
    using ids_ok_update [OF ids, of "mr_name r" r] other by (simp add: promote_to_def)
  ultimately show ?thesis ..
qed

lemma promote_mirror:
  assumes life: "life_ok (life_of s)" and mir: "mirrors s" and ids: "ids_ok (mn_models s)" and works: "works env"
    and dom: "dom (mn_roles (snd (handle_promote env role body s))) \<subseteq> set (me_roles env)"
    and plain: "\<And>n r. mn_models (snd (handle_promote env role body s)) n = Some r \<Longrightarrow> plain_record r"
  shows "mirrors (snd (handle_promote env role body s)) \<and> ids_ok (mn_models (snd (handle_promote env role body s)))"
proof (cases "snd (handle_promote env role body s) = s")
  case False
  let ?n = "mns_string body ''model_name''"
  obtain r0 where r0: "mn_models s ?n = Some r0" using False by (auto simp: handle_promote_def Let_def split: if_splits option.splits)
  define r where "r = promoted env role r0"
  obtain s1 where ret: "retires env ?n s s1" and s': "snd (handle_promote env role body s) = promote_to env role ?n r s1"
    using promote_shape [OF life False r0] unfolding r_def by blast
  obtain db where db: "mn_db s = Some db" "rows_ok (db_models db)" "stored_models db = mn_models s"
    using mir by (auto simp: mirrors_def split: option.splits)
  have others: "plain_record p" if "mn_models s1 k = Some p" "k \<noteq> ?n" for k p
    by (rule plain [of k]) (use that in \<open>simp add: s' promote_to_def\<close>)
  from retires_mirror [OF life db ids works ret r0] others
  obtain db1 where db1: "mn_db s1 = Some db1" "rows_ok (db_models db1)" "stored_models db1 = mn_models s1"
    and ids1: "ids_ok (mn_models s1)" and n1: "mn_models s1 ?n = Some r0" by blast
  have name: "mr_name r = ?n" "?n \<noteq> []" "mr_id r = mr_id r0"
    using life_ok_model(1,7) [OF life [unfolded life_of_def] r0] by (simp_all add: r_def promoted_def)
  have "plain_record r" by (rule plain [of ?n]) (simp add: s' promote_to_def)
  then show ?thesis using promote_to_mirror [OF db1 ids1 works, of r r0 role] dom n1 name unfolding s' by simp
qed (use mir ids in simp)

section \<open>Every call\<close>

definition stored_well :: "mns_env \<Rightarrow> mns_call \<Rightarrow> mns \<Rightarrow> bool" where
  "stored_well env c s \<longleftrightarrow>
     works env \<and> dom (mn_roles (snd (mns_step env c s))) \<subseteq> set (me_roles env) \<and>
     (\<forall>n r. mn_models s n = Some r \<longrightarrow> mr_id r \<noteq> me_uuid env) \<and>
     (\<forall>n r. mn_models (snd (mns_step env c s)) n = Some r \<longrightarrow> plain_record r)"

lemma mns_step_mirror:
  assumes life: "life_ok (life_of s)" and mir: "mirrors s" and ids: "ids_ok (mn_models s)" and well: "stored_well env c s"
  shows "mirrors (snd (mns_step env c s)) \<and> ids_ok (mn_models (snd (mns_step env c s)))"
proof -
  note well = well [unfolded stored_well_def]
  have w: "mirrors (snd (mns_step env c s)) \<and> ids_ok (mn_models (snd (mns_step env c s)))"
    if "writes env s (snd (mns_step env c s))"
    by (rule writes_mirror [OF mir ids that]) (use well in blast)+
  show ?thesis
  proof (cases c)
    case (Delete_Name name)
    then show ?thesis using delete_mirror [OF mir ids, of env name] well by (simp add: mns_step_def)
  next
    case (Promote role body)
    then show ?thesis using promote_mirror [OF life mir ids, of env role body] well by (simp add: mns_step_def)
  qed (use w life in \<open>simp_all add: mns_step_def register_writes transition_writes progress_writes run_group_writes link_writes\<close>)
qed

primrec all_stored :: "(mns_env \<times> mns_call) list \<Rightarrow> mns \<Rightarrow> bool" where
  "all_stored [] s = True"
| "all_stored (x # xs) s = (stored_well (fst x) (snd x) s \<and> all_stored xs (snd (mns_step (fst x) (snd x) s)))"

lemma mns_steps_mirror:
  "life_ok (life_of s) \<Longrightarrow> mirrors s \<Longrightarrow> ids_ok (mn_models s) \<Longrightarrow> all_stored calls s \<Longrightarrow> mirrors (mns_steps calls s)"
proof (induction calls arbitrary: s)
  case (Cons x xs)
  then show ?case using mns_step_mirror life_step_ok [OF mns_step_life Cons.prems(1)] by simp
qed simp

end
