(* ===== verification/Mns_Defaults.thy ===== *)
theory Mns_Defaults
  imports Mns_Text
begin

text \<open>
  The connection of a model that names none is plain: its floats (0, 0.95 and 1) are themselves again after being printed
  with six digits and read as a \<open>double\<close>. The units of a \<open>double\<close> are a power too large to write out, so the
  arithmetic keeps one factor of it symbolic.
\<close>

section \<open>Rounding\<close>

lemma log2_floor_eq: "2 ^ k \<le> n \<Longrightarrow> n < 2 * 2 ^ k \<Longrightarrow> log2_floor n = k"
proof (induction k arbitrary: n)
  case 0
  then show ?case by (subst log2_floor.simps) simp
next
  case (Suc k)
  have "log2_floor (n div 2) = k" by (rule Suc.IH) (use Suc.prems in auto)
  moreover have "(1 :: int) \<le> 2 ^ k" by simp
  then have "\<not> n < 2" using Suc.prems(1) unfolding power_Suc by linarith
  ultimately show ?case by (subst log2_floor.simps) simp
qed

lemma log2_floor_div: "0 < d \<Longrightarrow> d * 2 ^ k \<le> n \<Longrightarrow> n < d * (2 * 2 ^ k) \<Longrightarrow> log2_floor (n div d) = k"
proof (rule log2_floor_eq)
  assume d: "0 < d" and n: "d * 2 ^ k \<le> n" "n < d * (2 * 2 ^ k)"
  show "2 ^ k \<le> n div d" using zdiv_mono1 [OF n(1) d] d by simp
  show "n div d < 2 * 2 ^ k" 
  proof -
    have "d * (n div d) + n mod d = n" "0 \<le> n mod d" using d by simp_all
    then have "d * (n div d) < d * (2 * 2 ^ k)" using n(2) by linarith
    then show ?thesis using d by (simp only: mult_less_cancel_left_pos)
  qed
qed

lemma div_even_cancel: "0 < c \<Longrightarrow> div_even (n * c) (d * c) = div_even n d"
proof -
  assume c: "0 < c"
  have m: "n * c div (d * c) = n div d" "n * c mod (d * c) = n mod d * c" using c by (simp_all add: mult_mod_left)
  have "2 * (n mod d * c) > d * c \<longleftrightarrow> 2 * (n mod d) > d" "2 * (n mod d * c) = d * c \<longleftrightarrow> 2 * (n mod d) = d"
    using c by (metis mult.assoc mult_less_cancel_right_pos, metis c mult.assoc mult_cancel_right order_less_irrefl)
  then show ?thesis by (simp add: div_even_def m Let_def)
qed

lemma round_units_cancel: "0 < c \<Longrightarrow> round_units (n * c) (d * c) = round_units n d"
proof -
  assume c: "0 < c"
  have "n * c * ONE_UNITS div (d * c) = n * ONE_UNITS div d"
    using c by (metis div_mult_mult2 less_irrefl mult.assoc mult.commute)
  moreover have "div_even (n * c * ONE_UNITS) (d * c * 2 ^ k) = div_even (n * ONE_UNITS) (d * 2 ^ k)" for k
    using div_even_cancel [OF c, of "n * ONE_UNITS" "d * 2 ^ k"] by (simp add: mult.assoc mult.left_commute mult.commute)
  ultimately show ?thesis by (simp add: round_units_def round_shift_def)
qed

definition DBL_SCALE :: int where "DBL_SCALE = 2 ^ 1021"

lemma DBL_SCALE: "0 < DBL_SCALE" "DBL_UNITS = 2 ^ 53 * DBL_SCALE" "2 ^ 1073 = 2 ^ 52 * DBL_SCALE" "2 ^ 2098 = 2 ^ 1077 * DBL_SCALE"
  by (simp_all add: DBL_SCALE_def DBL_UNITS_def flip: power_add)

lemma round_dbl_095: "round_dbl 95 100 = 8556839292003942 * DBL_SCALE"
proof -
  have "log2_floor (95 * DBL_UNITS div 100) = 1073"
  proof (rule log2_floor_div)
    show "100 * 2 ^ 1073 \<le> 95 * DBL_UNITS" "95 * DBL_UNITS < 100 * (2 * 2 ^ 1073)" unfolding DBL_SCALE(2) DBL_SCALE(3) using DBL_SCALE(1) by simp_all
  qed simp
  moreover have "div_even (95 * (2 ^ 53 * DBL_SCALE)) (100 * DBL_SCALE) = 8556839292003942"
    using div_even_cancel [OF DBL_SCALE(1), of "95 * 2 ^ 53" 100] by (simp add: mult.assoc) (simp add: div_even_def)
  ultimately show ?thesis by (simp add: round_dbl_def DBL_SCALE(2)) (simp add: DBL_SCALE_def)
qed

lemma div_below_div_even: "n div d \<le> div_even n d"
  by (simp add: div_even_def Let_def)

lemma to_double_095: "to_double 95 100 = Some (8556839292003942 * DBL_SCALE)"
proof -
  have "\<not> 8556839292003942 * DBL_SCALE \<ge> 2 ^ 2098" unfolding DBL_SCALE(4) using DBL_SCALE(1) by simp
  moreover have "2 ^ 53 \<le> 2 * (95 * (2 ^ 53 * DBL_SCALE)) div 100"
  proof -
    have "2 ^ 53 * 100 \<le> 2 * (95 * (2 ^ 53 * DBL_SCALE))" using DBL_SCALE(1) by simp
    from zdiv_mono1 [OF this, of 100] show ?thesis by simp
  qed
  then have "\<not> div_even (2 * (95 * DBL_UNITS)) 100 < 2 ^ 53"
    using div_below_div_even [of "2 * (95 * DBL_UNITS)" 100] unfolding DBL_SCALE(2) by linarith
  ultimately show ?thesis unfolding to_double_def round_dbl_095 Let_def by simp
qed

lemma round_units_095: "round_units (8556839292003942 * DBL_SCALE) DBL_UNITS = 677942645528271770479224248904145003987599360"
proof -
  have "log2_floor (8556839292003942 * ONE_UNITS div 2 ^ 53) = 148" by (rule log2_floor_div) (simp_all add: ONE_UNITS_def)
  then show ?thesis
    unfolding DBL_SCALE(2) round_units_cancel [OF DBL_SCALE(1)] by (simp add: round_units_def round_shift_def ONE_UNITS_def div_even_def)
qed

lemma digits_095: "six_digits 677942645528271770479224248904145003987599360 (nat ONE_UNITS) = (950000, -1)"
  by (simp add: six_digits_def log10_down.simps ONE_UNITS_def div_half_even_def)

lemma digits_text_095: "nat_to_string 950000 = ''950000''"
proof -
  have "char_of (57::nat) = CHR ''9''" "char_of (53::nat) = CHR ''5''" "char_of (48::nat) = CHR ''0''" by code_simp+
  then show ?thesis by (simp add: nat_to_string.simps digit_char_def)
qed

lemma print_095: "print_float (Finite (F32 False 677942645528271770479224248904145003987599360)) = ''0.95''"
  by (simp add: print_float_def stream_float_def format_g6_def digits_095 strip_zeros_def with_point_def digits_text_095)

lemma stod_095: "stod ''0.95'' = map_option (Dbl False) (to_double 95 100)"
proof -
  have "decimal_prefix ''0.95'' = Some (95, 100)" by code_simp
  then show ?thesis by (simp add: stod_def signed_prefix_def is_space_def to_lower_def less_eq_char_def)
qed

lemma units_095: "round_units 95 100 = 677942645528271770479224248904145003987599360"
proof -
  have "log2_floor (95 * ONE_UNITS div 100) = 148" by (rule log2_floor_div) (simp_all add: ONE_UNITS_def)
  then show ?thesis by (simp add: round_units_def round_shift_def ONE_UNITS_def div_even_def)
qed

lemma prints_back_095: "prints_back (Finite (F32 False (round_units 95 100)))"
  unfolding prints_back_def units_095 print_095 stod_095 to_double_095
  by (simp add: double_to_float_def round_units_095 Let_def)

lemma prints_back_0: "prints_back FLOAT_ZERO"
proof -
  have "print_float FLOAT_ZERO = ''0''" by (simp add: print_float_def stream_float_def format_g6_def FLOAT_ZERO_def)
  moreover have "stod ''0'' = map_option (Dbl False) (to_double 0 1)"
  proof -
    have "decimal_prefix ''0'' = Some (0, 1)" by code_simp
    then show ?thesis by (simp add: stod_def signed_prefix_def is_space_def to_lower_def less_eq_char_def)
  qed
  moreover have "div_even 0 d = 0" if "0 < d" for d using that by (simp add: div_even_def)
  then have "round_dbl 0 1 = 0" "round_units 0 DBL_UNITS = 0" by (simp_all add: round_dbl_def round_units_def DBL_UNITS_def DBL_SCALE_def)
  then have "to_double 0 1 = Some 0" "double_to_float (Dbl False 0) = FLOAT_ZERO"
    by (simp_all add: to_double_def double_to_float_def FLOAT_ZERO_def)
  ultimately show ?thesis by (simp add: prints_back_def)
qed

lemma prints_back_1: "prints_back ONE"
proof -
  have "char_of (49::nat) = CHR ''1''" "char_of (48::nat) = CHR ''0''" by code_simp+
  then have "nat_to_string 100000 = ''100000''" by (simp add: nat_to_string.simps digit_char_def)
  moreover have "six_digits (nat ONE_UNITS) (nat ONE_UNITS) = (100000, 0)"
    by (simp add: six_digits_def log10_up.simps ONE_UNITS_def div_half_even_def)
  ultimately have "print_float ONE = ''1''"
    by (simp add: print_float_def stream_float_def format_g6_def strip_zeros_def with_point_def ONE_def) (simp add: ONE_UNITS_def)
  moreover have "stod ''1'' = map_option (Dbl False) (to_double 1 1)"
  proof -
    have "decimal_prefix ''1'' = Some (1, 1)" by code_simp
    then show ?thesis by (simp add: stod_def signed_prefix_def is_space_def to_lower_def less_eq_char_def)
  qed
  moreover have "round_dbl 1 1 = DBL_UNITS"
  proof -
    have "log2_floor (1 * DBL_UNITS div 1) = 1074" by (rule log2_floor_div) (simp_all add: DBL_UNITS_def)
    then show ?thesis using div_even_cancel [of "2 ^ 1022" "2 ^ 52" 1]
      by (simp add: round_dbl_def) (simp add: DBL_UNITS_def div_even_def)
  qed
  then have "to_double 1 1 = Some DBL_UNITS" by (simp add: to_double_def) (simp add: DBL_UNITS_def div_even_def)
  moreover have "log2_floor (1 * ONE_UNITS div 1) = 149" by (rule log2_floor_div) (simp_all add: ONE_UNITS_def)
  then have "round_units 1 1 = ONE_UNITS" by (simp add: round_units_def round_shift_def) (simp add: ONE_UNITS_def div_even_def)
  then have "double_to_float (Dbl False DBL_UNITS) = ONE"
    using round_units_cancel [of DBL_UNITS 1 1] by (simp add: double_to_float_def ONE_def DBL_UNITS_def) (simp add: ONE_UNITS_def)
  ultimately show ?thesis by (simp add: prints_back_def)
qed

lemma no_connection_plain: "plain_connection no_connection"
  by (simp add: plain_connection_def no_connection_def clean_name_def prints_back_095 prints_back_0 prints_back_1)
end
