(* ===== verification/Mns_Properties.thy ===== *)
theory Mns_Properties
  imports Mns_Links Mns_Restart Mns_Defaults
begin

text \<open>
  The model name service: every call is a step of the life-cycle machine, at most one model serves a role, histories
  only grow, a superseded trainer is turned away, links fit, and a restart loses nothing.
\<close>

section \<open>Example service\<close>

definition empty_service :: "mns_db option \<Rightarrow> mns" where
  "empty_service db =
     \<lparr>mn_models = Map.empty, mn_roles = Map.empty, mn_db = db, mn_registry_url = [], mn_registry_group = [],
      mn_admin_enabled = True, mn_config = None\<rparr>"

definition empty_mns_db :: mns_db where
  "empty_mns_db = \<lparr>db_models = [], db_history = [], db_roles = []\<rparr>"

definition example_env :: mns_env where
  "example_env = \<lparr>me_uuid = ''id'', me_now = ''now'', me_works = (\<lambda>_. True), me_roles = [''qa'']\<rparr>"

definition register_m :: string where
  "register_m = object_text [text_field ''model_name'' ''m1'']"

definition to_state :: "string \<Rightarrow> string" where
  "to_state st = object_text [text_field ''state'' st]"

definition new_run_body :: string where
  "new_run_body = object_text [text_field ''state'' ''training'', raw_field ''new_run'' ''true'']"

definition late_body :: string where
  "late_body = object_text [text_field ''state'' ''candidate'', text_field ''run_id'' ''run-01'']"

lemma empty_life: "life_ok (life_of (empty_service db))"
  by (simp add: life_ok_def life_of_def empty_service_def)

lemma example_texts:
  "mns_string register_m ''model_name'' = ''m1''" "mns_string register_m ''kind'' = []" "mns_string register_m ''role'' = []"
  "mns_string register_m ''run_group'' = []" "extract_object register_m ''arch'' = ''{}''"
  "extract_object register_m ''connection'' = ''{}''" "parse_string_map (extract_object register_m ''tags'') = []"
  "mns_valid_name ''m1''" "mns_valid_name ''qa''"
  by code_simp+

lemma example_states:
  "mns_string (to_state ''training'') ''state'' = ''training''" "mns_bool (to_state ''training'') ''new_run'' False = False"
  "mns_string (to_state ''candidate'') ''state'' = ''candidate''" "mns_string (to_state ''candidate'') ''run_id'' = []"
  "mns_string new_run_body ''state'' = ''training''" "mns_bool new_run_body ''new_run'' False = True"
  "mns_string late_body ''state'' = ''candidate''" "mns_string late_body ''run_id'' = ''run-01''"
  by code_simp+

text \<open>The model the first call makes.\<close>

definition model_m :: ModelRecord where
  "model_m = no_model\<lparr>mr_id := ''id'', mr_name := ''m1'', mr_created_utc := ''now'', mr_updated_utc := ''now''\<rparr>"

lemma registered_m: "registered_model example_env ''m1'' ''chatbot'' register_m = model_m"
  by (simp add: registered_model_def model_m_def Let_def example_texts example_env_def no_model_def)

lemma example_register:
  "snd (mns_step example_env (Register register_m) (empty_service db)) =
     persist_model example_env model_m ((empty_service db)\<lparr>mn_models := [''m1'' \<mapsto> model_m]\<rparr>)"
proof -
  have "chatbot_error Map.empty model_m = None"
    by (simp add: chatbot_error_def pair_error_def model_m_def no_model_def no_connection_def Let_def)
  then show ?thesis
    by (simp add: mns_step_def handle_register_def Let_def example_texts registered_m known_kind_def empty_service_def)
qed

lemma example_models: "mn_models (mns_steps [(example_env, Register register_m)] (empty_service db)) = [''m1'' \<mapsto> model_m]"
  by (simp add: example_register)

lemma empty_service_simps [simp]:
  "mn_db (empty_service db) = db" "mn_roles (empty_service db) = Map.empty" "mn_models (empty_service db) = Map.empty"
  by (simp_all add: empty_service_def)

lemma in_memory:
  "mn_db s = None \<Longrightarrow> persist_model env r s = s" "mn_db s = None \<Longrightarrow> persist_roles env s = s"
  by (simp_all add: persist_model_def persist_roles_def)

lemma model_m_state: "mr_state model_m = ''initializing''" "mr_run_number model_m = 0" "mr_role model_m = []"
    "mr_kind model_m = ''chatbot''"
  by (simp_all add: model_m_def no_model_def)

section \<open>The life cycle\<close>

text \<open>C16: The service refines the life-cycle machine: whatever a request asks and whatever the database does, the two
  tables in memory take one step of the machine, in which a model is created once, moves only along the edges of the
  state diagram, keeps its identity, kind, dimensions and encoder and decoder, and is only deleted by name, while it
  is neither training, candidate nor in production.\<close>

theorem mns_refines_life: "life_step (deleted_name c) (life_of s) (life_of (snd (mns_step env c s)))"
  by (rule mns_step_life)

text \<open>C17: A role is served by one model: however a service that began empty was called, a model in production is the
  one its role names, so no two models are in production for the same role.\<close>

theorem production_unique:
  assumes "mn_models (mns_steps calls (empty_service db)) n = Some r" and "mr_state r = ''production''"
    and "mn_models (mns_steps calls (empty_service db)) n' = Some r'" and "mr_state r' = ''production''"
    and "mr_role r = mr_role r'"
  shows "n = n' \<and> mn_roles (mns_steps calls (empty_service db)) (mr_role r) = Some n"
proof -
  have "life_ok (life_of (mns_steps calls (empty_service db)))" by (rule mns_steps_ok [OF empty_life])
  then have ok: "life_ok (mn_models (mns_steps calls (empty_service db)), mn_roles (mns_steps calls (empty_service db)))"
    by (simp add: life_of_def)
  show ?thesis using life_ok_model(6) [OF ok assms(1,2)] life_ok_model(6) [OF ok assms(3,4)] assms(5) by simp
qed

definition promotion :: "(mns_env \<times> mns_call) list" where
  "promotion = [(example_env, Register register_m), (example_env, Transition ''m1'' (to_state ''candidate'')),
     (example_env, Promote ''qa'' register_m)]"

lemma promotion_models:
  "\<exists>r. mn_models (mns_steps promotion (empty_service None)) ''m1'' = Some r \<and> mr_state r = ''production''"
  by (simp add: promotion_def example_register in_memory)
    (simp add: mns_step_def handle_state_transition_def handle_promote_def Let_def example_states example_texts model_m_state
      valid_transition_def in_memory)

theorem production_unique_witness:
  "\<exists>r. mn_models (mns_steps promotion (empty_service None)) ''m1'' = Some r \<and>
     mn_roles (mns_steps promotion (empty_service None)) (mr_role r) = Some ''m1''"
  using promotion_models production_unique [of promotion None "''m1''" _ "''m1''"] by blast

text \<open>What is known of a model is not lost: unless the model is deleted, later calls keep its identity, kind and
  dimensions, only append to its training history, and never lower its run number.\<close>

theorem model_history_grows:
  assumes "mn_models (mns_steps calls (empty_service db)) n = Some r"
    and "list_all (\<lambda>(env, c). c \<noteq> Delete_Name n) later"
  shows "\<exists>r'. mn_models (mns_steps later (mns_steps calls (empty_service db))) n = Some r' \<and> fixed_part r' = fixed_part r \<and>
    prefix (mr_history r) (mr_history r') \<and> mr_run_number r \<le> mr_run_number r'"
  by (rule mns_steps_keep [OF mns_steps_ok [OF empty_life] assms])

theorem model_history_grows_witness:
  "\<exists>r'. mn_models (mns_steps [(example_env, Transition ''m1'' (to_state ''training''))]
      (mns_steps [(example_env, Register register_m)] (empty_service None))) ''m1'' = Some r' \<and>
    fixed_part r' = fixed_part model_m \<and> prefix (mr_history model_m) (mr_history r') \<and>
    mr_run_number model_m \<le> mr_run_number r'"
  by (rule model_history_grows) (simp_all add: example_register)

section \<open>Superseded trainers\<close>

lemma digits_value_zero: "digits_value (CHR ''0'' # s) = digits_value s"
  by (simp add: digits_value_def digit_value_def)

lemma zero_pad2_inject:
  assumes "0 \<le> m" and "0 \<le> n"
  shows "zero_pad2 m = zero_pad2 n \<longleftrightarrow> m = n"
proof -
  have "digits_value (zero_pad2 k) = nat k" if "0 \<le> k" for k
    using that by (simp add: zero_pad2_def int_to_string_def Let_def digits_value_zero)
  then show ?thesis using assms by (metis eq_nat_nat_iff)
qed

text \<open>C18: A superseded trainer is turned away: once a new run of a training model was started, a progress report and a
  candidate request that carry the run id of the run before are answered 409, and nothing changes.\<close>

theorem superseded_run_rejected:
  assumes "mn_models (mns_steps calls (empty_service db)) n = Some r" and "mr_state r = ''training''"
    and "mns_string body ''state'' = ''training''" and "mns_bool body ''new_run'' False"
    and "mns_string late ''run_id'' = mr_run_id r"
  shows "let s = snd (handle_state_transition env n body (mns_steps calls (empty_service db))) in
    handle_progress_update env' n late s = (superseded, s) \<and>
    (mns_string late ''state'' = ''candidate'' \<longrightarrow> handle_state_transition env' n late s = (superseded, s))"
proof -
  define s0 where "s0 = mns_steps calls (empty_service db)"
  have "life_ok (life_of s0)" unfolding s0_def by (rule mns_steps_ok [OF empty_life])
  then have known: "0 \<le> mr_run_number r" "mr_run_id r = ''run-'' @ zero_pad2 (mr_run_number r)"
    using life_ok_model [of "mn_models s0" "mn_roles s0" n r] assms(1,2) by (simp_all add: s0_def life_of_def training_named_def)
  define r' where "r' = (start_training env body r)\<lparr>mr_state := ''training'', mr_updated_utc := me_now env\<rparr>"
  let ?s = "snd (handle_state_transition env n body s0)"
  have r': "mn_models ?s n = Some r'"
    using assms(1-3) by (simp add: s0_def [symmetric] r'_def handle_state_transition_def Let_def valid_transition_def)
  have "mr_run_id r' = ''run-'' @ zero_pad2 (mr_run_number r + 1)"
    using assms(4) by (simp add: r'_def start_training_def next_run_number_def Let_def)
  then have id: "mr_run_id r' \<noteq> mr_run_id r" using known by (simp add: zero_pad2_inject)
  have state: "mr_state r' = ''training''" by (simp add: r'_def)
  have "handle_progress_update env' n late ?s = (superseded, ?s)"
    using r' state id assms(5) by (simp add: handle_progress_update_def Let_def)
  moreover have "handle_state_transition env' n late ?s = (superseded, ?s)" if "mns_string late ''state'' = ''candidate''"
    using that r' state id assms(5) by (simp add: handle_state_transition_def Let_def valid_transition_def)
  ultimately show ?thesis by (simp add: Let_def s0_def)
qed

definition first_run :: "(mns_env \<times> mns_call) list" where
  "first_run = [(example_env, Register register_m), (example_env, Transition ''m1'' (to_state ''training''))]"

lemma first_run_model:
  "\<exists>r. mn_models (mns_steps first_run (empty_service None)) ''m1'' = Some r \<and> mr_state r = ''training'' \<and> mr_run_id r = ''run-01''"
proof -
  have z: "zero_pad2 1 = ''01''" by code_simp
  show ?thesis
    by (simp add: first_run_def example_register in_memory)
      (simp add: mns_step_def handle_state_transition_def Let_def example_states model_m_state
        valid_transition_def in_memory start_training_def next_run_number_def z)
qed

theorem superseded_run_rejected_witness:
  "let s = snd (handle_state_transition example_env ''m1'' new_run_body (mns_steps first_run (empty_service None))) in
    handle_progress_update example_env ''m1'' late_body s = (superseded, s) \<and>
    handle_state_transition example_env ''m1'' late_body s = (superseded, s)"
proof -
  obtain r where r: "mn_models (mns_steps first_run (empty_service None)) ''m1'' = Some r" "mr_state r = ''training''"
    "mr_run_id r = ''run-01''" using first_run_model by blast
  have "mns_bool new_run_body ''new_run'' False" "mns_string late_body ''run_id'' = mr_run_id r"
    using example_states(6,8) r(3) by simp_all
  from superseded_run_rejected [OF r(1,2) example_states(5) this, of example_env example_env] example_states(7)
  show ?thesis by (simp add: Let_def)
qed

text \<open>Unless the new call continues the run: then both trainers have the same run id, and the candidate of the one that
  was replaced is accepted.\<close>

lemma continued_run_shares_id:
  assumes "mn_models s n = Some r" and "mr_state r = ''training''" and "mr_run_id r = ''run-'' @ zero_pad2 (mr_run_number r)"
    and "mr_run_number r \<noteq> 0" and "mns_string body ''state'' = ''training''" and "\<not> mns_bool body ''new_run'' False"
    and "mns_string late ''state'' = ''candidate''" and "mns_string late ''run_id'' = mr_run_id r"
  shows "fst (fst (handle_state_transition env' n late (snd (handle_state_transition env n body s)))) = 200"
proof -
  define r' where "r' = (start_training env body r)\<lparr>mr_state := ''training'', mr_updated_utc := me_now env\<rparr>"
  have "mn_models (snd (handle_state_transition env n body s)) n = Some r'"
    using assms(1,2,5) by (simp add: r'_def handle_state_transition_def Let_def valid_transition_def)
  moreover have "mr_run_id r' = mr_run_id r" "mr_state r' = ''training''"
    using assms(3,4,6) by (simp_all add: r'_def start_training_def next_run_number_def Let_def)
  moreover have "mr_run_id r \<noteq> []" using assms(3) by simp
  ultimately show ?thesis using assms(7,8) by (simp add: handle_state_transition_def Let_def valid_transition_def)
qed

section \<open>Links\<close>

text \<open>C19: Links fit: a registered encoder, decoder or world model has exactly its own stack of layers and positive
  dimensions, and a chatbot's encoder and decoder exist, are of these kinds and of one shape, and its world model exists
  and has the dimension its injection needs. This stays so through registrations, links, training and promotions, as
  long as only models that nobody links are deleted.\<close>

theorem links_stay_fit:
  assumes "deletes_unlinked calls (empty_service db)" and "mn_models (mns_steps calls (empty_service db)) n = Some r"
  shows "fits (mn_models (mns_steps calls (empty_service db))) r"
proof -
  have "links_ok (mn_models (empty_service db))" by (simp add: links_ok_def)
  from mns_steps_links [OF empty_life this assms(1)] assms(2) show ?thesis unfolding links_ok_def by blast
qed

theorem links_stay_fit_witness:
  "\<exists>r. mn_models (mns_steps first_run (empty_service None)) ''m1'' = Some r \<and>
     fits (mn_models (mns_steps first_run (empty_service None))) r"
proof -
  have "deletes_unlinked first_run (empty_service None)" by (simp add: first_run_def)
  from links_stay_fit [OF this, of "''m1''"] first_run_model show ?thesis by blast
qed

text \<open>The condition on deletions matters: the service itself lets the encoder of a chatbot go.\<close>

lemma deleting_an_encoder_dangles:
  assumes "mn_models s e = Some enc" and "mr_state enc \<in> {''initializing'', ''retired''}"
    and "mr_kind r = ''chatbot''" and "mc_encoder_name (mr_connection r) = e" and "e \<noteq> []"
  shows "fst (fst (handle_mns_delete env e s)) = 200 \<and> \<not> fits (mn_models (snd (handle_mns_delete env e s))) r"
  using assms by (auto simp: handle_mns_delete_def Let_def fits_def linked_pair_def)

section \<open>Restarting\<close>

text \<open>C15: A restart loses nothing: after any calls of a service that began with an empty database, whose statements
  succeeded and whose records have texts and floats that survive their columns, loading the database gives back exactly
  the models, with their histories, tags and connections, and the roles.\<close>

theorem restart_restores:
  assumes "all_stored calls (empty_service (Some empty_mns_db))"
  shows "life_of (restarted (mns_steps calls (empty_service (Some empty_mns_db)))) =
    life_of (mns_steps calls (empty_service (Some empty_mns_db)))"
proof -
  have "stored_models empty_mns_db = Map.empty"
    by (simp add: empty_mns_db_def stored_models_def load_history_def load_models_def)
  then have "mirrors (empty_service (Some empty_mns_db))"
    by (simp add: mirrors_def rows_ok_def) (simp add: empty_mns_db_def)
  moreover have "ids_ok (mn_models (empty_service (Some empty_mns_db)))" by (simp add: ids_ok_def)
  ultimately show ?thesis by (intro restarted_life mns_steps_mirror [OF empty_life] assms)
qed

lemma plain_model_m: "plain_record model_m"
  by (simp add: plain_record_def model_m_def no_model_def no_artifact_def no_connection_plain plain_tags_def real_column_def DBL_ZERO_def)

theorem restart_restores_witness:
  "mn_models (restarted (mns_steps [(example_env, Register register_m)] (empty_service (Some empty_mns_db)))) =
     [''m1'' \<mapsto> model_m]"
proof -
  have "stored_well example_env (Register register_m) (empty_service (Some empty_mns_db))"
    by (simp add: stored_well_def example_register plain_model_m works_def) (simp add: example_env_def)
  then have "all_stored [(example_env, Register register_m)] (empty_service (Some empty_mns_db))" by simp
  from restart_restores [OF this] show ?thesis by (simp add: life_of_def example_register)
qed

text \<open>What does not survive: a line feed in a tag comes back as the letter n, and the old record files are not taken over
  at all, because the statement that writes their records binds 26 values and the table has 28 columns.\<close>

lemma tag_line_feed_lost: "parse_string_map (tags_to_json [(''k'', [NL])]) = [(''k'', ''n'')]"
  by code_simp

lemma migration_drops_records:
  "snd (migrate_from_jsonl models_jsonl roles_json db) = 0 \<and> db_models (fst (migrate_from_jsonl models_jsonl roles_json db)) = db_models db"
proof -
  have "migrate_bindings \<noteq> length models_columns" by (simp add: migrate_bindings_def models_columns_def)
  then have line: "migrate_line line x = x" for line x
    by (cases x) (simp add: migrate_line_def Let_def)
  have "foldl (\<lambda>x line. migrate_line line x) x lines = x" for x lines by (induction lines) (simp_all add: line)
  then show ?thesis by (simp add: migrate_from_jsonl_def split: option.split)
qed

end
