(* ===== verification/Spec2Isabelle.thy ===== *)
theory Spec2Isabelle
  imports Parquet_Properties Conversation_Properties Trainer_Properties Text_Properties Bpe_Properties Special_Tokens
    Config_Properties Registry_Properties Training_Properties Remote_Properties Mns_Properties
begin

text \<open>
  A model of the core logic of adai in HOL. adai trains and serves a chatbot: datasets are converted from
  Parquet to JSON lines, a registry hands the files out to training runs, conversations are kept within a token budget,
  text is tokenized by byte-pair encoding, training passes run under a supervising service, a name service knows which
  models exist and which one serves, and every program reads one configuration format. The model
  covers the parts of \<^verbatim>\<open>src/src\<close> whose correctness is a matter of logic, not of floating-point numerics or of
  the network.

  \<^item> Datasets, \<^verbatim>\<open>ParquetReader.cpp\<close>. \<open>Parquet_Thrift\<close> (compact protocol cursor, \<open>skip_value\<close>, \<open>next_field\<close>),
    \<open>Parquet_Meta\<close> (the \<open>parse_\<close> functions), \<open>Snappy\<close>, \<open>Parquet_Rle\<close> (RLE and bit-packed runs),
    \<open>Parquet_Values\<close> (PLAIN values, JSON cells), \<open>Parquet_Reader\<close> (pages, column chunks, row groups, preflight) and
    \<open>Parquet_Convert\<close> (\<open>convert_to_jsonl\<close> over a map of files). \<open>Parquet_Wire\<close>, \<open>Parquet_Meta_Sem\<close> and
    \<open>Parquet_Footer\<close> describe the encodings as relations, so that decoders are shown to invert them. A buffer
    is a list of 8-bit words with a position, a failed parse is \<open>None\<close>, reads of the bit loops are checked.
  \<^item> Conversations, \<^verbatim>\<open>ConversationFormat.cpp\<close> and \<^verbatim>\<open>ConversationContext.cpp\<close>: \<open>Conversation_Format\<close> and
    \<open>Conversation_Context\<close>. The token counter is an argument; the state is a record, every method a function on it.
  \<^item> Training control, \<^verbatim>\<open>TrainerControlState.hpp\<close>, \<^verbatim>\<open>TrainerServiceMain.cpp\<close>,
    \<^verbatim>\<open>TrainerServiceControlState.hpp\<close>, \<^verbatim>\<open>IncrementalTrainerArgs.cpp\<close>: \<open>Trainer_Control\<close> and \<open>Trainer_Service\<close>. Threads
    are labelled step relations with one atomic access per step; the invariants hold in every interleaving. The loop of
    the service launches a child, polls it once a second, and on a stop request stops it and waits for it
    (\<^verbatim>\<open>ChildProcess.cpp\<close>); after a stop request it ends within 13 steps of its own, whatever the other threads do.
  \<^item> Text, \<^verbatim>\<open>BPETokenizer.cpp\<close> and \<^verbatim>\<open>SpecialTokens.hpp\<close>: \<open>Utf8\<close>, \<open>Pre_Tokenizer\<close>, \<open>Bpe\<close> (one tokenizer, merges),
    \<open>Bpe_Build\<close> (learning), \<open>Bpe_Cache\<close> (several tokenizers and threads with their caches), \<open>Bpe_Vocab\<close> (the
    vocabulary file), \<open>Special_Tokens\<close>. Standard library functions the code calls are in \<open>Text_Lib\<close>.
  \<^item> Configuration, \<^verbatim>\<open>Config.cpp\<close>: \<open>Config_Text\<close> (lines and parsers), \<open>Config_Float\<close> (\<open>std::stof\<close> with correct
    rounding, a \<open>float\<close> being a whole number of units \<open>2^-149\<close>), \<open>Config_Keys\<close> (defaults and the key tables of file
    and environment, one group per section of the code), \<open>Config_Load\<close>, \<open>Config_Validate\<close>, \<open>Config_Reload\<close>.
    \<open>Config_Tables\<close> shows that the tables agree, with the sorting check of \<open>Table_Check\<close>.

  \<^item> Dataset registry, \<^verbatim>\<open>DatasetRegistry.cpp\<close> and \<open>LocalTransport\<close> of \<^verbatim>\<open>RegistryTransport.cpp\<close>:
    \<open>Registry_Types\<close> (entries and records), \<open>Registry_Paths\<close>, \<open>Registry_Local\<close> (every operation on the shared queue and
    the trained registry, with lock, read and write failures), \<open>Registry_Claims\<close> (who holds a unit),
    \<open>Dataset_Registry\<close> (the class over any transport) and \<open>Registry_Batches\<close> (acquiring and committing a batch). The
    files are the lists of their entries. Most calls run wholly under the lock of the queue; \<open>delete_paths\<close> and
    \<open>requeue_trained\<close> read the trained registry before it and write it after it, so they are split into the part under
    the lock and the write that follows, and \<open>call\<close> of \<open>Registry_Claims\<close> has these parts as calls of their own, between
    which any others may come. What is lost in between is shown by examples.
  \<^item> Training data, \<^verbatim>\<open>TrainingSampleMeta.hpp\<close> and \<open>load_conversation_pairs\<close> of \<^verbatim>\<open>DatasetRegistry.cpp\<close>:
    \<open>Sample_Json\<close> (the hand-written JSON of a sample), \<open>Sample_Text\<close> (what is written is read back), \<open>Utf8_Encode\<close> and
    \<open>Sample_Utf8\<close> (escapes are valid UTF-8), \<open>Training_Data\<close> (files, formats and row ranges), \<open>Training_Utf8\<close> (the texts
    loaded from a file of valid UTF-8 are valid).
  \<^item> Registry daemon, \<^verbatim>\<open>RegistryServer.cpp\<close>, and \<open>RemoteTransport\<close> of \<^verbatim>\<open>RegistryTransport.cpp\<close>: \<open>Json_Value\<close>,
    \<open>Registry_Server\<close> (handlers, routes, one pool per group and kind), \<open>Registry_Leases\<close>, \<open>Registry_Remote\<close> (the client,
    whose requests and replies may be lost) and \<open>Remote_Batches\<close>. Bodies are JSON values. Requests are served one at a
    time (the daemon locks the pool a request addresses). A deletion with \<open>delete_files\<close> works on the files of the whole
    group, the queue and registry files of its other kinds included: \<open>unlink_file\<close> empties the pool whose file it meets.
  \<^item> Model name service, \<^verbatim>\<open>ModelNameService.cpp\<close>: \<open>Mns_Json\<close> (its own JSON helpers, and doubles as whole numbers of
    units \<open>2^-1074\<close>), \<open>Mns_Record\<close> (the records and their text), \<open>Mns_Service\<close> (handlers over the tables in memory and the
    rows of the database, each of whose statements may fail). \<open>Mns_Life\<close> is the abstract machine that every handler
    refines, \<open>Mns_Links\<close> what registering and linking promise; \<open>Mns_Text\<close>, \<open>Mns_Defaults\<close>, \<open>Mns_Store\<close> and
    \<open>Mns_Restart\<close> show that loading the database gives back what memory held.

  The parts meet where the program composes them: a registry acquire hands row ranges to \<open>load_conversation_pairs\<close>, whose
  texts are the valid UTF-8 the tokenizer needs; a batch behaves the same over the local and the remote transport; the
  command line the service builds is the one a pass parses.

  \<open>Prelude\<close> holds what all share: the hint collections, words and their overflow, and the locale \<open>measured_loop\<close>
  for a loop run with fuel. Interfaces are locales: \<open>byte_reader\<close>, \<open>strict_reader\<close>, \<open>value_skipper\<close>,
  \<open>field_handler\<close> and \<open>field_semantics\<close> for the parsers of the footer, \<open>suffix_counter\<close> for the token counter of a
  conversation, and \<open>shared_queue\<close> for what a training run relies on of a transport, interpreted by \<open>LocalTransport\<close> and
  by \<open>RemoteTransport\<close> over the daemon. The theories named \<open>_Properties\<close> hold the properties, each after a sentence
  that states it.

  Numbers. Sizes and counters of at most the input's length are \<open>nat\<close> or \<open>int\<close>; values that the code lets wrap
  (varints, the bit buffer, hashes, field ids) are words of their width. Loops over input recurse on a
  decreasing measure; the loops of the page and run decoders carry fuel of the declared count plus one, and the
  properties prove that it suffices. Signed sums that only overflow after two billion rows, tokens or runs (a segment's
  end in \<open>jsonl_pairs\<close>, \<open>next_run_number\<close>, token totals) are sums of \<open>int\<close>.

  Not modelled: neural network, optimizer and GPU code (floating-point numerics) and the training loops around them; the
  text syntax of the vendored JSON library, SQL and HTTP themselves, FTP and dataset transfer; the fetch, upload and
  admin settings of the registry daemon, \<^verbatim>\<open>/health\<close> and the dataset proxy of the name service; the metrics services;
  the trainer admin API and proxy, which only forward to the control states; chatbot server, command-line tools and
  GUIs; printing of progress. Log output is kept only where it carries data (configuration reloads, the log ring).
\<close>

end
